(* ===== verification/Prelude.thy ===== *)
theory Prelude
  imports Complex_Main "HOL-Library.AList" "HOL-Library.Multiset" "HOL-Library.Sublist"
begin

section \<open>Shared vocabulary of the development\<close>

text \<open>
  What every component of the front end uses: JavaScript strings as lists of UTF-16 code
  units with the string operations the sources call, insertion-ordered \<open>Map\<close> objects
  as association lists, a locale for keyed stores, a locale for state machines with an
  invariant, and generic list lemmas.
\<close>

named_theorems js_eval \<open>defining equations that evaluate closed string terms\<close>
named_theorems model_defs \<open>definitions unfolded when an operation is evaluated\<close>

subsection \<open>Strings\<close>

text \<open>
  A JavaScript string is a sequence of UTF-16 code units; \<open>length\<close>, \<open>slice\<close> and
  indexing count code units. A code unit is a natural number here, and \<open>lit\<close> embeds an
  ASCII literal.
\<close>

type_synonym jstring = "nat list"

definition lit :: "string \<Rightarrow> jstring" where
  "lit s = map of_char s"

lemma lit_eq_iff [simp]: "lit s = lit t \<longleftrightarrow> s = t"
  unfolding lit_def by (rule inj_map_eq_map) (simp add: inj_def)

lemma lit_Nil [simp]: "lit '''' = []"
  by (simp add: lit_def)

lemma lit_append [simp]: "lit (s @ t) = lit s @ lit t"
  by (simp add: lit_def)

lemma length_lit [simp]: "length (lit s) = length s"
  by (simp add: lit_def)

declare lit_def [js_eval]

definition char_unit :: "char \<Rightarrow> nat" where
  "char_unit c = of_char c"

declare char_unit_def [js_eval]

text \<open>\<open>String.prototype.startsWith\<close>, \<open>endsWith\<close>, \<open>includes\<close> and \<open>split\<close> on one unit.\<close>

fun starts_with :: "'a list \<Rightarrow> 'a list \<Rightarrow> bool" where
  "starts_with xs [] = True"
| "starts_with [] (y # ys) = False"
| "starts_with (x # xs) (y # ys) = (x = y \<and> starts_with xs ys)"

definition ends_with :: "'a list \<Rightarrow> 'a list \<Rightarrow> bool" where
  "ends_with xs ys = starts_with (rev xs) (rev ys)"

fun str_includes :: "'a list \<Rightarrow> 'a list \<Rightarrow> bool" where
  "str_includes [] ys = (ys = [])"
| "str_includes (x # xs) ys = (starts_with (x # xs) ys \<or> str_includes xs ys)"

fun split_on :: "'a \<Rightarrow> 'a list \<Rightarrow> 'a list list" where
  "split_on c [] = [[]]"
| "split_on c (x # xs) =
     (if x = c then [] # split_on c xs
      else case split_on c xs of [] \<Rightarrow> [[x]] | seg # segs \<Rightarrow> (x # seg) # segs)"

text \<open>\<open>Array.prototype.join\<close>.\<close>

fun join_with :: "'a list \<Rightarrow> 'a list list \<Rightarrow> 'a list" where
  "join_with sep [] = []"
| "join_with sep [s] = s"
| "join_with sep (s # t # ss) = s @ sep @ join_with sep (t # ss)"

lemma starts_with_prefix: "starts_with xs ys \<longleftrightarrow> prefix ys xs"
  by (induction xs ys rule: starts_with.induct) auto

lemma ends_with_suffix: "ends_with xs ys \<longleftrightarrow> suffix ys xs"
  by (simp add: ends_with_def starts_with_prefix suffix_to_prefix)

lemma str_includes_sublist: "str_includes xs ys \<longleftrightarrow> sublist ys xs"
  by (induction xs) (auto simp: starts_with_prefix sublist_Cons_right)

lemma split_on_nonempty [simp]: "split_on c xs \<noteq> []"
  by (induction xs) (auto split: list.splits)

lemma join_with_Cons_head:
  "segs \<noteq> [] \<Longrightarrow> join_with sep ((x # hd segs) # tl segs) = x # join_with sep segs"
  by (cases segs; cases "tl segs") auto

lemma join_split_on: "join_with [c] (split_on c xs) = xs"
proof (induction xs)
  case Nil
  then show ?case by simp
next
  case (Cons x xs)
  then show ?case
    by (cases "split_on c xs"; cases "tl (split_on c xs)") auto
qed

lemma split_on_no_sep: "s \<in> set (split_on c xs) \<Longrightarrow> c \<notin> set s"
  by (induction xs arbitrary: s) (auto split: if_splits list.splits)

lemma split_on_single: "c \<notin> set xs \<Longrightarrow> split_on c xs = [xs]"
  by (induction xs) auto

lemma split_on_append:
  "c \<notin> set xs \<Longrightarrow> split_on c (xs @ c # ys) = xs # split_on c ys"
  by (induction xs) auto

lemma split_join_with:
  assumes "ss \<noteq> []" and "\<And>s. s \<in> set ss \<Longrightarrow> c \<notin> set s"
  shows "split_on c (join_with [c] ss) = ss"
  using assms by (induction "[c]" ss rule: join_with.induct) (auto simp: split_on_single split_on_append)

text \<open>
  \<open>String.prototype.trim\<close> removes white space and line terminators at both ends: the code
  units of the ECMAScript productions WhiteSpace and LineTerminator.
\<close>

definition js_space :: "nat \<Rightarrow> bool" where
  "js_space c \<longleftrightarrow> c \<in> {9, 10, 11, 12, 13, 32, 160, 5760, 8232, 8233, 8239, 8287, 12288, 65279}
     \<or> (8192 \<le> c \<and> c \<le> 8202)"

definition js_trim :: "jstring \<Rightarrow> jstring" where
  "js_trim s = rev (dropWhile js_space (rev (dropWhile js_space s)))"

lemma js_trim_Nil [simp]: "js_trim [] = []"
  by (simp add: js_trim_def)

lemma js_trim_blank: "js_trim s = [] \<longleftrightarrow> (\<forall>c \<in> set s. js_space c)"
proof -
  have "dropWhile js_space (rev (dropWhile js_space s)) = [] \<longleftrightarrow> (\<forall>c \<in> set (dropWhile js_space s). js_space c)"
    by (simp add: dropWhile_eq_Nil_conv)
  also have "\<dots> \<longleftrightarrow> (\<forall>c \<in> set s. js_space c)"
    by (metis dropWhile_eq_Nil_conv set_dropWhileD hd_dropWhile hd_in_set list.set_intros(1) empty_iff list.set(1))
  finally show ?thesis by (simp add: js_trim_def)
qed

text \<open>
  The decimal rendering of an integer (\<open>String(n)\<close> and template literals) and its
  injectivity, which the collapse keys, group keys and command ids rest on.
\<close>

fun show_nat :: "nat \<Rightarrow> jstring" where
  "show_nat n = (if n < 10 then [48 + n] else show_nat (n div 10) @ [48 + n mod 10])"

declare show_nat.simps [simp del]

definition show_int :: "int \<Rightarrow> jstring" where
  "show_int i = (if i < 0 then 45 # show_nat (nat (- i)) else show_nat (nat i))"

definition is_digit_unit :: "nat \<Rightarrow> bool" where
  "is_digit_unit c \<longleftrightarrow> 48 \<le> c \<and> c \<le> 57"

definition read_nat :: "jstring \<Rightarrow> nat" where
  "read_nat s = foldl (\<lambda>acc c. 10 * acc + (c - 48)) 0 s"

lemma read_show_nat: "read_nat (show_nat n) = n"
proof (induction n rule: show_nat.induct)
  case (1 n)
  show ?case
    using 1 by (subst show_nat.simps) (auto simp: read_nat_def)
qed

lemma show_nat_inj [simp]: "show_nat m = show_nat n \<longleftrightarrow> m = n"
  by (metis read_show_nat)

lemma show_nat_digits: "c \<in> set (show_nat n) \<Longrightarrow> is_digit_unit c"
proof (induction n rule: show_nat.induct)
  case (1 n)
  then show ?case
    by (subst (asm) (2) show_nat.simps) (auto simp: is_digit_unit_def split: if_splits)
qed

lemma show_nat_not_Nil [simp]: "show_nat n \<noteq> []"
  by (subst show_nat.simps) simp

lemma show_int_inj [simp]: "show_int i = show_int j \<longleftrightarrow> i = j"
proof -
  have neg: "45 \<notin> set (show_nat n)" for n
    using show_nat_digits [of 45 n] by (auto simp: is_digit_unit_def)
  have "45 # show_nat m \<noteq> show_nat n" for m n
    using neg [of n] by (metis list.set_intros(1))
  then show ?thesis
    by (auto simp: show_int_def split: if_splits) (metis)+
qed

definition int_unit :: "nat \<Rightarrow> bool" where
  "int_unit c \<longleftrightarrow> is_digit_unit c \<or> c = 45"

lemma show_int_units: "c \<in> set (show_int i) \<Longrightarrow> int_unit c"
  by (auto simp: show_int_def int_unit_def dest: show_nat_digits split: if_splits)

lemma show_int_not_Nil [simp]: "show_int i \<noteq> []"
  by (simp add: show_int_def)

text \<open>
  A key built as a number followed by a separator and a tail determines both, because no
  digit is the separator.
\<close>

lemma number_then_sep_inj:
  assumes "\<not> int_unit c"
  shows "show_int i @ c # xs = show_int j @ c # ys \<longleftrightarrow> i = j \<and> xs = ys"
proof
  assume eq: "show_int i @ c # xs = show_int j @ c # ys"
  have "c \<notin> set (show_int i)" "c \<notin> set (show_int j)"
    using assms show_int_units by auto
  then have "split_on c (show_int i @ c # xs) = show_int i # split_on c xs"
    "split_on c (show_int j @ c # ys) = show_int j # split_on c ys"
    by (simp_all add: split_on_append)
  with eq have "show_int i = show_int j" by simp
  with eq show "i = j \<and> xs = ys" by simp
qed auto

subsection \<open>Insertion-ordered maps\<close>

text \<open>
  A \<open>Map\<close> iterates its entries in insertion order; setting a present key keeps its place and
  deleting removes it. \<open>AList.update\<close> and \<open>AList.delete\<close> of the library do exactly this.
\<close>

type_synonym ('k, 'v) jsmap = "('k \<times> 'v) list"

abbreviation map_get :: "('k, 'v) jsmap \<Rightarrow> 'k \<Rightarrow> 'v option" where
  "map_get m k \<equiv> map_of m k"

abbreviation map_set :: "'k \<Rightarrow> 'v \<Rightarrow> ('k, 'v) jsmap \<Rightarrow> ('k, 'v) jsmap" where
  "map_set k v m \<equiv> AList.update k v m"

abbreviation map_delete :: "'k \<Rightarrow> ('k, 'v) jsmap \<Rightarrow> ('k, 'v) jsmap" where
  "map_delete k m \<equiv> AList.delete k m"

definition map_has :: "('k, 'v) jsmap \<Rightarrow> 'k \<Rightarrow> bool" where
  "map_has m k \<longleftrightarrow> map_of m k \<noteq> None"

definition map_wf :: "('k, 'v) jsmap \<Rightarrow> bool" where
  "map_wf m \<longleftrightarrow> distinct (map fst m)"

text \<open>\<open>new Map(entries)\<close>: the entries set one by one.\<close>

definition map_from :: "('k \<times> 'v) list \<Rightarrow> ('k, 'v) jsmap" where
  "map_from es = foldl (\<lambda>m (k, v). map_set k v m) [] es"

lemma remdups_snoc: "remdups (xs @ [x]) = filter (\<lambda>y. y \<noteq> x) (remdups xs) @ [x]"
  by (induction xs) auto

lemma map_of_without:
  "map_of (filter (\<lambda>q. fst q \<noteq> t) xs) k = (if k = t then None else map_of xs k)"
  by (induction xs) auto

locale keyed_store =
  fixes get :: "'m \<Rightarrow> 'k \<Rightarrow> 'v option"
    and put :: "'k \<Rightarrow> 'v \<Rightarrow> 'm \<Rightarrow> 'm"
    and del :: "'k \<Rightarrow> 'm \<Rightarrow> 'm"
    and wf :: "'m \<Rightarrow> bool"
  assumes get_put: "get (put k v m) j = (if j = k then Some v else get m j)"
    and get_del: "get (del k m) j = (if j = k then None else get m j)"
    and wf_put: "wf m \<Longrightarrow> wf (put k v m)"
    and wf_del: "wf m \<Longrightarrow> wf (del k m)"
begin

lemma get_put_same [simp]: "get (put k v m) k = Some v"
  by (simp add: get_put)

lemma get_put_other: "j \<noteq> k \<Longrightarrow> get (put k v m) j = get m j"
  by (simp add: get_put)

lemma get_del_same [simp]: "get (del k m) k = None"
  by (simp add: get_del)

lemma get_put_del: "get (put k v (del k m)) = get (put k v m)"
  by (auto simp: get_put get_del)

lemma get_del_put: "get (del k (put k v m)) = get (del k m)"
  by (auto simp: get_put get_del)

lemma get_foldl_put:
  "get (foldl (\<lambda>m (k, v). put k v m) m es) j =
     (case map_of (rev es) j of Some v \<Rightarrow> Some v | None \<Rightarrow> get m j)"
  by (induction es arbitrary: m)
    (auto simp: get_put map_add_def split: option.splits)

lemma wf_foldl_put: "wf m \<Longrightarrow> wf (foldl (\<lambda>m (k, v). put k v m) m es)"
  by (induction es arbitrary: m) (auto simp: wf_put split: prod.splits)

end

interpretation jsmap: keyed_store map_of AList.update AList.delete map_wf
  by unfold_locales
    (auto simp: update_conv' delete_conv' map_wf_def distinct_update distinct_delete)

lemma map_of_rev_distinct_keys:
  "distinct (map fst xs) \<Longrightarrow> map_of (rev xs) k = map_of xs k"
  using map_of_inject_set [of "rev xs" xs] by (simp add: rev_map [symmetric])

lemma map_has_set [simp]: "map_has (map_set k v m) j \<longleftrightarrow> j = k \<or> map_has m j"
  by (simp add: map_has_def jsmap.get_put)

lemma map_has_delete [simp]: "map_has (map_delete k m) j \<longleftrightarrow> j \<noteq> k \<and> map_has m j"
  by (simp add: map_has_def jsmap.get_del)

lemma map_has_fst: "map_has m k \<longleftrightarrow> k \<in> fst ` set m"
  by (simp add: map_has_def map_of_eq_None_iff)

lemma map_get_from: "map_get (map_from es) k = map_of (rev es) k"
  by (simp add: map_from_def jsmap.get_foldl_put split: option.splits)

lemma map_get_from_distinct: "distinct (map fst es) \<Longrightarrow> map_get (map_from es) k = map_of es k"
  by (simp add: map_get_from map_of_rev_distinct_keys)

lemma map_wf_from: "map_wf (map_from es)"
  unfolding map_from_def by (rule jsmap.wf_foldl_put) (simp add: map_wf_def)

subsection \<open>State machines\<close>

text \<open>
  A component with callbacks is a step function on a state; a run is the fold of the steps.
  The locale carries an invariant of single steps to every run.
\<close>

locale machine =
  fixes start :: "'s" and step :: "'s \<Rightarrow> 'e \<Rightarrow> 's" and inv :: "'s \<Rightarrow> bool"
  assumes inv_start: "inv start"
    and inv_step: "inv s \<Longrightarrow> inv (step s e)"
begin

lemma inv_run_from: "inv s \<Longrightarrow> inv (foldl step s es)"
  by (induction es arbitrary: s) (auto simp: inv_step)

lemma inv_run: "inv (foldl step start es)"
  by (rule inv_run_from [OF inv_start])

lemma inv_prefix_run: "inv (foldl step start (take n es))"
  by (rule inv_run)

end

subsection \<open>Lists\<close>

text \<open>\<open>Array.prototype.find\<close> is the library's \<open>List.find\<close>; \<open>Array.prototype.indexOf\<close>:\<close>

fun index_of :: "'a list \<Rightarrow> 'a \<Rightarrow> nat option" where
  "index_of [] x = None"
| "index_of (y # ys) x = (if y = x then Some 0 else map_option Suc (index_of ys x))"

lemma index_of_Some: "index_of xs x = Some i \<Longrightarrow> i < length xs \<and> xs ! i = x"
  by (induction xs arbitrary: i) (auto split: if_splits)

lemma index_of_None: "index_of xs x = None \<longleftrightarrow> x \<notin> set xs"
  by (induction xs) auto

lemma found_in: "find P xs = Some x \<Longrightarrow> x \<in> set xs \<and> P x"
  by (auto simp: find_Some_iff dest: nth_mem)

lemma filter_eq_self: "(\<And>x. x \<in> set xs \<Longrightarrow> P x) \<Longrightarrow> filter P xs = xs"
  by (simp add: filter_id_conv)

subsection \<open>Numbers and letters of the runtime\<close>

text \<open>\<open>Math.round\<close> takes a half upwards. Case mapping is written out where the source applies it to ASCII text.\<close>

definition js_round :: "rat \<Rightarrow> int" where
  "js_round x = \<lfloor>x + 1 / 2\<rfloor>"

lemma js_round_of_int [simp]: "js_round (of_int i) = i"
  by (simp add: js_round_def floor_unique)

definition ascii_lower :: "nat \<Rightarrow> nat" where
  "ascii_lower c = (if 65 \<le> c \<and> c \<le> 90 then c + 32 else c)"

definition ascii_upper :: "nat \<Rightarrow> nat" where
  "ascii_upper c = (if 97 \<le> c \<and> c \<le> 122 then c - 32 else c)"

text \<open>The two halves of a surrogate pair.\<close>

definition is_high :: "nat \<Rightarrow> bool" where "is_high u \<longleftrightarrow> 55296 \<le> u \<and> u < 56320"
definition is_low :: "nat \<Rightarrow> bool" where "is_low u \<longleftrightarrow> 56320 \<le> u \<and> u < 57344"

end
