(* ===== verification/Domain.thy ===== *)
theory Domain
  imports Prelude
begin

section \<open>The domain shapes the front end mirrors\<close>

text \<open>
  The types of \<open>domain.ts\<close> the modelled components read: closed enumerations as datatypes with
  one constructor per literal, interfaces as records whose fields carry a short prefix, tagged
  unions as datatypes. Ids, counts and times are integers, readings that may be fractional are
  rationals, and \<open>Record\<close> objects are association lists.
\<close>

subsection \<open>Processes\<close>

datatype ProcessKind = Command | Agent | Terminal

datatype ProcStatus =
    Stopped | Starting | Running | Crashed | Restarting | Stopping | RestartExhausted

datatype Readiness = Ungated | Waiting | Ready

datatype TemplateKind = TplPrompt | TplScratchpad | TplTodo | TplPr

datatype TemplateScope = ScopeGlobal | ScopeProject

record TemplateSummary =
  ts_id :: int
  ts_kind :: TemplateKind
  ts_name :: jstring
  ts_description :: "jstring option"
  ts_placeholders :: "jstring list"
  ts_scope :: TemplateScope
  ts_revision :: int

record TemplateView =
  tv_id :: int
  tv_kind :: TemplateKind
  tv_name :: jstring
  tv_description :: "jstring option"
  tv_body :: jstring
  tv_placeholders :: "jstring list"
  tv_scope :: TemplateScope
  tv_revision :: int

record ProcessView =
  pv_id :: int
  pv_project :: int
  pv_kind :: ProcessKind
  pv_label :: jstring
  pv_status :: ProcStatus
  pv_exit_code :: "int option"
  pv_requires_trust :: bool
  pv_resumable :: bool
  pv_ports :: "int list"
  pv_ready :: Readiness

subsection \<open>Configuration, trust and projects\<close>

record Rename =
  rn_from :: jstring
  rn_to :: jstring

record ConfigSync =
  cs_added :: "jstring list"
  cs_updated :: "jstring list"
  cs_removed :: "jstring list"
  cs_renamed :: "Rename list"

record OrphanInfo =
  or_name :: jstring
  or_command :: jstring
  or_pgid :: int

record TrustReviewCommand =
  rc_name :: jstring
  rc_variant_hash :: jstring
  rc_command :: jstring
  rc_working_dir :: "jstring option"
  rc_env :: "(jstring \<times> jstring) list"

datatype TrustRequestState = Pending | Granted | Denied | Expired | Withdrawn

record TrustRequest =
  tr_id :: int
  tr_project :: int
  tr_requested_by :: int
  tr_requested_by_label :: jstring
  tr_review :: TrustReviewCommand
  tr_reason :: jstring
  tr_expires_unix_millis :: int

record ProjectView =
  pj_id :: int
  pj_name :: jstring
  pj_root :: jstring
  pj_icon :: "jstring option"

datatype AgentKind = Claude | Codex | Amp | Gemini | OpenCode | Copilot | Kimi | Generic

datatype PromptMode = Stdin | AppendedArg

record AgentTool =
  at_name :: jstring
  at_command :: jstring
  at_default_args :: "jstring list"
  at_kind :: AgentKind
  at_prompt_mode :: PromptMode

datatype Detection = Installed | Missing | DetectionUnknown

record DetectedTool =
  dt_tool :: AgentTool
  dt_detection :: Detection
  dt_can_draft :: bool

datatype AgentActivity = Idle | Permission | Thinking | Working | ActivityError

record AgentSignal =
  sg_id :: int
  sg_activity :: AgentActivity

subsection \<open>Watches and attention\<close>

datatype WatchError = BudgetExhausted | ShareExhausted | Unwatchable | Unavailable

datatype WatchPurpose = Restarts | GitStatusPurpose

datatype WatchLimit = Refused WatchError | Degraded

type_synonym PurposeLimits = "(WatchPurpose \<times> WatchLimit) list"

datatype AttentionKind =
    AttCrashed | AttRestartExhausted | AttAgentPermission | AttAgentError
  | AttTerminalBell | AttTerminalNotification

record ProcessAttention =
  pa_process :: int
  pa_kind :: AttentionKind
  pa_alerts :: int

record AttentionSnapshot =
  as_processes :: "ProcessAttention list"
  as_total :: int

subsection \<open>Events\<close>

text \<open>The core's event union. A constructor is the event's \<open>type\<close> tag after \<open>Ev\<close>.\<close>

datatype DomainEvent =
    EvProcessSpawned int int ProcessKind jstring ProcStatus bool bool
      \<comment> \<open>id, project, kind, label, status, requires trust, resumable\<close>
  | EvProcessStatusChanged int ProcStatus ProcStatus "int option" \<comment> \<open>id, from, to, exit code\<close>
  | EvProcessRemoved int
  | EvProcessRenamed int jstring
  | EvMetricsTick int rat int \<comment> \<open>id, cpu percentage, resident bytes\<close>
  | EvPortsChanged int "int list"
  | EvReadyStateChanged int bool
  | EvRestartScheduled int int int \<comment> \<open>id, attempt, limit\<close>
  | EvRestartExhausted int
  | EvFileRestart int
  | EvProjectOpened int
  | EvProjectRemoved int
  | EvProjectsReordered
  | EvConfigChanged int ConfigSync bool "TrustReviewCommand list"
  | EvTrustRequested int TrustRequest
  | EvTrustRequestResolved int int TrustRequestState \<comment> \<open>project, id, state\<close>
  | EvTerminalTitleChanged int jstring
  | EvTerminalBell int
  | EvTerminalNotification int "jstring option" jstring
  | EvAgentActivityChanged int AgentActivity
  | EvOrphansFound "OrphanInfo list"
  | EvTodoChanged int int
  | EvAgentMessageChanged int int
  | EvTimerArmed int int
  | EvTimerFired int int
  | EvTimerCleared int int
  | EvTimerPaused int int
  | EvTimerResumed int int
  | EvLeaseChanged int jstring
  | EvScratchpadChanged int jstring
  | EvDiagramChanged int jstring
  | EvKvChanged int jstring
  | EvTemplateChanged TemplateKind "int option"
  | EvGitStatusChanged int
  | EvWatchLimitChanged int PurposeLimits
  | EvNotificationRaised int AttentionKind jstring jstring "jstring option"
  | EvAttentionChanged
  | EvPresenceChanged

subsection \<open>Version control\<close>

datatype ChangeKind =
    Modified | TypeChanged | Added | Deleted | Renamed | Copied | Untracked | Conflicted

record GitFileStatus =
  gs_staged :: "ChangeKind option"
  gs_unstaged :: "ChangeKind option"

record FileChange =
  fc_path :: jstring
  fc_status :: GitFileStatus
  fc_original_path :: "jstring option"

datatype SyncState = SyncUnknown | UpToDate | Ahead int | Behind int | Diverged int int

record BranchInfo =
  br_name :: "jstring option"
  br_upstream :: "jstring option"
  br_sync :: SyncState

record GitCapabilities =
  gc_pull :: bool
  gc_push :: bool
  gc_stash :: bool
  gc_discardablePaths :: "jstring list"

record GitLineCounts =
  gl_additions :: int
  gl_deletions :: int
  gl_complete :: bool

record ProjectFile =
  pf_path :: jstring
  pf_ignored :: bool

record HunkRange =
  hr_old_start :: int
  hr_old_lines :: int
  hr_new_start :: int
  hr_new_lines :: int

datatype CheckState =
    CheckPending | CheckPassed | CheckFailed | CheckSkipped | CheckCancelled | CheckUnknown

datatype MergeMethod = MergeCommit | Squash | Rebase

record ReviewComment =
  rv_author :: jstring
  rv_body :: jstring
  rv_url :: "jstring option"

record ReviewThread =
  rt_id :: jstring
  rt_url :: "jstring option"
  rt_path :: "jstring option"
  rt_line :: "int option"
  rt_resolved :: bool
  rt_outdated :: bool
  rt_comments :: "ReviewComment list"

subsection \<open>Coordination\<close>

datatype TodoStatus = TodoOpen | TodoBlocked | TodoInProgress | TodoDone

record TodoDoc =
  td_title :: jstring
  td_body :: jstring
  td_status :: TodoStatus

datatype CommentAuthor = ByProcess int jstring | ByExternal jstring

record Comment =
  cm_id :: int
  cm_body :: jstring
  cm_author :: "CommentAuthor option"

record ScratchpadRef =
  sr_id :: int
  sr_name :: jstring

record TodoView =
  to_id :: int
  to_doc :: TodoDoc
  to_tags :: "jstring list"
  to_blockers :: "int list"
  to_blocked_by :: "int list"
  to_blocked :: bool
  to_comments :: "Comment list"
  to_locked_by :: "int option"
  to_scratchpad :: "ScratchpadRef option"
  to_revision :: int

datatype FireCond = FireAt | WhenIdleAny "int list" | WhenIdleAll "int list"

datatype TimerStatus = Armed | Paused

record TimerView =
  ti_id :: int
  ti_owner :: int
  ti_body :: jstring
  ti_fire :: FireCond
  ti_status :: TimerStatus
  ti_deadline_unix_millis :: int
  ti_waiting_on :: "int list"
  ti_already_idle :: bool
  ti_paused_remaining_millis :: "int option"

record ScratchpadSummary =
  ss_id :: int
  ss_name :: jstring
  ss_tags :: "jstring list"
  ss_archived :: bool
  ss_revision :: int
  ss_gist :: jstring
  ss_updated_at :: int

record ScratchpadView =
  sv_id :: int
  sv_name :: jstring
  sv_tags :: "jstring list"
  sv_archived :: bool
  sv_revision :: int
  sv_body :: jstring
  sv_rendered :: jstring

record DiagramSummary =
  ds_id :: int
  ds_name :: jstring
  ds_tags :: "jstring list"
  ds_archived :: bool
  ds_revision :: int
  ds_gist :: jstring
  ds_updated_at :: int

record DiagramView =
  dv_id :: int
  dv_name :: jstring
  dv_tags :: "jstring list"
  dv_archived :: bool
  dv_revision :: int
  dv_source :: jstring

datatype AgentMessageKind = MsgDirect | MsgTask | MsgCompletion

datatype AgentMessageOutcome = Queued | WakeSubmitted | Acknowledged

record AgentMessage =
  am_id :: int
  am_project :: int
  am_sender :: int
  am_recipient :: int
  am_kind :: AgentMessageKind
  am_body :: jstring
  am_todo_id :: "int option"

record AgentMessageDelivery =
  md_message :: AgentMessage
  md_outcome :: AgentMessageOutcome

record AgentMessageRecord =
  mr_delivery :: AgentMessageDelivery
  mr_at_unix_millis :: int
  mr_truncated :: bool

record AgentNode =
  an_id :: int
  an_parent :: "int option"
  an_label :: jstring
  an_kind :: ProcessKind
  an_status :: ProcStatus
  an_activity :: "AgentActivity option"

record LineageEdge =
  le_child :: int
  le_parent :: int

subsection \<open>Settings\<close>

datatype Theme = ThemeLight | ThemeDark | ThemeSystem

datatype ProcessCpuThreshold = CpuAlways | Pct10 | Pct30 | Pct60 | Pct90 | CpuNever

datatype ProcessMemThreshold = MemAlways | Mb100 | Mb500 | Gb1 | Gb2 | MemNever

record Sidebar =
  sb_show_filter_input :: bool
  sb_hide_empty_sections :: bool
  sb_process_cpu_threshold :: ProcessCpuThreshold
  sb_process_mem_threshold :: ProcessMemThreshold
  sb_show_settings_footer :: bool

datatype HotkeyScope = HkGeneral | HkSidebar | HkTerminal | HkScratchpad

datatype HotkeyAction =
    open_command_palette | quick_actions | quick_jump | new_agent_or_terminal | open_settings
  | open_terminal_search | close_agent_or_terminal | next_project_group | prev_project_group
  | next_section | prev_section | jump_to_agents | jump_to_commands | jump_to_terminals
  | collapse_or_section | jump_to_parent_project | expand_project | restart_selection
  | previous_process | next_process | increase_terminal_font_size | decrease_terminal_font_size
  | copy_selection | paste_clipboard | archive_scratchpad

record Binding =
  bd_ctrl :: bool
  bd_alt :: bool
  bd_shift :: bool
  bd_super :: bool
  bd_key :: jstring

record HotkeyBindingView =
  hb_action :: HotkeyAction
  hb_scope :: HotkeyScope
  hb_binding :: "Binding option"
  hb_is_default :: bool
  hb_conflict :: bool

record Assist =
  asst_tool :: "jstring option"

record Notifications =
  nt_enabled :: bool
  nt_bell :: "jstring option"

datatype NotifierStatus = NotifierUnavailable | NotifierAvailable jstring jstring "jstring list"

datatype NotificationLevel = LevelAll | LevelImportant | LevelNone

end
