(* ===== verification/Status.thy ===== *)
theory Status
  imports Domain
begin

section \<open>Process status and agent activity display\<close>

text \<open>
  \<open>lib/status.ts\<close> and \<open>lib/activity.ts\<close>: the one map from a status to its label, glyph, tone
  and pulse, and the predicates that decide which controls are worth offering. Glyphs are
  single UTF-16 code units.
\<close>

record StatusDisplay =
  sd_label :: jstring
  sd_glyph :: jstring
  sd_toneClass :: jstring
  sd_transitional :: bool

definition glyph_disc :: jstring where "glyph_disc = [0x25CF]"
definition glyph_half :: jstring where "glyph_half = [0x25D0]"
definition glyph_ring :: jstring where "glyph_ring = [0x25CB]"
definition glyph_cross :: jstring where "glyph_cross = [0x2715]"
definition glyph_warning :: jstring where "glyph_warning = [0x26A0]"
definition glyph_play :: jstring where "glyph_play = [0x25B6]"
definition glyph_diamond :: jstring where "glyph_diamond = [0x25C6]"
definition glyph_hollow_diamond :: jstring where "glyph_hollow_diamond = [0x25C7]"

lemmas glyph_defs = glyph_disc_def glyph_half_def glyph_ring_def glyph_cross_def
  glyph_warning_def glyph_play_def glyph_diamond_def glyph_hollow_diamond_def

primrec STATUS :: "ProcStatus \<Rightarrow> StatusDisplay" where
  "STATUS Running = \<lparr>sd_label = lit ''Running'', sd_glyph = glyph_disc,
     sd_toneClass = lit ''text-status-running'', sd_transitional = False\<rparr>"
| "STATUS Starting = \<lparr>sd_label = lit ''Starting'', sd_glyph = glyph_half,
     sd_toneClass = lit ''text-status-transition'', sd_transitional = True\<rparr>"
| "STATUS Restarting = \<lparr>sd_label = lit ''Restarting'', sd_glyph = glyph_half,
     sd_toneClass = lit ''text-status-transition'', sd_transitional = True\<rparr>"
| "STATUS Stopping = \<lparr>sd_label = lit ''Stopping'', sd_glyph = glyph_half,
     sd_toneClass = lit ''text-status-transition'', sd_transitional = True\<rparr>"
| "STATUS Stopped = \<lparr>sd_label = lit ''Stopped'', sd_glyph = glyph_ring,
     sd_toneClass = lit ''text-status-stopped'', sd_transitional = False\<rparr>"
| "STATUS Crashed = \<lparr>sd_label = lit ''Crashed'', sd_glyph = glyph_cross,
     sd_toneClass = lit ''text-status-crashed'', sd_transitional = False\<rparr>"
| "STATUS RestartExhausted = \<lparr>sd_label = lit ''Restart limit reached'', sd_glyph = glyph_warning,
     sd_toneClass = lit ''text-status-exhausted'', sd_transitional = False\<rparr>"

definition isRunning :: "ProcStatus \<Rightarrow> bool" where
  "isRunning status \<longleftrightarrow> status = Running"

definition isStarting :: "ProcStatus \<Rightarrow> bool" where
  "isStarting status \<longleftrightarrow> status = Starting \<or> status = Restarting"

primrec ACTIVE :: "ProcStatus \<Rightarrow> bool" where
  "ACTIVE Starting = True"
| "ACTIVE Running = True"
| "ACTIVE Restarting = True"
| "ACTIVE Stopping = True"
| "ACTIVE Stopped = False"
| "ACTIVE Crashed = False"
| "ACTIVE RestartExhausted = False"

definition isActive :: "ProcStatus \<Rightarrow> bool" where
  "isActive status = ACTIVE status"

definition canStart :: "ProcStatus \<Rightarrow> bool" where
  "canStart status \<longleftrightarrow> status = Stopped"

definition canStop :: "ProcStatus \<Rightarrow> bool" where
  "canStop status \<longleftrightarrow> isActive status \<and> status \<noteq> Stopping"

definition canRestart :: "ProcStatus \<Rightarrow> bool" where
  "canRestart status \<longleftrightarrow> status = Running \<or> status = Crashed \<or> status = RestartExhausted"

definition canRemove :: "ProcStatus \<Rightarrow> bool" where
  "canRemove status \<longleftrightarrow> status \<noteq> Stopping"

lemmas status_defs = isRunning_def isStarting_def isActive_def canStart_def canStop_def
  canRestart_def canRemove_def

fun ACTIVITY :: "AgentActivity \<Rightarrow> StatusDisplay" where
  "ACTIVITY Working = \<lparr>sd_label = lit ''Working'', sd_glyph = glyph_play,
     sd_toneClass = lit ''text-status-running'', sd_transitional = False\<rparr>"
| "ACTIVITY Thinking = \<lparr>sd_label = lit ''Thinking'', sd_glyph = glyph_half,
     sd_toneClass = lit ''text-status-transition'', sd_transitional = True\<rparr>"
| "ACTIVITY Idle = \<lparr>sd_label = lit ''Idle'', sd_glyph = glyph_ring,
     sd_toneClass = lit ''text-status-stopped'', sd_transitional = False\<rparr>"
| "ACTIVITY Permission = \<lparr>sd_label = lit ''Permission'', sd_glyph = glyph_diamond,
     sd_toneClass = lit ''text-status-attention'', sd_transitional = False\<rparr>"
| "ACTIVITY ActivityError = \<lparr>sd_label = lit ''Error'', sd_glyph = glyph_cross,
     sd_toneClass = lit ''text-status-crashed'', sd_transitional = False\<rparr>"

subsection \<open>Facts about the two displays\<close>

text \<open>Status is readable without colour: the label alone tells every two states apart.\<close>

lemma status_label_inj: "sd_label (STATUS a) = sd_label (STATUS b) \<longleftrightarrow> a = b"
  by (cases a; cases b) simp_all

lemma activity_label_inj: "sd_label (ACTIVITY a) = sd_label (ACTIVITY b) \<longleftrightarrow> a = b"
  by (cases a; cases b) simp_all

text \<open>The pulse marks exactly the half-disc glyph, and exactly the in-flight states pulse.\<close>

lemma status_pulse_iff_half: "sd_transitional (STATUS a) \<longleftrightarrow> sd_glyph (STATUS a) = glyph_half"
  by (cases a) (simp_all add: glyph_defs)

lemma status_pulse_active: "sd_transitional (STATUS a) \<longleftrightarrow> isActive a \<and> \<not> isRunning a"
  by (cases a) (simp_all add: status_defs)

lemma starting_excludes_stopping: "isStarting a \<Longrightarrow> isActive a \<and> canStop a"
  by (cases a) (simp_all add: status_defs)

text \<open>From every state some control is offered, bar an in-flight stop.\<close>

lemma some_control_unless_stopping:
  "(canStart a \<or> canStop a \<or> canRestart a \<or> canRemove a) \<longleftrightarrow> a \<noteq> Stopping"
  by (cases a) (simp_all add: status_defs)

lemma start_stop_exclusive: "\<not> (canStart a \<and> canStop a)"
  by (cases a) (simp_all add: status_defs)

lemma start_restart_exclusive: "\<not> (canStart a \<and> canRestart a)"
  by (cases a) (simp_all add: status_defs)

end
