(* ===== verification/ProcessActions.thy ===== *)
theory ProcessActions
  imports Status
begin

section \<open>What can be done to a process\<close>

text \<open>
  \<open>lib/processActions.ts\<close>: the one derivation of the actions a surface offers on a process,
  the choice of the prominent one, and the binding of each action to the callback it runs. A
  closure \<open>run\<close> is modelled by the call it makes, a value of type \<open>ProcessCall\<close>.
\<close>

datatype ProcessActionKind = ActTrust | ActResume | ActStart | ActStop | ActRestart | ActRemove

record ProcessActionState =
  ps_kind :: ProcessKind
  ps_status :: ProcStatus
  ps_requiresTrust :: bool
  ps_resumable :: bool

primrec PROCESS_ACTION_LABELS :: "ProcessActionKind \<Rightarrow> jstring" where
  "PROCESS_ACTION_LABELS ActTrust = lit ''Trust''"
| "PROCESS_ACTION_LABELS ActResume = lit ''Resume''"
| "PROCESS_ACTION_LABELS ActStart = lit ''Start''"
| "PROCESS_ACTION_LABELS ActStop = lit ''Stop''"
| "PROCESS_ACTION_LABELS ActRestart = lit ''Restart''"
| "PROCESS_ACTION_LABELS ActRemove = lit ''Remove''"

fun REMOVABLE :: "ProcessKind \<Rightarrow> bool" where
  "REMOVABLE Command = False"
| "REMOVABLE Agent = True"
| "REMOVABLE Terminal = True"

definition runStateActions :: "ProcessActionState \<Rightarrow> ProcessActionKind list" where
  "runStateActions state =
     (let status = ps_status state;
          actions = (if canStop status then [ActStop] else [])
      in if isActive status
         then actions @ (if canRestart status \<and> \<not> ps_requiresTrust state then [ActRestart] else [])
         else if ps_requiresTrust state then [ActTrust]
         else actions
           @ (if canStart status then (if ps_resumable state then [ActResume] else []) @ [ActStart] else [])
           @ (if canRestart status then [ActRestart] else []))"

definition processActions :: "ProcessActionState \<Rightarrow> ProcessActionKind list" where
  "processActions state = runStateActions state
     @ (if REMOVABLE (ps_kind state) \<and> canRemove (ps_status state) then [ActRemove] else [])"

definition shouldPersistProcessActions :: "ProcessActionState \<Rightarrow> bool" where
  "shouldPersistProcessActions state =
     (let actions = processActions state
      in if ActTrust \<in> set actions then True
         else \<not> isActive (ps_status state) \<and> ActRestart \<in> set actions)"

text \<open>
  A callback of \<open>ProcessActionHandlers\<close> with the arguments it is given.
\<close>

datatype ProcessCall =
    OnTrust int jstring | OnResume int | OnStart int | OnStop int | OnRestart int | OnRemove int

record RunnableProcessAction =
  ra_kind :: ProcessActionKind
  ra_label :: jstring
  ra_run :: ProcessCall

definition actionLabel :: "ProcessActionKind \<Rightarrow> bool \<Rightarrow> jstring" where
  "actionLabel kind resumable =
     (if kind = ActResume then lit ''Resume last session''
      else if kind = ActStart \<and> resumable then lit ''Start fresh''
      else PROCESS_ACTION_LABELS kind)"

fun runFor :: "ProcessActionKind \<Rightarrow> ProcessView \<Rightarrow> ProcessCall" where
  "runFor ActTrust process = OnTrust (pv_project process) (pv_label process)"
| "runFor ActResume process = OnResume (pv_id process)"
| "runFor ActStart process = OnStart (pv_id process)"
| "runFor ActStop process = OnStop (pv_id process)"
| "runFor ActRestart process = OnRestart (pv_id process)"
| "runFor ActRemove process = OnRemove (pv_id process)"

definition action_state :: "ProcessView \<Rightarrow> ProcessActionState" where
  "action_state process = \<lparr>ps_kind = pv_kind process, ps_status = pv_status process,
     ps_requiresTrust = pv_requires_trust process, ps_resumable = pv_resumable process\<rparr>"

definition runnableProcessActions :: "ProcessView \<Rightarrow> RunnableProcessAction list" where
  "runnableProcessActions process =
     map (\<lambda>kind. \<lparr>ra_kind = kind, ra_label = actionLabel kind (pv_resumable process),
                  ra_run = runFor kind process\<rparr>)
       (processActions (action_state process))"

text \<open>
  \<open>presentProcessActions\<close> is generic in the action type; \<open>kind_of\<close> reads the field \<open>kind\<close>.
  The source drops the primary from the list by identity. The callers pass freshly built
  objects, so exactly the first match is dropped, which \<open>drop_first\<close> does.
\<close>

record 'a ProcessActionPresentation =
  pr_primary :: "'a option"
  pr_secondary :: "'a list"

fun drop_first :: "('a \<Rightarrow> bool) \<Rightarrow> 'a list \<Rightarrow> 'a list" where
  "drop_first P [] = []"
| "drop_first P (x # xs) = (if P x then xs else x # drop_first P xs)"

definition preferred_kind ::
  "('a \<Rightarrow> ProcessActionKind) \<Rightarrow> ProcessKind \<Rightarrow> ProcStatus \<Rightarrow> 'a list \<Rightarrow> ProcessActionKind option" where
  "preferred_kind kind_of kind status actions =
     (if status = Running \<and> kind = Command then Some ActRestart
      else case actions of [] \<Rightarrow> None | a # _ \<Rightarrow> Some (kind_of a))"

definition presentProcessActions ::
  "('a \<Rightarrow> ProcessActionKind) \<Rightarrow> ProcessKind \<Rightarrow> ProcStatus \<Rightarrow> 'a list \<Rightarrow> 'a ProcessActionPresentation" where
  "presentProcessActions kind_of kind status actions =
     (let preferred = preferred_kind kind_of kind status actions;
          is_primary = (\<lambda>a. Some (kind_of a) = preferred);
          primary = List.find is_primary actions
      in \<lparr>pr_primary = primary,
          pr_secondary = (if primary = None then [] else drop_first is_primary actions)\<rparr>)"

subsection \<open>Availability\<close>

lemma mset_drop_first:
  "List.find P xs = Some x \<Longrightarrow> add_mset x (mset (drop_first P xs)) = mset xs"
  by (induction xs) (auto split: if_splits simp: add_mset_commute)

lemmas action_defs = processActions_def runStateActions_def Let_def status_defs

lemma actions_canonical_order:
  "subseq (processActions s) [ActTrust, ActResume, ActStart, ActStop, ActRestart, ActRemove]"
  by (cases "ps_status s"; cases "ps_kind s"; cases "ps_requiresTrust s"; cases "ps_resumable s")
    (simp_all add: action_defs)

text \<open>
  An action is offered exactly when its guard holds: trust while resting and untrusted, resume
  and start from an ordinary stop once trusted, stop while live and not already stopping,
  restart from a running or failed trusted process, remove for agents and terminals outside an
  in-flight stop.
\<close>

theorem process_actions_exact:
  "set (processActions s) =
     {a. case a of
        ActTrust \<Rightarrow> \<not> isActive (ps_status s) \<and> ps_requiresTrust s
      | ActResume \<Rightarrow> canStart (ps_status s) \<and> \<not> ps_requiresTrust s \<and> ps_resumable s
      | ActStart \<Rightarrow> canStart (ps_status s) \<and> \<not> ps_requiresTrust s
      | ActStop \<Rightarrow> canStop (ps_status s)
      | ActRestart \<Rightarrow> canRestart (ps_status s) \<and> \<not> ps_requiresTrust s
      | ActRemove \<Rightarrow> ps_kind s \<noteq> Command \<and> canRemove (ps_status s)}"
  (is "_ = {a. ?guard a}")
proof -
  have "a \<in> set (processActions s) \<longleftrightarrow> ?guard a" for a
    by (cases a; cases "ps_status s"; cases "ps_kind s"; cases "ps_requiresTrust s";
        cases "ps_resumable s") (simp_all add: action_defs)
  then show ?thesis by blast
qed

lemma actions_distinct: "distinct (processActions s)"
  by (cases "ps_status s"; cases "ps_kind s"; cases "ps_requiresTrust s"; cases "ps_resumable s")
    (simp_all add: action_defs)

subsection \<open>Prominence\<close>

lemma runnable_kinds: "map ra_kind (runnableProcessActions p) = processActions (action_state p)"
  by (simp add: runnableProcessActions_def comp_def)

lemma present_primary_None:
  "pr_primary (presentProcessActions f k st acts) = None \<longleftrightarrow>
     (\<forall>a \<in> set acts. Some (f a) \<noteq> preferred_kind f k st acts)"
  by (auto simp: presentProcessActions_def Let_def find_None_iff)

lemma present_mset:
  "mset (case pr_primary (presentProcessActions f k st acts) of None \<Rightarrow> []
         | Some a \<Rightarrow> a # pr_secondary (presentProcessActions f k st acts)) =
   (if pr_primary (presentProcessActions f k st acts) = None then {#} else mset acts)"
  by (auto simp: presentProcessActions_def Let_def mset_drop_first split: option.splits)

lemma present_primary_None_unforced:
  assumes "\<not> (st = Running \<and> k = Command)"
  shows "pr_primary (presentProcessActions f k st acts) = None \<longleftrightarrow> acts = []"
  using assms by (auto simp: present_primary_None preferred_kind_def split: list.splits)

lemma present_primary_None_forced:
  "pr_primary (presentProcessActions f Command Running acts) = None \<longleftrightarrow> ActRestart \<notin> f ` set acts"
  by (auto simp: present_primary_None preferred_kind_def intro: rev_image_eqI)

lemma restart_offered_iff:
  "ActRestart \<in> ra_kind ` set (runnableProcessActions p) \<longleftrightarrow>
     canRestart (pv_status p) \<and> \<not> pv_requires_trust p"
proof -
  have "ra_kind ` set (runnableProcessActions p) = set (processActions (action_state p))"
    by (metis runnable_kinds set_map)
  then show ?thesis
    by (cases "pv_status p"; cases "pv_kind p"; cases "pv_requires_trust p"; cases "pv_resumable p")
      (simp_all add: action_defs action_state_def)
qed

lemma runnable_empty_iff: "runnableProcessActions p = [] \<longleftrightarrow> pv_status p = Stopping"
proof -
  have "runnableProcessActions p = [] \<longleftrightarrow> processActions (action_state p) = []"
    by (metis runnable_kinds map_is_Nil_conv)
  then show ?thesis
    by (cases "pv_status p"; cases "pv_kind p"; cases "pv_requires_trust p"; cases "pv_resumable p")
      (simp_all add: action_defs action_state_def)
qed

text \<open>
  The one-click action plus the menu show every runnable action and nothing else, bar one case:
  for a running command whose trust was withdrawn both are empty although the action list is
  not, because the preferred action (restart) is not in the list.
\<close>

theorem presentation_exact:
  "mset (case pr_primary (presentProcessActions ra_kind (pv_kind p) (pv_status p) (runnableProcessActions p)) of
       None \<Rightarrow> []
     | Some a \<Rightarrow> a # pr_secondary (presentProcessActions ra_kind (pv_kind p) (pv_status p) (runnableProcessActions p))) =
   (if pv_kind p = Command \<and> pv_status p = Running \<and> pv_requires_trust p then {#}
    else mset (runnableProcessActions p))"
proof (cases "pv_kind p = Command \<and> pv_status p = Running")
  case True
  then show ?thesis
    by (subst present_mset)
      (simp add: present_primary_None_forced restart_offered_iff canRestart_def)
next
  case False
  then show ?thesis
    by (subst present_mset) (auto simp: present_primary_None_unforced)
qed

text \<open>
  The hidden control: a running command that now requires trust has Stop as its one runnable
  action, and the dense controls show no action for it at all.
\<close>

theorem untrusted_running_command_hides_stop:
  "let p' = p\<lparr>pv_kind := Command, pv_status := Running, pv_requires_trust := True\<rparr>;
       shown = presentProcessActions ra_kind (pv_kind p') (pv_status p') (runnableProcessActions p')
   in map ra_run (runnableProcessActions p') = [OnStop (pv_id p)]
      \<and> pr_primary shown = None \<and> pr_secondary shown = []"
  by (simp add: Let_def runnableProcessActions_def action_state_def processActions_def
      runStateActions_def status_defs presentProcessActions_def preferred_kind_def)

text \<open>The action a palette row runs is the one its kind names, on the process it is listed for.\<close>

lemma runnable_run_targets:
  "r \<in> set (runnableProcessActions p) \<Longrightarrow> ra_run r = runFor (ra_kind r) p"
  by (auto simp: runnableProcessActions_def)

end
