(* ===== verification/Projection.thy ===== *)
theory Projection
  imports Domain
begin

section \<open>The process list as a fold of events\<close>

text \<open>
  \<open>store/projection.ts\<close>: \<open>applyEvent\<close> folds one core event into the process list. The lemmas
  give a closed form of the fold of a whole log (what happens to a row that is already there,
  and which rows are born) and from it that a log folds idempotently.
\<close>

definition spawned_row ::
  "int \<Rightarrow> int \<Rightarrow> ProcessKind \<Rightarrow> jstring \<Rightarrow> ProcStatus \<Rightarrow> bool \<Rightarrow> bool \<Rightarrow> ProcessView" where
  "spawned_row i project kind label status requires_trust resumable =
     \<lparr>pv_id = i, pv_project = project, pv_kind = kind, pv_label = label, pv_status = status,
      pv_exit_code = None, pv_requires_trust = requires_trust, pv_resumable = resumable,
      pv_ports = [], pv_ready = Ungated\<rparr>"

fun applyEvent :: "ProcessView list \<Rightarrow> DomainEvent \<Rightarrow> ProcessView list" where
  "applyEvent processes (EvProcessSpawned i project kind label status requires_trust resumable) =
     (if list_ex (\<lambda>process. pv_id process = i) processes then processes
      else processes @ [spawned_row i project kind label status requires_trust resumable])"
| "applyEvent processes (EvProcessStatusChanged i from to exit_code) =
     map (\<lambda>process. if pv_id process = i
        then process\<lparr>pv_status := to, pv_exit_code := exit_code\<rparr> else process) processes"
| "applyEvent processes (EvPortsChanged i ports) =
     map (\<lambda>process. if pv_id process = i then process\<lparr>pv_ports := ports\<rparr> else process) processes"
| "applyEvent processes (EvReadyStateChanged i ready) =
     map (\<lambda>process. if pv_id process = i
        then process\<lparr>pv_ready := (if ready then Ready else Waiting)\<rparr> else process) processes"
| "applyEvent processes (EvProcessRemoved i) = filter (\<lambda>process. pv_id process \<noteq> i) processes"
| "applyEvent processes (EvProjectRemoved i) = filter (\<lambda>process. pv_project process \<noteq> i) processes"
| "applyEvent processes (EvProcessRenamed i label) =
     map (\<lambda>process. if pv_id process = i then process\<lparr>pv_label := label\<rparr> else process) processes"
| "applyEvent processes _ = processes"

subsection \<open>One row under a log\<close>

text \<open>\<open>touch\<close> is what an event does to a row that is in the list: nothing, a change, or removal.\<close>

fun touch :: "DomainEvent \<Rightarrow> ProcessView \<Rightarrow> ProcessView option" where
  "touch (EvProcessStatusChanged i from to exit_code) p =
     Some (if pv_id p = i then p\<lparr>pv_status := to, pv_exit_code := exit_code\<rparr> else p)"
| "touch (EvPortsChanged i ports) p = Some (if pv_id p = i then p\<lparr>pv_ports := ports\<rparr> else p)"
| "touch (EvReadyStateChanged i ready) p =
     Some (if pv_id p = i then p\<lparr>pv_ready := (if ready then Ready else Waiting)\<rparr> else p)"
| "touch (EvProcessRemoved i) p = (if pv_id p \<noteq> i then Some p else None)"
| "touch (EvProjectRemoved i) p = (if pv_project p \<noteq> i then Some p else None)"
| "touch (EvProcessRenamed i label) p = Some (if pv_id p = i then p\<lparr>pv_label := label\<rparr> else p)"
| "touch _ p = Some p"

fun spawns :: "DomainEvent \<Rightarrow> ProcessView option" where
  "spawns (EvProcessSpawned i project kind label status requires_trust resumable) =
     Some (spawned_row i project kind label status requires_trust resumable)"
| "spawns _ = None"

definition spawn_rows :: "DomainEvent \<Rightarrow> ProcessView list \<Rightarrow> ProcessView list" where
  "spawn_rows e ps = (case spawns e of None \<Rightarrow> []
     | Some p \<Rightarrow> if pv_id p \<in> pv_id ` set ps then [] else [p])"

definition keep :: "('a \<Rightarrow> 'b option) \<Rightarrow> 'a list \<Rightarrow> 'b list" where
  "keep f xs = concat (map (\<lambda>x. case f x of None \<Rightarrow> [] | Some y \<Rightarrow> [y]) xs)"

lemma keep_simps [simp]:
  "keep f [] = []"
  "keep f (x # xs) = (case f x of None \<Rightarrow> keep f xs | Some y \<Rightarrow> y # keep f xs)"
  "keep f (xs @ ys) = keep f xs @ keep f ys"
  by (auto simp: keep_def split: option.splits)

lemma set_keep: "y \<in> set (keep f xs) \<longleftrightarrow> (\<exists>x \<in> set xs. f x = Some y)"
  by (induction xs) (auto split: option.splits)

lemma keep_Some: "keep (\<lambda>x. Some (f x)) xs = map f xs"
  by (induction xs) auto

lemma keep_filter: "keep (\<lambda>x. if P x then Some x else None) xs = filter P xs"
  by (induction xs) auto

lemma keep_self: "(\<And>x. x \<in> set xs \<Longrightarrow> f x = Some x) \<Longrightarrow> keep f xs = xs"
  by (induction xs) auto

lemma touch_eta:
  "touch (EvProcessStatusChanged i a b c) =
     (\<lambda>p. Some (if pv_id p = i then p\<lparr>pv_status := b, pv_exit_code := c\<rparr> else p))"
  "touch (EvPortsChanged i ports) = (\<lambda>p. Some (if pv_id p = i then p\<lparr>pv_ports := ports\<rparr> else p))"
  "touch (EvReadyStateChanged i r) =
     (\<lambda>p. Some (if pv_id p = i then p\<lparr>pv_ready := (if r then Ready else Waiting)\<rparr> else p))"
  "touch (EvProcessRemoved i) = (\<lambda>p. if pv_id p \<noteq> i then Some p else None)"
  "touch (EvProjectRemoved i) = (\<lambda>p. if pv_project p \<noteq> i then Some p else None)"
  "touch (EvProcessRenamed i l) = (\<lambda>p. Some (if pv_id p = i then p\<lparr>pv_label := l\<rparr> else p))"
  by (rule ext, simp)+

lemma keep_bind: "keep (\<lambda>x. Option.bind (f x) g) xs = keep g (keep f xs)"
  by (induction xs) (auto split: option.splits)

lemma applyEvent_touch: "applyEvent ps e = keep (touch e) ps @ spawn_rows e ps"
  by (cases e)
    (auto simp: touch_eta keep_Some keep_filter spawn_rows_def spawned_row_def list_ex_iff
      keep_self image_iff)

lemma touch_id: "touch e p = Some q \<Longrightarrow> pv_id q = pv_id p \<and> pv_project q = pv_project p"
  by (cases e) (auto split: if_splits)

primrec evolve :: "DomainEvent list \<Rightarrow> ProcessView \<Rightarrow> ProcessView option" where
  "evolve [] p = Some p"
| "evolve (e # es) p = Option.bind (touch e p) (evolve es)"

lemma evolve_append: "evolve (xs @ ys) p = Option.bind (evolve xs p) (evolve ys)"
  by (induction xs arbitrary: p) (auto split: Option.bind_split)

lemma evolve_id: "evolve es p = Some q \<Longrightarrow> pv_id q = pv_id p \<and> pv_project q = pv_project p"
  by (induction es arbitrary: p) (auto split: Option.bind_splits dest: touch_id)

text \<open>
  A row is dropped by an event that removes its id or its project; otherwise each field holds
  the last value the log wrote to it. Hence a second pass of the same log changes nothing.
\<close>

definition kills :: "DomainEvent \<Rightarrow> int \<Rightarrow> int \<Rightarrow> bool" where
  "kills e i project = (case e of EvProcessRemoved j \<Rightarrow> j = i | EvProjectRemoved j \<Rightarrow> j = project | _ \<Rightarrow> False)"

definition w_status :: "int \<Rightarrow> DomainEvent \<Rightarrow> (ProcStatus \<times> int option) option" where
  "w_status i e = (case e of EvProcessStatusChanged j a b c \<Rightarrow> if i = j then Some (b, c) else None | _ \<Rightarrow> None)"

definition w_ports :: "int \<Rightarrow> DomainEvent \<Rightarrow> int list option" where
  "w_ports i e = (case e of EvPortsChanged j ports \<Rightarrow> if i = j then Some ports else None | _ \<Rightarrow> None)"

definition w_ready :: "int \<Rightarrow> DomainEvent \<Rightarrow> Readiness option" where
  "w_ready i e = (case e of EvReadyStateChanged j r \<Rightarrow>
     if i = j then Some (if r then Ready else Waiting) else None | _ \<Rightarrow> None)"

definition w_label :: "int \<Rightarrow> DomainEvent \<Rightarrow> jstring option" where
  "w_label i e = (case e of EvProcessRenamed j l \<Rightarrow> if i = j then Some l else None | _ \<Rightarrow> None)"

fun last_write :: "(DomainEvent \<Rightarrow> 'v option) \<Rightarrow> DomainEvent list \<Rightarrow> 'v \<Rightarrow> 'v" where
  "last_write w [] v = v"
| "last_write w (e # es) v = last_write w es (case w e of None \<Rightarrow> v | Some u \<Rightarrow> u)"

lemma last_write_idem: "last_write w es (last_write w es v) = last_write w es v"
proof -
  have fixed: "last_write w es a = last_write w es b" if "\<exists>e \<in> set es. w e \<noteq> None" for a b
    using that by (induction es arbitrary: a b) (auto split: option.splits)
  have unchanged: "last_write w es a = a" if "\<not> (\<exists>e \<in> set es. w e \<noteq> None)" for a
    using that by (induction es) auto
  show ?thesis
    using fixed unchanged by (cases "\<exists>e \<in> set es. w e \<noteq> None") auto
qed

definition rewrite_row :: "DomainEvent list \<Rightarrow> ProcessView \<Rightarrow> ProcessView" where
  "rewrite_row es p =
     (let i = pv_id p; st = last_write (w_status i) es (pv_status p, pv_exit_code p)
      in p\<lparr>pv_status := fst st, pv_exit_code := snd st,
           pv_ports := last_write (w_ports i) es (pv_ports p),
           pv_ready := last_write (w_ready i) es (pv_ready p),
           pv_label := last_write (w_label i) es (pv_label p)\<rparr>)"

lemma rewrite_row_id [simp]: "pv_id (rewrite_row es p) = pv_id p" "pv_project (rewrite_row es p) = pv_project p"
  by (simp_all add: rewrite_row_def Let_def)

lemma rewrite_row_idem: "rewrite_row es (rewrite_row es p) = rewrite_row es p"
  by (simp add: rewrite_row_def Let_def last_write_idem)

lemma touch_rewrite:
  "touch e p = (if kills e (pv_id p) (pv_project p) then None else Some (rewrite_row [e] p))"
  by (cases e) (auto simp: kills_def rewrite_row_def Let_def w_status_def w_ports_def w_ready_def w_label_def)

lemma rewrite_row_Cons: "rewrite_row es (rewrite_row [e] p) = rewrite_row (e # es) p"
  by (simp add: rewrite_row_def Let_def)

lemma evolve_closed:
  "evolve es p = (if \<exists>e \<in> set es. kills e (pv_id p) (pv_project p) then None else Some (rewrite_row es p))"
proof (induction es arbitrary: p)
  case Nil
  then show ?case by (simp add: rewrite_row_def Let_def)
next
  case (Cons e es)
  then show ?case
    by (auto simp: touch_rewrite rewrite_row_Cons)
qed

lemma evolve_idem: "evolve es p = Some q \<Longrightarrow> evolve es q = Some q"
  by (auto simp: evolve_closed rewrite_row_idem split: if_splits)

subsection \<open>The rows a log gives birth to\<close>

primrec births :: "DomainEvent list \<Rightarrow> ProcessView list \<Rightarrow> ProcessView list" where
  "births [] ps = []"
| "births (e # es) ps = keep (evolve es) (spawn_rows e ps) @ births es (applyEvent ps e)"

lemma run_closed: "foldl applyEvent ps es = keep (evolve es) ps @ births es ps"
proof (induction es arbitrary: ps)
  case Nil
  then show ?case by (simp add: keep_self)
next
  case (Cons e es)
  then show ?case
    by (simp add: keep_bind applyEvent_touch)
qed

lemma births_member:
  "q \<in> set (births es ps) \<longleftrightarrow>
     (\<exists>pre e post p. es = pre @ e # post \<and> p \<in> set (spawn_rows e (foldl applyEvent ps pre))
        \<and> evolve post p = Some q)"
proof (induction es arbitrary: ps)
  case Nil
  then show ?case by simp
next
  case (Cons e es)
  show ?case
  proof
    assume "q \<in> set (births (e # es) ps)"
    then consider p where "p \<in> set (spawn_rows e ps)" "evolve es p = Some q"
      | "q \<in> set (births es (applyEvent ps e))"
      by (auto simp: set_keep)
    then show "\<exists>pre d post p. e # es = pre @ d # post \<and> p \<in> set (spawn_rows d (foldl applyEvent ps pre))
        \<and> evolve post p = Some q"
    proof cases
      case 1
      then show ?thesis by (intro exI [of _ "[]"] exI [of _ e] exI [of _ es]) auto
    next
      case 2
      then obtain pre d post p where "es = pre @ d # post"
        "p \<in> set (spawn_rows d (foldl applyEvent (applyEvent ps e) pre))" "evolve post p = Some q"
        using Cons.IH by blast
      then show ?thesis by (intro exI [of _ "e # pre"] exI [of _ d] exI [of _ post]) auto
    qed
  next
    assume "\<exists>pre d post p. e # es = pre @ d # post \<and> p \<in> set (spawn_rows d (foldl applyEvent ps pre))
        \<and> evolve post p = Some q"
    then obtain pre d post p where split: "e # es = pre @ d # post"
      "p \<in> set (spawn_rows d (foldl applyEvent ps pre))" "evolve post p = Some q"
      by blast
    show "q \<in> set (births (e # es) ps)"
    proof (cases pre)
      case Nil
      with split show ?thesis by (auto simp: set_keep)
    next
      case (Cons c cs)
      with split have "q \<in> set (births es (applyEvent ps e))"
        using Cons.IH [of "applyEvent ps e"] by auto
      then show ?thesis by simp
    qed
  qed
qed

subsection \<open>Replaying a log\<close>

text \<open>
  A log is fresh over a list when it spawns only ids the list does not hold, and nothing before
  a spawn speaks of that id or removes that project: the core allocates ids once.
\<close>

definition speaks_of :: "DomainEvent \<Rightarrow> ProcessView \<Rightarrow> bool" where
  "speaks_of e p \<longleftrightarrow> touch e p \<noteq> Some p \<or> (case spawns e of None \<Rightarrow> False | Some q \<Rightarrow> pv_id q = pv_id p)
     \<or> (case e of EvProcessStatusChanged i _ _ _ \<Rightarrow> i = pv_id p
        | EvPortsChanged i _ \<Rightarrow> i = pv_id p | EvReadyStateChanged i _ \<Rightarrow> i = pv_id p
        | EvProcessRenamed i _ \<Rightarrow> i = pv_id p | _ \<Rightarrow> False)"

definition disturbs :: "DomainEvent \<Rightarrow> DomainEvent \<Rightarrow> bool" where
  "disturbs d e = (case spawns e of None \<Rightarrow> False | Some p \<Rightarrow> speaks_of d p)"

fun fresh_log :: "ProcessView list \<Rightarrow> DomainEvent list \<Rightarrow> bool" where
  "fresh_log ps [] = True"
| "fresh_log ps (e # es) = ((case spawns e of None \<Rightarrow> True | Some p \<Rightarrow> pv_id p \<notin> pv_id ` set ps)
     \<and> list_all (\<lambda>d. \<not> disturbs e d) es \<and> fresh_log ps es)"

lemma fresh_log_append:
  "fresh_log ps (xs @ ys) \<longleftrightarrow> fresh_log ps xs \<and> fresh_log ps ys
     \<and> (\<forall>d \<in> set xs. \<forall>e \<in> set ys. \<not> disturbs d e)"
  by (induction xs) (auto simp: list_all_iff)

lemma fresh_log_spawn_not_in:
  "fresh_log ps es \<Longrightarrow> e \<in> set es \<Longrightarrow> spawns e = Some p \<Longrightarrow> pv_id p \<notin> pv_id ` set ps"
  by (induction es) (auto simp: image_iff)

lemma undisturbed_touch:
  assumes "\<not> disturbs d e" "spawns e = Some p" "pv_id q = pv_id p" "pv_project q = pv_project p"
  shows "touch d q = Some q"
  using assms by (cases d) (auto simp: disturbs_def speaks_of_def split: if_splits)

lemma undisturbed_evolve:
  assumes "\<And>d. d \<in> set pre \<Longrightarrow> \<not> disturbs d e" "spawns e = Some p"
    "pv_id q = pv_id p" "pv_project q = pv_project p"
  shows "evolve pre q = Some q"
  using assms undisturbed_touch [of _ e p q] by (induction pre) auto

lemma keep_touch_ids: "pv_id ` set (keep (touch e) ps) \<subseteq> pv_id ` set ps"
proof
  fix i assume "i \<in> pv_id ` set (keep (touch e) ps)"
  then obtain p q where "p \<in> set ps" "touch e p = Some q" "i = pv_id q"
    by (auto simp: set_keep)
  then show "i \<in> pv_id ` set ps" using touch_id [of e p q] by auto
qed

lemma ids_after_event:
  "pv_id ` set (applyEvent ps e) \<subseteq> pv_id ` set ps \<union> {pv_id p | p. spawns e = Some p}"
  using keep_touch_ids [of e ps]
  by (auto simp: applyEvent_touch spawn_rows_def simp del: applyEvent.simps split: option.splits if_splits)

lemma ids_after_run:
  "pv_id ` set (foldl applyEvent ps es) \<subseteq> pv_id ` set ps \<union> {pv_id p | p e. e \<in> set es \<and> spawns e = Some p}"
proof (induction es arbitrary: ps)
  case Nil
  then show ?case by simp
next
  case (Cons e es)
  have "pv_id ` set (foldl applyEvent ps (e # es)) \<subseteq>
      pv_id ` set (applyEvent ps e) \<union> {pv_id p | p d. d \<in> set es \<and> spawns d = Some p}"
    using Cons.IH [of "applyEvent ps e"] by simp
  also have "\<dots> \<subseteq> pv_id ` set ps \<union> {pv_id p | p d. d \<in> set (e # es) \<and> spawns d = Some p}"
    using ids_after_event [of ps e] unfolding list.set by blast
  finally show ?case .
qed

lemma spawn_not_live:
  assumes "fresh_log ps (pre @ e # post)" "spawns e = Some p"
  shows "pv_id p \<notin> pv_id ` set (foldl applyEvent ps pre)"
proof
  assume "pv_id p \<in> pv_id ` set (foldl applyEvent ps pre)"
  then have "pv_id p \<in> pv_id ` set ps \<or> (\<exists>q d. d \<in> set pre \<and> spawns d = Some q \<and> pv_id q = pv_id p)"
    using ids_after_run [of ps pre] by (auto simp: subset_iff)
  then show False
  proof
    assume "pv_id p \<in> pv_id ` set ps"
    with assms show False using fresh_log_spawn_not_in [of ps "pre @ e # post" e p] by simp
  next
    assume "\<exists>q d. d \<in> set pre \<and> spawns d = Some q \<and> pv_id q = pv_id p"
    then obtain q d where "d \<in> set pre" "spawns d = Some q" "pv_id q = pv_id p" by blast
    with assms show False
      by (auto simp: fresh_log_append disturbs_def speaks_of_def)
  qed
qed

lemma fresh_log_change:
  assumes "fresh_log ps es" "\<And>e p. e \<in> set es \<Longrightarrow> spawns e = Some p \<Longrightarrow> pv_id p \<notin> pv_id ` set ps'"
  shows "fresh_log ps' es"
  using assms by (induction es) (auto split: option.splits)

lemma fresh_log_suffix:
  assumes "fresh_log ps (xs @ ys)"
  shows "fresh_log (foldl applyEvent ps xs) ys"
proof (rule fresh_log_change)
  show "fresh_log ps ys" using assms by (simp add: fresh_log_append)
next
  fix e p assume e: "e \<in> set ys" "spawns e = Some p"
  then have "fresh_log ps (xs @ e # [])"
    using assms fresh_log_spawn_not_in [of ps ys e p] by (simp add: fresh_log_append)
  then show "pv_id p \<notin> pv_id ` set (foldl applyEvent ps xs)"
    using e(2) by (rule spawn_not_live)
qed

lemma survivors_fixed:
  assumes fresh: "fresh_log ps es" and q: "q \<in> set (foldl applyEvent ps es)"
  shows "evolve es q = Some q"
proof -
  from q consider p where "evolve es p = Some q" | "q \<in> set (births es ps)"
    by (auto simp: run_closed set_keep)
  then show ?thesis
  proof cases
    case 1
    then show ?thesis by (rule evolve_idem)
  next
    case 2
    then obtain pre e post p where split: "es = pre @ e # post"
      and p: "p \<in> set (spawn_rows e (foldl applyEvent ps pre))" "evolve post p = Some q"
      by (auto simp: births_member)
    from p(1) have sp: "spawns e = Some p"
      by (auto simp: spawn_rows_def split: option.splits if_splits)
    have "evolve pre q = Some q"
      using fresh split sp evolve_id [OF p(2)]
      by (intro undisturbed_evolve [of pre e p]) (auto simp: fresh_log_append)
    moreover have "touch e q = Some q"
      using sp by (cases e) auto
    moreover have "evolve post q = Some q"
      using p(2) by (rule evolve_idem)
    ultimately show ?thesis by (simp add: split evolve_append)
  qed
qed

lemma no_rebirth:
  assumes fresh: "fresh_log ps es"
  shows "births es (foldl applyEvent ps es) = []"
proof (rule ccontr)
  let ?t = "foldl applyEvent ps es"
  assume "births es ?t \<noteq> []"
  then obtain q where "q \<in> set (births es ?t)" by (meson list.set_sel(1))
  then obtain pre e post p where split: "es = pre @ e # post"
    and p: "p \<in> set (spawn_rows e (foldl applyEvent ?t pre))" "evolve post p = Some q"
    by (auto simp: births_member)
  from p(1) have sp: "spawns e = Some p"
    and new: "pv_id p \<notin> pv_id ` set (foldl applyEvent ?t pre)"
    by (auto simp: spawn_rows_def split: option.splits if_splits)
  have "p \<in> set (spawn_rows e (foldl applyEvent ps pre))"
    using spawn_not_live [of ps pre e post p] fresh split sp by (simp add: spawn_rows_def)
  with p(2) split have "q \<in> set (births es ps)" by (auto simp: births_member)
  then have "q \<in> set ?t" by (simp add: run_closed)
  moreover have "evolve pre q = Some q"
    using fresh split sp evolve_id [OF p(2)]
    by (intro undisturbed_evolve [of pre e p]) (auto simp: fresh_log_append)
  ultimately have "q \<in> set (foldl applyEvent ?t pre)"
    by (auto simp: run_closed [of ?t pre] set_keep)
  then have "pv_id q \<in> pv_id ` set (foldl applyEvent ?t pre)" by (rule imageI)
  with new evolve_id [OF p(2)] show False by simp
qed

lemma replay_idempotent:
  assumes "fresh_log ps es"
  shows "foldl applyEvent (foldl applyEvent ps es) es = foldl applyEvent ps es"
proof -
  have "foldl applyEvent (foldl applyEvent ps es) es = keep (evolve es) (foldl applyEvent ps es)"
    by (subst run_closed) (simp add: no_rebirth [OF assms])
  also have "\<dots> = foldl applyEvent ps es"
    using survivors_fixed [OF assms] by (rule keep_self)
  finally show ?thesis .
qed


definition sample_log :: "DomainEvent list" where
  "sample_log = [EvProcessSpawned 2 1 Agent (lit ''a'') Starting False True,
     EvProcessStatusChanged 2 Starting Running None, EvPortsChanged 1 [5173],
     EvProcessRemoved 1, EvProcessSpawned 3 1 Terminal (lit ''t'') Running False False]"


text \<open>A log that spawns an id again after removing it is not replayed faithfully: the hypothesis matters.\<close>

lemma reused_id_reorders:
  "let ps = [spawned_row 1 1 Command [] Running False False, spawned_row 2 1 Command [] Running False False];
       es = [EvProcessRemoved 1, EvProcessSpawned 1 1 Command [] Running False False,
             EvProcessSpawned 3 1 Command [] Running False False]
   in foldl applyEvent (foldl applyEvent ps es) es \<noteq> foldl applyEvent ps es"
  by (simp add: spawned_row_def)

lemma applyEvent_distinct: "distinct (map pv_id ps) \<Longrightarrow> distinct (map pv_id (applyEvent ps e))"
proof -
  assume "distinct (map pv_id ps)"
  then have "distinct (map pv_id (keep (touch e) ps))"
  proof (induction ps)
    case (Cons p ps)
    show ?case
    proof (cases "touch e p")
      case None
      with Cons show ?thesis by simp
    next
      case (Some q)
      have "pv_id p \<notin> pv_id ` set ps" using Cons.prems by simp
      then have "pv_id q \<notin> pv_id ` set (keep (touch e) ps)"
        using keep_touch_ids [of e ps] touch_id [OF Some] by auto
      with Some Cons show ?thesis by simp
    qed
  qed simp
  moreover have "distinct (map pv_id (spawn_rows e ps))"
    by (cases "spawns e") (simp_all add: spawn_rows_def)
  moreover have "pv_id ` set (spawn_rows e ps) \<inter> pv_id ` set ps = {}"
    by (cases "spawns e") (auto simp: spawn_rows_def)
  ultimately show ?thesis
    using keep_touch_ids [of e ps] by (simp add: applyEvent_touch) blast
qed

interpretation row_ids: machine "[] :: ProcessView list" applyEvent "\<lambda>ps. distinct (map pv_id ps)"
  by unfold_locales (simp_all add: applyEvent_distinct)

text \<open>
  No row is listed twice: whatever events arrive, distinct ids stay distinct.
\<close>

theorem process_ids_distinct: "distinct (map pv_id (foldl applyEvent [] es))"
  by (rule row_ids.inv_run)

end
