(* ===== verification/ProcessStore.thy ===== *)
theory ProcessStore
  imports Projection
begin

section \<open>The process read model\<close>

text \<open>
  \<open>store/useProcesses.ts\<close>: the store seeds itself from a snapshot and folds live deltas in.
  While a fetch is in flight events are buffered and replayed on top of the snapshot, and a
  generation number drops the reply of a superseded fetch. The refs of the hook and its React
  state are one record; each callback is one operation on it. The second half couples the store
  to a core that emits events and answers fetches, with both streams free to run late, and shows
  that the list the user sees converges to the core's.
\<close>

definition MAX_BUFFERED_EVENTS :: nat where
  "MAX_BUFFERED_EVENTS = 1024"

record ProcessStoreState =
  st_processes :: "ProcessView list"
  st_error :: "jstring option"
  st_fetching :: bool
  st_buffer :: "DomainEvent list"
  st_gen :: nat

definition store_init :: ProcessStoreState where
  "store_init = \<lparr>st_processes = [], st_error = None, st_fetching = False, st_buffer = [], st_gen = 0\<rparr>"

definition store_fail :: "jstring \<Rightarrow> ProcessStoreState \<Rightarrow> ProcessStoreState" where
  "store_fail reason s = s\<lparr>st_error := Some reason\<rparr>"

definition clearError :: "ProcessStoreState \<Rightarrow> ProcessStoreState" where
  "clearError s = s\<lparr>st_error := None\<rparr>"

text \<open>\<open>refresh\<close> starts a fetch; its generation is the new \<open>st_gen\<close>.\<close>

definition refresh :: "ProcessStoreState \<Rightarrow> ProcessStoreState" where
  "refresh s = s\<lparr>st_gen := Suc (st_gen s), st_fetching := True, st_buffer := []\<rparr>"

definition snapshot_arrived :: "nat \<Rightarrow> ProcessView list \<Rightarrow> ProcessStoreState \<Rightarrow> ProcessStoreState" where
  "snapshot_arrived gen snapshot s =
     (if gen \<noteq> st_gen s then s
      else let hydrated = foldl applyEvent snapshot (st_buffer s)
        in s\<lparr>st_buffer := [], st_fetching := False, st_processes := hydrated\<rparr>)"

definition snapshot_failed :: "nat \<Rightarrow> jstring \<Rightarrow> ProcessStoreState \<Rightarrow> ProcessStoreState" where
  "snapshot_failed gen reason s =
     (if gen \<noteq> st_gen s then s else store_fail reason (s\<lparr>st_fetching := False\<rparr>))"

definition on_event :: "DomainEvent \<Rightarrow> ProcessStoreState \<Rightarrow> ProcessStoreState" where
  "on_event event s =
     (if st_fetching s
      then let buffer = st_buffer s @ [event]
        in s\<lparr>st_buffer := (if length buffer > MAX_BUFFERED_EVENTS then tl buffer else buffer)\<rparr>
      else s\<lparr>st_processes := applyEvent (st_processes s) event\<rparr>)"

text \<open>
  A lifecycle action (start, stop, restart, resume, close and the bulk ones) only calls the core;
  what it leaves in the store is the error of a refused call. \<open>createTerminal\<close> also resolves to
  the new id, or null on failure.
\<close>

definition action_settled :: "jstring option \<Rightarrow> ProcessStoreState \<Rightarrow> ProcessStoreState" where
  "action_settled outcome s = (case outcome of None \<Rightarrow> s | Some reason \<Rightarrow> store_fail reason s)"

definition createTerminal :: "jstring + int \<Rightarrow> ProcessStoreState \<Rightarrow> ProcessStoreState \<times> int option" where
  "createTerminal reply s =
     (case reply of Inl reason \<Rightarrow> (store_fail reason s, None) | Inr i \<Rightarrow> (s, Some i))"

lemmas store_defs = store_init_def store_fail_def clearError_def refresh_def snapshot_arrived_def
  snapshot_failed_def on_event_def action_settled_def createTerminal_def

lemma actions_keep_list [simp]:
  "st_processes (action_settled r s) = st_processes s"
  "st_processes (fst (createTerminal reply s)) = st_processes s"
  by (auto simp: store_defs split: option.splits sum.splits)

subsection \<open>The store beside its core\<close>

text \<open>
  The core's list starts at \<open>ps0\<close> and moves by its own log. A refresh is one pending request, a
  request is answered once with the list at that moment, and the reply and the events travel
  separately: a reply may overtake events it already reflects. \<open>sy_since\<close> counts the events
  delivered before the latest refresh and \<open>sy_synced\<close> records that its snapshot was applied with
  no event dropped from the buffer; both are bookkeeping the code does not have.
\<close>

record Sys =
  sy_store :: ProcessStoreState
  sy_log :: "DomainEvent list"
  sy_delivered :: nat
  sy_pending :: "nat list"
  sy_replies :: "(nat \<times> ProcessView list) list"
  sy_since :: nat
  sy_synced :: bool

datatype SysStep =
    Emit DomainEvent | Deliver | RequestRefresh | Answer nat | Arrive nat | FailFetch nat jstring
  | SettleAction "jstring option" | DismissError

definition sys_init :: Sys where
  "sys_init = \<lparr>sy_store = store_init, sy_log = [], sy_delivered = 0, sy_pending = [],
     sy_replies = [], sy_since = 0, sy_synced = False\<rparr>"

fun sys_step :: "ProcessView list \<Rightarrow> Sys \<Rightarrow> SysStep \<Rightarrow> Sys" where
  "sys_step ps0 s (Emit e) = s\<lparr>sy_log := sy_log s @ [e]\<rparr>"
| "sys_step ps0 s Deliver =
     (if sy_delivered s < length (sy_log s)
      then s\<lparr>sy_store := on_event (sy_log s ! sy_delivered s) (sy_store s),
             sy_delivered := Suc (sy_delivered s)\<rparr>
      else s)"
| "sys_step ps0 s RequestRefresh =
     s\<lparr>sy_store := refresh (sy_store s), sy_pending := sy_pending s @ [Suc (st_gen (sy_store s))],
       sy_since := sy_delivered s, sy_synced := False\<rparr>"
| "sys_step ps0 s (Answer gen) =
     (if gen \<in> set (sy_pending s)
      then s\<lparr>sy_pending := removeAll gen (sy_pending s),
             sy_replies := sy_replies s @ [(gen, foldl applyEvent ps0 (sy_log s))]\<rparr>
      else s)"
| "sys_step ps0 s (Arrive gen) =
     (case map_of (sy_replies s) gen of None \<Rightarrow> s
      | Some snapshot \<Rightarrow>
          s\<lparr>sy_store := snapshot_arrived gen snapshot (sy_store s),
            sy_replies := filter (\<lambda>r. fst r \<noteq> gen) (sy_replies s),
            sy_synced := (if gen = st_gen (sy_store s)
              then sy_delivered s - sy_since s \<le> MAX_BUFFERED_EVENTS else sy_synced s)\<rparr>)"
| "sys_step ps0 s (FailFetch gen reason) =
     (if gen \<in> set (sy_pending s)
      then s\<lparr>sy_pending := removeAll gen (sy_pending s),
             sy_store := snapshot_failed gen reason (sy_store s)\<rparr>
      else s)"
| "sys_step ps0 s (SettleAction r) = s\<lparr>sy_store := action_settled r (sy_store s)\<rparr>"
| "sys_step ps0 s DismissError = s\<lparr>sy_store := clearError (sy_store s)\<rparr>"

definition events_since :: "Sys \<Rightarrow> DomainEvent list" where
  "events_since s = take (sy_delivered s - sy_since s) (drop (sy_since s) (sy_log s))"

definition core_list :: "ProcessView list \<Rightarrow> Sys \<Rightarrow> nat \<Rightarrow> ProcessView list" where
  "core_list ps0 s j = foldl applyEvent ps0 (take j (sy_log s))"

definition outstanding :: "Sys \<Rightarrow> nat set" where
  "outstanding s = set (sy_pending s) \<union> fst ` set (sy_replies s)"

definition sys_inv :: "ProcessView list \<Rightarrow> Sys \<Rightarrow> bool" where
  "sys_inv ps0 s \<longleftrightarrow>
     sy_since s \<le> sy_delivered s \<and> sy_delivered s \<le> length (sy_log s)
     \<and> (\<forall>g \<in> outstanding s. g \<le> st_gen (sy_store s))
     \<and> set (sy_pending s) \<inter> fst ` set (sy_replies s) = {}
     \<and> distinct (map fst (sy_replies s))
     \<and> (st_gen (sy_store s) \<in> outstanding s \<longrightarrow> st_fetching (sy_store s) \<and> \<not> sy_synced s)
     \<and> (st_fetching (sy_store s) \<and> length (events_since s) \<le> MAX_BUFFERED_EVENTS
          \<longrightarrow> st_buffer (sy_store s) = events_since s)
     \<and> (\<forall>snap. (st_gen (sy_store s), snap) \<in> set (sy_replies s) \<longrightarrow>
          (\<exists>j. sy_since s \<le> j \<and> j \<le> length (sy_log s) \<and> snap = core_list ps0 s j))
     \<and> (sy_synced s \<longrightarrow> \<not> st_fetching (sy_store s) \<and>
          (\<exists>j. sy_since s \<le> j \<and> j \<le> length (sy_log s)
             \<and> st_processes (sy_store s) = foldl applyEvent (core_list ps0 s j) (events_since s)))"

lemma length_events_since:
  "sy_since s \<le> sy_delivered s \<Longrightarrow> sy_delivered s \<le> length (sy_log s) \<Longrightarrow>
   length (events_since s) = sy_delivered s - sy_since s"
  by (simp add: events_since_def)

lemma events_since_deliver:
  assumes "sy_since s \<le> sy_delivered s" "sy_delivered s < length (sy_log s)"
  shows "take (Suc (sy_delivered s) - sy_since s) (drop (sy_since s) (sy_log s))
       = events_since s @ [sy_log s ! sy_delivered s]"
proof -
  have "Suc (sy_delivered s) - sy_since s = Suc (sy_delivered s - sy_since s)" using assms by simp
  then show ?thesis
    using assms by (simp add: events_since_def take_Suc_conv_app_nth)
qed

lemma core_list_emit: "j \<le> length (sy_log s) \<Longrightarrow> core_list ps0 (s\<lparr>sy_log := sy_log s @ [e]\<rparr>) j = core_list ps0 s j"
  by (simp add: core_list_def)

lemma events_since_emit:
  "sy_since s \<le> sy_delivered s \<Longrightarrow> sy_delivered s \<le> length (sy_log s) \<Longrightarrow>
   events_since (s\<lparr>sy_log := sy_log s @ [e]\<rparr>) = events_since s"
  by (simp add: events_since_def)

text \<open>The invariant as elimination and introduction rules over named parts.\<close>

definition reply_ok :: "ProcessView list \<Rightarrow> Sys \<Rightarrow> bool" where
  "reply_ok ps0 s \<longleftrightarrow> (\<forall>snap. (st_gen (sy_store s), snap) \<in> set (sy_replies s) \<longrightarrow>
     (\<exists>j. sy_since s \<le> j \<and> j \<le> length (sy_log s) \<and> snap = core_list ps0 s j))"

definition list_ok :: "ProcessView list \<Rightarrow> Sys \<Rightarrow> bool" where
  "list_ok ps0 s \<longleftrightarrow> (sy_synced s \<longrightarrow> \<not> st_fetching (sy_store s) \<and>
     (\<exists>j. sy_since s \<le> j \<and> j \<le> length (sy_log s)
        \<and> st_processes (sy_store s) = foldl applyEvent (core_list ps0 s j) (events_since s)))"

definition buffer_ok :: "Sys \<Rightarrow> bool" where
  "buffer_ok s \<longleftrightarrow> (st_fetching (sy_store s) \<and> length (events_since s) \<le> MAX_BUFFERED_EVENTS
     \<longrightarrow> st_buffer (sy_store s) = events_since s)"

definition fetch_ok :: "Sys \<Rightarrow> bool" where
  "fetch_ok s \<longleftrightarrow>
     (\<forall>g \<in> outstanding s. g \<le> st_gen (sy_store s))
     \<and> set (sy_pending s) \<inter> fst ` set (sy_replies s) = {}
     \<and> distinct (map fst (sy_replies s))
     \<and> (st_gen (sy_store s) \<in> outstanding s \<longrightarrow> st_fetching (sy_store s) \<and> \<not> sy_synced s)"

definition counts_ok :: "Sys \<Rightarrow> bool" where
  "counts_ok s \<longleftrightarrow> sy_since s \<le> sy_delivered s \<and> sy_delivered s \<le> length (sy_log s)"

lemma sys_inv_parts:
  "sys_inv ps0 s \<longleftrightarrow> counts_ok s \<and> fetch_ok s \<and> buffer_ok s \<and> reply_ok ps0 s \<and> list_ok ps0 s"
  by (auto simp: sys_inv_def counts_ok_def fetch_ok_def buffer_ok_def reply_ok_def list_ok_def)

lemmas part_defs = counts_ok_def fetch_ok_def buffer_ok_def reply_ok_def list_ok_def

lemma emit_exists:
  assumes "\<exists>j. a \<le> j \<and> j \<le> length (sy_log s) \<and> P (core_list ps0 s j)"
  shows "\<exists>j. a \<le> j \<and> j \<le> Suc (length (sy_log s)) \<and> P (core_list ps0 (s\<lparr>sy_log := sy_log s @ [e]\<rparr>) j)"
proof -
  from assms obtain j where "a \<le> j" "j \<le> length (sy_log s)" "P (core_list ps0 s j)" by blast
  then show ?thesis by (intro exI [of _ j]) (simp add: core_list_emit)
qed

lemma inv_emit: "sys_inv ps0 s \<Longrightarrow> sys_inv ps0 (sys_step ps0 s (Emit e))"
  unfolding sys_inv_parts
proof (elim conjE, intro conjI)
  assume c: "counts_ok s" and f: "fetch_ok s" and b: "buffer_ok s" and r: "reply_ok ps0 s" and l: "list_ok ps0 s"
  have ev: "events_since (s\<lparr>sy_log := sy_log s @ [e]\<rparr>) = events_since s"
    using c by (simp add: counts_ok_def events_since_emit)
  show "counts_ok (sys_step ps0 s (Emit e))" using c by (simp add: counts_ok_def)
  show "fetch_ok (sys_step ps0 s (Emit e))" using f by (simp add: fetch_ok_def outstanding_def)
  show "buffer_ok (sys_step ps0 s (Emit e))" using b ev by (simp add: buffer_ok_def)
  show "reply_ok ps0 (sys_step ps0 s (Emit e))"
    using r unfolding reply_ok_def by (auto intro!: emit_exists)
  show "list_ok ps0 (sys_step ps0 s (Emit e))"
    using l ev unfolding list_ok_def by (auto intro!: emit_exists)
qed

lemma inv_deliver: "sys_inv ps0 s \<Longrightarrow> sys_inv ps0 (sys_step ps0 s Deliver)"
proof (cases "sy_delivered s < length (sy_log s)")
  case False
  moreover assume "sys_inv ps0 s"
  ultimately show ?thesis by simp
next
  case True
  let ?e = "sy_log s ! sy_delivered s"
  let ?t = "s\<lparr>sy_store := on_event ?e (sy_store s), sy_delivered := Suc (sy_delivered s)\<rparr>"
  assume "sys_inv ps0 s"
  then have c: "counts_ok s" and f: "fetch_ok s" and b: "buffer_ok s" and r: "reply_ok ps0 s" and l: "list_ok ps0 s"
    by (simp_all add: sys_inv_parts)
  have ev: "events_since ?t = events_since s @ [?e]"
    using c True events_since_deliver [of s] by (simp add: counts_ok_def events_since_def)
  have cl: "core_list ps0 ?t = core_list ps0 s" by (rule ext) (simp add: core_list_def)
  have "counts_ok ?t" using c True by (simp add: counts_ok_def)
  moreover have "fetch_ok ?t" using f by (auto simp: fetch_ok_def outstanding_def on_event_def Let_def)
  moreover have "buffer_ok ?t"
    using b unfolding buffer_ok_def ev by (auto simp: on_event_def Let_def)
  moreover have "reply_ok ps0 ?t"
    using r unfolding reply_ok_def cl by (auto simp: on_event_def Let_def)
  moreover have "list_ok ps0 ?t"
    using l unfolding list_ok_def cl ev by (auto simp: on_event_def Let_def)
  ultimately show ?thesis using True by (simp add: sys_inv_parts)
qed

lemma inv_refresh: "sys_inv ps0 s \<Longrightarrow> sys_inv ps0 (sys_step ps0 s RequestRefresh)"
proof -
  let ?t = "sys_step ps0 s RequestRefresh"
  assume "sys_inv ps0 s"
  then have c: "counts_ok s" and f: "fetch_ok s" by (simp_all add: sys_inv_parts)
  have out: "outstanding ?t = insert (Suc (st_gen (sy_store s))) (outstanding s)"
    by (auto simp: outstanding_def)
  have below: "g \<le> st_gen (sy_store s)" if "g \<in> outstanding s" for g
    using f that by (simp add: fetch_ok_def)
  then have new: "Suc (st_gen (sy_store s)) \<notin> outstanding s" by fastforce
  have "fetch_ok ?t"
    using f new unfolding fetch_ok_def out
    by (auto simp: refresh_def outstanding_def dest: below intro: le_SucI)
  moreover have "reply_ok ps0 ?t"
    using new by (force simp: reply_ok_def refresh_def outstanding_def)
  moreover have "counts_ok ?t" "buffer_ok ?t" "list_ok ps0 ?t"
    using c by (simp_all add: part_defs events_since_def refresh_def)
  ultimately show ?thesis by (simp add: sys_inv_parts)
qed

lemma inv_answer: "sys_inv ps0 s \<Longrightarrow> sys_inv ps0 (sys_step ps0 s (Answer g))"
proof (cases "g \<in> set (sy_pending s)")
  case False
  moreover assume "sys_inv ps0 s"
  ultimately show ?thesis by simp
next
  case True
  let ?t = "s\<lparr>sy_pending := removeAll g (sy_pending s),
             sy_replies := sy_replies s @ [(g, foldl applyEvent ps0 (sy_log s))]\<rparr>"
  assume "sys_inv ps0 s"
  then have c: "counts_ok s" and f: "fetch_ok s" and b: "buffer_ok s" and r: "reply_ok ps0 s" and l: "list_ok ps0 s"
    by (simp_all add: sys_inv_parts)
  have ev: "events_since ?t = events_since s" by (simp add: events_since_def)
  have cl: "core_list ps0 ?t = core_list ps0 s" by (rule ext) (simp add: core_list_def)
  have out: "outstanding ?t = outstanding s" using True by (auto simp: outstanding_def)
  have latest: "\<exists>j\<ge>sy_since s. j \<le> length (sy_log s) \<and> foldl applyEvent ps0 (sy_log s) = core_list ps0 s j"
    using c by (intro exI [of _ "length (sy_log s)"]) (simp add: core_list_def counts_ok_def)
  have "counts_ok ?t" using c by (simp add: counts_ok_def)
  moreover have "fetch_ok ?t"
    using f True unfolding fetch_ok_def out by auto
  moreover have "buffer_ok ?t" using b by (simp add: buffer_ok_def ev)
  moreover have "reply_ok ps0 ?t"
    using r latest unfolding reply_ok_def cl by auto
  moreover have "list_ok ps0 ?t" using l by (simp add: list_ok_def cl ev)
  ultimately show ?thesis using True by (simp add: sys_inv_parts)
qed

lemma inv_arrive: "sys_inv ps0 s \<Longrightarrow> sys_inv ps0 (sys_step ps0 s (Arrive g))"
proof (cases "map_of (sy_replies s) g")
  case None
  moreover assume "sys_inv ps0 s"
  ultimately show ?thesis by simp
next
  case (Some snap)
  let ?t = "sys_step ps0 s (Arrive g)"
  assume "sys_inv ps0 s"
  then have c: "counts_ok s" and f: "fetch_ok s" and b: "buffer_ok s" and r: "reply_ok ps0 s" and l: "list_ok ps0 s"
    by (simp_all add: sys_inv_parts)
  from Some have mem: "(g, snap) \<in> set (sy_replies s)" by (rule map_of_SomeD)
  then have out: "g \<in> outstanding s" by (force simp: outstanding_def)
  have notp: "g \<notin> set (sy_pending s)"
    using f imageI [OF mem, of fst] by (auto simp: fetch_ok_def)
  have ev: "events_since ?t = events_since s" using Some by (simp add: events_since_def)
  have cl: "core_list ps0 ?t = core_list ps0 s" using Some by (intro ext) (simp add: core_list_def)
  have gen: "st_gen (sy_store ?t) = st_gen (sy_store s)"
    using Some by (simp add: snapshot_arrived_def Let_def)
  have outt: "outstanding ?t = outstanding s - {g}"
    using Some notp by (auto simp: outstanding_def)
  have replies: "set (sy_replies ?t) = {r \<in> set (sy_replies s). fst r \<noteq> g}"
    using Some by auto
  have "counts_ok ?t" using c Some by (simp add: counts_ok_def)
  moreover have "reply_ok ps0 ?t"
    using r Some unfolding reply_ok_def gen cl replies by simp
  moreover have "fetch_ok ?t \<and> buffer_ok ?t \<and> list_ok ps0 ?t"
  proof (cases "g = st_gen (sy_store s)")
    case False
    then have "sy_store ?t = sy_store s" "sy_synced ?t = sy_synced s" "sy_pending ?t = sy_pending s"
      using Some by (simp_all add: snapshot_arrived_def)
    then show ?thesis
      using f b l Some unfolding fetch_ok_def buffer_ok_def list_ok_def ev cl outt replies
      by (auto simp: distinct_map_filter)
  next
    case True
    with f out have fetching: "st_fetching (sy_store s)" by (auto simp: fetch_ok_def)
    have synced: "sy_synced ?t \<longleftrightarrow> sy_delivered s - sy_since s \<le> MAX_BUFFERED_EVENTS"
      and store: "sy_store ?t = (sy_store s)\<lparr>st_buffer := [], st_fetching := False,
        st_processes := foldl applyEvent snap (st_buffer (sy_store s))\<rparr>"
      using Some True by (simp_all add: snapshot_arrived_def Let_def)
    obtain j where j: "sy_since s \<le> j" "j \<le> length (sy_log s)" "snap = core_list ps0 s j"
      using r mem True unfolding reply_ok_def by auto
    have len: "length (events_since s) = sy_delivered s - sy_since s"
      using c by (simp add: counts_ok_def length_events_since)
    have "st_buffer (sy_store s) = events_since s" if "sy_synced ?t"
      using b fetching that len synced by (simp add: buffer_ok_def)
    then have "list_ok ps0 ?t"
      using j Some unfolding list_ok_def ev cl store by auto
    moreover have "fetch_ok ?t"
      using f Some unfolding fetch_ok_def outt gen using True by (auto simp: distinct_map_filter)
    moreover have "buffer_ok ?t" unfolding buffer_ok_def store by simp
    ultimately show ?thesis by simp
  qed
  ultimately show ?thesis by (simp add: sys_inv_parts)
qed

lemma inv_fail: "sys_inv ps0 s \<Longrightarrow> sys_inv ps0 (sys_step ps0 s (FailFetch g reason))"
proof (cases "g \<in> set (sy_pending s)")
  case False
  moreover assume "sys_inv ps0 s"
  ultimately show ?thesis by simp
next
  case True
  let ?t = "sys_step ps0 s (FailFetch g reason)"
  assume "sys_inv ps0 s"
  then have c: "counts_ok s" and f: "fetch_ok s" and b: "buffer_ok s" and r: "reply_ok ps0 s" and l: "list_ok ps0 s"
    by (simp_all add: sys_inv_parts)
  have gen: "st_gen (sy_store ?t) = st_gen (sy_store s)"
    and procs: "st_processes (sy_store ?t) = st_processes (sy_store s)"
    and buf: "st_buffer (sy_store ?t) = st_buffer (sy_store s)"
    and fetch: "st_fetching (sy_store ?t) \<longleftrightarrow> st_fetching (sy_store s) \<and> g \<noteq> st_gen (sy_store s)"
    using True by (auto simp: snapshot_failed_def store_fail_def)
  have ev: "events_since ?t = events_since s" using True by (simp add: events_since_def)
  have cl: "core_list ps0 ?t = core_list ps0 s" using True by (intro ext) (simp add: core_list_def)
  have same: "sy_replies ?t = sy_replies s" "sy_synced ?t = sy_synced s" "sy_since ?t = sy_since s"
    "sy_log ?t = sy_log s" "sy_delivered ?t = sy_delivered s" "sy_pending ?t = removeAll g (sy_pending s)"
    using True by simp_all
  have notr: "g \<notin> fst ` set (sy_replies s)" using f True by (auto simp: fetch_ok_def)
  have out: "outstanding ?t = outstanding s - {g}" using notr by (auto simp: outstanding_def same)
  have "counts_ok ?t" using c by (simp only: counts_ok_def same)
  moreover have "fetch_ok ?t"
    using f unfolding fetch_ok_def out gen fetch same by auto
  moreover have "buffer_ok ?t" using b unfolding buffer_ok_def ev fetch buf by blast
  moreover have "reply_ok ps0 ?t" using r unfolding reply_ok_def gen cl same .
  moreover have "list_ok ps0 ?t" using l unfolding list_ok_def fetch ev cl procs same by blast
  ultimately show ?thesis unfolding sys_inv_parts by blast
qed

lemma inv_error_steps:
  "sys_inv ps0 s \<Longrightarrow> sys_inv ps0 (sys_step ps0 s (SettleAction r))"
  "sys_inv ps0 s \<Longrightarrow> sys_inv ps0 (sys_step ps0 s DismissError)"
  by (auto simp: sys_inv_parts part_defs outstanding_def events_since_def core_list_def
      action_settled_def store_fail_def clearError_def split: option.splits)

lemma sys_inv_step: "sys_inv ps0 s \<Longrightarrow> sys_inv ps0 (sys_step ps0 s x)"
  by (cases x) (simp_all only: inv_emit inv_deliver inv_refresh inv_answer inv_arrive inv_fail inv_error_steps)

lemma sys_inv_init: "sys_inv ps0 sys_init"
  by (simp add: sys_inv_parts part_defs sys_init_def store_init_def outstanding_def)

interpretation read_model: machine sys_init "sys_step ps0" "sys_inv ps0" for ps0
  by unfold_locales (rule sys_inv_init, rule sys_inv_step)

subsection \<open>Convergence\<close>

definition settled :: "Sys \<Rightarrow> bool" where
  "settled s \<longleftrightarrow> sy_synced s \<and> sy_delivered s = length (sy_log s)"

lemma core_list_split:
  assumes "i \<le> j"
  shows "core_list ps0 s j = foldl applyEvent (core_list ps0 s i) (take (j - i) (drop i (sy_log s)))"
proof -
  have "take j (sy_log s) = take i (sy_log s) @ take (j - i) (drop i (sy_log s))"
    using assms by (metis le_add_diff_inverse take_add)
  then show ?thesis by (simp add: core_list_def)
qed

lemma settled_list:
  assumes inv: "sys_inv ps0 s" and fresh: "fresh_log ps0 (sy_log s)" and settled: "settled s"
  shows "st_processes (sy_store s) = foldl applyEvent ps0 (sy_log s)"
proof -
  let ?i = "sy_since s" and ?es = "drop (sy_since s) (sy_log s)"
  from inv settled obtain j where j: "?i \<le> j"
    and list: "st_processes (sy_store s) = foldl applyEvent (core_list ps0 s j) (events_since s)"
    by (auto simp: sys_inv_parts list_ok_def settled_def)
  have all: "events_since s = ?es"
    using settled by (simp add: events_since_def settled_def)
  have "fresh_log ps0 (take ?i (sy_log s) @ ?es)" using fresh by simp
  then have "fresh_log (core_list ps0 s ?i) ?es"
    unfolding core_list_def by (rule fresh_log_suffix)
  then have "foldl applyEvent (foldl applyEvent (core_list ps0 s ?i) (take (j - ?i) ?es)) ?es
      = foldl applyEvent (core_list ps0 s ?i) ?es"
    by (metis append_take_drop_id foldl_append fresh_log_append replay_idempotent)
  also have "\<dots> = foldl applyEvent ps0 (take ?i (sy_log s) @ ?es)"
    by (simp only: core_list_def foldl_append)
  finally show ?thesis
    using list all core_list_split [OF j, of ps0 s] by simp
qed


definition sample_run :: "SysStep list" where
  "sample_run = [RequestRefresh, Emit (EvProcessSpawned 2 1 Agent [] Starting False True), Deliver,
     Emit (EvProcessStatusChanged 2 Starting Running None), Answer 1, Arrive 1, Deliver]"


lemma events_while_fetching:
  "st_fetching s \<Longrightarrow> st_fetching (foldl (\<lambda>t e. on_event e t) s es)
     \<and> st_gen (foldl (\<lambda>t e. on_event e t) s es) = st_gen s
     \<and> st_processes (foldl (\<lambda>t e. on_event e t) s es) = st_processes s"
  by (induction es arbitrary: s) (simp_all add: on_event_def Let_def)


interpretation bounded_buffer: machine sys_init "sys_step ps0"
  "\<lambda>s. length (st_buffer (sy_store s)) \<le> MAX_BUFFERED_EVENTS" for ps0
proof (unfold_locales, goal_cases)
  case 1
  show ?case by (simp add: sys_init_def store_init_def)
next
  case (2 s x)
  then show ?case
    by (cases x) (auto simp: store_defs Let_def MAX_BUFFERED_EVENTS_def split: option.splits)
qed

text \<open>
  The buffer is bounded: no run ever holds more than 1024 buffered events.
\<close>

theorem buffer_bounded:
  "length (st_buffer (sy_store (foldl (sys_step ps0) sys_init xs))) \<le> MAX_BUFFERED_EVENTS"
  by (rule bounded_buffer.inv_run)

end
