(* ===== verification/Forest.thy ===== *)
theory Forest
  imports Domain
begin

section \<open>Nesting rows by a parent edge\<close>

text \<open>
  The algorithm \<open>store/grouping.ts\<close> (\<open>nestByLineage\<close>) and \<open>store/orchestrationTree.ts\<close> share:
  one mutable node per id, a single pass that pushes each node under its parent or onto the
  roots, and the resulting object graph read as a tree. The node objects are entries of a map
  keyed by id, a child reference is the child's id, and reading the graph as a tree spends one
  unit of fuel per level, so that a cyclic graph would show as \<open>None\<close>.
\<close>

datatype 'a tree_node = TreeNode 'a "'a tree_node list"

type_synonym 'a node_store = "(int, 'a \<times> int list) jsmap"

definition fresh_nodes :: "('a \<Rightarrow> int) \<Rightarrow> 'a list \<Rightarrow> 'a node_store" where
  "fresh_nodes key members = map_from (map (\<lambda>m. (key m, (m, []))) members)"

definition nest_one ::
  "('a \<Rightarrow> int) \<Rightarrow> ('a \<Rightarrow> int option) \<Rightarrow> 'a node_store \<times> int list \<Rightarrow> 'a \<Rightarrow> 'a node_store \<times> int list" where
  "nest_one key par st m =
     (let (nodes, roots) = st in
      case map_get nodes (key m) of None \<Rightarrow> (nodes, roots)
      | Some node \<Rightarrow>
          (case par m of None \<Rightarrow> (nodes, roots @ [key m])
           | Some p \<Rightarrow>
               if p = key m then (nodes, roots @ [key m])
               else case map_get nodes p of None \<Rightarrow> (nodes, roots @ [key m])
                 | Some (parent, kids) \<Rightarrow> (map_set p (parent, kids @ [key m]) nodes, roots)))"

definition nest :: "('a \<Rightarrow> int) \<Rightarrow> ('a \<Rightarrow> int option) \<Rightarrow> 'a list \<Rightarrow> 'a node_store \<times> int list" where
  "nest key par members = foldl (nest_one key par) (fresh_nodes key members, []) members"

fun read_tree :: "nat \<Rightarrow> 'a node_store \<Rightarrow> int list \<Rightarrow> 'a tree_node list option" where
  "read_tree n nodes [] = Some []"
| "read_tree 0 nodes (i # is) = None"
| "read_tree (Suc n) nodes (i # is) =
     (case map_get nodes i of None \<Rightarrow> None
      | Some (m, kids) \<Rightarrow>
          (case read_tree n nodes kids of None \<Rightarrow> None
           | Some below \<Rightarrow>
               (case read_tree (Suc n) nodes is of None \<Rightarrow> None
                | Some rest \<Rightarrow> Some (TreeNode m below # rest))))"

definition nest_tree :: "('a \<Rightarrow> int) \<Rightarrow> ('a \<Rightarrow> int option) \<Rightarrow> 'a list \<Rightarrow> 'a tree_node list option" where
  "nest_tree key par members =
     (let (nodes, roots) = nest key par members in read_tree (length members) nodes roots)"

fun flatten :: "'a tree_node list \<Rightarrow> 'a list" where
  "flatten [] = []"
| "flatten (TreeNode m kids # rest) = m # flatten kids @ flatten rest"

subsection \<open>The edges that count\<close>

text \<open>\<open>up\<close> is a row's effective parent: another row of the same list.\<close>

definition up :: "('a \<Rightarrow> int) \<Rightarrow> ('a \<Rightarrow> int option) \<Rightarrow> 'a list \<Rightarrow> 'a \<Rightarrow> int option" where
  "up key par members m =
     (case par m of None \<Rightarrow> None
      | Some p \<Rightarrow> if p \<noteq> key m \<and> p \<in> key ` set members then Some p else None)"

inductive rooted :: "('a \<Rightarrow> int) \<Rightarrow> ('a \<Rightarrow> int option) \<Rightarrow> 'a list \<Rightarrow> 'a \<Rightarrow> bool"
  for key par members where
  root: "m \<in> set members \<Longrightarrow> up key par members m = None \<Longrightarrow> rooted key par members m"
| child: "m \<in> set members \<Longrightarrow> up key par members m = Some (key p) \<Longrightarrow> rooted key par members p
     \<Longrightarrow> rooted key par members m"

inductive_simps rooted_simp: "rooted key par members m"

subsection \<open>The pass over the members\<close>

lemma fresh_nodes_get:
  assumes "distinct (map key members)"
  shows "map_get (fresh_nodes key members) i = map_option (\<lambda>m. (m, [])) (List.find (\<lambda>m. key m = i) members)"
proof -
  have "map_get (fresh_nodes key members) i = map_of (map (\<lambda>m. (key m, (m, []))) members) i"
    unfolding fresh_nodes_def by (rule map_get_from_distinct) (simp add: assms comp_def)
  also have "\<dots> = map_option (\<lambda>m. (m, [])) (List.find (\<lambda>m. key m = i) members)"
    by (induction members) auto
  finally show ?thesis .
qed

lemma find_key:
  "distinct (map key members) \<Longrightarrow> m \<in> set members \<Longrightarrow> List.find (\<lambda>x. key x = key m) members = Some m"
  by (induction members) auto

lemma find_key_None: "List.find (\<lambda>x. key x = i) members = None \<longleftrightarrow> i \<notin> key ` set members"
  by (auto simp: find_None_iff)

lemma find_key_Some: "List.find (\<lambda>x. key x = i) members = Some q \<Longrightarrow> i \<in> key ` set members"
  by (auto simp: find_Some_iff)

definition kids_in :: "('a \<Rightarrow> int) \<Rightarrow> ('a \<Rightarrow> int option) \<Rightarrow> 'a list \<Rightarrow> 'a list \<Rightarrow> int \<Rightarrow> int list" where
  "kids_in key par members seen i = map key (filter (\<lambda>m. up key par members m = Some i) seen)"

definition roots_in :: "('a \<Rightarrow> int) \<Rightarrow> ('a \<Rightarrow> int option) \<Rightarrow> 'a list \<Rightarrow> 'a list \<Rightarrow> int list" where
  "roots_in key par members seen = map key (filter (\<lambda>m. up key par members m = None) seen)"

text \<open>After any prefix of the pass, each node holds exactly the children met so far, in order.\<close>

lemma nest_prefix:
  assumes dist: "distinct (map key members)" and sub: "set xs \<subseteq> set members"
  shows "\<exists>nodes. foldl (nest_one key par) (fresh_nodes key members, []) xs = (nodes, roots_in key par members xs)
    \<and> (\<forall>i. map_get nodes i = map_option (\<lambda>m. (m, kids_in key par members xs i)) (List.find (\<lambda>m. key m = i) members))"
  using sub
proof (induction xs rule: rev_induct)
  case Nil
  then show ?case by (simp add: roots_in_def kids_in_def fresh_nodes_get [OF dist])
next
  case (snoc m xs)
  then obtain nodes where
    run: "foldl (nest_one key par) (fresh_nodes key members, []) xs = (nodes, roots_in key par members xs)"
    and get: "\<And>i. map_get nodes i = map_option (\<lambda>m. (m, kids_in key par members xs i)) (List.find (\<lambda>m. key m = i) members)"
    by auto
  have self: "map_get nodes (key m) \<noteq> None"
    using snoc.prems dist by (simp add: get find_key)
  show ?case
  proof (cases "up key par members m")
    case None
    then have "nest_one key par (nodes, roots_in key par members xs) m
        = (nodes, roots_in key par members (xs @ [m]))"
      using self by (auto simp: nest_one_def roots_in_def up_def get
          dest: find_key_Some split: option.splits if_splits)
    moreover have "kids_in key par members (xs @ [m]) i = kids_in key par members xs i" for i
      using None by (simp add: kids_in_def)
    ultimately show ?thesis using run get by simp
  next
    case (Some p)
    then have par: "par m = Some p" and ne: "p \<noteq> key m" and mem: "p \<in> key ` set members"
      by (auto simp: up_def split: option.splits if_splits)
    then obtain q where q: "List.find (\<lambda>x. key x = p) members = Some q"
      using find_key_None [of key p members] by (cases "List.find (\<lambda>x. key x = p) members") auto
    have getp: "map_get nodes p = Some (q, kids_in key par members xs p)" by (simp add: get q)
    have step: "nest_one key par (nodes, roots_in key par members xs) m
        = (map_set p (q, kids_in key par members xs p @ [key m]) nodes, roots_in key par members xs)"
      using self par ne getp by (auto simp: nest_one_def split: option.splits)
    have "roots_in key par members (xs @ [m]) = roots_in key par members xs"
      using Some by (simp add: roots_in_def)
    moreover have "map_get (map_set p (q, kids_in key par members xs p @ [key m]) nodes) i
        = map_option (\<lambda>x. (x, kids_in key par members (xs @ [m]) i)) (List.find (\<lambda>x. key x = i) members)" for i
      using Some q by (cases "i = p") (simp_all add: jsmap.get_put get kids_in_def)
    ultimately show ?thesis using run step by simp
  qed
qed

lemma nest_result:
  assumes "distinct (map key members)"
  obtains nodes where "nest key par members = (nodes, roots_in key par members members)"
    and "\<And>m. m \<in> set members \<Longrightarrow> map_get nodes (key m) = Some (m, kids_in key par members members (key m))"
  using nest_prefix [OF assms, of members par] find_key [OF assms] unfolding nest_def by auto

subsection \<open>Ancestor chains\<close>

fun up_chain :: "(int \<Rightarrow> int option) \<Rightarrow> int list \<Rightarrow> bool" where
  "up_chain u [] = True"
| "up_chain u [p] = (u p = None)"
| "up_chain u (p # q # ps) = (u p = Some q \<and> up_chain u (q # ps))"

definition head_opt :: "'a list \<Rightarrow> 'a option" where
  "head_opt xs = (case xs of [] \<Rightarrow> None | x # _ \<Rightarrow> Some x)"

definition up_rel :: "(int \<Rightarrow> int option) \<Rightarrow> (int \<times> int) set" where
  "up_rel u = {(i, j). u i = Some j}"

lemma up_chain_Cons: "up_chain u (p # ps) \<longleftrightarrow> u p = head_opt ps \<and> up_chain u ps"
  by (cases ps) (auto simp: head_opt_def)

lemma chain_closed: "up_chain u P \<Longrightarrow> p \<in> set P \<Longrightarrow> u p = Some q \<Longrightarrow> q \<in> set P"
  by (induction u P rule: up_chain.induct) auto

lemma chain_head_not_parent: "up_chain u (p # ps) \<Longrightarrow> distinct (p # ps) \<Longrightarrow> x \<in> set (p # ps) \<Longrightarrow> u x \<noteq> Some p"
  by (cases ps) (auto dest: chain_closed)

lemma chain_extends: "up_chain u P \<Longrightarrow> distinct P \<Longrightarrow> u i = head_opt P \<Longrightarrow> i \<notin> set P"
  using chain_head_not_parent by (cases P) (auto simp: head_opt_def)

lemma ancestors_in_chain: "(i, a) \<in> (up_rel u)\<^sup>* \<Longrightarrow> up_chain u P \<Longrightarrow> i \<in> set P \<Longrightarrow> a \<in> set P"
  by (induction rule: rtrancl_induct) (auto simp: up_rel_def dest: chain_closed)

lemma up_rel_linear:
  assumes "(j, a) \<in> (up_rel u)\<^sup>*" "(j, b) \<in> (up_rel u)\<^sup>*"
  shows "(a, b) \<in> (up_rel u)\<^sup>* \<or> (b, a) \<in> (up_rel u)\<^sup>*"
  using assms by (intro single_valued_confluent) (auto simp: up_rel_def single_valued_def)

lemma below_unfold:
  "(j, i) \<in> (up_rel u)\<^sup>* \<longleftrightarrow> j = i \<or> (\<exists>k. u k = Some i \<and> (j, k) \<in> (up_rel u)\<^sup>*)"
  by (auto simp: up_rel_def elim: rtranclE intro: rtrancl_into_rtrancl)

subsection \<open>Reading the graph\<close>

definition upk :: "('a \<Rightarrow> int) \<Rightarrow> ('a \<Rightarrow> int option) \<Rightarrow> 'a list \<Rightarrow> int \<Rightarrow> int option" where
  "upk key par members i = Option.bind (List.find (\<lambda>m. key m = i) members) (up key par members)"

lemma upk_key: "distinct (map key members) \<Longrightarrow> m \<in> set members \<Longrightarrow> upk key par members (key m) = up key par members m"
  by (simp add: upk_def find_key)

lemma upk_Some: "upk key par members i = Some j \<Longrightarrow> i \<in> key ` set members \<and> j \<in> key ` set members"
  by (auto simp: upk_def up_def find_Some_iff split: Option.bind_splits option.splits if_splits)

lemma flatten_append [simp]: "flatten (xs @ ys) = flatten xs @ flatten ys"
  by (induction xs rule: flatten.induct) auto

lemma read_tree_spec:
  assumes dist: "distinct (map key members)"
    and get: "\<And>m. m \<in> set members \<Longrightarrow> map_get nodes (key m) = Some (m, kids_in key par members members (key m))"
    and "up_chain (upk key par members) P" "distinct P" "set P \<subseteq> key ` set members" "distinct is"
    and "\<And>i. i \<in> set is \<Longrightarrow> i \<in> key ` set members \<and> upk key par members i = head_opt P"
    and "card (key ` set members) \<le> length P + n"
  shows "\<exists>ts. read_tree n nodes is = Some ts \<and> distinct (map key (flatten ts))
     \<and> key ` set (flatten ts) = {j. \<exists>i \<in> set is. (j, i) \<in> (up_rel (upk key par members))\<^sup>*}
     \<and> set (flatten ts) \<subseteq> set members"
  using assms(2-)
proof (induction n nodes "is" arbitrary: P rule: read_tree.induct)
  case (1 n nodes)
  then show ?case by simp
next
  case (2 nodes i "is")
  have "i \<notin> set P" using "2.prems" by (intro chain_extends [of "upk key par members"]) auto
  then have "card (insert i (set P)) = Suc (length P)" using "2.prems"(3) by (simp add: distinct_card)
  moreover have "card (insert i (set P)) \<le> card (key ` set members)"
    using "2.prems"(4) "2.prems"(6) [of i] by (intro card_mono) auto
  ultimately show ?case using "2.prems"(7) by simp
next
  case (3 n nodes i "is")
  let ?K = "key ` set members" and ?u = "upk key par members"
  let ?R = "(up_rel ?u)\<^sup>*" and ?kids = "kids_in key par members members i"
  have i: "i \<in> ?K" "?u i = head_opt P" using "3.prems"(6) [of i] by auto
  then obtain m where m: "m \<in> set members" "key m = i" by auto
  have getm: "map_get nodes i = Some (m, ?kids)" using "3.prems"(1) [OF m(1)] m(2) by simp
  have fresh: "i \<notin> set P" using "3.prems" i by (intro chain_extends [of ?u]) auto
  have chain: "up_chain ?u (i # P)" using "3.prems"(2) i by (simp add: up_chain_Cons)
  have kid: "k \<in> set ?kids \<longleftrightarrow> ?u k = Some i" for k
    using upk_key [OF dist] upk_Some [of key par members k i] by (force simp: kids_in_def)
  have dkids: "distinct ?kids"
    unfolding kids_in_def by (rule distinct_map_filter [OF dist])
  have "\<exists>ts. read_tree n nodes ?kids = Some ts \<and> distinct (map key (flatten ts))
     \<and> key ` set (flatten ts) = {j. \<exists>k \<in> set ?kids. (j, k) \<in> ?R} \<and> set (flatten ts) \<subseteq> set members"
  proof (rule "3.IH"(1) [OF getm refl, where P = "i # P"])
    show "k \<in> ?K \<and> ?u k = head_opt (i # P)" if "k \<in> set ?kids" for k
      using that upk_Some [of key par members k i] by (simp add: kid head_opt_def)
  qed (use "3.prems" chain fresh dkids i in auto)
  then obtain below where below: "read_tree n nodes ?kids = Some below" "distinct (map key (flatten below))"
    "key ` set (flatten below) = {j. \<exists>k \<in> set ?kids. (j, k) \<in> ?R}" "set (flatten below) \<subseteq> set members"
    by blast
  have "\<exists>ts. read_tree (Suc n) nodes is = Some ts \<and> distinct (map key (flatten ts))
     \<and> key ` set (flatten ts) = {j. \<exists>k \<in> set is. (j, k) \<in> ?R} \<and> set (flatten ts) \<subseteq> set members"
    by (rule "3.IH"(2) [OF getm refl below(1), where P = P]) (use "3.prems" in auto)
  then obtain rest where rest: "read_tree (Suc n) nodes is = Some rest" "distinct (map key (flatten rest))"
    "key ` set (flatten rest) = {j. \<exists>k \<in> set is. (j, k) \<in> ?R}" "set (flatten rest) \<subseteq> set members"
    by blast
  have sib_fresh: "i' \<notin> set P" "i' \<noteq> i" "up_chain ?u (i' # P)" if "i' \<in> set is" for i'
    using that "3.prems" chain_extends [of ?u P i'] by (auto simp: up_chain_Cons)
  have not_above: "(i, i') \<notin> ?R" "(i', i) \<notin> ?R" if "i' \<in> set is" for i'
    using sib_fresh [OF that] fresh ancestors_in_chain [of i i' ?u "i # P"] chain
      ancestors_in_chain [of i' i ?u "i' # P"] by auto
  have self: "i \<notin> key ` set (flatten below)"
  proof
    assume "i \<in> key ` set (flatten below)"
    then obtain k where k: "?u k = Some i" "(i, k) \<in> ?R" using below(3) kid by auto
    then have "k \<in> set (i # P)" using ancestors_in_chain [OF k(2) chain] by simp
    then show False using chain_head_not_parent [OF chain, of k] k(1) "3.prems"(3) fresh by simp
  qed
  have below_i: "(j, i) \<in> ?R \<longleftrightarrow> j = i \<or> j \<in> key ` set (flatten below)" for j
    unfolding below(3) below_unfold [of j i] using kid by blast
  have disjoint: "key ` set (flatten rest) \<inter> insert i (key ` set (flatten below)) = {}"
  proof (rule ccontr)
    assume "\<not> ?thesis"
    then obtain j i' where "(j, i) \<in> ?R" "i' \<in> set is" "(j, i') \<in> ?R"
      using rest(3) below_i by auto
    then show False using up_rel_linear [of j i ?u i'] not_above by blast
  qed
  have "key ` set (flatten (TreeNode m below # rest)) = {j. \<exists>x \<in> set (i # is). (j, x) \<in> ?R}"
    using m(2) rest(3) below_i by auto
  moreover have "distinct (map key (flatten (TreeNode m below # rest)))"
    using m(2) self disjoint below(2) rest(2) by auto
  moreover have "set (flatten (TreeNode m below # rest)) \<subseteq> set members"
    using m(1) below(4) rest(4) by simp
  moreover have "read_tree (Suc n) nodes (i # is) = Some (TreeNode m below # rest)"
    using getm below(1) rest(1) by simp
  ultimately show ?case by blast
qed

subsection \<open>What nesting keeps\<close>

lemma rooted_iff:
  assumes dist: "distinct (map key members)" and m: "m \<in> set members"
  shows "rooted key par members m \<longleftrightarrow>
    (\<exists>r \<in> set members. up key par members r = None \<and> (key m, key r) \<in> (up_rel (upk key par members))\<^sup>*)"
proof
  assume "rooted key par members m"
  then show "\<exists>r \<in> set members. up key par members r = None \<and> (key m, key r) \<in> (up_rel (upk key par members))\<^sup>*"
  proof induction
    case (root m)
    then show ?case by blast
  next
    case (child m p)
    then have "(key m, key p) \<in> up_rel (upk key par members)"
      by (simp add: up_rel_def upk_key [OF dist])
    with child.IH show ?case by (meson converse_rtrancl_into_rtrancl)
  qed
next
  assume "\<exists>r \<in> set members. up key par members r = None \<and> (key m, key r) \<in> (up_rel (upk key par members))\<^sup>*"
  then obtain r where r: "r \<in> set members" "up key par members r = None"
    and path: "(key m, key r) \<in> (up_rel (upk key par members))\<^sup>*" by blast
  have "x \<in> set members \<Longrightarrow> key x = i \<Longrightarrow> rooted key par members x"
    if "(i, key r) \<in> (up_rel (upk key par members))\<^sup>*" for i x
    using that
  proof (induction arbitrary: x rule: converse_rtrancl_induct)
    case base
    then have "x = r" using dist r(1) by (metis distinct_map inj_onD)
    with r show ?case by (auto intro: rooted.root)
  next
    case (step i j)
    then have upx: "up key par members x = Some j"
      by (auto simp: up_rel_def upk_key [OF dist])
    then obtain p where "p \<in> set members" "key p = j"
      by (auto simp: up_def split: option.splits if_splits)
    with step upx show ?case by (auto intro: rooted.child)
  qed
  then show "rooted key par members m" using path m by blast
qed

lemma nest_tree_spec:
  assumes dist: "distinct (map key members)"
  shows "\<exists>ts. nest_tree key par members = Some ts \<and> distinct (map key (flatten ts))
     \<and> set (flatten ts) = {m. rooted key par members m}"
proof -
  let ?R = "(up_rel (upk key par members))\<^sup>*"
  obtain nodes where run: "nest key par members = (nodes, roots_in key par members members)"
    and get: "\<And>m. m \<in> set members \<Longrightarrow> map_get nodes (key m) = Some (m, kids_in key par members members (key m))"
    using nest_result [OF dist] by blast
  have "\<exists>ts. read_tree (length members) nodes (roots_in key par members members) = Some ts
     \<and> distinct (map key (flatten ts))
     \<and> key ` set (flatten ts) = {j. \<exists>i \<in> set (roots_in key par members members). (j, i) \<in> ?R}
     \<and> set (flatten ts) \<subseteq> set members"
  proof (rule read_tree_spec [OF dist get, where P = "[]"])
    show "distinct (roots_in key par members members)"
      unfolding roots_in_def by (rule distinct_map_filter [OF dist])
    show "card (key ` set members) \<le> length [] + length members"
      using card_length [of "map key members"] by simp
  qed (auto simp: roots_in_def upk_key [OF dist] head_opt_def)
  then obtain ts where ts: "read_tree (length members) nodes (roots_in key par members members) = Some ts"
    "distinct (map key (flatten ts))" "set (flatten ts) \<subseteq> set members"
    and ids: "key ` set (flatten ts) = {j. \<exists>i \<in> set (roots_in key par members members). (j, i) \<in> ?R}"
    by blast
  have "m \<in> set (flatten ts) \<longleftrightarrow> rooted key par members m" for m
  proof
    assume "m \<in> set (flatten ts)"
    then have m: "m \<in> set members" and "key m \<in> key ` set (flatten ts)" using ts(3) by auto
    then obtain i where "i \<in> set (roots_in key par members members)" "(key m, i) \<in> ?R"
      unfolding ids by blast
    then show "rooted key par members m"
      unfolding rooted_iff [OF dist m] by (auto simp: roots_in_def)
  next
    assume r: "rooted key par members m"
    then have m: "m \<in> set members" by (cases rule: rooted.cases) auto
    from r obtain a where "a \<in> set members" "up key par members a = None" "(key m, key a) \<in> ?R"
      unfolding rooted_iff [OF dist m] by blast
    then have "key m \<in> key ` set (flatten ts)"
      unfolding ids roots_in_def by auto
    then obtain q where q: "q \<in> set (flatten ts)" "key q = key m" by auto
    have "inj_on key (set members)" using dist by (simp add: distinct_map)
    then have "q = m" using q ts(3) m by (auto dest: inj_onD)
    with q show "m \<in> set (flatten ts)" by simp
  qed
  then have "set (flatten ts) = {m. rooted key par members m}" by blast
  moreover have "nest_tree key par members = Some ts"
    using run ts(1) by (simp add: nest_tree_def)
  ultimately show ?thesis using ts(2) by blast
qed

lemma nest_tree_rows:
  assumes "distinct (map key members)" and "nest_tree key par members = Some ts"
  shows "mset (flatten ts) = filter_mset (rooted key par members) (mset members)"
proof -
  have ts: "distinct (map key (flatten ts))" "set (flatten ts) = {m. rooted key par members m}"
    using nest_tree_spec [OF assms(1), of par] assms(2) by auto
  have mem: "rooted key par members m \<Longrightarrow> m \<in> set members" for m
    by (cases rule: rooted.cases) auto
  have "mset (flatten ts) = mset_set (set (flatten ts))"
    using ts(1) by (simp add: distinct_map mset_set_set)
  also have "set (flatten ts) = set (filter (rooted key par members) members)"
    using ts(2) mem by auto
  also have "mset_set \<dots> = mset (filter (rooted key par members) members)"
    using assms(1) by (intro mset_set_set) (simp add: distinct_map)
  finally show ?thesis by simp
qed

text \<open>With an acyclic parent relation, every row is rooted.\<close>

lemma ranked_rooted:
  fixes rank :: "int \<Rightarrow> nat"
  assumes "\<And>m p. m \<in> set members \<Longrightarrow> up key par members m = Some p \<Longrightarrow> rank p < rank (key m)"
    and "m \<in> set members"
  shows "rooted key par members m"
  using assms(2)
proof (induction "rank (key m)" arbitrary: m rule: less_induct)
  case less
  show ?case
  proof (cases "up key par members m")
    case None
    with less.prems show ?thesis by (rule rooted.root)
  next
    case (Some i)
    then obtain p where p: "p \<in> set members" "key p = i"
      by (auto simp: up_def split: option.splits if_splits)
    then have "rooted key par members p"
      using assms(1) [OF less.prems Some] by (intro less.hyps) auto
    with less.prems Some p show ?thesis by (auto intro: rooted.child)
  qed
qed

lemma flat_nest:
  assumes dist: "distinct (map key members)" and "\<And>m. m \<in> set members \<Longrightarrow> up key par members m = None"
  shows "nest_tree key par members = Some (map (\<lambda>m. TreeNode m []) members)"
proof -
  obtain nodes where run: "nest key par members = (nodes, roots_in key par members members)"
    and get: "\<And>m. m \<in> set members \<Longrightarrow> map_get nodes (key m) = Some (m, kids_in key par members members (key m))"
    using nest_result [OF dist] by blast
  have "roots_in key par members members = map key members"
    using assms(2) by (simp add: roots_in_def filter_eq_self)
  moreover have "kids_in key par members members i = []" for i
    using assms(2) by (simp add: kids_in_def filter_empty_conv)
  moreover have "read_tree (Suc n) nodes (map key xs) = Some (map (\<lambda>m. TreeNode m []) xs)"
    if "set xs \<subseteq> set members" for xs n
    using that by (induction xs) (auto simp: get calculation(2))
  ultimately have "read_tree (length members) nodes (map key members) = Some (map (\<lambda>m. TreeNode m []) members)"
    by (cases members) (metis list.size(3) list.simps(8) read_tree.simps(1), metis length_Cons order_refl)
  then show ?thesis
    using run \<open>roots_in key par members members = map key members\<close> by (simp add: nest_tree_def)
qed

lemma flatten_flat [simp]: "flatten (map (\<lambda>m. TreeNode m []) xs) = xs"
  by (induction xs) auto

end
