(* ===== verification/Grouping.thy ===== *)
theory Grouping
  imports Forest Status
begin

section \<open>The sidebar tree\<close>

text \<open>
  \<open>store/grouping.ts\<close>, \<open>store/projects/tree.ts\<close>, \<open>store/projects/view.ts\<close> and
  \<open>store/orchestrationTree.ts\<close>: processes are bucketed by kind, nested by spawn lineage, and
  shown under their project; a query narrows both lists. Lower- and upper-casing follow the
  runtime's Unicode tables and are parameters.
\<close>

definition GROUP_ORDER :: "ProcessKind list" where
  "GROUP_ORDER = [Agent, Terminal, Command]"

fun GROUP_LABELS :: "ProcessKind \<Rightarrow> jstring" where
  "GROUP_LABELS Agent = lit ''Agents''"
| "GROUP_LABELS Terminal = lit ''Terminals''"
| "GROUP_LABELS Command = lit ''Commands''"

fun KIND_LABELS :: "ProcessKind \<Rightarrow> jstring" where
  "KIND_LABELS Agent = lit ''Agent''"
| "KIND_LABELS Terminal = lit ''Terminal''"
| "KIND_LABELS Command = lit ''Command''"

type_synonym ProcessNode = "ProcessView tree_node"

record ProcessGroup =
  pg_kind :: ProcessKind
  pg_label :: jstring
  pg_processes :: "ProcessView list"
  pg_roots :: "ProcessNode list"

text \<open>The lineage map is child id to parent id.\<close>

definition nestByLineage :: "ProcessView list \<Rightarrow> (int, int) jsmap \<Rightarrow> ProcessNode list option" where
  "nestByLineage members parents = nest_tree pv_id (\<lambda>process. map_get parents (pv_id process)) members"

definition group_of_kind :: "ProcessView list \<Rightarrow> (int, int) jsmap \<Rightarrow> ProcessKind \<Rightarrow> ProcessGroup option" where
  "group_of_kind processes parents kind =
     (case nestByLineage (filter (\<lambda>process. pv_kind process = kind) processes) parents of
        None \<Rightarrow> None
      | Some roots \<Rightarrow> Some \<lparr>pg_kind = kind, pg_label = GROUP_LABELS kind,
          pg_processes = flatten roots, pg_roots = roots\<rparr>)"

definition all_some :: "'a option list \<Rightarrow> 'a list option" where
  "all_some xs = (if None \<in> set xs then None else Some (map the xs))"

definition groupByKind :: "ProcessView list \<Rightarrow> (int, int) jsmap \<Rightarrow> ProcessGroup list option" where
  "groupByKind processes parents = all_some (map (group_of_kind processes parents) GROUP_ORDER)"

record RunningCount =
  rc_running :: nat
  rc_total :: nat

definition runningCount :: "ProcessView list \<Rightarrow> RunningCount" where
  "runningCount processes =
     \<lparr>rc_running = length (filter (\<lambda>process. isRunning (pv_status process)) processes),
      rc_total = length processes\<rparr>"

record ProjectTree =
  pt_project :: ProjectView
  pt_kinds :: "ProcessGroup list"
  pt_count :: RunningCount

definition project_tree ::
  "ProcessView list \<Rightarrow> bool \<Rightarrow> (int, int) jsmap \<Rightarrow> ProjectView \<Rightarrow> ProjectTree option" where
  "project_tree processes hideEmptyKinds parents project =
     (let own = filter (\<lambda>process. pv_project process = pj_id project) processes
      in case groupByKind own parents of
           None \<Rightarrow> None
         | Some kinds \<Rightarrow> Some \<lparr>pt_project = project,
             pt_kinds = (if hideEmptyKinds then filter (\<lambda>group. length (pg_processes group) > 0) kinds else kinds),
             pt_count = runningCount own\<rparr>)"

definition groupByProject ::
  "ProcessView list \<Rightarrow> ProjectView list \<Rightarrow> bool \<Rightarrow> (int, int) jsmap \<Rightarrow> ProjectTree list option" where
  "groupByProject processes projects hideEmptyKinds parents =
     all_some (map (project_tree processes hideEmptyKinds parents) projects)"

definition filterSidebar ::
  "(jstring \<Rightarrow> jstring) \<Rightarrow> ProcessView list \<Rightarrow> ProjectView list \<Rightarrow> jstring
     \<Rightarrow> ProcessView list \<times> ProjectView list" where
  "filterSidebar lower processes projects query =
     (let q = lower (js_trim query)
      in if q = [] then (processes, projects)
         else let projectNameMatches =
                pj_id ` set (filter (\<lambda>project. str_includes (lower (pj_name project)) q) projects);
              visibleProcesses = filter (\<lambda>process. str_includes (lower (pv_label process)) q
                \<or> pv_project process \<in> projectNameMatches) processes;
              holdsVisible = pv_project ` set visibleProcesses
            in (visibleProcesses,
                filter (\<lambda>project. pj_id project \<in> projectNameMatches \<or> pj_id project \<in> holdsVisible) projects))"

text \<open>\<open>projects/view.ts\<close>: the avatar monogram and the collapse keys.\<close>

definition monogram :: "(jstring \<Rightarrow> jstring) \<Rightarrow> jstring \<Rightarrow> jstring" where
  "monogram upper name = (let first = upper (take 1 (js_trim name)) in if first = [] then lit ''?'' else first)"

definition projectCollapseKey :: "int \<Rightarrow> jstring" where
  "projectCollapseKey i = lit ''project:'' @ show_int i"

definition kindCollapseKey :: "int \<Rightarrow> ProcessKind \<Rightarrow> jstring" where
  "kindCollapseKey i kind = lit ''kind:'' @ show_int i @ lit '':'' @ KIND_LABELS kind"

text \<open>\<open>orchestrationTree.ts\<close>: the same nesting over the orchestration snapshot's agents.\<close>

type_synonym OrchestrationTreeNode = "AgentNode tree_node"

definition buildOrchestrationTree :: "AgentNode list \<Rightarrow> OrchestrationTreeNode list option" where
  "buildOrchestrationTree agents = nest_tree an_id an_parent agents"

subsection \<open>Nesting keeps the rows\<close>

lemma all_some_map: "(\<And>x. x \<in> set xs \<Longrightarrow> f x = Some (g x)) \<Longrightarrow> all_some (map f xs) = Some (map g xs)"
  by (force simp: all_some_def)

definition lineage_parent :: "(int, int) jsmap \<Rightarrow> ProcessView \<Rightarrow> int option" where
  "lineage_parent parents process = map_get parents (pv_id process)"

lemma nestByLineage_alt: "nestByLineage members parents = nest_tree pv_id (lineage_parent parents) members"
  by (simp add: nestByLineage_def lineage_parent_def [abs_def])

definition of_kind :: "ProcessKind \<Rightarrow> ProcessView list \<Rightarrow> ProcessView list" where
  "of_kind kind processes = filter (\<lambda>process. pv_kind process = kind) processes"

lemma of_kind_distinct: "distinct (map pv_id processes) \<Longrightarrow> distinct (map pv_id (of_kind kind processes))"
  by (simp add: of_kind_def distinct_map_filter)

lemma group_of_kind_rows:
  assumes "distinct (map pv_id processes)"
  shows "\<exists>g. group_of_kind processes parents kind = Some g \<and> pg_kind g = kind
    \<and> mset (pg_processes g) = filter_mset (rooted pv_id (lineage_parent parents) (of_kind kind processes))
        (mset (of_kind kind processes))"
proof -
  obtain ts where ts: "nest_tree pv_id (lineage_parent parents) (of_kind kind processes) = Some ts"
    using nest_tree_spec [OF of_kind_distinct [OF assms], where par = "lineage_parent parents"] by blast
  then show ?thesis
    using nest_tree_rows [OF of_kind_distinct [OF assms] ts]
    by (simp add: group_of_kind_def nestByLineage_alt of_kind_def)
qed

text \<open>The kinds partition the list.\<close>

lemma kinds_partition:
  "mset (of_kind Agent ps) + mset (of_kind Terminal ps) + mset (of_kind Command ps) = mset ps"
proof (induction ps)
  case Nil
  then show ?case by (simp add: of_kind_def)
next
  case (Cons p ps)
  then show ?case by (cases "pv_kind p") (simp_all add: of_kind_def)
qed

lemma groupByKind_groups:
  assumes "distinct (map pv_id processes)"
  obtains ga gt gc where "groupByKind processes parents = Some [ga, gt, gc]"
    and "group_of_kind processes parents Agent = Some ga"
    and "group_of_kind processes parents Terminal = Some gt"
    and "group_of_kind processes parents Command = Some gc"
  using group_of_kind_rows [OF assms, of parents]
  by (force simp: groupByKind_def GROUP_ORDER_def all_some_def)

lemma group_rows_all:
  assumes "distinct (map pv_id processes)"
    and "\<And>m. m \<in> set (of_kind kind processes) \<Longrightarrow>
           rooted pv_id (lineage_parent parents) (of_kind kind processes) m"
    and "group_of_kind processes parents kind = Some g"
  shows "mset (pg_processes g) = mset (of_kind kind processes)"
proof -
  have "mset (pg_processes g) = filter_mset (rooted pv_id (lineage_parent parents) (of_kind kind processes))
        (mset (of_kind kind processes))"
    using group_of_kind_rows [OF assms(1), of parents kind] assms(3) by auto
  also have "\<dots> = mset (of_kind kind processes)"
    using assms(2) by (simp add: filter_mset_eq_conv)
  finally show ?thesis .
qed

text \<open>
  C9. Nothing is lost from the tree: when ids are distinct and the lineage has no cycle (a rank
  that falls from child to parent), grouping returns and the rows of the three groups together
  are exactly the processes, each once.
\<close>

theorem groupByKind_complete:
  assumes "distinct (map pv_id processes)"
    and "\<And>c p. map_get parents c = Some p \<Longrightarrow> c \<noteq> p \<Longrightarrow> rank p < (rank c :: nat)"
  shows "map_option (\<lambda>groups. mset (concat (map pg_processes groups))) (groupByKind processes parents)
       = Some (mset processes)"
proof -
  have rooted: "rooted pv_id (lineage_parent parents) (of_kind kind processes) m"
    if "m \<in> set (of_kind kind processes)" for kind m
    using assms(2) by (intro ranked_rooted [OF _ that, where rank = rank])
      (auto simp: up_def lineage_parent_def split: option.splits if_splits)
  obtain ga gt gc where groups: "groupByKind processes parents = Some [ga, gt, gc]"
    and "group_of_kind processes parents Agent = Some ga"
    and "group_of_kind processes parents Terminal = Some gt"
    and "group_of_kind processes parents Command = Some gc"
    using groupByKind_groups [OF assms(1), of parents] by metis
  then have "mset (pg_processes ga) = mset (of_kind Agent processes)"
    "mset (pg_processes gt) = mset (of_kind Terminal processes)"
    "mset (pg_processes gc) = mset (of_kind Command processes)"
    using group_rows_all [OF assms(1) rooted] by auto
  with groups kinds_partition [of processes] show ?thesis by (simp add: add.assoc)
qed

definition sample_rows :: "ProcessView list" where
  "sample_rows = map (\<lambda>(i, k). \<lparr>pv_id = i, pv_project = 1, pv_kind = k, pv_label = [], pv_status = Running,
     pv_exit_code = None, pv_requires_trust = False, pv_resumable = False, pv_ports = [], pv_ready = Ungated\<rparr>)
     [(1, Agent), (2, Agent), (3, Command), (4, Agent)]"

theorem groupByKind_complete_witness:
  "map_option (\<lambda>groups. mset (concat (map pg_processes groups))) (groupByKind sample_rows [(2, 1), (4, 2)])
   = Some (mset sample_rows)"
  by (rule groupByKind_complete [where rank = nat])
    (auto simp: sample_rows_def split: if_splits)

text \<open>
  A lineage cycle drops its rows: two agents that name each other as parent are in no group,
  although both are processes of the list.
\<close>

theorem lineage_cycle_strands_rows:
  "let rows = take 2 sample_rows
   in groupByKind rows [(1, 2), (2, 1)] =
        Some (map (\<lambda>k. \<lparr>pg_kind = k, pg_label = GROUP_LABELS k, pg_processes = [], pg_roots = []\<rparr>) GROUP_ORDER)
      \<and> map pv_id rows = [1, 2]"
  by (simp add: sample_rows_def groupByKind_def GROUP_ORDER_def group_of_kind_def nestByLineage_def
      nest_tree_def nest_def nest_one_def fresh_nodes_def map_from_def all_some_def numeral_2_eq_2)

text \<open>Without lineage each group is the kind's rows in list order.\<close>

lemma no_lineage_flat:
  assumes "distinct (map pv_id processes)"
  shows "map_option (map pg_processes) (groupByKind processes []) =
    Some [of_kind Agent processes, of_kind Terminal processes, of_kind Command processes]"
proof -
  have "nest_tree pv_id (lineage_parent []) (of_kind kind processes) =
      Some (map (\<lambda>m. TreeNode m []) (of_kind kind processes))" for kind
    by (intro flat_nest of_kind_distinct assms) (simp add: up_def lineage_parent_def)
  then show ?thesis
    by (simp add: groupByKind_def GROUP_ORDER_def all_some_def group_of_kind_def nestByLineage_alt
        of_kind_def [symmetric])
qed

text \<open>
  The orchestration tree holds each agent whose parent chain ends, once; nothing else.
\<close>

theorem orchestration_tree_rows:
  assumes "distinct (map an_id agents)"
  shows "map_option (\<lambda>ts. mset (flatten ts)) (buildOrchestrationTree agents)
       = Some (filter_mset (rooted an_id an_parent agents) (mset agents))"
proof -
  obtain ts where ts: "nest_tree an_id an_parent agents = Some ts"
    using nest_tree_spec [OF assms, where par = an_parent] by blast
  with nest_tree_rows [OF assms ts] show ?thesis by (simp add: buildOrchestrationTree_def)
qed

definition sample_agent :: "int \<Rightarrow> int option \<Rightarrow> AgentNode" where
  "sample_agent i p = \<lparr>an_id = i, an_parent = p, an_label = [], an_kind = Agent, an_status = Running,
     an_activity = None\<rparr>"

theorem orchestration_tree_rows_witness:
  "map_option (\<lambda>ts. mset (flatten ts)) (buildOrchestrationTree [sample_agent 1 None, sample_agent 2 (Some 1)])
   = Some {#sample_agent 1 None, sample_agent 2 (Some 1)#}"
proof -
  let ?as = "[sample_agent 1 None, sample_agent 2 (Some 1)]"
  have 1: "rooted an_id an_parent ?as (sample_agent 1 None)"
    by (rule rooted.root) (simp_all add: sample_agent_def up_def)
  then have "rooted an_id an_parent ?as (sample_agent 2 (Some 1))"
    by (intro rooted.child [OF _ _ 1]) (simp_all add: sample_agent_def up_def)
  with 1 have "filter_mset (rooted an_id an_parent ?as) (mset ?as) = mset ?as"
    by (simp add: filter_mset_eq_conv)
  moreover have "distinct (map an_id ?as)"
    by (simp add: sample_agent_def)
  ultimately show ?thesis
    using orchestration_tree_rows [of ?as] by simp
qed

subsection \<open>Projects and the filter\<close>

lemma subseq_filter [simp]: "subseq (filter P xs) xs"
  by (induction xs) (auto intro: subseq_Cons')

text \<open>
  The filter is consistent: both results keep list order, no visible process of an opened
  project is left without its project, and a project shown for its processes only has one.
\<close>

theorem filterSidebar_consistent:
  "let (visible, shown) = filterSidebar lower processes projects query;
       q = lower (js_trim query)
   in subseq visible processes \<and> subseq shown projects
      \<and> pv_project ` set visible \<inter> pj_id ` set projects \<subseteq> pj_id ` set shown
      \<and> set shown \<subseteq> {project. q = [] \<or> pj_id project \<in> pv_project ` set visible
          \<or> pj_id project \<in> pj_id ` {j \<in> set projects. str_includes (lower (pj_name j)) q}}"
proof (cases "lower (js_trim query) = []")
  case True
  then show ?thesis by (auto simp: filterSidebar_def Let_def)
next
  case False
  have "pv_project ` set (fst (filterSidebar lower processes projects query)) \<inter> pj_id ` set projects
      \<subseteq> pj_id ` set (snd (filterSidebar lower processes projects query))"
  proof (rule subsetI, elim IntE imageE)
    fix i process project
    assume "process \<in> set (fst (filterSidebar lower processes projects query))" and "i = pv_project process"
      and "project \<in> set projects" and "i = pj_id project"
    with False show "i \<in> pj_id ` set (snd (filterSidebar lower processes projects query))"
      by (intro image_eqI [where x = project]) (auto simp: filterSidebar_def Let_def)
  qed
  moreover have "set (snd (filterSidebar lower processes projects query)) \<subseteq>
      {project. pj_id project \<in> pv_project ` set (fst (filterSidebar lower processes projects query))
          \<or> pj_id project \<in> pj_id ` {j \<in> set projects. str_includes (lower (pj_name j)) (lower (js_trim query))}}"
    using False by (auto simp: filterSidebar_def Let_def)
  moreover have "subseq (fst (filterSidebar lower processes projects query)) processes"
    "subseq (snd (filterSidebar lower processes projects query)) projects"
    using False by (simp_all add: filterSidebar_def Let_def)
  ultimately show ?thesis by (simp add: case_prod_unfold Let_def) blast
qed

lemma runningCount_bound: "rc_running (runningCount ps) \<le> rc_total (runningCount ps)"
  by (simp add: runningCount_def)

text \<open>Every opened project has its node, in order, empty or not.\<close>

lemma groupByProject_projects:
  assumes "distinct (map pv_id processes)"
  shows "map_option (map pt_project) (groupByProject processes projects hide parents) = Some projects"
proof -
  have "\<exists>t. project_tree processes hide parents j = Some t \<and> pt_project t = j" for j
  proof -
    have "distinct (map pv_id (filter (\<lambda>p. pv_project p = pj_id j) processes))"
      by (rule distinct_map_filter [OF assms])
    then obtain ga gt gc where
      "groupByKind (filter (\<lambda>p. pv_project p = pj_id j) processes) parents = Some [ga, gt, gc]"
      using groupByKind_groups by metis
    then show ?thesis by (simp add: project_tree_def Let_def)
  qed
  then obtain f where f: "\<And>j. project_tree processes hide parents j = Some (f j) \<and> pt_project (f j) = j"
    by metis
  then show ?thesis
    by (simp add: groupByProject_def all_some_map [where g = f] comp_def)
qed

lemma KIND_LABELS_inj [simp]: "KIND_LABELS a = KIND_LABELS b \<longleftrightarrow> a = b"
  by (cases a; cases b) simp_all

text \<open>
  Collapse keys never collide: a project's key and the keys of its kind groups determine the
  project and the kind, and no project key is a kind key.
\<close>

theorem collapse_keys_unique:
  "(projectCollapseKey i = projectCollapseKey j \<longleftrightarrow> i = j)
   \<and> (kindCollapseKey i a = kindCollapseKey j b \<longleftrightarrow> i = j \<and> a = b)
   \<and> projectCollapseKey i \<noteq> kindCollapseKey j b"
proof -
  have sep: "\<not> int_unit (char_unit CHR '':'')"
    by (simp add: int_unit_def is_digit_unit_def char_unit_def)
  have colon: "lit '':'' @ xs = char_unit CHR '':'' # xs" for xs
    by (simp add: lit_def char_unit_def)
  have "kindCollapseKey i a = kindCollapseKey j b \<longleftrightarrow> i = j \<and> a = b"
    unfolding kindCollapseKey_def colon using number_then_sep_inj [OF sep] by simp
  moreover have "projectCollapseKey i \<noteq> kindCollapseKey j b"
    by (simp add: projectCollapseKey_def kindCollapseKey_def lit_def)
  ultimately show ?thesis by (simp add: projectCollapseKey_def)
qed

end
