(* ===== verification/Signals.thy ===== *)
theory Signals
  imports Domain
begin

section \<open>Event-derived signals and their store\<close>

text \<open>
  \<open>store/signals.ts\<close> and \<open>store/signalStore.ts\<close>: the metrics, restart attempts and agent
  activity the core does not keep on the process view, folded from events, and the external
  store that notifies its subscribers. The code returns the same reference when nothing
  changed; here that is \<open>None\<close>, and \<open>Some\<close> is a new object.
\<close>

record ProcessMetrics =
  me_cpu_pct :: rat
  me_rss :: int

record RestartProgress =
  rp_attempt :: int
  rp_limit :: int

record SignalState =
  si_metrics :: "(int, ProcessMetrics) jsmap"
  si_attempts :: "(int, RestartProgress) jsmap"
  si_activity :: "(int, AgentActivity) jsmap"

definition EMPTY_SIGNALS :: SignalState where
  "EMPTY_SIGNALS = \<lparr>si_metrics = [], si_attempts = [], si_activity = []\<rparr>"

definition settle :: "'a \<Rightarrow> 'a option \<Rightarrow> 'a" where
  "settle old new = (case new of None \<Rightarrow> old | Some s \<Rightarrow> s)"

lemma settle_simps [simp]: "settle old None = old" "settle old (Some s) = s"
  by (simp_all add: settle_def)

definition clearAttempt :: "SignalState \<Rightarrow> int \<Rightarrow> SignalState option" where
  "clearAttempt state i =
     (if \<not> map_has (si_attempts state) i then None
      else Some (state\<lparr>si_attempts := map_delete i (si_attempts state)\<rparr>))"

definition clearActivity :: "SignalState \<Rightarrow> int \<Rightarrow> SignalState option" where
  "clearActivity state i =
     (if \<not> map_has (si_activity state) i then None
      else Some (state\<lparr>si_activity := map_delete i (si_activity state)\<rparr>))"

definition forget :: "SignalState \<Rightarrow> int \<Rightarrow> SignalState option" where
  "forget state i =
     (if \<not> map_has (si_metrics state) i \<and> \<not> map_has (si_attempts state) i
         \<and> \<not> map_has (si_activity state) i then None
      else Some \<lparr>si_metrics = map_delete i (si_metrics state),
        si_attempts = map_delete i (si_attempts state), si_activity = map_delete i (si_activity state)\<rparr>)"

fun applySignal :: "SignalState \<Rightarrow> DomainEvent \<Rightarrow> SignalState option" where
  "applySignal state (EvMetricsTick i cpu rss) =
     Some (state\<lparr>si_metrics := map_set i \<lparr>me_cpu_pct = cpu, me_rss = rss\<rparr> (si_metrics state)\<rparr>)"
| "applySignal state (EvRestartScheduled i attempt limit) =
     Some (state\<lparr>si_attempts := map_set i \<lparr>rp_attempt = attempt, rp_limit = limit\<rparr> (si_attempts state)\<rparr>)"
| "applySignal state (EvAgentActivityChanged i activity) =
     Some (state\<lparr>si_activity := map_set i activity (si_activity state)\<rparr>)"
| "applySignal state (EvProcessStatusChanged i from to exit_code) =
     (let cleared = (if to = Running \<or> to = Stopped then clearAttempt state i else None);
          next = settle state cleared;
          dropped = (if to \<noteq> Running then clearActivity next i else None)
      in case dropped of Some s \<Rightarrow> Some s | None \<Rightarrow> cleared)"
| "applySignal state (EvRestartExhausted i) = clearAttempt state i"
| "applySignal state (EvProcessRemoved i) = forget state i"
| "applySignal state _ = None"

definition sameActivity :: "(int, AgentActivity) jsmap \<Rightarrow> (int, AgentActivity) jsmap \<Rightarrow> bool" where
  "sameActivity a b \<longleftrightarrow> length a = length b \<and> list_all (\<lambda>(i, activity). map_get a i = Some activity) b"

definition seedActivity :: "SignalState \<Rightarrow> AgentSignal list \<Rightarrow> SignalState option" where
  "seedActivity state entries =
     (let activity = map_from (map (\<lambda>entry. (sg_id entry, sg_activity entry)) entries)
      in if sameActivity (si_activity state) activity then None
         else Some (state\<lparr>si_activity := activity\<rparr>))"

subsection \<open>The store\<close>

text \<open>
  Listeners are named by numbers; \<open>sg_calls\<close> is the sequence of listener calls so far. A
  listener set iterates in insertion order. A listener that calls back into the store is not
  modelled: the readers only schedule a re-render.
\<close>

record SignalStore =
  sg_state :: SignalState
  sg_listeners :: "nat list"
  sg_calls :: "nat list"

definition createSignalStore :: SignalStore where
  "createSignalStore = \<lparr>sg_state = EMPTY_SIGNALS, sg_listeners = [], sg_calls = []\<rparr>"

definition subscribe :: "SignalStore \<Rightarrow> nat \<Rightarrow> SignalStore" where
  "subscribe store l = store\<lparr>sg_listeners := sg_listeners store @ (if l \<in> set (sg_listeners store) then [] else [l])\<rparr>"

definition unsubscribe :: "SignalStore \<Rightarrow> nat \<Rightarrow> SignalStore" where
  "unsubscribe store l = store\<lparr>sg_listeners := filter (\<lambda>k. k \<noteq> l) (sg_listeners store)\<rparr>"

definition publish :: "SignalStore \<Rightarrow> SignalState option \<Rightarrow> SignalStore" where
  "publish store next =
     (case next of None \<Rightarrow> store
      | Some s \<Rightarrow> store\<lparr>sg_state := s, sg_calls := sg_calls store @ sg_listeners store\<rparr>)"

definition store_apply :: "SignalStore \<Rightarrow> DomainEvent \<Rightarrow> SignalStore" where
  "store_apply store event = publish store (applySignal (sg_state store) event)"

definition store_seed :: "SignalStore \<Rightarrow> AgentSignal list \<Rightarrow> SignalStore" where
  "store_seed store entries = publish store (seedActivity (sg_state store) entries)"

datatype SignalOp = SigSubscribe nat | SigUnsubscribe nat | SigApply DomainEvent | SigSeed "AgentSignal list"

fun signal_step :: "SignalStore \<Rightarrow> SignalOp \<Rightarrow> SignalStore" where
  "signal_step store (SigSubscribe l) = subscribe store l"
| "signal_step store (SigUnsubscribe l) = unsubscribe store l"
| "signal_step store (SigApply e) = store_apply store e"
| "signal_step store (SigSeed entries) = store_seed store entries"

lemmas signal_defs = clearAttempt_def clearActivity_def forget_def seedActivity_def Let_def
lemmas signal_store_defs = subscribe_def unsubscribe_def store_apply_def store_seed_def publish_def

subsection \<open>Well-formed maps\<close>

definition signals_wf :: "SignalState \<Rightarrow> bool" where
  "signals_wf s \<longleftrightarrow> map_wf (si_metrics s) \<and> map_wf (si_attempts s) \<and> map_wf (si_activity s)"

definition store_wf :: "SignalStore \<Rightarrow> bool" where
  "store_wf store \<longleftrightarrow> signals_wf (sg_state store) \<and> distinct (sg_listeners store)"

lemma clear_wf:
  "signals_wf s \<Longrightarrow> signals_wf (settle s (clearAttempt s i))"
  "signals_wf s \<Longrightarrow> signals_wf (settle s (clearActivity s i))"
  "signals_wf s \<Longrightarrow> signals_wf (settle s (forget s i))"
  by (auto simp: signals_wf_def signal_defs settle_def jsmap.wf_del)

lemma applySignal_wf:
  assumes "signals_wf s"
  shows "signals_wf (settle s (applySignal s e))"
proof (cases e)
  case (EvProcessStatusChanged i origin to code)
  let ?c = "if to = Running \<or> to = Stopped then clearAttempt s i else None"
  have "settle s (applySignal s e) =
      settle (settle s ?c) (if to \<noteq> Running then clearActivity (settle s ?c) i else None)"
    by (auto simp: EvProcessStatusChanged Let_def split: option.splits)
  moreover have "signals_wf (settle s ?c)"
    using assms clear_wf(1) by simp
  ultimately show ?thesis using assms by (auto simp: clear_wf)
next
  case (EvMetricsTick i cpu rss)
  with assms show ?thesis by (simp add: signals_wf_def jsmap.wf_put)
next
  case (EvRestartScheduled i a l)
  with assms show ?thesis by (simp add: signals_wf_def jsmap.wf_put)
next
  case (EvAgentActivityChanged i a)
  with assms show ?thesis by (simp add: signals_wf_def jsmap.wf_put)
qed (use assms in \<open>simp_all add: clear_wf\<close>)

lemma seedActivity_wf: "signals_wf s \<Longrightarrow> signals_wf (settle s (seedActivity s entries))"
  by (simp add: seedActivity_def signals_wf_def Let_def map_wf_from)

lemma sg_state_publish [simp]: "sg_state (publish store next) = settle (sg_state store) next"
  by (simp add: publish_def settle_def split: option.splits)

lemma publish_listeners [simp]: "sg_listeners (publish store next) = sg_listeners store"
  by (simp add: publish_def split: option.splits)

interpretation signal_store: machine createSignalStore signal_step store_wf
proof
  show "store_wf createSignalStore"
    by (simp add: store_wf_def createSignalStore_def EMPTY_SIGNALS_def signals_wf_def map_wf_def)
next
  fix s e
  assume "store_wf s"
  then show "store_wf (signal_step s e)"
    by (cases e) (auto simp: store_wf_def subscribe_def unsubscribe_def store_apply_def store_seed_def
        intro: applySignal_wf seedActivity_wf)
qed

subsection \<open>What a snapshot holds\<close>

text \<open>Equal size and every entry of one map present in the other is equality as maps.\<close>

lemma sameActivity_iff:
  assumes "map_wf a" and "map_wf b"
  shows "sameActivity a b \<longleftrightarrow> map_get a = map_get b"
proof
  assume same: "sameActivity a b"
  then have "length a = length b" and "set b \<subseteq> set a"
    by (auto simp: sameActivity_def list_all_iff dest: map_of_SomeD)
  moreover have "card (set a) = length a" "card (set b) = length b"
    using assms by (auto simp: map_wf_def distinct_card distinct_map)
  ultimately have "set b = set a"
    by (intro card_subset_eq) auto
  with assms show "map_get a = map_get b"
    using map_of_inject_set [of a b] by (simp add: map_wf_def)
next
  assume eq: "map_get a = map_get b"
  with assms have "set a = set b"
    using map_of_inject_set [of a b] by (simp add: map_wf_def)
  moreover have "card (set a) = length a" "card (set b) = length b"
    using assms by (auto simp: map_wf_def distinct_card distinct_map)
  ultimately have "length a = length b" by simp
  with eq assms show "sameActivity a b"
    by (auto simp: sameActivity_def list_all_iff map_wf_def)
qed

text \<open>
  The specification: each reading of a process is the last one the operations gave it, and
  the operations that end a reading erase it.
\<close>

fun metric_after :: "int \<Rightarrow> SignalOp \<Rightarrow> ProcessMetrics option \<Rightarrow> ProcessMetrics option" where
  "metric_after i (SigApply (EvMetricsTick j cpu rss)) m =
     (if i = j then Some \<lparr>me_cpu_pct = cpu, me_rss = rss\<rparr> else m)"
| "metric_after i (SigApply (EvProcessRemoved j)) m = (if i = j then None else m)"
| "metric_after i _ m = m"

fun attempt_after :: "int \<Rightarrow> SignalOp \<Rightarrow> RestartProgress option \<Rightarrow> RestartProgress option" where
  "attempt_after i (SigApply (EvRestartScheduled j a l)) m =
     (if i = j then Some \<lparr>rp_attempt = a, rp_limit = l\<rparr> else m)"
| "attempt_after i (SigApply (EvRestartExhausted j)) m = (if i = j then None else m)"
| "attempt_after i (SigApply (EvProcessStatusChanged j from to code)) m =
     (if i = j \<and> (to = Running \<or> to = Stopped) then None else m)"
| "attempt_after i (SigApply (EvProcessRemoved j)) m = (if i = j then None else m)"
| "attempt_after i _ m = m"

fun activity_after :: "int \<Rightarrow> SignalOp \<Rightarrow> AgentActivity option \<Rightarrow> AgentActivity option" where
  "activity_after i (SigApply (EvAgentActivityChanged j a)) m = (if i = j then Some a else m)"
| "activity_after i (SigApply (EvProcessStatusChanged j from to code)) m =
     (if i = j \<and> to \<noteq> Running then None else m)"
| "activity_after i (SigApply (EvProcessRemoved j)) m = (if i = j then None else m)"
| "activity_after i (SigSeed entries) m =
     map_of (rev (map (\<lambda>entry. (sg_id entry, sg_activity entry)) entries)) i"
| "activity_after i _ m = m"

lemma not_map_has: "\<not> map_has m i \<Longrightarrow> map_get m i = None"
  by (simp add: map_has_def)

lemma clear_reads:
  "map_get (si_metrics (settle s (clearAttempt s i))) j = map_get (si_metrics s) j"
  "map_get (si_attempts (settle s (clearAttempt s i))) j = (if j = i then None else map_get (si_attempts s) j)"
  "map_get (si_activity (settle s (clearAttempt s i))) j = map_get (si_activity s) j"
  "map_get (si_metrics (settle s (clearActivity s i))) j = map_get (si_metrics s) j"
  "map_get (si_attempts (settle s (clearActivity s i))) j = map_get (si_attempts s) j"
  "map_get (si_activity (settle s (clearActivity s i))) j = (if j = i then None else map_get (si_activity s) j)"
  "map_get (si_metrics (settle s (forget s i))) j = (if j = i then None else map_get (si_metrics s) j)"
  "map_get (si_attempts (settle s (forget s i))) j = (if j = i then None else map_get (si_attempts s) j)"
  "map_get (si_activity (settle s (forget s i))) j = (if j = i then None else map_get (si_activity s) j)"
  by (auto simp: clearAttempt_def clearActivity_def forget_def jsmap.get_del not_map_has)

lemma status_changed_settle:
  "settle s (applySignal s (EvProcessStatusChanged i from to code)) =
     (let t = settle s (if to = Running \<or> to = Stopped then clearAttempt s i else None)
      in settle t (if to \<noteq> Running then clearActivity t i else None))"
  by (auto simp: Let_def split: option.splits)

lemma step_reads:
  assumes "store_wf store"
  shows "map_get (si_metrics (sg_state (signal_step store op))) i =
      metric_after i op (map_get (si_metrics (sg_state store)) i)"
    and "map_get (si_attempts (sg_state (signal_step store op))) i =
      attempt_after i op (map_get (si_attempts (sg_state store)) i)"
    and "map_get (si_activity (sg_state (signal_step store op))) i =
      activity_after i op (map_get (si_activity (sg_state store)) i)"
proof -
  let ?s = "sg_state store"
  let ?claim = "\<lambda>op t. map_get (si_metrics t) i = metric_after i op (map_get (si_metrics ?s) i)
    \<and> map_get (si_attempts t) i = attempt_after i op (map_get (si_attempts ?s) i)
    \<and> map_get (si_activity t) i = activity_after i op (map_get (si_activity ?s) i)"
  have folded: "?claim (SigApply e) (settle ?s (applySignal ?s e))" for e
  proof (cases e)
    case (EvProcessStatusChanged j origin to code)
    then show ?thesis
      by (simp only: status_changed_settle) (simp add: Let_def clear_reads)
  qed (simp_all add: clear_reads jsmap.get_put)
  have seed: "?claim (SigSeed es) (settle ?s (seedActivity ?s es))" for es
  proof (cases "sameActivity (si_activity ?s) (map_from (map (\<lambda>e. (sg_id e, sg_activity e)) es))")
    case True
    then have "map_get (si_activity ?s) = map_get (map_from (map (\<lambda>e. (sg_id e, sg_activity e)) es))"
      using assms by (simp add: sameActivity_iff store_wf_def signals_wf_def map_wf_from)
    with True show ?thesis by (simp add: seedActivity_def map_get_from)
  next
    case False
    then show ?thesis by (simp add: seedActivity_def map_get_from)
  qed
  have "?claim op (sg_state (signal_step store op))"
  proof (cases op)
    case (SigApply e)
    then show ?thesis using folded [of e] by (simp add: store_apply_def)
  next
    case (SigSeed es)
    then show ?thesis using seed [of es] by (simp add: store_seed_def)
  qed (simp_all add: subscribe_def unsubscribe_def)
  then show "map_get (si_metrics (sg_state (signal_step store op))) i =
      metric_after i op (map_get (si_metrics (sg_state store)) i)"
    and "map_get (si_attempts (sg_state (signal_step store op))) i =
      attempt_after i op (map_get (si_attempts (sg_state store)) i)"
    and "map_get (si_activity (sg_state (signal_step store op))) i =
      activity_after i op (map_get (si_activity (sg_state store)) i)"
    by blast+
qed

text \<open>
  After any sequence of store operations, each reading of a process is the last one the
  operations gave it: attempts end with Running, Stopped, exhaustion or removal, activity ends
  when the process leaves Running or is removed, and a seed replaces all activity.
\<close>

theorem signals_hold_last_reading:
  "map_get (si_metrics (sg_state (foldl signal_step createSignalStore ops))) i
      = fold (metric_after i) ops None
   \<and> map_get (si_attempts (sg_state (foldl signal_step createSignalStore ops))) i
      = fold (attempt_after i) ops None
   \<and> map_get (si_activity (sg_state (foldl signal_step createSignalStore ops))) i
      = fold (activity_after i) ops None"
proof (induction ops rule: rev_induct)
  case Nil
  show ?case by (simp add: createSignalStore_def EMPTY_SIGNALS_def)
next
  case (snoc op ops)
  with step_reads [OF signal_store.inv_run, of ops op i] show ?case by simp
qed

definition reads :: "SignalState \<Rightarrow> int \<Rightarrow> ProcessMetrics option \<times> RestartProgress option \<times> AgentActivity option" where
  "reads s i = (map_get (si_metrics s) i, map_get (si_attempts s) i, map_get (si_activity s) i)"

fun carries_reading :: "SignalOp \<Rightarrow> bool" where
  "carries_reading (SigApply (EvMetricsTick _ _ _)) = True"
| "carries_reading (SigApply (EvRestartScheduled _ _ _)) = True"
| "carries_reading (SigApply (EvAgentActivityChanged _ _)) = True"
| "carries_reading _ = False"

definition op_result :: "SignalStore \<Rightarrow> SignalOp \<Rightarrow> SignalState option" where
  "op_result store op = (case op of SigApply e \<Rightarrow> applySignal (sg_state store) e
     | SigSeed es \<Rightarrow> seedActivity (sg_state store) es | _ \<Rightarrow> None)"

lemma step_calls:
  "sg_calls (signal_step store op) =
     sg_calls store @ (if op_result store op = None then [] else sg_listeners store)"
  by (cases op) (auto simp: op_result_def signal_store_defs split: option.splits)

lemma step_state: "sg_state (signal_step store op) = settle (sg_state store) (op_result store op)"
  by (cases op) (auto simp: op_result_def subscribe_def unsubscribe_def store_apply_def store_seed_def)

lemma clear_changes:
  "clearAttempt s i \<noteq> None \<Longrightarrow>
     map_get (si_attempts s) i \<noteq> None \<and> map_get (si_attempts (settle s (clearAttempt s i))) i = None"
  "clearActivity s i \<noteq> None \<Longrightarrow>
     map_get (si_activity s) i \<noteq> None \<and> map_get (si_activity (settle s (clearActivity s i))) i = None"
  "forget s i \<noteq> None \<Longrightarrow>
     reads s i \<noteq> (None, None, None) \<and> reads (settle s (forget s i)) i = (None, None, None)"
  by (auto simp: signal_defs map_has_def jsmap.get_del reads_def split: if_splits)

lemma applySignal_changes:
  assumes "applySignal s e = Some t" and "\<not> carries_reading (SigApply e)"
  shows "reads t \<noteq> reads s"
proof (cases e)
  case (EvProcessStatusChanged i origin to code)
  let ?c = "if to = Running \<or> to = Stopped then clearAttempt s i else None"
  have t: "t = settle (settle s ?c) (if to \<noteq> Running then clearActivity (settle s ?c) i else None)"
    using assms(1) status_changed_settle [of s i origin to code]
    by (simp add: EvProcessStatusChanged Let_def)
  have "?c \<noteq> None \<or> to \<noteq> Running \<and> clearActivity (settle s ?c) i \<noteq> None"
    using assms(1) by (auto simp: EvProcessStatusChanged Let_def split: if_splits option.splits)
  then have "map_get (si_attempts s) i \<noteq> None \<and> map_get (si_attempts t) i = None
      \<or> map_get (si_activity s) i \<noteq> None \<and> map_get (si_activity t) i = None"
    using clear_changes(1) [of s i] clear_changes(2) [of "settle s ?c" i]
    unfolding t by (auto simp: clear_reads split: if_splits)
  then have "reads t i \<noteq> reads s i" by (auto simp: reads_def)
  then show ?thesis by auto
next
  case (EvRestartExhausted i)
  with assms(1) clear_changes(1) [of s i] have "reads t i \<noteq> reads s i" by (auto simp: reads_def)
  then show ?thesis by auto
next
  case (EvProcessRemoved i)
  with assms(1) clear_changes(3) [of s i] have "reads t i \<noteq> reads s i" by auto
  then show ?thesis by auto
qed (use assms in simp_all)

lemma seedActivity_changes:
  assumes "signals_wf s" and "seedActivity s es = Some t"
  shows "reads t \<noteq> reads s"
proof -
  let ?a = "map_from (map (\<lambda>e. (sg_id e, sg_activity e)) es)"
  have "map_get (si_activity s) \<noteq> map_get ?a" and "t = s\<lparr>si_activity := ?a\<rparr>"
    using assms by (auto simp: seedActivity_def Let_def sameActivity_iff signals_wf_def map_wf_from split: if_splits)
  then show ?thesis by (auto simp: reads_def fun_eq_iff) metis
qed

text \<open>
  Notification is exact: an operation either leaves the snapshot and calls nobody, or installs a
  new snapshot and calls every listener once, in subscription order; and an event that only
  clears readings, or a seed, calls them only when some reading really changed.
\<close>

theorem signal_notify_exact:
  "let before = foldl signal_step createSignalStore ops; after = signal_step before op in
     (sg_state after = sg_state before \<and> sg_calls after = sg_calls before)
     \<or> (sg_calls after = sg_calls before @ sg_listeners before \<and> distinct (sg_listeners before)
        \<and> (carries_reading op \<or> reads (sg_state after) \<noteq> reads (sg_state before)))"
proof -
  let ?b = "foldl signal_step createSignalStore ops"
  have wf: "store_wf ?b" by (rule signal_store.inv_run)
  show ?thesis
  proof (cases "op_result ?b op")
    case None
    then show ?thesis by (simp add: Let_def step_calls step_state)
  next
    case (Some t)
    have "carries_reading op \<or> reads t \<noteq> reads (sg_state ?b)"
      using Some wf applySignal_changes seedActivity_changes
      by (cases op) (auto simp: op_result_def store_wf_def)
    with Some wf show ?thesis by (simp add: Let_def step_calls step_state store_wf_def)
  qed
qed

theorem signal_notify_exact_witness:
  "let before = foldl signal_step createSignalStore
         [SigSubscribe 7, SigApply (EvRestartScheduled 3 1 5), SigApply (EvProcessStatusChanged 3 Starting Running None)];
       after = signal_step before (SigApply (EvProcessRemoved 3))
   in (sg_state after = sg_state before \<and> sg_calls after = sg_calls before)
     \<or> (sg_calls after = sg_calls before @ sg_listeners before \<and> distinct (sg_listeners before)
        \<and> (carries_reading (SigApply (EvProcessRemoved 3)) \<or> reads (sg_state after) \<noteq> reads (sg_state before)))"
  by (rule signal_notify_exact)

text \<open>A removed process leaves nothing behind, and an agent that left Running shows no activity.\<close>

lemma removed_leaves_nothing: "reads (settle s (applySignal s (EvProcessRemoved i))) i = (None, None, None)"
  by (simp add: reads_def clear_reads)

end
