(* ===== verification/Navigation.thy ===== *)
theory Navigation
  imports Status
begin

section \<open>Which process pane is shown\<close>

text \<open>
  \<open>store/processActivationHistory.ts\<close> and \<open>store/useProcessActivationNavigation.ts\<close>: the
  uncapped activation history, newest first, and the lifecycle navigation that leaves a pane
  whose process stopped, was removed or vanished from the committed list.
\<close>

definition activateProcess :: "int list \<Rightarrow> int \<Rightarrow> int list" where
  "activateProcess history i = i # filter (\<lambda>candidate. candidate \<noteq> i) history"

definition forgetProcesses :: "int list \<Rightarrow> int list \<Rightarrow> int list" where
  "forgetProcesses history ids = filter (\<lambda>i. i \<notin> set ids) history"

definition mostRecentAvailableProcess :: "int list \<Rightarrow> int list \<Rightarrow> int option" where
  "mostRecentAvailableProcess history availableIds = find (\<lambda>i. i \<in> set availableIds) history"

text \<open>
  The hook's state: React's \<open>selectedId\<close> as last set, the ref handlers read, the history, the
  ids of the last committed list, the committed list itself, and the callbacks called so far.
\<close>

datatype NavCall = OnClearAlternativeView | OnStart int | OnRestart int | OnResume int

record NavState =
  nv_selectedId :: "int option"
  nv_selectedIdRef :: "int option"
  nv_activationHistoryRef :: "int list"
  nv_knownProcessIdsRef :: "int list"
  nv_processesRef :: "ProcessView list"
  nv_calls :: "NavCall list"

definition nav_init :: NavState where
  "nav_init = \<lparr>nv_selectedId = None, nv_selectedIdRef = None, nv_activationHistoryRef = [],
     nv_knownProcessIdsRef = [], nv_processesRef = [], nv_calls = []\<rparr>"

definition nav_call :: "NavCall \<Rightarrow> NavState \<Rightarrow> NavState" where
  "nav_call c nav = nav\<lparr>nv_calls := nv_calls nav @ [c]\<rparr>"

definition deselectProcess :: "NavState \<Rightarrow> NavState" where
  "deselectProcess nav = nav\<lparr>nv_selectedIdRef := None, nv_selectedId := None\<rparr>"

definition openStart :: "NavState \<Rightarrow> NavState" where
  "openStart nav = nav_call OnClearAlternativeView (nav\<lparr>nv_selectedIdRef := None, nv_selectedId := None\<rparr>)"

definition selectProcess :: "int \<Rightarrow> NavState \<Rightarrow> NavState" where
  "selectProcess i nav = nav_call OnClearAlternativeView
     (nav\<lparr>nv_activationHistoryRef := activateProcess (nv_activationHistoryRef nav) i,
          nv_selectedIdRef := Some i, nv_selectedId := Some i\<rparr>)"

definition navigateAfterLifecycle :: "int list \<Rightarrow> NavState \<Rightarrow> NavState" where
  "navigateAfterLifecycle ids nav =
     (let nav' = nav\<lparr>nv_activationHistoryRef := forgetProcesses (nv_activationHistoryRef nav) ids\<rparr>
      in case nv_selectedIdRef nav' of
           None \<Rightarrow> nav'
         | Some selected \<Rightarrow>
             if selected \<notin> set ids then nav'
             else case mostRecentAvailableProcess (nv_activationHistoryRef nav')
                         (map pv_id (nv_processesRef nav')) of
                    None \<Rightarrow> openStart nav'
                  | Some next_id \<Rightarrow> selectProcess next_id nav')"

definition processStopped :: "int \<Rightarrow> NavState \<Rightarrow> NavState" where
  "processStopped i = navigateAfterLifecycle [i]"

definition startProcess :: "int \<Rightarrow> NavState \<Rightarrow> NavState" where
  "startProcess i nav = selectProcess i (nav_call (OnStart i) nav)"

definition restartProcess :: "int \<Rightarrow> NavState \<Rightarrow> NavState" where
  "restartProcess i nav = selectProcess i (nav_call (OnRestart i) nav)"

definition resumeProcess :: "int \<Rightarrow> NavState \<Rightarrow> NavState" where
  "resumeProcess i nav = selectProcess i (nav_call (OnResume i) nav)"

definition projectStopped :: "int \<Rightarrow> NavState \<Rightarrow> NavState" where
  "projectStopped projectId nav =
     (let stoppedIds = map pv_id (filter (\<lambda>process. pv_project process = projectId \<and> isActive (pv_status process))
            (nv_processesRef nav))
      in navigateAfterLifecycle stoppedIds nav)"

definition removalRequested :: "int \<Rightarrow> NavState \<Rightarrow> NavState" where
  "removalRequested i nav =
     (case find (\<lambda>candidate. pv_id candidate = i) (nv_processesRef nav) of
        None \<Rightarrow> navigateAfterLifecycle [i] nav
      | Some process \<Rightarrow> if \<not> isActive (pv_status process) then navigateAfterLifecycle [i] nav else nav)"

definition processRemoved :: "int \<Rightarrow> NavState \<Rightarrow> NavState" where
  "processRemoved i = navigateAfterLifecycle [i]"

text \<open>
  A commit with a new process list runs the layout effects in order: the latest-value ref, the
  selection ref, then the reconciliation against the ids of the previous commit.
\<close>

definition nav_commit :: "ProcessView list \<Rightarrow> NavState \<Rightarrow> NavState" where
  "nav_commit processes nav =
     (let currentIds = remdups (map pv_id processes);
          disappeared = filter (\<lambda>i. i \<notin> set currentIds) (nv_knownProcessIdsRef nav);
          nav' = nav\<lparr>nv_processesRef := processes, nv_selectedIdRef := nv_selectedId nav,
            nv_knownProcessIdsRef := currentIds\<rparr>
      in if length disappeared > 0 then navigateAfterLifecycle disappeared nav' else nav')"

datatype NavOp =
    NavSelect int | NavDeselect | NavOpenStart | NavStopped int | NavStart int | NavRestart int
  | NavResume int | NavProjectStopped int | NavRemovalRequested int | NavRemoved int
  | NavCommit "ProcessView list"

fun nav_step :: "NavState \<Rightarrow> NavOp \<Rightarrow> NavState" where
  "nav_step nav (NavSelect i) = selectProcess i nav"
| "nav_step nav NavDeselect = deselectProcess nav"
| "nav_step nav NavOpenStart = openStart nav"
| "nav_step nav (NavStopped i) = processStopped i nav"
| "nav_step nav (NavStart i) = startProcess i nav"
| "nav_step nav (NavRestart i) = restartProcess i nav"
| "nav_step nav (NavResume i) = resumeProcess i nav"
| "nav_step nav (NavProjectStopped p) = projectStopped p nav"
| "nav_step nav (NavRemovalRequested i) = removalRequested i nav"
| "nav_step nav (NavRemoved i) = processRemoved i nav"
| "nav_step nav (NavCommit processes) = nav_commit processes nav"

abbreviation nav_run :: "NavOp list \<Rightarrow> NavState" where
  "nav_run ops \<equiv> foldl nav_step nav_init ops"

lemmas nav_op_defs = processStopped_def processRemoved_def startProcess_def restartProcess_def
  resumeProcess_def deselectProcess_def openStart_def selectProcess_def nav_call_def

subsection \<open>The history is the activations in recency order\<close>

lemma activate_distinct: "distinct history \<Longrightarrow> distinct (activateProcess history i)"
  by (simp add: activateProcess_def)

lemma forget_distinct: "distinct history \<Longrightarrow> distinct (forgetProcesses history ids)"
  by (simp add: forgetProcesses_def)

text \<open>Each visited process once, the most recently activated first.\<close>

lemma history_is_recency: "foldl activateProcess [] visits = rev (remdups visits)"
  by (induction visits rule: rev_induct) (simp_all add: remdups_snoc activateProcess_def rev_filter)

lemma mostRecent_first:
  assumes "mostRecentAvailableProcess history ids = Some i"
  obtains newer older where "history = newer @ i # older" and "i \<in> set ids" and "set newer \<inter> set ids = {}"
proof -
  have "\<exists>newer older. history = newer @ i # older \<and> i \<in> set ids \<and> set newer \<inter> set ids = {}"
    using assms
  proof (induction history)
    case (Cons j history)
    show ?case
    proof (cases "j \<in> set ids")
      case True
      with Cons.prems show ?thesis
        by (intro exI [of _ "[]"] exI [of _ history]) (simp add: mostRecentAvailableProcess_def)
    next
      case False
      with Cons obtain newer older where "history = newer @ i # older" "i \<in> set ids" "set newer \<inter> set ids = {}"
        by (auto simp: mostRecentAvailableProcess_def)
      with False show ?thesis
        by (intro exI [of _ "j # newer"] exI [of _ older]) simp
    qed
  qed (simp add: mostRecentAvailableProcess_def)
  then show thesis using that by blast
qed

lemma mostRecent_None:
  "mostRecentAvailableProcess history ids = None \<longleftrightarrow> set history \<inter> set ids = {}"
  by (auto simp: mostRecentAvailableProcess_def find_None_iff)

subsection \<open>The navigation invariant\<close>

text \<open>
  State and ref agree, no process is in the history twice, and the process shown is its newest
  entry.
\<close>

definition nav_inv :: "NavState \<Rightarrow> bool" where
  "nav_inv nav \<longleftrightarrow> nv_selectedId nav = nv_selectedIdRef nav \<and> distinct (nv_activationHistoryRef nav)
     \<and> distinct (nv_knownProcessIdsRef nav)
     \<and> (\<forall>i. nv_selectedIdRef nav = Some i \<longrightarrow> (\<exists>older. nv_activationHistoryRef nav = i # older))"

lemma select_inv: "nav_inv nav \<Longrightarrow> nav_inv (selectProcess i nav)"
  by (simp add: nav_inv_def selectProcess_def nav_call_def activate_distinct) (simp add: activateProcess_def)

lemma call_inv: "nav_inv nav \<Longrightarrow> nav_inv (nav_call c nav)"
  by (simp add: nav_inv_def nav_call_def)

lemma open_inv: "nav_inv nav \<Longrightarrow> nav_inv (openStart nav)"
  by (simp add: nav_inv_def openStart_def nav_call_def)

text \<open>What lifecycle navigation does, in the three cases of the code.\<close>

lemma navigate_cases:
  assumes "nav_inv nav"
  obtains (kept) "navigateAfterLifecycle ids nav =
      nav\<lparr>nv_activationHistoryRef := forgetProcesses (nv_activationHistoryRef nav) ids\<rparr>"
      and "\<And>i. nv_selectedIdRef nav = Some i \<Longrightarrow> i \<notin> set ids"
  | (start) i where "nv_selectedIdRef nav = Some i" and "i \<in> set ids"
      and "set (forgetProcesses (nv_activationHistoryRef nav) ids) \<inter> pv_id ` set (nv_processesRef nav) = {}"
      and "navigateAfterLifecycle ids nav = openStart
        (nav\<lparr>nv_activationHistoryRef := forgetProcesses (nv_activationHistoryRef nav) ids\<rparr>)"
  | (moved) i j newer older where "nv_selectedIdRef nav = Some i" and "i \<in> set ids"
      and "forgetProcesses (nv_activationHistoryRef nav) ids = newer @ j # older"
      and "j \<in> pv_id ` set (nv_processesRef nav)" and "set newer \<inter> pv_id ` set (nv_processesRef nav) = {}"
      and "navigateAfterLifecycle ids nav = selectProcess j
        (nav\<lparr>nv_activationHistoryRef := forgetProcesses (nv_activationHistoryRef nav) ids\<rparr>)"
proof (cases "nv_selectedIdRef nav")
  case None
  then show thesis by (intro kept) (simp_all add: navigateAfterLifecycle_def)
next
  case (Some i)
  show thesis
  proof (cases "i \<in> set ids")
    case False
    with Some show thesis by (intro kept) (simp_all add: navigateAfterLifecycle_def)
  next
    case True
    show thesis
    proof (cases "mostRecentAvailableProcess (forgetProcesses (nv_activationHistoryRef nav) ids)
        (map pv_id (nv_processesRef nav))")
      case None
      with Some True show thesis
        using mostRecent_None [of "forgetProcesses (nv_activationHistoryRef nav) ids" "map pv_id (nv_processesRef nav)"]
        by (intro start) (auto simp: navigateAfterLifecycle_def)
    next
      case next_row: (Some j)
      from mostRecent_first [OF next_row] obtain newer older where
        "forgetProcesses (nv_activationHistoryRef nav) ids = newer @ j # older"
        "j \<in> set (map pv_id (nv_processesRef nav))" "set newer \<inter> set (map pv_id (nv_processesRef nav)) = {}"
        by blast
      with Some True next_row show thesis
        by (intro moved) (auto simp: navigateAfterLifecycle_def)
    qed
  qed
qed

lemma forget_head:
  "nav_inv nav \<Longrightarrow> (\<And>i. nv_selectedIdRef nav = Some i \<Longrightarrow> i \<notin> set ids) \<Longrightarrow>
     nav_inv (nav\<lparr>nv_activationHistoryRef := forgetProcesses (nv_activationHistoryRef nav) ids\<rparr>)"
  by (auto simp: nav_inv_def forget_distinct) (auto simp: forgetProcesses_def)

lemma navigate_inv:
  assumes "nav_inv nav"
  shows "nav_inv (navigateAfterLifecycle ids nav)"
  using assms
proof (cases rule: navigate_cases [of nav ids])
  case kept
  with forget_head [OF assms] show ?thesis by simp
next
  case (start i)
  with assms show ?thesis by (simp add: openStart_def nav_call_def nav_inv_def forget_distinct)
next
  case (moved i j newer older)
  have "distinct (forgetProcesses (nv_activationHistoryRef nav) ids)"
    using assms by (simp add: nav_inv_def forget_distinct)
  then have "distinct (activateProcess (forgetProcesses (nv_activationHistoryRef nav) ids) j)"
    by (rule activate_distinct)
  moreover have "\<exists>rest. activateProcess (forgetProcesses (nv_activationHistoryRef nav) ids) j = j # rest"
    by (simp add: activateProcess_def)
  ultimately show ?thesis
    using moved(6) assms by (simp add: selectProcess_def nav_call_def nav_inv_def)
qed

interpretation navigation: machine nav_init nav_step nav_inv
proof
  show "nav_inv nav_init" by (simp add: nav_inv_def nav_init_def)
next
  fix nav op
  assume inv: "nav_inv nav"
  show "nav_inv (nav_step nav op)"
  proof (cases op)
    case (NavCommit processes)
    have "nav_inv (nav\<lparr>nv_processesRef := processes, nv_selectedIdRef := nv_selectedId nav,
        nv_knownProcessIdsRef := remdups (map pv_id processes)\<rparr>)"
      using inv by (simp add: nav_inv_def)
    then show ?thesis by (simp add: NavCommit nav_commit_def Let_def navigate_inv)
  next
    case NavDeselect
    with inv show ?thesis by (simp add: deselectProcess_def nav_inv_def)
  qed (use inv in \<open>auto simp: processStopped_def processRemoved_def startProcess_def restartProcess_def
      resumeProcess_def projectStopped_def removalRequested_def Let_def select_inv call_inv open_inv navigate_inv
      split: option.splits\<close>)
qed

lemma set_activate: "set (activateProcess history i) = insert i (set history)"
  by (auto simp: activateProcess_def)

lemma set_forget: "set (forgetProcesses history ids) = set history - set ids"
  by (auto simp: forgetProcesses_def)

lemma navigate_history:
  assumes "nav_inv nav"
  shows "set (nv_activationHistoryRef (navigateAfterLifecycle ids nav)) = set (nv_activationHistoryRef nav) - set ids"
  using assms
proof (cases rule: navigate_cases [of nav ids])
  case (moved i j newer older)
  then have "j \<in> set (forgetProcesses (nv_activationHistoryRef nav) ids)" by simp
  with moved(6) show ?thesis
    by (simp add: selectProcess_def nav_call_def set_activate set_forget insert_absorb)
qed (simp_all add: set_forget openStart_def nav_call_def)

lemma filter_first:
  "xs = newer @ j # older \<Longrightarrow> (\<And>i. i \<in> set newer \<Longrightarrow> \<not> P i) \<Longrightarrow> P j \<Longrightarrow> filter P xs = j # filter P older"
  by (simp add: filter_empty_conv)


lemma navigate_selected:
  assumes "nav_inv nav" and "nv_selectedId (navigateAfterLifecycle ids nav) = Some i"
  shows "i \<notin> set ids \<and> (nv_selectedId nav = Some i \<or> i \<in> pv_id ` set (nv_processesRef nav))"
  using assms(1)
proof (cases rule: navigate_cases [of nav ids])
  case kept
  with assms show ?thesis by (simp add: nav_inv_def)
next
  case (start j)
  with assms show ?thesis by (simp add: openStart_def nav_call_def)
next
  case (moved j k newer older)
  then have "k \<in> set (forgetProcesses (nv_activationHistoryRef nav) ids)" by simp
  then have "k \<notin> set ids" by (simp add: forgetProcesses_def)
  with moved assms show ?thesis by (simp add: selectProcess_def nav_call_def)
qed

lemma commit_inv:
  "nav_inv nav \<Longrightarrow> nav_inv (nav\<lparr>nv_processesRef := processes, nv_selectedIdRef := nv_selectedId nav,
     nv_knownProcessIdsRef := remdups (map pv_id processes)\<rparr>)"
  by (simp add: nav_inv_def)

text \<open>
  After a commit the shown process is in the committed list, unless it was selected before its
  spawn arrived: then the previous commit did not have it either and the selection stands.
\<close>

theorem selection_never_dangles:
  assumes "nv_selectedId (nav_run (ops @ [NavCommit processes])) = Some i"
  shows "i \<in> pv_id ` set processes
    \<or> (i \<notin> set (nv_knownProcessIdsRef (nav_run ops)) \<and> nv_selectedId (nav_run ops) = Some i)"
proof -
  let ?nav = "nav_run ops" and ?ids = "remdups (map pv_id processes)"
  let ?nav' = "?nav\<lparr>nv_processesRef := processes, nv_selectedIdRef := nv_selectedId ?nav,
      nv_knownProcessIdsRef := ?ids\<rparr>"
  let ?gone = "filter (\<lambda>i. i \<notin> set ?ids) (nv_knownProcessIdsRef ?nav)"
  have inv: "nav_inv ?nav'" by (rule commit_inv [OF navigation.inv_run])
  show ?thesis
  proof (cases "?gone = []")
    case True
    with assms show ?thesis by (auto simp: nav_commit_def Let_def filter_empty_conv)
  next
    case False
    with assms have "nv_selectedId (navigateAfterLifecycle ?gone ?nav') = Some i"
      by (simp add: nav_commit_def Let_def)
    from navigate_selected [OF inv this] show ?thesis by auto
  qed
qed

theorem selection_never_dangles_witness:
  "nv_selectedId (nav_run ([NavSelect 7] @ [NavCommit []])) = Some 7
   \<and> (7 \<in> pv_id ` set ([] :: ProcessView list) \<or> (7 \<notin> set (nv_knownProcessIdsRef (nav_run [NavSelect 7]))
        \<and> nv_selectedId (nav_run [NavSelect 7]) = Some 7))"
proof -
  have "nv_selectedId (nav_run ([NavSelect 7] @ [NavCommit []])) = Some 7"
    by (simp add: nav_init_def nav_commit_def selectProcess_def nav_call_def)
  with selection_never_dangles [of "[NavSelect 7]" "[]" 7] show ?thesis by blast
qed

text \<open>
  Stop All never leaves a process it stops on screen: no live process of the project, in the
  committed list, is selected afterwards.
\<close>

theorem stop_all_leaves_project:
  "\<forall>process \<in> set (nv_processesRef (nav_run ops)).
     pv_project process = project \<and> isActive (pv_status process) \<longrightarrow>
     nv_selectedId (nav_run (ops @ [NavProjectStopped project])) \<noteq> Some (pv_id process)"
proof (intro ballI impI notI)
  fix process
  assume row: "process \<in> set (nv_processesRef (nav_run ops))"
    "pv_project process = project \<and> isActive (pv_status process)"
    and "nv_selectedId (nav_run (ops @ [NavProjectStopped project])) = Some (pv_id process)"
  then have "nv_selectedId (navigateAfterLifecycle (map pv_id (filter (\<lambda>process. pv_project process = project
      \<and> isActive (pv_status process)) (nv_processesRef (nav_run ops)))) (nav_run ops)) = Some (pv_id process)"
    by (simp add: projectStopped_def)
  from navigate_selected [OF navigation.inv_run this] row show False by auto
qed

definition nav_row :: "int \<Rightarrow> ProcessView" where
  "nav_row i = \<lparr>pv_id = i, pv_project = 1, pv_kind = Agent, pv_label = [], pv_status = Running,
     pv_exit_code = None, pv_requires_trust = False, pv_resumable = False, pv_ports = [], pv_ready = Ungated\<rparr>"

theorem stop_all_leaves_project_witness:
  "nav_row 7 \<in> set (nv_processesRef (nav_run [NavCommit [nav_row 7], NavSelect 7]))
   \<and> nv_selectedId (nav_run ([NavCommit [nav_row 7], NavSelect 7] @ [NavProjectStopped 1])) \<noteq> Some 7"
proof -
  have "nav_row 7 \<in> set (nv_processesRef (nav_run [NavCommit [nav_row 7], NavSelect 7]))"
    by (simp add: nav_init_def nav_commit_def selectProcess_def nav_call_def)
  moreover have "pv_project (nav_row 7) = 1 \<and> isActive (pv_status (nav_row 7))" "pv_id (nav_row 7) = 7"
    by (simp_all add: nav_row_def isActive_def)
  ultimately show ?thesis
    using stop_all_leaves_project [of "[NavCommit [nav_row 7], NavSelect 7]" 1] by metis
qed

end
