(* ===== verification/PtyStream.thy ===== *)
theory PtyStream
  imports Domain
begin

section \<open>One terminal attachment\<close>

text \<open>
  \<open>components/terminal/terminalStream.ts\<close>: chunks from the backend are queued, coalesced per
  animation frame and written to the emulator; a bounded backlog sheds its oldest chunks and
  then refuses to write until a resync. An animation frame handle is a positive number;
  \<open>pt_rafs\<close> are the requested handles that neither fired nor were cancelled, \<open>pt_term\<close>
  the calls on the emulator, and \<open>pt_detached\<close> the tokens passed to detach.
\<close>

type_synonym chunk = "nat list"

datatype TermCall = TermWrite chunk | TermReset

datatype Attachment = Attaching | Attached int | AttachFailed

definition PENDING_CAP_BYTES :: int where
  "PENDING_CAP_BYTES = 512 * 1024"

record PtyStream =
  pt_cancelled :: bool
  pt_frame :: nat
  pt_pending :: "chunk list"
  pt_pendingBytes :: int
  pt_desynced :: bool
  pt_attachment :: Attachment
  pt_rafs :: "nat list"
  pt_next_raf :: nat
  pt_term :: "TermCall list"
  pt_desync_calls :: nat
  pt_detached :: "int list"

definition openPtyStream :: PtyStream where
  "openPtyStream = \<lparr>pt_cancelled = False, pt_frame = 0, pt_pending = [], pt_pendingBytes = 0,
     pt_desynced = False, pt_attachment = Attaching, pt_rafs = [], pt_next_raf = 1, pt_term = [],
     pt_desync_calls = 0, pt_detached = []\<rparr>"

definition requestFrame :: "PtyStream \<Rightarrow> PtyStream" where
  "requestFrame s = s\<lparr>pt_frame := pt_next_raf s, pt_rafs := pt_rafs s @ [pt_next_raf s],
     pt_next_raf := pt_next_raf s + 1\<rparr>"

definition cancelFrame :: "PtyStream \<Rightarrow> PtyStream" where
  "cancelFrame s = (if pt_frame s \<noteq> 0 then s\<lparr>pt_rafs := filter (\<lambda>h. h \<noteq> pt_frame s) (pt_rafs s)\<rparr> else s)\<lparr>pt_frame := 0\<rparr>"

definition flush :: "PtyStream \<Rightarrow> PtyStream" where
  "flush s =
     (let s = s\<lparr>pt_frame := 0\<rparr>
      in if pt_desynced s
         then s\<lparr>pt_pending := [], pt_pendingBytes := 0, pt_desync_calls := pt_desync_calls s + 1\<rparr>
         else s\<lparr>pt_pending := [], pt_pendingBytes := 0, pt_term := pt_term s @ map TermWrite (pt_pending s)\<rparr>)"

text \<open>The shedding loop: bytes queued, chunks queued, and whether a chunk was dropped.\<close>

fun shed :: "int \<Rightarrow> chunk list \<Rightarrow> bool \<Rightarrow> int \<times> chunk list \<times> bool" where
  "shed bytes (oldest # rest # chunks) desynced =
     (if bytes > PENDING_CAP_BYTES then shed (bytes - int (length oldest)) (rest # chunks) True
      else (bytes, oldest # rest # chunks, desynced))"
| "shed bytes chunks desynced = (bytes, chunks, desynced)"

definition on_bytes :: "chunk \<Rightarrow> bool \<Rightarrow> bool \<Rightarrow> PtyStream \<Rightarrow> PtyStream" where
  "on_bytes bytes resync visible s =
     (if pt_cancelled s then s
      else if resync then
        (let s = (cancelFrame s)\<lparr>pt_pending := [bytes], pt_pendingBytes := int (length bytes),
               pt_desynced := False, pt_term := pt_term s @ [TermReset]\<rparr>
         in if visible then requestFrame s else s)
      else
        (let (queued, chunks, desynced) =
               shed (pt_pendingBytes s + int (length bytes)) (pt_pending s @ [bytes]) (pt_desynced s);
             s = s\<lparr>pt_pending := chunks, pt_pendingBytes := queued, pt_desynced := desynced\<rparr>
         in if visible \<and> pt_frame s = 0 then requestFrame s else s))"

definition cancel :: "PtyStream \<Rightarrow> PtyStream" where
  "cancel s =
     (if pt_cancelled s then s
      else let s = (cancelFrame (s\<lparr>pt_cancelled := True\<rparr>))\<lparr>pt_pending := [], pt_pendingBytes := 0\<rparr>
        in case pt_attachment s of Attached token \<Rightarrow> s\<lparr>pt_detached := pt_detached s @ [token]\<rparr> | _ \<Rightarrow> s)"

definition resume :: "PtyStream \<Rightarrow> PtyStream" where
  "resume s = (if pt_cancelled s \<or> pt_frame s \<noteq> 0 \<or> pt_pending s = [] then s else requestFrame s)"

text \<open>
  The environment: the attach promise settles once; a cancelled stream then detaches by its own
  token, a failed attach is swallowed. A frame fires when its handle is outstanding.
\<close>

definition attach_settles :: "int option \<Rightarrow> PtyStream \<Rightarrow> PtyStream" where
  "attach_settles result s =
     (if pt_attachment s \<noteq> Attaching then s
      else case result of
        None \<Rightarrow> s\<lparr>pt_attachment := AttachFailed\<rparr>
      | Some token \<Rightarrow> s\<lparr>pt_attachment := Attached token,
          pt_detached := pt_detached s @ (if pt_cancelled s then [token] else [])\<rparr>)"

definition frame_fires :: "nat \<Rightarrow> PtyStream \<Rightarrow> PtyStream" where
  "frame_fires h s = (if h \<in> set (pt_rafs s)
     then flush (s\<lparr>pt_rafs := filter (\<lambda>k. k \<noteq> h) (pt_rafs s)\<rparr>) else s)"

datatype PtyOp =
    PtyBytes chunk bool bool \<comment> \<open>bytes, resync, visible\<close>
  | PtyCancel | PtyResume | PtyAttach "int option" | PtyFrame nat

fun pty_step :: "PtyStream \<Rightarrow> PtyOp \<Rightarrow> PtyStream" where
  "pty_step s (PtyBytes bytes resync visible) = on_bytes bytes resync visible s"
| "pty_step s PtyCancel = cancel s"
| "pty_step s PtyResume = resume s"
| "pty_step s (PtyAttach result) = attach_settles result s"
| "pty_step s (PtyFrame h) = frame_fires h s"

abbreviation pty_run :: "PtyOp list \<Rightarrow> PtyStream" where
  "pty_run ops \<equiv> foldl pty_step openPtyStream ops"

subsection \<open>The shedding loop\<close>

definition chunk_bytes :: "chunk list \<Rightarrow> int" where
  "chunk_bytes chunks = (\<Sum>c\<leftarrow>chunks. int (length c))"

lemma chunk_bytes_simps [simp]: "chunk_bytes [] = 0" "chunk_bytes (c # cs) = int (length c) + chunk_bytes cs"
  "chunk_bytes (xs @ ys) = chunk_bytes xs + chunk_bytes ys"
  by (simp_all add: chunk_bytes_def)

text \<open>
  Started on the true count, the loop keeps the count true, drops a prefix, flags exactly a
  drop, and ends under the cap or with one chunk left.
\<close>

lemma shed_spec:
  assumes "shed bytes chunks desynced = (bytes', chunks', desynced')" and "bytes = chunk_bytes chunks"
  shows "bytes' = chunk_bytes chunks' \<and> (\<exists>dropped. chunks = dropped @ chunks' \<and> (desynced' \<longleftrightarrow> desynced \<or> dropped \<noteq> []))
    \<and> (chunks \<noteq> [] \<longrightarrow> chunks' \<noteq> []) \<and> (bytes' \<le> PENDING_CAP_BYTES \<or> length chunks' \<le> 1)"
  using assms
proof (induction bytes chunks desynced rule: shed.induct)
  case (1 bytes oldest rest chunks desynced)
  show ?case
  proof (cases "bytes > PENDING_CAP_BYTES")
    case True
    with 1 have "bytes' = chunk_bytes chunks' \<and> (\<exists>dropped. rest # chunks = dropped @ chunks' \<and> (desynced' \<longleftrightarrow> True))
      \<and> chunks' \<noteq> [] \<and> (bytes' \<le> PENDING_CAP_BYTES \<or> length chunks' \<le> 1)"
      by auto
    then obtain dropped where "rest # chunks = dropped @ chunks'" "desynced'" "bytes' = chunk_bytes chunks'"
      "chunks' \<noteq> []" "bytes' \<le> PENDING_CAP_BYTES \<or> length chunks' \<le> 1"
      by auto
    then show ?thesis by (auto intro: exI [of _ "oldest # dropped"])
  next
    case False
    with 1 show ?thesis by auto
  qed
qed auto

subsection \<open>The stream invariant\<close>

text \<open>
  What the emulator shows is what was written since the last reset; what the backend sent is
  every chunk since the last resync that arrived before cancellation.
\<close>

definition shown_step :: "chunk list \<Rightarrow> TermCall \<Rightarrow> chunk list" where
  "shown_step w c = (case c of TermReset \<Rightarrow> [] | TermWrite b \<Rightarrow> w @ [b])"

definition shown :: "TermCall list \<Rightarrow> chunk list" where
  "shown calls = foldl shown_step [] calls"

lemma shown_append:
  "shown (calls @ [TermReset]) = []"
  "shown (calls @ map TermWrite chunks) = shown calls @ chunks"
proof -
  show "shown (calls @ [TermReset]) = []" by (simp add: shown_def shown_step_def)
  have "foldl shown_step w (map TermWrite chunks) = w @ chunks" for w
    by (induction chunks arbitrary: w) (auto simp: shown_step_def)
  then show "shown (calls @ map TermWrite chunks) = shown calls @ chunks" by (simp add: shown_def)
qed

fun received_step :: "chunk list \<times> bool \<Rightarrow> PtyOp \<Rightarrow> chunk list \<times> bool" where
  "received_step (r, live) (PtyBytes bytes resync visible) =
     (if \<not> live then (r, live) else if resync then ([bytes], live) else (r @ [bytes], live))"
| "received_step (r, live) PtyCancel = (r, False)"
| "received_step (r, live) _ = (r, live)"

definition received :: "PtyOp list \<Rightarrow> chunk list" where
  "received ops = fst (foldl received_step ([], True) ops)"

definition pty_inv :: "PtyStream \<Rightarrow> bool" where
  "pty_inv s \<longleftrightarrow> pt_pendingBytes s = chunk_bytes (pt_pending s)
     \<and> (pt_pendingBytes s \<le> PENDING_CAP_BYTES \<or> length (pt_pending s) = 1)
     \<and> pt_rafs s = (if pt_frame s = 0 then [] else [pt_frame s]) \<and> pt_frame s < pt_next_raf s
     \<and> (pt_cancelled s \<longrightarrow> pt_frame s = 0 \<and> pt_pending s = [])"

definition gap_free :: "chunk list \<Rightarrow> PtyStream \<Rightarrow> bool" where
  "gap_free r s \<longleftrightarrow>
     (if pt_desynced s \<or> pt_cancelled s then prefix (shown (pt_term s)) r
      else shown (pt_term s) @ pt_pending s = r)"

lemma flush_inv: "pty_inv s \<Longrightarrow> pty_inv (flush (s\<lparr>pt_rafs := []\<rparr>))"
  by (auto simp: pty_inv_def flush_def Let_def PENDING_CAP_BYTES_def)

lemma request_inv: "pty_inv s \<Longrightarrow> pt_frame s = 0 \<Longrightarrow> \<not> pt_cancelled s \<Longrightarrow> pty_inv (requestFrame s)"
  by (auto simp: pty_inv_def requestFrame_def)

lemma cancelFrame_eq: "pty_inv s \<Longrightarrow> cancelFrame s = s\<lparr>pt_frame := 0, pt_rafs := []\<rparr>"
  by (simp add: pty_inv_def cancelFrame_def)

lemma frame_fires_eq:
  "pty_inv s \<Longrightarrow> frame_fires h s = (if h = pt_frame s \<and> h \<noteq> 0 then flush (s\<lparr>pt_rafs := []\<rparr>) else s)"
  by (auto simp: pty_inv_def frame_fires_def)

lemma on_bytes_inv:
  assumes "pty_inv s"
  shows "pty_inv (on_bytes bytes resync visible s)"
proof (cases "pt_cancelled s \<or> resync")
  case True
  then show ?thesis
    using assms by (auto simp: on_bytes_def cancelFrame_eq [OF assms] Let_def requestFrame_def pty_inv_def)
next
  case False
  obtain q cs d where sh: "shed (pt_pendingBytes s + int (length bytes)) (pt_pending s @ [bytes]) (pt_desynced s) = (q, cs, d)"
    by (metis prod_cases3)
  with assms have "q = chunk_bytes cs \<and> cs \<noteq> [] \<and> (q \<le> PENDING_CAP_BYTES \<or> length cs \<le> 1)"
    using shed_spec [OF sh] unfolding pty_inv_def by auto
  then have "q = chunk_bytes cs" "q \<le> PENDING_CAP_BYTES \<or> length cs = 1"
    by (cases cs; auto)+
  with False assms have "pty_inv (s\<lparr>pt_pending := cs, pt_pendingBytes := q, pt_desynced := d\<rparr>)"
    by (simp add: pty_inv_def)
  with False show ?thesis by (simp add: on_bytes_def sh Let_def request_inv)
qed

interpretation pty: machine openPtyStream pty_step pty_inv
proof
  show "pty_inv openPtyStream" by (simp add: pty_inv_def openPtyStream_def PENDING_CAP_BYTES_def)
next
  fix s e
  assume inv: "pty_inv s"
  show "pty_inv (pty_step s e)"
  proof (cases e)
    case (PtyBytes b r v)
    with inv show ?thesis by (simp add: on_bytes_inv)
  next
    case PtyCancel
    then show ?thesis using inv
      by (auto simp: cancel_def Let_def cancelFrame_def pty_inv_def PENDING_CAP_BYTES_def split: Attachment.split)
  next
    case PtyResume
    with inv show ?thesis by (simp add: resume_def request_inv)
  next
    case (PtyAttach x)
    with inv show ?thesis by (auto simp: attach_settles_def pty_inv_def split: option.split)
  next
    case (PtyFrame h)
    with inv show ?thesis by (simp add: frame_fires_eq flush_inv)
  qed
qed

lemma gap_free_request: "gap_free r (requestFrame s) \<longleftrightarrow> gap_free r s"
  by (simp add: gap_free_def requestFrame_def)

lemma requestFrame_live [simp]: "pt_cancelled (requestFrame s) = pt_cancelled s"
  by (simp add: requestFrame_def)

lemma gap_free_step:
  assumes "pty_inv s" and "gap_free r s" and "live \<longleftrightarrow> \<not> pt_cancelled s"
  shows "gap_free (fst (received_step (r, live) op)) (pty_step s op)
    \<and> (snd (received_step (r, live) op) \<longleftrightarrow> \<not> pt_cancelled (pty_step s op))"
proof (cases op)
  case (PtyBytes bytes resync visible)
  show ?thesis
  proof (cases "pt_cancelled s \<or> resync")
    case True
    with assms PtyBytes show ?thesis
      by (auto simp: on_bytes_def cancelFrame_eq Let_def requestFrame_def gap_free_def shown_append)
  next
    case False
    obtain q cs d where sh: "shed (pt_pendingBytes s + int (length bytes)) (pt_pending s @ [bytes]) (pt_desynced s) = (q, cs, d)"
      by (metis prod_cases3)
    with assms obtain dropped where dr: "pt_pending s @ [bytes] = dropped @ cs"
      "d \<longleftrightarrow> pt_desynced s \<or> dropped \<noteq> []"
      using shed_spec [OF sh] by (auto simp: pty_inv_def)
    let ?s = "s\<lparr>pt_pending := cs, pt_pendingBytes := q, pt_desynced := d\<rparr>"
    have "gap_free (r @ [bytes]) ?s"
    proof (cases "pt_desynced s")
      case True
      with assms False dr show ?thesis by (simp add: gap_free_def)
    next
      case nd: False
      with assms(2) False have r: "r = shown (pt_term s) @ pt_pending s" by (simp add: gap_free_def)
      show ?thesis
      proof (cases d)
        case True
        then show ?thesis by (simp add: gap_free_def r)
      next
        case nd': False
        with dr nd have "cs = pt_pending s @ [bytes]" by simp
        with nd' False show ?thesis by (simp add: gap_free_def r)
      qed
    qed
    moreover have "pty_step s op = (if visible \<and> pt_frame s = 0 then requestFrame ?s else ?s)"
      using False by (simp add: PtyBytes on_bytes_def sh Let_def)
    ultimately show ?thesis using False assms(3)
      by (simp add: PtyBytes gap_free_request)
  qed
next
  case PtyCancel
  with assms show ?thesis
    by (auto simp: cancel_def Let_def cancelFrame_def gap_free_def split: Attachment.split if_splits)
next
  case PtyResume
  with assms show ?thesis by (simp add: resume_def requestFrame_def gap_free_def)
next
  case (PtyAttach x)
  with assms show ?thesis by (simp add: attach_settles_def gap_free_def split: option.split)
next
  case (PtyFrame h)
  with assms have "pt_frame s \<noteq> 0 \<Longrightarrow> \<not> pt_cancelled s" by (auto simp: pty_inv_def)
  with assms PtyFrame show ?thesis
    by (auto simp: frame_fires_eq flush_def Let_def gap_free_def shown_append)
qed

lemma gap_free_run:
  "gap_free (received ops) (pty_run ops)
   \<and> (snd (foldl received_step ([], True) ops) \<longleftrightarrow> \<not> pt_cancelled (pty_run ops))"
proof (induction ops rule: rev_induct)
  case Nil
  show ?case by (simp add: gap_free_def received_def openPtyStream_def shown_def)
next
  case (snoc op ops)
  obtain r live where rl: "foldl received_step ([], True) ops = (r, live)" by fastforce
  with snoc have "gap_free r (pty_run ops)" "live \<longleftrightarrow> \<not> pt_cancelled (pty_run ops)"
    by (auto simp: received_def)
  from gap_free_step [OF pty.inv_run this, of op] rl
  show ?case by (simp add: received_def)
qed

text \<open>
  C4. The emulator never shows a gap: what it holds since its last reset is always a prefix of
  what the backend sent since the last resync, and while no chunk was shed the queue holds
  exactly the rest.
\<close>

theorem emulator_never_gapped:
  "prefix (shown (pt_term (pty_run ops))) (received ops)
   \<and> (pt_desynced (pty_run ops) \<or> pt_cancelled (pty_run ops)
      \<or> shown (pt_term (pty_run ops)) @ pt_pending (pty_run ops) = received ops)"
  using gap_free_run [of ops]
  by (auto simp: gap_free_def split: if_splits) (metis prefixI)

text \<open>
  C38. The backlog is bounded and frames do not pile up: the byte count is the queue's, at most
  the cap unless a single chunk exceeds it, and at most one frame is outstanding, none and no
  bytes after cancellation.
\<close>

theorem backlog_bounded:
  "let s = pty_run ops in
     pt_pendingBytes s = chunk_bytes (pt_pending s)
     \<and> (pt_pendingBytes s \<le> PENDING_CAP_BYTES \<or> length (pt_pending s) = 1)
     \<and> length (pt_rafs s) \<le> 1 \<and> set (pt_rafs s) \<subseteq> {pt_frame s} - {0}
     \<and> (if pt_cancelled s then pt_rafs s = [] \<and> pt_pending s = [] else True)"
  using pty.inv_run [of ops] by (auto simp: pty_inv_def Let_def)

definition detach_inv :: "PtyStream \<Rightarrow> bool" where
  "detach_inv s \<longleftrightarrow> pt_detached s =
     (if pt_cancelled s then case pt_attachment s of Attached token \<Rightarrow> [token] | _ \<Rightarrow> [] else [])"

lemma flush_keeps: "pt_detached (flush s) = pt_detached s \<and> pt_attachment (flush s) = pt_attachment s
    \<and> pt_cancelled (flush s) = pt_cancelled s"
  by (simp add: flush_def Let_def)

interpretation detaching: machine openPtyStream pty_step detach_inv
proof
  show "detach_inv openPtyStream" by (simp add: detach_inv_def openPtyStream_def)
next
  fix s e
  assume "detach_inv s"
  then show "detach_inv (pty_step s e)"
    by (cases e) (auto simp: detach_inv_def on_bytes_def cancelFrame_def requestFrame_def cancel_def
        resume_def attach_settles_def frame_fires_def flush_keeps Let_def
        split: Attachment.splits option.splits prod.splits)
qed

lemma cancelled_step:
  "pty_inv s \<Longrightarrow> pt_cancelled s \<Longrightarrow> pt_cancelled (pty_step s op) \<and> pt_term (pty_step s op) = pt_term s"
  by (cases op) (auto simp: on_bytes_def cancel_def resume_def attach_settles_def frame_fires_eq pty_inv_def
      split: option.split)

lemma cancelled_run:
  "pty_inv s \<Longrightarrow> pt_cancelled s \<Longrightarrow> pt_cancelled (foldl pty_step s ops) \<and> pt_term (foldl pty_step s ops) = pt_term s"
proof (induction ops arbitrary: s)
  case (Cons op ops)
  then show ?case using Cons.IH [OF pty.inv_step [of s op]] cancelled_step [of s op] by simp
qed simp

text \<open>
  Cancellation is final: whatever follows, the emulator is not touched again, and the stream
  detaches exactly once, by its own token, when its attach succeeds.
\<close>

theorem cancel_is_final:
  "pt_term (pty_run (ops @ [PtyCancel] @ later)) = pt_term (pty_run ops)
   \<and> pt_detached (pty_run (ops @ [PtyCancel] @ later)) =
       (case pt_attachment (pty_run (ops @ [PtyCancel] @ later)) of Attached token \<Rightarrow> [token] | _ \<Rightarrow> [])"
proof -
  let ?s = "pty_step (pty_run ops) PtyCancel"
  have c: "pt_cancelled ?s" "pt_term ?s = pt_term (pty_run ops)"
    by (auto simp: cancel_def Let_def cancelFrame_def split: Attachment.split)
  have inv: "pty_inv ?s" by (rule pty.inv_step [OF pty.inv_run])
  have run: "pty_run (ops @ [PtyCancel] @ later) = foldl pty_step ?s later" by simp
  have "pt_cancelled (pty_run (ops @ [PtyCancel] @ later)) \<and>
      pt_term (pty_run (ops @ [PtyCancel] @ later)) = pt_term (pty_run ops)"
    using cancelled_run [OF inv c(1), of later] c(2) by (simp only: run)
  moreover have "detach_inv (pty_run (ops @ [PtyCancel] @ later))"
    by (rule detaching.inv_run)
  ultimately show ?thesis by (simp add: detach_inv_def)
qed

text \<open>
  Visible output is drained by the next frame: after bytes reach a live visible pane a frame is
  outstanding, and when it fires either everything received is on the emulator or the caller is
  told to re-attach.
\<close>

theorem visible_bytes_drained:
  assumes "\<not> pt_cancelled (pty_run ops)"
  shows "let s = pty_run (ops @ [PtyBytes bytes resync True]); t = frame_fires (pt_frame s) s in
     pt_rafs s = [pt_frame s]
     \<and> (shown (pt_term t) = received (ops @ [PtyBytes bytes resync True])
        \<or> pt_desync_calls t = pt_desync_calls s + 1)"
proof -
  let ?ops = "ops @ [PtyBytes bytes resync True]"
  let ?s = "pty_run ?ops"
  have inv: "pty_inv ?s" by (rule pty.inv_run)
  have live: "\<not> pt_cancelled ?s"
    using assms by (auto simp: on_bytes_def Let_def requestFrame_def cancelFrame_def split: prod.splits)
  have frame: "pt_frame ?s \<noteq> 0"
    using assms pty.inv_run [of ops]
    by (auto simp: on_bytes_def Let_def requestFrame_def cancelFrame_def pty_inv_def split: prod.splits)
  have rafs: "pt_rafs ?s = [pt_frame ?s]" using inv frame by (simp add: pty_inv_def)
  have "gap_free (received ?ops) ?s" using gap_free_run [of ?ops] by blast
  with live have "pt_desynced ?s \<or> shown (pt_term ?s) @ pt_pending ?s = received ?ops"
    by (auto simp: gap_free_def split: if_splits)
  then have "shown (pt_term (flush (?s\<lparr>pt_rafs := []\<rparr>))) = received ?ops
      \<or> pt_desync_calls (flush (?s\<lparr>pt_rafs := []\<rparr>)) = pt_desync_calls ?s + 1"
    by (auto simp: flush_def Let_def shown_append)
  with frame rafs show ?thesis
    by (simp only: Let_def frame_fires_eq [OF inv]) simp
qed

theorem visible_bytes_drained_witness:
  "\<not> pt_cancelled (pty_run [])
   \<and> (let s = pty_run ([] @ [PtyBytes [104, 105] True True]); t = frame_fires (pt_frame s) s in
     pt_rafs s = [pt_frame s]
     \<and> (shown (pt_term t) = received ([] @ [PtyBytes [104, 105] True True])
        \<or> pt_desync_calls t = pt_desync_calls s + 1))"
  using visible_bytes_drained [of "[]" "[104, 105]" True] by (simp add: openPtyStream_def)

end
