(* ===== verification/ToastTimers.thy ===== *)
theory ToastTimers
  imports Domain
begin

section \<open>The countdown behind an in-app toast\<close>

text \<open>
  \<open>lib/toastDismissal.ts\<close>: a duration per toast, a timeout per running countdown, and a pause
  flag. The browser side is the list of outstanding timeouts, each with its handle, toast, the
  time it was armed and its delay; it may fire any timeout that is due, in any order.
\<close>

datatype ToastId = ToastName jstring | ToastNumber int

record Timeout =
  to_handle :: nat
  to_toast :: ToastId
  to_armed :: int
  to_delay :: int

record ToastDismissal =
  tm_durations :: "(ToastId, int) jsmap"
  tm_timers :: "(ToastId, nat) jsmap"
  tm_paused :: bool
  tm_now :: int
  tm_next :: nat
  tm_timeouts :: "Timeout list"
  tm_dismissed :: "(ToastId \<times> int) list"

definition createToastDismissal :: ToastDismissal where
  "createToastDismissal = \<lparr>tm_durations = [], tm_timers = [], tm_paused = False, tm_now = 0, tm_next = 1,
     tm_timeouts = [], tm_dismissed = []\<rparr>"

definition arm :: "ToastId \<Rightarrow> int \<Rightarrow> ToastDismissal \<Rightarrow> ToastDismissal" where
  "arm i ms s = s\<lparr>tm_timers := map_set i (tm_next s) (tm_timers s), tm_next := tm_next s + 1,
     tm_timeouts := tm_timeouts s @ [\<lparr>to_handle = tm_next s, to_toast = i, to_armed = tm_now s, to_delay = ms\<rparr>]\<rparr>"

definition clear_timeout :: "nat \<Rightarrow> ToastDismissal \<Rightarrow> ToastDismissal" where
  "clear_timeout h s = s\<lparr>tm_timeouts := filter (\<lambda>t. to_handle t \<noteq> h) (tm_timeouts s)\<rparr>"

definition disarm :: "ToastId \<Rightarrow> ToastDismissal \<Rightarrow> ToastDismissal" where
  "disarm i s = (case map_get (tm_timers s) i of None \<Rightarrow> s
     | Some timer \<Rightarrow> (clear_timeout timer s)\<lparr>tm_timers := map_delete i (tm_timers s)\<rparr>)"

definition disarmAll :: "ToastDismissal \<Rightarrow> ToastDismissal" where
  "disarmAll s = (fold clear_timeout (map snd (tm_timers s)) s)\<lparr>tm_timers := []\<rparr>"

definition schedule :: "ToastId \<Rightarrow> int \<Rightarrow> ToastDismissal \<Rightarrow> ToastDismissal" where
  "schedule i ms s =
     (let s = disarm i s; s = s\<lparr>tm_durations := map_set i ms (tm_durations s)\<rparr>
      in if \<not> tm_paused s then arm i ms s else s)"

definition forget_toast :: "ToastId \<Rightarrow> ToastDismissal \<Rightarrow> ToastDismissal" where
  "forget_toast i s = (let s = disarm i s in s\<lparr>tm_durations := map_delete i (tm_durations s)\<rparr>)"

definition pause :: "ToastDismissal \<Rightarrow> ToastDismissal" where
  "pause s = disarmAll (s\<lparr>tm_paused := True\<rparr>)"

definition resume_all :: "ToastDismissal \<Rightarrow> ToastDismissal" where
  "resume_all s = fold (\<lambda>(i, ms). arm i ms) (tm_durations s) (s\<lparr>tm_paused := False\<rparr>)"

definition cancel_all :: "ToastDismissal \<Rightarrow> ToastDismissal" where
  "cancel_all s = (disarmAll (s\<lparr>tm_paused := False\<rparr>))\<lparr>tm_durations := []\<rparr>"

text \<open>The timeout's callback, run when the timeout is outstanding and due.\<close>

definition timeout_fires :: "nat \<Rightarrow> ToastDismissal \<Rightarrow> ToastDismissal" where
  "timeout_fires h s =
     (case find (\<lambda>t. to_handle t = h) (tm_timeouts s) of None \<Rightarrow> s
      | Some t \<Rightarrow>
          if to_armed t + to_delay t \<le> tm_now s
          then (clear_timeout h s)\<lparr>tm_timers := map_delete (to_toast t) (tm_timers s),
            tm_durations := map_delete (to_toast t) (tm_durations s),
            tm_dismissed := tm_dismissed s @ [(to_toast t, tm_now s)]\<rparr>
          else s)"

datatype ToastOp =
    ToastSchedule ToastId int | ToastForget ToastId | ToastPause | ToastResume | ToastCancel
  | ToastFire nat | ToastWait nat

fun toast_step :: "ToastDismissal \<Rightarrow> ToastOp \<Rightarrow> ToastDismissal" where
  "toast_step s (ToastSchedule i ms) = schedule i ms s"
| "toast_step s (ToastForget i) = forget_toast i s"
| "toast_step s ToastPause = pause s"
| "toast_step s ToastResume = resume_all s"
| "toast_step s ToastCancel = cancel_all s"
| "toast_step s (ToastFire h) = timeout_fires h s"
| "toast_step s (ToastWait d) = s\<lparr>tm_now := tm_now s + int d\<rparr>"

text \<open>Resume only ends a pause: the pointer leaves the stack after it entered it.\<close>

fun hovers :: "bool \<Rightarrow> ToastOp list \<Rightarrow> bool" where
  "hovers paused [] = True"
| "hovers paused (ToastPause # ops) = hovers True ops"
| "hovers paused (ToastResume # ops) = (paused \<and> hovers False ops)"
| "hovers paused (ToastCancel # ops) = hovers False ops"
| "hovers paused (op # ops) = hovers paused ops"

subsection \<open>Maps as multisets of entries\<close>

lemma mset_delete: "mset (map_delete k m) = filter_mset (\<lambda>e. fst e \<noteq> k) (mset m)"
  by (induction m) auto

lemma mset_update:
  "map_wf m \<Longrightarrow> mset (map_set k v m) = add_mset (k, v) (filter_mset (\<lambda>e. fst e \<noteq> k) (mset m))"
proof (induction m)
  case Nil
  then show ?case by simp
next
  case (Cons e m)
  obtain j w where e: "e = (j, w)" by (cases e)
  have "filter_mset (\<lambda>e. fst e \<noteq> j) (mset m) = mset m" if "j \<notin> fst ` set m"
    using that by (auto simp: filter_mset_eq_conv)
  with Cons e show ?case by (auto simp: map_wf_def)
qed

lemma image_mset_filter:
  "(\<And>x. P x \<longleftrightarrow> Q (f x)) \<Longrightarrow> image_mset f (filter_mset P M) = filter_mset Q (image_mset f M)"
  by (induction M) auto

subsection \<open>One timeout per running countdown\<close>

definition timer_entry :: "Timeout \<Rightarrow> ToastId \<times> nat" where
  "timer_entry t = (to_toast t, to_handle t)"

definition countdown :: "Timeout \<Rightarrow> ToastId \<times> int" where
  "countdown t = (to_toast t, to_delay t)"

definition toast_inv :: "ToastDismissal \<Rightarrow> bool" where
  "toast_inv s \<longleftrightarrow>
     mset (map timer_entry (tm_timeouts s)) = mset (tm_timers s)
     \<and> distinct (map to_handle (tm_timeouts s)) \<and> (\<forall>t \<in> set (tm_timeouts s). to_handle t < tm_next s)
     \<and> map_wf (tm_timers s) \<and> map_wf (tm_durations s)
     \<and> mset (map countdown (tm_timeouts s)) = (if tm_paused s then {#} else mset (tm_durations s))"

text \<open>
  The part of the invariant that ignores durations, and what clearing one toast's timeout does.
\<close>

definition wired :: "ToastDismissal \<Rightarrow> bool" where
  "wired s \<longleftrightarrow>
     mset (map timer_entry (tm_timeouts s)) = mset (tm_timers s)
     \<and> distinct (map to_handle (tm_timeouts s)) \<and> (\<forall>t \<in> set (tm_timeouts s). to_handle t < tm_next s)
     \<and> map_wf (tm_timers s)"

lemma toast_inv_wired:
  "toast_inv s \<longleftrightarrow> wired s \<and> map_wf (tm_durations s)
     \<and> mset (map countdown (tm_timeouts s)) = (if tm_paused s then {#} else mset (tm_durations s))"
  by (auto simp: toast_inv_def wired_def)

lemma wired_entries: "wired s \<Longrightarrow> timer_entry ` set (tm_timeouts s) = set (tm_timers s)"
  unfolding wired_def by (metis list.set_map mset_eq_setD)

lemma same_toast_same_handle:
  assumes "wired s" and "t \<in> set (tm_timeouts s)" and "u \<in> set (tm_timeouts s)"
  shows "to_toast t = to_toast u \<longleftrightarrow> to_handle t = to_handle u"
proof
  assume "to_toast t = to_toast u"
  moreover have "timer_entry t \<in> set (tm_timers s)" "timer_entry u \<in> set (tm_timers s)"
    using assms wired_entries by blast+
  ultimately show "to_handle t = to_handle u"
    using assms(1) by (auto simp: wired_def map_wf_def timer_entry_def dest: eq_key_imp_eq_value)
next
  assume "to_handle t = to_handle u"
  with assms have "t = u" by (auto simp: wired_def distinct_map inj_on_def)
  then show "to_toast t = to_toast u" by simp
qed

definition without_toast :: "ToastId \<Rightarrow> ToastDismissal \<Rightarrow> ToastDismissal" where
  "without_toast i s = s\<lparr>tm_timeouts := filter (\<lambda>t. to_toast t \<noteq> i) (tm_timeouts s),
     tm_timers := map_delete i (tm_timers s)\<rparr>"

lemma clear_timeout_toast:
  assumes "wired s" and "t \<in> set (tm_timeouts s)"
  shows "(clear_timeout (to_handle t) s)\<lparr>tm_timers := map_delete (to_toast t) (tm_timers s)\<rparr> = without_toast (to_toast t) s"
  using same_toast_same_handle [OF assms(1) _ assms(2)]
  by (simp add: clear_timeout_def without_toast_def cong: filter_cong)

lemma disarm_eq: "wired s \<Longrightarrow> disarm i s = without_toast i s"
proof (cases "map_get (tm_timers s) i")
  case None
  assume "wired s"
  with None have "to_toast t \<noteq> i" if "t \<in> set (tm_timeouts s)" for t
    using that wired_entries [of s] by (force simp: timer_entry_def map_of_eq_None_iff)
  moreover have "map_delete i (tm_timers s) = tm_timers s"
    using None by (simp add: map_of_eq_None_iff delete_idem)
  ultimately show ?thesis
    using None by (simp add: disarm_def without_toast_def filter_eq_self)
next
  case (Some h)
  assume w: "wired s"
  from Some have "(i, h) \<in> set (tm_timers s)" by (rule map_of_SomeD)
  with w obtain t where "t \<in> set (tm_timeouts s)" "to_toast t = i" "to_handle t = h"
    using wired_entries [of s] by (force simp: timer_entry_def)
  with Some clear_timeout_toast [OF w, of t] show ?thesis by (simp add: disarm_def)
qed

lemma without_wired: "wired s \<Longrightarrow> wired (without_toast i s)"
  unfolding wired_def
  by (simp add: without_toast_def mset_delete jsmap.wf_del distinct_map_filter timer_entry_def
      image_mset_filter [where P = "\<lambda>t. to_toast t \<noteq> i" and Q = "\<lambda>e. fst e \<noteq> i"])

lemma without_countdowns:
  "mset (map countdown (tm_timeouts (without_toast i s))) =
     filter_mset (\<lambda>e. fst e \<noteq> i) (mset (map countdown (tm_timeouts s)))"
  by (simp add: without_toast_def countdown_def
      image_mset_filter [where P = "\<lambda>t. to_toast t \<noteq> i" and Q = "\<lambda>e. fst e \<noteq> i"])

lemma without_keeps [simp]:
  "tm_durations (without_toast i s) = tm_durations s" "tm_paused (without_toast i s) = tm_paused s"
  by (simp_all add: without_toast_def)

text \<open>Arming a toast that has no timeout adds one.\<close>

lemma update_fresh: "k \<notin> fst ` set m \<Longrightarrow> map_set k v m = m @ [(k, v)]"
  by (induction m) auto

lemma arm_wired:
  assumes "wired s" and "i \<notin> fst ` set (tm_timers s)"
  shows "wired (arm i ms s)"
    and "mset (map countdown (tm_timeouts (arm i ms s))) = add_mset (i, ms) (mset (map countdown (tm_timeouts s)))"
  using assms by (auto simp: wired_def arm_def update_fresh map_wf_def timer_entry_def countdown_def)

lemma arm_keeps [simp]:
  "tm_durations (arm i ms s) = tm_durations s" "tm_paused (arm i ms s) = tm_paused s"
  "fst ` set (tm_timers (arm i ms s)) = insert i (fst ` set (tm_timers s))"
  by (simp_all add: arm_def dom_update)

lemma arm_all:
  assumes "wired s" and "distinct (map fst es)" and "fst ` set es \<inter> fst ` set (tm_timers s) = {}"
  shows "wired (fold (\<lambda>(i, ms). arm i ms) es s)
    \<and> mset (map countdown (tm_timeouts (fold (\<lambda>(i, ms). arm i ms) es s)))
      = mset es + mset (map countdown (tm_timeouts s))
    \<and> tm_durations (fold (\<lambda>(i, ms). arm i ms) es s) = tm_durations s
    \<and> tm_paused (fold (\<lambda>(i, ms). arm i ms) es s) = tm_paused s"
  using assms
proof (induction es arbitrary: s)
  case (Cons e es)
  obtain i ms where e: "e = (i, ms)" by (cases e)
  have "wired (arm i ms s)" and "i \<notin> fst ` set (tm_timers s)"
    using Cons.prems by (auto simp: e intro: arm_wired)
  moreover have "fst ` set es \<inter> fst ` set (tm_timers (arm i ms s)) = {}"
    using Cons.prems by (auto simp: e)
  ultimately show ?case
    using Cons.IH [of "arm i ms s"] Cons.prems arm_wired(2) [of s i ms] by (simp add: e)
qed simp

text \<open>Clearing every timer leaves no timeout.\<close>

lemma fold_clear:
  "fold clear_timeout hs s = s\<lparr>tm_timeouts := filter (\<lambda>t. to_handle t \<notin> set hs) (tm_timeouts s)\<rparr>"
  by (induction hs arbitrary: s) (auto simp: clear_timeout_def intro!: filter_cong)

lemma disarmAll_eq: "wired s \<Longrightarrow> disarmAll s = s\<lparr>tm_timeouts := [], tm_timers := []\<rparr>"
proof -
  assume "wired s"
  then have "to_handle t \<in> set (map snd (tm_timers s))" if "t \<in> set (tm_timeouts s)" for t
    using that wired_entries [of s] by (force simp: timer_entry_def)
  then show ?thesis by (simp add: disarmAll_def fold_clear filter_empty_conv)
qed

lemma toast_inv_step:
  assumes inv: "toast_inv s" and "op = ToastResume \<Longrightarrow> tm_paused s"
  shows "toast_inv (toast_step s op)"
proof -
  have w: "wired s" using inv by (simp add: toast_inv_wired)
  have fresh: "i \<notin> fst ` set (tm_timers (without_toast i s))" for i
    by (simp add: without_toast_def map_has_fst [symmetric])
  show ?thesis
  proof (cases op)
    case (ToastSchedule i ms)
    let ?s = "(without_toast i s)\<lparr>tm_durations := map_set i ms (tm_durations s)\<rparr>"
    have ws: "wired ?s" using without_wired [OF w, of i] by (simp add: wired_def)
    have fs: "i \<notin> fst ` set (tm_timers ?s)" using fresh by simp
    have "schedule i ms s = (if tm_paused s then ?s else arm i ms ?s)"
      by (simp add: schedule_def disarm_eq [OF w] Let_def)
    then show ?thesis
      using ws arm_wired [OF ws fs] inv without_countdowns [of i s]
      by (auto simp: ToastSchedule toast_inv_wired jsmap.wf_put mset_update)
  next
    case (ToastForget i)
    then show ?thesis
      using without_wired [OF w, of i] inv without_countdowns [of i s]
      by (auto simp: forget_toast_def disarm_eq [OF w] toast_inv_wired jsmap.wf_del mset_delete wired_def)
  next
    case ToastPause
    have "wired (s\<lparr>tm_paused := True\<rparr>)" using w by (simp add: wired_def)
    then show ?thesis using inv
      by (simp add: ToastPause pause_def disarmAll_eq toast_inv_wired wired_def map_wf_def)
  next
    case ToastResume
    with assms have p: "tm_paused s" by simp
    then have "tm_timeouts s = []" using inv by (simp add: toast_inv_def)
    moreover from this have "tm_timers s = []" using w by (simp add: wired_def)
    moreover have "wired (s\<lparr>tm_paused := False\<rparr>)" using w by (simp add: wired_def)
    ultimately show ?thesis
      using inv arm_all [of "s\<lparr>tm_paused := False\<rparr>" "tm_durations s"]
      by (simp add: ToastResume resume_all_def toast_inv_wired map_wf_def)
  next
    case ToastCancel
    have "wired (s\<lparr>tm_paused := False\<rparr>)" using w by (simp add: wired_def)
    then show ?thesis
      by (simp add: ToastCancel cancel_all_def disarmAll_eq toast_inv_wired wired_def map_wf_def)
  next
    case (ToastFire h)
    show ?thesis
    proof (cases "find (\<lambda>t. to_handle t = h) (tm_timeouts s)")
      case None
      with inv show ?thesis by (simp add: ToastFire timeout_fires_def)
    next
      case (Some t)
      then have t: "t \<in> set (tm_timeouts s)" "to_handle t = h"
        by (auto simp: find_Some_iff)
      let ?s = "(without_toast (to_toast t) s)\<lparr>tm_durations := map_delete (to_toast t) (tm_durations s),
          tm_dismissed := tm_dismissed s @ [(to_toast t, tm_now s)]\<rparr>"
      have "timeout_fires h s = (if to_armed t + to_delay t \<le> tm_now s then ?s else s)"
        using clear_timeout_toast [OF w t(1)] t(2)
        by (simp add: timeout_fires_def Some clear_timeout_def without_toast_def)
      moreover have "toast_inv ?s"
        using without_wired [OF w, of "to_toast t"] inv without_countdowns [of "to_toast t" s]
        by (auto simp: toast_inv_wired jsmap.wf_del mset_delete wired_def)
      ultimately show ?thesis using inv by (simp add: ToastFire)
    qed
  next
    case (ToastWait d)
    with inv show ?thesis by (simp add: toast_inv_def)
  qed
qed

fun paused_after :: "ToastOp \<Rightarrow> bool \<Rightarrow> bool" where
  "paused_after ToastPause p = True"
| "paused_after ToastResume p = False"
| "paused_after ToastCancel p = False"
| "paused_after _ p = p"

lemma paused_disarm [simp]: "tm_paused (disarm i s) = tm_paused s"
  by (simp add: disarm_def clear_timeout_def split: option.split)

lemma paused_disarmAll [simp]: "tm_paused (disarmAll s) = tm_paused s"
  by (simp add: disarmAll_def fold_clear)

lemma paused_arm_all [simp]: "tm_paused (fold (\<lambda>(i, ms). arm i ms) es s) = tm_paused s"
proof (induction es arbitrary: s)
  case (Cons e es)
  obtain i ms where "e = (i, ms)" by (cases e)
  then show ?case using Cons [of "arm i ms s"] arm_keeps(2) [of i ms s] by simp
qed simp

lemma paused_fires [simp]: "tm_paused (timeout_fires h s) = tm_paused s"
  by (simp add: timeout_fires_def clear_timeout_def split: option.split)

lemma paused_ops [simp]:
  "tm_paused (schedule i ms s) = tm_paused s" "tm_paused (forget_toast i s) = tm_paused s"
  "tm_paused (pause s)" "\<not> tm_paused (resume_all s)" "\<not> tm_paused (cancel_all s)"
  by (simp_all add: schedule_def forget_toast_def pause_def resume_all_def cancel_all_def Let_def)

lemma paused_step: "tm_paused (toast_step s op) = paused_after op (tm_paused s)"
  by (cases op) simp_all

lemma hovers_Cons: "hovers p (op # ops) \<longleftrightarrow> (op = ToastResume \<longrightarrow> p) \<and> hovers (paused_after op p) ops"
  by (cases op) simp_all

lemma hovers_run: "toast_inv s \<Longrightarrow> hovers (tm_paused s) ops \<Longrightarrow> toast_inv (foldl toast_step s ops)"
proof (induction ops arbitrary: s)
  case (Cons op ops)
  from Cons.prems have "op = ToastResume \<Longrightarrow> tm_paused s" and "hovers (tm_paused (toast_step s op)) ops"
    unfolding hovers_Cons paused_step by blast+
  with Cons.IH toast_inv_step [OF Cons.prems(1)] show ?case by simp
qed simp

lemma create_inv: "toast_inv createToastDismissal"
  by (simp add: toast_inv_def createToastDismissal_def map_wf_def)

text \<open>
  C25. While the pointer's pauses and resumes alternate, the outstanding timeouts are exactly
  the countdowns: one per toast that has a duration, with its full duration as delay, when not
  paused; none at all while paused. So no toast leaves under the pointer and none is missed.
\<close>

theorem one_timeout_per_countdown:
  assumes "hovers False ops"
  shows "let s = foldl toast_step createToastDismissal ops in
     mset (map countdown (tm_timeouts s)) = (if tm_paused s then {#} else mset (tm_durations s))
     \<and> distinct (map fst (tm_durations s))"
  using hovers_run [OF create_inv, of ops] assms
  by (simp add: createToastDismissal_def toast_inv_def map_wf_def Let_def)

theorem one_timeout_per_countdown_witness:
  "let s = foldl toast_step createToastDismissal
      [ToastSchedule (ToastNumber 1) 6000, ToastPause, ToastSchedule (ToastNumber 2) 4000, ToastWait 9000, ToastResume] in
     mset (map countdown (tm_timeouts s)) = (if tm_paused s then {#} else mset (tm_durations s))
     \<and> distinct (map fst (tm_durations s))"
  by (rule one_timeout_per_countdown) simp

text \<open>
  A resume without a pause strands a timeout: the countdown is armed twice, the first timeout is
  no longer in the timer map, and it dismisses a toast of the same id that was scheduled afresh,
  long before its duration.
\<close>

theorem resume_unpaused_strands_timeout:
  "let toast = ToastNumber 1;
       s = foldl toast_step createToastDismissal
         [ToastSchedule toast 6000, ToastResume, ToastForget toast, ToastWait 5900,
          ToastSchedule toast 6000, ToastWait 100, ToastFire 1]
   in tm_dismissed s = [(toast, 6000)] \<and> map to_armed (tm_timeouts s) = [5900]"
  by (simp add: Let_def createToastDismissal_def schedule_def disarm_def arm_def resume_all_def
      forget_toast_def clear_timeout_def timeout_fires_def)

end
