(* ===== verification/MutationQueue.thy ===== *)
theory MutationQueue
  imports Domain
begin

section \<open>The appearance mutation queue\<close>

text \<open>
  \<open>store/appearanceMutationQueue.ts\<close>: one serialization boundary for whole-document updates
  and task commands. The n-th call of \<open>update\<close> or \<open>task\<close> has ticket n, which names its
  promise and, for a task, its command. The value type is the document's; \<open>mq_current\<close> is
  what \<open>current\<close> returns, changed by \<open>adopt\<close> only. A step is a call of the queue, or the
  settling of the promise the drain awaits; between those the code runs to completion.
\<close>

datatype AppearanceMutationTarget = GlassOpacity

datatype 'a PendingMutation =
    PendingUpdate (projections: "('a \<Rightarrow> 'a) list") (waiters: "nat list")
  | PendingTask (target: "AppearanceMutationTarget option") (command: nat) (waiters: "nat list")

datatype 'a Settled = ResolvedVoid | ResolvedWith 'a | Rejected jstring

datatype 'a Started = StartedCommand nat | StartedWrite 'a

datatype 'a DrainPhase =
    NotDraining
  | AwaitingMutation "'a PendingMutation"
  | AwaitingRead "'a PendingMutation" jstring

record 'a MutationQueue =
  mq_pending :: "'a PendingMutation list"
  mq_running :: bool
  mq_phase :: "'a DrainPhase"
  mq_current :: 'a
  mq_issued :: nat
  mq_settled :: "(nat \<times> 'a Settled) list"
  mq_started :: "'a Started list"

definition createAppearanceMutationQueue :: "'a \<Rightarrow> 'a MutationQueue" where
  "createAppearanceMutationQueue v = \<lparr>mq_pending = [], mq_running = False, mq_phase = NotDraining,
     mq_current = v, mq_issued = 0, mq_settled = [], mq_started = []\<rparr>"

definition begin_mutation :: "'a PendingMutation \<Rightarrow> 'a \<Rightarrow> 'a Started" where
  "begin_mutation m v = (case m of
     PendingTask _ c _ \<Rightarrow> StartedCommand c
   | PendingUpdate ps _ \<Rightarrow> StartedWrite (foldl (\<lambda>value project. project value) v ps))"

text \<open>The head of the loop: shift the next mutation and start it, or stop draining.\<close>

definition drain_loop :: "'a MutationQueue \<Rightarrow> 'a MutationQueue" where
  "drain_loop q = (case mq_pending q of
     [] \<Rightarrow> q\<lparr>mq_running := False, mq_phase := NotDraining\<rparr>
   | m # ms \<Rightarrow> q\<lparr>mq_pending := ms, mq_phase := AwaitingMutation m,
       mq_started := mq_started q @ [begin_mutation m (mq_current q)]\<rparr>)"

definition drain :: "'a MutationQueue \<Rightarrow> 'a MutationQueue" where
  "drain q = (if mq_running q then q else drain_loop (q\<lparr>mq_running := True\<rparr>))"

fun push_update :: "('a \<Rightarrow> 'a) \<Rightarrow> nat \<Rightarrow> 'a PendingMutation list \<Rightarrow> 'a PendingMutation list" where
  "push_update project ticket [] = [PendingUpdate [project] [ticket]]"
| "push_update project ticket [PendingUpdate ps ws] = [PendingUpdate (ps @ [project]) (ws @ [ticket])]"
| "push_update project ticket [PendingTask t c ws] = [PendingTask t c ws, PendingUpdate [project] [ticket]]"
| "push_update project ticket (m # n # ms) = m # push_update project ticket (n # ms)"

fun push_task ::
  "AppearanceMutationTarget option \<Rightarrow> nat \<Rightarrow> 'a PendingMutation list \<Rightarrow> 'a PendingMutation list" where
  "push_task tgt ticket [] = [PendingTask tgt ticket [ticket]]"
| "push_task tgt ticket [PendingUpdate ps ws] = [PendingUpdate ps ws, PendingTask tgt ticket [ticket]]"
| "push_task tgt ticket [PendingTask t c ws] =
     (if tgt \<noteq> None \<and> t = tgt then [PendingTask t ticket (ws @ [ticket])]
      else [PendingTask t c ws, PendingTask tgt ticket [ticket]])"
| "push_task tgt ticket (m # n # ms) = m # push_task tgt ticket (n # ms)"

definition update :: "('a \<Rightarrow> 'a) \<Rightarrow> 'a MutationQueue \<Rightarrow> 'a MutationQueue" where
  "update project q = drain (q\<lparr>mq_current := project (mq_current q),
     mq_pending := push_update project (mq_issued q) (mq_pending q), mq_issued := mq_issued q + 1\<rparr>)"

definition task :: "AppearanceMutationTarget option \<Rightarrow> 'a MutationQueue \<Rightarrow> 'a MutationQueue" where
  "task tgt q = drain (q\<lparr>mq_pending := push_task tgt (mq_issued q) (mq_pending q),
     mq_issued := mq_issued q + 1\<rparr>)"

definition settle_all :: "'a PendingMutation \<Rightarrow> 'a Settled \<Rightarrow> 'a MutationQueue \<Rightarrow> 'a MutationQueue" where
  "settle_all m result q = q\<lparr>mq_settled := mq_settled q @ map (\<lambda>w. (w, result)) (waiters m)\<rparr>"

text \<open>The awaited command or write resolves with the stored document, or rejects.\<close>

definition mutation_resolves :: "'a \<Rightarrow> 'a MutationQueue \<Rightarrow> 'a MutationQueue" where
  "mutation_resolves stored q = (case mq_phase q of
     AwaitingMutation m \<Rightarrow> drain_loop (settle_all m
       (case m of PendingTask _ _ _ \<Rightarrow> ResolvedWith stored | PendingUpdate _ _ \<Rightarrow> ResolvedVoid)
       (q\<lparr>mq_current := stored\<rparr>))
   | _ \<Rightarrow> q)"

definition mutation_rejects :: "jstring \<Rightarrow> 'a MutationQueue \<Rightarrow> 'a MutationQueue" where
  "mutation_rejects error q = (case mq_phase q of
     AwaitingMutation m \<Rightarrow> q\<lparr>mq_phase := AwaitingRead m error\<rparr> | _ \<Rightarrow> q)"

text \<open>The reconciling read: its value is adopted, its own failure swallowed.\<close>

definition read_settles :: "'a option \<Rightarrow> 'a MutationQueue \<Rightarrow> 'a MutationQueue" where
  "read_settles result q = (case mq_phase q of
     AwaitingRead m error \<Rightarrow> drain_loop (settle_all m (Rejected error)
       (case result of None \<Rightarrow> q | Some v \<Rightarrow> q\<lparr>mq_current := v\<rparr>))
   | _ \<Rightarrow> q)"

datatype 'a QueueOp =
    CallUpdate "'a \<Rightarrow> 'a" | CallTask "AppearanceMutationTarget option"
  | MutationResolves 'a | MutationRejects jstring | ReadSettles "'a option"

fun queue_step :: "'a MutationQueue \<Rightarrow> 'a QueueOp \<Rightarrow> 'a MutationQueue" where
  "queue_step q (CallUpdate project) = update project q"
| "queue_step q (CallTask tgt) = task tgt q"
| "queue_step q (MutationResolves v) = mutation_resolves v q"
| "queue_step q (MutationRejects e) = mutation_rejects e q"
| "queue_step q (ReadSettles r) = read_settles r q"

abbreviation queue_run :: "'a \<Rightarrow> 'a QueueOp list \<Rightarrow> 'a MutationQueue" where
  "queue_run v ops \<equiv> foldl queue_step (createAppearanceMutationQueue v) ops"

subsection \<open>Every call is answered once, in order\<close>

definition in_flight :: "'a DrainPhase \<Rightarrow> nat list" where
  "in_flight p = (case p of NotDraining \<Rightarrow> [] | AwaitingMutation m \<Rightarrow> waiters m | AwaitingRead m _ \<Rightarrow> waiters m)"

definition waiting :: "'a PendingMutation list \<Rightarrow> nat list" where
  "waiting ms = concat (map waiters ms)"

definition tickets :: "'a MutationQueue \<Rightarrow> nat list" where
  "tickets q = map fst (mq_settled q) @ in_flight (mq_phase q) @ waiting (mq_pending q)"

lemma waiting_push [simp]:
  "waiting (push_update project ticket ms) = waiting ms @ [ticket]"
  "waiting (push_task tgt ticket ms) = waiting ms @ [ticket]"
proof -
  show "waiting (push_update project ticket ms) = waiting ms @ [ticket]"
    by (induction project ticket ms rule: push_update.induct) (simp_all add: waiting_def)
  show "waiting (push_task tgt ticket ms) = waiting ms @ [ticket]"
    by (induction tgt ticket ms rule: push_task.induct) (simp_all add: waiting_def)
qed

text \<open>A task's promise resolves with a value only a command of its own or a later call made.\<close>

definition mutation_ok :: "nat \<Rightarrow> 'a PendingMutation \<Rightarrow> bool" where
  "mutation_ok n m \<longleftrightarrow> waiters m \<noteq> []
     \<and> (case m of PendingTask _ c ws \<Rightarrow> c = last ws \<and> c < n | PendingUpdate ps ws \<Rightarrow> length ps = length ws)"

definition queue_inv :: "'a MutationQueue \<Rightarrow> bool" where
  "queue_inv q \<longleftrightarrow> tickets q = [0..<mq_issued q]
     \<and> (mq_running q \<longleftrightarrow> mq_phase q \<noteq> NotDraining)
     \<and> (\<not> mq_running q \<longrightarrow> mq_pending q = [])
     \<and> list_all (mutation_ok (mq_issued q)) (mq_pending q)"

lemma mutation_ok_mono: "mutation_ok n m \<Longrightarrow> n \<le> k \<Longrightarrow> mutation_ok k m"
  by (auto simp: mutation_ok_def split: PendingMutation.splits)

lemma list_all_ok_mono: "list_all (mutation_ok n) ms \<Longrightarrow> n \<le> k \<Longrightarrow> list_all (mutation_ok k) ms"
  using mutation_ok_mono by (auto simp: list_all_iff)

lemma push_ok:
  "list_all (mutation_ok n) ms \<Longrightarrow> list_all (mutation_ok (Suc n)) (push_update project n ms)"
  "list_all (mutation_ok n) ms \<Longrightarrow> list_all (mutation_ok (Suc n)) (push_task tgt n ms)"
proof -
  show "list_all (mutation_ok n) ms \<Longrightarrow> list_all (mutation_ok (Suc n)) (push_update project n ms)"
    by (induction project n ms rule: push_update.induct) (auto simp: mutation_ok_def split: PendingMutation.splits)
  show "list_all (mutation_ok n) ms \<Longrightarrow> list_all (mutation_ok (Suc n)) (push_task tgt n ms)"
    by (induction tgt n ms rule: push_task.induct) (auto simp: mutation_ok_def split: PendingMutation.splits)
qed

lemma drain_loop_inv:
  assumes "map fst (mq_settled q) @ waiting (mq_pending q) = [0..<mq_issued q]"
    and "mq_running q" and "list_all (mutation_ok (mq_issued q)) (mq_pending q)"
  shows "queue_inv (drain_loop q)"
  using assms
  by (cases "mq_pending q") (simp_all add: drain_loop_def queue_inv_def tickets_def in_flight_def waiting_def)

lemma drain_inv:
  assumes "tickets q = [0..<mq_issued q]" and "mq_running q \<longleftrightarrow> mq_phase q \<noteq> NotDraining"
    and "list_all (mutation_ok (mq_issued q)) (mq_pending q)"
  shows "queue_inv (drain q)"
proof (cases "mq_running q")
  case True
  with assms show ?thesis by (simp add: drain_def queue_inv_def)
next
  case False
  with assms show ?thesis
    unfolding drain_def by (auto intro!: drain_loop_inv simp: tickets_def in_flight_def)
qed

lemma settle_inv:
  assumes "queue_inv q" and "in_flight (mq_phase q) = waiters m" and "mq_running q"
  shows "queue_inv (drain_loop (settle_all m r (q\<lparr>mq_current := c\<rparr>)))"
  using assms by (intro drain_loop_inv) (simp_all add: settle_all_def comp_def queue_inv_def tickets_def)

lemma resolves_inv: "queue_inv q \<Longrightarrow> queue_inv (mutation_resolves v q)"
proof (cases "mq_phase q")
  case (AwaitingMutation m)
  assume "queue_inv q"
  with AwaitingMutation show ?thesis
    using settle_inv [of q m] by (simp add: mutation_resolves_def in_flight_def queue_inv_def)
qed (simp_all add: mutation_resolves_def)

lemma reads_inv: "queue_inv q \<Longrightarrow> queue_inv (read_settles r q)"
proof (cases "mq_phase q")
  case (AwaitingRead m e)
  assume inv: "queue_inv q"
  with AwaitingRead have "queue_inv (drain_loop (settle_all m (Rejected e) (q\<lparr>mq_current := c\<rparr>)))" for c
    by (intro settle_inv) (simp_all add: in_flight_def queue_inv_def)
  from this [of "mq_current q"] this [of "the r"] show ?thesis
    by (cases r) (simp_all add: read_settles_def AwaitingRead)
qed (simp_all add: read_settles_def)

interpretation queue: machine "createAppearanceMutationQueue v" queue_step queue_inv for v
proof
  show "queue_inv (createAppearanceMutationQueue v)"
    by (simp add: queue_inv_def createAppearanceMutationQueue_def tickets_def in_flight_def waiting_def)
next
  fix q op
  assume inv: "queue_inv q"
  show "queue_inv (queue_step q op)"
  proof (cases op)
    case (CallUpdate project)
    from inv show ?thesis
      unfolding CallUpdate queue_step.simps update_def
      by (intro drain_inv) (simp_all add: queue_inv_def tickets_def push_ok)
  next
    case (CallTask tgt)
    from inv show ?thesis
      unfolding CallTask queue_step.simps task_def
      by (intro drain_inv) (simp_all add: queue_inv_def tickets_def push_ok)
  next
    case (MutationResolves v)
    with inv show ?thesis by (simp add: resolves_inv)
  next
    case (MutationRejects e)
    with inv show ?thesis
      by (auto simp: mutation_rejects_def queue_inv_def tickets_def in_flight_def split: DrainPhase.split)
  next
    case (ReadSettles r)
    with inv show ?thesis by (simp add: reads_inv)
  qed
qed

text \<open>
  C5. Every call is answered once, in call order: the answered tickets, then the one in
  flight's, then the queued ones', are all the tickets issued, in order; and when the queue is
  at rest every call has been answered.
\<close>

theorem calls_answered_in_order:
  "let q = queue_run v ops in
     map fst (mq_settled q) @ in_flight (mq_phase q) @ waiting (mq_pending q) = [0..<mq_issued q]
     \<and> (mq_running q \<or> map fst (mq_settled q) = [0..<mq_issued q])"
  using queue.inv_run [of v ops]
  by (auto simp: queue_inv_def tickets_def in_flight_def waiting_def Let_def)

subsection \<open>The drain ends\<close>

text \<open>One answer of the backend: the promise the drain awaits resolves, or rejects.\<close>

definition answer :: "'a MutationQueue \<Rightarrow> jstring + 'a \<Rightarrow> 'a MutationQueue" where
  "answer q a = (case mq_phase q of
     NotDraining \<Rightarrow> q
   | AwaitingMutation m \<Rightarrow> (case a of Inl e \<Rightarrow> mutation_rejects e q | Inr v \<Rightarrow> mutation_resolves v q)
   | AwaitingRead m e \<Rightarrow> (case a of Inl _ \<Rightarrow> read_settles None q | Inr v \<Rightarrow> read_settles (Some v) q))"

definition work :: "'a MutationQueue \<Rightarrow> nat" where
  "work q = 2 * length (mq_pending q)
     + (case mq_phase q of NotDraining \<Rightarrow> 0 | AwaitingRead _ _ \<Rightarrow> 1 | AwaitingMutation _ \<Rightarrow> 2)"

lemma drain_loop_work: "work (drain_loop q) = 2 * length (mq_pending q)"
  by (cases "mq_pending q") (simp_all add: work_def drain_loop_def)

lemma settle_all_pending [simp]: "mq_pending (settle_all m r q) = mq_pending q"
  by (simp add: settle_all_def)

lemma answer_work: "mq_phase q \<noteq> NotDraining \<Longrightarrow> work (answer q a) < work q"
  by (auto simp: answer_def mutation_resolves_def mutation_rejects_def read_settles_def drain_loop_work
      work_def [of q] split: DrainPhase.split sum.split option.split) (simp_all add: work_def)

lemma answer_rest: "mq_phase q = NotDraining \<Longrightarrow> answer q a = q"
  by (simp add: answer_def)

lemma answer_is_step: "\<exists>ops. answer q a = foldl queue_step q ops"
proof -
  have "answer q a \<in> {q} \<union> range (queue_step q)"
  proof (cases "mq_phase q")
    case (AwaitingMutation m)
    then show ?thesis
      by (cases a) (simp_all add: answer_def, metis queue_step.simps(4) rangeI, metis queue_step.simps(3) rangeI)
  next
    case (AwaitingRead m e)
    then have "answer q a \<in> range (\<lambda>r. queue_step q (ReadSettles r))"
      by (cases a) (simp_all add: answer_def)
    then show ?thesis by (auto simp del: queue_step.simps)
  qed (simp add: answer_def)
  then consider "answer q a = foldl queue_step q []" | op where "answer q a = foldl queue_step q [op]"
    by auto
  then show ?thesis by cases blast+
qed

lemma answers_are_steps: "\<exists>ops. foldl answer q as = foldl queue_step q ops"
proof (induction as arbitrary: q)
  case Nil
  show ?case by (metis foldl_Nil)
next
  case (Cons a as)
  obtain xs where "answer q a = foldl queue_step q xs" using answer_is_step by blast
  moreover obtain ys where "foldl answer (answer q a) as = foldl queue_step (answer q a) ys"
    using Cons.IH by blast
  ultimately have "foldl answer q (a # as) = foldl queue_step q (xs @ ys)" by simp
  then show ?case by blast
qed

lemma answers_drain: "work q \<le> length as \<Longrightarrow> mq_phase (foldl answer q as) = NotDraining"
proof (induction as arbitrary: q)
  case Nil
  then show ?case by (cases "mq_phase q") (simp_all add: work_def)
next
  case (Cons a as)
  show ?case
  proof (cases "mq_phase q = NotDraining")
    case True
    have "foldl answer q bs = q" for bs by (induction bs) (simp_all add: answer_rest True)
    then show ?thesis using True by (metis)
  next
    case False
    with Cons answer_work [OF False, of a] show ?thesis by simp
  qed
qed

lemma answers_issued: "mq_issued (foldl answer q as) = mq_issued q"
proof (induction as arbitrary: q)
  case (Cons a as)
  have "mq_issued (answer q a) = mq_issued q"
    by (simp add: answer_def mutation_rejects_def mutation_resolves_def read_settles_def drain_loop_def
        settle_all_def split: DrainPhase.split sum.split list.split option.split)
  with Cons show ?case by simp
qed simp

text \<open>
  C23. The drain ends whatever the backend answers: two answers per queued mutation, and two for
  the one in flight, resolve or reject every call made so far.
\<close>

theorem queue_drains:
  assumes "2 * length (mq_pending (queue_run v ops)) + 2 \<le> length as"
  shows "\<not> mq_running (foldl answer (queue_run v ops) as)
    \<and> map fst (mq_settled (foldl answer (queue_run v ops) as)) = [0..<mq_issued (queue_run v ops)]"
proof -
  let ?q = "foldl answer (queue_run v ops) as"
  obtain more where "?q = foldl queue_step (queue_run v ops) more"
    using answers_are_steps by blast
  then have inv: "queue_inv ?q" using queue.inv_run [of v "ops @ more"] by simp
  have "work (queue_run v ops) \<le> length as"
    using assms by (simp add: work_def split: DrainPhase.split)
  then have "mq_phase ?q = NotDraining" by (rule answers_drain)
  with inv answers_issued [of "queue_run v ops" as] show ?thesis
    by (auto simp: queue_inv_def tickets_def in_flight_def waiting_def)
qed

theorem queue_drains_witness:
  "let q = queue_run (5 :: int) [CallTask None, CallUpdate (\<lambda>x. x + 1), CallTask (Some GlassOpacity)];
       q' = foldl answer q [Inr 7, Inl [1], Inl [2], Inr 9, Inl [3], Inr 1]
   in \<not> mq_running q' \<and> map fst (mq_settled q') = [0..<mq_issued q]"
proof -
  let ?ops = "[CallTask None, CallUpdate (\<lambda>x. x + 1), CallTask (Some GlassOpacity)]"
  have "mq_pending (queue_run (5 :: int) ?ops) =
      [PendingUpdate [\<lambda>x. x + 1] [1], PendingTask (Some GlassOpacity) 2 [2]]"
    by (simp add: createAppearanceMutationQueue_def task_def update_def drain_def drain_loop_def numeral_2_eq_2)
  then show ?thesis
    unfolding Let_def by (intro queue_drains) simp
qed

subsection \<open>Coalescing\<close>

lemma updates_coalesce:
  "mq_phase q = AwaitingMutation m \<Longrightarrow> mq_running q \<Longrightarrow> mq_pending q = [PendingUpdate ps ws] \<Longrightarrow>
   \<exists>ws'. mq_pending (foldl queue_step q (map CallUpdate qs)) = [PendingUpdate (ps @ qs) ws']
     \<and> mq_phase (foldl queue_step q (map CallUpdate qs)) = AwaitingMutation m
     \<and> mq_started (foldl queue_step q (map CallUpdate qs)) = mq_started q"
proof (induction qs arbitrary: q ps ws)
  case (Cons p qs)
  let ?q = "queue_step q (CallUpdate p)"
  have "mq_phase ?q = AwaitingMutation m" "mq_running ?q" "mq_started ?q = mq_started q"
    "mq_pending ?q = [PendingUpdate (ps @ [p]) (ws @ [mq_issued q])]"
    using Cons.prems by (simp_all add: update_def drain_def)
  with Cons.IH [of ?q "ps @ [p]" "ws @ [mq_issued q]"] show ?case by simp
qed simp

text \<open>
  Updates made behind a command in flight coalesce into one write, and every projection is
  rebased, in order, onto the document the command stored.
\<close>

theorem updates_coalesce_and_rebase:
  "mq_started (mutation_resolves stored (queue_run v (CallTask tgt # map CallUpdate (p # ps)))) =
     [StartedCommand 0, StartedWrite (foldl (\<lambda>value project. project value) stored (p # ps))]"
proof -
  let ?q = "queue_run v [CallTask tgt, CallUpdate p]"
  have q: "mq_phase ?q = AwaitingMutation (PendingTask tgt 0 [0])" "mq_running ?q"
    "mq_pending ?q = [PendingUpdate [p] [1]]" "mq_started ?q = [StartedCommand 0]"
    by (simp_all add: createAppearanceMutationQueue_def task_def update_def drain_def drain_loop_def begin_mutation_def)
  from updates_coalesce [OF q(1-3), of ps] obtain ws' where
    "mq_pending (foldl queue_step ?q (map CallUpdate ps)) = [PendingUpdate (p # ps) ws']"
    "mq_phase (foldl queue_step ?q (map CallUpdate ps)) = AwaitingMutation (PendingTask tgt 0 [0])"
    "mq_started (foldl queue_step ?q (map CallUpdate ps)) = [StartedCommand 0]"
    using q(4) by auto
  then show ?thesis
    by (simp add: mutation_resolves_def settle_all_def drain_loop_def begin_mutation_def)
qed

lemma tasks_coalesce:
  "mq_phase q = AwaitingMutation m \<Longrightarrow> mq_running q \<Longrightarrow> mq_pending q = [PendingTask (Some tgt) c ws] \<Longrightarrow>
   mq_pending (foldl queue_step q (replicate n (CallTask (Some tgt)))) =
       [PendingTask (Some tgt) (if n = 0 then c else mq_issued q + n - 1) (ws @ [mq_issued q..<mq_issued q + n])]
     \<and> mq_phase (foldl queue_step q (replicate n (CallTask (Some tgt)))) = AwaitingMutation m
     \<and> mq_started (foldl queue_step q (replicate n (CallTask (Some tgt)))) = mq_started q"
proof (induction n arbitrary: q c ws)
  case (Suc n)
  let ?q = "queue_step q (CallTask (Some tgt))"
  have "mq_phase ?q = AwaitingMutation m" "mq_running ?q" "mq_started ?q = mq_started q"
    "mq_pending ?q = [PendingTask (Some tgt) (mq_issued q) (ws @ [mq_issued q])]" "mq_issued ?q = Suc (mq_issued q)"
    using Suc.prems by (simp_all add: task_def drain_def)
  with Suc.IH [of ?q "mq_issued q" "ws @ [mq_issued q]"] show ?case
    by (simp add: upt_conv_Cons)
qed simp

text \<open>
  A burst of tasks for one target behind a command in flight costs one more command, the last
  one's, and answers every caller of the burst with what it stored.
\<close>

theorem burst_costs_one_command:
  "let q = mutation_resolves w (mutation_resolves v (queue_run u (replicate (n + 2) (CallTask (Some tgt)))))
   in mq_started q = [StartedCommand 0, StartedCommand (n + 1)]
      \<and> mq_settled q = (0, ResolvedWith v) # map (\<lambda>ticket. (ticket, ResolvedWith w)) [1..<n + 2]"
proof -
  let ?q = "queue_run u [CallTask (Some tgt), CallTask (Some tgt)]"
  have q: "mq_phase ?q = AwaitingMutation (PendingTask (Some tgt) 0 [0])" "mq_running ?q"
    "mq_pending ?q = [PendingTask (Some tgt) 1 [1]]" "mq_started ?q = [StartedCommand 0]" "mq_issued ?q = 2"
    by (simp_all add: createAppearanceMutationQueue_def task_def drain_def drain_loop_def begin_mutation_def)
  have split: "queue_run u (replicate (n + 2) (CallTask (Some tgt))) =
      foldl queue_step ?q (replicate n (CallTask (Some tgt)))"
    by (simp add: numeral_2_eq_2)
  let ?r = "queue_run u (replicate (n + 2) (CallTask (Some tgt)))"
  have r: "mq_pending ?r = [PendingTask (Some tgt) (n + 1) [1..<n + 2]]"
    "mq_phase ?r = AwaitingMutation (PendingTask (Some tgt) 0 [0])" "mq_started ?r = [StartedCommand 0]"
    unfolding split using tasks_coalesce [OF q(1-3), of n] q(4,5)
    by (auto simp: upt_conv_Cons numeral_2_eq_2)
  have "map fst (mq_settled ?r) @ [0] @ [1..<n + 2] = [0..<mq_issued ?r]"
    using queue.inv_run [of u "replicate (n + 2) (CallTask (Some tgt))"] r(1,2)
    unfolding queue_inv_def tickets_def by (simp add: in_flight_def waiting_def)
  moreover have "map fst (mq_settled ?r) = []" if "map fst (mq_settled ?r) @ [0] @ xs = [0..<k]" for xs k
  proof (rule ccontr)
    assume "map fst (mq_settled ?r) \<noteq> []"
    then obtain x ys where x: "map fst (mq_settled ?r) = x # ys" by (cases "map fst (mq_settled ?r)") auto
    with that have "x # ys @ [0] @ xs = [0..<k]" by simp
    moreover from this have "x = 0"
      by (cases k) (auto simp: upt_conv_Cons simp del: upt_Suc)
    ultimately have "distinct (0 # ys @ [0] @ xs)" by (metis distinct_upt)
    then show False by simp
  qed
  ultimately have "mq_settled ?r = []" by blast
  with r show ?thesis
    by (simp add: Let_def mutation_resolves_def settle_all_def drain_loop_def begin_mutation_def)
qed

end
