(* ===== verification/TrustReview.thy ===== *)
theory TrustReview
  imports Domain
begin

section \<open>Trust reviews and trust requests\<close>

text \<open>
  \<open>store/useTrust.ts\<close> (the review dialog of commands a changed \<open>solo.yml\<close> wants to run) and
  \<open>store/useTrustRequests.ts\<close> (the queue of requests only the user can answer). A call of the
  core is in flight under a number until it settles; \<open>tu_grants\<close> is every \<open>configTrust\<close> call
  made so far. A callback sees the review of the last render, taken to be the current one.
\<close>

record TrustReview =
  tw_project :: int
  tw_diff :: "ConfigSync option"
  tw_commands :: "TrustReviewCommand list"

datatype TrustCall =
    ReadReview int jstring \<comment> \<open>project, name\<close>
  | GrantOne int jstring jstring \<comment> \<open>project, name, hash\<close>
  | GrantAll TrustReview

record TrustStore =
  tu_review :: "TrustReview option"
  tu_calls :: "(nat \<times> TrustCall) list"
  tu_next :: nat
  tu_grants :: "(int \<times> jstring \<times> jstring) list"
  tu_refreshes :: nat
  tu_errors :: "jstring list"

definition trust_init :: TrustStore where
  "trust_init = \<lparr>tu_review = None, tu_calls = [], tu_next = 0, tu_grants = [], tu_refreshes = 0, tu_errors = []\<rparr>"

definition reportError :: "jstring \<Rightarrow> TrustStore \<Rightarrow> TrustStore" where
  "reportError e s = s\<lparr>tu_errors := tu_errors s @ [e]\<rparr>"

definition start_call :: "TrustCall \<Rightarrow> TrustStore \<Rightarrow> TrustStore" where
  "start_call c s = s\<lparr>tu_calls := tu_calls s @ [(tu_next s, c)], tu_next := tu_next s + 1\<rparr>"

definition end_call :: "nat \<Rightarrow> TrustStore \<Rightarrow> TrustStore" where
  "end_call k s = s\<lparr>tu_calls := map_delete k (tu_calls s)\<rparr>"

definition on_config_event :: "DomainEvent \<Rightarrow> TrustStore \<Rightarrow> TrustStore" where
  "on_config_event event s = (case event of
     EvConfigChanged project diff requires_trust commands \<Rightarrow>
       if requires_trust then s\<lparr>tu_review := Some \<lparr>tw_project = project, tw_diff = Some diff, tw_commands = commands\<rparr>\<rparr>
       else s
   | _ \<Rightarrow> s)"

definition requestReview :: "int \<Rightarrow> jstring \<Rightarrow> TrustStore \<Rightarrow> TrustStore" where
  "requestReview project name s = start_call (ReadReview project name) s"

definition trust :: "int \<Rightarrow> jstring \<Rightarrow> TrustStore \<Rightarrow> TrustStore" where
  "trust project name s =
     (case Option.bind (tu_review s) (\<lambda>review. find (\<lambda>command. rc_name command = name) (tw_commands review)) of
        None \<Rightarrow> reportError (name @ lit '' is no longer in the open trust review'') s
      | Some reviewed \<Rightarrow>
          (start_call (GrantOne project name (rc_variant_hash reviewed)) s)
            \<lparr>tu_grants := tu_grants s @ [(project, name, rc_variant_hash reviewed)]\<rparr>)"

definition trustAll :: "TrustStore \<Rightarrow> TrustStore" where
  "trustAll s = (case tu_review s of None \<Rightarrow> s
     | Some review \<Rightarrow> (start_call (GrantAll review) s)
         \<lparr>tu_grants := tu_grants s @
            map (\<lambda>command. (tw_project review, rc_name command, rc_variant_hash command)) (tw_commands review)\<rparr>)"

definition dismiss :: "TrustStore \<Rightarrow> TrustStore" where
  "dismiss s = s\<lparr>tu_review := None\<rparr>"

text \<open>The functional updates a settled grant makes to the review then open.\<close>

definition drop_commands :: "(TrustReviewCommand \<Rightarrow> bool) \<Rightarrow> TrustReview \<Rightarrow> TrustReview option" where
  "drop_commands keep prev =
     (let commands = filter keep (tw_commands prev)
      in if length commands > 0 then Some (prev\<lparr>tw_commands := commands\<rparr>) else None)"

definition after_trust :: "jstring \<Rightarrow> jstring \<Rightarrow> TrustReview option \<Rightarrow> TrustReview option" where
  "after_trust name hash prev = (case prev of None \<Rightarrow> None
     | Some prev \<Rightarrow> drop_commands (\<lambda>command. rc_name command \<noteq> name \<or> rc_variant_hash command \<noteq> hash) prev)"

definition grant_key :: "TrustReviewCommand \<Rightarrow> jstring" where
  "grant_key command = rc_name command @ [0] @ rc_variant_hash command"

definition after_trust_all :: "TrustReview \<Rightarrow> TrustReview option \<Rightarrow> TrustReview option" where
  "after_trust_all review prev = (case prev of None \<Rightarrow> None
     | Some prev' \<Rightarrow>
         if tw_project prev' \<noteq> tw_project review then prev
         else drop_commands (\<lambda>command. grant_key command \<notin> grant_key ` set (tw_commands review)) prev')"

text \<open>
  A call settles: a read with the command or its absence, a grant (all grants of a batch) with
  success, any of them with a failure.
\<close>

datatype TrustAnswer = ReadCommand "TrustReviewCommand option" | GrantOk | CallFailed jstring

definition call_settles :: "nat \<Rightarrow> TrustAnswer \<Rightarrow> TrustStore \<Rightarrow> TrustStore" where
  "call_settles k a s = (case map_get (tu_calls s) k of
     None \<Rightarrow> s
   | Some c \<Rightarrow> (case (c, a) of
       (_, CallFailed e) \<Rightarrow> reportError e (end_call k s)
     | (ReadReview project name, ReadCommand None) \<Rightarrow>
         reportError (name @ lit '' is no longer in this project'' @ [8217] @ lit ''s solo.yml'') (end_call k s)
     | (ReadReview project name, ReadCommand (Some command)) \<Rightarrow>
         (end_call k s)\<lparr>tu_review := Some \<lparr>tw_project = project, tw_diff = None, tw_commands = [command]\<rparr>\<rparr>
     | (GrantOne project name hash, GrantOk) \<Rightarrow>
         (end_call k s)\<lparr>tu_refreshes := tu_refreshes s + 1, tu_review := after_trust name hash (tu_review s)\<rparr>
     | (GrantAll review, GrantOk) \<Rightarrow>
         (end_call k s)\<lparr>tu_refreshes := tu_refreshes s + 1, tu_review := after_trust_all review (tu_review s)\<rparr>
     | _ \<Rightarrow> s))"

datatype TrustOp =
    TrustEvent DomainEvent | TrustRequestReview int jstring | TrustGrant int jstring | TrustGrantAll
  | TrustDismiss | TrustSettles nat TrustAnswer

fun trust_step :: "TrustStore \<Rightarrow> TrustOp \<Rightarrow> TrustStore" where
  "trust_step s (TrustEvent e) = on_config_event e s"
| "trust_step s (TrustRequestReview p n) = requestReview p n s"
| "trust_step s (TrustGrant p n) = trust p n s"
| "trust_step s TrustGrantAll = trustAll s"
| "trust_step s TrustDismiss = dismiss s"
| "trust_step s (TrustSettles k a) = call_settles k a s"

abbreviation trust_run :: "TrustOp list \<Rightarrow> TrustStore" where
  "trust_run ops \<equiv> foldl trust_step trust_init ops"

subsection \<open>Only what was shown is granted\<close>

definition displays :: "TrustStore \<Rightarrow> jstring \<Rightarrow> jstring \<Rightarrow> bool" where
  "displays s name hash \<longleftrightarrow> (case tu_review s of None \<Rightarrow> False
     | Some review \<Rightarrow> \<exists>command \<in> set (tw_commands review). rc_name command = name \<and> rc_variant_hash command = hash)"

lemma step_grants:
  "\<exists>new. tu_grants (trust_step s op) = tu_grants s @ new \<and> (\<forall>(p, n, h) \<in> set new. displays s n h)"
proof (cases op)
  case (TrustGrant p n)
  show ?thesis
  proof (cases "Option.bind (tu_review s) (\<lambda>review. find (\<lambda>command. rc_name command = n) (tw_commands review))")
    case None
    then show ?thesis by (simp add: TrustGrant trust_def reportError_def)
  next
    case (Some c)
    then have "displays s n (rc_variant_hash c)"
      by (auto simp: displays_def find_Some_iff bind_eq_Some_conv) (metis nth_mem)
    with Some show ?thesis by (simp add: TrustGrant trust_def start_call_def)
  qed
next
  case TrustGrantAll
  then show ?thesis
    by (auto simp: trustAll_def start_call_def displays_def split: option.split)
next
  case (TrustEvent e)
  then show ?thesis by (simp add: on_config_event_def split: DomainEvent.split)
next
  case (TrustSettles k a)
  then show ?thesis
    by (simp add: call_settles_def end_call_def reportError_def
        split: option.split TrustCall.split TrustAnswer.split)
qed (simp_all add: requestReview_def start_call_def dismiss_def)


definition sample_command :: TrustReviewCommand where
  "sample_command = \<lparr>rc_name = [119], rc_variant_hash = [97], rc_command = [120], rc_working_dir = None, rc_env = []\<rparr>"

definition raise_review :: "int \<Rightarrow> TrustOp" where
  "raise_review project = TrustEvent (EvConfigChanged project
     \<lparr>cs_added = [], cs_updated = [], cs_removed = [], cs_renamed = []\<rparr> True [sample_command])"


subsection \<open>A command leaves the review only by a grant\<close>

definition replaces :: "TrustStore \<Rightarrow> TrustOp \<Rightarrow> bool" where
  "replaces s op = (case op of
     TrustEvent e \<Rightarrow> (case e of EvConfigChanged p d r c \<Rightarrow> r | _ \<Rightarrow> False)
   | TrustDismiss \<Rightarrow> True
   | TrustSettles k a \<Rightarrow> (case a of ReadCommand (Some _) \<Rightarrow> True | _ \<Rightarrow> False)
   | _ \<Rightarrow> False)"

definition grants_by :: "TrustStore \<Rightarrow> TrustOp \<Rightarrow> (jstring \<times> jstring) set" where
  "grants_by s op = (case op of
     TrustSettles k GrantOk \<Rightarrow> (case map_get (tu_calls s) k of
         Some (GrantOne p n h) \<Rightarrow> {(n, h)}
       | Some (GrantAll review) \<Rightarrow> (\<lambda>c. (rc_name c, rc_variant_hash c)) ` set (tw_commands review)
       | _ \<Rightarrow> {})
   | _ \<Rightarrow> {})"

lemma drop_commands_keeps:
  "c \<in> set (tw_commands prev) \<Longrightarrow> keep c \<Longrightarrow> \<exists>r. drop_commands keep prev = Some r \<and> c \<in> set (tw_commands r)
     \<and> tw_project r = tw_project prev"
  by (auto simp: drop_commands_def Let_def filter_empty_conv)

text \<open>The joined key stands for the pair, as a name holds no NUL unit.\<close>

lemma grant_key_inj:
  "0 \<notin> set (rc_name c) \<Longrightarrow> 0 \<notin> set (rc_name d) \<Longrightarrow>
     grant_key c = grant_key d \<longleftrightarrow> rc_name c = rc_name d \<and> rc_variant_hash c = rc_variant_hash d"
  unfolding grant_key_def by (metis append_Cons append_Nil append_same_eq split_on_append list.inject same_append_eq)

definition plain_names :: "TrustStore \<Rightarrow> bool" where
  "plain_names s \<longleftrightarrow> (\<forall>review command. (tu_review s = Some review \<or> (\<exists>k. (k, GrantAll review) \<in> set (tu_calls s)))
     \<longrightarrow> command \<in> set (tw_commands review) \<longrightarrow> 0 \<notin> set (rc_name command))"

lemma after_trust_keeps:
  assumes "tu_review s = Some review" and "c \<in> set (tw_commands review)"
    and "(rc_name c, rc_variant_hash c) \<noteq> (n, h)"
  shows "\<exists>r. after_trust n h (tu_review s) = Some r \<and> c \<in> set (tw_commands r) \<and> tw_project r = tw_project review"
  using assms drop_commands_keeps [of c review "\<lambda>command. rc_name command \<noteq> n \<or> rc_variant_hash command \<noteq> h"]
  by (auto simp: after_trust_def)

lemma after_trust_all_keeps:
  assumes "tu_review s = Some review" and "c \<in> set (tw_commands review)"
    and "grant_key c \<notin> grant_key ` set (tw_commands granted)"
  shows "\<exists>r. after_trust_all granted (tu_review s) = Some r \<and> c \<in> set (tw_commands r) \<and> tw_project r = tw_project review"
  using assms drop_commands_keeps [of c review "\<lambda>command. grant_key command \<notin> grant_key ` set (tw_commands granted)"]
  by (auto simp: after_trust_all_def)

text \<open>
  A blocked command stays in the dialog until it is granted: a step that neither replaces nor
  closes the review keeps every command whose name and hash it did not grant, for names without
  the NUL unit the code joins the two with.
\<close>

theorem command_leaves_only_by_grant:
  assumes "tu_review s = Some review" and "c \<in> set (tw_commands review)"
    and "\<not> replaces s op" and "(rc_name c, rc_variant_hash c) \<notin> grants_by s op" and "plain_names s"
  shows "\<exists>r. tu_review (trust_step s op) = Some r \<and> c \<in> set (tw_commands r) \<and> tw_project r = tw_project review"
proof (cases op)
  case (TrustSettles k a)
  show ?thesis
  proof (cases "map_get (tu_calls s) k")
    case None
    with assms(1,2) show ?thesis by (simp add: TrustSettles call_settles_def)
  next
    case (Some call)
    note defs = TrustSettles call_settles_def end_call_def reportError_def
    show ?thesis
    proof (cases a)
      case (CallFailed e)
      with Some assms(1,2) show ?thesis by (simp add: defs split: TrustCall.split)
    next
      case (ReadCommand r)
      with assms(3) have "r = None" by (cases r) (simp_all add: replaces_def TrustSettles)
      with ReadCommand Some assms(1,2) show ?thesis by (cases call) (simp_all add: defs)
    next
      case GrantOk
      show ?thesis
      proof (cases call)
        case (ReadReview p n)
        with GrantOk Some assms(1,2) show ?thesis by (simp add: defs)
      next
        case (GrantOne p n h)
        with GrantOk Some assms have "(rc_name c, rc_variant_hash c) \<noteq> (n, h)"
          by (simp add: grants_by_def TrustSettles)
        from after_trust_keeps [OF assms(1,2) this] GrantOne GrantOk Some show ?thesis by (simp add: defs)
      next
        case (GrantAll granted)
        have "grant_key c \<notin> grant_key ` set (tw_commands granted)"
        proof
          assume "grant_key c \<in> grant_key ` set (tw_commands granted)"
          then obtain d where d: "d \<in> set (tw_commands granted)" "grant_key c = grant_key d" by blast
          have "(k, GrantAll granted) \<in> set (tu_calls s)"
            using Some GrantAll by (simp add: map_of_SomeD)
          with d(1) assms(1,2,5) have "0 \<notin> set (rc_name d)" "0 \<notin> set (rc_name c)"
            unfolding plain_names_def by blast+
          with d grant_key_inj have "rc_name c = rc_name d \<and> rc_variant_hash c = rc_variant_hash d" by blast
          with d(1) assms(4) GrantAll GrantOk Some show False
            by (force simp: grants_by_def TrustSettles)
        qed
        from after_trust_all_keeps [OF assms(1,2) this] GrantAll GrantOk Some show ?thesis
          by (simp add: defs)
      qed
    qed
  qed
next
  case (TrustEvent e)
  with assms show ?thesis by (cases e) (simp_all add: replaces_def on_config_event_def)
next
  case (TrustGrant p n)
  with assms(1,2) show ?thesis
    by (simp add: trust_def reportError_def start_call_def split: option.split)
next
  case TrustGrantAll
  with assms(1,2) show ?thesis by (simp add: trustAll_def start_call_def)
qed (use assms in \<open>simp_all add: replaces_def requestReview_def start_call_def\<close>)

theorem command_leaves_only_by_grant_witness:
  "\<exists>r. tu_review (trust_step (trust_run [raise_review 1]) (TrustGrant 1 [119])) = Some r
     \<and> sample_command \<in> set (tw_commands r) \<and> tw_project r = 1"
proof -
  let ?s = "trust_run [raise_review 1]"
  obtain review where r: "tu_review ?s = Some review" "sample_command \<in> set (tw_commands review)" "tw_project review = 1"
    by (simp add: raise_review_def on_config_event_def)
  moreover have "plain_names ?s"
    by (auto simp: plain_names_def raise_review_def on_config_event_def trust_init_def sample_command_def)
  ultimately show ?thesis
    using command_leaves_only_by_grant [of ?s review sample_command "TrustGrant 1 [119]"]
    by (simp add: replaces_def grants_by_def)
qed

text \<open>
  The per-command grant does not look at the project: a grant for project 1 that resolves after
  project 2 opened a review of the same command line empties that review, although only project
  1 was ever sent to the gate. The batch grant checks the project.
\<close>

theorem grant_drops_other_project:
  "let s = trust_run [raise_review 1, TrustGrant 1 [119], raise_review 2, TrustSettles 0 GrantOk];
       t = trust_run [raise_review 1, TrustGrantAll, raise_review 2, TrustSettles 0 GrantOk]
   in tu_review s = None \<and> tu_grants s = [(1, [119], [97])]
      \<and> map_option tw_project (tu_review t) = Some 2 \<and> tu_grants t = [(1, [119], [97])]"
  by (simp add: Let_def raise_review_def sample_command_def on_config_event_def trust_def trustAll_def
      start_call_def call_settles_def end_call_def after_trust_def after_trust_all_def drop_commands_def trust_init_def)

subsection \<open>The request queue\<close>

datatype RequestOp =
    RequestEvent DomainEvent | DecisionAccepted int bool \<comment> \<open>request id, reload\<close> | DecisionRefused int jstring

record RequestStore =
  rq_requests :: "TrustRequest list"
  rq_refreshes :: nat
  rq_errors :: "jstring list"

definition requests_init :: RequestStore where
  "requests_init = \<lparr>rq_requests = [], rq_refreshes = 0, rq_errors = []\<rparr>"

definition on_request_event :: "DomainEvent \<Rightarrow> RequestStore \<Rightarrow> RequestStore" where
  "on_request_event event s = (case event of
     EvTrustRequested project request \<Rightarrow>
       s\<lparr>rq_requests := (if list_ex (\<lambda>r. tr_id r = tr_id request) (rq_requests s) then rq_requests s
                         else rq_requests s @ [request])\<rparr>
   | EvTrustRequestResolved project i state \<Rightarrow>
       s\<lparr>rq_requests := filter (\<lambda>request. tr_id request \<noteq> i) (rq_requests s)\<rparr>
   | _ \<Rightarrow> s)"

definition decide :: "int \<Rightarrow> bool \<Rightarrow> RequestStore \<Rightarrow> RequestStore" where
  "decide i reload s = s\<lparr>rq_requests := filter (\<lambda>request. tr_id request \<noteq> i) (rq_requests s),
     rq_refreshes := (if reload then rq_refreshes s + 1 else rq_refreshes s)\<rparr>"

fun request_step :: "RequestStore \<Rightarrow> RequestOp \<Rightarrow> RequestStore" where
  "request_step s (RequestEvent e) = on_request_event e s"
| "request_step s (DecisionAccepted i reload) = decide i reload s"
| "request_step s (DecisionRefused i e) = s\<lparr>rq_errors := rq_errors s @ [e]\<rparr>"

text \<open>What the log says of one request: it is open from its first raise to its end.\<close>

fun open_after :: "int \<Rightarrow> RequestOp \<Rightarrow> TrustRequest option \<Rightarrow> TrustRequest option" where
  "open_after i (RequestEvent (EvTrustRequested p r)) m =
     (if tr_id r = i then (case m of None \<Rightarrow> Some r | Some x \<Rightarrow> Some x) else m)"
| "open_after i (RequestEvent (EvTrustRequestResolved p j st)) m = (if j = i then None else m)"
| "open_after i (DecisionAccepted j reload) m = (if j = i then None else m)"
| "open_after i _ m = m"

definition request_lookup :: "TrustRequest list \<Rightarrow> int \<Rightarrow> TrustRequest option" where
  "request_lookup rs i = map_of (map (\<lambda>r. (tr_id r, r)) rs) i"

lemma request_lookup_simps [simp]:
  "request_lookup [] i = None"
  "request_lookup (r # rs) i = (if tr_id r = i then Some r else request_lookup rs i)"
  by (simp_all add: request_lookup_def)

lemma request_lookup_snoc:
  "request_lookup (rs @ [r]) i = (case request_lookup rs i of Some x \<Rightarrow> Some x
     | None \<Rightarrow> if tr_id r = i then Some r else None)"
  by (induction rs) auto

lemma request_lookup_filter:
  "request_lookup (filter (\<lambda>r. tr_id r \<noteq> j) rs) i = (if i = j then None else request_lookup rs i)"
  by (induction rs) auto

lemma request_lookup_None: "request_lookup rs i = None \<longleftrightarrow> i \<notin> tr_id ` set rs"
  by (induction rs) auto

definition requests_inv :: "RequestStore \<Rightarrow> bool" where
  "requests_inv s \<longleftrightarrow> distinct (map tr_id (rq_requests s))"

interpretation requests: machine requests_init request_step requests_inv
proof
  show "requests_inv requests_init" by (simp add: requests_inv_def requests_init_def)
next
  fix s op
  assume inv: "requests_inv s"
  show "requests_inv (request_step s op)"
  proof (cases op)
    case (RequestEvent e)
    with inv show ?thesis
      by (cases e) (auto simp: on_request_event_def requests_inv_def list_ex_iff distinct_map_filter)
  qed (use inv in \<open>simp_all add: requests_inv_def decide_def distinct_map_filter\<close>)
qed

lemma request_step_lookup:
  "request_lookup (rq_requests (request_step s op)) i = open_after i op (request_lookup (rq_requests s) i)"
proof (cases op)
  case (RequestEvent e)
  show ?thesis
  proof (cases e)
    case (EvTrustRequested p r)
    have "list_ex (\<lambda>q. tr_id q = tr_id r) (rq_requests s) \<longleftrightarrow> request_lookup (rq_requests s) (tr_id r) \<noteq> None"
      by (auto simp: list_ex_iff request_lookup_None image_iff) (metis)+
    then show ?thesis
      by (auto simp: RequestEvent EvTrustRequested on_request_event_def request_lookup_snoc split: option.split)
  qed (simp_all add: RequestEvent on_request_event_def request_lookup_filter)
qed (simp_all add: decide_def request_lookup_filter)

text \<open>
  The queue is exactly the open requests: no id twice, and for each id the request shown is the
  one first raised since it last ended, none if it has ended, whoever ended it.
\<close>

theorem request_queue_exact:
  "distinct (map tr_id (rq_requests (foldl request_step requests_init ops)))
   \<and> request_lookup (rq_requests (foldl request_step requests_init ops)) i = fold (open_after i) ops None"
proof
  show "distinct (map tr_id (rq_requests (foldl request_step requests_init ops)))"
    using requests.inv_run [of ops] by (simp add: requests_inv_def)
  show "request_lookup (rq_requests (foldl request_step requests_init ops)) i = fold (open_after i) ops None"
    by (induction ops rule: rev_induct) (simp_all add: requests_init_def request_step_lookup)
qed

end
