(* ===== verification/Ordering.thy ===== *)
theory Ordering
  imports Prelude
begin

section \<open>Comparators and \<open>Array.prototype.sort\<close>\<close>

text \<open>
  A comparator is a function to a number whose sign orders two values. ECMAScript sorts stably
  by a consistent comparator, and for a consistent comparator the stable result is unique, so
  an insertion sort models it. \<open>Intl.Collator.compare\<close> and \<open>localeCompare\<close> depend on the
  locale's tables and are parameters that satisfy the laws of \<open>comparator\<close>; the default order
  of \<open>sort()\<close>, by UTF-16 code units, is defined here and is an instance.
\<close>

fun js_insert :: "('a \<Rightarrow> 'a \<Rightarrow> int) \<Rightarrow> 'a \<Rightarrow> 'a list \<Rightarrow> 'a list" where
  "js_insert cmp x [] = [x]"
| "js_insert cmp x (y # ys) = (if cmp x y \<le> 0 then x # y # ys else y # js_insert cmp x ys)"

definition js_sort :: "('a \<Rightarrow> 'a \<Rightarrow> int) \<Rightarrow> 'a list \<Rightarrow> 'a list" where
  "js_sort cmp xs = foldr (js_insert cmp) xs []"

lemma js_sort_simps [simp]: "js_sort cmp [] = []" "js_sort cmp (x # xs) = js_insert cmp x (js_sort cmp xs)"
  by (simp_all add: js_sort_def)

lemma mset_js_insert [simp]: "mset (js_insert cmp x xs) = add_mset x (mset xs)"
  by (induction xs) auto

lemma mset_js_sort [simp]: "mset (js_sort cmp xs) = mset xs"
  by (induction xs) auto

lemma set_js_insert [simp]: "set (js_insert cmp x xs) = insert x (set xs)"
  by (induction xs) auto

lemma set_js_sort [simp]: "set (js_sort cmp xs) = set xs"
  by (induction xs) auto

lemma distinct_js_sort [simp]: "distinct (js_sort cmp xs) = distinct xs"
  by (metis mset_js_sort mset_eq_imp_distinct_iff)

lemma length_js_sort [simp]: "length (js_sort cmp xs) = length xs"
  by (metis mset_js_sort size_mset)

locale comparator =
  fixes cmp :: "'a \<Rightarrow> 'a \<Rightarrow> int"
  assumes sgn_swap: "sgn (cmp y x) = - sgn (cmp x y)"
    and le_trans: "cmp x y \<le> 0 \<Longrightarrow> cmp y z \<le> 0 \<Longrightarrow> cmp x z \<le> 0"
begin

lemma swap_le: "cmp y x \<le> 0 \<longleftrightarrow> cmp x y \<ge> 0"
  using sgn_swap [of y x] by (auto simp: sgn_if split: if_splits)

lemma swap_zero: "cmp y x = 0 \<longleftrightarrow> cmp x y = 0"
  using sgn_swap [of y x] by (auto simp: sgn_if split: if_splits)

lemma le_total: "cmp x y \<le> 0 \<or> cmp y x \<le> 0"
  using swap_le [of x y] by linarith

lemma self_zero: "cmp x x = 0"
  using sgn_swap [of x x] by (auto simp: sgn_if split: if_splits)

lemma zero_left:
  assumes "cmp x y = 0"
  shows "cmp x z \<le> 0 \<longleftrightarrow> cmp y z \<le> 0"
proof -
  have "cmp x y \<le> 0" "cmp y x \<le> 0" using assms swap_zero [of x y] by simp_all
  then show ?thesis using le_trans by blast
qed

lemma zero_right:
  assumes "cmp x y = 0"
  shows "cmp z x \<le> 0 \<longleftrightarrow> cmp z y \<le> 0"
proof -
  have "cmp x y \<le> 0" "cmp y x \<le> 0" using assms swap_zero [of x y] by simp_all
  then show ?thesis using le_trans by blast
qed

lemma sorted_insert:
  "sorted_wrt (\<lambda>a b. cmp a b \<le> 0) xs \<Longrightarrow> sorted_wrt (\<lambda>a b. cmp a b \<le> 0) (js_insert cmp x xs)"
  using le_total le_trans by (induction xs) fastforce+

lemma sorted_sort: "sorted_wrt (\<lambda>a b. cmp a b \<le> 0) (js_sort cmp xs)"
  by (induction xs) (simp_all add: sorted_insert)

lemma insert_class:
  "sorted_wrt (\<lambda>a b. cmp a b \<le> 0) xs \<Longrightarrow>
     filter (\<lambda>y. cmp c y = 0) (js_insert cmp x xs) =
       (if cmp c x = 0 then x # filter (\<lambda>y. cmp c y = 0) xs else filter (\<lambda>y. cmp c y = 0) xs)"
proof (induction xs)
  case (Cons y ys)
  show ?case
  proof (cases "cmp x y \<le> 0")
    case False
    then have "\<not> (cmp c x = 0 \<and> cmp c y = 0)"
      using zero_left [of c x y] zero_left [of c y y] self_zero [of y] by force
    with False Cons show ?thesis by auto
  qed simp
qed simp

text \<open>Stability: values that compare equal keep their order.\<close>

lemma sort_stable: "filter (\<lambda>y. cmp c y = 0) (js_sort cmp xs) = filter (\<lambda>y. cmp c y = 0) xs"
  by (induction xs) (simp_all add: insert_class sorted_sort)

lemma sort_sorted: "sorted_wrt (\<lambda>a b. cmp a b \<le> 0) xs \<Longrightarrow> js_sort cmp xs = xs"
proof (induction xs)
  case (Cons x xs)
  then have "js_sort cmp xs = xs" by simp
  with Cons.prems show ?case by (cases xs) simp_all
qed simp

text \<open>Sorting twice is sorting once.\<close>

lemma sort_idem: "js_sort cmp (js_sort cmp xs) = js_sort cmp xs"
  by (rule sort_sorted [OF sorted_sort])

end

text \<open>Comparing by a key, and by one comparator after another.\<close>

definition by_key :: "('b \<Rightarrow> 'b \<Rightarrow> int) \<Rightarrow> ('a \<Rightarrow> 'b) \<Rightarrow> 'a \<Rightarrow> 'a \<Rightarrow> int" where
  "by_key cmp f a b = cmp (f a) (f b)"

definition then_by :: "('a \<Rightarrow> 'a \<Rightarrow> int) \<Rightarrow> ('a \<Rightarrow> 'a \<Rightarrow> int) \<Rightarrow> 'a \<Rightarrow> 'a \<Rightarrow> int" where
  "then_by c d a b = (if c a b \<noteq> 0 then c a b else d a b)"

lemma comparator_by_key: "comparator cmp \<Longrightarrow> comparator (by_key cmp f)"
  unfolding comparator_def by_key_def by blast

lemma comparator_then_by:
  assumes "comparator c" and "comparator d"
  shows "comparator (then_by c d)"
proof
  fix x y
  show "sgn (then_by c d y x) = - sgn (then_by c d x y)"
    using comparator.sgn_swap [OF assms(1), of y x] comparator.sgn_swap [OF assms(2), of y x]
      comparator.swap_zero [OF assms(1), of y x]
    by (simp add: then_by_def)
next
  fix x y z
  assume le: "then_by c d x y \<le> 0" "then_by c d y z \<le> 0"
  then have c: "c x y \<le> 0" "c y z \<le> 0" by (auto simp: then_by_def split: if_splits)
  then have xz: "c x z \<le> 0" by (rule comparator.le_trans [OF assms(1)])
  show "then_by c d x z \<le> 0"
  proof (cases "c x z = 0")
    case True
    have "c x y = 0" "c y z = 0"
      using comparator.zero_left [OF assms(1) True, of y] comparator.zero_right [OF assms(1) True, of y]
        comparator.swap_le [OF assms(1), of y x] comparator.swap_le [OF assms(1), of z y] c
      by auto
    with le True show ?thesis
      using comparator.le_trans [OF assms(2), of x y z] by (simp add: then_by_def)
  next
    case False
    with xz show ?thesis by (simp add: then_by_def)
  qed
qed

definition int_compare :: "int \<Rightarrow> int \<Rightarrow> int" where
  "int_compare a b = a - b"

interpretation int_order: comparator int_compare
  by unfold_locales (auto simp: int_compare_def sgn_if)

text \<open>The default order of \<open>sort()\<close> on strings.\<close>

fun unit_compare :: "jstring \<Rightarrow> jstring \<Rightarrow> int" where
  "unit_compare [] [] = 0"
| "unit_compare [] (y # ys) = -1"
| "unit_compare (x # xs) [] = 1"
| "unit_compare (x # xs) (y # ys) = (if x < y then -1 else if y < x then 1 else unit_compare xs ys)"

lemma unit_compare_swap: "unit_compare ys xs = - unit_compare xs ys"
  by (induction xs ys rule: unit_compare.induct) simp_all

lemma unit_compare_zero: "unit_compare xs ys = 0 \<longleftrightarrow> xs = ys"
  by (induction xs ys rule: unit_compare.induct) auto

lemma unit_compare_le:
  "unit_compare [] ys \<le> 0"
  "unit_compare (x # xs) [] \<le> 0 \<longleftrightarrow> False"
  "unit_compare (x # xs) (y # ys) \<le> 0 \<longleftrightarrow> x < y \<or> x = y \<and> unit_compare xs ys \<le> 0"
  by (cases ys) auto

lemma unit_compare_trans: "unit_compare xs ys \<le> 0 \<Longrightarrow> unit_compare ys zs \<le> 0 \<Longrightarrow> unit_compare xs zs \<le> 0"
proof (induction xs arbitrary: ys zs)
  case Nil
  then show ?case by (simp only: unit_compare_le)
next
  case (Cons x xs)
  then obtain y ys' z zs' where "ys = y # ys'" "zs = z # zs'"
    by (cases ys; cases zs) (simp_all only: unit_compare_le simp_thms)
  with Cons show ?case
    by (simp only: unit_compare_le) (metis less_trans)
qed

interpretation unit_order: comparator unit_compare
proof
  show "sgn (unit_compare y x) = - sgn (unit_compare x y)" for x y
    by (simp add: unit_compare_swap [of y x])
qed (rule unit_compare_trans)

end
