(* ===== verification/Panels.thy ===== *)
theory Panels
  imports Domain Ordering
begin

section \<open>Lists, rosters and panels\<close>

text \<open>
  \<open>lib/sortable.ts\<close> (drag and keyboard reordering), \<open>lib/format.ts\<close> (telemetry),
  \<open>store/timerPanel.ts\<close>, \<open>store/messagePanel.ts\<close>, \<open>store/diagramSort.ts\<close> and
  \<open>store/scratchpadSort.ts\<close>. Fractions are exact rationals; the collator is a parameter.
\<close>

subsection \<open>Reordering\<close>

definition inRange :: "'a list \<Rightarrow> int \<Rightarrow> bool" where
  "inRange items index \<longleftrightarrow> index \<ge> 0 \<and> index < int (length items)"

definition clamp :: "int \<Rightarrow> int \<Rightarrow> int \<Rightarrow> int" where
  "clamp v lo hi = min (max v lo) hi"

text \<open>\<open>splice(i, 1)\<close> removes the element at \<open>i\<close>, \<open>splice(i, 0, x)\<close> inserts before it.\<close>

definition remove_at :: "nat \<Rightarrow> 'a list \<Rightarrow> 'a list" where
  "remove_at i xs = take i xs @ drop (Suc i) xs"

definition insert_at :: "nat \<Rightarrow> 'a \<Rightarrow> 'a list \<Rightarrow> 'a list" where
  "insert_at i x xs = take i xs @ x # drop i xs"

definition moveItem :: "'a list \<Rightarrow> int \<Rightarrow> int \<Rightarrow> 'a list" where
  "moveItem items from_index to_index =
     (if \<not> inRange items from_index \<or> \<not> inRange items to_index then items
      else insert_at (nat to_index) (items ! nat from_index) (remove_at (nat from_index) items))"

definition moveBy :: "'a list \<Rightarrow> 'a \<Rightarrow> int \<Rightarrow> 'a list" where
  "moveBy items i delta = (case index_of items i of None \<Rightarrow> items
     | Some pos \<Rightarrow> moveItem items (int pos) (clamp (int pos + delta) 0 (int (length items) - 1)))"

definition canMoveBy :: "'a list \<Rightarrow> 'a \<Rightarrow> int \<Rightarrow> bool" where
  "canMoveBy items i delta = (case index_of items i of None \<Rightarrow> False | Some pos \<Rightarrow> inRange items (int pos + delta))"

lemma length_remove_at: "i < length xs \<Longrightarrow> length (remove_at i xs) = length xs - 1"
  by (simp add: remove_at_def)

lemma remove_insert: "i \<le> length xs \<Longrightarrow> remove_at i (insert_at i x xs) = xs"
  by (simp add: remove_at_def insert_at_def)

lemma insert_remove: "i < length xs \<Longrightarrow> insert_at i (xs ! i) (remove_at i xs) = xs"
  by (simp add: remove_at_def insert_at_def id_take_nth_drop [symmetric])

lemma nth_insert_at: "i \<le> length xs \<Longrightarrow> insert_at i x xs ! i = x"
  by (simp add: insert_at_def nth_append)

lemma inRange_nat: "inRange items f \<Longrightarrow> nat f < length items"
  by (simp add: inRange_def nat_less_iff)

lemma moveItem_in:
  assumes "inRange items f" and "inRange items t"
  shows "length (moveItem items f t) = length items"
    and "moveItem items f t ! nat t = items ! nat f"
    and "remove_at (nat t) (moveItem items f t) = remove_at (nat f) items"
proof -
  have f: "nat f < length items" using assms by (auto intro: inRange_nat)
  have "nat t \<le> length (remove_at (nat f) items)"
    using assms by (simp add: length_remove_at [OF f] inRange_def) linarith
  note ft = f this
  then show "length (moveItem items f t) = length items"
    using assms by (simp add: moveItem_def insert_at_def length_remove_at)
  show "moveItem items f t ! nat t = items ! nat f"
    using assms ft by (simp add: moveItem_def nth_insert_at)
  show "remove_at (nat t) (moveItem items f t) = remove_at (nat f) items"
    using assms ft by (simp add: moveItem_def remove_insert)
qed

text \<open>
  A move is undone by the opposite move, keeps the items, puts the moved one where it was asked
  to go and leaves the order of the others; out of range it changes nothing.
\<close>

theorem moveItem_undo:
  "moveItem (moveItem items f t) t f = items
   \<and> mset (moveItem items f t) = mset items
   \<and> (if inRange items f \<and> inRange items t
      then moveItem items f t ! nat t = items ! nat f
        \<and> remove_at (nat t) (moveItem items f t) = remove_at (nat f) items
      else moveItem items f t = items)"
proof (cases "inRange items f \<and> inRange items t")
  case True
  note moved = moveItem_in [of items f t]
  have "inRange (moveItem items f t) f" "inRange (moveItem items f t) t"
    using True moved by (simp_all add: inRange_def)
  then have "moveItem (moveItem items f t) t f = insert_at (nat f) (items ! nat f) (remove_at (nat f) items)"
    using True moved by (simp add: moveItem_def [of "moveItem items f t"])
  also have "\<dots> = items" using True by (intro insert_remove) (simp add: inRange_nat)
  finally have undo: "moveItem (moveItem items f t) t f = items" .
  have "mset (insert_at i x xs) = add_mset x (mset xs)" for i and x :: 'a and xs
    unfolding insert_at_def by (metis append_take_drop_id mset_append mset.simps(2) union_mset_add_mset_right)
  moreover have "add_mset (items ! nat f) (mset (remove_at (nat f) items)) = mset items"
    using True calculation [of "nat f" "items ! nat f" "remove_at (nat f) items"] insert_remove [of "nat f" items]
      inRange_nat [of items f] by simp
  ultimately have "mset (moveItem items f t) = mset items"
    using True by (simp add: moveItem_def)
  with undo True moved show ?thesis by simp
next
  case False
  then show ?thesis by (auto simp: moveItem_def)
qed

lemma moveBy_clamped:
  assumes "index_of items i = Some pos"
  shows "moveBy items i delta = moveItem items (int pos) (clamp (int pos + delta) 0 (int (length items) - 1))
    \<and> inRange items (clamp (int pos + delta) 0 (int (length items) - 1))"
proof -
  have "pos < length items" using index_of_Some [OF assms] by simp
  with assms show ?thesis by (auto simp: moveBy_def inRange_def clamp_def)
qed

lemma canMoveBy_unclamped:
  assumes "canMoveBy items i delta"
  obtains pos where "index_of items i = Some pos" and "moveBy items i delta = moveItem items (int pos) (int pos + delta)"
  using assms by (auto simp: canMoveBy_def moveBy_def inRange_def clamp_def split: option.splits)

subsection \<open>Telemetry\<close>

text \<open>\<open>Math.round\<close> rounds half up; \<open>toFixed(1)\<close> of a non-negative number rounds half up too.\<close>

definition to_fixed1 :: "rat \<Rightarrow> jstring" where
  "to_fixed1 x = (let n = js_round (10 * x) in show_int (n div 10) @ lit ''.'' @ show_int (n mod 10))"

definition formatCpu :: "rat \<Rightarrow> jstring" where
  "formatCpu pct = show_int (js_round pct) @ lit ''%''"

definition formatRss :: "int \<Rightarrow> jstring" where
  "formatRss bytes =
     (let kib = of_int bytes / 1024; mib = kib / 1024
      in if kib < 1024 then show_int (js_round kib) @ lit '' KB''
         else if mib < 1024 then show_int (js_round mib) @ lit '' MB''
         else to_fixed1 (mib / 1024) @ lit '' GB'')"

definition formatPorts :: "int list \<Rightarrow> jstring option" where
  "formatPorts ports = (case ports of [] \<Rightarrow> None
     | first # rest \<Rightarrow> Some (if rest \<noteq> [] then lit '':'' @ show_int first @ lit '' +'' @ show_int (int (length rest))
         else lit '':'' @ show_int first))"

text \<open>The rounding happens after the unit is chosen, so just under a megabyte reads 1024 KB.\<close>

lemma rss_just_under_a_megabyte: "formatRss 1048575 = show_int 1024 @ lit '' KB''"
  by (simp add: formatRss_def js_round_def floor_eq_iff)

subsection \<open>Timers\<close>

fun fireBadge :: "FireCond \<Rightarrow> jstring" where
  "fireBadge FireAt = lit ''Scheduled''"
| "fireBadge (WhenIdleAny ids) = lit ''When any idle''"
| "fireBadge (WhenIdleAll ids) = lit ''When all idle''"

definition formatCountdown :: "int \<Rightarrow> jstring" where
  "formatCountdown remainingMs =
     (if remainingMs \<le> 0 then lit ''0s''
      else let totalSecs = remainingMs div 1000;
               h = totalSecs div 3600;
               m = totalSecs mod 3600 div 60;
               s = totalSecs mod 60
        in if h > 0 then show_int h @ lit ''h '' @ show_int m @ lit ''m '' @ show_int s @ lit ''s''
           else if m > 0 then show_int m @ lit ''m '' @ show_int s @ lit ''s''
           else show_int s @ lit ''s'')"

definition formatPausedRemaining :: "int \<Rightarrow> jstring" where
  "formatPausedRemaining remainingMillis =
     (if remainingMillis \<le> 0 then lit ''0s remaining''
      else let total = remainingMillis div 1000;
               h = total div 3600;
               m = total mod 3600 div 60;
               s = total mod 60
        in if h > 0 then show_int h @ lit ''h '' @ show_int m @ lit ''m remaining''
           else if m > 0 then show_int m @ lit ''m '' @ show_int s @ lit ''s remaining''
           else show_int s @ lit ''s remaining'')"

definition bodyPreview :: "jstring \<Rightarrow> jstring" where
  "bodyPreview body = (let firstLine = hd (split_on 10 body)
     in if length firstLine > 60 then take 57 firstLine @ [0x2026] else firstLine)"

definition groupByOwner :: "TimerView list \<Rightarrow> (int, TimerView list) jsmap" where
  "groupByOwner timers = foldl (\<lambda>m t. map_set (ti_owner t)
     ((case map_get m (ti_owner t) of None \<Rightarrow> [] | Some bucket \<Rightarrow> bucket) @ [t]) m) [] timers"

lemma number_seps_inj:
  assumes "show_int i @ c # xs = show_int j @ d # ys" and "\<not> int_unit c" and "\<not> int_unit d"
  shows "i = j \<and> c = d \<and> xs = ys"
proof -
  have tw: "takeWhile int_unit (show_int k @ e # zs) = show_int k" if "\<not> int_unit e" for k e zs
    using that show_int_units by (simp add: takeWhile_append2 takeWhile_append)
  from assms have "show_int i = show_int j" by (metis tw)
  with assms(1) show ?thesis by simp
qed

definition clock_text :: "int \<Rightarrow> int \<Rightarrow> int \<Rightarrow> jstring" where
  "clock_text h m s = (if h > 0 then show_int h @ lit ''h '' @ show_int m @ lit ''m '' @ show_int s @ lit ''s''
     else if m > 0 then show_int m @ lit ''m '' @ show_int s @ lit ''s'' else show_int s @ lit ''s'')"

lemma clock_seps [simp]:
  "\<not> int_unit 104" "\<not> int_unit 109" "\<not> int_unit 115"
  by (simp_all add: int_unit_def is_digit_unit_def)

lemma show_int_no_sep: "\<not> int_unit c \<Longrightarrow> show_int i \<noteq> show_int j @ c # xs"
  using show_int_units [of c i] by (metis in_set_conv_decomp)

lemma clock_text_inj:
  assumes "clock_text h m s = clock_text h' m' s'" and "h \<ge> 0" "m \<ge> 0" "h' \<ge> 0" "m' \<ge> 0"
  shows "h = h' \<and> m = m' \<and> s = s'"
  using assms
  by (auto simp: clock_text_def lit_def show_int_no_sep show_int_no_sep [symmetric]
      dest!: number_seps_inj split: if_splits)

definition hours :: "int \<Rightarrow> int" where "hours t = t div 3600"
definition minutes :: "int \<Rightarrow> int" where "minutes t = t mod 3600 div 60"
definition seconds :: "int \<Rightarrow> int" where "seconds t = t mod 60"

lemma seconds_split: "t = 3600 * hours t + 60 * minutes t + seconds t"
proof -
  have "t mod 3600 mod 60 = t mod 60" by (simp add: mod_mod_cancel)
  then have "t mod 3600 = 60 * (t mod 3600 div 60) + t mod 60"
    using mult_div_mod_eq [of 60 "t mod 3600"] by simp
  then show ?thesis
    unfolding hours_def minutes_def seconds_def using mult_div_mod_eq [of 3600 t] by linarith
qed

lemma countdown_clock:
  "remaining > 0 \<Longrightarrow> formatCountdown remaining =
     clock_text (hours (remaining div 1000)) (minutes (remaining div 1000)) (seconds (remaining div 1000))"
  by (simp add: formatCountdown_def clock_text_def Let_def hours_def minutes_def seconds_def)

lemma clock_nonneg: "0 < remaining \<Longrightarrow> 0 \<le> hours (remaining div 1000)" "0 \<le> minutes t"
  by (simp_all add: hours_def minutes_def pos_imp_zdiv_nonneg_iff)

text \<open>
  A countdown identifies the whole seconds left: two positive remainders render alike only when
  they have the same number of whole seconds.
\<close>

theorem countdown_identifies_seconds:
  assumes "a > 0" and "b > 0" and "formatCountdown a = formatCountdown b"
  shows "a div 1000 = b div 1000"
proof -
  have "clock_text (hours (a div 1000)) (minutes (a div 1000)) (seconds (a div 1000)) =
      clock_text (hours (b div 1000)) (minutes (b div 1000)) (seconds (b div 1000))"
    using assms by (simp add: countdown_clock)
  then have "hours (a div 1000) = hours (b div 1000) \<and> minutes (a div 1000) = minutes (b div 1000)
      \<and> seconds (a div 1000) = seconds (b div 1000)"
    using assms(1,2) by (intro clock_text_inj clock_nonneg)
  then show ?thesis by (metis seconds_split)
qed

theorem countdown_identifies_seconds_witness:
  "formatCountdown 61500 = formatCountdown 61001 \<and> (61500 :: int) div 1000 = 61001 div 1000"
proof -
  have "formatCountdown 61500 = formatCountdown 61001" by (simp add: formatCountdown_def)
  with countdown_identifies_seconds [of 61500 61001] show ?thesis by simp
qed

lemma bodyPreview_short: "length (bodyPreview body) \<le> 60"
  by (simp add: bodyPreview_def Let_def)

lemma group_owner_get:
  "map_get (groupByOwner timers) o' = (case filter (\<lambda>t. ti_owner t = o') timers of [] \<Rightarrow> None | ts \<Rightarrow> Some ts)"
proof (induction timers rule: rev_induct)
  case Nil
  then show ?case by (simp add: groupByOwner_def)
next
  case (snoc t ts)
  then show ?case
    by (auto simp: groupByOwner_def jsmap.get_put split: list.splits)
qed

subsection \<open>Messages\<close>

definition MAX_RETAINED_MESSAGES :: nat where "MAX_RETAINED_MESSAGES = 512"

definition VISIBLE_MESSAGE_WINDOW :: nat where "VISIBLE_MESSAGE_WINDOW = 80"

fun MESSAGE_KIND :: "AgentMessageKind \<Rightarrow> jstring" where
  "MESSAGE_KIND MsgDirect = lit ''Direct''"
| "MESSAGE_KIND MsgTask = lit ''Task''"
| "MESSAGE_KIND MsgCompletion = lit ''Completion''"

fun MESSAGE_OUTCOME :: "AgentMessageOutcome \<Rightarrow> jstring" where
  "MESSAGE_OUTCOME Queued = lit ''Queued''"
| "MESSAGE_OUTCOME WakeSubmitted = lit ''Delivered''"
| "MESSAGE_OUTCOME Acknowledged = lit ''Accepted''"

definition agentLabels :: "AgentNode list \<Rightarrow> int \<Rightarrow> jstring" where
  "agentLabels agents i =
     (case map_get (map_from (map (\<lambda>agent. (an_id agent, an_label agent)) agents)) i of
        Some label \<Rightarrow> label | None \<Rightarrow> lit ''#'' @ show_int i)"

definition isAtRetentionCeiling :: "AgentMessageRecord list \<Rightarrow> bool" where
  "isAtRetentionCeiling messages \<longleftrightarrow> length messages \<ge> MAX_RETAINED_MESSAGES"

definition windowMessages :: "AgentMessageRecord list \<Rightarrow> bool \<Rightarrow> AgentMessageRecord list \<times> nat" where
  "windowMessages messages expanded =
     (if expanded \<or> length messages \<le> VISIBLE_MESSAGE_WINDOW then (messages, 0)
      else (drop (length messages - VISIBLE_MESSAGE_WINDOW) messages, length messages - VISIBLE_MESSAGE_WINDOW))"

lemma windowMessages_suffix:
  "drop (snd (windowMessages messages expanded)) messages = fst (windowMessages messages expanded)
   \<and> (expanded \<or> length (fst (windowMessages messages expanded)) \<le> VISIBLE_MESSAGE_WINDOW)"
  by (simp add: windowMessages_def)

subsection \<open>Rosters\<close>

datatype RosterSort = ByUpdated | ByName

definition SORT_ORDER :: "RosterSort list" where
  "SORT_ORDER = [ByUpdated, ByName]"

fun SORT_LABELS :: "RosterSort \<Rightarrow> jstring" where
  "SORT_LABELS ByUpdated = lit ''Recent''"
| "SORT_LABELS ByName = lit ''Name''"

definition sortDiagrams ::
  "(jstring \<Rightarrow> jstring \<Rightarrow> int) \<Rightarrow> DiagramSummary list \<Rightarrow> RosterSort \<Rightarrow> DiagramSummary list" where
  "sortDiagrams localeCompare diagrams mode =
     (let byName = (\<lambda>a b. localeCompare (ds_name a) (ds_name b))
      in js_sort (\<lambda>a b. if mode = ByName then byName a b
           else if ds_updated_at b - ds_updated_at a \<noteq> 0 then ds_updated_at b - ds_updated_at a else byName a b) diagrams)"

definition sortScratchpads ::
  "(jstring \<Rightarrow> jstring \<Rightarrow> int) \<Rightarrow> ScratchpadSummary list \<Rightarrow> RosterSort \<Rightarrow> ScratchpadSummary list" where
  "sortScratchpads localeCompare scratchpads mode =
     (let byName = (\<lambda>a b. localeCompare (ss_name a) (ss_name b))
      in js_sort (\<lambda>a b. if mode = ByName then byName a b
           else if ss_updated_at b - ss_updated_at a \<noteq> 0 then ss_updated_at b - ss_updated_at a else byName a b) scratchpads)"

text \<open>The newest-first comparator of a roster, for any record with a time and a name.\<close>

definition roster_compare ::
  "(jstring \<Rightarrow> jstring \<Rightarrow> int) \<Rightarrow> ('a \<Rightarrow> int) \<Rightarrow> ('a \<Rightarrow> jstring) \<Rightarrow> 'a \<Rightarrow> 'a \<Rightarrow> int" where
  "roster_compare localeCompare updated name =
     then_by (by_key int_compare (\<lambda>a. - updated a)) (by_key localeCompare name)"

lemma roster_comparator: "comparator localeCompare \<Longrightarrow> comparator (roster_compare localeCompare updated name)"
  unfolding roster_compare_def
  by (intro comparator_then_by comparator_by_key int_order.comparator_axioms)

lemma sortDiagrams_alt:
  "sortDiagrams localeCompare diagrams ByUpdated = js_sort (roster_compare localeCompare ds_updated_at ds_name) diagrams"
  "sortDiagrams localeCompare diagrams ByName = js_sort (by_key localeCompare ds_name) diagrams"
  by (simp_all add: sortDiagrams_def roster_compare_def then_by_def [abs_def] by_key_def [abs_def] int_compare_def
      Let_def cong: if_cong)

text \<open>The roster is newest first, alphabetical among equal times, and a permutation.\<close>

lemma sortDiagrams_newest:
  assumes "comparator localeCompare"
  shows "sorted_wrt (\<lambda>a b. ds_updated_at a > ds_updated_at b
      \<or> ds_updated_at a = ds_updated_at b \<and> localeCompare (ds_name a) (ds_name b) \<le> 0)
      (sortDiagrams localeCompare diagrams ByUpdated)"
  unfolding sortDiagrams_alt
  using comparator.sorted_sort [OF roster_comparator [OF assms], of ds_updated_at ds_name diagrams]
  by (rule sorted_wrt_mono_rel [rotated])
    (auto simp: roster_compare_def then_by_def by_key_def int_compare_def split: if_splits)

end
