(* ===== verification/Todos.thy ===== *)
theory Todos
  imports Domain Ordering
begin

section \<open>The todo board\<close>

text \<open>
  \<open>lib/humanize.ts\<close>, \<open>lib/todo.ts\<close>, \<open>store/todoFilter.ts\<close> and \<open>store/todoGrouping.ts\<close>:
  slugs read as sentences, the board's facets, and the buckets by scratchpad. Lower-casing is
  the runtime's and a parameter; a slug is ASCII, so its capital is computed here.
\<close>

subsection \<open>Handles as prose\<close>

definition slug_unit :: "nat \<Rightarrow> bool" where
  "slug_unit c \<longleftrightarrow> (97 \<le> c \<and> c \<le> 122) \<or> is_digit_unit c"

definition slug_sep :: "nat \<Rightarrow> bool" where
  "slug_sep c \<longleftrightarrow> c = 45 \<or> c = 95"

text \<open>The regular expression as its automaton: one word, then a separator and a word, once or more.\<close>

fun slug_from :: "bool \<Rightarrow> bool \<Rightarrow> jstring \<Rightarrow> bool" where
  "slug_from separated inWord [] = (separated \<and> inWord)"
| "slug_from separated inWord (c # cs) =
     (if slug_unit c then slug_from separated True cs
      else if slug_sep c \<and> inWord then slug_from True False cs
      else False)"

definition SLUG :: "jstring \<Rightarrow> bool" where
  "SLUG name = slug_from False False name"

definition humanizeName :: "jstring \<Rightarrow> jstring" where
  "humanizeName name =
     (if \<not> SLUG name then name
      else let words = map (\<lambda>c. if slug_sep c then 32 else c) name
        in map ascii_upper (take 1 words) @ drop 1 words)"

lemma slug_units: "slug_from separated inWord s \<Longrightarrow> c \<in> set s \<Longrightarrow> slug_unit c \<or> slug_sep c"
  by (induction separated inWord s rule: slug_from.induct) (auto split: if_splits)

lemma slug_has_sep: "slug_from False inWord s \<Longrightarrow> \<exists>c \<in> set s. slug_sep c"
  by (induction s arbitrary: inWord) (auto split: if_splits)

lemma slug_head: "slug_from separated False (c # cs) \<Longrightarrow> slug_unit c"
  by (auto split: if_splits)

text \<open>A slug's sentence holds a space, which no slug does.\<close>

lemma humanized_not_slug:
  assumes "SLUG name"
  shows "\<not> SLUG (humanizeName name)"
proof -
  obtain c cs where name: "name = c # cs" using assms by (cases name) (auto simp: SLUG_def)
  with assms have "slug_unit c" unfolding SLUG_def using slug_head by blast
  then have "\<not> slug_sep c" by (auto simp: slug_unit_def slug_sep_def is_digit_unit_def)
  with assms name obtain d where "d \<in> set cs" "slug_sep d"
    using slug_has_sep [of False name] by (auto simp: SLUG_def)
  with assms name have "32 \<in> set (humanizeName name)"
    by (auto simp: humanizeName_def Let_def image_iff intro: bexI [of _ d])
  then show ?thesis
    using slug_units [of False False "humanizeName name" 32]
    by (auto simp: SLUG_def slug_unit_def slug_sep_def is_digit_unit_def)
qed

text \<open>
  Humanizing is idempotent and leaves every name that is not a slug alone: a title already shown
  to a person never changes again.
\<close>

theorem humanizeName_idempotent:
  "humanizeName (humanizeName name) = humanizeName name
   \<and> length (humanizeName name) = length name
   \<and> (SLUG name \<or> humanizeName name = name)"
proof -
  have "humanizeName (humanizeName name) = humanizeName name"
  proof (cases "SLUG name")
    case True
    then show ?thesis using humanized_not_slug [OF True] by (simp add: humanizeName_def [of "humanizeName name"])
  qed (simp add: humanizeName_def)
  then show ?thesis by (cases name) (simp_all add: humanizeName_def Let_def)
qed

subsection \<open>Labels\<close>

fun TODO_STATUS :: "TodoStatus \<Rightarrow> jstring" where
  "TODO_STATUS TodoOpen = lit ''Open''"
| "TODO_STATUS TodoBlocked = lit ''Blocked''"
| "TODO_STATUS TodoInProgress = lit ''In progress''"
| "TODO_STATUS TodoDone = lit ''Done''"

definition TODO_STATUS_ORDER :: "TodoStatus list" where
  "TODO_STATUS_ORDER = [TodoOpen, TodoInProgress, TodoBlocked, TodoDone]"

fun author_label :: "CommentAuthor \<Rightarrow> jstring" where
  "author_label (ByProcess i label) = label"
| "author_label (ByExternal label) = label"

definition commentAuthorLabel :: "CommentAuthor option \<Rightarrow> jstring" where
  "commentAuthorLabel author = (case author of None \<Rightarrow> lit ''unattributed'' | Some a \<Rightarrow> author_label a)"

lemma status_order_complete: "set TODO_STATUS_ORDER = UNIV \<and> distinct TODO_STATUS_ORDER"
  by (auto simp: TODO_STATUS_ORDER_def) (metis TodoStatus.exhaust)

subsection \<open>Facets\<close>

datatype StatusFilter = AllStatuses | OneStatus TodoStatus

record TodoFilter =
  tf_search :: jstring
  tf_status :: StatusFilter
  tf_tag :: "jstring option"

definition EMPTY_TODO_FILTER :: TodoFilter where
  "EMPTY_TODO_FILTER = \<lparr>tf_search = [], tf_status = AllStatuses, tf_tag = None\<rparr>"

text \<open>A \<open>Set\<close> of strings keeps first occurrences, in order.\<close>

fun set_add_all :: "'a list \<Rightarrow> 'a list \<Rightarrow> 'a list" where
  "set_add_all s [] = s"
| "set_add_all s (x # xs) = set_add_all (if x \<in> set s then s else s @ [x]) xs"

definition todoTags :: "TodoView list \<Rightarrow> jstring list" where
  "todoTags todos = js_sort unit_compare (set_add_all [] (concat (map to_tags todos)))"

definition todo_passes :: "(jstring \<Rightarrow> jstring) \<Rightarrow> TodoFilter \<Rightarrow> jstring \<Rightarrow> TodoView \<Rightarrow> bool" where
  "todo_passes lower filter_state needle todo =
     (if (case tf_status filter_state of AllStatuses \<Rightarrow> False | OneStatus s \<Rightarrow> td_status (to_doc todo) \<noteq> s) then False
      else if (case tf_tag filter_state of None \<Rightarrow> False | Some tag \<Rightarrow> tag \<notin> set (to_tags todo)) then False
      else if needle = [] then True
      else str_includes (lower (td_title (to_doc todo))) needle \<or> str_includes (lower (td_body (to_doc todo))) needle)"

definition filterTodos :: "(jstring \<Rightarrow> jstring) \<Rightarrow> TodoView list \<Rightarrow> TodoFilter \<Rightarrow> TodoView list" where
  "filterTodos lower todos filter_state =
     (let needle = lower (js_trim (tf_search filter_state)) in filter (todo_passes lower filter_state needle) todos)"

definition isFiltering :: "TodoFilter \<Rightarrow> bool" where
  "isFiltering filter_state \<longleftrightarrow> js_trim (tf_search filter_state) \<noteq> [] \<or> tf_status filter_state \<noteq> AllStatuses
     \<or> tf_tag filter_state \<noteq> None"

lemma set_add_all_spec: "set (set_add_all s xs) = set s \<union> set xs \<and> (distinct s \<longrightarrow> distinct (set_add_all s xs))"
  by (induction s xs rule: set_add_all.induct) auto

lemma todoTags_set: "set (todoTags todos) = (\<Union>todo \<in> set todos. set (to_tags todo)) \<and> distinct (todoTags todos)"
  by (simp add: todoTags_def set_add_all_spec)

lemma not_filtering_all:
  "lower [] = [] \<Longrightarrow> \<not> isFiltering filter_state \<Longrightarrow> filterTodos lower todos filter_state = todos"
  by (auto simp: isFiltering_def filterTodos_def todo_passes_def intro: filter_eq_self)

lemma offered_tag_matches:
  assumes "tag \<in> set (todoTags todos)" and "lower [] = []"
  shows "filterTodos lower todos (EMPTY_TODO_FILTER\<lparr>tf_tag := Some tag\<rparr>) \<noteq> []"
  using assms todoTags_set [of todos]
  by (auto simp: filterTodos_def todo_passes_def EMPTY_TODO_FILTER_def filter_empty_conv)

subsection \<open>Buckets by scratchpad\<close>

definition UNLINKED :: jstring where "UNLINKED = lit ''unlinked''"

definition UNLINKED_GROUP_LABEL :: jstring where "UNLINKED_GROUP_LABEL = lit ''No scratchpad''"

record TodoGroup =
  tg_key :: jstring
  tg_label :: jstring
  tg_todos :: "TodoView list"

definition todo_key :: "TodoView \<Rightarrow> jstring" where
  "todo_key todo = (case to_scratchpad todo of None \<Rightarrow> UNLINKED | Some s \<Rightarrow> show_int (sr_id s))"

definition todo_label :: "TodoView \<Rightarrow> jstring" where
  "todo_label todo = (case to_scratchpad todo of None \<Rightarrow> UNLINKED_GROUP_LABEL | Some s \<Rightarrow> humanizeName (sr_name s))"

definition bucket_todo :: "(jstring, TodoGroup) jsmap \<Rightarrow> TodoView \<Rightarrow> (jstring, TodoGroup) jsmap" where
  "bucket_todo byKey todo =
     (let key = todo_key todo
      in case map_get byKey key of
           Some existing \<Rightarrow> map_set key (existing\<lparr>tg_todos := tg_todos existing @ [todo]\<rparr>) byKey
         | None \<Rightarrow> map_set key \<lparr>tg_key = key, tg_label = todo_label todo, tg_todos = [todo]\<rparr> byKey)"

definition groupTodosByScratchpad :: "TodoView list \<Rightarrow> TodoGroup list" where
  "groupTodosByScratchpad todos =
     (let groups = map snd (foldl bucket_todo [] todos)
      in filter (\<lambda>g. tg_key g \<noteq> UNLINKED) groups @ filter (\<lambda>g. tg_key g = UNLINKED) groups)"

text \<open>The first todo of a key gives the group its label and its place.\<close>

definition first_keys :: "TodoView list \<Rightarrow> jstring list" where
  "first_keys todos = set_add_all [] (map todo_key todos)"

lemma set_add_all_append: "set_add_all s (xs @ ys) = set_add_all (set_add_all s xs) ys"
  by (induction s xs rule: set_add_all.induct) simp_all

lemma first_keys_snoc:
  "first_keys (todos @ [todo]) =
     (if todo_key todo \<in> set (first_keys todos) then first_keys todos else first_keys todos @ [todo_key todo])"
  by (simp add: first_keys_def set_add_all_append)

lemma set_first_keys: "set (first_keys todos) = todo_key ` set todos" "distinct (first_keys todos)"
  using set_add_all_spec [of "[]" "map todo_key todos"] by (simp_all add: first_keys_def)

definition bucket :: "TodoView list \<Rightarrow> jstring \<Rightarrow> TodoGroup" where
  "bucket todos key = \<lparr>tg_key = key, tg_label = todo_label (hd (filter (\<lambda>t. todo_key t = key) todos)),
     tg_todos = filter (\<lambda>t. todo_key t = key) todos\<rparr>"

lemma update_in_map:
  "distinct ks \<Longrightarrow> k \<in> set ks \<Longrightarrow> map_set k v (map (\<lambda>j. (j, f j)) ks) = map (\<lambda>j. (j, if j = k then v else f j)) ks"
  by (induction ks) (auto intro: map_cong)

lemma update_not_in_map:
  "k \<notin> set ks \<Longrightarrow> map_set k v (map (\<lambda>j. (j, f j)) ks) = map (\<lambda>j. (j, f j)) ks @ [(k, v)]"
  by (induction ks) auto

lemma buckets_spec: "foldl bucket_todo [] todos = map (\<lambda>k. (k, bucket todos k)) (first_keys todos)"
proof (induction todos rule: rev_induct)
  case Nil
  show ?case by (simp add: first_keys_def)
next
  case (snoc todo todos)
  let ?k = "todo_key todo"
  have get: "map_get (map (\<lambda>k. (k, bucket todos k)) (first_keys todos)) ?k =
      (if ?k \<in> set (first_keys todos) then Some (bucket todos ?k) else None)"
    by (simp add: map_of_map_restrict restrict_map_def)
  have other: "bucket (todos @ [todo]) k = bucket todos k" if "k \<noteq> ?k" for k
    using that by (simp add: bucket_def)
  show ?case
  proof (cases "?k \<in> set (first_keys todos)")
    case True
    then have "filter (\<lambda>t. todo_key t = ?k) todos \<noteq> []"
      by (auto simp: set_first_keys filter_empty_conv)
    then have "bucket (todos @ [todo]) ?k = (bucket todos ?k)\<lparr>tg_todos := tg_todos (bucket todos ?k) @ [todo]\<rparr>"
      by (simp add: bucket_def)
    with other have "map (\<lambda>k. (k, if k = ?k then (bucket todos ?k)\<lparr>tg_todos := tg_todos (bucket todos ?k) @ [todo]\<rparr>
        else bucket todos k)) (first_keys todos) = map (\<lambda>k. (k, bucket (todos @ [todo]) k)) (first_keys todos)"
      by auto
    with True get snoc show ?thesis
      by (simp add: bucket_todo_def first_keys_snoc update_in_map set_first_keys(2) Let_def)
  next
    case False
    then have "filter (\<lambda>t. todo_key t = ?k) todos = []"
      by (auto simp: set_first_keys filter_empty_conv image_iff eq_commute)
    then have "bucket (todos @ [todo]) ?k = \<lparr>tg_key = ?k, tg_label = todo_label todo, tg_todos = [todo]\<rparr>"
      by (simp add: bucket_def)
    moreover have "map (\<lambda>k. (k, bucket (todos @ [todo]) k)) (first_keys todos) = map (\<lambda>k. (k, bucket todos k)) (first_keys todos)"
      using False other by (intro map_cong refl) (metis prod.inject)
    ultimately show ?thesis
      using False get snoc by (simp add: bucket_todo_def first_keys_snoc update_not_in_map Let_def)
  qed
qed

text \<open>
  The board's groups are exactly the todos by scratchpad: one group per key that occurs, in
  order of first appearance with the unlinked last, holding its todos in list order, none empty
  and none lost.
\<close>

theorem todo_groups_exact:
  "map (\<lambda>g. (tg_key g, tg_todos g)) (groupTodosByScratchpad todos) =
     map (\<lambda>k. (k, filter (\<lambda>t. todo_key t = k) todos))
       (filter (\<lambda>k. k \<noteq> UNLINKED) (first_keys todos) @ filter (\<lambda>k. k = UNLINKED) (first_keys todos))
   \<and> mset (concat (map tg_todos (groupTodosByScratchpad todos))) = mset todos
   \<and> [] \<notin> tg_todos ` set (groupTodosByScratchpad todos)"
proof -
  let ?ks = "filter (\<lambda>k. k \<noteq> UNLINKED) (first_keys todos) @ filter (\<lambda>k. k = UNLINKED) (first_keys todos)"
  have groups: "groupTodosByScratchpad todos = map (bucket todos) ?ks"
    by (simp add: groupTodosByScratchpad_def buckets_spec filter_map comp_def bucket_def Let_def)
  have "mset (concat (map (\<lambda>k. filter (\<lambda>t. todo_key t = k) todos) ks)) = filter_mset (\<lambda>t. todo_key t \<in> set ks) (mset todos)"
    if "distinct ks" for ks
    using that
  proof (induction ks)
    case (Cons k ks)
    have "filter_mset (\<lambda>t. todo_key t = k \<or> todo_key t \<in> set ks) (mset todos) =
        filter_mset (\<lambda>t. todo_key t = k) (mset todos) + filter_mset (\<lambda>t. todo_key t \<in> set ks) (mset todos)"
      using Cons.prems by (induction todos) auto
    with Cons show ?case by simp
  qed simp
  moreover have "distinct ?ks" and ks: "set ?ks = todo_key ` set todos"
    using set_first_keys [of todos] by auto
  moreover have "filter_mset (\<lambda>t. todo_key t \<in> todo_key ` set todos) (mset todos) = mset todos"
    by (simp add: filter_mset_eq_conv)
  ultimately have "mset (concat (map (\<lambda>k. filter (\<lambda>t. todo_key t = k) todos) ?ks)) = mset todos"
    by metis
  moreover have "[] \<notin> tg_todos ` set (groupTodosByScratchpad todos)"
  proof
    assume "[] \<in> tg_todos ` set (groupTodosByScratchpad todos)"
    then obtain k where "k \<in> set ?ks" "[] = tg_todos (bucket todos k)"
      unfolding groups set_map by blast
    then have "k \<in> set ?ks" "filter (\<lambda>t. todo_key t = k) todos = []"
      by (simp_all add: bucket_def)
    moreover from this(1) have "k \<in> todo_key ` set todos" unfolding ks .
    ultimately show False by (auto simp: filter_empty_conv)
  qed
  ultimately show ?thesis
    by (simp add: groups bucket_def comp_def del: map_append)
qed

text \<open>No scratchpad's key is the unlinked group's, and two scratchpads have two keys.\<close>

lemma scratchpad_key_not_unlinked: "show_int i \<noteq> UNLINKED"
proof
  assume "show_int i = UNLINKED"
  then have "117 \<in> set (show_int i)" by (simp add: UNLINKED_def lit_def)
  then show False using show_int_units by (force simp: int_unit_def is_digit_unit_def)
qed

end
