(* ===== verification/ShellText.thy ===== *)
theory ShellText
  imports Prelude
begin

section \<open>Command-line text\<close>

text \<open>
  \<open>lib/tokenizeArgs.ts\<close> splits the flags typed for one launch into argument tokens;
  \<open>lib/shellQuote.ts\<close> quotes a dropped path for a POSIX shell. The reading side of the round
  trip is the POSIX rule for single quotes, backslash escapes and unquoted blanks.
\<close>

definition SQ :: nat where "SQ = 39"
definition DQ :: nat where "DQ = 34"
definition BACKSLASH :: nat where "BACKSLASH = 92"

lemmas quote_units = SQ_def DQ_def BACKSLASH_def

definition blank :: "nat \<Rightarrow> bool" where
  "blank c \<longleftrightarrow> c = 32 \<or> c = 9 \<or> c = 10"

subsection \<open>Splitting typed flags\<close>

text \<open>The loop over the input: what is left of it, the open quote, the token so far, and whether one started.\<close>

fun tokenize_loop :: "nat option \<Rightarrow> jstring \<Rightarrow> bool \<Rightarrow> jstring \<Rightarrow> jstring list" where
  "tokenize_loop quote current started [] = (if started then [current] else [])"
| "tokenize_loop (Some q) current started (c # cs) =
     (if c = q then tokenize_loop None current started cs
      else tokenize_loop (Some q) (current @ [c]) started cs)"
| "tokenize_loop None current started (c # cs) =
     (if c = DQ \<or> c = SQ then
        (if c \<notin> set cs then tokenize_loop None (current @ [c]) True cs
         else tokenize_loop (Some c) current True cs)
      else if blank c then
        (if started then current # tokenize_loop None [] False cs
         else tokenize_loop None current started cs)
      else tokenize_loop None (current @ [c]) True cs)"

definition tokenizeArgs :: "jstring \<Rightarrow> jstring list" where
  "tokenizeArgs input = tokenize_loop None [] False input"

text \<open>A way to type any argument list that reads back: each token in a quote it does not contain.\<close>

definition type_token :: "jstring \<Rightarrow> jstring" where
  "type_token t = (if DQ \<notin> set t then [DQ] @ t @ [DQ] else [SQ] @ t @ [SQ])"

lemma quoted_run:
  "q \<notin> set t \<Longrightarrow> tokenize_loop (Some q) current started (t @ q # rest) =
     tokenize_loop None (current @ t) started rest"
  by (induction t arbitrary: current) auto

lemma quoted_token:
  assumes "q = DQ \<or> q = SQ" and "q \<notin> set t"
  shows "tokenize_loop None current started (q # t @ q # rest) = tokenize_loop None (current @ t) True rest"
proof -
  have "q \<in> set (t @ q # rest)" by simp
  with assms show ?thesis by (auto simp: quoted_run)
qed

lemma typed_token:
  assumes "DQ \<notin> set t \<or> SQ \<notin> set t"
  shows "tokenize_loop None [] False (type_token t @ rest) = tokenize_loop None t True rest"
proof (cases "DQ \<in> set t")
  case True
  with assms have "SQ \<notin> set t" by simp
  with True quoted_token [of SQ t "[]" False rest] show ?thesis by (simp add: type_token_def)
next
  case False
  with quoted_token [of DQ t "[]" False rest] show ?thesis by (simp add: type_token_def)
qed

text \<open>
  C37. Any list of arguments can be typed: quoted one by one (each in a quote it does not use)
  and separated by blanks, it tokenizes back to exactly those arguments, empty ones included.
\<close>

theorem tokenize_typed_arguments:
  assumes "\<forall>t \<in> set ts. DQ \<notin> set t \<or> SQ \<notin> set t"
  shows "tokenizeArgs (join_with [32] (map type_token ts)) = ts"
  using assms
proof (induction ts)
  case Nil
  then show ?case by (simp add: tokenizeArgs_def)
next
  case (Cons t ts)
  show ?case
  proof (cases ts)
    case Nil
    with Cons.prems typed_token [of t "[]"] show ?thesis by (simp add: tokenizeArgs_def)
  next
    case (Cons u us)
    have "tokenizeArgs (join_with [32] (map type_token (t # ts))) =
        tokenize_loop None [] False (type_token t @ 32 # join_with [32] (map type_token ts))"
      by (simp add: tokenizeArgs_def Cons)
    also have "\<dots> = t # tokenizeArgs (join_with [32] (map type_token ts))"
      using Cons.prems typed_token [of t "32 # join_with [32] (map type_token ts)"]
      by (simp add: tokenizeArgs_def blank_def quote_units)
    finally show ?thesis using Cons.IH Cons.prems by simp
  qed
qed

theorem tokenize_typed_arguments_witness:
  "tokenizeArgs (join_with [32] (map type_token [[97, 32, 98], [], [39, 99]])) = [[97, 32, 98], [], [39, 99]]"
  by (rule tokenize_typed_arguments) (simp add: quote_units)

text \<open>An unmatched quote is literal: a name with an apostrophe keeps it.\<close>

lemma apostrophe_kept: "tokenizeArgs (lit ''O'' @ [SQ] @ lit ''Brien'') = [lit ''O'' @ [SQ] @ lit ''Brien'']"
  by (simp add: tokenizeArgs_def lit_def quote_units blank_def)

text \<open>No token is made of nothing, and unquoted input is split at blanks only.\<close>

lemma tokenize_plain:
  assumes "\<And>c. c \<in> set t \<Longrightarrow> \<not> blank c \<and> c \<noteq> DQ \<and> c \<noteq> SQ" and "t \<noteq> []"
  shows "tokenizeArgs t = [t]"
proof -
  have "tokenize_loop None current True t = [current @ t]" for current
    using assms(1) by (induction t arbitrary: current) auto
  moreover obtain c cs where "t = c # cs" using assms(2) by (cases t) auto
  ultimately show ?thesis using assms(1) [of c] by (simp add: tokenizeArgs_def) (metis append_Nil append_Cons list.set_intros(1,2) tokenize_loop.simps(3))
qed

subsection \<open>Quoting a path\<close>

definition ESCAPED_QUOTE :: jstring where
  "ESCAPED_QUOTE = [SQ, BACKSLASH, SQ, SQ]"

definition quoteShellPath :: "jstring \<Rightarrow> jstring" where
  "quoteShellPath path = [SQ] @ join_with ESCAPED_QUOTE (split_on SQ path) @ [SQ]"

definition quoteShellPaths :: "jstring list \<Rightarrow> jstring" where
  "quoteShellPaths paths = join_with [32] (map quoteShellPath paths)"

text \<open>
  The shell's reading of a word list without expansions: single quotes make everything literal,
  a backslash outside them makes the next unit literal, unquoted blanks end a word. \<open>None\<close> is
  an unterminated quote, a trailing backslash, or a unit the shell would expand or interpret.
\<close>

definition special :: "nat \<Rightarrow> bool" where
  "special c \<longleftrightarrow> c \<in> set (map of_char (''\"$`&|;<>()*?[]#~=%!{}'' :: string))"

fun sh_read :: "bool \<Rightarrow> jstring option \<Rightarrow> jstring \<Rightarrow> jstring list option" where
  "sh_read True w [] = None"
| "sh_read False w [] = Some (case w of None \<Rightarrow> [] | Some s \<Rightarrow> [s])"
| "sh_read True w (c # cs) =
     (if c = SQ then sh_read False w cs
      else sh_read True (Some ((case w of None \<Rightarrow> [] | Some s \<Rightarrow> s) @ [c])) cs)"
| "sh_read False w (c # cs) =
     (if c = SQ then sh_read True (Some (case w of None \<Rightarrow> [] | Some s \<Rightarrow> s)) cs
      else if c = BACKSLASH then
        (case cs of [] \<Rightarrow> None | d # ds \<Rightarrow> sh_read False (Some ((case w of None \<Rightarrow> [] | Some s \<Rightarrow> s) @ [d])) ds)
      else if blank c then
        (case w of None \<Rightarrow> sh_read False None cs | Some s \<Rightarrow> map_option ((#) s) (sh_read False None cs))
      else if special c then None
      else sh_read False (Some ((case w of None \<Rightarrow> [] | Some s \<Rightarrow> s) @ [c])) cs)"

lemma sh_quoted:
  "SQ \<notin> set seg \<Longrightarrow> sh_read True (Some w) (seg @ SQ # rest) = sh_read False (Some (w @ seg)) rest"
  by (induction seg arbitrary: w) auto

lemma sh_segments:
  "segs \<noteq> [] \<Longrightarrow> (\<And>s. s \<in> set segs \<Longrightarrow> SQ \<notin> set s) \<Longrightarrow>
     sh_read True (Some w) (join_with ESCAPED_QUOTE segs @ SQ # rest) =
     sh_read False (Some (w @ join_with [SQ] segs)) rest"
proof (induction ESCAPED_QUOTE segs arbitrary: w rule: join_with.induct)
  case (2 s)
  then show ?case by (simp add: sh_quoted)
next
  case (3 s t ss)
  have "sh_read True (Some w) (join_with ESCAPED_QUOTE (s # t # ss) @ SQ # rest) =
      sh_read True (Some w) (s @ SQ # BACKSLASH # SQ # SQ # join_with ESCAPED_QUOTE (t # ss) @ SQ # rest)"
    by (simp add: ESCAPED_QUOTE_def)
  also have "\<dots> = sh_read False (Some (w @ s)) (BACKSLASH # SQ # SQ # join_with ESCAPED_QUOTE (t # ss) @ SQ # rest)"
    using "3.prems" by (simp add: sh_quoted)
  also have "\<dots> = sh_read True (Some (w @ s @ [SQ])) (join_with ESCAPED_QUOTE (t # ss) @ SQ # rest)"
    by (simp add: quote_units)
  finally show ?case using 3 by simp
qed simp

lemma sh_quoted_path:
  "sh_read False None (quoteShellPath path @ rest) = sh_read False (Some path) rest"
  using sh_segments [of "split_on SQ path" "[]" rest] split_on_no_sep [of _ SQ path]
  by (simp add: quoteShellPath_def join_split_on)

text \<open>
  C10. Quoting is exact: a POSIX shell reads the quoted paths back as exactly those paths,
  whatever they contain, quotes, blanks, newlines and expansions included.
\<close>

theorem shell_reads_quoted_paths:
  "sh_read False None (quoteShellPaths paths) = Some paths"
proof (induction paths)
  case Nil
  show ?case by (simp add: quoteShellPaths_def)
next
  case (Cons p ps)
  show ?case
  proof (cases ps)
    case Nil
    with sh_quoted_path [of p "[]"] show ?thesis by (simp add: quoteShellPaths_def)
  next
    case (Cons q qs)
    have "sh_read False None (quoteShellPaths (p # ps)) = sh_read False (Some p) (32 # quoteShellPaths ps)"
      using sh_quoted_path [of p "32 # quoteShellPaths ps"] by (simp add: quoteShellPaths_def Cons)
    also have "\<dots> = map_option ((#) p) (sh_read False None (quoteShellPaths ps))"
      by (simp add: blank_def quote_units)
    finally show ?thesis using Cons.IH by simp
  qed
qed

end
