(* ===== verification/GitDisplay.thy ===== *)
theory GitDisplay
  imports Domain
begin

section \<open>Version-control display\<close>

text \<open>
  \<open>lib/git.ts\<close> (the display of changes, checks, conversations and branches, and the key of a
  hunk) and the module store of \<open>store/git/branchCluster.ts\<close>.
\<close>

record ChangeDisplay =
  cd_letter :: jstring
  cd_label :: jstring
  cd_toneClass :: jstring
  cd_gone :: bool

primrec CHANGE :: "ChangeKind \<Rightarrow> ChangeDisplay" where
  "CHANGE Modified = \<lparr>cd_letter = lit ''M'', cd_label = lit ''Modified'',
     cd_toneClass = lit ''text-git-modified'', cd_gone = False\<rparr>"
| "CHANGE TypeChanged = \<lparr>cd_letter = lit ''T'', cd_label = lit ''Type changed'',
     cd_toneClass = lit ''text-git-modified'', cd_gone = False\<rparr>"
| "CHANGE Added = \<lparr>cd_letter = lit ''A'', cd_label = lit ''Added'',
     cd_toneClass = lit ''text-git-added'', cd_gone = False\<rparr>"
| "CHANGE Deleted = \<lparr>cd_letter = lit ''D'', cd_label = lit ''Deleted'',
     cd_toneClass = lit ''text-git-deleted'', cd_gone = True\<rparr>"
| "CHANGE Renamed = \<lparr>cd_letter = lit ''R'', cd_label = lit ''Renamed'',
     cd_toneClass = lit ''text-git-added'', cd_gone = False\<rparr>"
| "CHANGE Copied = \<lparr>cd_letter = lit ''C'', cd_label = lit ''Copied'',
     cd_toneClass = lit ''text-git-added'', cd_gone = False\<rparr>"
| "CHANGE Untracked = \<lparr>cd_letter = lit ''U'', cd_label = lit ''Untracked'',
     cd_toneClass = lit ''text-git-added'', cd_gone = False\<rparr>"
| "CHANGE Conflicted = \<lparr>cd_letter = lit ''C'', cd_label = lit ''Conflicted'',
     cd_toneClass = lit ''text-git-conflicted'', cd_gone = False\<rparr>"

definition primaryChange :: "GitFileStatus \<Rightarrow> ChangeKind option" where
  "primaryChange status = (case gs_unstaged status of Some k \<Rightarrow> Some k | None \<Rightarrow> gs_staged status)"

primrec SEVERITY :: "ChangeKind \<Rightarrow> nat" where
  "SEVERITY Conflicted = 5"
| "SEVERITY Deleted = 4"
| "SEVERITY Modified = 3"
| "SEVERITY TypeChanged = 3"
| "SEVERITY Renamed = 2"
| "SEVERITY Copied = 2"
| "SEVERITY Added = 2"
| "SEVERITY Untracked = 1"

definition strongerChange :: "ChangeKind \<Rightarrow> ChangeKind \<Rightarrow> ChangeKind" where
  "strongerChange a b = (if SEVERITY b > SEVERITY a then b else a)"

datatype StagedState = Staged | Unstaged | Partial

definition stagedState :: "GitFileStatus \<Rightarrow> StagedState" where
  "stagedState status =
     (if gs_staged status = None then Unstaged
      else if gs_unstaged status = None then Staged else Partial)"

definition hunkKey :: "jstring \<Rightarrow> HunkRange \<Rightarrow> jstring" where
  "hunkKey path hunk = path @ lit ''@'' @ show_int (hr_old_start hunk) @ lit '','' @ show_int (hr_old_lines hunk)
     @ lit '','' @ show_int (hr_new_start hunk) @ lit '','' @ show_int (hr_new_lines hunk)"

record CheckDisplay =
  ck_label :: jstring
  ck_toneClass :: jstring

primrec CHECK :: "CheckState \<Rightarrow> CheckDisplay" where
  "CHECK CheckPending = \<lparr>ck_label = lit ''Running'', ck_toneClass = lit ''text-git-modified''\<rparr>"
| "CHECK CheckPassed = \<lparr>ck_label = lit ''Passed'', ck_toneClass = lit ''text-git-added''\<rparr>"
| "CHECK CheckFailed = \<lparr>ck_label = lit ''Failed'', ck_toneClass = lit ''text-git-deleted''\<rparr>"
| "CHECK CheckSkipped = \<lparr>ck_label = lit ''Skipped'', ck_toneClass = lit ''text-git-ignored''\<rparr>"
| "CHECK CheckCancelled = \<lparr>ck_label = lit ''Cancelled'', ck_toneClass = lit ''text-git-ignored''\<rparr>"
| "CHECK CheckUnknown = \<lparr>ck_label = lit ''Unrecognised'', ck_toneClass = lit ''text-git-ignored''\<rparr>"

fun MERGE_METHOD :: "MergeMethod \<Rightarrow> jstring" where
  "MERGE_METHOD MergeCommit = lit ''Create a merge commit''"
| "MERGE_METHOD Squash = lit ''Squash and merge''"
| "MERGE_METHOD Rebase = lit ''Rebase and merge''"

definition threadPlace :: "ReviewThread \<Rightarrow> jstring option" where
  "threadPlace thread = (case rt_path thread of None \<Rightarrow> None
     | Some path \<Rightarrow> Some (case rt_line thread of None \<Rightarrow> path | Some line \<Rightarrow> path @ lit '':'' @ show_int line))"

record BranchStanding =
  bs_label :: "jstring option"
  bs_toneClass :: jstring
  bs_ahead :: int
  bs_behind :: int

definition SYNCED_TONE_CLASS :: jstring where
  "SYNCED_TONE_CLASS = lit ''text-git-branch-synced''"

definition UNSETTLED_TONE_CLASS :: jstring where
  "UNSETTLED_TONE_CLASS = lit ''text-git-branch-local''"

definition LOCAL_ONLY :: jstring where "LOCAL_ONLY = lit ''Local only''"
definition NOT_FETCHED :: jstring where "NOT_FETCHED = lit ''Not fetched''"
definition UP_TO_DATE :: jstring where "UP_TO_DATE = lit ''Up to date''"

fun sync_standing :: "SyncState \<Rightarrow> BranchStanding" where
  "sync_standing SyncUnknown =
     \<lparr>bs_label = Some NOT_FETCHED, bs_toneClass = UNSETTLED_TONE_CLASS, bs_ahead = 0, bs_behind = 0\<rparr>"
| "sync_standing UpToDate =
     \<lparr>bs_label = Some UP_TO_DATE, bs_toneClass = SYNCED_TONE_CLASS, bs_ahead = 0, bs_behind = 0\<rparr>"
| "sync_standing (Ahead a) =
     \<lparr>bs_label = Some (show_int a @ lit '' ahead''), bs_toneClass = UNSETTLED_TONE_CLASS, bs_ahead = a, bs_behind = 0\<rparr>"
| "sync_standing (Behind b) =
     \<lparr>bs_label = Some (show_int b @ lit '' behind''), bs_toneClass = UNSETTLED_TONE_CLASS, bs_ahead = 0, bs_behind = b\<rparr>"
| "sync_standing (Diverged a b) =
     \<lparr>bs_label = Some (show_int a @ lit '' ahead, '' @ show_int b @ lit '' behind''),
      bs_toneClass = UNSETTLED_TONE_CLASS, bs_ahead = a, bs_behind = b\<rparr>"

definition branchStanding :: "BranchInfo \<Rightarrow> BranchStanding" where
  "branchStanding branch =
     (if br_name branch = None
      then \<lparr>bs_label = None, bs_toneClass = UNSETTLED_TONE_CLASS, bs_ahead = 0, bs_behind = 0\<rparr>
      else if br_upstream branch = None
      then \<lparr>bs_label = Some LOCAL_ONLY, bs_toneClass = UNSETTLED_TONE_CLASS, bs_ahead = 0, bs_behind = 0\<rparr>
      else sync_standing (br_sync branch))"

subsection \<open>Facts\<close>

lemma SEVERITY_pos: "SEVERITY k > 0"
  by (cases k) simp_all

lemma stronger_upper: "SEVERITY a \<le> SEVERITY (strongerChange a b)" "SEVERITY b \<le> SEVERITY (strongerChange a b)"
  by (simp_all add: strongerChange_def)

lemma stronger_one: "strongerChange a b = a \<or> strongerChange a b = b"
  by (simp add: strongerChange_def)

text \<open>A row is a change exactly when one side of the index changed, and only such rows are ticked.\<close>

lemma primaryChange_None: "primaryChange status = None \<longleftrightarrow> gs_staged status = None \<and> gs_unstaged status = None"
  by (auto simp: primaryChange_def split: option.split)

text \<open>The key is read from its end: the last at-sign is the separator, since no number holds one.\<close>

lemma split_last_unique:
  assumes "p @ c # x = q @ c # y" and "c \<notin> set x" and "c \<notin> set y"
  shows "p = q \<and> x = y"
proof -
  have "takeWhile (\<lambda>u. u \<noteq> c) (rev (r @ c # z)) = rev z" if "c \<notin> set z" for r z
    using that by (simp add: takeWhile_append2 takeWhile_append)
  with assms have "rev x = rev y" by metis
  with assms(1) show ?thesis by simp
qed

lemma comma_sep [simp]: "\<not> int_unit 44" "\<not> int_unit 64"
  by (simp_all add: int_unit_def is_digit_unit_def)

text \<open>
  A hunk's key identifies the path and the hunk: no two hunks of one repository share the key
  their in-flight action is tracked by, whatever characters the path holds.
\<close>

theorem hunkKey_inj: "hunkKey path hunk = hunkKey path' hunk' \<longleftrightarrow> path = path' \<and> hunk = hunk'"
proof
  define numbers where "numbers = (\<lambda>h. show_int (hr_old_start h) @ 44 # show_int (hr_old_lines h)
     @ 44 # show_int (hr_new_start h) @ 44 # show_int (hr_new_lines (h :: HunkRange)))"
  have key: "hunkKey p h = p @ 64 # numbers h" for p h
    by (simp add: hunkKey_def numbers_def lit_def)
  have "64 \<notin> set (show_int i)" for i
    using show_int_units [of 64 i] by auto
  then have free: "64 \<notin> set (numbers h)" for h
    by (simp add: numbers_def)
  assume "hunkKey path hunk = hunkKey path' hunk'"
  then have "path = path' \<and> numbers hunk = numbers hunk'"
    unfolding key using free split_last_unique by metis
  moreover have "hunk = hunk'" if "numbers hunk = numbers hunk'"
    using that unfolding numbers_def by (simp add: number_then_sep_inj)
  ultimately show "path = path' \<and> hunk = hunk'" by blast
qed simp

text \<open>Only a branch known to match its upstream carries the synced tone.\<close>

lemma synced_tone_iff:
  "bs_toneClass (branchStanding branch) = SYNCED_TONE_CLASS \<longleftrightarrow>
     br_name branch \<noteq> None \<and> br_upstream branch \<noteq> None \<and> br_sync branch = UpToDate"
  by (cases "br_sync branch") (auto simp: branchStanding_def SYNCED_TONE_CLASS_def UNSETTLED_TONE_CLASS_def)

subsection \<open>The branch cluster store\<close>

text \<open>
  Views are compared by reference, so a published view is a reference to it. Listeners and
  switcher requests are sets in insertion order; \<open>cl_calls\<close> are the listener calls made.
\<close>

record BranchClusterStore =
  cl_published :: "nat option"
  cl_listeners :: "nat list"
  cl_switchers :: "nat list"
  cl_calls :: "nat list"
  cl_opened :: "nat list"

definition cluster_init :: BranchClusterStore where
  "cluster_init = \<lparr>cl_published = None, cl_listeners = [], cl_switchers = [], cl_calls = [], cl_opened = []\<rparr>"

definition publishBranchCluster :: "nat option \<Rightarrow> BranchClusterStore \<Rightarrow> BranchClusterStore" where
  "publishBranchCluster next_view s =
     (if next_view = cl_published s then s
      else s\<lparr>cl_published := next_view, cl_calls := cl_calls s @ cl_listeners s\<rparr>)"

definition requestBranchSwitcher :: "BranchClusterStore \<Rightarrow> BranchClusterStore" where
  "requestBranchSwitcher s = s\<lparr>cl_opened := cl_opened s @ cl_switchers s\<rparr>"

definition set_insert :: "'a \<Rightarrow> 'a list \<Rightarrow> 'a list" where
  "set_insert x xs = (if x \<in> set xs then xs else xs @ [x])"

definition onBranchSwitcherRequest :: "nat \<Rightarrow> BranchClusterStore \<Rightarrow> BranchClusterStore" where
  "onBranchSwitcherRequest f s = s\<lparr>cl_switchers := set_insert f (cl_switchers s)\<rparr>"

definition offBranchSwitcherRequest :: "nat \<Rightarrow> BranchClusterStore \<Rightarrow> BranchClusterStore" where
  "offBranchSwitcherRequest f s = s\<lparr>cl_switchers := filter (\<lambda>g. g \<noteq> f) (cl_switchers s)\<rparr>"

definition cluster_subscribe :: "nat \<Rightarrow> BranchClusterStore \<Rightarrow> BranchClusterStore" where
  "cluster_subscribe l s = s\<lparr>cl_listeners := set_insert l (cl_listeners s)\<rparr>"

definition cluster_unsubscribe :: "nat \<Rightarrow> BranchClusterStore \<Rightarrow> BranchClusterStore" where
  "cluster_unsubscribe l s = s\<lparr>cl_listeners := filter (\<lambda>k. k \<noteq> l) (cl_listeners s)\<rparr>"

datatype ClusterOp =
    Publish "nat option" | RequestSwitcher | OnSwitcher nat | OffSwitcher nat | ClusterOn nat | ClusterOff nat

fun cluster_step :: "BranchClusterStore \<Rightarrow> ClusterOp \<Rightarrow> BranchClusterStore" where
  "cluster_step s (Publish v) = publishBranchCluster v s"
| "cluster_step s RequestSwitcher = requestBranchSwitcher s"
| "cluster_step s (OnSwitcher f) = onBranchSwitcherRequest f s"
| "cluster_step s (OffSwitcher f) = offBranchSwitcherRequest f s"
| "cluster_step s (ClusterOn l) = cluster_subscribe l s"
| "cluster_step s (ClusterOff l) = cluster_unsubscribe l s"

lemmas cluster_defs = publishBranchCluster_def requestBranchSwitcher_def onBranchSwitcherRequest_def
  offBranchSwitcherRequest_def cluster_subscribe_def cluster_unsubscribe_def set_insert_def

interpretation cluster: machine cluster_init cluster_step
  "\<lambda>s :: BranchClusterStore. distinct (cl_listeners s) \<and> distinct (cl_switchers s)"
proof
  show "distinct (cl_listeners cluster_init) \<and> distinct (cl_switchers cluster_init)"
    by (simp add: cluster_init_def)
next
  fix s :: BranchClusterStore and op
  assume "distinct (cl_listeners s) \<and> distinct (cl_switchers s)"
  then show "distinct (cl_listeners (cluster_step s op)) \<and> distinct (cl_switchers (cluster_step s op))"
    by (cases op) (simp_all add: cluster_defs)
qed

text \<open>A step calls the listeners exactly when the published view changed, each once.\<close>

lemma cluster_notifies:
  "cl_calls (cluster_step s op) =
     cl_calls s @ (if cl_published (cluster_step s op) = cl_published s then [] else cl_listeners s)"
  by (cases op) (simp_all add: cluster_defs)

end
