(* ===== verification/GitTree.thy ===== *)
theory GitTree
  imports GitDisplay Ordering
begin

section \<open>The repository tree\<close>

text \<open>
  \<open>store/git/tree.ts\<close>: changed or listed paths become a tree whose folders report the strongest
  change beneath them. The builder's map is an insertion-ordered map; a node that the code
  mutates in place is written back under its key. The finished record lists its nodes in
  insertion order; \<open>Object.values\<close> lists array-index keys first, in numeric order.
\<close>

record TreeNode =
  tn_path :: jstring
  tn_name :: jstring
  tn_children :: "jstring list"
  tn_folder :: bool
  tn_change :: "ChangeKind option"
  tn_ignored :: bool

record GitTree =
  gt_nodes :: "(jstring, TreeNode) jsmap"
  gt_roots :: "jstring list"

definition SEPARATOR :: nat where "SEPARATOR = 47"

record Leaf =
  lf_change :: "ChangeKind option"
  lf_ignored :: bool
  lf_folder :: bool

definition newBuilder :: GitTree where
  "newBuilder = \<lparr>gt_nodes = [], gt_roots = []\<rparr>"

definition merge :: "ChangeKind option \<Rightarrow> ChangeKind option \<Rightarrow> ChangeKind option" where
  "merge current incoming = (case incoming of None \<Rightarrow> current
     | Some i \<Rightarrow> (case current of None \<Rightarrow> incoming | Some c \<Rightarrow> Some (strongerChange c i)))"

text \<open>The node of one walked path: created under its parent when it is missing.\<close>

definition ensure_node :: "jstring option \<Rightarrow> jstring \<Rightarrow> jstring \<Rightarrow> bool \<Rightarrow> GitTree \<Rightarrow> GitTree" where
  "ensure_node parentPath walked segment folder b =
     (if map_has (gt_nodes b) walked then b
      else let node = \<lparr>tn_path = walked, tn_name = segment, tn_children = [], tn_folder = folder,
                 tn_change = None, tn_ignored = False\<rparr>;
               nodes = map_set walked node (gt_nodes b)
        in case Option.bind parentPath (map_get nodes) of
             None \<Rightarrow> \<lparr>gt_nodes = nodes, gt_roots = gt_roots b @ [walked]\<rparr>
           | Some parent \<Rightarrow> b\<lparr>gt_nodes :=
               map_set (the parentPath) (parent\<lparr>tn_children := tn_children parent @ [walked]\<rparr>) nodes\<rparr>)"

definition touch_node :: "jstring \<Rightarrow> bool \<Rightarrow> Leaf \<Rightarrow> GitTree \<Rightarrow> GitTree" where
  "touch_node walked last_segment leaf b =
     (case map_get (gt_nodes b) walked of None \<Rightarrow> b
      | Some node \<Rightarrow> b\<lparr>gt_nodes := map_set walked (node\<lparr>tn_change := merge (tn_change node) (lf_change leaf),
          tn_ignored := (if last_segment then tn_ignored node \<or> lf_ignored leaf else tn_ignored node)\<rparr>) (gt_nodes b)\<rparr>)"

definition step_path :: "jstring \<Rightarrow> jstring \<Rightarrow> jstring" where
  "step_path walked segment = (if walked = [] then segment else walked @ SEPARATOR # segment)"

fun insert_walk :: "jstring option \<Rightarrow> jstring \<Rightarrow> jstring list \<Rightarrow> Leaf \<Rightarrow> GitTree \<Rightarrow> GitTree" where
  "insert_walk parentPath walked [] leaf b = b"
| "insert_walk parentPath walked (segment # segments) leaf b =
     (let last_segment = (segments = []);
          walked = step_path walked segment;
          b = ensure_node parentPath walked segment (\<not> last_segment \<or> lf_folder leaf) b;
          b = touch_node walked last_segment leaf b
      in insert_walk (Some walked) walked segments leaf b)"

definition path_segments :: "jstring \<Rightarrow> jstring list" where
  "path_segments path = filter (\<lambda>segment. segment \<noteq> []) (split_on SEPARATOR path)"

definition insert_path :: "GitTree \<Rightarrow> jstring \<Rightarrow> Leaf \<Rightarrow> GitTree" where
  "insert_path b path leaf = insert_walk None [] (path_segments path) leaf b"

definition sortPaths :: "(jstring \<Rightarrow> jstring \<Rightarrow> int) \<Rightarrow> jstring list \<Rightarrow> GitTree \<Rightarrow> jstring list" where
  "sortPaths byName paths b =
     (let rank = (\<lambda>path. case map_get (gt_nodes b) path of Some n \<Rightarrow> if tn_folder n then 0 else 1 | None \<Rightarrow> (1 :: int));
          name = (\<lambda>path. case map_get (gt_nodes b) path of Some n \<Rightarrow> tn_name n | None \<Rightarrow> path)
      in js_sort (\<lambda>x y. if rank x - rank y \<noteq> 0 then rank x - rank y else byName (name x) (name y)) paths)"

definition finish :: "(jstring \<Rightarrow> jstring \<Rightarrow> int) \<Rightarrow> GitTree \<Rightarrow> GitTree" where
  "finish byName b = \<lparr>gt_nodes = map (\<lambda>(k, node). (tn_path node, node\<lparr>tn_children := sortPaths byName (tn_children node) b\<rparr>)) (gt_nodes b),
     gt_roots = sortPaths byName (gt_roots b) b\<rparr>"

definition insert_change :: "GitTree \<Rightarrow> FileChange \<Rightarrow> GitTree" where
  "insert_change b change = (case primaryChange (fc_status change) of None \<Rightarrow> b
     | Some kind \<Rightarrow> insert_path b (fc_path change) \<lparr>lf_change = Some kind, lf_ignored = False, lf_folder = False\<rparr>)"

definition buildChangesTree :: "(jstring \<Rightarrow> jstring \<Rightarrow> int) \<Rightarrow> FileChange list \<Rightarrow> GitTree" where
  "buildChangesTree byName changes = finish byName (foldl insert_change newBuilder changes)"

definition insert_file :: "GitTree \<Rightarrow> ProjectFile \<Rightarrow> GitTree" where
  "insert_file b file = insert_path b (pf_path file)
     \<lparr>lf_change = None, lf_ignored = pf_ignored file, lf_folder = ends_with (pf_path file) [SEPARATOR]\<rparr>"

definition buildFilesTree :: "(jstring \<Rightarrow> jstring \<Rightarrow> int) \<Rightarrow> ProjectFile list \<Rightarrow> GitTree" where
  "buildFilesTree byName files = finish byName (foldl insert_file newBuilder files)"

definition array_index :: "jstring \<Rightarrow> bool" where
  "array_index k \<longleftrightarrow> k \<noteq> [] \<and> list_all is_digit_unit k \<and> show_nat (read_nat k) = k \<and> read_nat k < 4294967295"

definition object_values :: "(jstring, 'v) jsmap \<Rightarrow> 'v list" where
  "object_values m =
     map snd (js_sort (\<lambda>x y. int (read_nat (fst x)) - int (read_nat (fst y))) (filter (\<lambda>(k, v). array_index k) m))
     @ map snd (filter (\<lambda>(k, v). \<not> array_index k) m)"

definition folderPaths :: "GitTree \<Rightarrow> jstring list" where
  "folderPaths tree = map tn_path (filter tn_folder (object_values (gt_nodes tree)))"

subsection \<open>Paths and their parents\<close>

definition parent_of :: "jstring \<Rightarrow> jstring option" where
  "parent_of k = (let ss = split_on SEPARATOR k in if length ss \<le> 1 then None else Some (join_with [SEPARATOR] (butlast ss)))"

fun entry_paths :: "jstring \<Rightarrow> jstring list \<Rightarrow> jstring list" where
  "entry_paths walked [] = []"
| "entry_paths walked (segment # segments) = step_path walked segment # entry_paths (step_path walked segment) segments"

lemma split_on_snoc:
  "c \<notin> set ys \<Longrightarrow> split_on c (xs @ c # ys) = split_on c xs @ [ys]"
proof (induction xs)
  case Nil
  then show ?case by (simp add: split_on_single)
next
  case (Cons x xs)
  then show ?case by (cases "split_on c xs") simp_all
qed

lemma parent_step:
  assumes "SEPARATOR \<notin> set segment"
  shows "parent_of (step_path walked segment) = (if walked = [] then None else Some walked)"
  using assms
  by (cases "walked = []") (simp_all add: step_path_def parent_of_def split_on_single split_on_snoc join_split_on Let_def
      length_Suc_conv)

lemma path_segments_ok: "segment \<in> set (path_segments path) \<Longrightarrow> segment \<noteq> [] \<and> SEPARATOR \<notin> set segment"
  using split_on_no_sep [of segment SEPARATOR path] by (auto simp: path_segments_def)

lemma step_path_longer: "segment \<noteq> [] \<Longrightarrow> length walked < length (step_path walked segment)"
  by (simp add: step_path_def)

lemma step_path_not_Nil: "segment \<noteq> [] \<Longrightarrow> step_path walked segment \<noteq> []"
  by (simp add: step_path_def)

lemma entry_paths_longer:
  "k \<in> set (entry_paths walked segments) \<Longrightarrow> (\<And>s. s \<in> set segments \<Longrightarrow> s \<noteq> []) \<Longrightarrow> length walked < length k"
proof (induction walked segments rule: entry_paths.induct)
  case (2 walked segment segments)
  have "length walked < length (step_path walked segment)"
    using 2 by (intro step_path_longer) simp
  with 2 show ?case by fastforce
qed simp

subsection \<open>The shape of the builder\<close>

definition keys :: "GitTree \<Rightarrow> jstring list" where
  "keys b = map fst (gt_nodes b)"

text \<open>
  Every node sits under its own path, its children are exactly the known paths whose parent it
  is, in insertion order, the roots are the known top-level paths, and parents are known.
\<close>

definition tree_shape :: "GitTree \<Rightarrow> bool" where
  "tree_shape b \<longleftrightarrow> distinct (keys b)
     \<and> (\<forall>k n. map_get (gt_nodes b) k = Some n \<longrightarrow>
          tn_path n = k \<and> tn_children n = filter (\<lambda>j. parent_of j = Some k) (keys b))
     \<and> gt_roots b = filter (\<lambda>j. parent_of j = None) (keys b)
     \<and> (\<forall>k \<in> set (keys b). \<forall>p. parent_of k = Some p \<longrightarrow> p \<in> set (keys b))"

lemma keys_has: "k \<in> set (keys b) \<longleftrightarrow> map_has (gt_nodes b) k"
  by (simp add: keys_def map_has_fst)

lemma keys_get: "k \<in> set (keys b) \<Longrightarrow> \<exists>n. map_get (gt_nodes b) k = Some n"
  by (simp add: keys_has map_has_def)

lemma fst_update: "map fst (map_set k v m) = map fst m @ (if k \<in> fst ` set m then [] else [k])"
  by (simp add: update_keys)

lemma touch_keys [simp]: "keys (touch_node walked l leaf b) = keys b"
proof (cases "map_get (gt_nodes b) walked")
  case (Some node)
  then have "walked \<in> fst ` set (gt_nodes b)"
    using map_has_fst [of "gt_nodes b" walked] by (simp add: map_has_def)
  with Some show ?thesis by (simp add: touch_node_def keys_def fst_update)
qed (simp add: touch_node_def)

lemma touch_roots [simp]: "gt_roots (touch_node walked l leaf b) = gt_roots b"
  by (simp add: touch_node_def split: option.split)

lemma touch_get:
  "map_get (gt_nodes (touch_node walked l leaf b)) k =
     (if k = walked then map_option (\<lambda>node. node\<lparr>tn_change := merge (tn_change node) (lf_change leaf),
        tn_ignored := (if l then tn_ignored node \<or> lf_ignored leaf else tn_ignored node)\<rparr>) (map_get (gt_nodes b) k)
      else map_get (gt_nodes b) k)"
  by (simp add: touch_node_def jsmap.get_put split: option.split)

lemma touch_shape: "tree_shape b \<Longrightarrow> tree_shape (touch_node walked l leaf b)"
  unfolding tree_shape_def by (simp add: touch_get) (auto split: if_splits)

lemma ensure_keys:
  assumes "\<And>p. parentPath = Some p \<Longrightarrow> p \<in> set (keys b)"
  shows "keys (ensure_node parentPath walked segment folder b) =
     (if walked \<in> set (keys b) then keys b else keys b @ [walked])"
proof (cases parentPath)
  case None
  then show ?thesis by (auto simp: ensure_node_def keys_has keys_def fst_update map_has_fst)
next
  case (Some p)
  with assms have "map_has (gt_nodes b) p" by (simp add: keys_has)
  with Some show ?thesis
    by (auto simp: ensure_node_def keys_has keys_def fst_update map_has_fst Let_def dom_update split: option.split)
qed

lemma ensure_shape:
  assumes shape: "tree_shape b" and "\<And>p. parentPath = Some p \<Longrightarrow> p \<in> set (keys b)"
    and parent: "parent_of walked = parentPath"
  shows "tree_shape (ensure_node parentPath walked segment folder b)"
proof (cases "walked \<in> set (keys b)")
  case True
  with shape show ?thesis by (simp add: ensure_node_def keys_has)
next
  case new: False
  let ?b = "ensure_node parentPath walked segment folder b"
  have ks: "keys ?b = keys b @ [walked]" using ensure_keys [OF assms(2)] new by simp
  have childless: "filter (\<lambda>j. parent_of j = Some walked) (keys b) = []"
    using shape new by (auto simp: tree_shape_def filter_empty_conv)
  show ?thesis
  proof (cases parentPath)
    case None
    with new have b: "ensure_node None walked segment folder b = \<lparr>gt_nodes = map_set walked \<lparr>tn_path = walked, tn_name = segment, tn_children = [],
        tn_folder = folder, tn_change = None, tn_ignored = False\<rparr> (gt_nodes b), gt_roots = gt_roots b @ [walked]\<rparr>"
      by (simp add: ensure_node_def keys_has)
    show ?thesis
      using shape new None parent childless unfolding tree_shape_def ks
      by (auto simp: b jsmap.get_put)
  next
    case (Some p)
    then have "p \<in> set (keys b)" and "p \<noteq> walked" using assms(2) new by auto
    then obtain pn where pn: "map_get (gt_nodes b) p = Some pn" using keys_get by blast
    with Some new \<open>p \<noteq> walked\<close> have b: "ensure_node (Some p) walked segment folder b = b\<lparr>gt_nodes := map_set p (pn\<lparr>tn_children := tn_children pn @ [walked]\<rparr>)
        (map_set walked \<lparr>tn_path = walked, tn_name = segment, tn_children = [],
          tn_folder = folder, tn_change = None, tn_ignored = False\<rparr> (gt_nodes b))\<rparr>"
      by (simp add: ensure_node_def keys_has jsmap.get_put)
    show ?thesis
      using shape new Some parent childless pn \<open>p \<in> set (keys b)\<close> \<open>p \<noteq> walked\<close> unfolding tree_shape_def ks
      by (auto simp: b jsmap.get_put)
  qed
qed

lemma insert_walk_shape:
  assumes "tree_shape b" and "\<And>s. s \<in> set segments \<Longrightarrow> s \<noteq> [] \<and> SEPARATOR \<notin> set s"
    and "parentPath = (if walked = [] then None else Some walked)"
    and "walked = [] \<or> walked \<in> set (keys b)"
  shows "tree_shape (insert_walk parentPath walked segments leaf b)
    \<and> set (keys (insert_walk parentPath walked segments leaf b)) = set (keys b) \<union> set (entry_paths walked segments)"
  using assms
proof (induction parentPath walked segments leaf b rule: insert_walk.induct)
  case (2 parentPath walked segment segments leaf b)
  let ?w = "step_path walked segment"
  let ?b = "touch_node ?w (segments = []) leaf (ensure_node parentPath ?w segment (segments \<noteq> [] \<or> lf_folder leaf) b)"
  have w: "?w \<noteq> []" "parent_of ?w = parentPath"
    using "2.prems"(2) [of segment] "2.prems"(3) parent_step [of segment walked] step_path_not_Nil by auto
  have pk: "p \<in> set (keys b)" if "parentPath = Some p" for p
    using that "2.prems"(3,4) by (auto split: if_splits)
  have ks: "set (keys ?b) = insert ?w (set (keys b))"
    using ensure_keys [of parentPath b ?w, OF pk] by (simp add: insert_absorb)
  have "tree_shape ?b"
    using ensure_shape [OF "2.prems"(1) pk w(2)] by (intro touch_shape) simp
  with ks w "2.prems"(2) have "tree_shape (insert_walk (Some ?w) ?w segments leaf ?b)
      \<and> set (keys (insert_walk (Some ?w) ?w segments leaf ?b)) = set (keys ?b) \<union> set (entry_paths ?w segments)"
    by (intro "2.IH") auto
  with ks show ?case by (simp add: Let_def)
qed simp

lemma insert_path_shape:
  assumes "tree_shape b"
  shows "tree_shape (insert_path b path leaf)"
    and "set (keys (insert_path b path leaf)) = set (keys b) \<union> set (entry_paths [] (path_segments path))"
  using insert_walk_shape [OF assms, of "path_segments path" None "[]" leaf] path_segments_ok
  by (auto simp: insert_path_def)

lemma new_shape: "tree_shape newBuilder"
  by (simp add: tree_shape_def newBuilder_def keys_def)

definition reported_paths :: "FileChange \<Rightarrow> jstring list" where
  "reported_paths change = (if primaryChange (fc_status change) = None then []
     else entry_paths [] (path_segments (fc_path change)))"

lemma changes_shape:
  "tree_shape (foldl insert_change newBuilder changes)
   \<and> set (keys (foldl insert_change newBuilder changes)) = (\<Union>c \<in> set changes. set (reported_paths c))"
proof (induction changes rule: rev_induct)
  case Nil
  show ?case using new_shape by (simp add: keys_def newBuilder_def)
next
  case (snoc c changes)
  then show ?case
    using insert_path_shape by (auto simp: insert_change_def reported_paths_def split: option.split)
qed

lemma files_shape: "tree_shape (foldl insert_file newBuilder files)"
  by (induction files rule: rev_induct) (simp_all add: new_shape insert_file_def insert_path_shape)

subsection \<open>Finishing\<close>

lemma mset_sortPaths [simp]: "mset (sortPaths byName paths b) = mset paths"
  by (simp add: sortPaths_def Let_def)

lemma finish_nodes:
  assumes "tree_shape b"
  shows "gt_nodes (finish byName b) =
     map (\<lambda>(k, node). (k, node\<lparr>tn_children := sortPaths byName (tn_children node) b\<rparr>)) (gt_nodes b)"
proof -
  have "tn_path node = k" if "(k, node) \<in> set (gt_nodes b)" for k node
    using assms that by (auto simp: tree_shape_def keys_def)
  then show ?thesis by (auto simp: finish_def)
qed

lemma finish_keys: "tree_shape b \<Longrightarrow> keys (finish byName b) = keys b"
  by (simp add: keys_def finish_nodes comp_def case_prod_unfold)

lemma finish_get:
  "tree_shape b \<Longrightarrow> map_get (gt_nodes (finish byName b)) k =
     map_option (\<lambda>node. node\<lparr>tn_children := sortPaths byName (tn_children node) b\<rparr>) (map_get (gt_nodes b) k)"
  by (simp add: finish_nodes map_of_map)

lemma children_partition:
  "distinct ks \<Longrightarrow> mset (concat (map (\<lambda>k. filter (\<lambda>j. f j = Some k) js) ks)) =
     filter_mset (\<lambda>j. \<exists>k \<in> set ks. f j = Some k) (mset js)"
proof (induction ks)
  case (Cons k ks)
  have "filter_mset (\<lambda>j. \<exists>i \<in> set (k # ks). f j = Some i) (mset js) =
      filter_mset (\<lambda>j. f j = Some k) (mset js) + filter_mset (\<lambda>j. \<exists>i \<in> set ks. f j = Some i) (mset js)"
    using Cons.prems by (induction js) auto
  with Cons show ?case by simp
qed simp

lemma mset_concat_cong: "(\<And>x. x \<in> set xs \<Longrightarrow> mset (f x) = mset (g x)) \<Longrightarrow> mset (concat (map f xs)) = mset (concat (map g xs))"
  by (induction xs) auto

lemma filed_once:
  assumes "tree_shape b"
  shows "distinct (keys (finish byName b))
    \<and> mset (gt_roots (finish byName b) @ concat (map (\<lambda>(k, node). tn_children node) (gt_nodes (finish byName b))))
      = mset (keys (finish byName b))"
proof
  show "distinct (keys (finish byName b))"
    using assms by (simp add: finish_keys tree_shape_def)
  have "mset (concat (map (\<lambda>(k, node). tn_children node) (gt_nodes (finish byName b)))) =
      mset (concat (map (\<lambda>(k, node). filter (\<lambda>j. parent_of j = Some k) (keys b)) (gt_nodes b)))"
    unfolding finish_nodes [OF assms] map_map
    using assms by (intro mset_concat_cong) (auto simp: tree_shape_def keys_def)
  also have "\<dots> = mset (concat (map (\<lambda>k. filter (\<lambda>j. parent_of j = Some k) (keys b)) (keys b)))"
    by (simp add: keys_def comp_def case_prod_unfold)
  also have "\<dots> = filter_mset (\<lambda>j. \<exists>k \<in> set (keys b). parent_of j = Some k) (mset (keys b))"
    using assms by (intro children_partition) (simp add: tree_shape_def)
  also have "\<dots> = filter_mset (\<lambda>j. parent_of j \<noteq> None) (mset (keys b))"
    using assms by (intro filter_mset_cong) (auto simp: tree_shape_def)
  finally have "mset (concat (map (\<lambda>(k, node). tn_children node) (gt_nodes (finish byName b)))) =
      filter_mset (\<lambda>j. parent_of j \<noteq> None) (mset (keys b))" .
  moreover have "mset (gt_roots (finish byName b)) = filter_mset (\<lambda>j. parent_of j = None) (mset (keys b))"
    using assms by (simp add: finish_def tree_shape_def)
  ultimately show "mset (gt_roots (finish byName b) @ concat (map (\<lambda>(k, node). tn_children node) (gt_nodes (finish byName b))))
      = mset (keys (finish byName b))"
    using multiset_partition [of "mset (keys b)" "\<lambda>j. parent_of j = None"] by (simp add: finish_keys assms)
qed

text \<open>
  Every node of a built tree is filed exactly once, among the roots or among the children of one
  node, whatever the paths and the order they were listed in.
\<close>

theorem tree_files_each_node_once:
  "let t = buildChangesTree byName changes; u = buildFilesTree byName files in
     distinct (keys t)
     \<and> mset (gt_roots t @ concat (map (\<lambda>(k, node). tn_children node) (gt_nodes t))) = mset (keys t)
     \<and> distinct (keys u)
     \<and> mset (gt_roots u @ concat (map (\<lambda>(k, node). tn_children node) (gt_nodes u))) = mset (keys u)"
  using filed_once [OF conjunct1 [OF changes_shape], of byName changes]
    filed_once [OF files_shape, of byName files]
  by (simp add: buildChangesTree_def buildFilesTree_def Let_def)

subsection \<open>A folder reports the strongest change beneath it\<close>

definition node_change :: "GitTree \<Rightarrow> jstring \<Rightarrow> ChangeKind option" where
  "node_change b k = Option.bind (map_get (gt_nodes b) k) tn_change"

lemma ensure_change: "node_change (ensure_node parentPath walked segment folder b) k = node_change b k"
proof (cases "map_has (gt_nodes b) walked")
  case True
  then show ?thesis by (simp add: ensure_node_def)
next
  case False
  then have "map_get (gt_nodes b) walked = None" by (simp add: map_has_def)
  with False show ?thesis
    by (cases parentPath) (auto simp: ensure_node_def node_change_def jsmap.get_put Let_def split: option.split)
qed

lemma ensure_has: "map_has (gt_nodes (ensure_node parentPath walked segment folder b)) walked"
  by (simp add: ensure_node_def Let_def split: option.split)

lemma touch_change:
  "map_has (gt_nodes b) walked \<Longrightarrow> node_change (touch_node walked l leaf b) k =
     (if k = walked then merge (node_change b k) (lf_change leaf) else node_change b k)"
  by (auto simp: node_change_def touch_get map_has_def)

lemma insert_walk_change:
  "(\<And>s. s \<in> set segments \<Longrightarrow> s \<noteq> []) \<Longrightarrow>
   node_change (insert_walk parentPath walked segments leaf b) k =
     (if k \<in> set (entry_paths walked segments) then merge (node_change b k) (lf_change leaf) else node_change b k)"
proof (induction parentPath walked segments leaf b rule: insert_walk.induct)
  case (2 parentPath walked segment segments leaf b)
  have "step_path walked segment \<notin> set (entry_paths (step_path walked segment) segments)"
    using entry_paths_longer [of _ "step_path walked segment" segments] "2.prems" by fastforce
  with 2 show ?case
    by (auto simp: Let_def touch_change ensure_has ensure_change)
qed simp

lemma insert_change_change:
  "node_change (insert_change b c) k =
     (if k \<in> set (entry_paths [] (path_segments (fc_path c))) then merge (node_change b k) (primaryChange (fc_status c))
      else node_change b k)"
  using path_segments_ok
  by (auto simp: insert_change_def insert_path_def insert_walk_change merge_def split: option.split)

lemma changes_change:
  "node_change (foldl insert_change newBuilder changes) k =
     foldl merge None (map (\<lambda>c. primaryChange (fc_status c))
       (filter (\<lambda>c. k \<in> set (entry_paths [] (path_segments (fc_path c)))) changes))"
  by (induction changes rule: rev_induct)
    (simp_all add: insert_change_change, simp add: node_change_def newBuilder_def)

lemma merge_all_strongest:
  "Some kind \<in> set (init # ks) \<Longrightarrow>
     \<exists>s. foldl merge init ks = Some s \<and> SEVERITY kind \<le> SEVERITY s \<and> Some s \<in> set (init # ks)"
proof (induction ks arbitrary: init kind)
  case (Cons k ks)
  have "\<exists>j. Some j \<in> set (merge init k # ks) \<and> SEVERITY kind \<le> SEVERITY j"
    using Cons.prems stronger_upper by (cases k; cases init) (auto simp: merge_def)
  then obtain j s where "SEVERITY kind \<le> SEVERITY j" "foldl merge (merge init k) ks = Some s"
    "SEVERITY j \<le> SEVERITY s" "Some s \<in> set (merge init k # ks)"
    using Cons.IH by blast
  moreover have "merge init k = Some s \<Longrightarrow> Some s \<in> {init, k}"
    using stronger_one by (cases k; cases init) (auto simp: merge_def)
  ultimately show ?case by auto
qed auto

text \<open>
  C24. A collapsed folder still says what needs attention: a node above (or at) a changed path
  reports a change at least as severe as that path's, and it is the change of some path at or
  beneath the node.
\<close>

theorem folder_reports_strongest:
  assumes "c \<in> set changes" and "primaryChange (fc_status c) = Some kind"
    and "k \<in> set (entry_paths [] (path_segments (fc_path c)))"
  shows "\<exists>node reported d. map_get (gt_nodes (buildChangesTree byName changes)) k = Some node
    \<and> tn_change node = Some reported \<and> SEVERITY kind \<le> SEVERITY reported
    \<and> d \<in> set changes \<and> primaryChange (fc_status d) = Some reported
    \<and> k \<in> set (entry_paths [] (path_segments (fc_path d)))"
proof -
  let ?b = "foldl insert_change newBuilder changes"
  let ?below = "filter (\<lambda>c. k \<in> set (entry_paths [] (path_segments (fc_path c)))) changes"
  have "Some kind \<in> set (None # map (\<lambda>c. primaryChange (fc_status c)) ?below)"
    using assms by force
  from merge_all_strongest [OF this] obtain s where
    s: "node_change ?b k = Some s" "SEVERITY kind \<le> SEVERITY s"
    and "Some s \<in> (\<lambda>c. primaryChange (fc_status c)) ` set ?below"
    by (auto simp: changes_change)
  then obtain d where "d \<in> set changes" "primaryChange (fc_status d) = Some s"
    "k \<in> set (entry_paths [] (path_segments (fc_path d)))" by auto
  moreover from s(1) obtain node where "map_get (gt_nodes ?b) k = Some node" "tn_change node = Some s"
    by (auto simp: node_change_def bind_eq_Some_conv)
  ultimately show ?thesis
    using s(2) changes_shape [of changes] by (auto simp: buildChangesTree_def finish_get)
qed

definition file_change :: "string \<Rightarrow> ChangeKind \<Rightarrow> FileChange" where
  "file_change path kind = \<lparr>fc_path = lit path, fc_status = \<lparr>gs_staged = None, gs_unstaged = Some kind\<rparr>,
     fc_original_path = None\<rparr>"

lemma lib_paths: "entry_paths [] (path_segments (lit ''lib/a.ts'')) = [lit ''lib'', lit ''lib/a.ts'']"
  by (simp add: path_segments_def lit_def SEPARATOR_def step_path_def)

theorem folder_reports_strongest_witness:
  "\<exists>node reported d. map_get (gt_nodes (buildChangesTree unit_compare
       [file_change ''lib/a.ts'' Untracked, file_change ''lib/b.ts'' Conflicted])) (lit ''lib'') = Some node
     \<and> tn_change node = Some reported \<and> SEVERITY Untracked \<le> SEVERITY reported
     \<and> d \<in> set [file_change ''lib/a.ts'' Untracked, file_change ''lib/b.ts'' Conflicted]
     \<and> primaryChange (fc_status d) = Some reported
     \<and> lit ''lib'' \<in> set (entry_paths [] (path_segments (fc_path d)))"
proof (rule folder_reports_strongest [where c = "file_change ''lib/a.ts'' Untracked"])
  show "lit ''lib'' \<in> set (entry_paths [] (path_segments (fc_path (file_change ''lib/a.ts'' Untracked))))"
    by (simp add: file_change_def lib_paths)
qed (simp_all add: file_change_def primaryChange_def)

text \<open>
  A file replaced by a directory of its name is drawn as a file: version control reports the
  deleted path and the new ones beneath it, and the node has children but is no folder, so
  expanding every folder never reaches them.
\<close>

theorem replaced_file_hides_directory:
  "let t = buildChangesTree unit_compare [file_change ''doc'' Deleted, file_change ''doc/x'' Untracked] in
     map_option (\<lambda>n. (tn_folder n, tn_children n)) (map_get (gt_nodes t) (lit ''doc'')) = Some (False, [lit ''doc/x''])
     \<and> gt_roots t = [lit ''doc''] \<and> folderPaths t = []"
proof -
  have "buildChangesTree unit_compare [file_change ''doc'' Deleted, file_change ''doc/x'' Untracked] =
    \<lparr>gt_nodes = [(lit ''doc'', \<lparr>tn_path = lit ''doc'', tn_name = lit ''doc'', tn_children = [lit ''doc/x''],
        tn_folder = False, tn_change = Some Deleted, tn_ignored = False\<rparr>),
      (lit ''doc/x'', \<lparr>tn_path = lit ''doc/x'', tn_name = lit ''x'', tn_children = [],
        tn_folder = False, tn_change = Some Untracked, tn_ignored = False\<rparr>)],
     gt_roots = [lit ''doc'']\<rparr>"
    by (simp add: buildChangesTree_def file_change_def insert_change_def insert_path_def path_segments_def
        primaryChange_def SEPARATOR_def lit_def ensure_node_def touch_node_def step_path_def newBuilder_def
        finish_def sortPaths_def merge_def strongerChange_def map_has_def Let_def)
  then show ?thesis
    by (simp add: Let_def folderPaths_def object_values_def lit_def array_index_def is_digit_unit_def)
qed

end
