(* ===== verification/Hotkeys.thy ===== *)
theory Hotkeys
  imports Domain
begin

section \<open>Hotkeys\<close>

text \<open>
  \<open>lib/hotkeys.ts\<close>: the labels of the closed action and scope sets, the conversion of a key
  event to the chord the core stores, and the one search of the keymap. A key event is its
  key token and its four modifier flags; the arrows' glyphs are single code units.
\<close>

definition HOTKEY_SCOPE_ORDER :: "HotkeyScope list" where
  "HOTKEY_SCOPE_ORDER = [HkGeneral, HkSidebar, HkTerminal, HkScratchpad]"

fun HOTKEY_SCOPE_LABELS :: "HotkeyScope \<Rightarrow> jstring" where
  "HOTKEY_SCOPE_LABELS HkGeneral = lit ''General''"
| "HOTKEY_SCOPE_LABELS HkSidebar = lit ''Sidebar''"
| "HOTKEY_SCOPE_LABELS HkTerminal = lit ''Terminal''"
| "HOTKEY_SCOPE_LABELS HkScratchpad = lit ''Scratchpad''"

fun HOTKEY_SCOPE_DESCRIPTIONS :: "HotkeyScope \<Rightarrow> jstring" where
  "HOTKEY_SCOPE_DESCRIPTIONS HkGeneral = lit ''App-wide actions, palettes, and system shortcuts.''"
| "HOTKEY_SCOPE_DESCRIPTIONS HkSidebar = lit ''Navigating the project tree.''"
| "HOTKEY_SCOPE_DESCRIPTIONS HkTerminal = lit ''Active while the terminal is focused.''"
| "HOTKEY_SCOPE_DESCRIPTIONS HkScratchpad = lit ''Active while the scratchpad panel is focused.''"

primrec HOTKEY_ACTION_LABELS :: "HotkeyAction \<Rightarrow> jstring" where
  "HOTKEY_ACTION_LABELS open_command_palette = lit ''Open command palette''"
| "HOTKEY_ACTION_LABELS quick_actions = lit ''Quick actions''"
| "HOTKEY_ACTION_LABELS quick_jump = lit ''Quick jump''"
| "HOTKEY_ACTION_LABELS new_agent_or_terminal = lit ''New agent or terminal''"
| "HOTKEY_ACTION_LABELS open_settings = lit ''Open settings''"
| "HOTKEY_ACTION_LABELS open_terminal_search = lit ''Open terminal search''"
| "HOTKEY_ACTION_LABELS close_agent_or_terminal = lit ''Close agent or terminal''"
| "HOTKEY_ACTION_LABELS next_project_group = lit ''Next project group''"
| "HOTKEY_ACTION_LABELS prev_project_group = lit ''Previous project group''"
| "HOTKEY_ACTION_LABELS next_section = lit ''Next section''"
| "HOTKEY_ACTION_LABELS prev_section = lit ''Previous section''"
| "HOTKEY_ACTION_LABELS jump_to_agents = lit ''Jump to Agents''"
| "HOTKEY_ACTION_LABELS jump_to_commands = lit ''Jump to Commands''"
| "HOTKEY_ACTION_LABELS jump_to_terminals = lit ''Jump to Terminals''"
| "HOTKEY_ACTION_LABELS collapse_or_section = lit ''Collapse / go to section''"
| "HOTKEY_ACTION_LABELS jump_to_parent_project = lit ''Jump to parent project''"
| "HOTKEY_ACTION_LABELS expand_project = lit ''Expand project''"
| "HOTKEY_ACTION_LABELS restart_selection = lit ''Restart''"
| "HOTKEY_ACTION_LABELS previous_process = lit ''Previous process''"
| "HOTKEY_ACTION_LABELS next_process = lit ''Next process''"
| "HOTKEY_ACTION_LABELS increase_terminal_font_size = lit ''Increase terminal font size''"
| "HOTKEY_ACTION_LABELS decrease_terminal_font_size = lit ''Decrease terminal font size''"
| "HOTKEY_ACTION_LABELS copy_selection = lit ''Copy selection''"
| "HOTKEY_ACTION_LABELS paste_clipboard = lit ''Paste from clipboard''"
| "HOTKEY_ACTION_LABELS archive_scratchpad = lit ''Archive scratchpad''"

definition MODIFIER_KEYS :: "jstring list" where
  "MODIFIER_KEYS = [lit ''Control'', lit ''Alt'', lit ''Shift'', lit ''Meta'']"

definition KEY_GLYPHS :: "(jstring, jstring) jsmap" where
  "KEY_GLYPHS = [(lit ''ArrowUp'', [0x2191]), (lit ''ArrowDown'', [0x2193]), (lit ''ArrowLeft'', [0x2190]),
     (lit ''ArrowRight'', [0x2192]), (lit '' '', lit ''Space''), (lit ''Escape'', lit ''Esc'')]"

definition formatChord :: "Binding \<Rightarrow> jstring list" where
  "formatChord binding =
     (if bd_ctrl binding then [lit ''Ctrl''] else []) @ (if bd_alt binding then [lit ''Alt''] else [])
     @ (if bd_shift binding then [lit ''Shift''] else []) @ (if bd_super binding then [lit ''Super''] else [])
     @ [case map_get KEY_GLYPHS (bd_key binding) of Some glyph \<Rightarrow> glyph | None \<Rightarrow> bd_key binding]"

record KeyEvent =
  ke_key :: jstring
  ke_ctrl :: bool
  ke_alt :: bool
  ke_shift :: bool
  ke_meta :: bool

text \<open>One code unit that is an ASCII letter is uppercased.\<close>

definition ascii_letter :: "nat \<Rightarrow> bool" where
  "ascii_letter c \<longleftrightarrow> 65 \<le> c \<and> c \<le> 90 \<or> 97 \<le> c \<and> c \<le> 122"

definition key_token :: "jstring \<Rightarrow> jstring" where
  "key_token key = (case key of
     [c] \<Rightarrow> if ascii_letter c then [if 97 \<le> c then c - 32 else c] else key
   | _ \<Rightarrow> key)"

definition bindingFromEvent :: "KeyEvent \<Rightarrow> Binding option" where
  "bindingFromEvent event =
     (if ke_key event \<in> set MODIFIER_KEYS then None
      else Some \<lparr>bd_ctrl = ke_ctrl event, bd_alt = ke_alt event, bd_shift = ke_shift event,
        bd_super = ke_meta event, bd_key = key_token (ke_key event)\<rparr>)"

definition hasCommandModifier :: "Binding \<Rightarrow> bool" where
  "hasCommandModifier binding \<longleftrightarrow> bd_ctrl binding \<or> bd_alt binding \<or> bd_super binding"

definition bindingsEqual :: "Binding \<Rightarrow> Binding \<Rightarrow> bool" where
  "bindingsEqual a b \<longleftrightarrow> bd_ctrl a = bd_ctrl b \<and> bd_alt a = bd_alt b \<and> bd_shift a = bd_shift b
     \<and> bd_super a = bd_super b \<and> bd_key a = bd_key b"

fun matchHotkey ::
  "HotkeyBindingView list \<Rightarrow> HotkeyScope \<Rightarrow> Binding \<Rightarrow> (HotkeyAction \<Rightarrow> bool) \<Rightarrow> HotkeyAction option" where
  "matchHotkey [] scope pressed accept = None"
| "matchHotkey (row # rows) scope pressed accept =
     (if hb_scope row = scope \<and> (case hb_binding row of None \<Rightarrow> False | Some b \<Rightarrow> bindingsEqual b pressed)
         \<and> accept (hb_action row)
      then Some (hb_action row) else matchHotkey rows scope pressed accept)"

subsection \<open>Facts\<close>

lemma bindingsEqual_iff [simp]: "bindingsEqual a b \<longleftrightarrow> a = b"
  by (auto simp: bindingsEqual_def)

lemma scope_order_complete: "set HOTKEY_SCOPE_ORDER = UNIV \<and> distinct HOTKEY_SCOPE_ORDER"
  by (auto simp: HOTKEY_SCOPE_ORDER_def) (metis HotkeyScope.exhaust)

lemma key_token_idem: "key_token (key_token k) = key_token k"
  by (auto simp: key_token_def ascii_letter_def split: list.split)

lemma modifier_tokens: "k \<in> set MODIFIER_KEYS \<Longrightarrow> key_token k = k"
  by (auto simp: MODIFIER_KEYS_def key_token_def lit_def)

lemma key_token_modifier: "key_token k \<in> set MODIFIER_KEYS \<longleftrightarrow> k \<in> set MODIFIER_KEYS"
  by (auto simp: MODIFIER_KEYS_def key_token_def lit_def split: list.splits)

lemma match_None:
  "matchHotkey rows scope pressed accept = None \<longleftrightarrow>
     (\<forall>row \<in> set rows. \<not> (hb_scope row = scope \<and> hb_binding row = Some pressed \<and> accept (hb_action row)))"
  by (induction rows) (auto split: option.splits)

lemma match_Some:
  "matchHotkey rows scope pressed accept = Some action \<Longrightarrow>
     \<exists>row \<in> set rows. hb_scope row = scope \<and> hb_binding row = Some pressed \<and> hb_action row = action \<and> accept action"
  by (induction rows) (auto split: option.splits if_splits)

definition press :: "Binding \<Rightarrow> KeyEvent" where
  "press b = \<lparr>ke_key = bd_key b, ke_ctrl = bd_ctrl b, ke_alt = bd_alt b, ke_shift = bd_shift b, ke_meta = bd_super b\<rparr>"


definition sample_press :: KeyEvent where
  "sample_press = \<lparr>ke_key = lit ''k'', ke_ctrl = True, ke_alt = False, ke_shift = False, ke_meta = False\<rparr>"

definition sample_binding :: Binding where
  "sample_binding = \<lparr>bd_ctrl = True, bd_alt = False, bd_shift = False, bd_super = False, bd_key = lit ''K''\<rparr>"

definition sample_row :: HotkeyBindingView where
  "sample_row = \<lparr>hb_action = open_command_palette, hb_scope = HkGeneral, hb_binding = Some sample_binding,
     hb_is_default = True, hb_conflict = False\<rparr>"


end
