(* ===== verification/Palette.thy ===== *)
theory Palette
  imports ProcessActions Hotkeys
begin

section \<open>The command palette\<close>

text \<open>
  \<open>lib/commands.ts\<close>: the palette's registry, built from the live state. A command's \<open>run\<close>
  closure is the call it makes. Of the branch cluster the registry reads which controls are
  offered, the branch and the capabilities.
\<close>

datatype PaletteCall =
    CallNewAgentOrTerminal | CallOpenProject | CallOpenSettings | CallSetTheme Theme
  | CallSwitchBranch | CallFetch | CallPull | CallPush | CallStopExchange | CallPullRequest
  | CallStartAll int | CallStopAll int | CallRestartRunning int | CallProjectSettings int
  | CallOrchestration int | CallSelectProcess int | CallProcess ProcessCall

record PaletteCommand =
  pc_id :: jstring
  pc_label :: jstring
  pc_keywords :: "jstring list"
  pc_run :: PaletteCall

record CommandGroup =
  cg_heading :: jstring
  cg_commands :: "PaletteCommand list"

record PaletteGit =
  gx_branch :: BranchInfo
  gx_capabilities :: GitCapabilities
  gx_exchanging :: bool
  gx_exchange :: bool \<comment> \<open>the exchange actions are offered\<close>
  gx_branchActions :: bool
  gx_openPullRequest :: bool

record CommandContext =
  cx_processes :: "ProcessView list"
  cx_projects :: "ProjectView list"
  cx_git :: "PaletteGit option"

definition command :: "jstring \<Rightarrow> jstring \<Rightarrow> jstring list \<Rightarrow> PaletteCall \<Rightarrow> PaletteCommand" where
  "command i label keywords run = \<lparr>pc_id = i, pc_label = label, pc_keywords = keywords, pc_run = run\<rparr>"

definition ELLIPSIS :: jstring where "ELLIPSIS = [0x2026]"

definition DASH :: jstring where "DASH = lit '' '' @ [0x2014] @ lit '' ''"

fun THEME_LABELS :: "Theme \<Rightarrow> jstring" where
  "THEME_LABELS ThemeLight = lit ''Light''"
| "THEME_LABELS ThemeDark = lit ''Dark''"
| "THEME_LABELS ThemeSystem = lit ''System''"

fun theme_key :: "Theme \<Rightarrow> jstring" where
  "theme_key ThemeLight = lit ''light''"
| "theme_key ThemeDark = lit ''dark''"
| "theme_key ThemeSystem = lit ''system''"

definition THEMES :: "Theme list" where "THEMES = [ThemeLight, ThemeDark, ThemeSystem]"

definition GIT_HEADING :: jstring where "GIT_HEADING = lit ''Version control''"
definition SWITCH_BRANCH :: jstring where "SWITCH_BRANCH = lit ''Switch branch'' @ ELLIPSIS"
definition FETCH :: jstring where "FETCH = lit ''Fetch from the remote''"
definition PULL :: jstring where "PULL = lit ''Pull from the upstream''"
definition PUSH :: jstring where "PUSH = lit ''Push to the upstream''"
definition PUBLISH :: jstring where "PUBLISH = lit ''Publish this branch''"
definition STOP_EXCHANGE :: jstring where "STOP_EXCHANGE = lit ''Stop waiting on the remote''"
definition SHOW_PULL_REQUEST :: jstring where
  "SHOW_PULL_REQUEST = lit ''Show this branch'' @ [39] @ lit ''s pull request''"
definition GIT_KEYWORDS :: "jstring list" where
  "GIT_KEYWORDS = [lit ''git'', lit ''version control'', lit ''branch'']"

definition exchange_commands :: "PaletteGit \<Rightarrow> PaletteCommand list" where
  "exchange_commands git =
     (if gx_exchanging git
      then [command (lit ''git:stop-exchange'') STOP_EXCHANGE (GIT_KEYWORDS @ [lit ''cancel'', lit ''abort'']) CallStopExchange]
      else (let unpublished = br_upstream (gx_branch git) = None
        in [command (lit ''git:fetch'') FETCH (GIT_KEYWORDS @ [lit ''remote'', lit ''refresh'', lit ''origin'']) CallFetch]
           @ (if gc_pull (gx_capabilities git)
              then [command (lit ''git:pull'') PULL
                (GIT_KEYWORDS @ [lit ''remote'', lit ''merge'', lit ''rebase'', lit ''incoming'']) CallPull] else [])
           @ (if gc_push (gx_capabilities git)
              then [command (lit ''git:push'') (if unpublished then PUBLISH else PUSH)
                (GIT_KEYWORDS @ [lit ''remote'', lit ''upstream'', lit ''outgoing'']) CallPush] else [])))"

definition gitCommands :: "PaletteGit \<Rightarrow> PaletteCommand list" where
  "gitCommands git =
     (if gx_branchActions git
      then [command (lit ''git:switch-branch'') SWITCH_BRANCH
        (GIT_KEYWORDS @ [lit ''checkout'', lit ''create'', lit ''stash'']) CallSwitchBranch] else [])
     @ (if gx_exchange git then exchange_commands git else [])
     @ (if gx_openPullRequest git
        then [command (lit ''git:pull-request'') SHOW_PULL_REQUEST
          (GIT_KEYWORDS @ [lit ''pr'', lit ''gh'', lit ''github'', lit ''propose'', lit ''review'', lit ''forge'']) CallPullRequest]
        else [])"

definition action_commands :: "PaletteCommand list" where
  "action_commands =
     [command (lit ''action:new'') (HOTKEY_ACTION_LABELS new_agent_or_terminal)
        [lit ''launch'', lit ''agent'', lit ''terminal'', lit ''spawn''] CallNewAgentOrTerminal,
      command (lit ''action:open-project'') (lit ''Open project'' @ ELLIPSIS)
        [lit ''folder'', lit ''add'', lit ''import''] CallOpenProject,
      command (lit ''action:settings'') (lit ''Open settings'')
        [lit ''preferences'', lit ''hotkeys'', lit ''appearance'', lit ''agent'', lit ''assist'', lit ''draft'',
         lit ''ai commit message''] CallOpenSettings]"

definition theme_commands :: "PaletteCommand list" where
  "theme_commands = map (\<lambda>theme. command (lit ''theme:'' @ theme_key theme) (lit ''Theme: '' @ THEME_LABELS theme)
     [lit ''theme'', lit ''appearance'', lit ''dark'', lit ''light'', lit ''system''] (CallSetTheme theme)) THEMES"

definition numbered_id :: "string \<Rightarrow> int \<Rightarrow> jstring \<Rightarrow> jstring" where
  "numbered_id tag i rest = lit tag @ show_int i @ lit '':'' @ rest"

definition project_commands :: "ProjectView \<Rightarrow> PaletteCommand list" where
  "project_commands project =
     (let i = pj_id project; name = pj_name project; key = numbered_id ''project:'' i
      in [command (key (lit ''start-all'')) (lit ''Start all'' @ DASH @ name) [lit ''bulk'', lit ''stack'', name] (CallStartAll i),
          command (key (lit ''stop-all'')) (lit ''Stop all'' @ DASH @ name) [lit ''bulk'', lit ''stack'', name] (CallStopAll i),
          command (key (lit ''restart-running'')) (lit ''Restart running'' @ DASH @ name)
            [lit ''bulk'', lit ''stack'', name] (CallRestartRunning i),
          command (key (lit ''settings'')) (lit ''Open settings'' @ DASH @ name) [name] (CallProjectSettings i),
          command (key (lit ''orchestration'')) (lit ''Open orchestration'' @ DASH @ name)
            [name, lit ''agents'', lit ''tree''] (CallOrchestration i)])"

primrec action_key :: "ProcessActionKind \<Rightarrow> jstring" where
  "action_key ActTrust = lit ''trust''"
| "action_key ActResume = lit ''resume''"
| "action_key ActStart = lit ''start''"
| "action_key ActStop = lit ''stop''"
| "action_key ActRestart = lit ''restart''"
| "action_key ActRemove = lit ''remove''"

definition process_commands :: "(int, jstring) jsmap \<Rightarrow> ProcessView \<Rightarrow> PaletteCommand list" where
  "process_commands projectNameById proc =
     (let projectName = (case map_get projectNameById (pv_project proc) of Some name \<Rightarrow> name | None \<Rightarrow> [])
      in command (numbered_id ''process:'' (pv_id proc) (lit ''focus'')) (lit ''Focus '' @ pv_label proc)
           [projectName, lit ''open'', lit ''terminal'', lit ''jump''] (CallSelectProcess (pv_id proc))
         # map (\<lambda>action. command (numbered_id ''process:'' (pv_id proc) (action_key (ra_kind action)))
             (ra_label action @ lit '' '' @ pv_label proc) [projectName] (CallProcess (ra_run action)))
           (runnableProcessActions proc))"

definition buildCommands :: "CommandContext \<Rightarrow> CommandGroup list" where
  "buildCommands ctx =
     (let git = (case cx_git ctx of None \<Rightarrow> [] | Some g \<Rightarrow> gitCommands g);
          projectNameById = map_from (map (\<lambda>p. (pj_id p, pj_name p)) (cx_projects ctx));
          processCommands = concat (map (process_commands projectNameById) (cx_processes ctx))
      in [\<lparr>cg_heading = lit ''Actions'', cg_commands = action_commands\<rparr>]
         @ (if length git > 0 then [\<lparr>cg_heading = GIT_HEADING, cg_commands = git\<rparr>] else [])
         @ [\<lparr>cg_heading = lit ''Appearance'', cg_commands = theme_commands\<rparr>]
         @ map (\<lambda>project. \<lparr>cg_heading = pj_name project, cg_commands = project_commands project\<rparr>) (cx_projects ctx)
         @ (if length processCommands > 0 then [\<lparr>cg_heading = lit ''Processes'', cg_commands = processCommands\<rparr>] else []))"

subsection \<open>Every command has its own identity\<close>

definition all_commands :: "CommandContext \<Rightarrow> PaletteCommand list" where
  "all_commands ctx = concat (map cg_commands (buildCommands ctx))"

definition git_of :: "CommandContext \<Rightarrow> PaletteCommand list" where
  "git_of ctx = (case cx_git ctx of None \<Rightarrow> [] | Some g \<Rightarrow> gitCommands g)"

definition names_of :: "CommandContext \<Rightarrow> (int, jstring) jsmap" where
  "names_of ctx = map_from (map (\<lambda>p. (pj_id p, pj_name p)) (cx_projects ctx))"

lemma all_commands_parts:
  "all_commands ctx = action_commands @ git_of ctx @ theme_commands
     @ concat (map project_commands (cx_projects ctx))
     @ concat (map (process_commands (names_of ctx)) (cx_processes ctx))"
  by (simp add: all_commands_def buildCommands_def git_of_def names_of_def Let_def comp_def)

lemma numbered_id_inj:
  "numbered_id p i s = numbered_id p j t \<longleftrightarrow> i = j \<and> s = t"
proof -
  have "\<not> int_unit 58" by (simp add: int_unit_def is_digit_unit_def)
  from number_then_sep_inj [OF this] show ?thesis by (simp add: numbered_id_def lit_def)
qed

lemma action_key_inj [simp]: "action_key a = action_key b \<longleftrightarrow> a = b"
  by (cases a; cases b) simp_all

lemma action_key_focus [simp]: "action_key a \<noteq> lit ''focus''" "lit ''focus'' \<noteq> action_key a"
  by (cases a; simp)+

lemma process_ids:
  "map pc_id (process_commands names p) =
     map (numbered_id ''process:'' (pv_id p)) (lit ''focus'' # map action_key (processActions (action_state p)))"
  by (simp add: process_commands_def command_def Let_def comp_def runnable_kinds [symmetric])

lemma project_ids:
  "map pc_id (project_commands j) = map (numbered_id ''project:'' (pj_id j))
     [lit ''start-all'', lit ''stop-all'', lit ''restart-running'', lit ''settings'', lit ''orchestration'']"
  by (simp add: project_commands_def command_def Let_def)

lemma distinct_numbered: "distinct ss \<Longrightarrow> distinct (map (numbered_id p i) ss)"
  by (simp add: distinct_map inj_on_def numbered_id_inj)

lemma distinct_blocks:
  assumes "distinct (map key xs)" and "\<And>x. x \<in> set xs \<Longrightarrow> distinct (f x)"
    and "\<And>x y i. x \<in> set xs \<Longrightarrow> y \<in> set xs \<Longrightarrow> i \<in> set (f x) \<Longrightarrow> i \<in> set (f y) \<Longrightarrow> key x = key y"
  shows "distinct (concat (map f xs))"
  using assms
proof (induction xs)
  case (Cons x xs)
  have "set (f x) \<inter> set (concat (map f xs)) = {}"
    using Cons.prems by (fastforce simp: image_iff)
  with Cons show ?case by simp
qed simp

lemma command_ids_distinct:
  assumes "distinct (map pv_id ps)"
  shows "distinct (concat (map (\<lambda>p. map pc_id (process_commands names p)) ps))"
proof (rule distinct_blocks [OF assms])
  fix p
  show "distinct (map pc_id (process_commands names p))"
    unfolding process_ids using actions_distinct [of "action_state p"]
    by (intro distinct_numbered) (auto simp: distinct_map inj_on_def)
qed (auto simp: process_ids numbered_id_inj)

lemma project_ids_distinct:
  assumes "distinct (map pj_id js)"
  shows "distinct (concat (map (\<lambda>j. map pc_id (project_commands j)) js))"
proof (rule distinct_blocks [OF assms])
  fix j
  show "distinct (map pc_id (project_commands j))"
    unfolding project_ids by (intro distinct_numbered) simp
qed (auto simp: project_ids numbered_id_inj)

text \<open>Ids of the five sources differ in their first units.\<close>

lemma fixed_ids:
  "map pc_id action_commands = [lit ''action:new'', lit ''action:open-project'', lit ''action:settings'']"
  "map pc_id theme_commands = [lit ''theme:light'', lit ''theme:dark'', lit ''theme:system'']"
  "subseq (map pc_id (git_of ctx)) [lit ''git:switch-branch'', lit ''git:stop-exchange'', lit ''git:fetch'',
     lit ''git:pull'', lit ''git:push'', lit ''git:pull-request'']"
  by (simp_all add: action_commands_def theme_commands_def THEMES_def command_def git_of_def gitCommands_def
      exchange_commands_def Let_def lit_def split: option.split)

definition tagged :: "string \<Rightarrow> jstring list \<Rightarrow> bool" where
  "tagged tag ids \<longleftrightarrow> (\<forall>i \<in> set ids. take 4 i = lit tag)"

lemma tagged_disjoint: "tagged a xs \<Longrightarrow> tagged b ys \<Longrightarrow> a \<noteq> b \<Longrightarrow> set xs \<inter> set ys = {}"
  unfolding tagged_def by (metis disjoint_iff lit_eq_iff)

lemma tagged_concat: "(\<And>x. x \<in> set xs \<Longrightarrow> tagged t (f x)) \<Longrightarrow> tagged t (concat (map f xs))"
  by (auto simp: tagged_def)

lemma tagged_numbered: "tagged ''proj'' (map (numbered_id ''project:'' i) ss)" "tagged ''proc'' (map (numbered_id ''process:'' i) ss)"
  by (simp_all add: tagged_def numbered_id_def lit_def)

lemma subseq_set: "subseq xs ys \<Longrightarrow> set xs \<subseteq> set ys"
  by (induction xs ys rule: list_emb.induct) auto

lemma subseq_distinct_list: "subseq xs ys \<Longrightarrow> distinct ys \<Longrightarrow> distinct xs"
proof (induction xs ys rule: list_emb.induct)
  case (list_emb_Cons2 x y xs ys)
  then show ?case using subseq_set by auto
qed auto

lemma git_ids: "distinct (map pc_id (git_of ctx)) \<and> tagged ''git:'' (map pc_id (git_of ctx))"
proof -
  let ?all = "[lit ''git:switch-branch'', lit ''git:stop-exchange'', lit ''git:fetch'', lit ''git:pull'', lit ''git:push'', lit ''git:pull-request'']"
  have "tagged ''git:'' ?all" by (simp add: tagged_def lit_def)
  moreover have "set (map pc_id (git_of ctx)) \<subseteq> set ?all"
    using fixed_ids(3) [of ctx] by (rule subseq_set)
  moreover have "distinct (map pc_id (git_of ctx))"
    using fixed_ids(3) [of ctx] by (rule subseq_distinct_list) simp
  ultimately show ?thesis unfolding tagged_def by blast
qed

text \<open>
  Palette identities are unique: with distinct project ids and distinct process ids, no two
  commands of the registry share an id, so a search result or a list key names one command.
\<close>

theorem palette_ids_unique:
  assumes "distinct (map pj_id (cx_projects ctx))" and "distinct (map pv_id (cx_processes ctx))"
  shows "distinct (map pc_id (all_commands ctx))"
proof -
  let ?P = "concat (map (\<lambda>j. map pc_id (project_commands j)) (cx_projects ctx))"
  let ?Q = "concat (map (\<lambda>p. map pc_id (process_commands (names_of ctx) p)) (cx_processes ctx))"
  let ?A = "map pc_id action_commands" and ?G = "map pc_id (git_of ctx)" and ?T = "map pc_id theme_commands"
  have tags: "tagged ''acti'' ?A" "tagged ''git:'' ?G" "tagged ''them'' ?T" "tagged ''proj'' ?P" "tagged ''proc'' ?Q"
  proof -
    show "tagged ''acti'' ?A" "tagged ''them'' ?T" by (simp_all add: fixed_ids tagged_def lit_def)
    show "tagged ''git:'' ?G" using git_ids by blast
    show "tagged ''proj'' ?P" "tagged ''proc'' ?Q"
      unfolding project_ids process_ids by (intro tagged_concat tagged_numbered)+
  qed
  have "set ?A \<inter> set ?G = {}" "set ?A \<inter> set ?T = {}" "set ?A \<inter> set ?P = {}" "set ?A \<inter> set ?Q = {}"
    "set ?G \<inter> set ?T = {}" "set ?G \<inter> set ?P = {}" "set ?G \<inter> set ?Q = {}"
    "set ?T \<inter> set ?P = {}" "set ?T \<inter> set ?Q = {}" "set ?P \<inter> set ?Q = {}"
    by (rule tagged_disjoint [OF tags(1) tags(2)], simp, rule tagged_disjoint [OF tags(1) tags(3)], simp,
        rule tagged_disjoint [OF tags(1) tags(4)], simp, rule tagged_disjoint [OF tags(1) tags(5)], simp,
        rule tagged_disjoint [OF tags(2) tags(3)], simp, rule tagged_disjoint [OF tags(2) tags(4)], simp,
        rule tagged_disjoint [OF tags(2) tags(5)], simp, rule tagged_disjoint [OF tags(3) tags(4)], simp,
        rule tagged_disjoint [OF tags(3) tags(5)], simp, rule tagged_disjoint [OF tags(4) tags(5)], simp)
  moreover have "distinct ?A" "distinct ?T" by (simp_all add: fixed_ids)
  ultimately have "distinct (?A @ ?G @ ?T @ ?P @ ?Q)"
    using git_ids [of ctx] project_ids_distinct [OF assms(1)] command_ids_distinct [OF assms(2), of "names_of ctx"]
    unfolding distinct_append set_append by blast
  moreover have "map pc_id (all_commands ctx) = ?A @ ?G @ ?T @ ?P @ ?Q"
    by (simp add: all_commands_parts map_concat comp_def)
  ultimately show ?thesis by simp
qed

definition palette_row :: "int \<Rightarrow> ProcessView" where
  "palette_row i = \<lparr>pv_id = i, pv_project = 1, pv_kind = Agent, pv_label = lit ''claude'', pv_status = Running,
     pv_exit_code = None, pv_requires_trust = False, pv_resumable = True, pv_ports = [], pv_ready = Ungated\<rparr>"

theorem palette_ids_unique_witness:
  "distinct (map pc_id (all_commands \<lparr>cx_processes = [palette_row 1, palette_row 11],
     cx_projects = [\<lparr>pj_id = 1, pj_name = lit ''a'', pj_root = lit ''/a'', pj_icon = None\<rparr>,
       \<lparr>pj_id = 11, pj_name = lit ''a'', pj_root = lit ''/b'', pj_icon = None\<rparr>], cx_git = None\<rparr>))"
  by (rule palette_ids_unique) (simp_all add: palette_row_def)

end
