(* ===== verification/Notify.thy ===== *)
theory Notify
  imports Domain
begin

section \<open>Attention, notifications and settings vocabulary\<close>

text \<open>
  \<open>lib/attention.ts\<close>, \<open>lib/notifications.ts\<close>, \<open>lib/sidebar.ts\<close>, \<open>lib/agents.ts\<close>,
  \<open>lib/templates.ts\<close> and \<open>lib/tools.ts\<close>: what the unread surfaces read, how an alert looks and
  how long it stays, and the options and labels of the settings panels. The string of an error
  reason is a parameter's value already; \<open>Infinity\<close> is \<open>None\<close>.
\<close>

subsection \<open>What needs attention\<close>

definition NO_ATTENTION :: AttentionSnapshot where
  "NO_ATTENTION = \<lparr>as_processes = [], as_total = 0\<rparr>"

definition ATTENTION_LABEL :: jstring where "ATTENTION_LABEL = lit ''Needs attention''"

definition ATTENTION_DISPLAY_CAP :: int where "ATTENTION_DISPLAY_CAP = 99"

definition attentionCountLabel :: "int \<Rightarrow> jstring" where
  "attentionCountLabel amount =
     (if amount > ATTENTION_DISPLAY_CAP then show_int ATTENTION_DISPLAY_CAP @ lit ''+'' else show_int amount)"

definition unreadProcessIds :: "AttentionSnapshot \<Rightarrow> int set" where
  "unreadProcessIds snapshot = set (map pa_process (as_processes snapshot))"

definition unreadProjectIds :: "AttentionSnapshot \<Rightarrow> ProcessView list \<Rightarrow> int set" where
  "unreadProjectIds snapshot processes =
     set (map pv_project (filter (\<lambda>process. pv_id process \<in> unreadProcessIds snapshot) processes))"

record AttentionEntry = ProcessAttention +
  ae_label :: jstring

definition attentionEntries :: "AttentionSnapshot \<Rightarrow> ProcessView list \<Rightarrow> AttentionEntry list" where
  "attentionEntries snapshot processes =
     (let byId = map_from (map (\<lambda>process. (pv_id process, process)) processes)
      in concat (map (\<lambda>entry. case map_get byId (pa_process entry) of
           Some process \<Rightarrow> [\<lparr>pa_process = pa_process entry, pa_kind = pa_kind entry, pa_alerts = pa_alerts entry,
             ae_label = pv_label process\<rparr>]
         | None \<Rightarrow> []) (as_processes snapshot)))"

lemma map_of_ids: "distinct (map f xs) \<Longrightarrow> map_of (map (\<lambda>x. (f x, x)) xs) k = find (\<lambda>x. f x = k) xs"
  by (induction xs) auto

lemma by_id_get:
  assumes "distinct (map pv_id processes)"
  shows "map_get (map_from (map (\<lambda>process. (pv_id process, process)) processes)) k =
    find (\<lambda>p. pv_id p = k) processes"
  using assms by (simp add: map_get_from_distinct comp_def map_of_ids)

lemma find_id: "distinct (map pv_id ps) \<Longrightarrow> find (\<lambda>p. pv_id p = k) ps = Some p \<longleftrightarrow> p \<in> set ps \<and> pv_id p = k"
  by (induction ps) (auto simp: image_iff)

definition entry_of :: "ProcessView list \<Rightarrow> ProcessAttention \<Rightarrow> AttentionEntry list" where
  "entry_of processes entry = (case find (\<lambda>p. pv_id p = pa_process entry) processes of
     Some process \<Rightarrow> [\<lparr>pa_process = pa_process entry, pa_kind = pa_kind entry, pa_alerts = pa_alerts entry,
       ae_label = pv_label process\<rparr>]
   | None \<Rightarrow> [])"

definition core_part :: "'a ProcessAttention_scheme \<Rightarrow> int \<times> AttentionKind \<times> int" where
  "core_part e = (pa_process e, pa_kind e, pa_alerts e)"

lemma entry_of_core:
  "map core_part (entry_of processes e) = (if pa_process e \<in> pv_id ` set processes then [core_part e] else [])"
proof (cases "find (\<lambda>p. pv_id p = pa_process e) processes")
  case None
  then have "pa_process e \<notin> pv_id ` set processes" by (auto simp: find_None_iff)
  with None show ?thesis by (simp add: entry_of_def)
next
  case (Some p)
  then have "p \<in> set processes" "pv_id p = pa_process e" by (auto simp: find_Some_iff)
  with Some show ?thesis by (simp add: entry_of_def core_part_def rev_image_eqI)
qed

lemma entries_core:
  "map core_part (concat (map (entry_of processes) es)) =
     map core_part (filter (\<lambda>e. pa_process e \<in> pv_id ` set processes) es)"
  by (induction es) (simp_all add: entry_of_core)

lemma attentionEntries_alt:
  "distinct (map pv_id processes) \<Longrightarrow>
     attentionEntries snapshot processes = concat (map (entry_of processes) (as_processes snapshot))"
  by (simp add: attentionEntries_def by_id_get entry_of_def [abs_def])

lemma listed_processes:
  assumes "distinct (map pv_id processes)"
  shows "pa_process ` set (attentionEntries snapshot processes) = unreadProcessIds snapshot \<inter> pv_id ` set processes"
proof -
  have "fst ` set (map core_part (attentionEntries snapshot processes)) =
      fst ` set (map core_part (filter (\<lambda>e. pa_process e \<in> pv_id ` set processes) (as_processes snapshot)))"
    by (simp only: attentionEntries_alt [OF assms] entries_core)
  then show ?thesis
    by (auto simp: core_part_def image_image unreadProcessIds_def)
qed

text \<open>
  The unread surfaces agree: the projects whose header shows a dot are exactly the projects of
  the rows that the title bar lists, the list keeps the core's order, and it drops only entries
  of processes the stack no longer holds.
\<close>

theorem attention_surfaces_agree:
  assumes "distinct (map pv_id processes)"
  shows "unreadProjectIds snapshot processes =
      pv_project ` {p \<in> set processes. pv_id p \<in> pa_process ` set (attentionEntries snapshot processes)}
    \<and> map core_part (attentionEntries snapshot processes) =
      map core_part (filter (\<lambda>e. pa_process e \<in> pv_id ` set processes) (as_processes snapshot))"
  using listed_processes [OF assms, of snapshot]
  by (auto simp: attentionEntries_alt [OF assms] entries_core unreadProjectIds_def)

definition attention_row :: "int \<Rightarrow> int \<Rightarrow> ProcessView" where
  "attention_row i j = \<lparr>pv_id = i, pv_project = j, pv_kind = Agent, pv_label = [], pv_status = Running,
     pv_exit_code = None, pv_requires_trust = False, pv_resumable = False, pv_ports = [], pv_ready = Ungated\<rparr>"

theorem attention_surfaces_agree_witness:
  "unreadProjectIds \<lparr>as_processes = [\<lparr>pa_process = 2, pa_kind = AttCrashed, pa_alerts = 1\<rparr>], as_total = 1\<rparr>
     [attention_row 1 7, attention_row 2 8] = {8}"
proof -
  let ?snapshot = "\<lparr>as_processes = [\<lparr>pa_process = 2, pa_kind = AttCrashed, pa_alerts = 1\<rparr>], as_total = 1\<rparr>"
  let ?rows = "[attention_row 1 7, attention_row 2 8]"
  have "distinct (map pv_id ?rows)" by (simp add: attention_row_def)
  from attention_surfaces_agree [OF this, of ?snapshot]
  have "unreadProjectIds ?snapshot ?rows =
      pv_project ` {p \<in> set ?rows. pv_id p \<in> pa_process ` set (attentionEntries ?snapshot ?rows)}"
    by blast
  also have "\<dots> = pv_project ` {attention_row 2 8}"
    by (rule arg_cong [where f = "(`) pv_project"])
      (auto simp: attentionEntries_def map_from_def attention_row_def)
  finally show ?thesis by (simp add: attention_row_def)
qed

subsection \<open>Alerts\<close>

definition DEFAULT_NOTIFICATIONS :: Notifications where
  "DEFAULT_NOTIFICATIONS = \<lparr>nt_enabled = True, nt_bell = None\<rparr>"

text \<open>\<open>Option\<close> and \<open>Choice\<close> of \<open>lib/appearance.ts\<close>: a value and how it reads.\<close>

record 'a SettingOption =
  so_value :: 'a
  so_label :: jstring

record 'a SettingChoice =
  sc_value :: 'a
  sc_label :: jstring
  sc_description :: jstring

definition setting_option :: "'a \<Rightarrow> jstring \<Rightarrow> 'a SettingOption" where
  "setting_option v label = \<lparr>so_value = v, so_label = label\<rparr>"

definition ALERT_SOUND_OPTIONS :: "jstring option SettingOption list" where
  "ALERT_SOUND_OPTIONS =
     [setting_option None (lit ''None''),
      setting_option (Some (lit ''bell-terminal'')) (lit ''Bell''),
      setting_option (Some (lit ''message-new-instant'')) (lit ''Message''),
      setting_option (Some (lit ''dialog-information'')) (lit ''Information''),
      setting_option (Some (lit ''dialog-warning'')) (lit ''Warning'')]"

definition NOTIFICATION_LEVEL_CHOICES :: "NotificationLevel SettingChoice list" where
  "NOTIFICATION_LEVEL_CHOICES =
     [\<lparr>sc_value = LevelAll, sc_label = lit ''All'',
       sc_description = lit ''Crashes, agents that need you, terminal bells, and notifications a script sends.''\<rparr>,
      \<lparr>sc_value = LevelImportant, sc_label = lit ''Important only'',
       sc_description = lit ''Crashes and agents that need you. Terminal bells and script notifications are dropped.''\<rparr>,
      \<lparr>sc_value = LevelNone, sc_label = lit ''None'',
       sc_description = lit ''Nothing at all, not even a crash.''\<rparr>]"

record ToastDisplay =
  td_glyph :: jstring
  td_toneClass :: jstring
  td_dismissAfterMs :: "int option"

definition TOAST_LIFETIME_MS :: int where "TOAST_LIFETIME_MS = 6000"

primrec TOAST :: "AttentionKind \<Rightarrow> ToastDisplay" where
  "TOAST AttCrashed = \<lparr>td_glyph = [10005], td_toneClass = lit ''text-status-crashed'', td_dismissAfterMs = None\<rparr>"
| "TOAST AttRestartExhausted = \<lparr>td_glyph = [9888], td_toneClass = lit ''text-status-exhausted'', td_dismissAfterMs = None\<rparr>"
| "TOAST AttAgentPermission = \<lparr>td_glyph = [9670], td_toneClass = lit ''text-status-attention'',
     td_dismissAfterMs = Some TOAST_LIFETIME_MS\<rparr>"
| "TOAST AttAgentError = \<lparr>td_glyph = [10005], td_toneClass = lit ''text-status-crashed'',
     td_dismissAfterMs = Some TOAST_LIFETIME_MS\<rparr>"
| "TOAST AttTerminalBell = \<lparr>td_glyph = [9671], td_toneClass = lit ''text-muted-foreground'',
     td_dismissAfterMs = Some TOAST_LIFETIME_MS\<rparr>"
| "TOAST AttTerminalNotification = \<lparr>td_glyph = [9671], td_toneClass = lit ''text-muted-foreground'',
     td_dismissAfterMs = Some TOAST_LIFETIME_MS\<rparr>"

definition VISIBLE_TOASTS :: nat where "VISIBLE_TOASTS = 3"

record NotifierStatusDisplay =
  nd_glyph :: jstring
  nd_toneClass :: jstring
  nd_label :: jstring
  nd_detail :: jstring
  nd_check :: "jstring option"

fun NOTIFIER_STATUS :: "NotifierStatus \<Rightarrow> NotifierStatusDisplay" where
  "NOTIFIER_STATUS (NotifierAvailable name vendor capabilities) =
     \<lparr>nd_glyph = [9679], nd_toneClass = lit ''text-status-running'', nd_label = lit ''Connected'',
      nd_detail = lit ''Something is listening for alerts.'', nd_check = None\<rparr>"
| "NOTIFIER_STATUS NotifierUnavailable =
     \<lparr>nd_glyph = [9675], nd_toneClass = lit ''text-status-stopped'', nd_label = lit ''Not available'',
      nd_detail = (lit ''No notification service is running on this session bus, so desktop alerts won'' @ [39] @ lit ''t appear. In-app toasts still will.''),
      nd_check = Some (lit ''Check that your desktop'' @ [39] @ lit ''s notification service is running '' @ [8212] @ lit '' on GNOME it is part of gnome-shell.'')\<rparr>"

definition advertisedSupport :: "jstring list \<Rightarrow> jstring" where
  "advertisedSupport capabilities =
     (let body = lit ''body'' \<in> set capabilities; sound = lit ''sound'' \<in> set capabilities
      in if body \<and> sound then lit ''It advertises support for message text and for sound.''
         else if body then lit ''It advertises message text but not sound, so an alert sound may not play.''
         else if sound then lit ''It advertises sound but not message text, so an alert may show only its title.''
         else lit ''It advertises neither message text nor sound, so an alert may show only its title, silently.'')"

definition INHERIT :: jstring where "INHERIT = lit ''inherit''"

fun level_value :: "NotificationLevel \<Rightarrow> jstring" where
  "level_value LevelAll = lit ''all''"
| "level_value LevelImportant = lit ''important''"
| "level_value LevelNone = lit ''none''"

definition commandLevelValue :: "NotificationLevel option \<Rightarrow> jstring" where
  "commandLevelValue level = (case level of None \<Rightarrow> INHERIT | Some l \<Rightarrow> level_value l)"

text \<open>The cast of any other string is unchecked; the picker only produces the three.\<close>

definition commandLevelFromValue :: "jstring \<Rightarrow> NotificationLevel option" where
  "commandLevelFromValue v =
     (if v = INHERIT then None else find (\<lambda>l. level_value l = v) [LevelAll, LevelImportant, LevelNone])"

definition levelLabel :: "NotificationLevel \<Rightarrow> jstring" where
  "levelLabel level = (case find (\<lambda>candidate. sc_value candidate = level) NOTIFICATION_LEVEL_CHOICES of
     Some choice \<Rightarrow> sc_label choice | None \<Rightarrow> level_value level)"

definition commandLevelChoices :: "NotificationLevel \<Rightarrow> jstring SettingChoice list" where
  "commandLevelChoices projectLevel =
     \<lparr>sc_value = INHERIT, sc_label = lit ''Same as project'',
      sc_description = lit ''Follows the project setting, currently '' @ levelLabel projectLevel @ lit ''.''\<rparr>
     # map (\<lambda>c. \<lparr>sc_value = level_value (sc_value c), sc_label = sc_label c, sc_description = sc_description c\<rparr>)
         NOTIFICATION_LEVEL_CHOICES"

text \<open>The radio's value and the stored level are the same information.\<close>

lemma command_level_round_trip: "commandLevelFromValue (commandLevelValue level) = level"
  by (cases level rule: option.exhaust; cases "the level")
    (simp_all add: commandLevelFromValue_def commandLevelValue_def INHERIT_def)

lemma command_choices_values:
  "map (commandLevelFromValue \<circ> sc_value) (commandLevelChoices l) = [None, Some LevelAll, Some LevelImportant, Some LevelNone]"
  by (simp add: commandLevelChoices_def NOTIFICATION_LEVEL_CHOICES_def commandLevelFromValue_def INHERIT_def)

text \<open>A toast that stays is exactly one about a process left down.\<close>

lemma toast_stays_iff: "td_dismissAfterMs (TOAST kind) = None \<longleftrightarrow> kind = AttCrashed \<or> kind = AttRestartExhausted"
  by (cases kind) simp_all

subsection \<open>The sidebar's thresholds\<close>

definition DEFAULT_SIDEBAR :: Sidebar where
  "DEFAULT_SIDEBAR = \<lparr>sb_show_filter_input = True, sb_hide_empty_sections = False,
     sb_process_cpu_threshold = CpuAlways, sb_process_mem_threshold = MemAlways, sb_show_settings_footer = True\<rparr>"

definition PROCESS_CPU_OPTIONS :: "ProcessCpuThreshold SettingOption list" where
  "PROCESS_CPU_OPTIONS = [setting_option CpuAlways (lit ''Always''), setting_option Pct10 (lit ''10%''),
     setting_option Pct30 (lit ''30%''), setting_option Pct60 (lit ''60%''), setting_option Pct90 (lit ''90%''),
     setting_option CpuNever (lit ''Never'')]"

definition PROCESS_MEM_OPTIONS :: "ProcessMemThreshold SettingOption list" where
  "PROCESS_MEM_OPTIONS = [setting_option MemAlways (lit ''Always''), setting_option Mb100 (lit ''100 MB''),
     setting_option Mb500 (lit ''500 MB''), setting_option Gb1 (lit ''1 GB''), setting_option Gb2 (lit ''2 GB''),
     setting_option MemNever (lit ''Never'')]"

definition MIB :: int where "MIB = 1024 * 1024"
definition GIB :: int where "GIB = 1024 * MIB"

primrec PROCESS_CPU_FLOOR :: "ProcessCpuThreshold \<Rightarrow> int option" where
  "PROCESS_CPU_FLOOR CpuAlways = Some 0"
| "PROCESS_CPU_FLOOR Pct10 = Some 10"
| "PROCESS_CPU_FLOOR Pct30 = Some 30"
| "PROCESS_CPU_FLOOR Pct60 = Some 60"
| "PROCESS_CPU_FLOOR Pct90 = Some 90"
| "PROCESS_CPU_FLOOR CpuNever = None"

primrec PROCESS_MEM_FLOOR :: "ProcessMemThreshold \<Rightarrow> int option" where
  "PROCESS_MEM_FLOOR MemAlways = Some 0"
| "PROCESS_MEM_FLOOR Mb100 = Some (100 * MIB)"
| "PROCESS_MEM_FLOOR Mb500 = Some (500 * MIB)"
| "PROCESS_MEM_FLOOR Gb1 = Some GIB"
| "PROCESS_MEM_FLOOR Gb2 = Some (2 * GIB)"
| "PROCESS_MEM_FLOOR MemNever = None"

text \<open>Each threshold has one option, and the options run from the lowest floor to never.\<close>

lemma cpu_options_complete: "so_value ` set PROCESS_CPU_OPTIONS = UNIV"
  by (auto simp: PROCESS_CPU_OPTIONS_def setting_option_def) (metis ProcessCpuThreshold.exhaust)

lemma mem_floors_rise:
  "sorted_wrt (\<lambda>a b. case (a, b) of (Some x, Some y) \<Rightarrow> x < y | (Some x, None) \<Rightarrow> True | _ \<Rightarrow> False)
     (map (PROCESS_MEM_FLOOR \<circ> so_value) PROCESS_MEM_OPTIONS)"
  by (simp add: PROCESS_MEM_OPTIONS_def setting_option_def MIB_def GIB_def)

subsection \<open>Agent tools\<close>

definition DEFAULT_ASSIST :: Assist where "DEFAULT_ASSIST = \<lparr>asst_tool = None\<rparr>"

definition NO_ASSIST_TOOL :: jstring where "NO_ASSIST_TOOL = lit ''Off''"

definition ASSIST_SETUP_HINT :: jstring where
  "ASSIST_SETUP_HINT = lit ''No tool is picked to draft with yet. This opens Settings, where drafting is set up.''"

definition assistToolOptions :: "DetectedTool list \<Rightarrow> jstring option SettingOption list" where
  "assistToolOptions detected = setting_option None NO_ASSIST_TOOL
     # map (\<lambda>tool. setting_option (Some (at_name (dt_tool tool))) (at_name (dt_tool tool)))
         (filter (\<lambda>tool. dt_can_draft tool \<and> dt_detection tool = Installed) detected)"

definition offersAssistTool :: "jstring option SettingOption list \<Rightarrow> bool" where
  "offersAssistTool options = list_ex (\<lambda>option. so_value option \<noteq> None) options"

definition draftCapableTools :: "DetectedTool list \<Rightarrow> jstring list" where
  "draftCapableTools detected = map (\<lambda>tool. at_name (dt_tool tool)) (filter dt_can_draft detected)"

definition detectionFailure :: "jstring \<Rightarrow> jstring" where
  "detectionFailure reason = lit ''Could not check which agent CLIs are installed: '' @ reason"

definition toolInvocation :: "AgentTool \<Rightarrow> jstring" where
  "toolInvocation tool = join_with (lit '' '') (at_command tool # at_default_args tool)"

fun detectionLabel :: "Detection \<Rightarrow> jstring" where
  "detectionLabel Installed = lit ''installed''"
| "detectionLabel Missing = lit ''not found''"
| "detectionLabel DetectionUnknown = lit ''not checked''"

definition UNCHECKED_HINT :: jstring where
  "UNCHECKED_HINT = (lit ''Soloist could not check this tool '' @ [8212] @ lit '' the probe timed out, or this provider is not auto-detected.'')"

text \<open>The picker offers a tool exactly when some tool can draft here, and only draft-capable ones.\<close>

lemma offers_iff:
  "offersAssistTool (assistToolOptions detected) \<longleftrightarrow>
     (\<exists>tool \<in> set detected. dt_can_draft tool \<and> dt_detection tool = Installed)"
  by (auto simp: offersAssistTool_def assistToolOptions_def setting_option_def list_ex_iff)

lemma offered_can_draft:
  "opt \<in> set (assistToolOptions detected) \<Longrightarrow> so_value opt = Some name \<Longrightarrow> name \<in> set (draftCapableTools detected)"
  by (auto simp: assistToolOptions_def setting_option_def draftCapableTools_def)

subsection \<open>Templates\<close>

definition TEMPLATE_KINDS :: "TemplateKind list" where
  "TEMPLATE_KINDS = [TplPrompt, TplScratchpad, TplTodo, TplPr]"

definition RENDERABLE_TEMPLATE_KIND :: TemplateKind where "RENDERABLE_TEMPLATE_KIND = TplPrompt"

fun TEMPLATE_KIND_LABEL :: "TemplateKind \<Rightarrow> jstring" where
  "TEMPLATE_KIND_LABEL TplPrompt = lit ''Prompt''"
| "TEMPLATE_KIND_LABEL TplScratchpad = lit ''Scratchpad''"
| "TEMPLATE_KIND_LABEL TplTodo = lit ''Todo''"
| "TEMPLATE_KIND_LABEL TplPr = lit ''Pull request''"

fun TEMPLATE_KIND_DESCRIPTION :: "TemplateKind \<Rightarrow> jstring" where
  "TEMPLATE_KIND_DESCRIPTION TplPrompt = lit ''Reusable prompts with {{placeholder}} fill-ins, applied to an agent by name.''"
| "TEMPLATE_KIND_DESCRIPTION TplScratchpad =
     lit ''A starting shape for new scratchpads. Choose a default and empty scratchpads are seeded from it.''"
| "TEMPLATE_KIND_DESCRIPTION TplTodo =
     lit ''A starting shape for new todos. Choose a default and empty todos are seeded from it.''"
| "TEMPLATE_KIND_DESCRIPTION TplPr =
     (lit ''A starting shape for pull request descriptions, for the repositories that carry none of their own. A repository'' @ [39] @ lit ''s own template always wins.'')"

definition TEMPLATE_SCOPES :: "TemplateScope list" where "TEMPLATE_SCOPES = [ScopeGlobal, ScopeProject]"

definition templateScopeProject :: "TemplateScope option \<Rightarrow> int option \<Rightarrow> int option" where
  "templateScopeProject scope project = (if scope = Some ScopeGlobal then None else project)"

fun TEMPLATE_SCOPE_LABEL :: "TemplateScope \<Rightarrow> jstring" where
  "TEMPLATE_SCOPE_LABEL ScopeGlobal = lit ''Global''"
| "TEMPLATE_SCOPE_LABEL ScopeProject = lit ''This project''"

fun TEMPLATE_SCOPE_EMPTY :: "TemplateScope \<Rightarrow> jstring" where
  "TEMPLATE_SCOPE_EMPTY ScopeGlobal = lit ''No global templates yet.''"
| "TEMPLATE_SCOPE_EMPTY ScopeProject = lit ''No templates in this project yet.''"

definition marker :: "jstring \<Rightarrow> jstring" where
  "marker name = lit ''{{'' @ name @ lit ''}}''"

definition unfilledNotice :: "jstring list \<Rightarrow> jstring" where
  "unfilledNotice unfilled =
     (let names = join_with (lit '', '') (map marker unfilled)
      in if length unfilled = 1 then lit ''No value for '' @ names @ (lit '' '' @ [8212] @ lit '' it stays as written in the prompt below.'')
         else lit ''No value for '' @ names @ (lit '' '' @ [8212] @ lit '' they stay as written in the prompt below.''))"

definition unknownNotice :: "jstring list \<Rightarrow> jstring" where
  "unknownNotice unknown =
     (let names = join_with (lit '', '') (map marker unknown)
      in if length unknown = 1 then names @ lit '' matches no placeholder in this template, so it was not used.''
         else names @ lit '' match no placeholder in this template, so they were not used.'')"

definition scopePhrase :: "TemplateKind \<Rightarrow> TemplateScope \<Rightarrow> bool \<Rightarrow> jstring" where
  "scopePhrase kind scope plural =
     (let noun = (if plural then lit ''templates'' else lit ''template'')
      in if scope = ScopeGlobal
         then lit ''Global '' @ map ascii_lower (TEMPLATE_KIND_LABEL kind) @ lit '' '' @ noun
         else TEMPLATE_KIND_LABEL kind @ lit '' '' @ noun @ lit '' in this project'')"

definition templateGroupLabel :: "TemplateKind \<Rightarrow> TemplateScope \<Rightarrow> jstring" where
  "templateGroupLabel kind scope = scopePhrase kind scope True"

definition templateScopeHeading :: "TemplateKind \<Rightarrow> TemplateScope \<Rightarrow> jstring" where
  "templateScopeHeading kind scope = scopePhrase kind scope False"

text \<open>The accessible name of a group is unique across the panel.\<close>

lemma template_group_label_unique:
  "templateGroupLabel k s = templateGroupLabel k' s' \<longleftrightarrow> k = k' \<and> s = s'"
  by (cases k; cases s; cases k'; cases s') (simp_all add: templateGroupLabel_def scopePhrase_def ascii_lower_def lit_def)

subsection \<open>External tools\<close>

definition EDITOR_OPTIONS :: "jstring option SettingOption list" where
  "EDITOR_OPTIONS =
     [setting_option None (lit ''System default''), setting_option (Some (lit ''code'')) (lit ''VS Code''),
      setting_option (Some (lit ''code-insiders'')) (lit ''VS Code Insiders''), setting_option (Some (lit ''zed'')) (lit ''Zed''),
      setting_option (Some (lit ''subl'')) (lit ''Sublime Text''), setting_option (Some (lit ''nvim'')) (lit ''Neovim''),
      setting_option (Some (lit ''vim'')) (lit ''Vim''), setting_option (Some (lit ''emacs'')) (lit ''Emacs''),
      setting_option (Some (lit ''gnome-text-editor'')) (lit ''GNOME Text Editor''), setting_option (Some (lit ''kate'')) (lit ''Kate'')]"

definition TERMINAL_OPTIONS :: "jstring option SettingOption list" where
  "TERMINAL_OPTIONS =
     [setting_option None (lit ''System default''), setting_option (Some (lit ''gnome-terminal'')) (lit ''GNOME Terminal''),
      setting_option (Some (lit ''konsole'')) (lit ''Konsole''), setting_option (Some (lit ''alacritty'')) (lit ''Alacritty''),
      setting_option (Some (lit ''kitty'')) (lit ''kitty''), setting_option (Some (lit ''wezterm'')) (lit ''WezTerm''),
      setting_option (Some (lit ''ghostty'')) (lit ''Ghostty''), setting_option (Some (lit ''tilix'')) (lit ''Tilix''),
      setting_option (Some (lit ''xterm'')) (lit ''xterm'')]"

lemma tool_options_distinct: "distinct (map so_value EDITOR_OPTIONS) \<and> distinct (map so_value TERMINAL_OPTIONS)"
  by (simp add: EDITOR_OPTIONS_def TERMINAL_OPTIONS_def setting_option_def)

end
