(* ===== verification/Autosave.thy ===== *)
theory Autosave
  imports Prelude
begin

section \<open>Debounced, single-flight saving\<close>

text \<open>
  \<open>components/editor/useAutosave.ts\<close> and \<open>store/saveOutcome.ts\<close>: the lifecycle between a
  keystroke and a stored document, for every editor of the application. A timeout handle is a
  number, \<open>av_timers\<close> the handles the runtime still holds; \<open>av_calls\<close> are the saves in flight,
  each under the ticket of its promise; \<open>av_sent\<close> and \<open>av_saved\<close> record the values handed to
  the caller's save and those it reported stored.
\<close>

datatype SaveOutcome = Saved | Refused

datatype 'v AutosaveState =
    Clean
  | Dirty 'v \<comment> \<open>pending\<close>
  | Saving 'v "'v option" \<comment> \<open>in flight, queued\<close>

record 'v Autosave =
  av_state :: "'v AutosaveState"
  av_saving :: bool
  av_dirty :: bool
  av_timer :: "nat option"
  av_paused :: bool
  av_timers :: "nat list"
  av_next :: nat
  av_calls :: "(nat \<times> 'v) list"
  av_sent :: "'v list"
  av_saved :: "'v list"

definition useAutosave :: "bool \<Rightarrow> 'v Autosave" where
  "useAutosave paused = \<lparr>av_state = Clean, av_saving = False, av_dirty = False, av_timer = None,
     av_paused = paused, av_timers = [], av_next = 0, av_calls = [], av_sent = [], av_saved = []\<rparr>"

definition setPhase :: "'v AutosaveState \<Rightarrow> 'v Autosave \<Rightarrow> 'v Autosave" where
  "setPhase next_state s = s\<lparr>av_state := next_state,
     av_saving := (case next_state of Saving _ _ \<Rightarrow> True | _ \<Rightarrow> False),
     av_dirty := (case next_state of Clean \<Rightarrow> False | _ \<Rightarrow> True)\<rparr>"

definition clearTimer :: "'v Autosave \<Rightarrow> 'v Autosave" where
  "clearTimer s = (case av_timer s of None \<Rightarrow> s
     | Some h \<Rightarrow> s\<lparr>av_timers := filter (\<lambda>k. k \<noteq> h) (av_timers s), av_timer := None\<rparr>)"

text \<open>\<open>send\<close> starts the caller's save; its continuation runs when the promise settles.\<close>

definition send :: "'v \<Rightarrow> 'v Autosave \<Rightarrow> 'v Autosave" where
  "send v s = s\<lparr>av_calls := av_calls s @ [(length (av_sent s), v)], av_sent := av_sent s @ [v]\<rparr>"

definition send_settles :: "SaveOutcome \<Rightarrow> 'v Autosave \<Rightarrow> 'v Autosave" where
  "send_settles outcome s =
     (case av_state s of
        Saving inFlight queued \<Rightarrow>
          (case outcome of
             Refused \<Rightarrow> setPhase (Dirty (case queued of Some q \<Rightarrow> q | None \<Rightarrow> inFlight)) s
           | Saved \<Rightarrow>
               (case queued of
                  Some q \<Rightarrow> if av_paused s then setPhase (Dirty q) s
                            else send q (setPhase (Saving q None) s)
                | None \<Rightarrow> setPhase Clean s))
      | _ \<Rightarrow> s)"

definition commit :: "'v Autosave \<Rightarrow> 'v Autosave" where
  "commit s =
     (let s = clearTimer s
      in if av_paused s then s
         else case av_state s of
           Dirty pending \<Rightarrow> send pending (setPhase (Saving pending None) s)
         | _ \<Rightarrow> s)"

definition push :: "'v \<Rightarrow> 'v Autosave \<Rightarrow> 'v Autosave" where
  "push v s =
     (let s = clearTimer s
      in case av_state s of
           Saving inFlight _ \<Rightarrow> setPhase (Saving inFlight (Some v)) s
         | _ \<Rightarrow>
             (let s = setPhase (Dirty v) s
              in if av_paused s then s
                 else s\<lparr>av_timer := Some (av_next s), av_timers := av_timers s @ [av_next s],
                        av_next := av_next s + 1\<rparr>))"

definition autosave_flush :: "'v Autosave \<Rightarrow> 'v Autosave" where
  "autosave_flush s = commit s"

text \<open>
  The operations of a run: edits, flushes, a re-render with another \<open>paused\<close>, a timeout that
  fires, a save that settles, and the unmount, whose cleanup commits.
\<close>

datatype 'v AutosaveOp =
    AutoPush 'v | AutoFlush | AutoPause bool | AutoTimer nat | AutoSettles nat SaveOutcome | AutoUnmount

fun autosave_step :: "'v Autosave \<Rightarrow> 'v AutosaveOp \<Rightarrow> 'v Autosave" where
  "autosave_step s (AutoPush v) = push v s"
| "autosave_step s AutoFlush = autosave_flush s"
| "autosave_step s (AutoPause p) = s\<lparr>av_paused := p\<rparr>"
| "autosave_step s (AutoTimer h) =
     (if h \<in> set (av_timers s) then commit (s\<lparr>av_timers := filter (\<lambda>k. k \<noteq> h) (av_timers s)\<rparr>) else s)"
| "autosave_step s (AutoSettles ticket outcome) =
     (case map_of (av_calls s) ticket of None \<Rightarrow> s
      | Some v \<Rightarrow> send_settles outcome
          (s\<lparr>av_calls := filter (\<lambda>c. fst c \<noteq> ticket) (av_calls s),
             av_saved := (if outcome = Saved then av_saved s @ [v] else av_saved s)\<rparr>))"
| "autosave_step s AutoUnmount = commit s"

abbreviation autosave_run :: "bool \<Rightarrow> 'v AutosaveOp list \<Rightarrow> 'v Autosave" where
  "autosave_run paused ops \<equiv> foldl autosave_step (useAutosave paused) ops"

lemmas autosave_defs = setPhase_def clearTimer_def send_def send_settles_def commit_def push_def
  autosave_flush_def Let_def

subsection \<open>The lifecycle invariant\<close>

text \<open>
  One save at most is in flight, the last one sent, and it carries the in-flight value; one timeout at most is
  pending, and only over a dirty value; the two flags are derived from the phase.
\<close>

definition in_flight_calls :: "'v Autosave \<Rightarrow> bool" where
  "in_flight_calls s = (case av_state s of
     Saving v _ \<Rightarrow> av_sent s \<noteq> [] \<and> av_calls s = [(length (av_sent s) - 1, v)] | _ \<Rightarrow> av_calls s = [])"

definition autosave_wf :: "'v Autosave \<Rightarrow> bool" where
  "autosave_wf s \<longleftrightarrow> in_flight_calls s
     \<and> av_timers s = (case av_timer s of None \<Rightarrow> [] | Some h \<Rightarrow> [h])
     \<and> (av_timer s \<noteq> None \<longrightarrow> (\<exists>v. av_state s = Dirty v))
     \<and> (av_saving s \<longleftrightarrow> (\<exists>v q. av_state s = Saving v q))
     \<and> (av_dirty s \<longleftrightarrow> av_state s \<noteq> Clean)"

lemma autosave_wf_step: "autosave_wf s \<Longrightarrow> autosave_wf (autosave_step s op)"
  by (cases op; cases "av_state s"; cases "av_timer s")
    (auto simp: autosave_wf_def in_flight_calls_def autosave_defs
      split: AutosaveState.splits option.splits SaveOutcome.splits if_splits)

lemma autosave_wf_start: "autosave_wf (useAutosave paused)"
  by (simp add: useAutosave_def autosave_wf_def in_flight_calls_def)

interpretation autosave: machine "useAutosave paused" autosave_step autosave_wf
  by unfold_locales (rule autosave_wf_start, erule autosave_wf_step)

text \<open>
  Saves never overlap: in every run at most one save is in flight, it carries the value the
  phase says, a timeout is pending only over an unsaved value, and the two flags shown to the
  person are those of the phase.
\<close>

theorem autosave_single_flight:
  "let s = autosave_run paused ops in
     map snd (av_calls s) = (case av_state s of Saving v _ \<Rightarrow> [v] | _ \<Rightarrow> [])
     \<and> length (av_timers s) = (if av_timer s = None then 0 else 1)
     \<and> (av_saving s = (av_calls s \<noteq> [])) \<and> (av_dirty s = (av_state s \<noteq> Clean))"
  using autosave.inv_run [of paused ops]
  by (auto simp: autosave_wf_def in_flight_calls_def Let_def split: AutosaveState.splits option.splits)

subsection \<open>No edit is lost\<close>

fun pushes :: "'v AutosaveOp list \<Rightarrow> 'v list" where
  "pushes [] = []"
| "pushes (AutoPush v # ops) = v # pushes ops"
| "pushes (_ # ops) = pushes ops"

definition latest :: "'v option \<Rightarrow> 'v AutosaveOp \<Rightarrow> 'v option" where
  "latest v op = (case op of AutoPush w \<Rightarrow> Some w | _ \<Rightarrow> v)"

text \<open>The value a run still owes: what the phase holds, or the last one stored.\<close>

definition newest :: "'v Autosave \<Rightarrow> 'v option" where
  "newest s = (case av_state s of
     Clean \<Rightarrow> (if av_saved s = [] then None else Some (last (av_saved s)))
   | Dirty v \<Rightarrow> Some v
   | Saving v None \<Rightarrow> Some v
   | Saving v (Some q) \<Rightarrow> Some q)"

lemma newest_step:
  assumes "autosave_wf s"
  shows "newest (autosave_step s op) = latest (newest s) op"
  using assms
  by (cases op; cases "av_state s"; cases "av_timer s")
    (auto simp: autosave_wf_def in_flight_calls_def autosave_defs newest_def latest_def
      split: AutosaveState.splits option.splits SaveOutcome.splits if_splits)

lemma fold_latest: "foldl latest v ops = (if pushes ops = [] then v else Some (last (pushes ops)))"
  by (induction ops arbitrary: v rule: pushes.induct) (auto simp: latest_def)

lemma newest_run: "newest (autosave_run paused ops) = foldl latest None ops"
proof (induction ops rule: rev_induct)
  case Nil
  show ?case by (simp add: newest_def useAutosave_def)
next
  case (snoc op ops)
  with newest_step [OF autosave.inv_run, of paused ops op] show ?case by simp
qed

text \<open>
  C17. No keystroke is lost: after any run the last value pushed is the pending one, the queued
  one, the one in flight, or, when everything is clean, the last one reported stored.
\<close>

theorem autosave_keeps_last_edit:
  "newest (autosave_run paused ops) = (if pushes ops = [] then None else Some (last (pushes ops)))"
  by (simp add: newest_run fold_latest)

subsection \<open>No save is retried on its own\<close>

definition actions :: "'v AutosaveOp list \<Rightarrow> nat" where
  "actions ops = length (filter (\<lambda>op. case op of AutoPush _ \<Rightarrow> True | AutoFlush \<Rightarrow> True
     | AutoUnmount \<Rightarrow> True | _ \<Rightarrow> False) ops)"

definition attempts_owed :: "'v Autosave \<Rightarrow> nat" where
  "attempts_owed s = length (av_sent s) + (if av_timer s = None then 0 else 1)
     + (case av_state s of Saving _ (Some _) \<Rightarrow> 1 | _ \<Rightarrow> 0)"

lemma attempts_step:
  assumes "autosave_wf s"
  shows "attempts_owed (autosave_step s op) \<le> attempts_owed s + actions [op]"
  using assms
  by (cases op; cases "av_state s"; cases "av_timer s")
    (auto simp: autosave_wf_def in_flight_calls_def autosave_defs attempts_owed_def actions_def
      split: AutosaveState.splits option.splits SaveOutcome.splits if_splits)

text \<open>
  A write that keeps failing costs one attempt per action: however the saves are answered, no
  more saves are started than there were edits, flushes and unmounts.
\<close>

theorem autosave_no_retry: "length (av_sent (autosave_run paused ops)) \<le> actions ops"
proof -
  have "attempts_owed (autosave_run paused ops) \<le> actions ops"
  proof (induction ops rule: rev_induct)
    case Nil
    show ?case by (simp add: attempts_owed_def useAutosave_def)
  next
    case (snoc op ops)
    moreover have "actions (ops @ [op]) = actions ops + actions [op]" by (simp add: actions_def)
    ultimately show ?case using attempts_step [OF autosave.inv_run, of paused ops op] by simp
  qed
  then show ?thesis by (simp add: attempts_owed_def)
qed

subsection \<open>A flush stores the last edit\<close>

text \<open>The environment answering the save in flight.\<close>

definition answer_save :: "SaveOutcome \<Rightarrow> 'v Autosave \<Rightarrow> 'v Autosave" where
  "answer_save outcome s =
     (case av_calls s of [] \<Rightarrow> s | (t, _) # _ \<Rightarrow> autosave_step s (AutoSettles t outcome))"

lemma answer_save_run:
  obtains more where "answer_save outcome s = foldl autosave_step s more" and "pushes more = []"
proof (cases "av_calls s")
  case Nil
  then show ?thesis using that [of "[]"] by (simp add: answer_save_def)
next
  case (Cons c cs)
  then show ?thesis using that [of "[AutoSettles (fst c) outcome]"]
    by (simp add: answer_save_def split: prod.splits)
qed

lemma pushes_append: "pushes (xs @ ys) = pushes xs @ pushes ys"
  by (induction xs rule: pushes.induct) auto

text \<open>
  A flush stores the last edit: while saves are not paused and succeed, after a flush two
  answers leave nothing unsaved, and the last value stored is the last one typed.
\<close>

theorem autosave_flush_stores:
  assumes "\<not> av_paused (autosave_run paused ops)" and "pushes ops \<noteq> []"
  shows "let s = answer_save Saved (answer_save Saved (autosave_step (autosave_run paused ops) AutoFlush)) in
     av_state s = Clean \<and> av_calls s = [] \<and> last (av_saved s) = last (pushes ops)"
proof -
  let ?s = "autosave_run paused ops"
  let ?t = "answer_save Saved (answer_save Saved (autosave_step ?s AutoFlush))"
  have wf: "autosave_wf ?s" by (rule autosave.inv_run)
  obtain m1 where m1: "answer_save Saved (autosave_step ?s AutoFlush) = foldl autosave_step (autosave_step ?s AutoFlush) m1"
    "pushes m1 = []" by (rule answer_save_run)
  obtain m2 where m2: "?t = foldl autosave_step (answer_save Saved (autosave_step ?s AutoFlush)) m2"
    "pushes m2 = []" by (rule answer_save_run)
  define more where "more = m1 @ m2"
  have more: "?t = autosave_run paused (ops @ AutoFlush # more)" "pushes more = []"
    using m1 m2 by (simp_all add: more_def pushes_append)
  have clean: "av_state ?t = Clean"
    using wf assms(1)
    by (cases "av_state ?s"; cases "av_timer ?s")
      (auto simp: autosave_wf_def in_flight_calls_def autosave_defs answer_save_def
        split: option.splits if_splits)
  have "foldl latest None (ops @ AutoFlush # more) = Some (last (pushes ops))"
    using assms(2) more(2) by (simp add: fold_latest latest_def)
  then have "newest ?t = Some (last (pushes ops))" by (simp only: more(1) newest_run)
  moreover have "autosave_wf ?t" unfolding more(1) by (rule autosave.inv_run)
  ultimately show ?thesis
    using clean by (auto simp: newest_def Let_def autosave_wf_def in_flight_calls_def split: if_splits)
qed

theorem autosave_flush_stores_witness:
  "let ops = [AutoPush (1::nat), AutoFlush, AutoPush 2, AutoPush 3];
       s = answer_save Saved (answer_save Saved (autosave_step (autosave_run False ops) AutoFlush)) in
     av_state s = Clean \<and> av_calls s = [] \<and> last (av_saved s) = last (pushes ops)"
  unfolding Let_def
  by (rule autosave_flush_stores [unfolded Let_def]) (code_simp, simp)

end
