(* ===== verification/DocEditor.thy ===== *)
theory DocEditor
  imports Domain Autosave
begin

section \<open>Revision-guarded document editors\<close>

text \<open>
  \<open>store/useScratchpadEditor.ts\<close>, \<open>store/useDiagramEditor.ts\<close> and
  \<open>store/useTemplateEditor.ts\<close>: open a document by its handle, seed an uncontrolled editor with
  its text, and write it back under the revision it was read at. The three share one lifecycle,
  modelled once over the handle \<open>'k\<close> and the written document \<open>'d\<close>. Calls of the core are
  pending under a ticket until they settle; a reply carries the core's view \<open>'w\<close> or the text of
  its refusal. \<open>de_outcomes\<close> records what each save resolved to, under the ticket of its write.
\<close>

datatype ('k, 'd) DocCall =
    LoadCall nat 'k \<comment> \<open>load request number, handle\<close>
  | WriteCall 'k 'd "int option" \<comment> \<open>handle, document, expected revision\<close>
  | RereadCall nat 'k jstring \<comment> \<open>the save's ticket, handle, what the refusal said\<close>
  | RenameCall 'k jstring
  | CreateCall 'd
  | LinkCall int

datatype 'w DocReply = Got 'w | Named jstring | Done | Failed jstring

record ('k, 'd) DocEditor =
  de_handle :: "'k option"
  de_initial :: "jstring option"
  de_baseRevision :: "int option"
  de_mountKey :: nat
  de_loading :: bool
  de_conflict :: "int option"
  de_error :: "jstring option"
  de_baseRevisionRef :: "int option"
  de_loadRequestRef :: nat
  de_pending :: "(nat \<times> ('k, 'd) DocCall) list"
  de_issued :: nat
  de_outcomes :: "(nat \<times> SaveOutcome) list"
  de_clipboard :: "jstring list"

definition doc_init :: "('k, 'd) DocEditor" where
  "doc_init = \<lparr>de_handle = None, de_initial = None, de_baseRevision = None, de_mountKey = 0,
     de_loading = False, de_conflict = None, de_error = None, de_baseRevisionRef = None,
     de_loadRequestRef = 0, de_pending = [], de_issued = 0, de_outcomes = [], de_clipboard = []\<rparr>"

definition doc_issue :: "('k, 'd) DocCall \<Rightarrow> ('k, 'd, 'z) DocEditor_scheme \<Rightarrow> ('k, 'd, 'z) DocEditor_scheme" where
  "doc_issue call s = s\<lparr>de_pending := de_pending s @ [(de_issued s, call)], de_issued := de_issued s + 1\<rparr>"

definition doc_load :: "'k \<Rightarrow> ('k, 'd, 'z) DocEditor_scheme \<Rightarrow> ('k, 'd, 'z) DocEditor_scheme" where
  "doc_load target s =
     (let request = de_loadRequestRef s + 1
      in doc_issue (LoadCall request target)
           (s\<lparr>de_loadRequestRef := request, de_loading := True, de_conflict := None, de_error := None\<rparr>))"

text \<open>The load's \<open>then\<close>, \<open>catch\<close> and \<open>finally\<close>.\<close>

definition doc_load_resolves ::
  "nat \<Rightarrow> jstring \<Rightarrow> int \<Rightarrow> ('k, 'd, 'z) DocEditor_scheme \<Rightarrow> ('k, 'd, 'z) DocEditor_scheme" where
  "doc_load_resolves request body revision s =
     (if request \<noteq> de_loadRequestRef s then s
      else s\<lparr>de_initial := Some body, de_baseRevision := Some revision, de_baseRevisionRef := Some revision,
             de_mountKey := de_mountKey s + 1, de_loading := False\<rparr>)"

definition doc_load_rejects ::
  "nat \<Rightarrow> jstring \<Rightarrow> ('k, 'd, 'z) DocEditor_scheme \<Rightarrow> ('k, 'd, 'z) DocEditor_scheme" where
  "doc_load_rejects request reason s =
     (if request \<noteq> de_loadRequestRef s then s
      else s\<lparr>de_initial := None, de_error := Some reason, de_loading := False\<rparr>)"

definition doc_open :: "'k \<Rightarrow> ('k, 'd, 'z) DocEditor_scheme \<Rightarrow> ('k, 'd, 'z) DocEditor_scheme" where
  "doc_open target s =
     doc_load target (s\<lparr>de_handle := Some target, de_initial := None, de_baseRevision := None,
       de_baseRevisionRef := None\<rparr>)"

definition doc_close :: "('k, 'd, 'z) DocEditor_scheme \<Rightarrow> ('k, 'd, 'z) DocEditor_scheme" where
  "doc_close s =
     s\<lparr>de_loadRequestRef := de_loadRequestRef s + 1, de_handle := None, de_initial := None,
       de_baseRevision := None, de_baseRevisionRef := None, de_conflict := None, de_error := None\<rparr>"

definition doc_reload :: "('k, 'd, 'z) DocEditor_scheme \<Rightarrow> ('k, 'd, 'z) DocEditor_scheme" where
  "doc_reload s = (case de_handle s of None \<Rightarrow> s | Some name \<Rightarrow> doc_load name s)"

text \<open>
  \<open>save\<close> closes over the handle of the render it was made in; the caller passes that handle. Its
  continuations: the write was accepted; it was refused and the document is read again; the
  second read tells a moved revision from another refusal.
\<close>

definition doc_outcome :: "nat \<Rightarrow> SaveOutcome \<Rightarrow> ('k, 'd, 'z) DocEditor_scheme \<Rightarrow> ('k, 'd, 'z) DocEditor_scheme" where
  "doc_outcome ticket outcome s = s\<lparr>de_outcomes := de_outcomes s @ [(ticket, outcome)]\<rparr>"

definition doc_save ::
  "'k option \<Rightarrow> 'd \<Rightarrow> ('k, 'd, 'z) DocEditor_scheme \<Rightarrow> ('k, 'd, 'z) DocEditor_scheme" where
  "doc_save name doc s =
     (case name of
        None \<Rightarrow> doc_outcome (de_issued s) Refused (s\<lparr>de_issued := de_issued s + 1\<rparr>)
      | Some n \<Rightarrow> doc_issue (WriteCall n doc (de_baseRevisionRef s)) (s\<lparr>de_error := None\<rparr>))"

definition doc_save_resolves :: "nat \<Rightarrow> int \<Rightarrow> ('k, 'd, 'z) DocEditor_scheme \<Rightarrow> ('k, 'd, 'z) DocEditor_scheme" where
  "doc_save_resolves ticket revision s =
     doc_outcome ticket Saved (s\<lparr>de_baseRevision := Some revision, de_baseRevisionRef := Some revision\<rparr>)"

definition doc_save_rejects ::
  "nat \<Rightarrow> 'k \<Rightarrow> jstring \<Rightarrow> ('k, 'd, 'z) DocEditor_scheme \<Rightarrow> ('k, 'd, 'z) DocEditor_scheme" where
  "doc_save_rejects ticket name reason s = doc_issue (RereadCall ticket name reason) s"

definition doc_reread_resolves ::
  "nat \<Rightarrow> jstring \<Rightarrow> int \<Rightarrow> ('k, 'd, 'z) DocEditor_scheme \<Rightarrow> ('k, 'd, 'z) DocEditor_scheme" where
  "doc_reread_resolves ticket reason revision s =
     doc_outcome ticket Refused
       (case de_baseRevisionRef s of
          Some base \<Rightarrow> if revision \<noteq> base then s\<lparr>de_conflict := Some revision\<rparr> else s\<lparr>de_error := Some reason\<rparr>
        | None \<Rightarrow> s\<lparr>de_error := Some reason\<rparr>)"

definition doc_reread_rejects :: "nat \<Rightarrow> jstring \<Rightarrow> ('k, 'd, 'z) DocEditor_scheme \<Rightarrow> ('k, 'd, 'z) DocEditor_scheme" where
  "doc_reread_rejects ticket readReason s = doc_outcome ticket Refused (s\<lparr>de_error := Some readReason\<rparr>)"

text \<open>A rename follows the new handle when it lands; a refusal is the caller's.\<close>

definition doc_rename :: "jstring \<Rightarrow> ('k, 'd, 'z) DocEditor_scheme \<Rightarrow> ('k, 'd, 'z) DocEditor_scheme" where
  "doc_rename to s = (case de_handle s of None \<Rightarrow> s | Some name \<Rightarrow> doc_issue (RenameCall name to) s)"

definition doc_rename_resolves :: "jstring \<Rightarrow> (jstring, 'd, 'z) DocEditor_scheme \<Rightarrow> (jstring, 'd, 'z) DocEditor_scheme" where
  "doc_rename_resolves name s = s\<lparr>de_handle := Some name\<rparr>"

definition copyLink :: "int \<Rightarrow> ('k, 'd, 'z) DocEditor_scheme \<Rightarrow> ('k, 'd, 'z) DocEditor_scheme" where
  "copyLink i s = doc_issue (LinkCall i) s"

definition doc_taken :: "nat \<Rightarrow> ('k, 'd, 'z) DocEditor_scheme \<Rightarrow> ('k, 'd, 'z) DocEditor_scheme" where
  "doc_taken ticket s = s\<lparr>de_pending := filter (\<lambda>c. fst c \<noteq> ticket) (de_pending s)\<rparr>"

text \<open>A pad's reply, dispatched to the continuation of its call.\<close>

definition pad_settles ::
  "('w \<Rightarrow> jstring) \<Rightarrow> ('w \<Rightarrow> int) \<Rightarrow> nat \<Rightarrow> 'w DocReply \<Rightarrow>
   (jstring, jstring) DocEditor \<Rightarrow> (jstring, jstring) DocEditor" where
  "pad_settles body revision ticket reply s =
     (case map_of (de_pending s) ticket of None \<Rightarrow> s
      | Some call \<Rightarrow>
          (let s = doc_taken ticket s in
           case (call, reply) of
             (LoadCall request _, Got view) \<Rightarrow> doc_load_resolves request (body view) (revision view) s
           | (LoadCall request _, Failed reason) \<Rightarrow> doc_load_rejects request reason s
           | (WriteCall _ _ _, Got view) \<Rightarrow> doc_save_resolves ticket (revision view) s
           | (WriteCall name _ _, Failed reason) \<Rightarrow> doc_save_rejects ticket name reason s
           | (RereadCall t _ reason, Got view) \<Rightarrow> doc_reread_resolves t reason (revision view) s
           | (RereadCall t _ _, Failed reason) \<Rightarrow> doc_reread_rejects t reason s
           | (RenameCall _ _, Named name) \<Rightarrow> doc_rename_resolves name s
           | (LinkCall _, Named link) \<Rightarrow> s\<lparr>de_clipboard := de_clipboard s @ [link]\<rparr>
           | (LinkCall _, Failed reason) \<Rightarrow> s\<lparr>de_error := Some reason\<rparr>
           | _ \<Rightarrow> s))"

datatype PadOp = PadOpen jstring | PadClose | PadReload | PadSave jstring

fun pad_user :: "PadOp \<Rightarrow> (jstring, jstring) DocEditor \<Rightarrow> (jstring, jstring) DocEditor" where
  "pad_user (PadOpen name) s = doc_open name s"
| "pad_user PadClose s = doc_close s"
| "pad_user PadReload s = doc_reload s"
| "pad_user (PadSave markdown) s = doc_save (de_handle s) markdown s"

subsection \<open>Scratchpads and diagrams\<close>

definition useScratchpadEditor :: "(jstring, jstring) DocEditor" where
  "useScratchpadEditor = doc_init"

definition scratchpad_settles ::
  "nat \<Rightarrow> ScratchpadView DocReply \<Rightarrow> (jstring, jstring) DocEditor \<Rightarrow> (jstring, jstring) DocEditor" where
  "scratchpad_settles = pad_settles sv_body sv_revision"

text \<open>A diagram's editor is a scratchpad's over the Mermaid source, with no link to copy.\<close>

definition useDiagramEditor :: "(jstring, jstring) DocEditor" where
  "useDiagramEditor = doc_init"

definition diagram_load :: "jstring \<Rightarrow> (jstring, jstring) DocEditor \<Rightarrow> (jstring, jstring) DocEditor" where
  "diagram_load = doc_load"

definition diagram_open :: "jstring \<Rightarrow> (jstring, jstring) DocEditor \<Rightarrow> (jstring, jstring) DocEditor" where
  "diagram_open = doc_open"

definition diagram_close :: "(jstring, jstring) DocEditor \<Rightarrow> (jstring, jstring) DocEditor" where
  "diagram_close = doc_close"

definition diagram_reload :: "(jstring, jstring) DocEditor \<Rightarrow> (jstring, jstring) DocEditor" where
  "diagram_reload = doc_reload"

definition diagram_save :: "jstring option \<Rightarrow> jstring \<Rightarrow> (jstring, jstring) DocEditor \<Rightarrow> (jstring, jstring) DocEditor" where
  "diagram_save = doc_save"

definition diagram_rename :: "jstring \<Rightarrow> (jstring, jstring) DocEditor \<Rightarrow> (jstring, jstring) DocEditor" where
  "diagram_rename = doc_rename"

definition diagram_settles ::
  "nat \<Rightarrow> DiagramView DocReply \<Rightarrow> (jstring, jstring) DocEditor \<Rightarrow> (jstring, jstring) DocEditor" where
  "diagram_settles = pad_settles dv_source dv_revision"

lemmas diagram_defs = diagram_load_def diagram_open_def diagram_close_def diagram_reload_def
  diagram_save_def diagram_rename_def

lemmas doc_defs = doc_issue_def doc_load_def doc_load_resolves_def doc_load_rejects_def doc_open_def
  doc_close_def doc_reload_def doc_outcome_def doc_save_def doc_save_resolves_def doc_save_rejects_def
  doc_reread_resolves_def doc_reread_rejects_def doc_rename_def doc_rename_resolves_def copyLink_def
  doc_taken_def Let_def

subsection \<open>Templates\<close>

text \<open>
  A template is addressed by its kind, its scope and its name; the project behind a scope is fixed
  for the editor's lifetime, so the scope stands for it. The written document is the description
  with the body, and the placeholders are the core's, from every load and accepted save.
\<close>

type_synonym template_handle = "TemplateKind \<times> TemplateScope \<times> jstring"
type_synonym template_doc = "jstring \<times> jstring"

record TemplateEditor = "(template_handle, template_doc) DocEditor" +
  te_initialDescription :: jstring
  te_placeholders :: "jstring list"

definition useTemplateEditor :: TemplateEditor where
  "useTemplateEditor = \<lparr>de_handle = None, de_initial = None, de_baseRevision = None, de_mountKey = 0,
     de_loading = False, de_conflict = None, de_error = None, de_baseRevisionRef = None,
     de_loadRequestRef = 0, de_pending = [], de_issued = 0, de_outcomes = [], de_clipboard = [],
     te_initialDescription = [], te_placeholders = []\<rparr>"

definition template_load_resolves :: "nat \<Rightarrow> TemplateView \<Rightarrow> TemplateEditor \<Rightarrow> TemplateEditor" where
  "template_load_resolves request view s =
     (if request \<noteq> de_loadRequestRef s then s
      else s\<lparr>de_initial := Some (tv_body view),
             te_initialDescription := (case tv_description view of None \<Rightarrow> [] | Some d \<Rightarrow> d),
             te_placeholders := tv_placeholders view, de_baseRevision := Some (tv_revision view),
             de_baseRevisionRef := Some (tv_revision view), de_mountKey := de_mountKey s + 1,
             de_loading := False\<rparr>)"

definition template_open :: "template_handle \<Rightarrow> TemplateEditor \<Rightarrow> TemplateEditor" where
  "template_open target s = doc_open target (s\<lparr>te_initialDescription := [], te_placeholders := []\<rparr>)"

text \<open>Closing a template leaves the write guard's reference as it is.\<close>

definition template_close :: "TemplateEditor \<Rightarrow> TemplateEditor" where
  "template_close s =
     s\<lparr>de_loadRequestRef := de_loadRequestRef s + 1, de_handle := None, de_initial := None,
       te_initialDescription := [], te_placeholders := [], de_baseRevision := None,
       de_conflict := None, de_error := None\<rparr>"

definition template_reload :: "TemplateEditor \<Rightarrow> TemplateEditor" where
  "template_reload s = (case de_handle s of None \<Rightarrow> s | Some target \<Rightarrow> doc_load target s)"

definition template_save :: "template_handle option \<Rightarrow> template_doc \<Rightarrow> TemplateEditor \<Rightarrow> TemplateEditor" where
  "template_save target doc s =
     (case target of
        None \<Rightarrow> doc_outcome (de_issued s) Refused (s\<lparr>de_issued := de_issued s + 1\<rparr>)
      | Some t \<Rightarrow>
          (if de_baseRevisionRef s = None
           then doc_outcome (de_issued s) Refused (s\<lparr>de_issued := de_issued s + 1\<rparr>)
           else doc_issue (WriteCall t doc (de_baseRevisionRef s)) (s\<lparr>de_error := None\<rparr>)))"

definition template_settles :: "nat \<Rightarrow> TemplateView DocReply \<Rightarrow> TemplateEditor \<Rightarrow> TemplateEditor" where
  "template_settles ticket reply s =
     (case map_of (de_pending s) ticket of None \<Rightarrow> s
      | Some call \<Rightarrow>
          (let s = doc_taken ticket s in
           case (call, reply) of
             (LoadCall request _, Got view) \<Rightarrow> template_load_resolves request view s
           | (LoadCall request _, Failed reason) \<Rightarrow> doc_load_rejects request reason s
           | (WriteCall _ _ _, Got view) \<Rightarrow>
               doc_save_resolves ticket (tv_revision view) (s\<lparr>te_placeholders := tv_placeholders view\<rparr>)
           | (WriteCall target _ _, Failed reason) \<Rightarrow> doc_save_rejects ticket target reason s
           | (RereadCall t _ reason, Got view) \<Rightarrow> doc_reread_resolves t reason (tv_revision view) s
           | (RereadCall t _ _, Failed reason) \<Rightarrow> doc_reread_rejects t reason s
           | _ \<Rightarrow> s))"

datatype TemplateOp = TemplateOpen template_handle | TemplateClose | TemplateReload | TemplateSave template_doc

fun template_user :: "TemplateOp \<Rightarrow> TemplateEditor \<Rightarrow> TemplateEditor" where
  "template_user (TemplateOpen target) s = template_open target s"
| "template_user TemplateClose s = template_close s"
| "template_user TemplateReload s = template_reload s"
| "template_user (TemplateSave doc) s = template_save (de_handle s) doc s"

lemmas template_editor_defs = template_load_resolves_def template_open_def template_close_def
  template_reload_def template_save_def doc_defs

subsection \<open>Todos\<close>

text \<open>
  \<open>store/useTodoEditor.ts\<close>: the to-do board's form. The document is the todo's document with the
  scratchpad it derives from. Opening an edit seeds the guard from the live snapshot; a save with
  no todo open creates one and closes the form when the core has answered.
\<close>

datatype TodoEditorMode = ModeCreate | ModeEdit

type_synonym todo_doc = "TodoDoc \<times> int option"

record TodoEditor =
  tde_mode :: "TodoEditorMode option"
  tde_editingId :: "int option"
  tde_initial :: "TodoDoc option"
  tde_scratchpad :: "int option"
  tde_baseRevision :: "int option"
  tde_mountKey :: nat
  tde_error :: "jstring option"
  tde_editingIdRef :: "int option"
  tde_baseRevisionRef :: "int option"
  tde_pending :: "(nat \<times> (int, todo_doc) DocCall) list"
  tde_issued :: nat
  tde_outcomes :: "(nat \<times> SaveOutcome) list"

definition DRAFT :: TodoDoc where
  "DRAFT = \<lparr>td_title = [], td_body = [], td_status = TodoOpen\<rparr>"

definition useTodoEditor :: TodoEditor where
  "useTodoEditor = \<lparr>tde_mode = None, tde_editingId = None, tde_initial = None, tde_scratchpad = None,
     tde_baseRevision = None, tde_mountKey = 0, tde_error = None, tde_editingIdRef = None,
     tde_baseRevisionRef = None, tde_pending = [], tde_issued = 0, tde_outcomes = []\<rparr>"

definition startCreate :: "TodoEditor \<Rightarrow> TodoEditor" where
  "startCreate s = s\<lparr>tde_mode := Some ModeCreate, tde_editingId := None, tde_editingIdRef := None,
     tde_initial := Some DRAFT, tde_scratchpad := None, tde_baseRevision := None,
     tde_baseRevisionRef := None, tde_error := None, tde_mountKey := tde_mountKey s + 1\<rparr>"

definition seedEdit :: "TodoView \<Rightarrow> TodoEditor \<Rightarrow> TodoEditor" where
  "seedEdit todo s = s\<lparr>tde_mode := Some ModeEdit, tde_editingId := Some (to_id todo),
     tde_editingIdRef := Some (to_id todo), tde_initial := Some (to_doc todo),
     tde_scratchpad := map_option sr_id (to_scratchpad todo), tde_baseRevision := Some (to_revision todo),
     tde_baseRevisionRef := Some (to_revision todo), tde_error := None, tde_mountKey := tde_mountKey s + 1\<rparr>"

definition todo_close :: "TodoEditor \<Rightarrow> TodoEditor" where
  "todo_close s = s\<lparr>tde_mode := None, tde_editingId := None, tde_editingIdRef := None,
     tde_initial := None, tde_scratchpad := None, tde_baseRevision := None, tde_baseRevisionRef := None,
     tde_error := None\<rparr>"

definition todo_issue :: "(int, todo_doc) DocCall \<Rightarrow> TodoEditor \<Rightarrow> TodoEditor" where
  "todo_issue call s = s\<lparr>tde_pending := tde_pending s @ [(tde_issued s, call)], tde_issued := tde_issued s + 1\<rparr>"

definition todo_save :: "TodoDoc \<Rightarrow> int option \<Rightarrow> TodoEditor \<Rightarrow> TodoEditor" where
  "todo_save doc scratchpad s =
     (let s = s\<lparr>tde_error := None\<rparr>
      in case tde_editingIdRef s of
           None \<Rightarrow> todo_issue (CreateCall (doc, scratchpad)) s
         | Some i \<Rightarrow> todo_issue (WriteCall i (doc, scratchpad)
             (Some (case tde_baseRevisionRef s of None \<Rightarrow> 0 | Some r \<Rightarrow> r))) s)"

definition todo_settles :: "nat \<Rightarrow> TodoView DocReply \<Rightarrow> TodoEditor \<Rightarrow> TodoEditor" where
  "todo_settles ticket reply s =
     (case map_of (tde_pending s) ticket of None \<Rightarrow> s
      | Some call \<Rightarrow>
          (let s = s\<lparr>tde_pending := filter (\<lambda>c. fst c \<noteq> ticket) (tde_pending s)\<rparr>;
               resolved = (\<lambda>outcome s. s\<lparr>tde_outcomes := tde_outcomes s @ [(ticket, outcome)]\<rparr>)
           in case (call, reply) of
                (CreateCall _, Done) \<Rightarrow> resolved Saved (todo_close s)
              | (WriteCall _ _ _, Got view) \<Rightarrow>
                  resolved Saved (s\<lparr>tde_baseRevision := Some (to_revision view),
                    tde_baseRevisionRef := Some (to_revision view)\<rparr>)
              | (_, Failed reason) \<Rightarrow> resolved Refused (s\<lparr>tde_error := Some reason\<rparr>)
              | _ \<Rightarrow> s))"

datatype TodoOp = TodoCreate | TodoEdit TodoView | TodoClose | TodoSave TodoDoc "int option" | TodoReload TodoView

fun todo_user :: "TodoOp \<Rightarrow> TodoEditor \<Rightarrow> TodoEditor" where
  "todo_user TodoCreate s = startCreate s"
| "todo_user (TodoEdit todo) s = seedEdit todo s"
| "todo_user TodoClose s = todo_close s"
| "todo_user (TodoSave doc scratchpad) s = todo_save doc scratchpad s"
| "todo_user (TodoReload todo) s = seedEdit todo s"

lemmas todo_editor_defs = startCreate_def seedEdit_def todo_close_def todo_issue_def todo_save_def Let_def

subsection \<open>The latest load wins\<close>

text \<open>
  A read that another load, or a close, has overtaken changes nothing but the pending calls; the
  reply of the latest one seeds the editor and re-arms the guard with its own revision.
\<close>

lemma superseded_load_ignored:
  assumes "map_of (de_pending s) t = Some (LoadCall request name)" and "request \<noteq> de_loadRequestRef s"
  shows "pad_settles body revision t (Got view) s = doc_taken t s"
    and "pad_settles body revision t (Failed reason) s = doc_taken t s"
  using assms by (simp_all add: pad_settles_def doc_defs)

lemma latest_load_seeds:
  assumes "map_of (de_pending s) t = Some (LoadCall (de_loadRequestRef s) name)"
  shows "de_initial (pad_settles body revision t (Got view) s) = Some (body view)"
    and "de_baseRevisionRef (pad_settles body revision t (Got view) s) = Some (revision view)"
    and "de_mountKey (pad_settles body revision t (Got view) s) = de_mountKey s + 1"
    and "\<not> de_loading (pad_settles body revision t reply s) \<or> reply = Done \<or> (\<exists>n. reply = Named n)"
  using assms by (auto simp: pad_settles_def doc_defs split: DocReply.splits)

end
