(* ===== verification/GuardedEditor.thy ===== *)
theory GuardedEditor
  imports DocEditor
begin

section \<open>Editors against a core with other writers\<close>

text \<open>
  The editors of \<open>DocEditor\<close> composed with the core that stores the documents and with other
  writers (agents). A row of the core is the history of its versions, the last one current. A call
  runs in the core some time after it was made, and its reply is delivered some time after that.
  The core's guard is that of \<open>doc_table.rs\<close>: a write applies only at the expected revision.
\<close>

subsection \<open>The core's table\<close>

record ('k, 'd, 'w) CoreTable =
  ct_doc :: "'w \<Rightarrow> 'd"
  ct_rev :: "'w \<Rightarrow> int"
  ct_set :: "'d \<Rightarrow> 'w \<Rightarrow> 'w"
  ct_new :: "'k \<Rightarrow> 'd \<Rightarrow> 'w"

type_synonym ('k, 'w) rows = "('k, 'w list) jsmap"

definition core_write ::
  "('k, 'd, 'w) CoreTable \<Rightarrow> 'k \<Rightarrow> 'd \<Rightarrow> int option \<Rightarrow> ('k, 'w) rows \<Rightarrow> 'w DocReply \<times> ('k, 'w) rows" where
  "core_write T k d expected docs =
     (case (map_get docs k, expected) of
        (Some vs, Some r) \<Rightarrow>
          (if ct_rev T (last vs) = r
           then (Got (ct_set T d (last vs)), map_set k (vs @ [ct_set T d (last vs)]) docs)
           else (Failed (lit ''revision conflict''), docs))
      | (None, None) \<Rightarrow> (Got (ct_new T k d), map_set k [ct_new T k d] docs)
      | _ \<Rightarrow> (Failed (lit ''revision conflict''), docs))"

definition core_read :: "'k \<Rightarrow> ('k, 'w) rows \<Rightarrow> 'w DocReply" where
  "core_read k docs = (case map_get docs k of None \<Rightarrow> Failed (lit ''not found'') | Some vs \<Rightarrow> Got (last vs))"

text \<open>A new todo gets an id of its own; renames and links are not part of these runs.\<close>

fun core_call ::
  "('k, 'd, 'w) CoreTable \<Rightarrow> ('k, 'd) DocCall \<Rightarrow> ('k, 'w) rows \<Rightarrow> 'w DocReply \<times> ('k, 'w) rows" where
  "core_call T (LoadCall _ k) docs = (core_read k docs, docs)"
| "core_call T (RereadCall _ k _) docs = (core_read k docs, docs)"
| "core_call T (WriteCall k d expected) docs = core_write T k d expected docs"
| "core_call T (CreateCall _) docs = (Done, docs)"
| "core_call T (RenameCall _ _) docs = (Failed (lit ''refused''), docs)"
| "core_call T (LinkCall _) docs = (Failed (lit ''refused''), docs)"

subsection \<open>Runs\<close>

text \<open>
  \<open>sh_seen\<close> are the documents that were ever mounted in the editor, with the rows its own writes
  stored; \<open>sh_overwritten\<close> the rows its accepted writes replaced.
\<close>

record ('s, 'k, 'd, 'w) Shared =
  sh_editor :: 's
  sh_docs :: "('k, 'w) rows"
  sh_replies :: "(nat \<times> 'w DocReply) list"
  sh_seen :: "('k \<times> 'd) list"
  sh_overwritten :: "('k \<times> 'd) list"

datatype ('u, 'k, 'd) SharedOp =
    ByUser 'u | CoreRuns nat | CoreRefuses nat jstring | Delivered nat | ByOther 'k 'd

fun written_rows ::
  "('k, 'd, 'w) CoreTable \<Rightarrow> ('k, 'd) DocCall \<Rightarrow> 'w DocReply \<Rightarrow> ('k, 'w) rows \<Rightarrow> ('k \<times> 'd) list \<times> ('k \<times> 'd) list" where
  "written_rows T (WriteCall k d _) (Got w) docs =
     ([(k, ct_doc T w)], case map_get docs k of None \<Rightarrow> [] | Some vs \<Rightarrow> [(k, ct_doc T (last vs))])"
| "written_rows T _ _ docs = ([], [])"

definition other_writes :: "('k, 'd, 'w) CoreTable \<Rightarrow> 'k \<Rightarrow> 'd \<Rightarrow> ('k, 'w) rows \<Rightarrow> ('k, 'w) rows" where
  "other_writes T k d docs =
     snd (core_write T k d (map_option (\<lambda>vs. ct_rev T (last vs)) (map_get docs k)) docs)"

fun shared_step ::
  "('k, 'd, 'w) CoreTable \<Rightarrow> ('s \<Rightarrow> (nat \<times> ('k, 'd) DocCall) list) \<Rightarrow> ('s \<Rightarrow> ('k \<times> 'd) list) \<Rightarrow>
   ('u \<Rightarrow> 's \<Rightarrow> 's) \<Rightarrow> (nat \<Rightarrow> 'w DocReply \<Rightarrow> 's \<Rightarrow> 's) \<Rightarrow>
   ('s, 'k, 'd, 'w) Shared \<Rightarrow> ('u, 'k, 'd) SharedOp \<Rightarrow> ('s, 'k, 'd, 'w) Shared" where
  "shared_step T pending shown user settles s (ByUser u) =
     s\<lparr>sh_editor := user u (sh_editor s), sh_seen := sh_seen s @ shown (user u (sh_editor s))\<rparr>"
| "shared_step T pending shown user settles s (CoreRuns t) =
     (case map_of (pending (sh_editor s)) t of None \<Rightarrow> s
      | Some c \<Rightarrow>
          if t \<in> fst ` set (sh_replies s) then s
          else let (reply, docs) = core_call T c (sh_docs s); (stored, replaced) = written_rows T c reply (sh_docs s)
            in s\<lparr>sh_docs := docs, sh_replies := sh_replies s @ [(t, reply)],
                 sh_seen := sh_seen s @ stored, sh_overwritten := sh_overwritten s @ replaced\<rparr>)"
| "shared_step T pending shown user settles s (CoreRefuses t reason) =
     (if t \<in> fst ` set (pending (sh_editor s)) \<and> t \<notin> fst ` set (sh_replies s)
      then s\<lparr>sh_replies := sh_replies s @ [(t, Failed reason)]\<rparr> else s)"
| "shared_step T pending shown user settles s (Delivered t) =
     (case map_of (sh_replies s) t of None \<Rightarrow> s
      | Some reply \<Rightarrow>
          s\<lparr>sh_editor := settles t reply (sh_editor s),
            sh_replies := filter (\<lambda>r. fst r \<noteq> t) (sh_replies s),
            sh_seen := sh_seen s @ shown (settles t reply (sh_editor s))\<rparr>)"
| "shared_step T pending shown user settles s (ByOther k d) =
     s\<lparr>sh_docs := other_writes T k d (sh_docs s)\<rparr>"

text \<open>Runs whose user operations are admissible where they occur.\<close>

fun admitted ::
  "('u \<Rightarrow> 's \<Rightarrow> ('k, 'w) rows \<Rightarrow> bool) \<Rightarrow>
   (('s, 'k, 'd, 'w) Shared \<Rightarrow> ('u, 'k, 'd) SharedOp \<Rightarrow> ('s, 'k, 'd, 'w) Shared) \<Rightarrow>
   ('s, 'k, 'd, 'w) Shared \<Rightarrow> ('u, 'k, 'd) SharedOp list \<Rightarrow> bool" where
  "admitted adm step s [] = True"
| "admitted adm step s (op # ops) =
     ((case op of ByUser u \<Rightarrow> adm u (sh_editor s) (sh_docs s) | _ \<Rightarrow> True) \<and> admitted adm step (step s op) ops)"

definition rows_ok :: "('k, 'd, 'w) CoreTable \<Rightarrow> ('k, 'w) rows \<Rightarrow> bool" where
  "rows_ok T docs \<longleftrightarrow> (\<forall>(k, vs) \<in> set docs. vs \<noteq> [] \<and> map (ct_rev T) vs = [1..int (length vs)]) \<and> map_wf docs"

definition versions :: "('k, 'w) rows \<Rightarrow> 'k \<Rightarrow> 'w set" where
  "versions docs k = (case map_get docs k of None \<Rightarrow> {} | Some vs \<Rightarrow> set vs)"

definition shared_init :: "'s \<Rightarrow> ('k, 'w) rows \<Rightarrow> ('s, 'k, 'd, 'w) Shared" where
  "shared_init e docs = \<lparr>sh_editor = e, sh_docs = docs, sh_replies = [], sh_seen = [], sh_overwritten = []\<rparr>"

subsection \<open>The laws of a table, and what they give\<close>

locale core_table =
  fixes T :: "('k, 'd, 'w) CoreTable"
  assumes rev_set: "ct_rev T (ct_set T d w) = ct_rev T w + 1"
    and rev_new: "ct_rev T (ct_new T k d) = 1"
begin

lemma rows_ok_iff:
  "rows_ok T docs \<longleftrightarrow> map_wf docs
     \<and> (\<forall>k vs. map_get docs k = Some vs \<longrightarrow> vs \<noteq> [] \<and> map (ct_rev T) vs = [1..int (length vs)])"
  by (cases "distinct (map fst docs)") (simp_all add: rows_ok_def map_wf_def Ball_def split_paired_All)

lemma rows_get:
  assumes "rows_ok T docs" and "map_get docs k = Some vs"
  shows "vs \<noteq> [] \<and> map (ct_rev T) vs = [1..int (length vs)]"
  using assms map_of_SomeD [OF assms(2)] by (auto simp: rows_ok_def)

lemma last_rev:
  assumes "rows_ok T docs" and "map_get docs k = Some vs"
  shows "ct_rev T (last vs) = int (length vs)"
proof -
  have "vs \<noteq> []" and "map (ct_rev T) vs = [1..int (length vs)]" using rows_get [OF assms] by auto
  then have "ct_rev T (last vs) = last [1..int (length vs)]" by (metis last_map)
  also have "\<dots> = int (length vs)" using \<open>vs \<noteq> []\<close> by (subst upto_rec2) (auto simp: Suc_le_eq)
  finally show ?thesis .
qed

lemma rev_unique:
  assumes "rows_ok T docs" and "map_get docs k = Some vs" and "w \<in> set vs" and "ct_rev T w = ct_rev T (last vs)"
  shows "w = last vs"
proof -
  have "distinct (map (ct_rev T) vs)" using rows_get [OF assms(1,2)] by (metis distinct_upto)
  then have "inj_on (ct_rev T) (set vs)" by (simp add: distinct_map)
  then show ?thesis using assms(3,4) rows_get [OF assms(1,2)] by (auto dest: inj_onD)
qed

lemma rev_positive:
  assumes "rows_ok T docs" and "map_get docs k = Some vs" and "w \<in> set vs"
  shows "ct_rev T w \<ge> 1"
proof -
  have "ct_rev T w \<in> set (map (ct_rev T) vs)" using assms(3) by simp
  then show ?thesis using rows_get [OF assms(1,2)] by auto
qed

lemma rows_ok_set:
  assumes "rows_ok T docs" and "vs \<noteq> []" and "map (ct_rev T) vs = [1..int (length vs)]"
  shows "rows_ok T (map_set k vs docs)"
  using assms jsmap.wf_put [of docs k vs] by (auto simp: rows_ok_iff jsmap.get_put)

lemma rows_ok_write:
  assumes "rows_ok T docs"
  shows "rows_ok T (snd (core_write T k d g docs))"
proof -
  { fix vs assume vs: "map_get docs k = Some vs"
    have "map (ct_rev T) (vs @ [ct_set T d (last vs)]) = [1..int (length vs)] @ [int (length vs) + 1]"
      using rows_get [OF assms vs] last_rev [OF assms vs] by (simp add: rev_set)
    also have "\<dots> = [1..int (length (vs @ [ct_set T d (last vs)]))]" by (simp add: upto_rec2)
    finally have "rows_ok T (map_set k (vs @ [ct_set T d (last vs)]) docs)"
      using assms by (intro rows_ok_set) auto }
  moreover have "rows_ok T (map_set k [ct_new T k d] docs)"
    using assms by (intro rows_ok_set) (auto simp: rev_new)
  ultimately show ?thesis using assms by (auto simp: core_write_def split: option.splits)
qed

lemma versions_write: "versions docs k \<subseteq> versions (snd (core_write T j d g docs)) k"
  by (auto simp: versions_def core_write_def jsmap.get_put split: option.splits)

lemma versions_written: "core_write T k d g docs = (Got w, docs') \<Longrightarrow> w \<in> versions docs' k"
  by (auto simp: versions_def core_write_def jsmap.get_put split: option.splits if_splits)

lemma versions_read:
  assumes "rows_ok T docs" and "core_read k docs = Got w"
  shows "w \<in> versions docs k"
  using assms(2) rows_get [OF assms(1)]
  by (auto simp: core_read_def versions_def split: option.splits)

lemma core_call_rows: "rows_ok T docs \<Longrightarrow> rows_ok T (snd (core_call T c docs))"
  by (cases c) (auto simp: rows_ok_write)

lemma core_call_versions: "versions docs k \<subseteq> versions (snd (core_call T c docs)) k"
  by (cases c) (auto dest: versions_write [THEN subsetD])

end

subsection \<open>The contract of a guarded editor\<close>

text \<open>
  What the argument needs of an editor: its calls carry the open handle and the guard of the
  moment, none of them is a rename, the guard moves only with a reply about the open document or with a document mounted
  beside it, and a load that is still the latest is for the open document.
\<close>

definition calls_current ::
  "(nat \<times> ('k, 'd) DocCall) list \<Rightarrow> nat \<Rightarrow> 'k option \<Rightarrow> bool" where
  "calls_current calls request handle \<longleftrightarrow>
     (\<forall>(t, c) \<in> set calls. case c of
        LoadCall q k \<Rightarrow> q \<le> request \<and> (q = request \<longrightarrow> handle = None \<or> handle = Some k)
      | WriteCall k _ _ \<Rightarrow> handle = None \<or> handle = Some k
      | RenameCall _ _ \<Rightarrow> False
      | _ \<Rightarrow> True)"

definition known :: "('k, 'd, 'w) CoreTable \<Rightarrow> ('k, 'w) rows \<Rightarrow> ('k \<times> 'd) list \<Rightarrow> 'k \<Rightarrow> int \<Rightarrow> bool" where
  "known T docs seen k r \<longleftrightarrow> (\<exists>w \<in> versions docs k. ct_rev T w = r \<and> (k, ct_doc T w) \<in> set seen)"

fun reply_fits ::
  "('k, 'd, 'w) CoreTable \<Rightarrow> ('k, 'w) rows \<Rightarrow> ('k \<times> 'd) list \<Rightarrow> ('k, 'd) DocCall option \<Rightarrow> 'w DocReply \<Rightarrow> bool" where
  "reply_fits T docs seen (Some (LoadCall q k)) (Got w) = (w \<in> versions docs k)"
| "reply_fits T docs seen (Some (WriteCall k d g)) (Got w) = known T docs seen k (ct_rev T w)"
| "reply_fits T docs seen _ _ = True"

lemma known_mono:
  assumes "known T docs seen k r" and "\<And>k. versions docs k \<subseteq> versions docs' k" and "set seen \<subseteq> set seen'"
  shows "known T docs' seen' k r"
  using assms by (fastforce simp: known_def)

lemma reply_fits_mono:
  assumes "reply_fits T docs seen c reply" and "\<And>k. versions docs k \<subseteq> versions docs' k" and "set seen \<subseteq> set seen'"
  shows "reply_fits T docs' seen' c reply"
  using assms known_mono [OF _ assms(2,3)]
  by (induction T docs seen c reply rule: reply_fits.induct) auto

lemma map_of_append_other: "t \<noteq> i \<Longrightarrow> map_of (xs @ [(i, c)]) t = map_of xs t"
  by (induction xs) auto

lemma map_of_filter_other: "t \<noteq> i \<Longrightarrow> map_of (filter (\<lambda>p. fst p \<noteq> i) xs) t = map_of xs t"
  by (induction xs) auto

locale guarded_editor = core_table T
  for T :: "('k, 'd, 'w) CoreTable" +
  fixes handle :: "'s \<Rightarrow> 'k option" and guard :: "'s \<Rightarrow> int option"
    and request :: "'s \<Rightarrow> nat" and issued :: "'s \<Rightarrow> nat"
    and pending :: "'s \<Rightarrow> (nat \<times> ('k, 'd) DocCall) list"
    and shown :: "'s \<Rightarrow> ('k \<times> 'd) list"
    and user :: "'u \<Rightarrow> 's \<Rightarrow> 's" and settles :: "nat \<Rightarrow> 'w DocReply \<Rightarrow> 's \<Rightarrow> 's"
    and adm :: "'u \<Rightarrow> 's \<Rightarrow> ('k, 'w) rows \<Rightarrow> bool"
  assumes user_calls:
      "(pending (user u e) = pending e \<and> issued e \<le> issued (user u e))
       \<or> (\<exists>c. pending (user u e) = pending e @ [(issued e, c)] \<and> issued (user u e) = issued e + 1
           \<and> (\<forall>k d g. c = WriteCall k d g \<longrightarrow> handle e = Some k \<and> (g = guard e \<or> g = Some 0)))"
    and user_current:
      "adm u e docs \<Longrightarrow> calls_current (pending e) (request e) (handle e) \<Longrightarrow>
       calls_current (pending (user u e)) (request (user u e)) (handle (user u e))"
    and user_guard:
      "adm u e docs \<Longrightarrow> handle (user u e) = Some k \<Longrightarrow> guard (user u e) = Some r \<Longrightarrow>
       (handle e = Some k \<and> guard e = Some r)
       \<or> (\<exists>w \<in> versions docs k. ct_rev T w = r \<and> (k, ct_doc T w) \<in> set (shown (user u e)))"
    and settles_stale: "t \<notin> fst ` set (pending e) \<Longrightarrow> settles t reply e = e"
    and settles_calls:
      "map_of (pending e) t = Some c \<Longrightarrow>
       (pending (settles t reply e) = filter (\<lambda>p. fst p \<noteq> t) (pending e) \<and> issued (settles t reply e) = issued e)
       \<or> (\<exists>k reason. pending (settles t reply e) = filter (\<lambda>p. fst p \<noteq> t) (pending e) @ [(issued e, RereadCall t k reason)]
           \<and> issued (settles t reply e) = issued e + 1)"
    and settles_current:
      "calls_current (pending e) (request e) (handle e) \<Longrightarrow>
       calls_current (pending (settles t reply e)) (request (settles t reply e)) (handle (settles t reply e))"
    and settles_guard:
      "map_of (pending e) t = Some c \<Longrightarrow> calls_current (pending e) (request e) (handle e) \<Longrightarrow>
       handle (settles t reply e) = Some k \<Longrightarrow> guard (settles t reply e) = Some r \<Longrightarrow>
       (handle e = Some k \<and> guard e = Some r)
       \<or> (\<exists>w. reply = Got w \<and> ct_rev T w = r
           \<and> ((\<exists>d g. c = WriteCall k d g)
              \<or> (\<exists>q. c = LoadCall q k \<and> (k, ct_doc T w) \<in> set (shown (settles t reply e)))))"
begin

definition shared_inv :: "('s, 'k, 'd, 'w) Shared \<Rightarrow> bool" where
  "shared_inv s \<longleftrightarrow> (let e = sh_editor s in
     rows_ok T (sh_docs s)
     \<and> calls_current (pending e) (request e) (handle e)
     \<and> distinct (map fst (pending e)) \<and> (\<forall>t \<in> fst ` set (pending e). t < issued e)
     \<and> (\<forall>t \<in> fst ` set (sh_replies s). t < issued e)
     \<and> (\<forall>k r. handle e = Some k \<longrightarrow> guard e = Some r \<longrightarrow> known T (sh_docs s) (sh_seen s) k r)
     \<and> (\<forall>t k d r. (t, WriteCall k d (Some r)) \<in> set (pending e) \<longrightarrow> r = 0 \<or> known T (sh_docs s) (sh_seen s) k r)
     \<and> (\<forall>(t, reply) \<in> set (sh_replies s). reply_fits T (sh_docs s) (sh_seen s) (map_of (pending e) t) reply)
     \<and> set (sh_overwritten s) \<subseteq> set (sh_seen s))"

abbreviation step :: "('s, 'k, 'd, 'w) Shared \<Rightarrow> ('u, 'k, 'd) SharedOp \<Rightarrow> ('s, 'k, 'd, 'w) Shared" where
  "step \<equiv> shared_step T pending shown user settles"

lemma shared_invD:
  assumes "shared_inv s"
  shows "rows_ok T (sh_docs s)"
    and "calls_current (pending (sh_editor s)) (request (sh_editor s)) (handle (sh_editor s))"
    and "distinct (map fst (pending (sh_editor s)))"
    and "t \<in> fst ` set (pending (sh_editor s)) \<Longrightarrow> t < issued (sh_editor s)"
    and "t \<in> fst ` set (sh_replies s) \<Longrightarrow> t < issued (sh_editor s)"
    and "handle (sh_editor s) = Some k \<Longrightarrow> guard (sh_editor s) = Some r \<Longrightarrow> known T (sh_docs s) (sh_seen s) k r"
    and "(t, WriteCall k d (Some r)) \<in> set (pending (sh_editor s)) \<Longrightarrow> r = 0 \<or> known T (sh_docs s) (sh_seen s) k r"
    and "(t, reply) \<in> set (sh_replies s) \<Longrightarrow>
      reply_fits T (sh_docs s) (sh_seen s) (map_of (pending (sh_editor s)) t) reply"
    and "set (sh_overwritten s) \<subseteq> set (sh_seen s)"
  using assms by (auto simp: shared_inv_def Let_def)

text \<open>The editor moves over standing rows, by an operation of the person or by a reply.\<close>

lemma inv_editor_moves:
  assumes inv: "shared_inv s"
    and s': "sh_docs s' = sh_docs s" "set (sh_replies s') \<subseteq> set (sh_replies s)"
      "sh_overwritten s' = sh_overwritten s" "set (sh_seen s) \<subseteq> set (sh_seen s')" "sh_editor s' = e'"
    and current: "calls_current (pending e') (request e') (handle e')"
    and tickets: "distinct (map fst (pending e'))" "\<forall>t \<in> fst ` set (pending e'). t < issued e'"
      "issued (sh_editor s) \<le> issued e'"
    and lookup: "\<And>t reply. (t, reply) \<in> set (sh_replies s') \<Longrightarrow>
      map_of (pending e') t = map_of (pending (sh_editor s)) t"
    and guarded: "\<And>k r. handle e' = Some k \<Longrightarrow> guard e' = Some r \<Longrightarrow> known T (sh_docs s') (sh_seen s') k r"
    and writes: "\<And>t k d r. (t, WriteCall k d (Some r)) \<in> set (pending e') \<Longrightarrow>
      r = 0 \<or> known T (sh_docs s') (sh_seen s') k r"
  shows "shared_inv s'"
proof -
  note I = shared_invD [OF inv]
  have "\<forall>t \<in> fst ` set (sh_replies s'). t < issued e'"
    using I(5) tickets(3) s'(2) by (meson image_mono less_le_trans subsetD)
  moreover have "\<forall>k r. handle e' = Some k \<longrightarrow> guard e' = Some r \<longrightarrow> known T (sh_docs s') (sh_seen s') k r"
    using guarded by blast
  moreover have "\<forall>t k d r. (t, WriteCall k d (Some r)) \<in> set (pending e') \<longrightarrow>
      r = 0 \<or> known T (sh_docs s') (sh_seen s') k r" using writes by blast
  moreover have "reply_fits T (sh_docs s') (sh_seen s') (map_of (pending e') t) reply"
    if "(t, reply) \<in> set (sh_replies s')" for t reply
  proof -
    have "reply_fits T (sh_docs s) (sh_seen s) (map_of (pending e') t) reply"
      using I(8) [of t reply] lookup [OF that] that s'(2) by auto
    then show ?thesis by (rule reply_fits_mono) (use s'(1,4) in auto)
  qed
  moreover have "set (sh_overwritten s') \<subseteq> set (sh_seen s')" using I(9) s'(3,4) by auto
  moreover have "rows_ok T (sh_docs s')" using I(1) s'(1) by simp
  ultimately show ?thesis
    unfolding shared_inv_def Let_def s'(5) using current tickets(1,2) by blast
qed

lemma inv_user:
  assumes inv: "shared_inv s" and adm: "adm u (sh_editor s) (sh_docs s)"
  shows "shared_inv (step s (ByUser u))"
proof -
  let ?e = "sh_editor s" and ?e' = "user u (sh_editor s)" and ?s' = "step s (ByUser u)"
  note I = shared_invD [OF inv]
  have mono: "known T (sh_docs s) (sh_seen s) k r \<Longrightarrow> known T (sh_docs ?s') (sh_seen ?s') k r" for k r
    by (erule known_mono) auto
  have fresh: "issued ?e \<notin> fst ` set (pending ?e)" using I(4) by blast
  note calls = user_calls [of u ?e]
  show ?thesis
  proof (rule inv_editor_moves [OF inv])
    show "calls_current (pending ?e') (request ?e') (handle ?e')" by (rule user_current [OF adm I(2)])
    show "distinct (map fst (pending ?e'))" "\<forall>t \<in> fst ` set (pending ?e'). t < issued ?e'"
      "issued ?e \<le> issued ?e'"
      using calls I(3) fresh by (auto simp: less_Suc_eq dest!: I(4) [OF imageI])
    show "map_of (pending ?e') t = map_of (pending ?e) t" if "(t, reply) \<in> set (sh_replies ?s')" for t reply
    proof -
      have "t < issued ?e" using I(5) [of t] that by force
      then show ?thesis using calls by (auto simp: map_of_append_other simp del: map_of_append)
    qed
    show "known T (sh_docs ?s') (sh_seen ?s') k r" if "handle ?e' = Some k" "guard ?e' = Some r" for k r
      using user_guard [OF adm that]
    proof
      assume "handle ?e = Some k \<and> guard ?e = Some r"
      then show ?thesis using I(6) mono by blast
    qed (auto simp: known_def)
    show "r = 0 \<or> known T (sh_docs ?s') (sh_seen ?s') k r" if "(t, WriteCall k d (Some r)) \<in> set (pending ?e')" for t k d r
    proof (cases "(t, WriteCall k d (Some r)) \<in> set (pending ?e)")
      case True
      with I(7) mono show ?thesis by blast
    next
      case False
      with calls that have "handle ?e = Some k \<and> (Some r = guard ?e \<or> r = 0)" by auto
      then show ?thesis using I(6) [of k r] mono by auto
    qed
  qed simp_all
qed

lemma inv_delivered:
  assumes inv: "shared_inv s"
  shows "shared_inv (step s (Delivered t))"
proof (cases "map_of (sh_replies s) t")
  case None
  then show ?thesis using inv by simp
next
  case reply: (Some reply)
  let ?e = "sh_editor s" and ?e' = "settles t reply (sh_editor s)" and ?s' = "step s (Delivered t)"
  note I = shared_invD [OF inv]
  have mono: "known T (sh_docs s) (sh_seen s) k r \<Longrightarrow> known T (sh_docs ?s') (sh_seen ?s') k r" for k r
    by (erule known_mono) (auto simp: reply)
  have fresh: "issued ?e \<notin> fst ` set (pending ?e)" using I(4) by blast
  show ?thesis
  proof (cases "map_of (pending ?e) t")
    case None
    then have "?e' = ?e" by (simp add: settles_stale map_of_eq_None_iff)
    show ?thesis
    proof (rule inv_editor_moves [OF inv, where e' = ?e])
      show "j = 0 \<or> known T (sh_docs ?s') (sh_seen ?s') k j" if "(i, WriteCall k d (Some j)) \<in> set (pending ?e)" for i k d j
        using I(7) [OF that] mono by blast
    qed (use \<open>?e' = ?e\<close> I(2,3,4) I(6) [THEN mono] reply in auto)
  next
    case call: (Some c)
    note calls = settles_calls [OF call, of reply]
    show ?thesis
    proof (rule inv_editor_moves [OF inv])
      show "calls_current (pending ?e') (request ?e') (handle ?e')" by (rule settles_current [OF I(2)])
      have "distinct (map fst (filter (\<lambda>p. fst p \<noteq> t) (pending ?e)))" by (rule distinct_map_filter [OF I(3)])
      then show "distinct (map fst (pending ?e'))" using calls fresh by auto
      show "\<forall>t \<in> fst ` set (pending ?e'). t < issued ?e'" "issued ?e \<le> issued ?e'"
        using calls by (auto simp: less_Suc_eq dest!: I(4) [OF imageI])
      show "map_of (pending ?e') j = map_of (pending ?e) j" if "(j, r) \<in> set (sh_replies ?s')" for j r
      proof -
        have "j \<noteq> t" and "(j, r) \<in> set (sh_replies s)" using that reply by auto
        moreover from this have "j < issued ?e" using I(5) [of j] by force
        ultimately show ?thesis using calls by (auto simp: map_of_append_other map_of_filter_other simp del: map_of_append)
      qed
      show "known T (sh_docs ?s') (sh_seen ?s') k r" if "handle ?e' = Some k" "guard ?e' = Some r" for k r
        using settles_guard [OF call I(2) that]
      proof
        assume "handle ?e = Some k \<and> guard ?e = Some r"
        then show ?thesis using I(6) mono by blast
      next
        assume "\<exists>w. reply = Got w \<and> ct_rev T w = r \<and> ((\<exists>d g. c = WriteCall k d g)
          \<or> (\<exists>q. c = LoadCall q k \<and> (k, ct_doc T w) \<in> set (shown ?e')))"
        then obtain w where w: "reply = Got w" "ct_rev T w = r"
          "(\<exists>d g. c = WriteCall k d g) \<or> (\<exists>q. c = LoadCall q k \<and> (k, ct_doc T w) \<in> set (shown ?e'))" by blast
        have "reply_fits T (sh_docs s) (sh_seen s) (Some c) reply"
          using I(8) [OF map_of_SomeD [OF reply]] call by simp
        then show ?thesis using w mono [of k r] by (auto simp: known_def reply)
      qed
      show "j = 0 \<or> known T (sh_docs ?s') (sh_seen ?s') k j"
        if "(u, WriteCall k d (Some j)) \<in> set (pending ?e')" for u k d j
      proof -
        have "(u, WriteCall k d (Some j)) \<in> set (pending ?e)" using that calls by auto
        from I(7) [OF this] mono show ?thesis by blast
      qed
    qed (auto simp: reply)
  qed
qed

text \<open>What the core does changes its rows, the replies and the records; the editor stands still.\<close>

lemma inv_core_grows:
  assumes inv: "shared_inv s"
    and same: "sh_editor s' = sh_editor s" and rows: "rows_ok T (sh_docs s')"
    and docs: "\<And>k. versions (sh_docs s) k \<subseteq> versions (sh_docs s') k"
    and seen: "set (sh_seen s) \<subseteq> set (sh_seen s')"
    and over: "set (sh_overwritten s') \<subseteq> set (sh_seen s')"
    and replies: "\<And>t reply. (t, reply) \<in> set (sh_replies s') \<Longrightarrow> (t, reply) \<in> set (sh_replies s)
       \<or> t < issued (sh_editor s)
         \<and> reply_fits T (sh_docs s') (sh_seen s') (map_of (pending (sh_editor s)) t) reply"
  shows "shared_inv s'"
proof -
  let ?e = "sh_editor s"
  note I = shared_invD [OF inv] and up = known_mono [OF _ docs seen] reply_fits_mono [OF _ docs seen]
  have "\<forall>t \<in> fst ` set (sh_replies s'). t < issued ?e" using I(5) replies by fastforce
  moreover have "\<forall>t \<in> fst ` set (pending ?e). t < issued ?e" using I(4) by blast
  moreover have "\<forall>k r. handle ?e = Some k \<longrightarrow> guard ?e = Some r \<longrightarrow> known T (sh_docs s') (sh_seen s') k r"
    using I(6) up(1) by blast
  moreover have "\<forall>t k d r. (t, WriteCall k d (Some r)) \<in> set (pending ?e) \<longrightarrow>
      r = 0 \<or> known T (sh_docs s') (sh_seen s') k r" using I(7) up(1) by blast
  moreover have "\<forall>(t, reply) \<in> set (sh_replies s').
      reply_fits T (sh_docs s') (sh_seen s') (map_of (pending ?e) t) reply" using I(8) replies up(2) by blast
  ultimately show ?thesis
    unfolding shared_inv_def Let_def same using I(2,3) rows over by blast
qed

lemma inv_core_runs:
  assumes inv: "shared_inv s"
  shows "shared_inv (step s (CoreRuns t))"
proof (cases "map_of (pending (sh_editor s)) t = None \<or> t \<in> fst ` set (sh_replies s)")
  case True
  then show ?thesis using inv by (auto split: option.splits)
next
  case False
  then obtain c where c: "map_of (pending (sh_editor s)) t = Some c" and new: "t \<notin> fst ` set (sh_replies s)" by auto
  obtain reply docs where run: "core_call T c (sh_docs s) = (reply, docs)" by (cases "core_call T c (sh_docs s)")
  obtain stored replaced where w: "written_rows T c reply (sh_docs s) = (stored, replaced)"
    by (cases "written_rows T c reply (sh_docs s)")
  note I = shared_invD [OF inv]
  let ?s' = "step s (CoreRuns t)"
  have s': "?s' = s\<lparr>sh_docs := docs, sh_replies := sh_replies s @ [(t, reply)],
      sh_seen := sh_seen s @ stored, sh_overwritten := sh_overwritten s @ replaced\<rparr>"
    using c new by (simp add: run w)
  have rows: "rows_ok T docs" using core_call_rows [OF I(1), of c] run by simp
  have grow: "versions (sh_docs s) k \<subseteq> versions docs k" for k using core_call_versions [of "sh_docs s" k c] run by simp
  have lt: "t < issued (sh_editor s)" using I(4) [of t] map_of_SomeD [OF c] by force
  have fits: "reply_fits T docs (sh_seen s @ stored) (Some c) reply"
  proof (cases c)
    case (WriteCall k d g)
    then show ?thesis using run w versions_written [of k d g "sh_docs s"]
      by (cases reply) (auto simp: known_def)
  next
    case (LoadCall q k)
    then show ?thesis using run versions_read [OF I(1), of k] by (cases reply) auto
  qed auto
  have over: "set replaced \<subseteq> set (sh_seen s)"
  proof -
    { fix k d g vs w0
      assume c': "c = WriteCall k d g" and vs: "map_get (sh_docs s) k = Some vs" and got: "reply = Got w0"
      from run c' vs got have g: "g = Some (ct_rev T (last vs))"
        by (auto simp: core_write_def split: option.splits if_splits)
      have last: "last vs \<in> set vs" using rows_get [OF I(1) vs] by simp
      then have "ct_rev T (last vs) \<noteq> 0" using rev_positive [OF I(1) vs] by fastforce
      then have "known T (sh_docs s) (sh_seen s) k (ct_rev T (last vs))"
        using I(7) [of t k d "ct_rev T (last vs)"] map_of_SomeD [OF c] c' g by auto
      then have "(k, ct_doc T (last vs)) \<in> set (sh_seen s)"
        using rev_unique [OF I(1) vs] vs by (auto simp: known_def versions_def) }
    then show ?thesis using w by (cases c; cases reply) (auto split: option.splits)
  qed
  show ?thesis
    unfolding s' by (rule inv_core_grows [OF inv]) (use rows grow lt fits over c I(9) in \<open>auto\<close>)
qed

lemma inv_core_refuses: "shared_inv s \<Longrightarrow> shared_inv (step s (CoreRefuses t reason))"
  by (rule inv_core_grows, assumption) (auto dest: shared_invD(1,9) shared_invD(4) [OF _ imageI] split: if_splits)

lemma inv_other: "shared_inv s \<Longrightarrow> shared_inv (step s (ByOther k d))"
  by (rule inv_core_grows, assumption)
    (auto simp: other_writes_def dest: shared_invD(1,9) rows_ok_write versions_write [THEN subsetD])

lemma inv_step:
  assumes "shared_inv s" and "\<And>u. op = ByUser u \<Longrightarrow> adm u (sh_editor s) (sh_docs s)"
  shows "shared_inv (step s op)"
  using assms inv_user inv_delivered inv_core_runs inv_core_refuses inv_other by (cases op) blast+

lemma inv_admitted:
  assumes "shared_inv s" and "admitted adm step s ops"
  shows "shared_inv (foldl step s ops)"
  using assms
proof (induction ops arbitrary: s)
  case (Cons op ops)
  then have "shared_inv (step s op)" by (intro inv_step) auto
  with Cons show ?case by simp
qed simp

text \<open>
  No lost update: what an accepted write of the editor replaced had been mounted in the editor,
  or was a row an earlier write of the editor itself had stored.
\<close>

lemma overwrites_only_seen:
  assumes "rows_ok T docs" and "pending e = []" and "guard e = None"
    and "admitted adm step (shared_init e docs) ops"
  shows "set (sh_overwritten (foldl step (shared_init e docs) ops)) \<subseteq> set (sh_seen (foldl step (shared_init e docs) ops))"
proof -
  have "shared_inv (shared_init e docs)"
    using assms(1-3) by (simp add: shared_inv_def shared_init_def calls_current_def Let_def)
  from shared_invD(9) [OF inv_admitted [OF this assms(4)]] show ?thesis .
qed

end

end
