(* ===== verification/EditorRuns.thy ===== *)
theory EditorRuns
  imports GuardedEditor
begin

section \<open>Scratchpads, diagrams, templates and todos against other writers\<close>

text \<open>
  The four editors of \<open>DocEditor\<close> keep the contract of \<open>GuardedEditor\<close>, so none of them loses
  another writer's update while a document is opened only with no write of another one in flight.
  Without that discipline they do, and the last part shows how.
\<close>

subsection \<open>The editors keep the contract\<close>

text \<open>
  Opening a document while a write of another is in flight is what the contract excludes: the
  admissible operations open a document only when no write of another document is pending.
\<close>

definition no_other_write :: "(nat \<times> ('k, 'd) DocCall) list \<Rightarrow> 'k \<Rightarrow> bool" where
  "no_other_write calls k \<longleftrightarrow> list_all (\<lambda>(t, c). case c of WriteCall j _ _ \<Rightarrow> j = k | _ \<Rightarrow> True) calls"

definition pad_shown :: "(jstring, jstring) DocEditor \<Rightarrow> (jstring \<times> jstring) list" where
  "pad_shown e = (case (de_handle e, de_initial e) of (Some name, Some body) \<Rightarrow> [(name, body)] | _ \<Rightarrow> [])"

fun pad_adm :: "PadOp \<Rightarrow> (jstring, jstring) DocEditor \<Rightarrow> (jstring, 'w) rows \<Rightarrow> bool" where
  "pad_adm (PadOpen name) e docs = no_other_write (de_pending e) name"
| "pad_adm _ e docs = True"

definition scratchpad_table :: "(jstring, jstring, ScratchpadView) CoreTable" where
  "scratchpad_table = \<lparr>ct_doc = sv_body, ct_rev = sv_revision,
     ct_set = (\<lambda>body w. w\<lparr>sv_body := body, sv_revision := sv_revision w + 1\<rparr>),
     ct_new = (\<lambda>name body. \<lparr>sv_id = 0, sv_name = name, sv_tags = [], sv_archived = False,
       sv_revision = 1, sv_body = body, sv_rendered = body\<rparr>)\<rparr>"

definition diagram_table :: "(jstring, jstring, DiagramView) CoreTable" where
  "diagram_table = \<lparr>ct_doc = dv_source, ct_rev = dv_revision,
     ct_set = (\<lambda>source w. w\<lparr>dv_source := source, dv_revision := dv_revision w + 1\<rparr>),
     ct_new = (\<lambda>name source. \<lparr>dv_id = 0, dv_name = name, dv_tags = [], dv_archived = False,
       dv_revision = 1, dv_source = source\<rparr>)\<rparr>"

interpretation scratchpad_rows: core_table scratchpad_table
  by unfold_locales (simp_all add: scratchpad_table_def)

interpretation diagram_rows: core_table diagram_table
  by unfold_locales (simp_all add: diagram_table_def)

lemma calls_current_append [simp]:
  "calls_current (xs @ ys) q h \<longleftrightarrow> calls_current xs q h \<and> calls_current ys q h"
  by (auto simp: calls_current_def)

lemma calls_current_simps [simp]:
  "calls_current [] q h"
  "calls_current [(t, LoadCall n k)] q h \<longleftrightarrow> n \<le> q \<and> (n = q \<longrightarrow> h = None \<or> h = Some k)"
  "calls_current [(t, WriteCall k d g)] q h \<longleftrightarrow> h = None \<or> h = Some k"
  "calls_current [(t, RereadCall i k reason)] q h" "calls_current [(t, CreateCall d)] q h"
  "\<not> calls_current [(t, RenameCall k name)] q h"
  by (auto simp: calls_current_def)

lemma calls_current_filter: "calls_current xs q h \<Longrightarrow> calls_current (filter P xs) q h"
  by (auto simp: calls_current_def)

lemma calls_current_newer: "calls_current xs q h \<Longrightarrow> calls_current xs (Suc q) h"
  by (fastforce simp: calls_current_def split: DocCall.splits)

lemma calls_current_closed: "calls_current xs q h \<Longrightarrow> calls_current xs (Suc q) None"
  by (fastforce simp: calls_current_def split: DocCall.splits)

lemma calls_current_opened:
  "calls_current xs q h \<Longrightarrow> no_other_write xs k \<Longrightarrow> calls_current xs (Suc q) (Some k)"
  by (fastforce simp: calls_current_def no_other_write_def list_all_iff split: DocCall.splits)

lemma calls_current_shut: "calls_current xs q h \<Longrightarrow> calls_current xs q None"
  by (fastforce simp: calls_current_def split: DocCall.splits)

lemmas calls_current_intros = calls_current_filter calls_current_newer calls_current_closed calls_current_opened

text \<open>The laws for a pad, whatever the table, as long as it reads and numbers its rows alike.\<close>

lemma pad_user_calls:
  "(de_pending (pad_user u e) = de_pending e \<and> de_issued e \<le> de_issued (pad_user u e))
   \<or> (\<exists>c. de_pending (pad_user u e) = de_pending e @ [(de_issued e, c)] \<and> de_issued (pad_user u e) = de_issued e + 1
       \<and> (\<forall>k d g. c = WriteCall k d g \<longrightarrow> de_handle e = Some k \<and> (g = de_baseRevisionRef e \<or> g = Some 0)))"
  by (cases u) (auto simp: doc_defs split: option.splits)

lemma pad_user_current:
  "pad_adm u e docs \<Longrightarrow> calls_current (de_pending e) (de_loadRequestRef e) (de_handle e) \<Longrightarrow>
   calls_current (de_pending (pad_user u e)) (de_loadRequestRef (pad_user u e)) (de_handle (pad_user u e))"
  by (cases u) (auto simp: doc_defs split: option.splits intro: calls_current_intros)

lemma pad_user_guard:
  "de_handle (pad_user u e) = Some k \<Longrightarrow> de_baseRevisionRef (pad_user u e) = Some r \<Longrightarrow>
   de_handle e = Some k \<and> de_baseRevisionRef e = Some r"
  by (cases u) (auto simp: doc_defs split: option.splits)

lemma pad_settles_calls:
  "map_of (de_pending e) t = Some c \<Longrightarrow>
   (de_pending (pad_settles body revision t reply e) = filter (\<lambda>p. fst p \<noteq> t) (de_pending e)
      \<and> de_issued (pad_settles body revision t reply e) = de_issued e)
   \<or> (\<exists>k reason. de_pending (pad_settles body revision t reply e) =
          filter (\<lambda>p. fst p \<noteq> t) (de_pending e) @ [(de_issued e, RereadCall t k reason)]
        \<and> de_issued (pad_settles body revision t reply e) = de_issued e + 1)"
  by (cases c; cases reply) (auto simp: pad_settles_def doc_defs split: option.splits)

lemma calls_current_member:
  "calls_current xs q h \<Longrightarrow> map_of xs t = Some c \<Longrightarrow> calls_current [(t, c)] q h"
  by (auto simp: calls_current_def dest!: map_of_SomeD)

lemma pad_settles_current:
  assumes "calls_current (de_pending e) (de_loadRequestRef e) (de_handle e)"
  shows "calls_current (de_pending (pad_settles body revision t reply e))
     (de_loadRequestRef (pad_settles body revision t reply e)) (de_handle (pad_settles body revision t reply e))"
proof (cases "map_of (de_pending e) t")
  case (Some c)
  with calls_current_member [OF assms Some] assms show ?thesis
    by (cases c; cases reply)
      (auto simp: pad_settles_def doc_defs calls_current_filter split: option.splits)
qed (simp add: pad_settles_def assms)

lemma pad_settles_guard:
  assumes "map_of (de_pending e) t = Some c"
    and "calls_current (de_pending e) (de_loadRequestRef e) (de_handle e)"
    and "de_handle (pad_settles body revision t reply e) = Some k"
    and "de_baseRevisionRef (pad_settles body revision t reply e) = Some r"
  shows "(de_handle e = Some k \<and> de_baseRevisionRef e = Some r)
     \<or> (\<exists>w. reply = Got w \<and> revision w = r
         \<and> ((\<exists>d g. c = WriteCall k d g)
            \<or> (\<exists>q. c = LoadCall q k \<and> (k, body w) \<in> set (pad_shown (pad_settles body revision t reply e)))))"
  using calls_current_member [OF assms(2,1)] assms(1,3,4)
  by (cases c; cases reply)
    (auto simp: pad_settles_def doc_defs pad_shown_def split: option.splits if_splits)

lemma pad_settles_stale: "t \<notin> fst ` set (de_pending e) \<Longrightarrow> pad_settles body revision t reply e = e"
  by (simp add: pad_settles_def map_of_eq_None_iff [symmetric])

lemma pad_guarded:
  assumes "core_table T" and T: "ct_doc T = body" "ct_rev T = revision"
  shows "guarded_editor T de_handle de_baseRevisionRef de_loadRequestRef de_issued de_pending pad_shown
    pad_user (pad_settles body revision) pad_adm"
  unfolding T [symmetric]
  by (intro guarded_editor.intro guarded_editor_axioms.intro assms(1))
    (rule pad_user_calls, erule (1) pad_user_current, rule disjI1, erule (1) pad_user_guard,
      erule pad_settles_stale, erule pad_settles_calls, erule pad_settles_current, erule (3) pad_settles_guard)

interpretation scratchpads: guarded_editor scratchpad_table de_handle de_baseRevisionRef de_loadRequestRef
    de_issued de_pending pad_shown pad_user scratchpad_settles pad_adm
  unfolding scratchpad_settles_def
  by (rule pad_guarded) (unfold_locales, simp_all add: scratchpad_table_def)

interpretation diagrams: guarded_editor diagram_table de_handle de_baseRevisionRef de_loadRequestRef
    de_issued de_pending pad_shown pad_user diagram_settles pad_adm
  unfolding diagram_settles_def
  by (rule pad_guarded) (unfold_locales, simp_all add: diagram_table_def)

text \<open>
  Templates: the core clears a blank description and derives the placeholders by its own scan,
  which is a parameter.
\<close>

fun template_shown :: "TemplateEditor \<Rightarrow> (template_handle \<times> template_doc) list" where
  "template_shown e = (case (de_handle e, de_initial e) of
     (Some target, Some body) \<Rightarrow> [(target, (te_initialDescription e, body))] | _ \<Rightarrow> [])"

fun template_adm :: "TemplateOp \<Rightarrow> TemplateEditor \<Rightarrow> (template_handle, 'w) rows \<Rightarrow> bool" where
  "template_adm (TemplateOpen target) e docs = no_other_write (de_pending e) target"
| "template_adm _ e docs = True"

definition template_table :: "(jstring \<Rightarrow> jstring list) \<Rightarrow> (template_handle, template_doc, TemplateView) CoreTable" where
  "template_table scan = \<lparr>
     ct_doc = (\<lambda>w. (case tv_description w of None \<Rightarrow> [] | Some d \<Rightarrow> d, tv_body w)),
     ct_rev = tv_revision,
     ct_set = (\<lambda>(d, body) w. w\<lparr>tv_description := (if js_trim d = [] then None else Some d), tv_body := body,
       tv_placeholders := scan body, tv_revision := tv_revision w + 1\<rparr>),
     ct_new = (\<lambda>(kind, scope, name) (d, body). \<lparr>tv_id = 0, tv_kind = kind, tv_name = name,
       tv_description = (if js_trim d = [] then None else Some d), tv_body = body,
       tv_placeholders = scan body, tv_scope = scope, tv_revision = 1\<rparr>)\<rparr>"

lemma template_user_calls:
  "(de_pending (template_user u e) = de_pending e \<and> de_issued e \<le> de_issued (template_user u e))
   \<or> (\<exists>c. de_pending (template_user u e) = de_pending e @ [(de_issued e, c)]
       \<and> de_issued (template_user u e) = de_issued e + 1
       \<and> (\<forall>k d g. c = WriteCall k d g \<longrightarrow> de_handle e = Some k \<and> (g = de_baseRevisionRef e \<or> g = Some 0)))"
  by (cases u) (auto simp: template_editor_defs split: option.splits)

lemma template_user_current:
  "template_adm u e docs \<Longrightarrow> calls_current (de_pending e) (de_loadRequestRef e) (de_handle e) \<Longrightarrow>
   calls_current (de_pending (template_user u e)) (de_loadRequestRef (template_user u e)) (de_handle (template_user u e))"
  by (cases u) (auto simp: template_editor_defs split: option.splits intro: calls_current_intros)

lemma template_user_guard:
  "de_handle (template_user u e) = Some k \<Longrightarrow> de_baseRevisionRef (template_user u e) = Some r \<Longrightarrow>
   de_handle e = Some k \<and> de_baseRevisionRef e = Some r"
  by (cases u) (auto simp: template_editor_defs split: option.splits if_splits)

lemma template_settles_stale: "t \<notin> fst ` set (de_pending e) \<Longrightarrow> template_settles t reply e = e"
  by (simp add: template_settles_def map_of_eq_None_iff [symmetric])

lemma template_settles_calls:
  "map_of (de_pending e) t = Some c \<Longrightarrow>
   (de_pending (template_settles t reply e) = filter (\<lambda>p. fst p \<noteq> t) (de_pending e)
      \<and> de_issued (template_settles t reply e) = de_issued e)
   \<or> (\<exists>k reason. de_pending (template_settles t reply e) =
          filter (\<lambda>p. fst p \<noteq> t) (de_pending e) @ [(de_issued e, RereadCall t k reason)]
        \<and> de_issued (template_settles t reply e) = de_issued e + 1)"
  by (cases c; cases reply) (auto simp: template_settles_def template_editor_defs split: option.splits)

lemma template_settles_current:
  assumes "calls_current (de_pending e) (de_loadRequestRef e) (de_handle e)"
  shows "calls_current (de_pending (template_settles t reply e))
     (de_loadRequestRef (template_settles t reply e)) (de_handle (template_settles t reply e))"
proof (cases "map_of (de_pending e) t")
  case (Some c)
  with assms show ?thesis
    by (cases c; cases reply)
      (auto simp: template_settles_def template_editor_defs calls_current_filter split: option.splits)
qed (simp add: template_settles_def assms)

lemma template_settles_guard:
  assumes "map_of (de_pending e) t = Some c"
    and "calls_current (de_pending e) (de_loadRequestRef e) (de_handle e)"
    and "de_handle (template_settles t reply e) = Some k"
    and "de_baseRevisionRef (template_settles t reply e) = Some r"
  shows "(de_handle e = Some k \<and> de_baseRevisionRef e = Some r)
     \<or> (\<exists>w. reply = Got w \<and> ct_rev (template_table scan) w = r
         \<and> ((\<exists>d g. c = WriteCall k d g)
            \<or> (\<exists>q. c = LoadCall q k
                \<and> (k, ct_doc (template_table scan) w) \<in> set (template_shown (template_settles t reply e)))))"
  using calls_current_member [OF assms(2,1)] assms(1,3,4)
  by (cases c; cases reply)
    (auto simp: template_settles_def template_editor_defs template_table_def split: option.splits if_splits)

interpretation templates: guarded_editor "template_table scan" de_handle de_baseRevisionRef de_loadRequestRef
    de_issued de_pending template_shown template_user template_settles template_adm
  by unfold_locales
    (simp add: template_table_def split: prod.splits, simp add: template_table_def split: prod.splits,
      rule template_user_calls, erule (1) template_user_current, rule disjI1, erule (1) template_user_guard,
      erule template_settles_stale, erule template_settles_calls, erule template_settles_current,
      erule (3) template_settles_guard)

text \<open>Todos: an edit is seeded from a row the core had announced, never from anything else.\<close>

definition todo_shown :: "TodoEditor \<Rightarrow> (int \<times> todo_doc) list" where
  "todo_shown e = (case (tde_editingIdRef e, tde_initial e) of
     (Some i, Some doc) \<Rightarrow> [(i, (doc, tde_scratchpad e))] | _ \<Rightarrow> [])"

definition todo_row_known :: "(int, TodoView) rows \<Rightarrow> TodoView \<Rightarrow> bool" where
  "todo_row_known docs todo = (case map_get docs (to_id todo) of None \<Rightarrow> False | Some vs \<Rightarrow> todo \<in> set vs)"

fun todo_adm :: "TodoOp \<Rightarrow> TodoEditor \<Rightarrow> (int, TodoView) rows \<Rightarrow> bool" where
  "todo_adm (TodoEdit todo) e docs = (no_other_write (tde_pending e) (to_id todo) \<and> todo_row_known docs todo)"
| "todo_adm (TodoReload todo) e docs = (no_other_write (tde_pending e) (to_id todo) \<and> todo_row_known docs todo)"
| "todo_adm _ e docs = True"

definition todo_table :: "(int \<Rightarrow> jstring) \<Rightarrow> (int, todo_doc, TodoView) CoreTable" where
  "todo_table pad_name = \<lparr>
     ct_doc = (\<lambda>w. (to_doc w, map_option sr_id (to_scratchpad w))), ct_rev = to_revision,
     ct_set = (\<lambda>(doc, link) w. w\<lparr>to_doc := doc, to_revision := to_revision w + 1,
       to_scratchpad := map_option (\<lambda>i. \<lparr>sr_id = i, sr_name = pad_name i\<rparr>) link\<rparr>),
     ct_new = (\<lambda>i (doc, link). \<lparr>to_id = i, to_doc = doc, to_tags = [], to_blockers = [], to_blocked_by = [],
       to_blocked = False, to_comments = [], to_locked_by = None,
       to_scratchpad = map_option (\<lambda>i. \<lparr>sr_id = i, sr_name = pad_name i\<rparr>) link, to_revision = 1\<rparr>)\<rparr>"

interpretation todo_rows: core_table "todo_table pad_name"
  by unfold_locales (simp_all add: todo_table_def split: prod.splits)

lemma todo_user_calls:
  "(tde_pending (todo_user u e) = tde_pending e \<and> tde_issued e \<le> tde_issued (todo_user u e))
   \<or> (\<exists>c. tde_pending (todo_user u e) = tde_pending e @ [(tde_issued e, c)]
       \<and> tde_issued (todo_user u e) = tde_issued e + 1
       \<and> (\<forall>k d g. c = WriteCall k d g \<longrightarrow>
            tde_editingIdRef e = Some k \<and> (g = tde_baseRevisionRef e \<or> g = Some 0)))"
  by (cases u) (auto simp: todo_editor_defs split: option.splits)

lemma todo_user_current:
  "todo_adm u e docs \<Longrightarrow> calls_current (tde_pending e) (tde_mountKey e) (tde_editingIdRef e) \<Longrightarrow>
   calls_current (tde_pending (todo_user u e)) (tde_mountKey (todo_user u e)) (tde_editingIdRef (todo_user u e))"
  by (cases u) (auto simp: todo_editor_defs split: option.splits intro: calls_current_intros calls_current_shut)

lemma todo_user_guard:
  assumes "todo_adm u e docs" and "tde_editingIdRef (todo_user u e) = Some k"
    and "tde_baseRevisionRef (todo_user u e) = Some r"
  shows "(tde_editingIdRef e = Some k \<and> tde_baseRevisionRef e = Some r)
     \<or> (\<exists>w \<in> versions docs k. ct_rev (todo_table pad_name) w = r
         \<and> (k, ct_doc (todo_table pad_name) w) \<in> set (todo_shown (todo_user u e)))"
  using assms
  by (cases u) (auto simp: todo_editor_defs todo_row_known_def versions_def todo_table_def todo_shown_def
      split: option.splits)

lemma todo_settles_stale: "t \<notin> fst ` set (tde_pending e) \<Longrightarrow> todo_settles t reply e = e"
  by (simp add: todo_settles_def map_of_eq_None_iff [symmetric])

lemma todo_settles_calls:
  "map_of (tde_pending e) t = Some c \<Longrightarrow>
   (tde_pending (todo_settles t reply e) = filter (\<lambda>p. fst p \<noteq> t) (tde_pending e)
      \<and> tde_issued (todo_settles t reply e) = tde_issued e)
   \<or> (\<exists>k reason. tde_pending (todo_settles t reply e) =
          filter (\<lambda>p. fst p \<noteq> t) (tde_pending e) @ [(tde_issued e, RereadCall t k reason)]
        \<and> tde_issued (todo_settles t reply e) = tde_issued e + 1)"
  by (cases c; cases reply) (auto simp: todo_settles_def todo_editor_defs)

lemma todo_settles_current:
  assumes "calls_current (tde_pending e) (tde_mountKey e) (tde_editingIdRef e)"
  shows "calls_current (tde_pending (todo_settles t reply e))
     (tde_mountKey (todo_settles t reply e)) (tde_editingIdRef (todo_settles t reply e))"
proof (cases "map_of (tde_pending e) t")
  case (Some c)
  with assms show ?thesis
    by (cases c; cases reply)
      (auto simp: todo_settles_def todo_editor_defs calls_current_filter calls_current_shut)
qed (simp add: todo_settles_def assms)

lemma todo_settles_guard:
  assumes "map_of (tde_pending e) t = Some c"
    and "calls_current (tde_pending e) (tde_mountKey e) (tde_editingIdRef e)"
    and "tde_editingIdRef (todo_settles t reply e) = Some k"
    and "tde_baseRevisionRef (todo_settles t reply e) = Some r"
  shows "(tde_editingIdRef e = Some k \<and> tde_baseRevisionRef e = Some r)
     \<or> (\<exists>w. reply = Got w \<and> ct_rev (todo_table pad_name) w = r
         \<and> ((\<exists>d g. c = WriteCall k d g)
            \<or> (\<exists>q. c = LoadCall q k
                \<and> (k, ct_doc (todo_table pad_name) w) \<in> set (todo_shown (todo_settles t reply e)))))"
  using calls_current_member [OF assms(2,1)] assms(1,3,4)
  by (cases c; cases reply) (auto simp: todo_settles_def todo_editor_defs todo_table_def)

interpretation todos: guarded_editor "todo_table pad_name" tde_editingIdRef tde_baseRevisionRef tde_mountKey
    tde_issued tde_pending todo_shown todo_user todo_settles todo_adm
  by unfold_locales
    (rule todo_user_calls, erule (1) todo_user_current, erule (2) todo_user_guard,
      erule todo_settles_stale, erule todo_settles_calls, erule todo_settles_current,
      erule (3) todo_settles_guard)

subsection \<open>No lost updates\<close>

definition scratchpad_step where
  "scratchpad_step = shared_step scratchpad_table de_pending pad_shown pad_user scratchpad_settles"

definition template_step where
  "template_step scan = shared_step (template_table scan) de_pending template_shown template_user template_settles"

definition todo_step where
  "todo_step pad_name = shared_step (todo_table pad_name) tde_pending todo_shown todo_user todo_settles"

lemmas editor_inits = doc_init_def useScratchpadEditor_def useTemplateEditor_def useTodoEditor_def


text \<open>
  C18. No todo write loses another writer's document, under the same discipline, when an edit is
  seeded from a row the core had announced.
\<close>

theorem todo_no_lost_update:
  assumes "rows_ok (todo_table pad_name) docs"
    and "admitted todo_adm (todo_step pad_name) (shared_init useTodoEditor docs) ops"
  shows "set (sh_overwritten (foldl (todo_step pad_name) (shared_init useTodoEditor docs) ops))
    \<subseteq> set (sh_seen (foldl (todo_step pad_name) (shared_init useTodoEditor docs) ops))"
  using todos.overwrites_only_seen [OF assms(1), of useTodoEditor ops] assms(2)
  by (simp add: todo_step_def editor_inits)

lemma template_no_lost_update:
  assumes "rows_ok (template_table scan) docs"
    and "admitted template_adm (template_step scan) (shared_init useTemplateEditor docs) ops"
  shows "set (sh_overwritten (foldl (template_step scan) (shared_init useTemplateEditor docs) ops))
    \<subseteq> set (sh_seen (foldl (template_step scan) (shared_init useTemplateEditor docs) ops))"
  using templates.overwrites_only_seen [OF assms(1), of useTemplateEditor ops] assms(2)
  by (simp add: template_step_def editor_inits)

text \<open>A pad and a todo with one version each, for the runs below.\<close>

definition pad_row :: "string \<Rightarrow> string \<Rightarrow> jstring \<times> ScratchpadView list" where
  "pad_row name body = (lit name, [ct_new scratchpad_table (lit name) (lit body)])"

definition todo_row :: "int \<Rightarrow> string \<Rightarrow> int \<times> TodoView list" where
  "todo_row i title = (i, [ct_new (todo_table (\<lambda>_. [])) i (DRAFT\<lparr>td_title := lit title\<rparr>, None)])"

lemmas editor_eval = scratchpad_step_def todo_step_def shared_init_def pad_row_def todo_row_def
  scratchpad_table_def todo_table_def pad_settles_def scratchpad_settles_def todo_settles_def doc_defs
  todo_editor_defs editor_inits pad_shown_def todo_shown_def core_write_def core_read_def
  other_writes_def DRAFT_def no_other_write_def todo_row_known_def rows_ok_def map_wf_def


theorem todo_no_lost_update_witness:
  "let docs = [todo_row 1 ''one'', todo_row 2 ''two'']; todo = ct_new (todo_table (\<lambda>_. [])) 1 (DRAFT\<lparr>td_title := lit ''one''\<rparr>, None);
       s = foldl (todo_step (\<lambda>_. [])) (shared_init useTodoEditor docs)
         [ByUser (TodoEdit todo), ByUser (TodoSave (DRAFT\<lparr>td_title := lit ''1st''\<rparr>) None), CoreRuns 0,
          ByOther 1 (DRAFT, None), Delivered 0, ByUser (TodoSave DRAFT None), CoreRuns 1]
   in set (sh_overwritten s) \<subseteq> set (sh_seen s)"
  unfolding Let_def
  by (rule todo_no_lost_update) (simp_all add: editor_eval)

subsection \<open>What the discipline rules out\<close>

text \<open>
  A todo's save that lands after another todo was opened hands that other todo its revision: the
  guard no longer belongs to the todo on screen. A concurrent edit of the second todo that
  happens to carry the same revision is then overwritten, although it was never shown.
\<close>

theorem todo_guard_crosses_documents:
  "let docs = [todo_row 1 ''one'', todo_row 2 ''two''];
       one = last (snd (docs ! 0)); two = last (snd (docs ! 1));
       theirs = DRAFT\<lparr>td_title := lit ''theirs''\<rparr>;
       s = foldl (todo_step (\<lambda>_. [])) (shared_init useTodoEditor docs)
         [ByUser (TodoEdit one), ByUser (TodoSave DRAFT None), CoreRuns 0, ByUser (TodoEdit two), Delivered 0,
          ByOther 2 (theirs, None), ByUser (TodoSave DRAFT None), CoreRuns 1]
   in tde_editingId (sh_editor s) = Some 2 \<and> tde_baseRevision (sh_editor s) = Some 2 \<and> to_revision two = 1
      \<and> sh_overwritten s = [(1, to_doc one, None), (2, theirs, None)] \<and> (2, theirs, None) \<notin> set (sh_seen s)"
  by code_simp

text \<open>
  A rename that lands after another scratchpad was opened renames the editor, not the document:
  the editor shows the second scratchpad under the first one's new name, and the next save sends
  the second one's text to the first.
\<close>

theorem late_rename_redirects_saves:
  "let s = doc_open (lit ''a'') useScratchpadEditor;
       s = pad_settles fst snd 0 (Got (lit ''A'', 1)) s;
       s = doc_open (lit ''b'') (doc_rename (lit ''c'') s);
       s = pad_settles fst snd 2 (Got (lit ''B'', 1)) s;
       s = pad_settles fst snd 1 (Named (lit ''c'')) s;
       s = doc_save (de_handle s) (lit ''B'' @ lit ''!'') s
   in de_initial s = Some (lit ''B'') \<and> de_pending s = [(3, WriteCall (lit ''c'') (lit ''B!'') (Some 1))]"
  by (simp add: editor_eval lit_def)

end
