(* ===== verification/EditorSession.thy ===== *)
theory EditorSession
  imports EditorRuns
begin

section \<open>Typing into a scratchpad, end to end\<close>

text \<open>
  \<open>components/orchestration/ScratchpadBody.tsx\<close> joins the autosave of \<open>Autosave\<close> to the editor of
  \<open>DocEditor\<close>: every save the autosave starts is a revision-guarded write of the editor, every
  outcome of such a write settles the autosave's promise, and an unresolved conflict pauses it.
  \<open>ss_tickets\<close> lists the editor's ticket of each save, in the order the autosave started them.
\<close>

record Session =
  ss_auto :: "jstring Autosave"
  ss_shared :: "((jstring, jstring) DocEditor, jstring, jstring, ScratchpadView) Shared"
  ss_tickets :: "nat list"

definition editor_of :: "Session \<Rightarrow> (jstring, jstring) DocEditor" where
  "editor_of s = sh_editor (ss_shared s)"

definition start_save :: "Session \<Rightarrow> jstring \<Rightarrow> Session" where
  "start_save s v = s\<lparr>ss_tickets := ss_tickets s @ [de_issued (editor_of s)],
     ss_shared := scratchpad_step (ss_shared s) (ByUser (PadSave v))\<rparr>"

text \<open>The autosave moves; the values it newly handed over are saved, in order.\<close>

definition autosave_moves :: "jstring AutosaveOp \<Rightarrow> Session \<Rightarrow> Session" where
  "autosave_moves op s =
     (let a = autosave_step (ss_auto s) op
      in foldl start_save (s\<lparr>ss_auto := a\<rparr>) (drop (length (av_sent (ss_auto s))) (av_sent a)))"

lemma autosave_moves_eq:
  "autosave_step (ss_auto s) op = a \<Longrightarrow>
   autosave_moves op s = foldl start_save (s\<lparr>ss_auto := a\<rparr>) (drop (length (av_sent (ss_auto s))) (av_sent a))"
  by (simp add: autosave_moves_def Let_def)

definition outcome_settles :: "Session \<Rightarrow> nat \<times> SaveOutcome \<Rightarrow> Session" where
  "outcome_settles s out =
     (case index_of (ss_tickets s) (fst out) of None \<Rightarrow> s
      | Some k \<Rightarrow> autosave_moves (AutoSettles k (snd out)) s)"

definition reply_delivered :: "nat \<Rightarrow> Session \<Rightarrow> Session" where
  "reply_delivered t s =
     (let shared = scratchpad_step (ss_shared s) (Delivered t);
          new = drop (length (de_outcomes (editor_of s))) (de_outcomes (sh_editor shared))
      in foldl outcome_settles (s\<lparr>ss_shared := shared,
           ss_auto := autosave_step (ss_auto s) (AutoPause (de_conflict (sh_editor shared) \<noteq> None))\<rparr>) new)"

datatype SessionOp =
    Typed jstring | Flushed | TimeoutFires nat | CoreAnswers nat | ReplyArrives nat

fun session_step :: "Session \<Rightarrow> SessionOp \<Rightarrow> Session" where
  "session_step s (Typed v) = autosave_moves (AutoPush v) s"
| "session_step s Flushed = autosave_moves AutoFlush s"
| "session_step s (TimeoutFires h) = autosave_moves (AutoTimer h) s"
| "session_step s (CoreAnswers t) = s\<lparr>ss_shared := scratchpad_step (ss_shared s) (CoreRuns t)\<rparr>"
| "session_step s (ReplyArrives t) = reply_delivered t s"

text \<open>The session begins when the document has been opened and its read delivered.\<close>

definition session_init :: "(jstring, ScratchpadView) rows \<Rightarrow> jstring \<Rightarrow> Session" where
  "session_init docs name = \<lparr>ss_auto = useAutosave False,
     ss_shared = foldl scratchpad_step (shared_init useScratchpadEditor docs)
       [ByUser (PadOpen name), CoreRuns 0, Delivered 0],
     ss_tickets = []\<rparr>"

fun typed :: "SessionOp list \<Rightarrow> jstring list" where
  "typed [] = []"
| "typed (Typed v # ops) = v # typed ops"
| "typed (_ # ops) = typed ops"

lemma typed_append: "typed (xs @ ys) = typed xs @ typed ys"
  by (induction xs rule: typed.induct) auto

subsection \<open>The steps of the autosave\<close>

lemma push_effect:
  "av_sent (push v a) = av_sent a \<and> av_calls (push v a) = av_calls a \<and> av_saved (push v a) = av_saved a
   \<and> av_paused (push v a) = av_paused a
   \<and> av_state (push v a) = (case av_state a of Saving w _ \<Rightarrow> Saving w (Some v) | _ \<Rightarrow> Dirty v)"
  by (auto simp: autosave_defs split: option.splits AutosaveState.splits)

lemma commit_effect:
  assumes "\<not> av_paused a"
  shows "(\<exists>p. av_state a = Dirty p \<and> av_state (commit a) = Saving p None \<and> av_sent (commit a) = av_sent a @ [p]
      \<and> av_saved (commit a) = av_saved a \<and> \<not> av_paused (commit a))
    \<or> (av_state (commit a) = av_state a \<and> (\<forall>p. av_state a \<noteq> Dirty p) \<and> av_sent (commit a) = av_sent a
       \<and> av_saved (commit a) = av_saved a \<and> \<not> av_paused (commit a))"
  using assms by (cases "av_state a") (auto simp: autosave_defs split: option.splits)

lemma user_effect:
  assumes "\<not> av_paused a" and "op = AutoFlush \<or> (\<exists>h. op = AutoTimer h)"
  shows "(\<exists>p. av_state a = Dirty p \<and> av_state (autosave_step a op) = Saving p None
      \<and> av_sent (autosave_step a op) = av_sent a @ [p]
      \<and> av_saved (autosave_step a op) = av_saved a \<and> \<not> av_paused (autosave_step a op))
    \<or> (av_state (autosave_step a op) = av_state a \<and> av_sent (autosave_step a op) = av_sent a
       \<and> av_saved (autosave_step a op) = av_saved a \<and> \<not> av_paused (autosave_step a op))"
  using assms(2)
proof
  assume "op = AutoFlush"
  then show ?thesis using commit_effect [OF assms(1)] by (auto simp: autosave_flush_def)
next
  assume "\<exists>h. op = AutoTimer h"
  then obtain h where op: "op = AutoTimer h" by blast
  let ?b = "a\<lparr>av_timers := filter (\<lambda>k. k \<noteq> h) (av_timers a)\<rparr>"
  show ?thesis using commit_effect [of ?b] assms(1) by (auto simp: op)
qed

lemma saved_effect:
  assumes "autosave_wf a" and "av_calls a = [(k, v)]" and "av_state a = Saving v q" and "\<not> av_paused a"
  shows "let b = autosave_step a (AutoSettles k Saved) in av_saved b = av_saved a @ [v] \<and> \<not> av_paused b
    \<and> (case q of None \<Rightarrow> av_state b = Clean \<and> av_sent b = av_sent a
       | Some w \<Rightarrow> av_state b = Saving w None \<and> av_sent b = av_sent a @ [w])"
  using assms by (auto simp: autosave_defs split: option.splits)

subsection \<open>The invariant of a session with no other writer\<close>

definition stored_body :: "jstring \<Rightarrow> jstring Autosave \<Rightarrow> jstring" where
  "stored_body b a = (if av_saved a = [] then b else last (av_saved a))"

definition write_state ::
  "jstring \<Rightarrow> jstring \<Rightarrow> jstring Autosave \<Rightarrow> nat list \<Rightarrow> ScratchpadView list \<Rightarrow>
   (jstring, jstring) DocEditor \<Rightarrow> (nat \<times> ScratchpadView DocReply) list \<Rightarrow> bool" where
  "write_state b name a tickets vs e replies = (case av_state a of
     Saving v _ \<Rightarrow> (\<exists>r. tickets \<noteq> [] \<and> de_pending e = [(last tickets, WriteCall name v (Some r))]
        \<and> (replies = [] \<and> r = sv_revision (last vs) \<and> sv_body (last vs) = stored_body b a
           \<or> replies = [(last tickets, Got (last vs))] \<and> sv_body (last vs) = v))
   | _ \<Rightarrow> de_pending e = [] \<and> replies = [] \<and> de_baseRevisionRef e = Some (sv_revision (last vs))
        \<and> sv_body (last vs) = stored_body b a)"

definition session_inv :: "jstring \<Rightarrow> jstring \<Rightarrow> Session \<Rightarrow> bool" where
  "session_inv b name s \<longleftrightarrow> (let a = ss_auto s; e = editor_of s; sh = ss_shared s in
     \<not> av_paused a \<and> autosave_wf a
     \<and> length (ss_tickets s) = length (av_sent a) \<and> distinct (ss_tickets s)
     \<and> (\<forall>t \<in> set (ss_tickets s). t < de_issued e)
     \<and> de_handle e = Some name \<and> de_conflict e = None \<and> de_error e = None
     \<and> (\<forall>out \<in> set (de_outcomes e). snd out = Saved)
     \<and> rows_ok scratchpad_table (sh_docs sh)
     \<and> (\<exists>vs. map_get (sh_docs sh) name = Some vs
          \<and> write_state b name a (ss_tickets s) vs e (sh_replies sh)))"

lemma start_save_effect:
  assumes "de_handle (editor_of s) = Some name"
  shows "editor_of (start_save s v) = (editor_of s)\<lparr>de_error := None, de_issued := de_issued (editor_of s) + 1,
      de_pending := de_pending (editor_of s) @ [(de_issued (editor_of s), WriteCall name v (de_baseRevisionRef (editor_of s)))]\<rparr>"
    and "sh_docs (ss_shared (start_save s v)) = sh_docs (ss_shared s)"
    and "sh_replies (ss_shared (start_save s v)) = sh_replies (ss_shared s)"
    and "ss_auto (start_save s v) = ss_auto s"
    and "ss_tickets (start_save s v) = ss_tickets s @ [de_issued (editor_of s)]"
  using assms by (simp_all add: start_save_def editor_of_def scratchpad_step_def doc_defs)

text \<open>The autosave goes from rest to a save, or moves without one.\<close>

lemma inv_starts_save:
  assumes inv: "session_inv b name s" and wf: "autosave_wf a'" and rest: "\<And>v q. av_state (ss_auto s) \<noteq> Saving v q"
    and a': "av_state a' = Saving v None" "av_sent a' = av_sent (ss_auto s) @ [v]"
      "av_saved a' = av_saved (ss_auto s)" "\<not> av_paused a'"
  shows "session_inv b name (start_save (s\<lparr>ss_auto := a'\<rparr>) v)"
proof -
  let ?s = "s\<lparr>ss_auto := a'\<rparr>"
  have e: "editor_of ?s = editor_of s" by (simp add: editor_of_def)
  have h: "de_handle (editor_of ?s) = Some name" using inv by (simp add: session_inv_def Let_def e)
  note E = start_save_effect [OF h, of v]
  show ?thesis
    using inv wf rest a'
    by (cases "av_state (ss_auto s)")
      (auto simp: session_inv_def Let_def E e write_state_def stored_body_def less_Suc_eq)
qed

lemma inv_autosave_idle:
  assumes inv: "session_inv b name s" and wf: "autosave_wf a'"
    and same: "av_sent a' = av_sent (ss_auto s)" "av_saved a' = av_saved (ss_auto s)" "\<not> av_paused a'"
    and st: "(\<exists>v q q'. av_state (ss_auto s) = Saving v q \<and> av_state a' = Saving v q')
      \<or> (\<forall>v q. av_state (ss_auto s) \<noteq> Saving v q) \<and> (\<forall>v q. av_state a' \<noteq> Saving v q)"
  shows "session_inv b name (s\<lparr>ss_auto := a'\<rparr>)"
  using inv wf same st
  by (cases "av_state (ss_auto s)"; cases "av_state a'")
    (auto simp: session_inv_def Let_def editor_of_def write_state_def stored_body_def)

lemma inv_autosave_user:
  assumes inv: "session_inv b name s" and op: "(\<exists>v. op = AutoPush v) \<or> op = AutoFlush \<or> (\<exists>h. op = AutoTimer h)"
  shows "session_inv b name (autosave_moves op s)"
proof -
  let ?a = "ss_auto s" and ?a' = "autosave_step (ss_auto s) op"
  have wf: "autosave_wf ?a" and live: "\<not> av_paused ?a" using inv by (simp_all add: session_inv_def Let_def)
  have wf': "autosave_wf ?a'" by (rule autosave_wf_step [OF wf])
  show ?thesis
  proof (cases "\<exists>v. op = AutoPush v")
    case True
    then obtain v where "op = AutoPush v" by blast
    then have "session_inv b name (s\<lparr>ss_auto := ?a'\<rparr>)" and "av_sent ?a' = av_sent ?a"
      using push_effect [of v ?a] live
      by (intro inv_autosave_idle [OF inv wf'], simp_all, cases "av_state ?a", simp_all)
    then show ?thesis by (simp add: autosave_moves_def Let_def)
  next
    case False
    with op have "op = AutoFlush \<or> (\<exists>h. op = AutoTimer h)" by blast
    from user_effect [OF live this] show ?thesis
    proof
      assume "\<exists>p. av_state ?a = Dirty p \<and> av_state ?a' = Saving p None \<and> av_sent ?a' = av_sent ?a @ [p]
        \<and> av_saved ?a' = av_saved ?a \<and> \<not> av_paused ?a'"
      then obtain p where p: "av_state ?a = Dirty p" "av_state ?a' = Saving p None" "av_sent ?a' = av_sent ?a @ [p]"
        "av_saved ?a' = av_saved ?a" "\<not> av_paused ?a'" by blast
      then show ?thesis
        using inv_starts_save [OF inv wf' _ p(2-5)] by (simp add: autosave_moves_def Let_def)
    next
      assume same: "av_state ?a' = av_state ?a \<and> av_sent ?a' = av_sent ?a \<and> av_saved ?a' = av_saved ?a \<and> \<not> av_paused ?a'"
      then have "session_inv b name (s\<lparr>ss_auto := ?a'\<rparr>)"
        by (intro inv_autosave_idle [OF inv wf']; cases "av_state ?a") simp_all
      with same show ?thesis by (simp add: autosave_moves_def Let_def)
    qed
  qed
qed

lemma inv_core_answers:
  assumes inv: "session_inv b name s"
  shows "session_inv b name (session_step s (CoreAnswers t))"
proof -
  let ?sh = "ss_shared s" and ?a = "ss_auto s"
  obtain vs where vs: "map_get (sh_docs ?sh) name = Some vs"
    and w: "write_state b name ?a (ss_tickets s) vs (editor_of s) (sh_replies ?sh)"
    and rows: "rows_ok scratchpad_table (sh_docs ?sh)"
    using inv by (auto simp: session_inv_def Let_def)
  show ?thesis
  proof (cases "\<exists>v q r. av_state ?a = Saving v q \<and> sh_replies ?sh = [] \<and> t = last (ss_tickets s)
      \<and> de_pending (editor_of s) = [(t, WriteCall name v (Some r))]")
    case True
    then obtain v q r where run: "av_state ?a = Saving v q" "sh_replies ?sh = []" "t = last (ss_tickets s)"
      "de_pending (editor_of s) = [(t, WriteCall name v (Some r))]" by blast
    let ?w = "(last vs)\<lparr>sv_body := v, sv_revision := sv_revision (last vs) + 1\<rparr>"
    have r: "r = sv_revision (last vs)" and ne: "ss_tickets s \<noteq> []" using w run by (auto simp: write_state_def)
    have docs: "core_write scratchpad_table name v (Some r) (sh_docs ?sh) =
        (Got ?w, map_set name (vs @ [?w]) (sh_docs ?sh))"
      by (simp add: core_write_def vs r scratchpad_table_def)
    have "rows_ok scratchpad_table (map_set name (vs @ [?w]) (sh_docs ?sh))"
      using scratchpad_rows.rows_ok_write [OF rows, of name v "Some r"] docs by simp
    then show ?thesis
      using inv run r ne docs vs
      by (auto simp: session_inv_def Let_def editor_of_def scratchpad_step_def write_state_def jsmap.get_put
          split: prod.splits)
  next
    case False
    have "map_of (de_pending (editor_of s)) t = None \<or> t \<in> fst ` set (sh_replies ?sh)"
      using w False by (cases "av_state ?a") (auto simp: write_state_def split: if_splits)
    then have "scratchpad_step ?sh (CoreRuns t) = ?sh"
      by (elim disjE) (simp_all add: scratchpad_step_def editor_of_def split: option.split)
    then show ?thesis using inv by simp
  qed
qed

lemma index_of_last: "distinct xs \<Longrightarrow> xs \<noteq> [] \<Longrightarrow> index_of xs (last xs) = Some (length xs - 1)"
proof (induction xs)
  case (Cons x xs)
  then show ?case by (cases "xs = []") (auto simp: Suc_diff_Suc)
qed simp

text \<open>An accepted write arrives: the guard advances, and the autosave rests or drains its queue.\<close>

lemma pause_stands: "session_inv b name s \<Longrightarrow> autosave_step (ss_auto s) (AutoPause False) = ss_auto s"
  by (cases "ss_auto s") (simp add: session_inv_def Let_def)

lemma nothing_arrives:
  assumes "session_inv b name s" and "map_of (sh_replies (ss_shared s)) t = None"
  shows "session_step s (ReplyArrives t) = s"
proof -
  have "scratchpad_step (ss_shared s) (Delivered t) = ss_shared s" using assms(2) by (simp add: scratchpad_step_def)
  then show ?thesis
    using assms(1) pause_stands [OF assms(1)]
    by (simp add: reply_delivered_def editor_of_def Let_def session_inv_def)
qed

lemma write_arrives:
  assumes inv: "session_inv b name s" and some: "map_of (sh_replies (ss_shared s)) t = Some reply"
  obtains v q vs where "map_get (sh_docs (ss_shared s)) name = Some vs" and "av_state (ss_auto s) = Saving v q"
    and "sv_body (last vs) = v" and "av_calls (ss_auto s) = [(length (ss_tickets s) - 1, v)]"
    and "sh_editor (scratchpad_step (ss_shared s) (Delivered t)) = (editor_of s)\<lparr>de_pending := [],
        de_baseRevision := Some (sv_revision (last vs)), de_baseRevisionRef := Some (sv_revision (last vs)),
        de_outcomes := de_outcomes (editor_of s) @ [(t, Saved)]\<rparr>"
    and "sh_docs (scratchpad_step (ss_shared s) (Delivered t)) = sh_docs (ss_shared s)"
    and "sh_replies (scratchpad_step (ss_shared s) (Delivered t)) = []"
    and "session_step s (ReplyArrives t) = autosave_moves (AutoSettles (length (ss_tickets s) - 1) Saved)
        (s\<lparr>ss_shared := scratchpad_step (ss_shared s) (Delivered t)\<rparr>)"
proof -
  let ?sh = "ss_shared s" and ?a = "ss_auto s" and ?e = "editor_of s"
  obtain vs where vs: "map_get (sh_docs ?sh) name = Some vs"
    and w: "write_state b name ?a (ss_tickets s) vs ?e (sh_replies ?sh)"
    using inv by (auto simp: session_inv_def Let_def)
  obtain v q r where st: "av_state ?a = Saving v q" and ne: "ss_tickets s \<noteq> []"
    and pend: "de_pending ?e = [(last (ss_tickets s), WriteCall name v (Some r))]"
    and rep: "sh_replies ?sh = [(last (ss_tickets s), Got (last vs))]" "sv_body (last vs) = v"
    and t: "t = last (ss_tickets s)"
    using w some by (cases "av_state ?a") (auto simp: write_state_def split: if_splits)
  let ?sh' = "scratchpad_step ?sh (Delivered t)"
  have e': "sh_editor ?sh' = ?e\<lparr>de_pending := [], de_baseRevision := Some (sv_revision (last vs)),
      de_baseRevisionRef := Some (sv_revision (last vs)), de_outcomes := de_outcomes ?e @ [(t, Saved)]\<rparr>"
    using pend rep t by (simp add: scratchpad_step_def editor_of_def scratchpad_settles_def pad_settles_def doc_defs)
  have wf: "autosave_wf ?a" and len: "length (ss_tickets s) = length (av_sent ?a)" and dist: "distinct (ss_tickets s)"
    using inv by (simp_all add: session_inv_def Let_def)
  have calls: "av_calls ?a = [(length (ss_tickets s) - 1, v)]"
    using wf st len by (simp add: autosave_wf_def in_flight_calls_def)
  have live_id: "?a\<lparr>av_paused := False\<rparr> = ?a" using pause_stands [OF inv] by simp
  have go: "session_step s (ReplyArrives t) = autosave_moves (AutoSettles (length (ss_tickets s) - 1) Saved)
      (s\<lparr>ss_shared := ?sh'\<rparr>)"
    using index_of_last [OF dist ne] t e' inv
    by (simp add: reply_delivered_def Let_def outcome_settles_def session_inv_def) (simp only: live_id, simp)
  show thesis
    by (rule that [OF vs st rep(2) calls e' _ _ go]) (use rep t in \<open>simp_all add: scratchpad_step_def\<close>)
qed

lemma inv_reply_arrives:
  assumes inv: "session_inv b name s"
  shows "session_inv b name (session_step s (ReplyArrives t))"
proof (cases "map_of (sh_replies (ss_shared s)) t")
  case None
  then show ?thesis using nothing_arrives [OF inv] inv by simp
next
  case (Some reply)
  let ?a = "ss_auto s" and ?k = "length (ss_tickets s) - 1" and ?sh' = "scratchpad_step (ss_shared s) (Delivered t)"
  from write_arrives [OF inv Some] obtain v q vs where vs: "map_get (sh_docs (ss_shared s)) name = Some vs"
    and st: "av_state ?a = Saving v q" and body: "sv_body (last vs) = v" and calls: "av_calls ?a = [(?k, v)]"
    and e': "sh_editor ?sh' = (editor_of s)\<lparr>de_pending := [], de_baseRevision := Some (sv_revision (last vs)),
      de_baseRevisionRef := Some (sv_revision (last vs)), de_outcomes := de_outcomes (editor_of s) @ [(t, Saved)]\<rparr>"
    and sh': "sh_docs ?sh' = sh_docs (ss_shared s)" "sh_replies ?sh' = []"
    and go: "session_step s (ReplyArrives t) = autosave_moves (AutoSettles ?k Saved) (s\<lparr>ss_shared := ?sh'\<rparr>)"
    by blast
  have wf: "autosave_wf ?a" and live: "\<not> av_paused ?a" using inv by (simp_all add: session_inv_def Let_def)
  obtain a' where a': "autosave_step ?a (AutoSettles ?k Saved) = a'" by blast
  obtain sh' where shared: "?sh' = sh'" by blast
  note eff = saved_effect [OF wf calls st live, unfolded Let_def a']
    and wf' = autosave_wf_step [OF wf, of "AutoSettles ?k Saved", unfolded a']
    and e' = e' [unfolded shared] and sh' = sh' [unfolded shared]
  have m: "session_step s (ReplyArrives t) =
      foldl start_save (s\<lparr>ss_shared := sh', ss_auto := a'\<rparr>) (drop (length (av_sent ?a)) (av_sent a'))"
    using autosave_moves_eq [of "s\<lparr>ss_shared := ?sh'\<rparr>" "AutoSettles ?k Saved" a'] a' shared
    unfolding go by (simp del: autosave_step.simps)
  show ?thesis
  proof (cases q)
    case None
    with eff m have "session_step s (ReplyArrives t) = s\<lparr>ss_shared := sh', ss_auto := a'\<rparr>" by simp
    then show ?thesis
      using inv eff None wf' vs body sh' e'
      by (auto simp: session_inv_def Let_def editor_of_def write_state_def stored_body_def)
  next
    case (Some v')
    let ?s2 = "s\<lparr>ss_shared := sh', ss_auto := a'\<rparr>"
    have moves: "session_step s (ReplyArrives t) = start_save ?s2 v'" using eff Some m by simp
    have "de_handle (editor_of ?s2) = Some name" using inv e' by (simp add: session_inv_def Let_def editor_of_def)
    note E = start_save_effect [OF this, of v']
    have ed: "editor_of ?s2 = sh_editor sh'" by (simp add: editor_of_def)
    show ?thesis
      unfolding moves using inv eff Some wf' vs body sh' e'
      by (auto simp: session_inv_def Let_def E ed write_state_def stored_body_def less_Suc_eq)
  qed
qed

lemma session_inv_step: "session_inv b name s \<Longrightarrow> session_inv b name (session_step s op)"
  by (cases op) (simp_all add: inv_autosave_user inv_core_answers inv_reply_arrives del: session_step.simps(4,5))

lemma session_inv_start:
  assumes "rows_ok scratchpad_table docs" and "map_get docs name = Some vs"
  shows "session_inv (sv_body (last vs)) name (session_init docs name)"
  using assms scratchpad_rows.last_rev [OF assms]
  by (simp add: session_inv_def session_init_def editor_of_def autosave_wf_start scratchpad_step_def
      shared_init_def editor_inits doc_defs pad_shown_def core_read_def scratchpad_settles_def pad_settles_def
      write_state_def)
    (simp add: useAutosave_def stored_body_def scratchpad_table_def)

subsection \<open>What was typed is what is stored\<close>

text \<open>The autosave of a session runs through the operations of the session, typed text alike.\<close>

lemma start_saves_auto [simp]: "ss_auto (foldl start_save s vs) = ss_auto s"
  by (induction vs arbitrary: s) (simp_all add: start_save_def)

lemma moves_auto [simp]: "ss_auto (autosave_moves op s) = autosave_step (ss_auto s) op"
  by (simp add: autosave_moves_def Let_def)

lemma outcomes_auto:
  "\<exists>more. ss_auto (foldl outcome_settles s outs) = foldl autosave_step (ss_auto s) more \<and> pushes more = []"
proof (induction outs arbitrary: s)
  case (Cons out outs)
  obtain m where m: "ss_auto (outcome_settles s out) = foldl autosave_step (ss_auto s) m" "pushes m = []"
  proof (cases "index_of (ss_tickets s) (fst out)")
    case None
    then show ?thesis using that [of "[]"] by (simp add: outcome_settles_def)
  next
    case (Some k)
    then show ?thesis using that [of "[AutoSettles k (snd out)]"] by (simp add: outcome_settles_def)
  qed
  obtain m' where "ss_auto (foldl outcome_settles (outcome_settles s out) outs) =
      foldl autosave_step (ss_auto (outcome_settles s out)) m'" "pushes m' = []" using Cons by blast
  with m show ?case by (intro exI [of _ "m @ m'"]) (simp add: pushes_append)
qed (auto intro: exI [of _ "[]"])

lemma session_auto:
  "\<exists>more. ss_auto (session_step s op) = foldl autosave_step (ss_auto s) more \<and> pushes more = typed [op]"
proof (cases op)
  case (Typed v)
  then show ?thesis by (intro exI [of _ "[AutoPush v]"]) simp
next
  case Flushed
  then show ?thesis by (intro exI [of _ "[AutoFlush]"]) simp
next
  case (TimeoutFires h)
  then show ?thesis by (intro exI [of _ "[AutoTimer h]"]) simp
next
  case (CoreAnswers t)
  then show ?thesis by (intro exI [of _ "[]"]) simp
next
  case (ReplyArrives t)
  let ?sh = "scratchpad_step (ss_shared s) (Delivered t)"
  let ?p = "AutoPause (de_conflict (sh_editor ?sh) \<noteq> None)"
  obtain m where "ss_auto (foldl outcome_settles (s\<lparr>ss_shared := ?sh, ss_auto := autosave_step (ss_auto s) ?p\<rparr>)
      (drop (length (de_outcomes (editor_of s))) (de_outcomes (sh_editor ?sh)))) =
      foldl autosave_step (autosave_step (ss_auto s) ?p) m" "pushes m = []"
    using outcomes_auto [of "s\<lparr>ss_shared := ?sh, ss_auto := autosave_step (ss_auto s) ?p\<rparr>"] by auto
  then show ?thesis using ReplyArrives by (intro exI [of _ "?p # m"]) (simp add: reply_delivered_def Let_def)
qed

lemma session_auto_run:
  "\<exists>aops. ss_auto (foldl session_step (session_init docs name) ops) = autosave_run False aops \<and> pushes aops = typed ops"
proof (induction ops rule: rev_induct)
  case Nil
  show ?case by (intro exI [of _ "[]"]) (simp add: session_init_def)
next
  case (snoc op ops)
  then obtain aops where a: "ss_auto (foldl session_step (session_init docs name) ops) = autosave_run False aops"
    "pushes aops = typed ops" by blast
  obtain more where "ss_auto (session_step (foldl session_step (session_init docs name) ops) op) =
      foldl autosave_step (autosave_run False aops) more" "pushes more = typed [op]"
    using session_auto [of "foldl session_step (session_init docs name) ops" op] a(1) by auto
  with a(2) show ?case by (intro exI [of _ "aops @ more"]) (simp add: pushes_append typed_append)
qed

lemma session_run_inv:
  assumes "rows_ok scratchpad_table docs" and "map_get docs name = Some vs"
  shows "session_inv (sv_body (last vs)) name (foldl session_step (session_init docs name) ops)"
  by (induction ops rule: rev_induct) (simp_all add: session_inv_start [OF assms] session_inv_step del: session_step.simps)

lemma clean_stores_typed:
  assumes rows: "rows_ok scratchpad_table docs" and vs: "map_get docs name = Some vs"
    and clean: "av_state (ss_auto (foldl session_step (session_init docs name) ops)) = Clean"
  shows "map_option (\<lambda>ws. sv_body (last ws)) (map_get (sh_docs (ss_shared (foldl session_step (session_init docs name) ops))) name)
    = Some (if typed ops = [] then sv_body (last vs) else last (typed ops))"
proof -
  let ?s = "foldl session_step (session_init docs name) ops"
  obtain aops where a: "ss_auto ?s = autosave_run False aops" "pushes aops = typed ops" using session_auto_run by blast
  have "newest (ss_auto ?s) = (if typed ops = [] then None else Some (last (typed ops)))"
    by (simp add: a newest_run fold_latest)
  then have "stored_body (sv_body (last vs)) (ss_auto ?s) = (if typed ops = [] then sv_body (last vs) else last (typed ops))"
    using clean by (auto simp: newest_def stored_body_def split: if_splits)
  then show ?thesis
    using session_run_inv [OF rows vs, of ops] clean by (auto simp: session_inv_def Let_def write_state_def)
qed

text \<open>The core answers the save in flight and its reply arrives.\<close>

definition serve :: "Session \<Rightarrow> Session" where
  "serve s = (let t = last (ss_tickets s) in session_step (session_step s (CoreAnswers t)) (ReplyArrives t))"

lemma core_answers_writes:
  assumes inv: "session_inv b name s" and st: "av_state (ss_auto s) = Saving v q"
  shows "map_of (sh_replies (ss_shared (session_step s (CoreAnswers (last (ss_tickets s)))))) (last (ss_tickets s)) \<noteq> None"
proof -
  obtain vs where vs: "map_get (sh_docs (ss_shared s)) name = Some vs"
    and w: "write_state b name (ss_auto s) (ss_tickets s) vs (editor_of s) (sh_replies (ss_shared s))"
    using inv by (auto simp: session_inv_def Let_def)
  show ?thesis
    using w st by (auto simp: write_state_def scratchpad_step_def editor_of_def split: prod.splits)
qed

lemma serve_effect:
  assumes inv: "session_inv b name s"
  shows "av_state (ss_auto (serve s)) = (case av_state (ss_auto s) of
     Saving v None \<Rightarrow> Clean | Saving v (Some q) \<Rightarrow> Saving q None | st \<Rightarrow> st)"
proof (cases "av_state (ss_auto s)")
  case (Saving v q)
  let ?t = "last (ss_tickets s)"
  let ?s1 = "session_step s (CoreAnswers ?t)"
  have inv1: "session_inv b name ?s1" by (rule inv_core_answers [OF inv])
  have same: "ss_auto ?s1 = ss_auto s" by simp
  obtain reply where "map_of (sh_replies (ss_shared ?s1)) ?t = Some reply"
    using core_answers_writes [OF inv Saving] by blast
  from write_arrives [OF inv1 this] obtain v' q' where st: "av_state (ss_auto ?s1) = Saving v' q'"
    and calls: "av_calls (ss_auto ?s1) = [(length (ss_tickets ?s1) - 1, v')]"
    and go: "session_step ?s1 (ReplyArrives ?t) = autosave_moves (AutoSettles (length (ss_tickets ?s1) - 1) Saved)
        (?s1\<lparr>ss_shared := scratchpad_step (ss_shared ?s1) (Delivered ?t)\<rparr>)" by metis
  have "autosave_wf (ss_auto ?s1)" and "\<not> av_paused (ss_auto ?s1)" using inv1 by (simp_all add: session_inv_def Let_def)
  from saved_effect [OF this(1) calls st this(2)] show ?thesis
    using st Saving same unfolding serve_def Let_def go
    by (simp add: Let_def split: option.splits del: autosave_step.simps session_step.simps)
next
  case other: Clean
  then have "session_step s (CoreAnswers t) = s" "session_step s (ReplyArrives t) = s" for t
    using inv nothing_arrives [OF inv, of t]
    by (auto simp: session_inv_def Let_def write_state_def scratchpad_step_def editor_of_def)
  with other show ?thesis by (simp add: serve_def Let_def del: session_step.simps)
next
  case other: (Dirty w)
  then have "session_step s (CoreAnswers t) = s" "session_step s (ReplyArrives t) = s" for t
    using inv nothing_arrives [OF inv, of t]
    by (auto simp: session_inv_def Let_def write_state_def scratchpad_step_def editor_of_def)
  with other show ?thesis by (simp add: serve_def Let_def del: session_step.simps)
qed

lemma serve_run: "\<exists>ops. serve s = foldl session_step s ops \<and> typed ops = []"
  by (intro exI [of _ "[CoreAnswers (last (ss_tickets s)), ReplyArrives (last (ss_tickets s))]"])
    (simp add: serve_def Let_def del: session_step.simps)



end
