(* ===== verification/Rereading.thy ===== *)
theory Rereading
  imports Domain
begin

section \<open>Read models that ask again\<close>

text \<open>
  \<open>store/git/useRepositoryRead.ts\<close>, \<open>store/useOrchestration.ts\<close> and \<open>store/useLineage.ts\<close> keep a read model
  without folding deltas: a domain event schedules one animation frame, the frame re-reads the whole
  answer, and so do a resync signal and the window's focus (\<open>store/useReconcile.ts\<close>). This theory holds the
  machinery the three share. Every run of the subscribing effect is a \<open>Watch\<close> with the variables of
  its closure; \<open>Reader\<close> is one mounted hook; \<open>RereadRun\<close> puts it beside the core that changes what is
  read, announces it, and answers reads later. The locale \<open>rereader\<close> states what a hook's handlers
  promise and proves what every such hook then shows.
\<close>

subsection \<open>The effect and the read\<close>

record 'r Watch =
  wt_request :: 'r
  wt_registered :: bool
  wt_ready :: bool
  wt_cancelled :: bool
  wt_frame :: bool

record ('r, 'z) Reader =
  rd_request :: "'r option"
  rd_watches :: "'r Watch list"
  rd_reads :: "(nat \<times> 'r) list"
  rd_issued :: nat
  rd_state :: 'z

text \<open>A hook's handlers: an answer, a refusal, a subscription that failed, and the events it reads on.\<close>

record ('r, 'v, 'z) ReadHook =
  rh_answer :: "'r \<Rightarrow> 'v \<Rightarrow> 'z \<Rightarrow> 'z"
  rh_refuse :: "jstring \<Rightarrow> 'z \<Rightarrow> 'z"
  rh_detached :: "jstring \<Rightarrow> 'z \<Rightarrow> 'z"
  rh_listens :: "DomainEvent \<Rightarrow> bool"

definition read_for :: "'r \<Rightarrow> ('r, 'z) Reader \<Rightarrow> ('r, 'z) Reader" where
  "read_for r s = s\<lparr>rd_reads := rd_reads s @ [(rd_issued s, r)], rd_issued := rd_issued s + 1\<rparr>"

definition reader_refresh :: "('r, 'z) Reader \<Rightarrow> ('r, 'z) Reader" where
  "reader_refresh s = (case rd_request s of None \<Rightarrow> s | Some r \<Rightarrow> read_for r s)"

definition on_watch :: "nat \<Rightarrow> ('r Watch \<Rightarrow> 'r Watch) \<Rightarrow> ('r, 'z) Reader \<Rightarrow> ('r, 'z) Reader" where
  "on_watch w f s = (if w < length (rd_watches s) then s\<lparr>rd_watches := (rd_watches s)[w := f (rd_watches s ! w)]\<rparr> else s)"

text \<open>The cleanup of an effect: a listener that is not attached yet is stopped when it attaches.\<close>

definition watch_stops :: "'r Watch \<Rightarrow> 'r Watch" where
  "watch_stops c = c\<lparr>wt_cancelled := True, wt_frame := False, wt_registered := wt_registered c \<and> \<not> wt_ready c\<rparr>"

definition watch_starts :: "'r \<Rightarrow> 'r Watch" where
  "watch_starts r = \<lparr>wt_request = r, wt_registered = False, wt_ready = False, wt_cancelled = False, wt_frame = False\<rparr>"

definition reader_commit :: "'r option \<Rightarrow> ('r, 'z) Reader \<Rightarrow> ('r, 'z) Reader" where
  "reader_commit request s =
     (if request = rd_request s then s
      else let stopped = (case rd_request s of None \<Rightarrow> s | Some _ \<Rightarrow> on_watch (length (rd_watches s) - 1) watch_stops s)
        in stopped\<lparr>rd_request := request,
             rd_watches := rd_watches stopped @ (case request of None \<Rightarrow> [] | Some r \<Rightarrow> [watch_starts r])\<rparr>)"

definition watch_attaches :: "nat \<Rightarrow> ('r, 'z) Reader \<Rightarrow> ('r, 'z) Reader" where
  "watch_attaches w s =
     (if w < length (rd_watches s) \<and> wt_registered (rd_watches s ! w) \<and> \<not> wt_ready (rd_watches s ! w)
      then if wt_cancelled (rd_watches s ! w) then on_watch w (\<lambda>c. c\<lparr>wt_registered := False, wt_ready := True\<rparr>) s
        else read_for (wt_request (rd_watches s ! w)) (on_watch w (wt_ready_update (\<lambda>_. True)) s)
      else s)"

definition watch_hears :: "('r, 'v, 'z) ReadHook \<Rightarrow> nat \<Rightarrow> DomainEvent \<Rightarrow> ('r, 'z) Reader \<Rightarrow> ('r, 'z) Reader" where
  "watch_hears H w ev s =
     (if w < length (rd_watches s) \<and> wt_registered (rd_watches s ! w) \<and> rh_listens H ev
      then on_watch w (wt_frame_update (\<lambda>_. True)) s else s)"

definition reread_frame_fires :: "nat \<Rightarrow> ('r, 'z) Reader \<Rightarrow> ('r, 'z) Reader" where
  "reread_frame_fires w s =
     (if w < length (rd_watches s) \<and> wt_frame (rd_watches s ! w)
      then read_for (wt_request (rd_watches s ! w)) (on_watch w (wt_frame_update (\<lambda>_. False)) s) else s)"

definition reread_settles ::
  "('r, 'v, 'z) ReadHook \<Rightarrow> nat \<Rightarrow> 'v + jstring \<Rightarrow> ('r, 'z) Reader \<Rightarrow> ('r, 'z) Reader" where
  "reread_settles H t answer s =
     (case map_of (rd_reads s) t of None \<Rightarrow> s
      | Some r \<Rightarrow> s\<lparr>rd_reads := filter (\<lambda>q. fst q \<noteq> t) (rd_reads s),
          rd_state := (case answer of Inl v \<Rightarrow> rh_answer H r v (rd_state s) | Inr reason \<Rightarrow> rh_refuse H reason (rd_state s))\<rparr>)"

definition mounted :: "'z \<Rightarrow> ('r, 'z) Reader" where
  "mounted z = \<lparr>rd_request = None, rd_watches = [], rd_reads = [], rd_issued = 0, rd_state = z\<rparr>"

subsection \<open>Beside a core that changes\<close>

text \<open>
  \<open>rn_repo\<close> is what a read would answer now. An announcement is queued for every listener registered
  at that moment; a read is answered from the repository of the moment it runs, and the answer
  arrives later. \<open>rn_served\<close> lists the answers given.
\<close>

record ('r, 'v, 'z) RereadRun =
  rn_reader :: "('r, 'z) Reader"
  rn_repo :: "'r \<Rightarrow> 'v"
  rn_events :: "(nat \<times> DomainEvent) list"
  rn_answers :: "(nat \<times> ('v + jstring)) list"
  rn_served :: "('r \<times> 'v) list"

datatype ('r, 'v) RereadOp =
    Renders "'r option" | Registers nat | Attaches nat | AttachFails nat jstring | FrameFires nat | Reconciles
  | Changes "'r \<Rightarrow> 'v" DomainEvent | Announces DomainEvent | Hears nat DomainEvent
  | Answers nat | Refuses nat jstring | Arrives nat

definition heard_by :: "('r, 'z) Reader \<Rightarrow> DomainEvent \<Rightarrow> (nat \<times> DomainEvent) list" where
  "heard_by s ev = map (\<lambda>w. (w, ev)) (filter (\<lambda>w. wt_registered (rd_watches s ! w)) [0..<length (rd_watches s)])"

definition unanswered :: "nat \<Rightarrow> ('r, 'v, 'z) RereadRun \<Rightarrow> 'r option" where
  "unanswered t s = (if t \<in> fst ` set (rn_answers s) then None else map_of (rd_reads (rn_reader s)) t)"

fun reread_step ::
  "('r, 'v, 'z) ReadHook \<Rightarrow> ('r, 'v, 'z) RereadRun \<Rightarrow> ('r, 'v) RereadOp \<Rightarrow> ('r, 'v, 'z) RereadRun" where
  "reread_step H s (Renders request) = s\<lparr>rn_reader := reader_commit request (rn_reader s)\<rparr>"
| "reread_step H s (Registers w) =
     s\<lparr>rn_reader := (if w < length (rd_watches (rn_reader s)) \<and> \<not> wt_ready (rd_watches (rn_reader s) ! w)
        then on_watch w (wt_registered_update (\<lambda>_. True)) (rn_reader s) else rn_reader s)\<rparr>"
| "reread_step H s (Attaches w) = s\<lparr>rn_reader := watch_attaches w (rn_reader s)\<rparr>"
| "reread_step H s (AttachFails w reason) =
     s\<lparr>rn_reader := (if w < length (rd_watches (rn_reader s)) \<and> \<not> wt_registered (rd_watches (rn_reader s) ! w)
          \<and> \<not> wt_ready (rd_watches (rn_reader s) ! w)
        then (rn_reader s)\<lparr>rd_state := rh_detached H reason (rd_state (rn_reader s))\<rparr> else rn_reader s)\<rparr>"
| "reread_step H s (FrameFires w) = s\<lparr>rn_reader := reread_frame_fires w (rn_reader s)\<rparr>"
| "reread_step H s Reconciles = s\<lparr>rn_reader := reader_refresh (rn_reader s)\<rparr>"
| "reread_step H s (Changes repo ev) = s\<lparr>rn_repo := repo, rn_events := rn_events s @ heard_by (rn_reader s) ev\<rparr>"
| "reread_step H s (Announces ev) = s\<lparr>rn_events := rn_events s @ heard_by (rn_reader s) ev\<rparr>"
| "reread_step H s (Hears w ev) =
     (if (w, ev) \<in> set (rn_events s)
      then s\<lparr>rn_events := remove1 (w, ev) (rn_events s), rn_reader := watch_hears H w ev (rn_reader s)\<rparr> else s)"
| "reread_step H s (Answers t) =
     (case unanswered t s of None \<Rightarrow> s
      | Some r \<Rightarrow> s\<lparr>rn_answers := rn_answers s @ [(t, Inl (rn_repo s r))], rn_served := rn_served s @ [(r, rn_repo s r)]\<rparr>)"
| "reread_step H s (Refuses t reason) =
     (case unanswered t s of None \<Rightarrow> s | Some r \<Rightarrow> s\<lparr>rn_answers := rn_answers s @ [(t, Inr reason)]\<rparr>)"
| "reread_step H s (Arrives t) =
     (case map_of (rn_answers s) t of None \<Rightarrow> s
      | Some answer \<Rightarrow> s\<lparr>rn_reader := reread_settles H t answer (rn_reader s),
          rn_answers := filter (\<lambda>a. fst a \<noteq> t) (rn_answers s)\<rparr>)"

definition reread_init :: "'z \<Rightarrow> ('r \<Rightarrow> 'v) \<Rightarrow> ('r, 'v, 'z) RereadRun" where
  "reread_init z repo = \<lparr>rn_reader = mounted z, rn_repo = repo, rn_events = [], rn_answers = [], rn_served = []\<rparr>"

text \<open>
  What the hooks rely on: the core announces each change with an event they listen to, answers
  arrive in the order of their reads, and no event reaches a listener after its effect was cleaned
  up.
\<close>

fun orderly_op :: "('r, 'v, 'z) ReadHook \<Rightarrow> ('r, 'v, 'z) RereadRun \<Rightarrow> ('r, 'v) RereadOp \<Rightarrow> bool" where
  "orderly_op H s (Changes _ ev) = rh_listens H ev"
| "orderly_op H s (Hears w _) = (w < length (rd_watches (rn_reader s)) \<and> \<not> wt_cancelled (rd_watches (rn_reader s) ! w))"
| "orderly_op H s (Arrives t) = (rd_reads (rn_reader s) \<noteq> [] \<and> t = fst (hd (rd_reads (rn_reader s))))"
| "orderly_op H s _ = True"

fun orderly_run :: "('r, 'v, 'z) ReadHook \<Rightarrow> ('r, 'v, 'z) RereadRun \<Rightarrow> ('r, 'v) RereadOp list \<Rightarrow> bool" where
  "orderly_run H s [] = True"
| "orderly_run H s (op # ops) = (orderly_op H s op \<and> orderly_run H (reread_step H s op) ops)"

text \<open>Nothing more is going to happen unless something changes: no event, frame or read is outstanding.\<close>

definition run_settled :: "('r, 'v, 'z) ReadHook \<Rightarrow> ('r, 'v, 'z) RereadRun \<Rightarrow> 'r \<Rightarrow> bool" where
  "run_settled H s r \<longleftrightarrow> (let s' = rn_reader s; c = last (rd_watches s') in
     rd_request s' = Some r \<and> wt_ready c \<and> \<not> wt_frame c \<and> rd_reads s' = []
     \<and> (\<forall>(w, ev) \<in> set (rn_events s). w = length (rd_watches s') - 1 \<longrightarrow> \<not> rh_listens H ev))"

lemmas reader_defs = read_for_def reader_refresh_def on_watch_def watch_stops_def watch_starts_def reader_commit_def
  watch_attaches_def watch_hears_def reread_frame_fires_def reread_settles_def Let_def

subsection \<open>What the watches and the tickets keep\<close>

definition watches_ok :: "('r, 'z) Reader \<Rightarrow> bool" where
  "watches_ok s \<longleftrightarrow>
     (\<forall>w < length (rd_watches s). w \<noteq> length (rd_watches s) - 1 \<or> rd_request s = None \<longrightarrow> wt_cancelled (rd_watches s ! w))
     \<and> (\<forall>r. rd_request s = Some r \<longrightarrow> rd_watches s \<noteq> [] \<and> wt_request (last (rd_watches s)) = r
          \<and> \<not> wt_cancelled (last (rd_watches s)))
     \<and> (\<forall>c \<in> set (rd_watches s). (wt_cancelled c \<longrightarrow> \<not> wt_frame c) \<and> (wt_ready c \<and> \<not> wt_cancelled c \<longrightarrow> wt_registered c))"

definition tickets_ok :: "('r, 'v, 'z) RereadRun \<Rightarrow> bool" where
  "tickets_ok s \<longleftrightarrow> distinct (map fst (rd_reads (rn_reader s)))
     \<and> (\<forall>q \<in> set (rd_reads (rn_reader s)). fst q < rd_issued (rn_reader s))
     \<and> (\<forall>a \<in> set (rn_answers s). fst a < rd_issued (rn_reader s))"

lemma watch_updated:
  assumes "watches_ok s" and "w < length (rd_watches s)"
    and "wt_request (f (rd_watches s ! w)) = wt_request (rd_watches s ! w)"
    and "wt_cancelled (f (rd_watches s ! w)) = wt_cancelled (rd_watches s ! w)"
    and "wt_cancelled (rd_watches s ! w) \<longrightarrow> \<not> wt_frame (f (rd_watches s ! w))"
    and "\<not> wt_cancelled (rd_watches s ! w) \<and> wt_ready (f (rd_watches s ! w)) \<longrightarrow> wt_registered (f (rd_watches s ! w))"
  shows "watches_ok (on_watch w f s)"
proof -
  let ?W = "rd_watches s" and ?c = "f (rd_watches s ! w)"
  have lst: "last (?W[w := ?c]) = (if w = length ?W - 1 then ?c else last ?W)"
    using assms(2) by (intro last_list_update) auto
  have at: "last ?W = ?W ! w" if "w = length ?W - 1"
    using that assms(2) by (metis last_conv_nth length_greater_0_conv not_less_zero length_0_conv)
  have every: "(wt_cancelled c \<longrightarrow> \<not> wt_frame c) \<and> (wt_ready c \<and> \<not> wt_cancelled c \<longrightarrow> wt_registered c)"
    if "c \<in> set (?W[w := ?c])" for c
  proof -
    have "c = ?c \<or> c \<in> set ?W" using that set_update_subset_insert [of ?W w ?c] by blast
    then show ?thesis using assms by (auto simp: watches_ok_def)
  qed
  have old: "wt_cancelled (?W[w := ?c] ! v) = wt_cancelled (?W ! v)" if "v < length ?W" for v
    using assms(4) that by (cases "v = w") auto
  have current: "?W[w := ?c] \<noteq> [] \<and> wt_request (last (?W[w := ?c])) = r \<and> \<not> wt_cancelled (last (?W[w := ?c]))"
    if "rd_request s = Some r" for r
    using assms(1-4) that at by (auto simp: watches_ok_def lst)
  have on: "on_watch w f s = s\<lparr>rd_watches := ?W[w := ?c]\<rparr>" using assms(2) by (simp add: on_watch_def)
  show ?thesis
    using every old current assms(1) unfolding watches_ok_def on by simp
qed

lemma watches_reads [simp]:
  "watches_ok (read_for r s) = watches_ok s" "watches_ok (reader_refresh s) = watches_ok s"
  "watches_ok (s\<lparr>rd_reads := q\<rparr>) = watches_ok s" "watches_ok (s\<lparr>rd_state := z\<rparr>) = watches_ok s"
  by (auto simp: watches_ok_def read_for_def reader_refresh_def split: option.splits)

lemma watches_commit:
  assumes ok: "watches_ok s"
  shows "watches_ok (reader_commit request s)"
proof (cases "request = rd_request s")
  case True
  with ok show ?thesis by (simp add: reader_commit_def)
next
  case False
  let ?n = "length (rd_watches s) - 1"
  let ?stopped = "case rd_request s of None \<Rightarrow> s | Some _ \<Rightarrow> on_watch ?n watch_stops s"
  have cancelled: "wt_cancelled c \<and> \<not> wt_frame c" if "c \<in> set (rd_watches ?stopped)" for c
  proof -
    from that obtain w where w: "w < length (rd_watches ?stopped)" "c = rd_watches ?stopped ! w"
      by (auto simp: in_set_conv_nth)
    show ?thesis
      using ok w
      by (cases "rd_request s"; cases "w = ?n")
        (auto simp: watches_ok_def on_watch_def watch_stops_def split: if_splits)
  qed
  then have "\<forall>w < length (rd_watches ?stopped). wt_cancelled (rd_watches ?stopped ! w)" by simp
  with cancelled False show ?thesis
    by (cases request)
      (auto simp: reader_commit_def Let_def watches_ok_def watch_starts_def nth_append less_Suc_eq)
qed

lemma watch_flags:
  assumes "watches_ok s" and "w < length (rd_watches s)"
  shows "wt_cancelled (rd_watches s ! w) \<Longrightarrow> \<not> wt_frame (rd_watches s ! w)"
    and "wt_ready (rd_watches s ! w) \<Longrightarrow> \<not> wt_cancelled (rd_watches s ! w) \<Longrightarrow> wt_registered (rd_watches s ! w)"
  using assms by (auto simp: watches_ok_def)

lemma watches_step:
  assumes ok: "watches_ok (rn_reader s)" and op: "orderly_op H s op"
  shows "watches_ok (rn_reader (reread_step H s op))"
proof (cases op)
  case (Attaches w)
  then show ?thesis
    using ok by (auto simp: watch_attaches_def watch_flags intro!: watch_updated)
next
  case (Hears w ev)
  then show ?thesis
    using ok op by (auto simp: watch_hears_def intro!: watch_updated)
next
  case (Registers w)
  then show ?thesis using ok by (auto simp: watch_flags intro!: watch_updated)
next
  case (FrameFires w)
  then show ?thesis using ok by (auto simp: reread_frame_fires_def watch_flags intro!: watch_updated)
qed (use ok in \<open>auto simp: watches_commit reread_settles_def split: option.splits\<close>)

lemma tickets_reader [simp]:
  "rd_reads (on_watch w f s) = rd_reads s" "rd_issued (on_watch w f s) = rd_issued s"
  "rd_request (on_watch w f s) = rd_request s" "rd_state (on_watch w f s) = rd_state s"
  "rd_reads (reader_commit q s) = rd_reads s" "rd_issued (reader_commit q s) = rd_issued s"
  "rd_request (reader_commit q s) = q" "rd_state (reader_commit q s) = rd_state s"
  by (auto simp: on_watch_def reader_commit_def Let_def split: option.splits)

lemma tickets_read_for:
  "tickets_ok s \<Longrightarrow> rd_reads s' = rd_reads (rn_reader s) \<Longrightarrow> rd_issued s' = rd_issued (rn_reader s) \<Longrightarrow>
   tickets_ok (s\<lparr>rn_reader := read_for r s'\<rparr>)"
  by (fastforce simp: tickets_ok_def read_for_def)

lemma tickets_same:
  "tickets_ok s \<Longrightarrow> rd_reads s' = rd_reads (rn_reader s) \<Longrightarrow> rd_issued s' = rd_issued (rn_reader s) \<Longrightarrow>
   tickets_ok (s\<lparr>rn_reader := s'\<rparr>)"
  by (simp add: tickets_ok_def)

lemma tickets_step:
  assumes ok: "tickets_ok s"
  shows "tickets_ok (reread_step H s op)"
proof (cases op)
  case (Attaches w)
  then show ?thesis
    using ok by (cases "wt_cancelled (rd_watches (rn_reader s) ! w)")
      (auto simp: watch_attaches_def tickets_same intro!: tickets_read_for)
next
  case (FrameFires w)
  then show ?thesis using ok by (auto simp: reread_frame_fires_def tickets_same intro!: tickets_read_for)
next
  case Reconciles
  then show ?thesis
    using ok by (auto simp: reader_refresh_def tickets_same intro!: tickets_read_for split: option.splits)
next
  case (Hears w ev)
  then show ?thesis using ok by (auto simp: watch_hears_def tickets_ok_def)
next
  case (Answers t)
  then show ?thesis
    using ok by (auto simp: tickets_ok_def unanswered_def split: option.splits if_splits dest!: map_of_SomeD)
next
  case (Refuses t reason)
  then show ?thesis
    using ok by (auto simp: tickets_ok_def unanswered_def split: option.splits if_splits dest!: map_of_SomeD)
next
  case (Arrives t)
  then show ?thesis
    using ok by (auto simp: tickets_ok_def reread_settles_def distinct_map_filter split: option.splits)
qed (use ok in \<open>auto simp: tickets_same tickets_ok_def\<close>)

subsection \<open>The contract of a hook's handlers\<close>

text \<open>
  \<open>holds z r v\<close>: the hook's state \<open>z\<close> shows \<open>v\<close> as the answer to \<open>r\<close>; \<open>failed z\<close>: it shows that the last
  read was refused.
\<close>

locale rereader =
  fixes H :: "('r, 'v, 'z) ReadHook" and holds :: "'z \<Rightarrow> 'r \<Rightarrow> 'v \<Rightarrow> bool" and failed :: "'z \<Rightarrow> bool"
  assumes answer_holds: "holds (rh_answer H r v z) r v"
    and refuse_failed: "failed (rh_refuse H reason z)"
    and detached_keeps: "failed z \<or> holds z r v \<Longrightarrow>
      failed (rh_detached H reason z) \<or> holds (rh_detached H reason z) r v"
begin

text \<open>The newest information is on its way, or it is shown.\<close>

definition awaits_news :: "('r, 'v, 'z) RereadRun \<Rightarrow> bool" where
  "awaits_news s \<longleftrightarrow> (\<exists>ev. (length (rd_watches (rn_reader s)) - 1, ev) \<in> set (rn_events s) \<and> rh_listens H ev)
     \<or> wt_frame (last (rd_watches (rn_reader s)))"

definition last_read_fresh :: "'r \<Rightarrow> ('r, 'v, 'z) RereadRun \<Rightarrow> bool" where
  "last_read_fresh r s \<longleftrightarrow> (let q = last (rd_reads (rn_reader s)) in
     rd_reads (rn_reader s) \<noteq> [] \<and> snd q = r \<and> (\<forall>v. map_of (rn_answers s) (fst q) = Some (Inl v) \<longrightarrow> v = rn_repo s r))"

definition shows_fresh :: "'r \<Rightarrow> ('r, 'v, 'z) RereadRun \<Rightarrow> bool" where
  "shows_fresh r s \<longleftrightarrow> rd_reads (rn_reader s) = []
     \<and> (failed (rd_state (rn_reader s)) \<or> holds (rd_state (rn_reader s)) r (rn_repo s r))"

definition fresh :: "('r, 'v, 'z) RereadRun \<Rightarrow> bool" where
  "fresh s \<longleftrightarrow> (\<forall>r. rd_request (rn_reader s) = Some r \<longrightarrow> wt_ready (last (rd_watches (rn_reader s))) \<longrightarrow>
     awaits_news s \<or> last_read_fresh r s \<or> shows_fresh r s)"

lemma freshI_read:
  assumes "tickets_ok s" and "rd_reads s' = rd_reads (rn_reader s)" and "rd_issued s' = rd_issued (rn_reader s)"
    and "rd_request s' = Some r"
  shows "fresh (s\<lparr>rn_reader := read_for r s'\<rparr>)"
proof -
  have "map_of (rn_answers s) (rd_issued (rn_reader s)) = None"
    using assms(1) by (auto simp: tickets_ok_def map_of_eq_None_iff)
  then show ?thesis using assms by (simp add: fresh_def last_read_fresh_def read_for_def Let_def)
qed

lemma last_watch:
  assumes "w < length W"
  shows "last (W[w := c]) = (if w = length W - 1 then c else last W)"
  using assms by (intro last_list_update) auto

lemma last_is_nth: "w < length W \<Longrightarrow> w = length W - 1 \<Longrightarrow> last W = W ! w"
  by (metis last_conv_nth length_0_conv less_zeroE)

lemma watch_request:
  assumes "watches_ok s" and "w < length (rd_watches s)" and "\<not> wt_cancelled (rd_watches s ! w)"
  shows "w = length (rd_watches s) - 1 \<and> rd_request s = Some (wt_request (rd_watches s ! w))"
proof -
  have w: "w = length (rd_watches s) - 1" and "rd_request s \<noteq> None" using assms by (auto simp: watches_ok_def)
  moreover have "rd_watches s ! w = last (rd_watches s)" using last_is_nth [OF assms(2) w] by simp
  ultimately show ?thesis using assms(1) by (auto simp: watches_ok_def)
qed

lemma fresh_same_watch:
  assumes "fresh s" and "rd_request s' = rd_request (rn_reader s)" and "rd_reads s' = rd_reads (rn_reader s)"
    and "rd_state s' = rd_state (rn_reader s)" and "length (rd_watches s') = length (rd_watches (rn_reader s))"
    and "rd_request s' \<noteq> None \<Longrightarrow> wt_ready (last (rd_watches s')) = wt_ready (last (rd_watches (rn_reader s)))
      \<and> wt_frame (last (rd_watches s')) = wt_frame (last (rd_watches (rn_reader s)))"
  shows "fresh (s\<lparr>rn_reader := s'\<rparr>)"
  using assms unfolding fresh_def awaits_news_def last_read_fresh_def shows_fresh_def Let_def by simp

lemma not_the_last:
  assumes "watches_ok s" and "w < length (rd_watches s)" and "wt_cancelled (rd_watches s ! w)" and "rd_request s \<noteq> None"
  shows "w \<noteq> length (rd_watches s) - 1"
  using assms by (auto simp: watches_ok_def last_conv_nth)

lemma fresh_attaches:
  assumes ok: "watches_ok (rn_reader s)" "tickets_ok s" and f: "fresh s"
  shows "fresh (reread_step H s (Attaches w))"
proof -
  let ?s = "rn_reader s" and ?c = "rd_watches (rn_reader s) ! w"
  consider "w < length (rd_watches ?s)" "wt_registered ?c" "\<not> wt_ready ?c" "wt_cancelled ?c"
    | "w < length (rd_watches ?s)" "wt_registered ?c" "\<not> wt_ready ?c" "\<not> wt_cancelled ?c"
    | "watch_attaches w ?s = ?s" unfolding watch_attaches_def by argo
  then show ?thesis
  proof cases
    case 1
    then have "rd_request ?s \<noteq> None \<Longrightarrow> w \<noteq> length (rd_watches ?s) - 1" using not_the_last [OF ok(1)] by blast
    with 1 f show ?thesis
      by (auto simp: watch_attaches_def on_watch_def last_watch intro!: fresh_same_watch)
  next
    case 2
    with watch_request [OF ok(1)] ok(2) show ?thesis by (auto simp: watch_attaches_def intro!: freshI_read)
  qed (use f in simp)
qed

lemma fresh_registers:
  assumes f: "fresh s"
  shows "fresh (reread_step H s (Registers w))"
proof (cases "w < length (rd_watches (rn_reader s)) \<and> \<not> wt_ready (rd_watches (rn_reader s) ! w)")
  case True
  let ?W = "rd_watches (rn_reader s)"
  have "wt_ready (last (?W[w := (?W ! w)\<lparr>wt_registered := True\<rparr>])) = wt_ready (last ?W)
    \<and> wt_frame (last (?W[w := (?W ! w)\<lparr>wt_registered := True\<rparr>])) = wt_frame (last ?W)"
    using True last_is_nth [of w ?W] by (auto simp: last_watch)
  with True f show ?thesis by (auto simp: on_watch_def intro!: fresh_same_watch)
qed (use f in auto)

lemma fresh_changes:
  assumes ok: "watches_ok (rn_reader s)" and ev: "rh_listens H ev"
  shows "fresh (reread_step H s (Changes repo ev))"
proof -
  let ?s = "rn_reader s"
  have "(length (rd_watches ?s) - 1, ev) \<in> set (heard_by ?s ev)"
    if r: "rd_request ?s = Some r" and ready: "wt_ready (last (rd_watches ?s))" for r
  proof -
    have ne: "rd_watches ?s \<noteq> []" and "wt_registered (last (rd_watches ?s))"
      using ok r ready by (auto simp: watches_ok_def)
    then show ?thesis by (auto simp: heard_by_def last_conv_nth)
  qed
  then show ?thesis using ev by (auto simp: fresh_def awaits_news_def)
qed

lemma fresh_hears:
  assumes ok: "watches_ok (rn_reader s)" and f: "fresh s" and op: "orderly_op H s (Hears w ev)"
  shows "fresh (reread_step H s (Hears w ev))"
proof (cases "(w, ev) \<in> set (rn_events s)")
  case heard: True
  let ?s = "rn_reader s"
  have w: "w < length (rd_watches ?s)" "\<not> wt_cancelled (rd_watches ?s ! w)" using op by auto
  have lastw: "w = length (rd_watches ?s) - 1" "last (rd_watches ?s) = rd_watches ?s ! w"
    using watch_request [OF ok w] last_is_nth [OF w(1)] by auto
  show ?thesis
  proof (cases "rh_listens H ev")
    case True
    show ?thesis
    proof (cases "wt_registered (rd_watches ?s ! w)")
      case True
      with \<open>rh_listens H ev\<close> heard w lastw show ?thesis
        by (auto simp: watch_hears_def on_watch_def fresh_def awaits_news_def last_watch)
    next
      case False
      then have "\<not> wt_ready (rd_watches ?s ! w)" using watch_flags(2) [OF ok w(1)] w(2) by blast
      with False heard lastw(2) show ?thesis by (auto simp: watch_hears_def fresh_def)
    qed
  next
    case False
    have "(v, e) \<in> set (remove1 (w, ev) (rn_events s)) \<longleftrightarrow> (v, e) \<in> set (rn_events s)" if "rh_listens H e" for v e
      using that False by (metis in_set_remove1 prod.inject)
    with False heard f show ?thesis
      unfolding fresh_def awaits_news_def last_read_fresh_def shows_fresh_def Let_def by (auto simp: watch_hears_def)
  qed
qed (use f in simp)

lemma fresh_replied:
  assumes ok: "tickets_ok s" and f: "fresh s" and r: "unanswered t s = Some r"
    and a: "\<And>v. answer = Inl v \<Longrightarrow> v = rn_repo s r"
  shows "fresh (s\<lparr>rn_answers := rn_answers s @ [(t, answer)], rn_served := sv\<rparr>)"
proof -
  have t: "t \<notin> fst ` set (rn_answers s)" and tr: "map_of (rd_reads (rn_reader s)) t = Some r"
    using r by (auto simp: unanswered_def split: if_splits)
  let ?q = "last (rd_reads (rn_reader s))"
  have mine: "r = snd ?q" if "t = fst ?q" "rd_reads (rn_reader s) \<noteq> []"
  proof -
    have "map_of (rd_reads (rn_reader s)) (fst ?q) = Some (snd ?q)"
      using ok that(2) by (intro map_of_is_SomeI) (auto simp: tickets_ok_def)
    with tr that(1) show ?thesis by simp
  qed
  have "last_read_fresh x s \<Longrightarrow> last_read_fresh x (s\<lparr>rn_answers := rn_answers s @ [(t, answer)], rn_served := sv\<rparr>)" for x
    using mine a t by (auto simp: last_read_fresh_def Let_def map_add_Some_iff map_of_eq_None_iff split: if_splits)
  with f show ?thesis by (auto simp: fresh_def awaits_news_def shows_fresh_def)
qed

lemma fresh_arrives:
  assumes ok: "tickets_ok s" and f: "fresh s" and op: "orderly_op H s (Arrives t)"
  shows "fresh (reread_step H s (Arrives t))"
proof (cases "map_of (rn_answers s) t")
  case (Some answer)
  obtain q qs where reads: "rd_reads (rn_reader s) = q # qs" and t: "t = fst q"
    using op by (cases "rd_reads (rn_reader s)") auto
  have got: "map_of (rn_answers s) (fst q) = Some answer" using Some t by simp
  have others: "filter (\<lambda>x. fst x \<noteq> fst q) qs = qs"
  proof (rule filter_eq_self)
    fix x assume "x \<in> set qs"
    then have "fst x \<in> fst ` set qs" by (rule imageI)
    moreover have "fst q \<notin> fst ` set qs" using ok reads by (simp add: tickets_ok_def)
    ultimately show "fst x \<noteq> fst q" by metis
  qed
  have kept: "fst (last qs) \<noteq> fst q" if "qs \<noteq> []"
    using ok reads that by (auto simp: tickets_ok_def) (metis image_eqI last_in_set)
  let ?s = "reread_step H s (Arrives t)"
  have same: "awaits_news ?s = awaits_news s" "rd_request (rn_reader ?s) = rd_request (rn_reader s)"
    "rd_watches (rn_reader ?s) = rd_watches (rn_reader s)" "rn_repo ?s = rn_repo s" "rd_reads (rn_reader ?s) = qs"
    by (auto simp: awaits_news_def reread_settles_def got reads t others)
  have later: "last_read_fresh x ?s" if "last_read_fresh x s" "qs \<noteq> []" for x
    using that kept by (auto simp: last_read_fresh_def Let_def got reads t reread_settles_def others map_of_without)
  have now: "shows_fresh x ?s" if "last_read_fresh x s" "qs = []" for x
    using that by (cases answer)
      (auto simp: last_read_fresh_def shows_fresh_def Let_def got reads t reread_settles_def answer_holds refuse_failed)
  have "\<not> shows_fresh x s" for x by (simp add: shows_fresh_def reads)
  with f later now show ?thesis unfolding fresh_def same by blast
qed (use f in simp)

lemma fresh_step:
  assumes ok: "watches_ok (rn_reader s)" "tickets_ok s" and f: "fresh s" and op: "orderly_op H s op"
  shows "fresh (reread_step H s op)"
proof (cases op)
  case (Renders request)
  then show ?thesis
    using f by (cases "request = rd_request (rn_reader s)"; cases request)
      (auto simp: fresh_def reader_commit_def Let_def watch_starts_def)
next
  case (AttachFails w reason)
  then show ?thesis
    using f detached_keeps unfolding fresh_def awaits_news_def last_read_fresh_def shows_fresh_def Let_def by simp blast
next
  case (FrameFires w)
  then show ?thesis
    using f ok(2) watch_flags(1) [OF ok(1), of w] watch_request [OF ok(1), of w]
    by (cases "wt_cancelled (rd_watches (rn_reader s) ! w)") (auto simp: reread_frame_fires_def intro!: freshI_read)
next
  case Reconciles
  then show ?thesis using f ok(2) by (auto simp: reader_refresh_def intro!: freshI_read split: option.splits)
next
  case (Changes repo ev)
  then show ?thesis using op fresh_changes [OF ok(1)] by simp
next
  case (Announces ev)
  then show ?thesis
    using f unfolding fresh_def awaits_news_def last_read_fresh_def shows_fresh_def Let_def by auto
next
  case (Answers t)
  show ?thesis
  proof (cases "unanswered t s")
    case (Some r)
    then show ?thesis using Answers fresh_replied [OF ok(2) f Some, of "Inl (rn_repo s r)"] by simp
  qed (use Answers f in simp)
next
  case (Refuses t reason)
  show ?thesis
  proof (cases "unanswered t s")
    case (Some r)
    then show ?thesis using Refuses fresh_replied [OF ok(2) f Some, of "Inr reason" "rn_served s"] by simp
  qed (use Refuses f in simp)
qed (use ok f op fresh_attaches fresh_registers fresh_changes fresh_hears fresh_arrives in \<open>auto simp del: reread_step.simps orderly_op.simps\<close>)

lemma run_fresh:
  assumes "watches_ok (rn_reader s)" and "tickets_ok s" and "fresh s" and "orderly_run H s ops"
  shows "fresh (foldl (reread_step H) s ops)"
  using assms
proof (induction ops arbitrary: s)
  case (Cons op ops)
  then show ?case by (simp add: watches_step tickets_step fresh_step del: reread_step.simps)
qed simp

lemma init_fresh: "watches_ok (rn_reader (reread_init z repo)) \<and> tickets_ok (reread_init z repo) \<and> fresh (reread_init z repo)"
  by (simp add: reread_init_def mounted_def watches_ok_def tickets_ok_def fresh_def)

text \<open>After an orderly run, a settled hook shows what a read would answer now, or that it failed.\<close>

lemma settled_is_current:
  assumes "orderly_run H (reread_init z repo) ops"
    and "s = foldl (reread_step H) (reread_init z repo) ops" and "run_settled H s r"
  shows "failed (rd_state (rn_reader s)) \<or> holds (rd_state (rn_reader s)) r (rn_repo s r)"
proof -
  have "fresh s" using run_fresh assms(1) init_fresh unfolding assms(2) by blast
  with assms(3) show ?thesis
    unfolding fresh_def awaits_news_def last_read_fresh_def shows_fresh_def run_settled_def Let_def by fastforce
qed

end

text \<open>A hook that shows only what was answered, whatever the order of the answers.\<close>

locale faithful_rereader = rereader H holds failed
  for H :: "('r, 'v, 'z) ReadHook" and holds :: "'z \<Rightarrow> 'r \<Rightarrow> 'v \<Rightarrow> bool" and failed :: "'z \<Rightarrow> bool" +
  assumes answer_only: "holds (rh_answer H r v z) r' v' \<Longrightarrow> r' = r \<and> v' = v"
    and refuse_keeps: "holds (rh_refuse H reason z) r v \<Longrightarrow> holds z r v"
    and detached_only: "holds (rh_detached H reason z) r v \<Longrightarrow> holds z r v"
begin

definition honest :: "('r, 'v, 'z) RereadRun \<Rightarrow> bool" where
  "honest s \<longleftrightarrow> (\<forall>r v. holds (rd_state (rn_reader s)) r v \<longrightarrow> (r, v) \<in> set (rn_served s))
     \<and> (\<forall>t v r. map_of (rn_answers s) t = Some (Inl v) \<longrightarrow> map_of (rd_reads (rn_reader s)) t = Some r \<longrightarrow> (r, v) \<in> set (rn_served s))"

lemma honest_same:
  assumes "honest s" and "rd_state s' = rd_state (rn_reader s)" and "rd_reads s' = rd_reads (rn_reader s)"
  shows "honest (s\<lparr>rn_reader := s'\<rparr>)"
  using assms by (simp add: honest_def)

lemma honest_read:
  assumes "honest s" and "tickets_ok s" and "rd_state s' = rd_state (rn_reader s)"
    and "rd_reads s' = rd_reads (rn_reader s)" and "rd_issued s' = rd_issued (rn_reader s)"
  shows "honest (s\<lparr>rn_reader := read_for r s'\<rparr>)"
proof -
  have "map_of (rn_answers s) (rd_issued (rn_reader s)) = None"
    using assms(2) by (auto simp: tickets_ok_def map_of_eq_None_iff)
  then show ?thesis
    using assms by (auto simp: honest_def read_for_def map_add_Some_iff split: if_splits)
qed

lemma honest_step:
  assumes ok: "tickets_ok s" and h: "honest s"
  shows "honest (reread_step H s op)"
proof (cases op)
  case (Attaches w)
  then show ?thesis
    using h ok by (cases "wt_cancelled (rd_watches (rn_reader s) ! w)")
      (auto simp: watch_attaches_def honest_same intro!: honest_read)
next
  case (FrameFires w)
  then show ?thesis using h ok by (auto simp: reread_frame_fires_def honest_same intro!: honest_read)
next
  case Reconciles
  then show ?thesis using h ok by (auto simp: reader_refresh_def intro!: honest_read split: option.splits)
next
  case (Hears w ev)
  then show ?thesis using h by (auto simp: watch_hears_def honest_def)
next
  case (AttachFails w reason)
  then show ?thesis using h detached_only by (auto simp: honest_def)
next
  case (Answers t)
  then show ?thesis
    using h by (fastforce simp: honest_def unanswered_def map_add_Some_iff split: option.splits if_splits)
next
  case (Refuses t reason)
  then show ?thesis
    using h by (fastforce simp: honest_def unanswered_def map_add_Some_iff split: option.splits if_splits)
next
  case (Arrives t)
  show ?thesis
  proof (cases "map_of (rn_answers s) t")
    case (Some answer)
    with Arrives h show ?thesis
      by (cases answer) (auto simp: honest_def reread_settles_def map_of_without dest: answer_only refuse_keeps split: option.splits if_splits)
  qed (use Arrives h in simp)
qed (use h in \<open>auto simp: honest_same honest_def\<close>)

text \<open>Whatever is shown for a request was an answer to that request.\<close>

lemma shown_was_served:
  assumes "\<And>r v. \<not> holds z r v" and "s = foldl (reread_step H) (reread_init z repo) ops" and "holds (rd_state (rn_reader s)) r v"
  shows "(r, v) \<in> set (rn_served s)"
proof -
  have "tickets_ok s \<and> honest s"
    unfolding assms(2)
  proof (induction ops rule: rev_induct)
    case Nil
    show ?case using assms(1) init_fresh by (simp add: honest_def reread_init_def mounted_def tickets_ok_def)
  next
    case (snoc op ops)
    then show ?case by (simp add: tickets_step honest_step del: reread_step.simps)
  qed
  with assms(3) show ?thesis by (simp add: honest_def)
qed

end

end
