(* ===== verification/GitDomain.thy ===== *)
theory GitDomain
  imports Domain
begin

section \<open>The wire shapes of repository surfaces\<close>

text \<open>
  The shapes of \<open>domain.ts\<close> that the repository hooks read and send: the working tree's status,
  branches, diffs, and pull requests with their reviews and handoffs.
\<close>

record GitChangeCounts =
  gn_added :: int
  gn_removed :: int

record GitStatus =
  gt_branch :: BranchInfo
  gt_changes :: "FileChange list"
  gt_merging :: bool
  gt_capabilities :: GitCapabilities
  gt_changeCounts :: GitChangeCounts
  gt_lineCounts :: GitLineCounts

record Branch =
  bh_name :: jstring
  bh_upstream :: "jstring option"
  bh_head :: bool

record Branches =
  bs_entries :: "Branch list"
  bs_stashed :: bool

datatype DiffTarget = StagedDiff | UnstagedDiff | HeadDiff | UntrackedDiff

datatype DiffExtent = Capped | Full

record FileDiff =
  fd_path :: jstring
  fd_original_path :: "jstring option"
  fd_target :: DiffTarget
  fd_binary :: bool
  fd_patch :: jstring
  fd_hunks :: "HunkRange list"
  fd_truncated :: bool

record FileContent =
  ft_text :: "jstring option"
  ft_truncated :: bool

datatype ForgeReadiness = ForgeMissing | ForgeLoggedOut | ForgeReady

datatype PullRequestState = PullOpen | PullClosed | PullMerged

record PullRequest =
  pq_number :: int
  pq_url :: jstring
  pq_title :: jstring
  pq_state :: PullRequestState
  pq_draft :: bool
  pq_base :: jstring
  pq_head :: jstring

record PullRequestTemplate =
  pqt_name :: jstring
  pqt_body :: jstring

record PullRequestSuggestion =
  pqs_title :: jstring
  pqs_body :: jstring

record PullRequestSurface =
  psf_readiness :: ForgeReadiness
  psf_head :: "jstring option"
  psf_base :: "jstring option"
  psf_existing :: "PullRequest option"
  psf_templates :: "PullRequestTemplate list"
  psf_merge_methods :: "MergeMethod list"
  psf_suggestion :: "PullRequestSuggestion option"

record CheckRun =
  cr_name :: jstring
  cr_state :: CheckState
  cr_workflow :: "jstring option"
  cr_url :: "jstring option"

record PullRequestReview =
  prv_pull_request :: PullRequest
  prv_checks :: "CheckRun list"
  prv_threads :: "ReviewThread list"

datatype HandoffSubject = AboutCheck jstring | AboutThread jstring

datatype Handoff = Delivered_to int jstring | CopyText jstring

record NewPullRequest =
  npr_title :: jstring
  npr_body :: jstring
  npr_base :: jstring
  npr_draft :: bool

end
