(* ===== verification/RepositoryReads.thy ===== *)
theory RepositoryReads
  imports Rereading GitDomain GitDisplay GitTree Status
begin

section \<open>Reads of a repository\<close>

text \<open>
  \<open>store/git/useRepositoryRead.ts\<close> on the machinery of \<open>Rereading\<close>, the requests the repository hooks
  name with it (\<open>useGitStatus\<close>, \<open>useGitFiles\<close>, \<open>useFilePreview\<close>, \<open>useGitDiff\<close>, \<open>useCommitTemplate\<close>,
  \<open>useGitWrite\<close>, \<open>useGitSync\<close>, \<open>usePullRequest\<close>, \<open>usePullRequestReview\<close>), and the small surfaces
  beside them: \<open>useDiffSelection\<close>, \<open>useTreeExpansion\<close>, \<open>handoffTarget\<close>.
\<close>

subsection \<open>The hook\<close>

record 'v RepositoryRead =
  rr_answered :: "jstring option"
  rr_snapshot :: "'v option"
  rr_error :: "jstring option"

definition SNAPSHOT_EVENTS :: "DomainEvent \<Rightarrow> bool" where
  "SNAPSHOT_EVENTS ev = (case ev of EvGitStatusChanged _ \<Rightarrow> True | _ \<Rightarrow> False)"

definition useRepositoryRead :: "(jstring, 'v, 'v RepositoryRead) ReadHook" where
  "useRepositoryRead = \<lparr>
     rh_answer = (\<lambda>request v z. z\<lparr>rr_answered := Some request, rr_snapshot := Some v, rr_error := None\<rparr>),
     rh_refuse = (\<lambda>reason z. z\<lparr>rr_error := Some reason\<rparr>),
     rh_detached = (\<lambda>reason z. z\<lparr>rr_error := Some reason\<rparr>),
     rh_listens = SNAPSHOT_EVENTS\<rparr>"

definition repository_unread :: "'v RepositoryRead" where
  "repository_unread = \<lparr>rr_answered = None, rr_snapshot = None, rr_error = None\<rparr>"

definition read_value :: "(jstring, 'v RepositoryRead) Reader \<Rightarrow> 'v option" where
  "read_value s = (if rr_answered (rd_state s) = rd_request s \<or> rd_request s = None then rr_snapshot (rd_state s) else None)"

definition read_loading :: "(jstring, 'v RepositoryRead) Reader \<Rightarrow> bool" where
  "read_loading s \<longleftrightarrow> rd_request s \<noteq> None \<and> rr_answered (rd_state s) \<noteq> rd_request s"

definition read_run :: "(jstring \<Rightarrow> 'v) \<Rightarrow> (jstring, 'v) RereadOp list \<Rightarrow> (jstring, 'v, 'v RepositoryRead) RereadRun" where
  "read_run repo ops = foldl (reread_step useRepositoryRead) (reread_init repository_unread repo) ops"

definition answer_held :: "'v RepositoryRead \<Rightarrow> jstring \<Rightarrow> 'v \<Rightarrow> bool" where
  "answer_held z r v \<longleftrightarrow> rr_answered z = Some r \<and> rr_snapshot z = Some v"

definition read_failed :: "'v RepositoryRead \<Rightarrow> bool" where
  "read_failed z \<longleftrightarrow> rr_error z \<noteq> None"

interpretation repository: faithful_rereader useRepositoryRead answer_held read_failed
  by unfold_locales (auto simp: useRepositoryRead_def answer_held_def read_failed_def)


text \<open>
  C7. An answer captured for one request is never shown for another: whatever the order of the
  answers, a value shown while a request stands was an answer to a read of that request.
\<close>

theorem repository_value_belongs_to_request:
  assumes "rd_request (rn_reader (read_run repo ops)) = Some r" and "read_value (rn_reader (read_run repo ops)) = Some v"
  shows "(r, v) \<in> set (rn_served (read_run repo ops))"
proof (rule repository.shown_was_served)
  show "\<not> answer_held repository_unread r v" for r v by (simp add: answer_held_def repository_unread_def)
  show "answer_held (rd_state (rn_reader (read_run repo ops))) r v"
    using assms by (auto simp: answer_held_def read_value_def split: if_splits)
qed (rule read_run_def)

lemmas repository_eval = read_run_def reread_init_def repository_unread_def mounted_def useRepositoryRead_def
  heard_by_def unanswered_def SNAPSHOT_EVENTS_def read_value_def read_loading_def run_settled_def reader_defs


theorem repository_value_belongs_to_request_witness:
  "(lit ''1'', 5 :: int) \<in> set (rn_served (read_run (\<lambda>_. 5)
     [Renders (Some (lit ''1'')), Registers 0, Attaches 0, Reconciles, Answers 1, Answers 0, Arrives 1]))"
  by (rule repository_value_belongs_to_request) (simp_all add: repository_eval)

text \<open>
  Answers may overtake each other, and nothing in the hook orders them: of two reads of one
  request the older answer, landing last, is what stays on screen, with nothing outstanding and
  no error, although the newer one was already shown.
\<close>

theorem overtaken_answer_wins:
  "let ev = EvGitStatusChanged 1;
       s = read_run (\<lambda>_. 0 :: int) [Renders (Some (lit ''1'')), Registers 0, Attaches 0, Answers 0, Changes (\<lambda>_. 1) ev,
          Hears 0 ev, FrameFires 0, Answers 1, Arrives 1];
       t = reread_step useRepositoryRead s (Arrives 0)
   in read_value (rn_reader s) = Some 1 \<and> run_settled useRepositoryRead t (lit ''1'') \<and> rn_repo t (lit ''1'') = 1
      \<and> rr_error (rd_state (rn_reader t)) = None \<and> read_value (rn_reader t) = Some 0"
  by code_simp

text \<open>
  A late answer for an abandoned request replaces the snapshot of the one on screen: the
  surface, which had its own answer, goes back to reporting nothing and loading, with no read
  outstanding that would end it.
\<close>

theorem abandoned_answer_blanks_surface:
  "let s = read_run (\<lambda>r. r) [Renders (Some (lit ''1'')), Registers 0, Attaches 0, Answers 0,
          Renders (Some (lit ''2'')), Registers 1, Attaches 1, Answers 1, Arrives 1];
       t = reread_step useRepositoryRead s (Arrives 0)
   in read_value (rn_reader s) = Some (lit ''2'') \<and> run_settled useRepositoryRead t (lit ''2'')
      \<and> read_value (rn_reader t) = None \<and> read_loading (rn_reader t)"
  by code_simp

subsection \<open>The requests\<close>

definition status_request :: "int option \<Rightarrow> jstring option" where
  "status_request project = map_option show_int project"

definition files_request :: "int option \<Rightarrow> bool \<Rightarrow> jstring option" where
  "files_request project active = (case project of None \<Rightarrow> None | Some p \<Rightarrow> if \<not> active then None else Some (show_int p))"

definition preview_request :: "int option \<Rightarrow> jstring option \<Rightarrow> jstring option" where
  "preview_request project path =
     (case (project, path) of (Some p, Some f) \<Rightarrow> Some (show_int p @ lit '' '' @ f) | _ \<Rightarrow> None)"

definition template_request :: "int option \<Rightarrow> bool \<Rightarrow> jstring option" where
  "template_request project trusted =
     (case project of None \<Rightarrow> None | Some p \<Rightarrow> if \<not> trusted then None else Some (lit ''template '' @ show_int p))"

definition trusted_request :: "int option \<Rightarrow> jstring option" where
  "trusted_request project = map_option (\<lambda>p. lit ''trusted '' @ show_int p) project"

definition branches_request :: "int option \<Rightarrow> bool \<Rightarrow> jstring option" where
  "branches_request project listing =
     (case project of None \<Rightarrow> None | Some p \<Rightarrow> if \<not> listing then None else Some (lit ''branches '' @ show_int p))"

definition surface_request :: "int option \<Rightarrow> jstring option" where
  "surface_request project = map_option (\<lambda>p. lit ''pull request '' @ show_int p) project"

definition review_request :: "int option \<Rightarrow> jstring option" where
  "review_request project = map_option (\<lambda>p. lit ''pull request review '' @ show_int p) project"

definition useAssistTool :: "'tool option option \<Rightarrow> bool" where
  "useAssistTool value = (case value of Some (Some _) \<Rightarrow> True | _ \<Rightarrow> False)"

subsection \<open>One path's diff\<close>

definition show_target :: "DiffTarget \<Rightarrow> jstring" where
  "show_target target = (case target of StagedDiff \<Rightarrow> lit ''staged'' | UnstagedDiff \<Rightarrow> lit ''unstaged''
     | HeadDiff \<Rightarrow> lit ''head'' | UntrackedDiff \<Rightarrow> lit ''untracked'')"

definition show_extent :: "DiffExtent \<Rightarrow> jstring" where
  "show_extent extent = (case extent of Capped \<Rightarrow> lit ''capped'' | Full \<Rightarrow> lit ''full'')"

definition diff_request :: "int option \<Rightarrow> jstring option \<Rightarrow> DiffTarget \<Rightarrow> jstring option" where
  "diff_request project path target =
     (case (project, path) of (Some p, Some f) \<Rightarrow> Some (show_int p @ lit '' '' @ show_target target @ lit '' '' @ f) | _ \<Rightarrow> None)"

definition diff_extent :: "jstring option \<Rightarrow> jstring option \<Rightarrow> DiffExtent" where
  "diff_extent asked request = (if asked \<noteq> None \<and> asked = request then Full else Capped)"

definition loadFull :: "jstring option \<Rightarrow> jstring option" where
  "loadFull request = request"

definition diff_read_request :: "jstring option \<Rightarrow> jstring option \<Rightarrow> jstring option" where
  "diff_read_request asked request =
     map_option (\<lambda>r. r @ lit '' '' @ show_extent (diff_extent asked request)) request"

text \<open>The answers of each hook, \<open>None\<close> where the source's read resolves to \<open>null\<close>.\<close>

type_synonym GitStatusRead = "(jstring, GitStatus option RepositoryRead) Reader"
type_synonym GitDiffRead = "(jstring, FileDiff option RepositoryRead) Reader"
type_synonym FilePreviewRead = "(jstring, FileContent option RepositoryRead) Reader"
type_synonym BranchesRead = "(jstring, Branches option RepositoryRead) Reader"
type_synonym SurfaceRead = "(jstring, PullRequestSurface RepositoryRead) Reader"
type_synonym ReviewRead = "(jstring, PullRequestReview RepositoryRead) Reader"

definition useGitStatus :: "GitStatusRead \<Rightarrow> GitStatus option" where
  "useGitStatus s = (case read_value s of Some (Some st) \<Rightarrow> Some st | _ \<Rightarrow> None)"

definition useGitDiff :: "GitDiffRead \<Rightarrow> FileDiff option" where
  "useGitDiff s = (case read_value s of Some (Some d) \<Rightarrow> Some d | _ \<Rightarrow> None)"

definition useFilePreview :: "FilePreviewRead \<Rightarrow> FileContent option" where
  "useFilePreview s = (case read_value s of Some (Some c) \<Rightarrow> Some c | _ \<Rightarrow> None)"

lemma space_free: "32 \<notin> set (show_int i)" "32 \<notin> set (show_target t)" "32 \<notin> set (show_extent e)"
  using show_int_units [of 32 i]
  by (auto simp: int_unit_def is_digit_unit_def show_target_def show_extent_def lit_def split: DiffTarget.splits DiffExtent.splits)

lemma show_target_inj: "show_target t = show_target t' \<Longrightarrow> t = t'"
  by (auto simp: show_target_def split: DiffTarget.splits)

lemma show_extent_inj: "show_extent e = show_extent e' \<Longrightarrow> e = e'"
  by (auto simp: show_extent_def split: DiffExtent.splits)

lemma diff_request_inj:
  "diff_request (Some p) (Some f) t = diff_request (Some p') (Some f') t' \<longleftrightarrow> p = p' \<and> f = f' \<and> t = t'"
proof
  assume "diff_request (Some p) (Some f) t = diff_request (Some p') (Some f') t'"
  then have "show_int p @ 32 # show_target t @ 32 # f = show_int p' @ 32 # show_target t' @ 32 # f'"
    by (simp add: diff_request_def lit_def)
  then have "p = p'" and rest: "show_target t @ 32 # f = show_target t' @ 32 # f'"
    by (simp_all add: number_then_sep_inj int_unit_def is_digit_unit_def)
  then have "show_target t = show_target t'"
    using split_on_append [OF space_free(2), of t f] split_on_append [OF space_free(2), of t' f'] by (metis list.inject)
  with rest \<open>p = p'\<close> show "p = p' \<and> f = f' \<and> t = t'" by (auto dest: show_target_inj)
qed simp

text \<open>
  A diff is kept apart from every other: the request a diff is read under determines the
  project, the path, the comparison and how much was asked for, whatever text the path holds;
  and asking for the whole of one diff leaves every other one capped.
\<close>

theorem diff_requests_separate:
  "(diff_read_request asked (diff_request (Some p) (Some f) t) = diff_read_request asked' (diff_request (Some p') (Some f') t')
    \<longleftrightarrow> p = p' \<and> f = f' \<and> t = t'
      \<and> diff_extent asked (diff_request (Some p) (Some f) t) = diff_extent asked' (diff_request (Some p') (Some f') t'))
   \<and> (diff_extent (loadFull (diff_request (Some p) (Some f) t)) (diff_request (Some p') (Some f') t') = Full
    \<longleftrightarrow> p = p' \<and> f = f' \<and> t = t')"
  (is "?keys \<and> ?full")
proof
  obtain r r' where r: "diff_request (Some p) (Some f) t = Some r" "diff_request (Some p') (Some f') t' = Some r'"
    by (simp add: diff_request_def)
  have key: "(x @ 32 # show_extent e = y @ 32 # show_extent e') = (x = y \<and> e = e')" for x y e e'
    using split_last_unique [of x 32 "show_extent e" y "show_extent e'"] space_free(3) show_extent_inj by blast
  then show ?keys
    using diff_request_inj [of p f t p' f' t'] by (auto simp: diff_read_request_def r lit_def)
  show ?full
    using diff_request_inj [of p f t p' f' t'] by (auto simp: diff_extent_def loadFull_def r)
qed

subsection \<open>What the split shows, and where a handoff goes\<close>

datatype SplitView = ChangeSelection jstring | FileSelection jstring | PullRequestSelection

type_synonym DiffSelection = "(int option \<times> SplitView) option"

definition open_selection :: "int option \<Rightarrow> SplitView \<Rightarrow> DiffSelection" where
  "open_selection project view = Some (project, view)"

definition close_selection :: DiffSelection where
  "close_selection = None"

definition useDiffSelection :: "int option \<Rightarrow> DiffSelection \<Rightarrow> SplitView option" where
  "useDiffSelection project held = (case held of None \<Rightarrow> None | Some (p, view) \<Rightarrow> if p = project then Some view else None)"

definition handoffTarget :: "ProcessView option \<Rightarrow> int option \<Rightarrow> int option" where
  "handoffTarget selected project =
     (case (selected, project) of
        (Some p, Some q) \<Rightarrow>
          (if pv_project p \<noteq> q then None
           else if pv_kind p \<noteq> Agent \<or> pv_status p \<noteq> Running then None else Some (pv_id p))
      | _ \<Rightarrow> None)"

subsection \<open>Which folders are open\<close>

definition tree_folders :: "GitTree option \<Rightarrow> jstring list" where
  "tree_folders tree = (case tree of None \<Rightarrow> [] | Some t \<Rightarrow> folderPaths t)"

definition expanded :: "jstring list \<Rightarrow> jstring list \<Rightarrow> bool \<Rightarrow> jstring list" where
  "expanded folders toggled openByDefault = filter (\<lambda>path. (path \<in> set toggled) \<noteq> openByDefault) folders"

definition allExpanded :: "jstring list \<Rightarrow> jstring list \<Rightarrow> bool \<Rightarrow> bool" where
  "allExpanded folders toggled openByDefault \<longleftrightarrow>
     length folders > 0 \<and> length (expanded folders toggled openByDefault) = length folders"

definition setExpanded :: "jstring list \<Rightarrow> bool \<Rightarrow> jstring list \<Rightarrow> jstring list" where
  "setExpanded folders openByDefault opened = filter (\<lambda>path. (path \<in> set opened) \<noteq> openByDefault) folders"

definition updateExpanded ::
  "jstring list \<Rightarrow> jstring list \<Rightarrow> bool \<Rightarrow> (jstring list \<Rightarrow> jstring list) \<Rightarrow> jstring list" where
  "updateExpanded folders toggled openByDefault f = setExpanded folders openByDefault (f (expanded folders toggled openByDefault))"

definition toggleAll :: "jstring list \<Rightarrow> jstring list \<Rightarrow> bool \<Rightarrow> jstring list" where
  "toggleAll folders toggled openByDefault =
     (if (\<not> allExpanded folders toggled openByDefault) \<noteq> openByDefault then folders else [])"

lemma expanded_set: "expanded folders (setExpanded folders d opened) d = filter (\<lambda>p. p \<in> set opened) folders"
  unfolding expanded_def setExpanded_def by (rule filter_cong) auto

lemma expanded_all: "expanded folders (if e \<noteq> d then folders else []) d = (if e then folders else [])"
  unfolding expanded_def by (cases e; cases d) simp_all

lemma updated_subset: "set (updateExpanded folders toggled d f) \<subseteq> set folders"
  by (auto simp: updateExpanded_def setExpanded_def)

text \<open>
  The tree's open folders are what was asked: telling the tree which folders are open leaves
  exactly those of the listing open; the header control opens every folder unless all are open,
  and then closes every one, whatever the default and whatever was toggled before.
\<close>

theorem tree_expansion_controls:
  "expanded folders (setExpanded folders d opened) d = filter (\<lambda>p. p \<in> set opened) folders
   \<and> expanded folders (toggleAll folders toggled d) d = (if allExpanded folders toggled d then [] else folders)
   \<and> set (updateExpanded folders toggled d f) \<subseteq> set folders"
  using expanded_set updated_subset expanded_all [of folders "\<not> allExpanded folders toggled d" d]
  by (simp add: toggleAll_def)

end
