(* ===== verification/GitActions.thy ===== *)
theory GitActions
  imports RepositoryReads
begin

section \<open>Changes to a repository\<close>

text \<open>
  \<open>store/git/useGitActions.ts\<close>, and what is tracked with it: the changes to paths and hunks of
  \<open>useGitWrite\<close>, the whole-repository actions of \<open>useGitSync\<close> with the exchange that can be stopped,
  the proposal and the drafts of \<open>usePullRequest\<close> and \<open>useCommitMessageDraft\<close>, and the polled review of
  \<open>usePullRequestReview\<close>. A call of the core is a ticket that is carried out or refused later.
\<close>

subsection \<open>The calls\<close>

datatype GitCall =
    GitTrust | GitStage jstring | GitUnstage jstring | GitDiscard jstring | GitOpen jstring
  | GitStageHunk jstring HunkRange | GitUnstageHunk jstring HunkRange | GitDiscardHunk jstring HunkRange
  | GitCommit jstring bool
  | GitFetch | GitPull | GitPush | GitCreateBranch jstring | GitSwitchBranch jstring | GitDeleteBranch jstring
  | GitStash | GitPopStash | GitAbortMerge
  | GitCreatePullRequest NewPullRequest | GitMergePullRequest int MergeMethod

subsection \<open>What is in flight\<close>

record GitActions =
  ga_running :: "jstring list"
  ga_error :: "jstring option"
  ga_inflight :: "(nat \<times> jstring \<times> int \<times> GitCall) list"
  ga_issued :: nat
  ga_settled :: "(nat \<times> bool) list"

definition useGitActions :: GitActions where
  "useGitActions = \<lparr>ga_running = [], ga_error = None, ga_inflight = [], ga_issued = 0, ga_settled = []\<rparr>"

definition busy :: "GitActions \<Rightarrow> jstring \<Rightarrow> bool" where
  "busy s key \<longleftrightarrow> key \<in> set (ga_running s)"

definition dismissError :: "GitActions \<Rightarrow> GitActions" where
  "dismissError s = s\<lparr>ga_error := None\<rparr>"

definition run_action :: "jstring \<Rightarrow> int \<Rightarrow> GitCall \<Rightarrow> GitActions \<Rightarrow> GitActions" where
  "run_action key project call s = s\<lparr>ga_running := List.insert key (ga_running s), ga_error := None,
     ga_inflight := ga_inflight s @ [(ga_issued s, key, project, call)], ga_issued := ga_issued s + 1\<rparr>"

text \<open>The handlers that end an action; \<open>expected\<close> is asked at the refusal.\<close>

definition action_ends :: "nat \<Rightarrow> bool \<Rightarrow> GitActions \<Rightarrow> GitActions" where
  "action_ends t done s =
     (case map_of (ga_inflight s) t of None \<Rightarrow> s
      | Some (key, _) \<Rightarrow> s\<lparr>ga_running := removeAll key (ga_running s),
          ga_inflight := filter (\<lambda>a. fst a \<noteq> t) (ga_inflight s), ga_settled := ga_settled s @ [(t, done)]\<rparr>)"

definition action_carried_out :: "nat \<Rightarrow> GitActions \<Rightarrow> GitActions" where
  "action_carried_out t s = action_ends t True s"

definition action_refused :: "nat \<Rightarrow> jstring \<Rightarrow> bool \<Rightarrow> GitActions \<Rightarrow> GitActions" where
  "action_refused t reason expected s =
     (if map_of (ga_inflight s) t = None then s
      else action_ends t False (if expected then s else s\<lparr>ga_error := Some reason\<rparr>))"

definition on_project :: "int option \<Rightarrow> jstring \<Rightarrow> GitCall \<Rightarrow> GitActions \<Rightarrow> GitActions" where
  "on_project project key call s = (case project of None \<Rightarrow> s | Some p \<Rightarrow> run_action key p call s)"

subsection \<open>Changes to paths, and a commit\<close>

definition TRUST :: jstring where "TRUST = []"
definition COMMIT :: jstring where "COMMIT = lit '' commit''"

fun write_key :: "GitCall \<Rightarrow> jstring" where
  "write_key (GitStage path) = path"
| "write_key (GitUnstage path) = path"
| "write_key (GitDiscard path) = path"
| "write_key (GitOpen path) = path"
| "write_key (GitStageHunk path hunk) = hunkKey path hunk"
| "write_key (GitUnstageHunk path hunk) = hunkKey path hunk"
| "write_key (GitDiscardHunk path hunk) = hunkKey path hunk"
| "write_key (GitCommit _ _) = COMMIT"
| "write_key _ = TRUST"

definition useGitWrite :: "int option \<Rightarrow> GitCall \<Rightarrow> GitActions \<Rightarrow> GitActions" where
  "useGitWrite project call s = on_project project (write_key call) call s"

definition committing :: "GitActions \<Rightarrow> bool" where
  "committing s = busy s COMMIT"

subsection \<open>The repository as a whole\<close>

definition EXCHANGE :: jstring where "EXCHANGE = lit '' exchange''"
definition BRANCH :: jstring where "BRANCH = lit '' branch''"
definition STASH :: jstring where "STASH = lit '' stash''"
definition MERGE :: jstring where "MERGE = lit '' merge''"

record GitSync =
  gy_actions :: GitActions
  gy_stopped :: bool

definition sync_mounted :: GitSync where
  "sync_mounted = \<lparr>gy_actions = useGitActions, gy_stopped = False\<rparr>"

fun sync_key :: "GitCall \<Rightarrow> jstring" where
  "sync_key GitFetch = EXCHANGE"
| "sync_key GitPull = EXCHANGE"
| "sync_key GitPush = EXCHANGE"
| "sync_key GitStash = STASH"
| "sync_key GitPopStash = STASH"
| "sync_key GitAbortMerge = MERGE"
| "sync_key _ = BRANCH"

definition useGitSync :: "int option \<Rightarrow> GitCall \<Rightarrow> GitSync \<Rightarrow> GitSync" where
  "useGitSync project call s =
     (let s = (if sync_key call = EXCHANGE then s\<lparr>gy_stopped := False\<rparr> else s)
      in s\<lparr>gy_actions := on_project project (sync_key call) call (gy_actions s)\<rparr>)"

definition stopExchange :: "int option \<Rightarrow> GitSync \<Rightarrow> GitSync" where
  "stopExchange project s = (case project of None \<Rightarrow> s | Some _ \<Rightarrow> s\<lparr>gy_stopped := True\<rparr>)"

definition exchanging :: "GitSync \<Rightarrow> bool" where
  "exchanging s = busy (gy_actions s) EXCHANGE"

definition sync_carried_out :: "nat \<Rightarrow> GitSync \<Rightarrow> GitSync" where
  "sync_carried_out t s = s\<lparr>gy_actions := action_carried_out t (gy_actions s)\<rparr>"

definition sync_refused :: "nat \<Rightarrow> jstring \<Rightarrow> GitSync \<Rightarrow> GitSync" where
  "sync_refused t reason s =
     (let expected = (case map_of (ga_inflight (gy_actions s)) t of None \<Rightarrow> False
          | Some (key, _) \<Rightarrow> key = EXCHANGE \<and> gy_stopped s)
      in s\<lparr>gy_actions := action_refused t reason expected (gy_actions s)\<rparr>)"

lemmas git_action_defs = useGitActions_def busy_def dismissError_def run_action_def action_ends_def
  action_carried_out_def action_refused_def on_project_def TRUST_def COMMIT_def useGitWrite_def committing_def
  EXCHANGE_def BRANCH_def STASH_def MERGE_def sync_mounted_def useGitSync_def stopExchange_def exchanging_def
  sync_carried_out_def sync_refused_def

subsection \<open>Runs\<close>

datatype ActionOp = ActionStarts jstring int GitCall | ActionDone nat | ActionRefused nat jstring bool | ErrorDismissed

fun action_step :: "GitActions \<Rightarrow> ActionOp \<Rightarrow> GitActions" where
  "action_step s (ActionStarts key project call) = run_action key project call s"
| "action_step s (ActionDone t) = action_carried_out t s"
| "action_step s (ActionRefused t reason expected) = action_refused t reason expected s"
| "action_step s ErrorDismissed = dismissError s"

definition actions_run :: "ActionOp list \<Rightarrow> GitActions" where
  "actions_run ops = foldl action_step useGitActions ops"

definition ga_in_flight :: "GitActions \<Rightarrow> jstring \<Rightarrow> bool" where
  "ga_in_flight s key \<longleftrightarrow> key \<in> set (map (\<lambda>(_, k, _). k) (ga_inflight s))"

text \<open>No action is started under a key that is still in flight.\<close>

fun one_per_key :: "GitActions \<Rightarrow> ActionOp list \<Rightarrow> bool" where
  "one_per_key s [] = True"
| "one_per_key s (op # ops) =
     ((case op of ActionStarts key _ _ \<Rightarrow> \<not> ga_in_flight s key | _ \<Rightarrow> True) \<and> one_per_key (action_step s op) ops)"

definition actions_wf :: "GitActions \<Rightarrow> bool" where
  "actions_wf s \<longleftrightarrow> distinct (map fst (ga_inflight s)) \<and> distinct (map fst (ga_settled s))
     \<and> (\<forall>key \<in> set (ga_running s). ga_in_flight s key)
     \<and> fst ` set (ga_settled s) \<inter> fst ` set (ga_inflight s) = {}
     \<and> fst ` set (ga_settled s) \<union> fst ` set (ga_inflight s) = {..<ga_issued s}"

lemma in_flight_without:
  assumes "ga_in_flight s k" and "map_of (ga_inflight s) t = Some (key, rest)" and "k \<noteq> key"
    and "distinct (map fst (ga_inflight s))"
  shows "k \<in> set (map (\<lambda>(_, k, _). k) (filter (\<lambda>a. fst a \<noteq> t) (ga_inflight s)))"
proof -
  obtain t' x where a: "(t', k, x) \<in> set (ga_inflight s)" using assms(1) by (auto simp: ga_in_flight_def)
  have "t' \<noteq> t"
  proof
    assume "t' = t"
    with a assms(2,4) have "(k, x) = (key, rest)" by (metis map_of_is_SomeI option.inject)
    with assms(3) show False by simp
  qed
  with a show ?thesis by force
qed

lemma in_flight_ends:
  assumes "map_of (ga_inflight s) t = Some (key, x)"
  shows "ga_in_flight (action_ends t done s) k \<longleftrightarrow> k \<in> set (map (\<lambda>(_, k, _). k) (filter (\<lambda>a. fst a \<noteq> t) (ga_inflight s)))"
  using assms by (simp add: ga_in_flight_def action_ends_def)

lemma without_ids: "fst ` set (filter (\<lambda>a. fst a \<noteq> t) xs) = fst ` set xs - {t}"
  by (induction xs) auto

lemma actions_wf_ends:
  assumes wf: "actions_wf s"
  shows "actions_wf (action_ends t done s)"
proof (cases "map_of (ga_inflight s) t")
  case (Some kx)
  then obtain key x where k: "map_of (ga_inflight s) t = Some (key, x)" by (cases kx) auto
  have t: "t \<in> fst ` set (ga_inflight s)" using k by (force dest: map_of_SomeD)
  let ?s = "action_ends t done s"
  have s': "?s = s\<lparr>ga_running := removeAll key (ga_running s), ga_inflight := filter (\<lambda>a. fst a \<noteq> t) (ga_inflight s),
      ga_settled := ga_settled s @ [(t, done)]\<rparr>" by (simp add: action_ends_def k)
  have d: "distinct (map fst (ga_inflight s))" and ds: "distinct (map fst (ga_settled s))"
    and run: "\<forall>key \<in> set (ga_running s). ga_in_flight s key"
    and dis: "fst ` set (ga_settled s) \<inter> fst ` set (ga_inflight s) = {}"
    and all: "fst ` set (ga_settled s) \<union> fst ` set (ga_inflight s) = {..<ga_issued s}"
    using wf unfolding actions_wf_def by blast+
  have "ga_in_flight ?s j" if "j \<in> set (ga_running ?s)" for j
  proof -
    have "j \<noteq> key" "ga_in_flight s j" using that run by (auto simp: s')
    then show ?thesis using in_flight_without [OF _ k _ d] in_flight_ends [OF k] by blast
  qed
  moreover have "fst ` set (ga_settled ?s) \<inter> fst ` set (ga_inflight ?s) = {}"
    unfolding s' using dis without_ids [of t "ga_inflight s"] by auto
  moreover have "fst ` set (ga_settled ?s) \<union> fst ` set (ga_inflight ?s) = {..<ga_issued ?s}"
    unfolding s' using all t without_ids [of t "ga_inflight s"] by auto
  moreover have "distinct (map fst (ga_inflight ?s))" unfolding s' using d by (simp add: distinct_map_filter)
  moreover have "t \<notin> fst ` set (ga_settled s)" using dis t by blast
  then have "distinct (map fst (ga_settled ?s))" unfolding s' using ds by auto
  ultimately show ?thesis unfolding actions_wf_def by blast
qed (simp add: action_ends_def wf)

lemma actions_wf_step:
  assumes wf: "actions_wf s"
  shows "actions_wf (action_step s op)"
proof (cases op)
  case (ActionStarts key project call)
  have "ga_issued s \<notin> fst ` set (ga_settled s) \<union> fst ` set (ga_inflight s)" using wf by (simp add: actions_wf_def)
  with wf ActionStarts show ?thesis
    by (auto simp: actions_wf_def run_action_def ga_in_flight_def lessThan_Suc)
next
  case (ActionRefused t reason expected)
  have "actions_wf (s\<lparr>ga_error := e\<rparr>)" for e using wf by (simp add: actions_wf_def ga_in_flight_def)
  with wf ActionRefused show ?thesis by (simp add: action_refused_def actions_wf_ends)
next
  case (ActionDone t)
  with wf show ?thesis by (simp add: actions_wf_ends action_carried_out_def)
next
  case ErrorDismissed
  with wf show ?thesis by (simp add: dismissError_def actions_wf_def ga_in_flight_def)
qed

interpretation git_actions: machine useGitActions action_step actions_wf
proof unfold_locales
  show "actions_wf useGitActions" by (simp add: useGitActions_def actions_wf_def)
qed (rule actions_wf_step)

text \<open>
  Every action resolves its promise exactly once: after any run the actions started are split
  into those in flight and those settled, none of them twice; and a key is shown busy only while
  an action under it is in flight.
\<close>

theorem actions_settle_once:
  "let s = actions_run ops in
     distinct (map fst (ga_settled s)) \<and> fst ` set (ga_settled s) \<inter> fst ` set (ga_inflight s) = {}
     \<and> fst ` set (ga_settled s) \<union> fst ` set (ga_inflight s) = {..<ga_issued s}
     \<and> {key. busy s key} \<subseteq> {key. ga_in_flight s key}"
  using git_actions.inv_run [of ops] by (auto simp: actions_run_def actions_wf_def busy_def Let_def)

text \<open>While no key is started twice at once, a key is busy as long as its action runs.\<close>

definition marked :: "GitActions \<Rightarrow> bool" where
  "marked s \<longleftrightarrow> distinct (map (\<lambda>(_, k, _). k) (ga_inflight s)) \<and> (\<forall>k. ga_in_flight s k \<longrightarrow> busy s k)"

lemma marked_ends:
  assumes wf: "actions_wf s" and m: "marked s"
  shows "marked (action_ends t done s)"
proof (cases "map_of (ga_inflight s) t")
  case (Some kx)
  then obtain key x where k: "map_of (ga_inflight s) t = Some (key, x)" by (cases kx) auto
  have "ga_in_flight (action_ends t done s) j \<Longrightarrow> j \<noteq> key \<and> ga_in_flight s j" for j
  proof -
    assume "ga_in_flight (action_ends t done s) j"
    then obtain t' y where a: "(t', j, y) \<in> set (ga_inflight s)" "t' \<noteq> t"
      by (auto simp: ga_in_flight_def action_ends_def k)
    have "(t, key, x) \<in> set (ga_inflight s)" using k by (rule map_of_SomeD)
    moreover have "inj_on (\<lambda>(_, k, _). k) (set (ga_inflight s))" using m by (simp add: marked_def distinct_map)
    ultimately have "j \<noteq> key" using a by (auto simp: inj_on_def)
    with a(1) show ?thesis by (force simp: ga_in_flight_def)
  qed
  moreover have "distinct (map (\<lambda>(_, k, _). k) (ga_inflight (action_ends t done s)))"
    using m by (simp add: marked_def action_ends_def k distinct_map_filter)
  ultimately show ?thesis using m by (auto simp: marked_def busy_def action_ends_def k)
qed (simp add: action_ends_def m)

lemma marked_run:
  "actions_wf s \<Longrightarrow> marked s \<Longrightarrow> one_per_key s ops \<Longrightarrow> marked (foldl action_step s ops)"
proof (induction ops arbitrary: s)
  case (Cons op ops)
  have "marked (action_step s op)"
  proof (cases op)
    case (ActionStarts key project call)
    with Cons.prems show ?thesis by (auto simp: marked_def run_action_def ga_in_flight_def busy_def)
  next
    case (ActionRefused t reason expected)
    have "marked (s\<lparr>ga_error := e\<rparr>)" "actions_wf (s\<lparr>ga_error := e\<rparr>)" for e
      using Cons.prems by (simp_all add: marked_def ga_in_flight_def busy_def actions_wf_def)
    with ActionRefused Cons.prems show ?thesis by (simp add: action_refused_def marked_ends)
  next
    case (ActionDone t)
    with Cons.prems show ?thesis by (simp add: marked_ends action_carried_out_def)
  next
    case ErrorDismissed
    with Cons.prems show ?thesis by (simp add: dismissError_def marked_def ga_in_flight_def busy_def)
  qed
  with Cons show ?case by (simp add: actions_wf_step)
qed simp

text \<open>
  While nobody starts an action under a key that already has one in flight, a key is shown busy
  exactly as long as its action runs.
\<close>

theorem busy_exactly_while_running:
  assumes "one_per_key useGitActions ops"
  shows "busy (actions_run ops) key \<longleftrightarrow> ga_in_flight (actions_run ops) key"
proof -
  have "actions_wf useGitActions" "marked useGitActions"
    by (simp_all add: useGitActions_def actions_wf_def marked_def ga_in_flight_def)
  from marked_run [OF this assms] git_actions.inv_run [of ops] show ?thesis
    by (auto simp: actions_run_def marked_def actions_wf_def busy_def)
qed

theorem busy_exactly_while_running_witness:
  "busy (actions_run [ActionStarts (lit ''a'') 1 (GitStage (lit ''a'')), ActionStarts (lit ''b'') 1 (GitOpen (lit ''b'')), ActionDone 0]) (lit ''b'')
   \<and> \<not> busy (actions_run [ActionStarts (lit ''a'') 1 (GitStage (lit ''a'')), ActionStarts (lit ''b'') 1 (GitOpen (lit ''b'')), ActionDone 0]) (lit ''a'')"
proof -
  let ?ops = "[ActionStarts (lit ''a'') 1 (GitStage (lit ''a'')), ActionStarts (lit ''b'') 1 (GitOpen (lit ''b'')), ActionDone 0]"
  have "one_per_key useGitActions ?ops"
    by (simp add: useGitActions_def run_action_def ga_in_flight_def)
  from busy_exactly_while_running [OF this] show ?thesis
    by (simp add: actions_run_def ga_in_flight_def git_action_defs)
qed

text \<open>
  What is running is a set of keys, not a count: opening a file while it is being staged, and
  the opening answered first, shows the file at rest although it is still being staged; and a
  commit is shown while a file named like the commit's own key is staged.
\<close>

theorem second_action_clears_first:
  "let s = foldl (\<lambda>s call. useGitWrite (Some 1) call s) useGitActions [GitStage (lit ''a''), GitOpen (lit ''a'')];
       t = action_carried_out 1 s
   in ga_in_flight t (lit ''a'') \<and> \<not> busy t (lit ''a'')
      \<and> committing (useGitWrite (Some 1) (GitStage (lit '' commit'')) useGitActions)"
  by code_simp

subsection \<open>An exchange that is stopped\<close>

datatype SyncOp = SyncCall "int option" GitCall | SyncStop "int option" | SyncDone nat | SyncRefused nat jstring | SyncDismiss

fun sync_step :: "GitSync \<Rightarrow> SyncOp \<Rightarrow> GitSync" where
  "sync_step s (SyncCall project call) = useGitSync project call s"
| "sync_step s (SyncStop project) = stopExchange project s"
| "sync_step s (SyncDone t) = sync_carried_out t s"
| "sync_step s (SyncRefused t reason) = sync_refused t reason s"
| "sync_step s SyncDismiss = s\<lparr>gy_actions := dismissError (gy_actions s)\<rparr>"

definition exchange_free :: "SyncOp list \<Rightarrow> bool" where
  "exchange_free ops \<longleftrightarrow> list_all (\<lambda>op. case op of SyncCall _ call \<Rightarrow> sync_key call \<noteq> EXCHANGE | _ \<Rightarrow> True) ops"

definition asked_to_stop :: "SyncOp list \<Rightarrow> bool" where
  "asked_to_stop ops \<longleftrightarrow> list_ex (\<lambda>op. case op of SyncStop (Some _) \<Rightarrow> True | _ \<Rightarrow> False) ops"

definition tickets_below :: "GitSync \<Rightarrow> bool" where
  "tickets_below s \<longleftrightarrow> (\<forall>a \<in> set (ga_inflight (gy_actions s)). fst a < ga_issued (gy_actions s))"

lemma action_ends_tickets:
  "ga_issued (action_ends t done a) = ga_issued a"
  "map_of (ga_inflight (action_ends t done a)) k = (if k = t then None else map_of (ga_inflight a) k)"
  "set (ga_inflight (action_ends t done a)) \<subseteq> set (ga_inflight a)"
  by (auto simp: action_ends_def map_of_without split: option.splits)

lemma refused_tickets:
  "ga_issued (action_refused t reason x a) = ga_issued a"
  "map_of (ga_inflight (action_refused t reason x a)) k = (if k = t then None else map_of (ga_inflight a) k)"
  "set (ga_inflight (action_refused t reason x a)) \<subseteq> set (ga_inflight a)"
  using action_ends_tickets [of t False "if x then a else a\<lparr>ga_error := Some reason\<rparr>"]
  by (auto simp: action_refused_def)

lemma sync_tickets_step:
  assumes "tickets_below s"
  shows "tickets_below (sync_step s op)" and "ga_issued (gy_actions s) \<le> ga_issued (gy_actions (sync_step s op))"
    and "t < ga_issued (gy_actions s) \<Longrightarrow> map_of (ga_inflight (gy_actions (sync_step s op))) t
      \<in> {None, map_of (ga_inflight (gy_actions s)) t}"
proof -
  have call: "tickets_below (useGitSync project c s) \<and> ga_issued (gy_actions s) \<le> ga_issued (gy_actions (useGitSync project c s))
    \<and> (t < ga_issued (gy_actions s) \<longrightarrow>
         map_of (ga_inflight (gy_actions (useGitSync project c s))) t = map_of (ga_inflight (gy_actions s)) t)" for project c
    using assms by (cases project)
      (auto simp: useGitSync_def on_project_def run_action_def tickets_below_def Let_def map_add_def less_Suc_eq split: option.splits)
  have stop: "gy_actions (stopExchange project s) = gy_actions s" for project
    by (simp add: stopExchange_def split: option.splits)
  show "tickets_below (sync_step s op)"
    using assms call action_ends_tickets(1,3) refused_tickets(1,3)
    by (cases op) (simp_all add: stop tickets_below_def sync_carried_out_def action_carried_out_def sync_refused_def
      dismissError_def Let_def, blast+)
  show "ga_issued (gy_actions s) \<le> ga_issued (gy_actions (sync_step s op))"
    using call by (cases op) (simp_all add: stop sync_carried_out_def action_carried_out_def sync_refused_def dismissError_def
      Let_def action_ends_tickets(1) refused_tickets(1))
  show "t < ga_issued (gy_actions s) \<Longrightarrow> map_of (ga_inflight (gy_actions (sync_step s op))) t
      \<in> {None, map_of (ga_inflight (gy_actions s)) t}"
    using call by (cases op) (simp_all add: stop sync_carried_out_def action_carried_out_def sync_refused_def dismissError_def
      Let_def action_ends_tickets(2) refused_tickets(2))
qed

lemma stop_flag:
  assumes "exchange_free ops"
  shows "gy_stopped (foldl sync_step s ops) \<longleftrightarrow> gy_stopped s \<or> asked_to_stop ops"
  using assms
proof (induction ops arbitrary: s)
  case (Cons op ops)
  then show ?case
    by (cases op) (auto simp: exchange_free_def asked_to_stop_def useGitSync_def Let_def stopExchange_def sync_carried_out_def
      sync_refused_def split: option.splits)
qed (simp add: asked_to_stop_def)

lemma entry_kept:
  assumes "tickets_below s" and "t < ga_issued (gy_actions s)"
  shows "map_of (ga_inflight (gy_actions (foldl sync_step s ops))) t \<in> {None, map_of (ga_inflight (gy_actions s)) t}"
  using assms
proof (induction ops arbitrary: s)
  case (Cons op ops)
  note now = sync_tickets_step [OF Cons.prems(1)]
  have "t < ga_issued (gy_actions (sync_step s op))" using Cons.prems(2) now(2) [of op] by simp
  from Cons.IH [OF now(1) this] now(3) [OF Cons.prems(2), of op] show ?case by auto
qed simp

lemma below_run: "tickets_below (foldl sync_step sync_mounted ops)"
proof (induction ops rule: rev_induct)
  case Nil
  show ?case by (simp add: tickets_below_def sync_mounted_def useGitActions_def)
next
  case (snoc op ops)
  then show ?case using sync_tickets_step(1) by simp
qed

text \<open>
  A person's own decision is not reported back as a failure, and a real failure is: the refusal
  of an exchange with the remote sets the error shown exactly when the exchange was not asked to
  stop since it began, whatever else was started, refused or dismissed meanwhile, as long as no
  second exchange was begun.
\<close>

theorem exchange_refusal_reported:
  assumes "sync_key call = EXCHANGE" and "exchange_free ops"
    and "s = foldl sync_step sync_mounted before" and "s' = foldl sync_step (sync_step s (SyncCall (Some p) call)) ops"
    and "t = ga_issued (gy_actions s)" and "t \<in> fst ` set (ga_inflight (gy_actions s'))"
  shows "ga_error (gy_actions (sync_step s' (SyncRefused t reason))) =
     (if asked_to_stop ops then ga_error (gy_actions s') else Some reason)"
proof -
  have below: "tickets_below s" unfolding assms(3) by (rule below_run)
  let ?s = "sync_step s (SyncCall (Some p) call)"
  have new: "map_of (ga_inflight (gy_actions s)) t = None"
    using below by (auto simp: tickets_below_def assms(5) map_of_eq_None_iff)
  have at: "map_of (ga_inflight (gy_actions ?s)) t = Some (EXCHANGE, p, call)" "ga_issued (gy_actions ?s) = t + 1"
    using new assms(1) by (auto simp: useGitSync_def on_project_def run_action_def Let_def assms(5) map_add_def)
  have "map_of (ga_inflight (gy_actions s')) t \<noteq> None" using assms(6) by (simp add: map_of_eq_None_iff)
  then have entry: "map_of (ga_inflight (gy_actions s')) t = Some (EXCHANGE, p, call)"
    using entry_kept [OF sync_tickets_step(1) [OF below], of t "SyncCall (Some p) call" ops] at assms(4) by auto
  have "gy_stopped s' \<longleftrightarrow> asked_to_stop ops"
    using stop_flag [OF assms(2), of ?s] assms(1,4) by (simp add: useGitSync_def Let_def)
  then show ?thesis
    by (simp add: sync_refused_def Let_def entry action_refused_def action_ends_def)
qed

theorem exchange_refusal_reported_witness:
  "let s' = foldl sync_step (sync_step sync_mounted (SyncCall (Some 1) GitPush)) [SyncCall (Some 1) GitStash, SyncStop (Some 1), SyncRefused 1 (lit ''busy'')]
   in ga_error (gy_actions s') = Some (lit ''busy'') \<and> ga_error (gy_actions (sync_step s' (SyncRefused 0 (lit ''cut off'')))) = Some (lit ''busy'')"
proof -
  let ?ops = "[SyncCall (Some 1) GitStash, SyncStop (Some 1), SyncRefused 1 (lit ''busy'')]"
  let ?s = "foldl sync_step sync_mounted []" and ?p = "1 :: int"
  let ?s' = "foldl sync_step (sync_step ?s (SyncCall (Some ?p) GitPush)) ?ops"
  have "exchange_free ?ops" "asked_to_stop ?ops" "ga_error (gy_actions ?s') = Some (lit ''busy'')"
    "ga_issued (gy_actions ?s) \<in> fst ` set (ga_inflight (gy_actions ?s'))" "ga_issued (gy_actions ?s) = 0"
    by (simp_all add: exchange_free_def asked_to_stop_def git_action_defs lit_def)
  with exchange_refusal_reported [of GitPush ?ops ?s "[]" ?s' ?p "ga_issued (gy_actions ?s)" "lit ''cut off''"]
  show ?thesis by (simp add: Let_def)
qed

subsection \<open>Drafts and proposals\<close>

text \<open>
  The draft of a commit message and of a pull request's description are kept the same way: whether
  one is being written, what the last refused one said, and what each call resolved to.
\<close>

record Drafting =
  df_drafting :: bool
  df_error :: "jstring option"
  df_inflight :: "nat list"
  df_issued :: nat
  df_resolved :: "(nat \<times> jstring option) list"

definition no_draft :: Drafting where
  "no_draft = \<lparr>df_drafting = False, df_error = None, df_inflight = [], df_issued = 0, df_resolved = []\<rparr>"

definition draft :: "int option \<Rightarrow> Drafting \<Rightarrow> Drafting" where
  "draft project s =
     (case project of None \<Rightarrow> s
      | Some _ \<Rightarrow> s\<lparr>df_drafting := True, df_error := None, df_inflight := df_inflight s @ [df_issued s], df_issued := df_issued s + 1\<rparr>)"

definition draft_settles :: "nat \<Rightarrow> jstring + jstring \<Rightarrow> Drafting \<Rightarrow> Drafting" where
  "draft_settles t answer s =
     (if t \<in> set (df_inflight s)
      then s\<lparr>df_drafting := False, df_inflight := removeAll t (df_inflight s),
          df_error := (case answer of Inl _ \<Rightarrow> df_error s | Inr reason \<Rightarrow> Some reason),
          df_resolved := df_resolved s @ [(t, case answer of Inl text \<Rightarrow> Some text | Inr _ \<Rightarrow> None)]\<rparr>
      else s)"

definition useCommitMessageDraft :: "'tool option option \<Rightarrow> Drafting \<Rightarrow> bool \<times> bool \<times> jstring option" where
  "useCommitMessageDraft assist s = (useAssistTool assist, df_drafting s, df_error s)"

record PullRequestStore =
  pr_actions :: GitActions
  pr_draft :: Drafting
  pr_made :: "(nat \<times> jstring option) list"

definition PROPOSE :: jstring where "PROPOSE = []"

definition propose :: "int option \<Rightarrow> NewPullRequest \<Rightarrow> PullRequestStore \<Rightarrow> PullRequestStore" where
  "propose project request s = s\<lparr>pr_actions := on_project project PROPOSE (GitCreatePullRequest request) (pr_actions s)\<rparr>"

text \<open>The promise of \<open>propose\<close> resolves to the address made, or to \<open>null\<close> when it was refused.\<close>

definition propose_settles :: "nat \<Rightarrow> jstring + jstring \<Rightarrow> PullRequestStore \<Rightarrow> PullRequestStore" where
  "propose_settles t answer s =
     (if map_of (ga_inflight (pr_actions s)) t = None then s
      else case answer of
        Inl address \<Rightarrow> s\<lparr>pr_actions := action_carried_out t (pr_actions s), pr_made := pr_made s @ [(t, Some address)]\<rparr>
      | Inr reason \<Rightarrow> s\<lparr>pr_actions := action_refused t reason False (pr_actions s), pr_made := pr_made s @ [(t, None)]\<rparr>)"

definition proposing :: "PullRequestStore \<Rightarrow> bool" where
  "proposing s = busy (pr_actions s) PROPOSE"

definition first_error :: "jstring option list \<Rightarrow> jstring option" where
  "first_error errors = (case List.find (\<lambda>e. e \<noteq> None) errors of None \<Rightarrow> None | Some e \<Rightarrow> e)"

definition pull_request_error :: "SurfaceRead \<Rightarrow> PullRequestStore \<Rightarrow> jstring option" where
  "pull_request_error read s = first_error [ga_error (pr_actions s), df_error (pr_draft s), rr_error (rd_state read)]"

definition pull_request_dismiss :: "PullRequestStore \<Rightarrow> PullRequestStore" where
  "pull_request_dismiss s = s\<lparr>pr_actions := dismissError (pr_actions s), pr_draft := (pr_draft s)\<lparr>df_error := None\<rparr>\<rparr>"

text \<open>Dismissing leaves at most the read's own error, which the next good answer clears.\<close>

lemma dismiss_leaves_read_error: "pull_request_error read (pull_request_dismiss s) = rr_error (rd_state read)"
  by (simp add: pull_request_error_def pull_request_dismiss_def dismissError_def first_error_def)

subsection \<open>The polled review\<close>

definition REVIEW_POLL_MS :: int where "REVIEW_POLL_MS = 20000"
definition REVIEW_BACKOFF_MS :: int where "REVIEW_BACKOFF_MS = 120000"

record ReviewStore =
  rw_read :: ReviewRead
  rw_inFlight :: bool
  rw_actions :: GitActions
  rw_handoffError :: "jstring option"

definition review_interval :: "ReviewStore \<Rightarrow> int" where
  "review_interval s = (if rr_error (rd_state (rw_read s)) = None then REVIEW_POLL_MS else REVIEW_BACKOFF_MS)"

definition review_error :: "ReviewStore \<Rightarrow> jstring option" where
  "review_error s = first_error [ga_error (rw_actions s), rw_handoffError s, rr_error (rd_state (rw_read s))]"

text \<open>Every read raises the flag when it starts and lowers it when it ends.\<close>

definition review_refresh :: "ReviewStore \<Rightarrow> ReviewStore" where
  "review_refresh s = (if rd_request (rw_read s) = None then s
     else s\<lparr>rw_read := reader_refresh (rw_read s), rw_inFlight := True\<rparr>)"

definition poll_tick :: "ReviewStore \<Rightarrow> ReviewStore" where
  "poll_tick s = (if \<not> rw_inFlight s then review_refresh s else s)"

definition review_arrives :: "nat \<Rightarrow> PullRequestReview + jstring \<Rightarrow> ReviewStore \<Rightarrow> ReviewStore" where
  "review_arrives t answer s =
     (if map_of (rd_reads (rw_read s)) t = None then s
      else s\<lparr>rw_read := reread_settles useRepositoryRead t answer (rw_read s), rw_inFlight := False\<rparr>)"

definition merge_review :: "int option \<Rightarrow> int \<Rightarrow> MergeMethod \<Rightarrow> ReviewStore \<Rightarrow> ReviewStore" where
  "merge_review project n how s =
     s\<lparr>rw_actions := on_project project (lit ''merge'') (GitMergePullRequest n how) (rw_actions s)\<rparr>"

definition handOff :: "int option \<Rightarrow> ReviewStore \<Rightarrow> ReviewStore" where
  "handOff project s = (case project of None \<Rightarrow> s | Some _ \<Rightarrow> s\<lparr>rw_handoffError := None\<rparr>)"

definition handOff_refused :: "jstring \<Rightarrow> ReviewStore \<Rightarrow> ReviewStore" where
  "handOff_refused reason s = s\<lparr>rw_handoffError := Some reason\<rparr>"

datatype ReviewOp = PollTick | ReviewFocus | ReviewArrives nat "PullRequestReview + jstring"

fun review_step :: "ReviewStore \<Rightarrow> ReviewOp \<Rightarrow> ReviewStore" where
  "review_step s PollTick = poll_tick s"
| "review_step s ReviewFocus = review_refresh s"
| "review_step s (ReviewArrives t answer) = review_arrives t answer s"

definition review_open :: "jstring \<Rightarrow> ReviewStore" where
  "review_open request = \<lparr>rw_read = (mounted repository_unread)\<lparr>rd_request := Some request\<rparr>, rw_inFlight = False,
     rw_actions = useGitActions, rw_handoffError = None\<rparr>"

lemmas review_defs = review_refresh_def poll_tick_def review_arrives_def review_open_def mounted_def reader_refresh_def
  read_for_def reread_settles_def

definition review_alone :: "ReviewStore \<Rightarrow> bool" where
  "review_alone s \<longleftrightarrow> (rw_inFlight s \<longleftrightarrow> rd_reads (rw_read s) \<noteq> []) \<and> length (rd_reads (rw_read s)) \<le> 1
     \<and> rd_request (rw_read s) \<noteq> None"

lemma review_alone_step:
  assumes "review_alone s" and "ReviewFocus \<noteq> op"
  shows "review_alone (review_step s op)"
proof (cases op)
  case PollTick
  with assms show ?thesis by (auto simp: review_alone_def review_defs split: option.splits)
next
  case (ReviewArrives t answer)
  with assms show ?thesis
    by (cases "rd_reads (rw_read s)") (auto simp: review_alone_def review_defs split: option.splits)
qed (use assms in simp)

text \<open>
  The poll alone never has two requests out: over ticks and answers, in any order, at most one
  read of the review is in flight. A window focus breaks the bound the comment claims: it reads
  whatever is in flight, and when the first of the two answers lands the flag is lowered for
  both, so the next tick starts a read beside the one still out.
\<close>

theorem poll_reads_one_at_a_time:
  "(ReviewFocus \<notin> set ops \<longrightarrow> length (rd_reads (rw_read (foldl review_step (review_open request) ops))) \<le> 1)
   \<and> length (rd_reads (rw_read (foldl review_step (review_open request)
        [PollTick, ReviewFocus, ReviewArrives 0 answer, PollTick]))) = 2"
proof
  show "ReviewFocus \<notin> set ops \<longrightarrow> length (rd_reads (rw_read (foldl review_step (review_open request) ops))) \<le> 1"
  proof
    assume "ReviewFocus \<notin> set ops"
    then have "review_alone (foldl review_step (review_open request) ops)"
    proof (induction ops rule: rev_induct)
      case (snoc op ops)
      then show ?case using review_alone_step [of _ op] by (simp del: review_step.simps)
    qed (simp add: review_alone_def review_defs)
    then show "length (rd_reads (rw_read (foldl review_step (review_open request) ops))) \<le> 1" by (simp add: review_alone_def)
  qed
qed (simp add: review_defs)

theorem poll_reads_one_at_a_time_witness:
  "length (rd_reads (rw_read (foldl review_step (review_open (lit ''1'')) [PollTick, PollTick, ReviewArrives 0 (Inr []), PollTick]))) \<le> 1"
  using poll_reads_one_at_a_time [of "[PollTick, PollTick, ReviewArrives 0 (Inr []), PollTick]" "lit ''1''"] by simp

end
