(* ===== verification/RosterReads.thy ===== *)
theory RosterReads
  imports Rereading Grouping
begin

section \<open>The orchestration board and the lineage map\<close>

text \<open>
  \<open>store/useOrchestration.ts\<close> and \<open>store/useLineage.ts\<close> on the machinery of \<open>Rereading\<close>: the agent tree
  with the coordination state of one project, and the map from workers to the leads that spawned
  them.
\<close>

subsection \<open>The board\<close>

record LeaseView =
  lv_key :: jstring
  lv_owner :: int
  lv_expires_unix_millis :: int

record 'j KvEntry =
  kv_key :: jstring
  kv_value :: 'j

record 'j OrchestrationSnapshot =
  os_project :: int
  os_agents :: "AgentNode list"
  os_todos :: "TodoView list"
  os_timers :: "TimerView list"
  os_leases :: "LeaseView list"
  os_scratchpads :: "ScratchpadSummary list"
  os_diagrams :: "DiagramSummary list"
  os_kv :: "'j KvEntry list"
  os_messages :: "AgentMessageRecord list"

definition BOARD_EVENTS :: "DomainEvent \<Rightarrow> bool" where
  "BOARD_EVENTS ev = (case ev of
     EvProcessSpawned _ _ _ _ _ _ _ \<Rightarrow> True | EvProcessStatusChanged _ _ _ _ \<Rightarrow> True | EvProcessRemoved _ \<Rightarrow> True
   | EvProcessRenamed _ _ \<Rightarrow> True | EvAgentActivityChanged _ _ \<Rightarrow> True | EvTodoChanged _ _ \<Rightarrow> True
   | EvAgentMessageChanged _ _ \<Rightarrow> True | EvScratchpadChanged _ _ \<Rightarrow> True | EvDiagramChanged _ _ \<Rightarrow> True
   | EvTimerArmed _ _ \<Rightarrow> True | EvTimerFired _ _ \<Rightarrow> True | EvTimerCleared _ _ \<Rightarrow> True | EvTimerPaused _ _ \<Rightarrow> True
   | EvTimerResumed _ _ \<Rightarrow> True | _ \<Rightarrow> False)"

record BoardSnapshot =
  bd_forProject :: "int option"
  bd_tree :: "OrchestrationTreeNode list"
  bd_agents :: "AgentNode list"
  bd_todos :: "TodoView list"
  bd_scratchpads :: "ScratchpadSummary list"
  bd_diagrams :: "DiagramSummary list"
  bd_timers :: "TimerView list"
  bd_messages :: "AgentMessageRecord list"

definition EMPTY_BOARD :: BoardSnapshot where
  "EMPTY_BOARD = \<lparr>bd_forProject = None, bd_tree = [], bd_agents = [], bd_todos = [], bd_scratchpads = [],
     bd_diagrams = [], bd_timers = [], bd_messages = []\<rparr>"

record BoardState =
  bo_snapshot :: BoardSnapshot
  bo_error :: "jstring option"

text \<open>\<open>buildOrchestrationTree\<close> has a result whenever agents have distinct ids; the list is empty otherwise.\<close>

definition board_tree :: "AgentNode list \<Rightarrow> OrchestrationTreeNode list" where
  "board_tree agents = (case buildOrchestrationTree agents of None \<Rightarrow> [] | Some tree \<Rightarrow> tree)"

definition board_of :: "int \<Rightarrow> 'j OrchestrationSnapshot \<Rightarrow> BoardSnapshot" where
  "board_of project snap = \<lparr>bd_forProject = Some project, bd_tree = board_tree (os_agents snap), bd_agents = os_agents snap,
     bd_todos = os_todos snap, bd_scratchpads = os_scratchpads snap, bd_diagrams = os_diagrams snap,
     bd_timers = os_timers snap, bd_messages = os_messages snap\<rparr>"

definition useOrchestration :: "(int, 'j OrchestrationSnapshot, BoardState) ReadHook" where
  "useOrchestration = \<lparr>
     rh_answer = (\<lambda>project snap z. z\<lparr>bo_snapshot := board_of project snap\<rparr>),
     rh_refuse = (\<lambda>reason z. z\<lparr>bo_error := Some reason\<rparr>),
     rh_detached = (\<lambda>reason z. z\<lparr>bo_error := Some reason\<rparr>),
     rh_listens = BOARD_EVENTS\<rparr>"

definition board_unread :: BoardState where
  "board_unread = \<lparr>bo_snapshot = EMPTY_BOARD, bo_error = None\<rparr>"

definition board_view :: "(int, BoardState) Reader \<Rightarrow> BoardSnapshot" where
  "board_view s = (let snapshot = bo_snapshot (rd_state s) in if bd_forProject snapshot = rd_request s then snapshot else EMPTY_BOARD)"

definition board_run ::
  "(int \<Rightarrow> 'j OrchestrationSnapshot) \<Rightarrow> (int, 'j OrchestrationSnapshot) RereadOp list \<Rightarrow> (int, 'j OrchestrationSnapshot, BoardState) RereadRun" where
  "board_run core ops = foldl (reread_step useOrchestration) (reread_init board_unread core) ops"

definition board_held :: "BoardState \<Rightarrow> int \<Rightarrow> 'j OrchestrationSnapshot \<Rightarrow> bool" where
  "board_held z project snap \<longleftrightarrow> bo_snapshot z = board_of project snap"

definition board_failed :: "BoardState \<Rightarrow> bool" where
  "board_failed z \<longleftrightarrow> bo_error z \<noteq> None"

interpretation board: rereader useOrchestration board_held board_failed
  by unfold_locales (auto simp: useOrchestration_def board_held_def board_failed_def)

text \<open>
  The orchestration board catches up: when answers arrive in the order of their reads and the
  core announces what it changes, a board with nothing outstanding shows exactly the project's
  agents, documents, timers and messages of the moment, or has reported a failed read.
\<close>

theorem board_catches_up:
  assumes "orderly_run useOrchestration (reread_init board_unread core) ops"
    and "run_settled useOrchestration (board_run core ops) project"
  shows "let s = board_run core ops in
    bo_error (rd_state (rn_reader s)) \<noteq> None \<or> board_view (rn_reader s) = board_of project (rn_repo s project)"
  using board.settled_is_current [OF assms(1) board_run_def assms(2)] assms(2)
  by (auto simp: Let_def board_failed_def board_held_def board_view_def run_settled_def board_of_def)

lemmas board_eval = board_run_def reread_init_def board_unread_def mounted_def useOrchestration_def heard_by_def unanswered_def
  BOARD_EVENTS_def board_view_def run_settled_def reader_defs

definition board_with :: "AgentNode list \<Rightarrow> nat OrchestrationSnapshot" where
  "board_with agents = \<lparr>os_project = 1, os_agents = agents, os_todos = [], os_timers = [], os_leases = [], os_scratchpads = [],
     os_diagrams = [], os_kv = [], os_messages = []\<rparr>"

theorem board_catches_up_witness:
  "let ops = [Renders (Some 1), Registers 0, Attaches 0, Changes (\<lambda>_. board_with [sample_agent 1 None]) (EvProcessRemoved 2), Answers 0,
         Arrives 0, Hears 0 (EvProcessRemoved 2), FrameFires 0, Answers 1, Arrives 1];
       s = board_run (\<lambda>_. board_with []) ops in
     bo_error (rd_state (rn_reader s)) = None \<and> board_view (rn_reader s) = board_of 1 (board_with [sample_agent 1 None])"
proof -
  let ?ops = "[Renders (Some 1), Registers 0, Attaches 0, Changes (\<lambda>_. board_with [sample_agent 1 None]) (EvProcessRemoved 2), Answers 0,
         Arrives 0, Hears 0 (EvProcessRemoved 2), FrameFires 0, Answers 1, Arrives 1]"
  let ?s = "board_run (\<lambda>_. board_with []) ?ops"
  have run: "orderly_run useOrchestration (reread_init board_unread (\<lambda>_. board_with [])) ?ops" by code_simp
  have settled: "run_settled useOrchestration ?s 1" by code_simp
  have e: "bo_error (rd_state (rn_reader ?s)) = None" by code_simp
  have "rn_repo ?s 1 = board_with [sample_agent 1 None]" by code_simp
  with board_catches_up [OF run settled] e show ?thesis unfolding Let_def by argo
qed

text \<open>
  The board's error outlives its cause: a read that failed once leaves its message, and no later
  answer removes it, so a board that is fully current again still reports the failure.
\<close>

theorem board_error_sticks:
  "let s = board_run (\<lambda>_. board_with []) [Renders (Some 1), Registers 0, Attaches 0, Refuses 0 (lit ''down''), Arrives 0,
         Reconciles, Answers 1, Arrives 1]
   in run_settled useOrchestration s 1 \<and> board_view (rn_reader s) = board_of 1 (board_with [])
      \<and> bo_error (rd_state (rn_reader s)) = Some (lit ''down'')"
  by code_simp

lemma board_error_never_cleared:
  "bo_error (rd_state (rn_reader s)) \<noteq> None \<Longrightarrow> bo_error (rd_state (rn_reader (reread_step useOrchestration s op))) \<noteq> None"
  by (cases op) (auto simp: reader_refresh_def watch_attaches_def watch_hears_def reread_frame_fires_def
    read_for_def reread_settles_def useOrchestration_def split: option.splits sum.splits)

subsection \<open>The lineage map\<close>

definition LINEAGE_EVENTS :: "DomainEvent \<Rightarrow> bool" where
  "LINEAGE_EVENTS ev = (case ev of
     EvProcessSpawned _ _ _ _ _ _ _ \<Rightarrow> True | EvProcessStatusChanged _ _ _ _ \<Rightarrow> True | EvProcessRemoved _ \<Rightarrow> True | _ \<Rightarrow> False)"

definition lineage_map :: "LineageEdge list \<Rightarrow> (int, int) jsmap" where
  "lineage_map edges = map_from (map (\<lambda>e. (le_child e, le_parent e)) edges)"

definition useLineage :: "(unit, LineageEdge list, (int, int) jsmap) ReadHook" where
  "useLineage = \<lparr>rh_answer = (\<lambda>_ edges _. lineage_map edges), rh_refuse = (\<lambda>_ _. []), rh_detached = (\<lambda>_ _. []),
     rh_listens = LINEAGE_EVENTS\<rparr>"

definition lineage_run ::
  "LineageEdge list \<Rightarrow> (unit, LineageEdge list) RereadOp list \<Rightarrow> (unit, LineageEdge list, (int, int) jsmap) RereadRun" where
  "lineage_run edges ops = foldl (reread_step useLineage) (reread_init [] (\<lambda>_. edges)) ops"

interpretation lineage: rereader useLineage "\<lambda>z _ edges. z = lineage_map edges" "\<lambda>z. z = []"
  by unfold_locales (auto simp: useLineage_def)

definition liveWorkerCount :: "(int, int) jsmap \<Rightarrow> ProcessView list \<Rightarrow> int \<Rightarrow> nat" where
  "liveWorkerCount lineage processes lead =
     length (filter (\<lambda>(child, parent). parent = lead \<and> child \<in> set (map pv_id processes)) lineage)"

lemma lineage_catches_up:
  assumes "orderly_run useLineage (reread_init [] (\<lambda>_. edges)) ops" and "run_settled useLineage (lineage_run edges ops) ()"
  shows "let s = lineage_run edges ops in rd_state (rn_reader s) = [] \<or> rd_state (rn_reader s) = lineage_map (rn_repo s ())"
  using lineage.settled_is_current [OF assms(1) lineage_run_def assms(2)] by (auto simp: Let_def)

text \<open>
  The workers counted before a lead is removed are the registered processes whose last recorded
  edge names it: each counted once, none that left the registry, and none of another lead.
\<close>

theorem live_workers_exact:
  "liveWorkerCount (lineage_map edges) processes lead =
     card {p. p \<in> pv_id ` set processes \<and> map_of (rev (map (\<lambda>e. (le_child e, le_parent e)) edges)) p = Some lead}"
proof -
  let ?m = "lineage_map edges"
  have wf: "distinct (map fst ?m)" using map_wf_from unfolding lineage_map_def map_wf_def by blast
  let ?f = "filter (\<lambda>(child, parent). parent = lead \<and> child \<in> set (map pv_id processes)) ?m"
  have "liveWorkerCount ?m processes lead = card (fst ` set ?f)"
    using distinct_card [OF distinct_map_filter [OF wf], of "\<lambda>(child, parent). parent = lead \<and> child \<in> set (map pv_id processes)"]
    by (simp add: liveWorkerCount_def)
  also have "fst ` set ?f = {p. p \<in> pv_id ` set processes \<and> map_get ?m p = Some lead}"
    using wf by (force simp: image_iff dest: map_of_SomeD)
  finally show ?thesis by (simp add: lineage_map_def map_get_from rev_map)
qed

end
