(* ===== verification/Snapshots.thy ===== *)
theory Snapshots
  imports Domain Notify
begin

section \<open>Read models whose newest read wins\<close>

text \<open>
  \<open>store/cache/usePersistentSnapshot.ts\<close> and \<open>store/useAttention.ts\<close> stamp every read with a generation
  and let only the newest one land, so their answers may come back in any order. \<open>Latest\<close> is the
  stamp and the reads in flight, \<open>LatestRun\<close> puts the hook beside the core that changes, announces
  and answers, and the locale \<open>newest_wins\<close> proves once what both hooks show. The on-disk cache
  itself is \<open>store/cache/persistentCache.ts\<close>; \<open>store/projects/useProjects.ts\<close> sits on top.
\<close>

subsection \<open>Stamped reads\<close>

record 'z Latest =
  lt_latest :: nat
  lt_open :: "nat list"
  lt_landed :: "nat list"
  lt_state :: 'z

text \<open>A hook's handlers: the answer of the newest read, its refusal, and a value offered meanwhile.\<close>

record ('v, 'c, 'z) LatestHook =
  lh_answer :: "'v \<Rightarrow> 'z \<Rightarrow> 'z"
  lh_refuse :: "jstring \<Rightarrow> 'z \<Rightarrow> 'z"
  lh_seed :: "'c \<Rightarrow> 'z \<Rightarrow> 'z"

definition latest_start :: "'z Latest \<Rightarrow> 'z Latest" where
  "latest_start s = s\<lparr>lt_latest := lt_latest s + 1, lt_open := lt_open s @ [lt_latest s + 1]\<rparr>"

definition latest_settles :: "('v, 'c, 'z) LatestHook \<Rightarrow> nat \<Rightarrow> 'v + jstring \<Rightarrow> 'z Latest \<Rightarrow> 'z Latest" where
  "latest_settles H g answer s =
     (let s = s\<lparr>lt_open := removeAll g (lt_open s)\<rparr>
      in if g \<noteq> lt_latest s then s
        else s\<lparr>lt_landed := lt_landed s @ [g],
          lt_state := (case answer of Inl v \<Rightarrow> lh_answer H v (lt_state s) | Inr reason \<Rightarrow> lh_refuse H reason (lt_state s))\<rparr>)"

definition latest_emits :: "('v, 'c, 'z) LatestHook \<Rightarrow> nat \<Rightarrow> 'c \<Rightarrow> 'z Latest \<Rightarrow> 'z Latest" where
  "latest_emits H g c s = (if g \<noteq> lt_latest s then s else s\<lparr>lt_state := lh_seed H c (lt_state s)\<rparr>)"

definition latest_seeds :: "('v, 'c, 'z) LatestHook \<Rightarrow> 'c \<Rightarrow> 'z Latest \<Rightarrow> 'z Latest" where
  "latest_seeds H c s = s\<lparr>lt_state := lh_seed H c (lt_state s)\<rparr>"

definition latest_mounted :: "'z \<Rightarrow> 'z Latest" where
  "latest_mounted z = \<lparr>lt_latest = 0, lt_open = [], lt_landed = [], lt_state = z\<rparr>"

subsection \<open>Beside the core\<close>

text \<open>\<open>lu_missed\<close>: the newest read was refused.\<close>

record ('v, 'z) LatestRun =
  lu_hook :: "'z Latest"
  lu_core :: 'v
  lu_answers :: "(nat \<times> ('v + jstring)) list"
  lu_listening :: bool
  lu_events :: nat
  lu_missed :: bool

datatype ('v, 'c) LatestOp =
    Revalidates | Listens | CoreChanges 'v | HearsChange | CoreReads nat | CoreRefusesRead nat jstring | Lands nat
  | Seeds 'c | Emits nat 'c

definition may_answer :: "nat \<Rightarrow> ('v, 'z) LatestRun \<Rightarrow> bool" where
  "may_answer g s \<longleftrightarrow> g \<in> set (lt_open (lu_hook s)) \<and> map_of (lu_answers s) g = None"

fun latest_step :: "('v, 'c, 'z) LatestHook \<Rightarrow> ('v, 'z) LatestRun \<Rightarrow> ('v, 'c) LatestOp \<Rightarrow> ('v, 'z) LatestRun" where
  "latest_step H s Revalidates = s\<lparr>lu_hook := latest_start (lu_hook s)\<rparr>"
| "latest_step H s Listens = s\<lparr>lu_listening := True\<rparr>"
| "latest_step H s (CoreChanges v) = s\<lparr>lu_core := v, lu_events := lu_events s + (if lu_listening s then 1 else 0)\<rparr>"
| "latest_step H s HearsChange =
     (if lu_events s > 0 then s\<lparr>lu_events := lu_events s - 1, lu_hook := latest_start (lu_hook s)\<rparr> else s)"
| "latest_step H s (CoreReads g) = (if may_answer g s then s\<lparr>lu_answers := lu_answers s @ [(g, Inl (lu_core s))]\<rparr> else s)"
| "latest_step H s (CoreRefusesRead g reason) =
     (if may_answer g s then s\<lparr>lu_answers := lu_answers s @ [(g, Inr reason)]\<rparr> else s)"
| "latest_step H s (Lands g) =
     (case map_of (lu_answers s) g of None \<Rightarrow> s
      | Some answer \<Rightarrow> s\<lparr>lu_hook := latest_settles H g answer (lu_hook s), lu_answers := filter (\<lambda>a. fst a \<noteq> g) (lu_answers s),
          lu_missed := (if g = lt_latest (lu_hook s) then (case answer of Inl _ \<Rightarrow> False | Inr _ \<Rightarrow> True) else lu_missed s)\<rparr>)"
| "latest_step H s (Seeds c) = s\<lparr>lu_hook := latest_seeds H c (lu_hook s)\<rparr>"
| "latest_step H s (Emits g c) = s\<lparr>lu_hook := latest_emits H g c (lu_hook s)\<rparr>"

definition latest_init :: "'z \<Rightarrow> 'v \<Rightarrow> ('v, 'z) LatestRun" where
  "latest_init z v = \<lparr>lu_hook = latest_mounted z, lu_core = v, lu_answers = [], lu_listening = False, lu_events = 0, lu_missed = False\<rparr>"

text \<open>The listener is in place before the core answers the newest read.\<close>

fun listens_first :: "('v, 'c, 'z) LatestHook \<Rightarrow> ('v, 'z) LatestRun \<Rightarrow> ('v, 'c) LatestOp list \<Rightarrow> bool" where
  "listens_first H s [] = True"
| "listens_first H s (op # ops) =
     ((case op of Listens \<Rightarrow> may_answer (lt_latest (lu_hook s)) s | _ \<Rightarrow> True) \<and> listens_first H (latest_step H s op) ops)"

definition latest_settled :: "('v, 'z) LatestRun \<Rightarrow> bool" where
  "latest_settled s \<longleftrightarrow> lu_listening s \<and> lu_events s = 0 \<and> lt_latest (lu_hook s) \<notin> set (lt_open (lu_hook s))"

lemmas latest_defs = latest_start_def latest_settles_def latest_emits_def latest_seeds_def Let_def

definition stamps_ok :: "('v, 'z) LatestRun \<Rightarrow> bool" where
  "stamps_ok s \<longleftrightarrow> (let h = lu_hook s in
     (\<forall>g \<in> set (lt_open h). g \<le> lt_latest h) \<and> fst ` set (lu_answers s) \<subseteq> set (lt_open h)
     \<and> sorted_wrt (<) (lt_landed h) \<and> (\<forall>g \<in> set (lt_landed h). g \<le> lt_latest h \<and> g \<notin> set (lt_open h)))"

lemma answered_open: "stamps_ok s \<Longrightarrow> map_of (lu_answers s) g = Some answer \<Longrightarrow> g \<in> set (lt_open (lu_hook s))"
  by (drule map_of_SomeD) (auto simp: stamps_ok_def Let_def)

lemma stamps_start:
  assumes ok: "stamps_ok s" and "lu_answers s' = lu_answers s" and "lu_hook s' = latest_start (lu_hook s)"
  shows "stamps_ok s'"
proof -
  let ?h = "lu_hook s"
  have "\<forall>g \<in> set (lt_open ?h). g \<le> Suc (lt_latest ?h)" using ok by (simp add: stamps_ok_def Let_def le_SucI)
  moreover have "\<forall>g \<in> set (lt_landed ?h). g \<le> Suc (lt_latest ?h) \<and> g \<noteq> Suc (lt_latest ?h) \<and> g \<notin> set (lt_open ?h)"
    using ok by (auto simp: stamps_ok_def Let_def)
  moreover have "fst ` set (lu_answers s) \<subseteq> insert x (set (lt_open ?h))" for x
    using ok unfolding stamps_ok_def Let_def by blast
  ultimately show ?thesis
    using ok assms(2,3) unfolding stamps_ok_def Let_def latest_start_def by simp
qed

lemma stamps_step:
  assumes ok: "stamps_ok s"
  shows "stamps_ok (latest_step H s op)"
proof (cases op)
  case (Lands g)
  show ?thesis
  proof (cases "map_of (lu_answers s) g")
    case (Some answer)
    then have g: "g \<in> set (lt_open (lu_hook s))" by (rule answered_open [OF ok])
    have "x < g" if "x \<in> set (lt_landed (lu_hook s))" "g = lt_latest (lu_hook s)" for x
    proof -
      have "x \<le> g" "x \<noteq> g" using that g ok by (auto simp: stamps_ok_def Let_def)
      then show ?thesis by simp
    qed
    with ok g Some Lands show ?thesis
      by (auto simp: stamps_ok_def latest_settles_def Let_def sorted_wrt_append)
  qed (use ok Lands in simp)
next
  case Revalidates
  with ok show ?thesis by (simp add: stamps_start)
next
  case HearsChange
  with ok show ?thesis by (simp add: stamps_start)
qed (use ok in \<open>auto simp: stamps_ok_def may_answer_def latest_emits_def latest_seeds_def Let_def\<close>)

text \<open>Only newer and newer reads land.\<close>

lemma stamps_init: "stamps_ok (latest_init z v)"
  by (simp add: latest_init_def latest_mounted_def stamps_ok_def)

lemma landed_increasing: "sorted_wrt (<) (lt_landed (lu_hook (foldl (latest_step H) (latest_init z v) ops)))"
proof -
  have "stamps_ok (foldl (latest_step H) (latest_init z v) ops)"
    by (induction ops rule: rev_induct) (simp_all add: stamps_step stamps_init del: latest_step.simps)
  then show ?thesis by (simp add: stamps_ok_def Let_def)
qed

subsection \<open>The contract\<close>

locale newest_wins =
  fixes H :: "('v, 'c, 'z) LatestHook" and holds :: "'z \<Rightarrow> 'v \<Rightarrow> bool"
  assumes answer_holds: "holds (lh_answer H v z) v"
    and seed_keeps: "holds z v \<Longrightarrow> holds (lh_seed H c z) v"
begin

definition up_to_date :: "('v, 'z) LatestRun \<Rightarrow> bool" where
  "up_to_date s \<longleftrightarrow> (let h = lu_hook s in lu_listening s \<longrightarrow>
     lu_events s > 0
     \<or> lt_latest h \<in> set (lt_open h) \<and> (\<forall>v. map_of (lu_answers s) (lt_latest h) = Some (Inl v) \<longrightarrow> v = lu_core s)
     \<or> lt_latest h \<notin> set (lt_open h) \<and> (lu_missed s \<or> holds (lt_state h) (lu_core s)))"

lemma starts_up_to_date:
  assumes "stamps_ok s" and "lu_answers s' = lu_answers s" and "lu_hook s' = latest_start (lu_hook s)"
  shows "up_to_date s'"
proof -
  have "map_of (lu_answers s) (lt_latest (lu_hook s) + 1) = None"
  proof -
    have "fst ` set (lu_answers s) \<subseteq> set (lt_open (lu_hook s))" "\<forall>g \<in> set (lt_open (lu_hook s)). g \<le> lt_latest (lu_hook s)"
      using assms(1) by (simp_all add: stamps_ok_def Let_def)
    then have "lt_latest (lu_hook s) + 1 \<notin> fst ` set (lu_answers s)" by fastforce
    then show ?thesis by (simp add: map_of_eq_None_iff)
  qed
  with assms(2,3) show ?thesis by (simp add: up_to_date_def latest_start_def Let_def)
qed

lemma up_to_date_step:
  assumes ok: "stamps_ok s" and u: "up_to_date s"
    and l: "op = Listens \<Longrightarrow> may_answer (lt_latest (lu_hook s)) s"
  shows "up_to_date (latest_step H s op)"
proof (cases op)
  case Revalidates
  then show ?thesis using starts_up_to_date [OF ok] by simp
next
  case HearsChange
  then show ?thesis using starts_up_to_date [OF ok] u by simp
next
  case Listens
  with l show ?thesis by (simp add: up_to_date_def may_answer_def Let_def)
next
  case (CoreReads g)
  with u show ?thesis by (auto simp: up_to_date_def may_answer_def Let_def map_add_def split: option.splits)
next
  case (CoreRefusesRead g reason)
  with u show ?thesis by (auto simp: up_to_date_def may_answer_def Let_def map_add_def split: option.splits)
next
  case (Lands g)
  show ?thesis
  proof (cases "map_of (lu_answers s) g")
    case (Some answer)
    then have g: "g \<in> set (lt_open (lu_hook s))" by (rule answered_open [OF ok])
    show ?thesis
    proof (cases "g = lt_latest (lu_hook s)")
      case True
      with Lands Some u g answer_holds show ?thesis
        by (cases answer) (auto simp: up_to_date_def latest_settles_def Let_def)
    next
      case False
      with Lands Some u show ?thesis by (auto simp: up_to_date_def latest_settles_def Let_def map_of_without)
    qed
  qed (use Lands u in simp)
next
  case (Seeds c)
  with u seed_keeps show ?thesis by (auto simp: up_to_date_def latest_seeds_def Let_def)
next
  case (Emits g c)
  with u seed_keeps show ?thesis by (auto simp: up_to_date_def latest_emits_def Let_def)
qed (use u in \<open>auto simp: up_to_date_def Let_def\<close>)

lemma run_up_to_date:
  "stamps_ok s \<Longrightarrow> up_to_date s \<Longrightarrow> listens_first H s ops \<Longrightarrow> up_to_date (foldl (latest_step H) s ops)"
proof (induction ops arbitrary: s)
  case (Cons op ops)
  have "up_to_date (latest_step H s op)" using Cons.prems by (intro up_to_date_step) auto
  with Cons show ?case by (simp add: stamps_step del: latest_step.simps)
qed simp

text \<open>With nothing outstanding, whatever the order of the answers, the state holds what the core holds.\<close>

lemma settled_holds:
  assumes "listens_first H (latest_init z v) ops" and "s = foldl (latest_step H) (latest_init z v) ops" and "latest_settled s"
  shows "lu_missed s \<or> holds (lt_state (lu_hook s)) (lu_core s)"
proof -
  have "up_to_date (latest_init z v)" by (simp add: latest_init_def up_to_date_def)
  from run_up_to_date [OF stamps_init this assms(1)] assms(2,3) show ?thesis
    by (auto simp: up_to_date_def latest_settled_def Let_def)
qed

end

subsection \<open>The cache on disk\<close>

datatype CacheKey = ProjectsKey | AppInfoKey | AgentsKey

definition SCHEMA_VERSION :: int where "SCHEMA_VERSION = 1"

record 'v Envelope =
  ev_version :: int
  ev_value :: 'v

text \<open>A read or a write that throws is a miss, respectively nothing.\<close>

definition readSnapshot :: "(CacheKey, 'v Envelope) jsmap option \<Rightarrow> CacheKey \<Rightarrow> 'v option" where
  "readSnapshot file key =
     (case file of None \<Rightarrow> None
      | Some store \<Rightarrow> (case map_get store key of None \<Rightarrow> None
          | Some envelope \<Rightarrow> if ev_version envelope \<noteq> SCHEMA_VERSION then None else Some (ev_value envelope)))"

definition writeSnapshot :: "CacheKey \<Rightarrow> 'v \<Rightarrow> (CacheKey, 'v Envelope) jsmap option \<Rightarrow> (CacheKey, 'v Envelope) jsmap option" where
  "writeSnapshot key value file = map_option (map_set key \<lparr>ev_version = SCHEMA_VERSION, ev_value = value\<rparr>) file"

subsection \<open>Stale while revalidate\<close>

text \<open>\<open>ps_file\<close> is the cache file, \<open>None\<close> where no store can be reached; \<open>ps_reported\<close> what the error sink got.\<close>

record 'v PersistentSnapshot =
  ps_value :: "'v option"
  ps_file :: "(CacheKey, 'v Envelope) jsmap option"
  ps_reported :: "jstring list"

definition usePersistentSnapshot :: "CacheKey \<Rightarrow> ('v, 'v option, 'v PersistentSnapshot) LatestHook" where
  "usePersistentSnapshot key = \<lparr>
     lh_answer = (\<lambda>v z. z\<lparr>ps_value := Some v, ps_file := writeSnapshot key v (ps_file z)\<rparr>),
     lh_refuse = (\<lambda>reason z. z\<lparr>ps_reported := ps_reported z @ [reason]\<rparr>),
     lh_seed = (\<lambda>c z. case ps_value z of None \<Rightarrow> z\<lparr>ps_value := c\<rparr> | Some _ \<Rightarrow> z)\<rparr>"

definition snapshot_mounted :: "(CacheKey, 'v Envelope) jsmap option \<Rightarrow> 'v PersistentSnapshot" where
  "snapshot_mounted file = \<lparr>ps_value = None, ps_file = file, ps_reported = []\<rparr>"

definition snapshot_run ::
  "CacheKey \<Rightarrow> (CacheKey, 'v Envelope) jsmap option \<Rightarrow> 'v \<Rightarrow> ('v, 'v option) LatestOp list \<Rightarrow> ('v, 'v PersistentSnapshot) LatestRun" where
  "snapshot_run key file core ops = foldl (latest_step (usePersistentSnapshot key)) (latest_init (snapshot_mounted file) core)
     (Seeds (readSnapshot file key) # ops)"

interpretation snapshot: newest_wins "usePersistentSnapshot key" "\<lambda>z v. ps_value z = Some v \<and> (ps_file z \<noteq> None \<longrightarrow> readSnapshot (ps_file z) key = Some v)"
  for key
  by unfold_locales (auto simp: usePersistentSnapshot_def writeSnapshot_def readSnapshot_def split: option.splits)



text \<open>
  A snapshot written by a build with another shape is a miss: reading back what was written
  gives the value, under every other key nothing changes, and an envelope of another schema
  version, an unreachable store and an absent key all read as nothing.
\<close>

theorem cache_roundtrip:
  "readSnapshot (writeSnapshot key v (Some store)) key = Some v
   \<and> (key' \<noteq> key \<longrightarrow> readSnapshot (writeSnapshot key v file) key' = readSnapshot file key')
   \<and> (version \<noteq> SCHEMA_VERSION \<longrightarrow> readSnapshot (Some (map_set key \<lparr>ev_version = version, ev_value = v\<rparr> store)) key = None)
   \<and> readSnapshot None key = (None :: 'v option)"
  by (auto simp: readSnapshot_def writeSnapshot_def update_conv split: option.splits)

theorem cache_roundtrip_witness:
  "readSnapshot (writeSnapshot AgentsKey (3 :: int) (Some [])) ProjectsKey = None
   \<and> readSnapshot (Some (map_set AgentsKey \<lparr>ev_version = 2, ev_value = (3 :: int)\<rparr> [])) AgentsKey = None"
  using cache_roundtrip [of AgentsKey "3 :: int" "[]" ProjectsKey "Some []" 2] by (simp add: readSnapshot_def SCHEMA_VERSION_def)

subsection \<open>The unread registry\<close>

text \<open>An answer that is not a snapshot (\<open>None\<close>) is not adopted; a refused read leaves the last snapshot standing.\<close>

definition useAttention :: "(AttentionSnapshot option, unit, AttentionSnapshot) LatestHook" where
  "useAttention = \<lparr>lh_answer = (\<lambda>next z. case next of None \<Rightarrow> z | Some snapshot \<Rightarrow> snapshot),
     lh_refuse = (\<lambda>_ z. z), lh_seed = (\<lambda>_ z. z)\<rparr>"

text \<open>The hook reads when it mounts, and attaches its listener afterwards.\<close>

definition attention_run ::
  "AttentionSnapshot option \<Rightarrow> (AttentionSnapshot option, unit) LatestOp list \<Rightarrow> (AttentionSnapshot option, AttentionSnapshot) LatestRun" where
  "attention_run core ops = foldl (latest_step useAttention) (latest_init NO_ATTENTION core) (Revalidates # ops)"

interpretation attention: newest_wins useAttention "\<lambda>z v. v = None \<or> v = Some z"
  by unfold_locales (auto simp: useAttention_def split: option.splits)

lemma attention_converges:
  assumes "listens_first useAttention (latest_init NO_ATTENTION core) (Revalidates # ops)"
    and "latest_settled (attention_run core ops)" and "lu_core (attention_run core ops) = Some snapshot"
  shows "lu_missed (attention_run core ops) \<or> lt_state (lu_hook (attention_run core ops)) = snapshot"
  using attention.settled_holds [OF assms(1) attention_run_def assms(2)] assms(3) by auto

text \<open>
  The unread registry is read before its listener is attached: an alert raised between the
  answer and the attachment is announced to nobody, and with nothing outstanding and no read
  refused the badge shows none of it.
\<close>

theorem alert_before_listener_is_lost:
  "let alert = \<lparr>as_processes = [\<lparr>pa_process = 1, pa_kind = AttCrashed, pa_alerts = 1\<rparr>], as_total = 1\<rparr>;
       s = attention_run (Some NO_ATTENTION) [CoreReads 1, CoreChanges (Some alert), Listens, Lands 1]
   in latest_settled s \<and> \<not> lu_missed s \<and> lu_core s = Some alert \<and> lt_state (lu_hook s) = NO_ATTENTION"
  by code_simp

end
