(* ===== verification/Settings.thy ===== *)
theory Settings
  imports Domain
begin

section \<open>Settings documents\<close>

text \<open>
  \<open>store/useSettingsResource.ts\<close> with \<open>store/persist.ts\<close> and \<open>store/useLoadOnce.ts\<close>: a settings document is
  loaded once, every change is shown at once and saved, the stored value the core answers with
  replaces it, and a refused save re-reads the document. The core executes a call some time after
  it was made, and its answer arrives some time after that; \<open>store\<close> is what the core makes of a
  document it is given.
\<close>

datatype 'v SettingsCall = LoadDoc | SaveDoc 'v | ReloadDoc

record 'v Settings =
  st_value :: 'v
  st_calls :: "(nat \<times> 'v SettingsCall) list"
  st_issued :: nat
  st_failed :: bool

definition settings_call :: "'v SettingsCall \<Rightarrow> 'v Settings \<Rightarrow> 'v Settings" where
  "settings_call c s = s\<lparr>st_calls := st_calls s @ [(st_issued s, c)], st_issued := st_issued s + 1\<rparr>"

definition useLoadOnce :: "'v Settings \<Rightarrow> 'v Settings" where
  "useLoadOnce s = settings_call LoadDoc s"

definition useSettingsResource :: "'v \<Rightarrow> 'v Settings" where
  "useSettingsResource fallback = useLoadOnce \<lparr>st_value = fallback, st_calls = [], st_issued = 0, st_failed = False\<rparr>"

definition settings_update :: "'v \<Rightarrow> 'v Settings \<Rightarrow> 'v Settings" where
  "settings_update next s = settings_call (SaveDoc next) (s\<lparr>st_value := next\<rparr>)"

text \<open>
  \<open>persistThenReconcile\<close> and the load's continuation. \<open>st_failed\<close> records that the last answer to
  arrive was a refused read, after which nothing more is tried.
\<close>

definition persistThenReconcile :: "nat \<Rightarrow> 'v option \<Rightarrow> 'v Settings \<Rightarrow> 'v Settings" where
  "persistThenReconcile t answer s =
     (case map_of (st_calls s) t of None \<Rightarrow> s
      | Some c \<Rightarrow>
          let s = s\<lparr>st_calls := filter (\<lambda>q. fst q \<noteq> t) (st_calls s)\<rparr>
          in case answer of Some v \<Rightarrow> s\<lparr>st_value := v, st_failed := False\<rparr>
             | None \<Rightarrow> (case c of SaveDoc _ \<Rightarrow> settings_call ReloadDoc s | _ \<Rightarrow> s\<lparr>st_failed := True\<rparr>))"

subsection \<open>Beside the core\<close>

record 'v SettingsRun =
  sr_hook :: "'v Settings"
  sr_core :: 'v
  sr_answers :: "(nat \<times> 'v option) list"

datatype 'v SettingsOp = Updates 'v | CoreDoes nat | CoreFails nat | AnswerArrives nat

definition core_does :: "('v \<Rightarrow> 'v) \<Rightarrow> 'v SettingsCall \<Rightarrow> 'v \<Rightarrow> 'v" where
  "core_does store c core = (case c of SaveDoc v \<Rightarrow> store v | _ \<Rightarrow> core)"

definition next_call :: "'v SettingsRun \<Rightarrow> (nat \<times> 'v SettingsCall) option" where
  "next_call s = List.find (\<lambda>q. fst q \<notin> fst ` set (sr_answers s)) (st_calls (sr_hook s))"

text \<open>The core takes the calls in the order they were made, and its answers arrive in that order.\<close>

fun settings_step :: "('v \<Rightarrow> 'v) \<Rightarrow> 'v SettingsRun \<Rightarrow> 'v SettingsOp \<Rightarrow> 'v SettingsRun" where
  "settings_step store s (Updates v) = s\<lparr>sr_hook := settings_update v (sr_hook s)\<rparr>"
| "settings_step store s (CoreDoes t) =
     (case map_of (st_calls (sr_hook s)) t of None \<Rightarrow> s
      | Some c \<Rightarrow> if t \<in> fst ` set (sr_answers s) then s
          else let core = core_does store c (sr_core s) in s\<lparr>sr_core := core, sr_answers := sr_answers s @ [(t, Some core)]\<rparr>)"
| "settings_step store s (CoreFails t) =
     (case map_of (st_calls (sr_hook s)) t of None \<Rightarrow> s
      | Some c \<Rightarrow> if t \<in> fst ` set (sr_answers s) then s else s\<lparr>sr_answers := sr_answers s @ [(t, None)]\<rparr>)"
| "settings_step store s (AnswerArrives t) =
     (case map_of (sr_answers s) t of None \<Rightarrow> s
      | Some answer \<Rightarrow> s\<lparr>sr_hook := persistThenReconcile t answer (sr_hook s), sr_answers := filter (\<lambda>a. fst a \<noteq> t) (sr_answers s)\<rparr>)"

fun in_order :: "'v SettingsRun \<Rightarrow> 'v SettingsOp \<Rightarrow> bool" where
  "in_order s (CoreDoes t) = (map_option fst (next_call s) = Some t)"
| "in_order s (CoreFails t) = (map_option fst (next_call s) = Some t)"
| "in_order s (AnswerArrives t) = (st_calls (sr_hook s) \<noteq> [] \<and> fst (hd (st_calls (sr_hook s))) = t)"
| "in_order s (Updates _) = True"

fun in_order_run :: "('v \<Rightarrow> 'v) \<Rightarrow> 'v SettingsRun \<Rightarrow> 'v SettingsOp list \<Rightarrow> bool" where
  "in_order_run store s [] = True"
| "in_order_run store s (op # ops) = (in_order s op \<and> in_order_run store (settings_step store s op) ops)"

definition settings_init :: "'v \<Rightarrow> 'v \<Rightarrow> 'v SettingsRun" where
  "settings_init fallback core = \<lparr>sr_hook = useSettingsResource fallback, sr_core = core, sr_answers = []\<rparr>"

definition settings_run :: "('v \<Rightarrow> 'v) \<Rightarrow> 'v \<Rightarrow> 'v \<Rightarrow> 'v SettingsOp list \<Rightarrow> 'v SettingsRun" where
  "settings_run store fallback core ops = foldl (settings_step store) (settings_init fallback core) ops"

lemmas settings_defs = settings_call_def useLoadOnce_def useSettingsResource_def settings_update_def
  persistThenReconcile_def core_does_def next_call_def settings_init_def settings_run_def Let_def

text \<open>The answered calls are the first ones, and the last of them tells what the core holds.\<close>

definition settings_inv :: "'v SettingsRun \<Rightarrow> bool" where
  "settings_inv s \<longleftrightarrow> (let h = sr_hook s; calls = st_calls h; n = length (sr_answers s) in
     distinct (map fst calls) \<and> (\<forall>q \<in> set calls. fst q < st_issued h)
     \<and> n \<le> length calls \<and> map fst (sr_answers s) = map fst (take n calls)
     \<and> (calls = [] \<longrightarrow> st_failed h \<or> st_value h = sr_core s)
     \<and> (\<forall>v. sr_answers s \<noteq> [] \<and> n = length calls \<and> snd (last (sr_answers s)) = Some v \<longrightarrow> v = sr_core s))"

lemma find_first: "List.find P xs = (case filter P xs of [] \<Rightarrow> None | x # _ \<Rightarrow> Some x)"
  by (induction xs) auto

lemma next_call_is:
  assumes "settings_inv s"
  shows "next_call s = (let n = length (sr_answers s) in
     if n < length (st_calls (sr_hook s)) then Some (st_calls (sr_hook s) ! n) else None)"
proof -
  let ?calls = "st_calls (sr_hook s)" and ?n = "length (sr_answers s)"
  have d: "distinct (map fst ?calls)" and n: "?n \<le> length ?calls"
    and ids: "map fst (sr_answers s) = map fst (take ?n ?calls)" using assms by (simp_all add: settings_inv_def Let_def)
  have ids': "fst ` set (sr_answers s) = fst ` set (take ?n ?calls)"
    using arg_cong [OF ids, of set] by simp
  let ?P = "\<lambda>q. fst q \<notin> fst ` set (take ?n ?calls)"
  have "filter ?P ?calls = filter ?P (take ?n ?calls) @ filter ?P (drop ?n ?calls)"
    by (metis append_take_drop_id filter_append)
  also have "filter ?P (take ?n ?calls) = []" by (auto simp: filter_empty_conv)
  also have "filter ?P (drop ?n ?calls) = drop ?n ?calls"
  proof (rule filter_eq_self)
    fix q assume "q \<in> set (drop ?n ?calls)"
    moreover have "distinct (map fst (take ?n ?calls) @ map fst (drop ?n ?calls))"
      using d by (metis append_take_drop_id map_append)
    ultimately show "?P q" by (force simp: disjoint_iff)
  qed
  finally have "filter ?P ?calls = drop ?n ?calls" by simp
  then have "next_call s = (case drop ?n ?calls of [] \<Rightarrow> None | x # _ \<Rightarrow> Some x)"
    unfolding next_call_def ids' find_first by simp
  then show ?thesis
    by (cases "?n < length ?calls") (simp_all add: Let_def flip: Cons_nth_drop_Suc)
qed

lemma answers_calls:
  assumes "settings_inv s" and "sr_answers s = a # as"
  obtains q qs where "st_calls (sr_hook s) = q # qs" and "fst a = fst q" and "fst ` set as \<subseteq> fst ` set qs"
proof -
  have ids: "map fst (sr_answers s) = map fst (take (length (sr_answers s)) (st_calls (sr_hook s)))"
    and n: "length (sr_answers s) \<le> length (st_calls (sr_hook s))" using assms(1) by (simp_all add: settings_inv_def Let_def)
  obtain q qs where calls: "st_calls (sr_hook s) = q # qs" using n assms(2) by (cases "st_calls (sr_hook s)") auto
  have "map fst as = map fst (take (length as) qs)" "fst a = fst q" using ids assms(2) calls by simp_all
  moreover have "fst ` set as = fst ` set (take (length as) qs)" using arg_cong [OF calculation(1), of set] by simp
  ultimately show ?thesis using that [OF calls] by (metis image_mono set_take_subset)
qed

lemma inv_answered:
  assumes inv: "settings_inv s" and nxt: "next_call s = Some (t, c)"
    and core: "\<And>v. answer = Some v \<Longrightarrow> core = v"
  shows "settings_inv (s\<lparr>sr_core := core, sr_answers := sr_answers s @ [(t, answer)]\<rparr>)"
proof -
  let ?n = "length (sr_answers s)" and ?calls = "st_calls (sr_hook s)"
  have n: "?n < length ?calls" and q: "?calls ! ?n = (t, c)"
    using nxt next_call_is [OF inv] by (auto simp: Let_def split: if_splits)
  then have "take (Suc ?n) ?calls = take ?n ?calls @ [(t, c)]" by (simp add: take_Suc_conv_app_nth)
  with inv n core show ?thesis by (auto simp: settings_inv_def Let_def)
qed

lemma inv_arrives:
  assumes inv: "settings_inv s" and op: "in_order s (AnswerArrives t)"
  shows "settings_inv (settings_step store s (AnswerArrives t))"
proof (cases "map_of (sr_answers s) t")
  case (Some answer)
  then obtain a as where as: "sr_answers s = a # as" by (cases "sr_answers s") auto
  from answers_calls [OF inv as] obtain q qs where calls: "st_calls (sr_hook s) = q # qs" and aq: "fst a = fst q"
    and sub: "fst ` set as \<subseteq> fst ` set qs" by metis
  have t: "t = fst q" using op calls by simp
  then have answer: "answer = snd a" using Some as aq by (cases a) auto
  have d: "fst q \<notin> fst ` set qs" "distinct (map fst qs)" and lt: "\<forall>p \<in> set (q # qs). fst p < st_issued (sr_hook s)"
    and n: "length as \<le> length qs" and ids: "map fst as = map fst (take (length as) qs)"
    and last: "\<forall>v. length as = length qs \<and> snd (last (a # as)) = Some v \<longrightarrow> v = sr_core s"
    using inv as calls by (auto simp: settings_inv_def Let_def)
  have calls': "filter (\<lambda>p. fst p \<noteq> fst q) qs = qs"
  proof (rule filter_eq_self)
    fix p assume "p \<in> set qs" then show "fst p \<noteq> fst q" using d(1) by (metis image_eqI)
  qed
  have as': "filter (\<lambda>p. fst p \<noteq> fst q) as = as"
  proof (rule filter_eq_self)
    fix p assume "p \<in> set as" then show "fst p \<noteq> fst q" using d(1) sub by (metis image_eqI subsetD)
  qed
  have get: "map_of (st_calls (sr_hook s)) t = Some (snd q)" by (cases q) (simp add: calls t)
  let ?h = "(sr_hook s)\<lparr>st_calls := qs\<rparr>"
  have hook: "persistThenReconcile t answer (sr_hook s) = (case answer of Some v \<Rightarrow> ?h\<lparr>st_value := v, st_failed := False\<rparr>
      | None \<Rightarrow> (case snd q of SaveDoc _ \<Rightarrow> settings_call ReloadDoc ?h | _ \<Rightarrow> ?h\<lparr>st_failed := True\<rparr>))"
    using calls' by (simp add: persistThenReconcile_def get calls t Let_def)
  have step: "settings_step store s (AnswerArrives t) = s\<lparr>sr_hook := persistThenReconcile t answer (sr_hook s), sr_answers := as\<rparr>"
    using Some as' aq by (simp add: as t)
  have keep: "settings_inv (s\<lparr>sr_hook := h, sr_answers := as\<rparr>)"
    if "st_calls h = qs" "st_issued h = st_issued (sr_hook s)" "qs = [] \<Longrightarrow> st_failed h \<or> st_value h = sr_core s" for h
    using d lt n ids last that unfolding settings_inv_def Let_def by auto
  have reload: "settings_inv (s\<lparr>sr_hook := settings_call ReloadDoc ?h, sr_answers := as\<rparr>)"
    using d lt n ids unfolding settings_inv_def Let_def settings_call_def by (simp add: less_SucI) auto
  have "qs = [] \<Longrightarrow> answer = Some v \<Longrightarrow> v = sr_core s" for v using last n answer by simp
  then show ?thesis
    unfolding step hook using keep reload by (cases answer; cases "snd q") simp_all
qed (use inv in simp)

lemma inv_settings_step:
  assumes inv: "settings_inv s" and op: "in_order s op"
  shows "settings_inv (settings_step store s op)"
proof (cases op)
  case (Updates v)
  with inv show ?thesis by (auto simp: settings_inv_def Let_def settings_update_def settings_call_def less_SucI)
next
  case (CoreDoes t)
  then obtain c where nxt: "next_call s = Some (t, c)" using op by (cases "next_call s") auto
  note A = inv_answered [OF inv nxt]
  show ?thesis
  proof (cases "map_of (st_calls (sr_hook s)) t")
    case (Some c')
    with CoreDoes show ?thesis
      using A [of "Some (core_does store c' (sr_core s))" "core_does store c' (sr_core s)"] inv by (simp add: Let_def)
  qed (use CoreDoes inv in simp)
next
  case (CoreFails t)
  then obtain c where nxt: "next_call s = Some (t, c)" using op by (cases "next_call s") auto
  have "s\<lparr>sr_answers := x\<rparr> = s\<lparr>sr_core := sr_core s, sr_answers := x\<rparr>" for x by simp
  then show ?thesis using CoreFails inv_answered [OF inv nxt, of None "sr_core s"] inv by (simp split: option.splits)
next
  case (AnswerArrives t)
  with inv_arrives [OF inv] op show ?thesis by (simp del: settings_step.simps)
qed

lemma settings_init_inv: "settings_inv (settings_init fallback core)"
  by (simp add: settings_inv_def settings_defs)

lemma settings_run_inv: "settings_inv s \<Longrightarrow> in_order_run store s ops \<Longrightarrow> settings_inv (foldl (settings_step store) s ops)"
  by (induction ops arbitrary: s) (auto simp: inv_settings_step simp del: settings_step.simps)

text \<open>
  The panel never silently diverges from what was persisted: with the calls executed and
  answered in the order they were made, whatever the updates and the refusals, once no call is
  out the document shown is the one the core stores, unless the very last answer was a refused
  read.
\<close>

theorem settings_match_stored:
  assumes "in_order_run store (settings_init fallback core) ops"
    and "st_calls (sr_hook (settings_run store fallback core ops)) = []"
  shows "let s = settings_run store fallback core ops in st_failed (sr_hook s) \<or> st_value (sr_hook s) = sr_core s"
  using settings_run_inv [OF settings_init_inv assms(1)] assms(2)
  unfolding settings_run_def settings_inv_def Let_def by simp

theorem settings_match_stored_witness:
  "let s = settings_run (\<lambda>v. min v 10) 0 (3 :: int) [Updates 12, CoreDoes 0, AnswerArrives 0, CoreFails 1, AnswerArrives 1, CoreDoes 2,
       Updates 14, CoreDoes 3, AnswerArrives 2, AnswerArrives 3] in st_value (sr_hook s) = 10 \<and> sr_core s = 10"
proof -
  let ?ops = "[Updates 12, CoreDoes 0, AnswerArrives 0, CoreFails 1, AnswerArrives 1, CoreDoes 2,
       Updates 14, CoreDoes 3, AnswerArrives 2, AnswerArrives 3]"
  let ?s = "settings_run (\<lambda>v. min v 10) 0 (3 :: int) ?ops"
  have run: "in_order_run (\<lambda>v. min v 10) (settings_init 0 (3 :: int)) ?ops" by code_simp
  have none: "st_calls (sr_hook ?s) = []" by code_simp
  have "\<not> st_failed (sr_hook ?s) \<and> sr_core ?s = 10" by code_simp
  with settings_match_stored [OF run none] show ?thesis by (simp add: Let_def)
qed

text \<open>
  Nothing ties an answer to the change it answers: with the saves executed in order but answered
  out of it, the older save's echo is what stays on screen although the newer one is stored; and
  the mount's load, answered before a save and arriving after its echo, puts the old document
  back.
\<close>

theorem late_answers_hide_stored_settings:
  "(let s = settings_run id 0 (1 :: int) [CoreDoes 0, AnswerArrives 0, Updates 2, Updates 3, CoreDoes 1, CoreDoes 2, AnswerArrives 2, AnswerArrives 1]
    in st_calls (sr_hook s) = [] \<and> \<not> st_failed (sr_hook s) \<and> sr_core s = 3 \<and> st_value (sr_hook s) = 2)
   \<and> (let s = settings_run id 0 (1 :: int) [CoreDoes 0, Updates 2, CoreDoes 1, AnswerArrives 1, AnswerArrives 0]
    in st_calls (sr_hook s) = [] \<and> \<not> st_failed (sr_hook s) \<and> sr_core s = 2 \<and> st_value (sr_hook s) = 1)"
  by code_simp

end
