(* ===== verification/Projects.thy ===== *)
theory Projects
  imports Snapshots
begin

section \<open>Projects, leftovers and limited watches\<close>

text \<open>
  \<open>store/projects/useProjects.ts\<close> (the project list over its cached snapshot, its arrangement and the notice
  of an opened folder), \<open>store/useOrphans.ts\<close> (leftover process groups) and \<open>store/useWatchLimits.ts\<close>.
\<close>

subsection \<open>The project list\<close>

record ProjectLoad =
  pl_id :: int
  pl_processes :: int
  pl_created :: bool

definition folderName :: "jstring \<Rightarrow> jstring" where
  "folderName path =
     (let parts = filter (\<lambda>p. p \<noteq> []) (split_on 47 (map (\<lambda>c. if c = 92 then 47 else c) path))
      in if parts = [] then path else last parts)"

definition quoted_folder :: "jstring \<Rightarrow> jstring" where
  "quoted_folder folder = 8220 # folder @ [8221]"

definition noticeFor :: "jstring \<Rightarrow> ProjectLoad \<Rightarrow> jstring option" where
  "noticeFor folder load =
     (if pl_created load then
        (if pl_processes load = 0
         then Some (lit ''Created a starter solo.yml in '' @ quoted_folder folder @ lit ''. Add the commands you want Soloist to run.'')
         else
           let commands = (if pl_processes load = 1 then lit ''1 command'' else show_int (pl_processes load) @ lit '' commands'')
           in Some (lit ''Created a solo.yml in '' @ quoted_folder folder @ lit '' with the '' @ commands
             @ lit '' Soloist detected '' @ [8212] @ lit '' pick the ones you want to run.''))
      else if pl_processes load = 0
      then Some (quoted_folder folder @ lit '' has a solo.yml but no commands yet. Add the ones you want Soloist to run.'')
      else None)"

text \<open>
  The hook's own state beside the snapshot's; \<open>pt_value\<close> is the snapshot the list was last derived
  from. A call is a ticket; what it answers comes later.
\<close>

datatype ProjectCall = OpenDirectory | LoadProject jstring | RemoveProject int | ReorderProjects "int list"

record ProjectStore =
  pt_value :: "ProjectView list option"
  pt_arranged :: "ProjectView list option"
  pt_notice :: "jstring option"
  pt_calls :: "(nat \<times> ProjectCall) list"
  pt_issued :: nat
  pt_reported :: "jstring list"

definition useProjects :: ProjectStore where
  "useProjects = \<lparr>pt_value = None, pt_arranged = None, pt_notice = None, pt_calls = [], pt_issued = 0, pt_reported = []\<rparr>"

definition projects_shown :: "ProjectStore \<Rightarrow> ProjectView list" where
  "projects_shown s = (case pt_arranged s of Some a \<Rightarrow> a | None \<Rightarrow> (case pt_value s of Some v \<Rightarrow> v | None \<Rightarrow> []))"

definition revalidates_on :: "DomainEvent \<Rightarrow> bool" where
  "revalidates_on ev = (case ev of EvProjectOpened _ \<Rightarrow> True | EvProjectRemoved _ \<Rightarrow> True | EvProjectsReordered \<Rightarrow> True | _ \<Rightarrow> False)"

text \<open>A fresh snapshot drops the arrangement.\<close>

definition snapshot_changes :: "ProjectView list \<Rightarrow> ProjectStore \<Rightarrow> ProjectStore" where
  "snapshot_changes v s = s\<lparr>pt_value := Some v, pt_arranged := None\<rparr>"

definition project_call :: "ProjectCall \<Rightarrow> ProjectStore \<Rightarrow> ProjectStore" where
  "project_call c s = s\<lparr>pt_calls := pt_calls s @ [(pt_issued s, c)], pt_issued := pt_issued s + 1\<rparr>"

definition open_project :: "ProjectStore \<Rightarrow> ProjectStore" where
  "open_project s = project_call OpenDirectory s"

definition remove_project :: "int \<Rightarrow> ProjectStore \<Rightarrow> ProjectStore" where
  "remove_project project s = project_call (RemoveProject project) s"

definition arrange :: "int list \<Rightarrow> ProjectView list \<Rightarrow> ProjectView list" where
  "arrange order projects =
     (let byId = map_from (map (\<lambda>p. (pj_id p, p)) projects)
      in concat (map (\<lambda>i. case map_get byId i of None \<Rightarrow> [] | Some p \<Rightarrow> [p]) order)
         @ filter (\<lambda>p. pj_id p \<notin> set order) projects)"

definition reorder :: "int list \<Rightarrow> ProjectStore \<Rightarrow> ProjectStore" where
  "reorder order s = project_call (ReorderProjects order) (s\<lparr>pt_arranged := Some (arrange order (projects_shown s))\<rparr>)"

definition settle_call :: "nat \<Rightarrow> ProjectStore \<Rightarrow> ProjectStore" where
  "settle_call t s = s\<lparr>pt_calls := filter (\<lambda>c. fst c \<noteq> t) (pt_calls s)\<rparr>"

definition directory_picked :: "nat \<Rightarrow> jstring option \<Rightarrow> ProjectStore \<Rightarrow> ProjectStore" where
  "directory_picked t path s =
     (if map_of (pt_calls s) t = Some OpenDirectory
      then (case path of None \<Rightarrow> settle_call t s
        | Some p \<Rightarrow> project_call (LoadProject p) ((settle_call t s)\<lparr>pt_notice := None\<rparr>)) else s)"

definition project_loaded :: "nat \<Rightarrow> ProjectLoad \<Rightarrow> ProjectStore \<Rightarrow> ProjectStore" where
  "project_loaded t load s =
     (case map_of (pt_calls s) t of
        Some (LoadProject p) \<Rightarrow> (settle_call t s)\<lparr>pt_notice := noticeFor (folderName p) load\<rparr>
      | _ \<Rightarrow> s)"

definition call_done :: "nat \<Rightarrow> ProjectStore \<Rightarrow> ProjectStore" where
  "call_done t s = settle_call t s"

definition project_refused :: "nat \<Rightarrow> jstring \<Rightarrow> ProjectStore \<Rightarrow> ProjectStore" where
  "project_refused t reason s =
     (case map_of (pt_calls s) t of None \<Rightarrow> s
      | Some c \<Rightarrow>
          let s = (settle_call t s)\<lparr>pt_reported := pt_reported s @ [reason]\<rparr>
          in case c of ReorderProjects _ \<Rightarrow> s\<lparr>pt_arranged := None\<rparr> | _ \<Rightarrow> s)"

lemmas project_defs = useProjects_def projects_shown_def snapshot_changes_def project_call_def open_project_def
  remove_project_def reorder_def settle_call_def directory_picked_def project_loaded_def call_done_def project_refused_def

lemma named_projects:
  assumes d: "distinct (map pj_id ps)" and sub: "set order \<subseteq> pj_id ` set ps"
  defines "get \<equiv> map_get (map_from (map (\<lambda>p. (pj_id p, p)) ps))"
  shows "concat (map (\<lambda>i. case get i of None \<Rightarrow> [] | Some p \<Rightarrow> [p]) order) = map (\<lambda>i. the (get i)) order"
    and "\<And>i. i \<in> set order \<Longrightarrow> the (get i) \<in> set ps \<and> pj_id (the (get i)) = i"
    and "\<And>p. p \<in> set ps \<Longrightarrow> the (get (pj_id p)) = p"
proof -
  have get: "get i = map_of (map (\<lambda>p. (pj_id p, p)) ps) i" for i
    unfolding get_def using d by (intro map_get_from_distinct) (simp add: comp_def)
  have known: "get (pj_id p) = Some p" if "p \<in> set ps" for p
    unfolding get using d that by (intro map_of_is_SomeI) (auto simp: comp_def)
  have at: "\<exists>p \<in> set ps. get i = Some p \<and> pj_id p = i" if "i \<in> set order" for i
  proof -
    have "i \<in> pj_id ` set ps" using sub that by blast
    then obtain p where "p \<in> set ps" "pj_id p = i" by blast
    with known show ?thesis by blast
  qed
  have "concat (map (\<lambda>i. case get i of None \<Rightarrow> [] | Some p \<Rightarrow> [p]) xs) = map (\<lambda>i. the (get i)) xs"
    if "set xs \<subseteq> set order" for xs
    using that
  proof (induction xs)
    case (Cons x xs)
    moreover obtain p where "get x = Some p" using at [of x] Cons.prems by auto
    ultimately show ?case by simp
  qed simp
  then show "concat (map (\<lambda>i. case get i of None \<Rightarrow> [] | Some p \<Rightarrow> [p]) order) = map (\<lambda>i. the (get i)) order" by blast
  show "the (get i) \<in> set ps \<and> pj_id (the (get i)) = i" if "i \<in> set order" for i using at [OF that] by auto
  show "the (get (pj_id p)) = p" if "p \<in> set ps" for p using known [OF that] by simp
qed

lemma arrange_ids:
  assumes "distinct (map pj_id ps)" and "set order \<subseteq> pj_id ` set ps"
  shows "map pj_id (arrange order ps) = order @ filter (\<lambda>i. i \<notin> set order) (map pj_id ps)"
  using named_projects(1,2) [OF assms]
  by (simp add: arrange_def Let_def filter_map comp_def map_idI)

lemma arrange_set:
  assumes "distinct (map pj_id ps)" and "set order \<subseteq> pj_id ` set ps"
  shows "set (arrange order ps) = set ps"
proof -
  note N = named_projects [OF assms]
  have "p \<in> set (arrange order ps)" if "p \<in> set ps" for p
    using that N(3) [OF that] unfolding arrange_def Let_def N(1) by (cases "pj_id p \<in> set order") force+
  moreover have "p \<in> set ps" if "p \<in> set (arrange order ps)" for p
    using that N(2) unfolding arrange_def Let_def N(1) by auto
  ultimately show ?thesis by blast
qed

lemma arrange_mset:
  assumes "distinct (map pj_id ps)" and "distinct order" and "set order \<subseteq> pj_id ` set ps"
  shows "mset (arrange order ps) = mset ps"
proof -
  have "distinct (map pj_id (arrange order ps))"
    unfolding arrange_ids [OF assms(1,3)] using assms(1,2) by (auto simp: distinct_map_filter)
  then have "distinct (arrange order ps)" "distinct ps" using assms(1) by (simp_all add: distinct_map)
  with arrange_set [OF assms(1,3)] show ?thesis by (simp add: set_eq_iff_mset_eq_distinct)
qed

text \<open>
  Arranging loses and duplicates nothing: for an order that names projects of the list without
  repetition, the list shown is the same projects, the named ones first in the order given, the
  rest behind them in the order they had; and a refused arrangement, like a fresh snapshot,
  shows the core's list again.
\<close>

theorem reorder_keeps_projects:
  assumes "distinct (map pj_id (projects_shown s))" and "distinct order" and "set order \<subseteq> pj_id ` set (projects_shown s)"
  shows "mset (projects_shown (reorder order s)) = mset (projects_shown s)
    \<and> map pj_id (projects_shown (reorder order s)) = order @ filter (\<lambda>i. i \<notin> set order) (map pj_id (projects_shown s))
    \<and> projects_shown (project_refused (pt_issued s) reason (reorder order (s\<lparr>pt_calls := []\<rparr>))) = (case pt_value s of None \<Rightarrow> [] | Some v \<Rightarrow> v)"
  using assms arrange_mset [OF assms] arrange_ids [OF assms(1,3)]
  by (simp add: projects_shown_def reorder_def project_call_def project_refused_def settle_call_def)

theorem reorder_keeps_projects_witness:
  "let p = (\<lambda>i. \<lparr>pj_id = i, pj_name = [], pj_root = [], pj_icon = None\<rparr>); s = snapshot_changes [p 1, p 2, p 3] useProjects in
   map pj_id (projects_shown (reorder [3, 1] s)) = [3, 1, 2]"
proof -
  let ?p = "\<lambda>i. \<lparr>pj_id = i, pj_name = [], pj_root = [], pj_icon = None\<rparr>"
  let ?s = "snapshot_changes [?p 1, ?p 2, ?p 3] useProjects"
  have "distinct (map pj_id (projects_shown ?s))" "distinct [3, 1 :: int]" "set [3, 1] \<subseteq> pj_id ` set (projects_shown ?s)"
    by (simp_all add: project_defs)
  from reorder_keeps_projects [OF this, of "[]"] show ?thesis by (simp add: project_defs Let_def)
qed

text \<open>The folder a notice names is the last part of the path, whatever separators surround it.\<close>

lemma folderName_leaf:
  assumes "leaf \<noteq> []" and "47 \<notin> set leaf" and "92 \<notin> set leaf" and "sep = 47 \<or> sep = 92"
  shows "folderName (path @ sep # leaf) = leaf" and "folderName (path @ sep # leaf @ [sep]) = leaf"
proof -
  let ?f = "\<lambda>c :: nat. if c = 92 then 47 else c"
  have leaf: "map ?f leaf = leaf" using assms(3) by (intro map_idI) auto
  have parts: "split_on c (ys @ c # xs) = split_on c ys @ split_on c xs" for c :: nat and ys xs
    using split_on_nonempty [of c] by (induction ys) (auto split: list.splits)
  show "folderName (path @ sep # leaf) = leaf"
    using assms leaf by (auto simp: folderName_def parts split_on_single Let_def)
  show "folderName (path @ sep # leaf @ [sep]) = leaf"
    using assms leaf split_on_append [of 47 leaf "[]"] by (auto simp: folderName_def parts Let_def)
qed

subsection \<open>Leftover process groups\<close>

record OrphanStore =
  oh_orphans :: "OrphanInfo list option"
  oh_kills :: "(nat \<times> int) list"
  oh_issued :: nat
  oh_errors :: "jstring list"

definition useOrphans :: OrphanStore where
  "useOrphans = \<lparr>oh_orphans = None, oh_kills = [], oh_issued = 0, oh_errors = []\<rparr>"

definition orphans_hear :: "DomainEvent \<Rightarrow> OrphanStore \<Rightarrow> OrphanStore" where
  "orphans_hear ev s = (case ev of EvOrphansFound found \<Rightarrow> s\<lparr>oh_orphans := Some found\<rparr> | _ \<Rightarrow> s)"

definition killOne :: "int \<Rightarrow> OrphanStore \<Rightarrow> OrphanStore" where
  "killOne pgid s = s\<lparr>oh_kills := oh_kills s @ [(oh_issued s, pgid)], oh_issued := oh_issued s + 1\<rparr>"

definition killAll :: "OrphanStore \<Rightarrow> OrphanStore" where
  "killAll s = (case oh_orphans s of None \<Rightarrow> s | Some found \<Rightarrow> foldl (\<lambda>s orphan. killOne (or_pgid orphan) s) s found)"

definition leave_orphans :: "OrphanStore \<Rightarrow> OrphanStore" where
  "leave_orphans s = s\<lparr>oh_orphans := None\<rparr>"

definition kill_confirmed :: "nat \<Rightarrow> OrphanStore \<Rightarrow> OrphanStore" where
  "kill_confirmed t s =
     (case map_of (oh_kills s) t of None \<Rightarrow> s
      | Some pgid \<Rightarrow> s\<lparr>oh_kills := filter (\<lambda>k. fst k \<noteq> t) (oh_kills s),
          oh_orphans := (case oh_orphans s of None \<Rightarrow> None
            | Some prev \<Rightarrow> let next = filter (\<lambda>orphan. or_pgid orphan \<noteq> pgid) prev in if next = [] then None else Some next)\<rparr>)"

definition kill_failed :: "nat \<Rightarrow> jstring \<Rightarrow> OrphanStore \<Rightarrow> OrphanStore" where
  "kill_failed t reason s =
     (case map_of (oh_kills s) t of None \<Rightarrow> s
      | Some pgid \<Rightarrow> s\<lparr>oh_kills := filter (\<lambda>k. fst k \<noteq> t) (oh_kills s), oh_errors := oh_errors s @ [reason]\<rparr>)"

datatype OrphanOp = KillsOne int | KillsAll | KillConfirmed nat | KillFailed nat jstring

fun orphan_step :: "OrphanStore \<times> int list \<Rightarrow> OrphanOp \<Rightarrow> OrphanStore \<times> int list" where
  "orphan_step (s, killed) (KillsOne pgid) = (killOne pgid s, killed)"
| "orphan_step (s, killed) KillsAll = (killAll s, killed)"
| "orphan_step (s, killed) (KillConfirmed t) =
     (kill_confirmed t s, case map_of (oh_kills s) t of None \<Rightarrow> killed | Some pgid \<Rightarrow> pgid # killed)"
| "orphan_step (s, killed) (KillFailed t reason) = (kill_failed t reason s, killed)"

text \<open>What the dialog lists once the groups of \<open>killed\<close> are confirmed dead.\<close>

definition still_listed :: "OrphanInfo list \<Rightarrow> int list \<Rightarrow> OrphanInfo list option" where
  "still_listed found killed =
     (let rest = filter (\<lambda>orphan. or_pgid orphan \<notin> set killed) found
      in if killed \<noteq> [] \<and> rest = [] then None else Some rest)"

lemma killOne_list [simp]: "oh_orphans (killOne pgid s) = oh_orphans s"
  by (simp add: killOne_def)

lemma killEach_list [simp]: "oh_orphans (foldl (\<lambda>s orphan. killOne (or_pgid orphan) s) s found) = oh_orphans s"
  by (induction found arbitrary: s) simp_all

lemma killAll_list [simp]: "oh_orphans (killAll s) = oh_orphans s"
  by (simp add: killAll_def split: option.splits)

lemma still_listed_more:
  "(case still_listed found killed of None \<Rightarrow> None
     | Some prev \<Rightarrow> let next = filter (\<lambda>orphan. or_pgid orphan \<noteq> pgid) prev in if next = [] then None else Some next)
   = still_listed found (pgid # killed)"
  by (auto simp: still_listed_def Let_def filter_empty_conv intro: filter_cong)

text \<open>
  A leftover group leaves the dialog only when its kill is confirmed: after any run of single
  kills, kill-alls, confirmations and failures in any order, the dialog lists exactly the groups
  found whose kill was not confirmed, and closes exactly when the last of them was.
\<close>

theorem orphans_listed_until_confirmed:
  "oh_orphans (fst (foldl orphan_step (orphans_hear (EvOrphansFound found) useOrphans, []) ops))
   = still_listed found (snd (foldl orphan_step (orphans_hear (EvOrphansFound found) useOrphans, []) ops))"
proof (induction ops rule: rev_induct)
  case Nil
  show ?case by (simp add: orphans_hear_def still_listed_def)
next
  case (snoc op ops)
  obtain s killed where s: "foldl orphan_step (orphans_hear (EvOrphansFound found) useOrphans, []) ops = (s, killed)"
    by (cases "foldl orphan_step (orphans_hear (EvOrphansFound found) useOrphans, []) ops")
  with snoc have listed: "oh_orphans s = still_listed found killed" by simp
  show ?case
    using still_listed_more [of _ found killed]
    by (cases op) (auto simp: s listed kill_confirmed_def kill_failed_def split: option.splits)
qed

subsection \<open>Limited watches\<close>

type_synonym WatchLimits = "(int, PurposeLimits) jsmap"

definition sameLimit :: "WatchLimit \<Rightarrow> WatchLimit \<Rightarrow> bool" where
  "sameLimit a b = (case (a, b) of (Refused x, Refused y) \<Rightarrow> x = y | (Degraded, Degraded) \<Rightarrow> True | _ \<Rightarrow> False)"

definition alreadyHeld :: "PurposeLimits option \<Rightarrow> PurposeLimits \<Rightarrow> bool" where
  "alreadyHeld held announced =
     (let held = (case held of None \<Rightarrow> [] | Some h \<Rightarrow> h)
      in length announced = length held
         \<and> list_all (\<lambda>(purpose, limit). case map_of held purpose of None \<Rightarrow> False | Some current \<Rightarrow> sameLimit current limit) announced)"

text \<open>\<open>None\<close> is the same map again: nothing re-renders.\<close>

fun watch_update :: "DomainEvent \<Rightarrow> WatchLimits \<Rightarrow> WatchLimits option" where
  "watch_update (EvWatchLimitChanged project announced) limits =
     (if alreadyHeld (map_get limits project) announced then None
      else if announced \<noteq> [] then Some (map_set project announced limits) else Some (map_delete project limits))"
| "watch_update (EvProjectRemoved i) limits = (if \<not> map_has limits i then None else Some (map_delete i limits))"
| "watch_update _ limits = None"

definition useWatchLimits :: "WatchLimits \<Rightarrow> DomainEvent \<Rightarrow> WatchLimits" where
  "useWatchLimits limits ev = (case watch_update ev limits of None \<Rightarrow> limits | Some next \<Rightarrow> next)"

fun announced_limit :: "int \<Rightarrow> WatchPurpose \<Rightarrow> WatchLimit option \<Rightarrow> DomainEvent \<Rightarrow> WatchLimit option" where
  "announced_limit project purpose limit (EvWatchLimitChanged p announced) = (if p = project then map_of announced purpose else limit)"
| "announced_limit project purpose limit (EvProjectRemoved p) = (if p = project then None else limit)"
| "announced_limit project purpose limit _ = limit"

definition limit_of :: "WatchLimits \<Rightarrow> int \<Rightarrow> WatchPurpose \<Rightarrow> WatchLimit option" where
  "limit_of limits project purpose = (case map_get limits project of None \<Rightarrow> None | Some held \<Rightarrow> map_of held purpose)"

definition limits_ok :: "WatchLimits \<Rightarrow> bool" where
  "limits_ok limits \<longleftrightarrow> (\<forall>held \<in> snd ` set limits. distinct (map fst held))"

text \<open>An announcement names each purpose at most once.\<close>

fun proper_event :: "DomainEvent \<Rightarrow> bool" where
  "proper_event (EvWatchLimitChanged _ announced) = distinct (map fst announced)"
| "proper_event _ = True"

lemma sameLimit_eq: "sameLimit a b \<longleftrightarrow> a = b"
  by (cases a; cases b) (simp_all add: sameLimit_def)

lemma alreadyHeld_eq:
  assumes "distinct (map fst held)" and "distinct (map fst announced)" and "alreadyHeld (Some held) announced"
  shows "map_of held = map_of announced"
proof -
  have sub: "set announced \<subseteq> set held"
  proof (rule subsetI, clarify)
    fix purpose limit assume "(purpose, limit) \<in> set announced"
    then have "map_of held purpose = Some limit"
      using assms(3) by (auto simp: alreadyHeld_def sameLimit_eq list_all_iff split: option.splits)
    then show "(purpose, limit) \<in> set held" by (rule map_of_SomeD)
  qed
  have "distinct held" "distinct announced" "length held = length announced"
    using assms by (simp_all add: distinct_map alreadyHeld_def)
  then have "card (set announced) = card (set held)" by (simp add: distinct_card)
  with sub have "set announced = set held" by (simp add: card_subset_eq)
  with assms(1,2) show ?thesis by (metis map_of_inject_set)
qed

lemma limits_ok_step:
  assumes "limits_ok limits" and "proper_event ev"
  shows "limits_ok (useWatchLimits limits ev)"
proof -
  have set: "limits_ok (map_set p held limits)" if "distinct (map fst held)" for p held
    using assms(1) that by (induction limits) (auto simp: limits_ok_def)
  have del: "limits_ok (map_delete p limits)" for p
    using assms(1) by (auto simp: limits_ok_def AList.delete_eq)
  show ?thesis using assms set del by (cases ev) (auto simp: useWatchLimits_def)
qed

lemma limit_step:
  assumes "limits_ok limits" and "proper_event ev"
  shows "limit_of (useWatchLimits limits ev) project purpose = announced_limit project purpose (limit_of limits project purpose) ev"
proof (cases ev)
  case (EvWatchLimitChanged p announced)
  have held: "map_of held purpose = map_of announced purpose"
    if "map_get limits p = Some held" "alreadyHeld (Some held) announced" for held
  proof -
    have "distinct (map fst held)" using assms(1) map_of_SomeD [OF that(1)] by (force simp: limits_ok_def)
    with that(2) assms(2) EvWatchLimitChanged show ?thesis using alreadyHeld_eq by simp
  qed
  show ?thesis
  proof (cases "alreadyHeld (map_get limits p) announced")
    case True
    with held EvWatchLimitChanged show ?thesis
      by (cases "map_get limits p") (auto simp: useWatchLimits_def limit_of_def alreadyHeld_def)
  next
    case False
    with EvWatchLimitChanged show ?thesis by (auto simp: useWatchLimits_def limit_of_def update_conv delete_conv)
  qed
next
  case (EvProjectRemoved p)
  then show ?thesis
    by (auto simp: useWatchLimits_def limit_of_def delete_conv map_has_def split: option.splits)
qed (simp_all add: useWatchLimits_def)

text \<open>
  Every project header shows the limits last announced for it: after any events, a project's
  limit for a purpose is what its last announcement said, and none after the project was
  removed; an announcement that repeats what is held hands out the same map again.
\<close>

theorem watch_limits_exact:
  assumes "list_all proper_event evs"
  shows "limit_of (foldl useWatchLimits [] evs) project purpose = foldl (announced_limit project purpose) None evs
    \<and> (proper_event (EvWatchLimitChanged project announced) \<longrightarrow> announced \<noteq> [] \<longrightarrow>
       watch_update (EvWatchLimitChanged project announced) (useWatchLimits (foldl useWatchLimits [] evs) (EvWatchLimitChanged project announced)) = None)"
proof -
  have "limits_ok (foldl useWatchLimits [] evs)
    \<and> limit_of (foldl useWatchLimits [] evs) project purpose = foldl (announced_limit project purpose) None evs"
    using assms
  proof (induction evs rule: rev_induct)
    case (snoc ev evs)
    then show ?case by (simp add: limits_ok_step limit_step)
  qed (simp add: limits_ok_def limit_of_def)
  moreover have "alreadyHeld (Some announced) announced" if "distinct (map fst announced)"
    using that by (auto simp: alreadyHeld_def sameLimit_eq list_all_iff)
  ultimately show ?thesis by (auto simp: useWatchLimits_def update_conv)
qed

theorem watch_limits_exact_witness:
  "limit_of (foldl useWatchLimits [] [EvWatchLimitChanged 1 [(Restarts, Degraded)], EvWatchLimitChanged 2 [(Restarts, Degraded)],
      EvProjectRemoved 2, EvWatchLimitChanged 1 [(GitStatusPurpose, Refused Unwatchable)]]) 1 GitStatusPurpose = Some (Refused Unwatchable)"
  using watch_limits_exact [of "[EvWatchLimitChanged 1 [(Restarts, Degraded)], EvWatchLimitChanged 2 [(Restarts, Degraded)],
      EvProjectRemoved 2, EvWatchLimitChanged 1 [(GitStatusPurpose, Refused Unwatchable)]]" 1 GitStatusPurpose "[]"] by simp

end
