(* ===== verification/Templates.thy ===== *)
theory Templates
  imports Notify
begin

section \<open>The template manager\<close>

text \<open>
  \<open>store/templateCopy.ts\<close> (a free name for a copy), \<open>store/useTemplateRender.ts\<close> (the live preview of a
  prompt template, debounced and stamped) and \<open>store/useTemplates.ts\<close> (both libraries, grouped by kind
  and scope, and the project's defaults).
\<close>

subsection \<open>A free name\<close>

definition copy_candidate :: "jstring \<Rightarrow> nat \<Rightarrow> jstring" where
  "copy_candidate first n = first @ lit '' '' @ show_nat n"

lemma copy_candidate_inj [simp]: "copy_candidate first m = copy_candidate first n \<longleftrightarrow> m = n"
  by (simp add: copy_candidate_def)

lemma finite_taken: "finite {m. n \<le> m \<and> copy_candidate first m \<in> set existing}"
proof (rule finite_imageD)
  show "finite (copy_candidate first ` {m. n \<le> m \<and> copy_candidate first m \<in> set existing})"
    by (rule finite_subset [of _ "set existing"]) auto
qed (simp add: inj_on_def)

function copy_from :: "jstring \<Rightarrow> nat \<Rightarrow> jstring list \<Rightarrow> jstring" where
  "copy_from first n existing =
     (if copy_candidate first n \<notin> set existing then copy_candidate first n else copy_from first (n + 1) existing)"
  by pat_completeness auto

termination
proof (relation "measure (\<lambda>(first, n, existing). card {m. n \<le> m \<and> copy_candidate first m \<in> set existing})")
  fix first :: jstring and n and existing :: "jstring list"
  assume "\<not> copy_candidate first n \<notin> set existing"
  then have "n \<in> {m. n \<le> m \<and> copy_candidate first m \<in> set existing} - {m. n + 1 \<le> m \<and> copy_candidate first m \<in> set existing}"
    by simp
  moreover have "{m. n + 1 \<le> m \<and> copy_candidate first m \<in> set existing} \<subseteq> {m. n \<le> m \<and> copy_candidate first m \<in> set existing}"
    by auto
  ultimately have "{m. n + 1 \<le> m \<and> copy_candidate first m \<in> set existing} \<subset> {m. n \<le> m \<and> copy_candidate first m \<in> set existing}"
    by blast
  then show "((first, n + 1, existing), first, n, existing)
      \<in> measure (\<lambda>(first, n, existing). card {m. n \<le> m \<and> copy_candidate first m \<in> set existing})"
    by (simp add: psubset_card_mono finite_taken)
qed simp

definition uniqueCopyName :: "jstring \<Rightarrow> jstring list \<Rightarrow> jstring" where
  "uniqueCopyName base existing =
     (let first = base @ lit '' copy'' in if first \<notin> set existing then first else copy_from first 2 existing)"

lemma copy_from_free:
  "copy_from first n existing \<notin> set existing
   \<and> (\<exists>m \<ge> n. copy_from first n existing = copy_candidate first m \<and> (\<forall>k. n \<le> k \<and> k < m \<longrightarrow> copy_candidate first k \<in> set existing))"
proof (induction first n existing rule: copy_from.induct)
  case (1 first n existing)
  show ?case
  proof (cases "copy_candidate first n \<in> set existing")
    case True
    with 1 obtain m where m: "m \<ge> n + 1" "copy_from first (n + 1) existing = copy_candidate first m"
      "\<forall>k. n + 1 \<le> k \<and> k < m \<longrightarrow> copy_candidate first k \<in> set existing" "copy_from first (n + 1) existing \<notin> set existing"
      by auto
    have "copy_candidate first k \<in> set existing" if "n \<le> k" "k < m" for k
      using that m(3) True by (cases "k = n") auto
    moreover have "copy_from first n existing = copy_from first (n + 1) existing" using True by (subst copy_from.simps) simp
    ultimately show ?thesis using m(1,2,4) by (metis le_Suc_eq less_or_eq_imp_le Suc_eq_plus1 Suc_leD)
  qed auto
qed

text \<open>
  Duplicating a template always finds a name: the search ends, the name is taken by no template
  of the library, and it is the first free one of the series the base name starts.
\<close>

theorem copy_name_is_first_free:
  "uniqueCopyName base existing \<notin> set existing
   \<and> (uniqueCopyName base existing = base @ lit '' copy''
      \<or> base @ lit '' copy'' \<in> set existing \<and> (\<exists>m \<ge> 2. uniqueCopyName base existing = copy_candidate (base @ lit '' copy'') m
           \<and> (\<forall>k. 2 \<le> k \<and> k < m \<longrightarrow> copy_candidate (base @ lit '' copy'') k \<in> set existing)))"
  using copy_from_free [of "base @ lit '' copy''" 2 existing]
  by (auto simp: uniqueCopyName_def Let_def simp del: copy_from.simps)

theorem copy_name_is_first_free_witness:
  "uniqueCopyName (lit ''a'') [lit ''a copy 2'', lit ''a copy''] \<notin> set [lit ''a copy 2'', lit ''a copy'']
   \<and> uniqueCopyName (lit ''a'') [lit ''a copy 2'', lit ''a copy''] = lit ''a copy 3''"
proof -
  have "uniqueCopyName (lit ''a'') [lit ''a copy 2'', lit ''a copy''] = lit ''a copy 3''" by code_simp
  with copy_name_is_first_free [of "lit ''a''" "[lit ''a copy 2'', lit ''a copy'']"] show ?thesis by simp
qed

subsection \<open>The live preview\<close>

record RenderedPrompt =
  rq_text :: jstring
  rq_unfilled :: "jstring list"
  rq_unknown :: "jstring list"

record TemplateRenderTarget =
  tg_kind :: "TemplateKind option"
  tg_scope :: "TemplateScope option"
  tg_name :: "jstring option"
  tg_project :: "int option"
  tg_revision :: "int option"

text \<open>A render's closure: what it was scheduled for.\<close>

type_synonym RenderParams = "TemplateRenderTarget \<times> (jstring, jstring) jsmap"

record TemplateRender =
  tq_target :: TemplateRenderTarget
  tq_values :: "(jstring, jstring) jsmap"
  tq_rendered :: "RenderedPrompt option"
  tq_error :: "jstring option"
  tq_timer :: "RenderParams option"
  tq_latest :: nat
  tq_inflight :: "(nat \<times> RenderParams) list"
  tq_landed :: "(RenderParams \<times> (RenderedPrompt + jstring)) list"

definition RENDER_DEBOUNCE_MS :: int where "RENDER_DEBOUNCE_MS = 200"

definition wire_kind :: "TemplateKind option \<Rightarrow> jstring" where
  "wire_kind kind = (case kind of None \<Rightarrow> lit ''null'' | Some TplPrompt \<Rightarrow> lit ''prompt'' | Some TplScratchpad \<Rightarrow> lit ''scratchpad''
     | Some TplTodo \<Rightarrow> lit ''todo'' | Some TplPr \<Rightarrow> lit ''pr'')"

definition wire_scope :: "TemplateScope option \<Rightarrow> jstring" where
  "wire_scope scope = (case scope of None \<Rightarrow> lit ''null'' | Some ScopeGlobal \<Rightarrow> lit ''global'' | Some ScopeProject \<Rightarrow> lit ''project'')"

definition target_key :: "TemplateRenderTarget \<Rightarrow> jstring" where
  "target_key t = wire_kind (tg_kind t) @ lit '':'' @ wire_scope (tg_scope t) @ lit '':''
     @ (case tg_name t of None \<Rightarrow> lit ''null'' | Some n \<Rightarrow> n)"

definition renderable :: "TemplateRenderTarget \<Rightarrow> bool" where
  "renderable t \<longleftrightarrow> tg_kind t = Some RENDERABLE_TEMPLATE_KIND"

definition renders :: "TemplateRenderTarget \<Rightarrow> bool" where
  "renders t \<longleftrightarrow> renderable t \<and> tg_name t \<noteq> None \<and> tg_revision t \<noteq> None"

text \<open>The call a timer makes: the project of the scope, the name and the values.\<close>

definition render_call :: "RenderParams \<Rightarrow> int option \<times> jstring option \<times> (jstring, jstring) jsmap" where
  "render_call q = (templateScopeProject (tg_scope (fst q)) (tg_project (fst q)), tg_name (fst q), snd q)"

text \<open>The effect after its dependencies changed: the pending timer is cleared, and a new one set.\<close>

definition reschedule :: "TemplateRender \<Rightarrow> TemplateRender" where
  "reschedule s = s\<lparr>tq_timer := (if renders (tq_target s) then Some (tq_target s, tq_values s) else None)\<rparr>"

definition render_mounted :: "TemplateRenderTarget \<Rightarrow> TemplateRender" where
  "render_mounted t = reschedule \<lparr>tq_target = t, tq_values = [], tq_rendered = None, tq_error = None, tq_timer = None,
     tq_latest = 0, tq_inflight = [], tq_landed = []\<rparr>"

definition same_dependencies :: "TemplateRenderTarget \<Rightarrow> TemplateRenderTarget \<Rightarrow> bool" where
  "same_dependencies a b \<longleftrightarrow> renderable a = renderable b \<and> tg_scope a = tg_scope b \<and> tg_project a = tg_project b
     \<and> tg_name a = tg_name b \<and> tg_revision a = tg_revision b"

definition useTemplateRender :: "TemplateRenderTarget \<Rightarrow> TemplateRender \<Rightarrow> TemplateRender" where
  "useTemplateRender t s =
     (if target_key (tq_target s) \<noteq> target_key t
      then reschedule (s\<lparr>tq_target := t, tq_values := [], tq_rendered := None, tq_error := None\<rparr>)
      else if same_dependencies (tq_target s) t then s\<lparr>tq_target := t\<rparr>
      else reschedule (s\<lparr>tq_target := t\<rparr>))"

definition setValue :: "jstring \<Rightarrow> jstring \<Rightarrow> TemplateRender \<Rightarrow> TemplateRender" where
  "setValue placeholder value s = reschedule (s\<lparr>tq_values :=
     (if value = [] then map_delete placeholder (tq_values s) else map_set placeholder value (tq_values s))\<rparr>)"

definition render_timer :: "TemplateRender \<Rightarrow> TemplateRender" where
  "render_timer s = (case tq_timer s of None \<Rightarrow> s
     | Some q \<Rightarrow> s\<lparr>tq_timer := None, tq_latest := tq_latest s + 1, tq_inflight := tq_inflight s @ [(tq_latest s + 1, q)]\<rparr>)"

definition render_answers :: "nat \<Rightarrow> RenderedPrompt + jstring \<Rightarrow> TemplateRender \<Rightarrow> TemplateRender" where
  "render_answers stamp answer s =
     (case map_of (tq_inflight s) stamp of None \<Rightarrow> s
      | Some q \<Rightarrow>
          let s = s\<lparr>tq_inflight := filter (\<lambda>r. fst r \<noteq> stamp) (tq_inflight s)\<rparr>
          in if stamp \<noteq> tq_latest s then s
            else case answer of
              Inl result \<Rightarrow> s\<lparr>tq_rendered := Some result, tq_error := None, tq_landed := tq_landed s @ [(q, answer)]\<rparr>
            | Inr reason \<Rightarrow> s\<lparr>tq_rendered := None, tq_error := Some reason, tq_landed := tq_landed s @ [(q, answer)]\<rparr>)"

datatype RenderOp = Retargets TemplateRenderTarget | Fills jstring jstring | RenderTimer | RenderAnswers nat "RenderedPrompt + jstring"

fun render_step :: "TemplateRender \<Rightarrow> RenderOp \<Rightarrow> TemplateRender" where
  "render_step s (Retargets t) = useTemplateRender t s"
| "render_step s (Fills placeholder value) = setValue placeholder value s"
| "render_step s RenderTimer = render_timer s"
| "render_step s (RenderAnswers stamp answer) = render_answers stamp answer s"

lemmas render_defs = reschedule_def render_mounted_def useTemplateRender_def setValue_def render_timer_def render_answers_def Let_def

text \<open>The newest render in flight is the only one that can land.\<close>

definition preview_fresh :: "TemplateRender \<Rightarrow> bool" where
  "preview_fresh s \<longleftrightarrow> (let q = (tq_target s, tq_values s) in
     (\<forall>r \<in> set (tq_inflight s). fst r \<le> tq_latest s)
     \<and> (\<forall>v \<in> snd ` set (tq_values s). v \<noteq> [])
     \<and> (renders (tq_target s) \<longrightarrow>
         (case tq_timer s of Some q' \<Rightarrow> q' = q
          | None \<Rightarrow> (case map_of (tq_inflight s) (tq_latest s) of Some q' \<Rightarrow> q' = q
              | None \<Rightarrow> (\<exists>answer. tq_landed s \<noteq> [] \<and> last (tq_landed s) = (q, answer)
                  \<and> tq_rendered s = (case answer of Inl result \<Rightarrow> Some result | Inr _ \<Rightarrow> None)
                  \<and> tq_error s = (case answer of Inl _ \<Rightarrow> None | Inr reason \<Rightarrow> Some reason))))))"

lemma fresh_rescheduled:
  assumes "\<forall>r \<in> set (tq_inflight s). fst r \<le> tq_latest s" and "\<forall>v \<in> snd ` set (tq_values s). v \<noteq> []"
  shows "preview_fresh (reschedule s)"
  using assms by (simp add: preview_fresh_def reschedule_def)

lemma same_target:
  assumes "target_key a = target_key b" and "same_dependencies a b" and "renders b"
  shows "a = b"
proof -
  have "tg_kind a = tg_kind b" using assms(2,3) by (simp add: same_dependencies_def renders_def renderable_def)
  with assms(2) show ?thesis by (cases a; cases b) (simp add: same_dependencies_def)
qed

lemma values_filled:
  assumes "\<forall>v \<in> snd ` set vs. v \<noteq> []"
  shows "\<forall>v \<in> snd ` set (if w = [] then map_delete p vs else map_set p w vs). v \<noteq> ([] :: jstring)"
proof (cases "w = []")
  case True
  with assms show ?thesis by (auto simp: AList.delete_eq)
next
  case False
  have "\<forall>v \<in> snd ` set (map_set p w vs). v \<noteq> []" using assms False by (induction vs) auto
  with False show ?thesis by simp
qed

lemma preview_fresh_step:
  assumes f: "preview_fresh s"
  shows "preview_fresh (render_step s op)"
proof -
  have below: "\<forall>r \<in> set (tq_inflight s). fst r \<le> tq_latest s" and filled: "\<forall>v \<in> snd ` set (tq_values s). v \<noteq> []"
    using f by (simp_all add: preview_fresh_def Let_def)
  show ?thesis
  proof (cases op)
    case (Retargets t)
    consider "target_key (tq_target s) \<noteq> target_key t" | "target_key (tq_target s) = target_key t" "\<not> same_dependencies (tq_target s) t"
      | "target_key (tq_target s) = target_key t" "same_dependencies (tq_target s) t" by blast
    then show ?thesis
    proof cases
      case 3
      show ?thesis
      proof (cases "renders t")
        case True
        have "s\<lparr>tq_target := t\<rparr> = s" using same_target [OF 3 True] by auto
        with f 3 Retargets show ?thesis by (simp add: useTemplateRender_def)
      qed (use f 3 Retargets in \<open>auto simp: useTemplateRender_def preview_fresh_def Let_def\<close>)
    next
      case 1
      with Retargets below show ?thesis by (simp add: useTemplateRender_def fresh_rescheduled)
    next
      case 2
      with Retargets below filled show ?thesis by (simp add: useTemplateRender_def fresh_rescheduled)
    qed
  next
    case (Fills p w)
    have "\<forall>v \<in> snd ` set (if w = [] then map_delete p (tq_values s) else map_set p w (tq_values s)). v \<noteq> []"
      by (rule values_filled [OF filled])
    with Fills below show ?thesis by (simp only: render_step.simps setValue_def) (rule fresh_rescheduled; simp)
  next
    case RenderTimer
    show ?thesis
    proof (cases "tq_timer s")
      case (Some q)
      have "map_of (tq_inflight s) (Suc (tq_latest s)) = None"
        using f by (fastforce simp: preview_fresh_def Let_def map_of_eq_None_iff)
      with f Some RenderTimer show ?thesis by (auto simp: render_timer_def preview_fresh_def Let_def le_SucI map_add_def)
    qed (use f RenderTimer in \<open>simp add: render_timer_def\<close>)
  next
    case (RenderAnswers stamp answer)
    show ?thesis
    proof (cases "map_of (tq_inflight s) stamp")
      case (Some q)
      show ?thesis
      proof (cases "stamp = tq_latest s")
        case True
        with f Some RenderAnswers show ?thesis
          by (cases answer) (auto simp: render_answers_def preview_fresh_def Let_def map_of_without split: option.splits)
      next
        case False
        with f Some RenderAnswers show ?thesis
          by (auto simp: render_answers_def preview_fresh_def Let_def map_of_without split: option.splits)
      qed
    qed (use f RenderAnswers in \<open>simp add: render_answers_def\<close>)
  qed
qed

definition preview_run :: "TemplateRenderTarget \<Rightarrow> RenderOp list \<Rightarrow> TemplateRender" where
  "preview_run t ops = foldl render_step (render_mounted t) ops"

lemma preview_run_fresh: "preview_fresh (preview_run t ops)"
  unfolding preview_run_def
  by (induction ops rule: rev_induct)
    (simp_all add: preview_fresh_step render_mounted_def fresh_rescheduled del: render_step.simps)

text \<open>
  The preview never settles on a keystroke already typed past: once no timer is pending and the
  newest render was answered, the text or the refusal shown is the answer to a render of the
  template on screen with exactly the values typed, no value among them empty, in whatever order
  the renders were answered.
\<close>

theorem preview_matches_values:
  assumes "renders (tq_target (preview_run t ops))" and "tq_timer (preview_run t ops) = None"
    and "tq_latest (preview_run t ops) \<notin> fst ` set (tq_inflight (preview_run t ops))"
  shows "let s = preview_run t ops in \<exists>answer. tq_landed s \<noteq> [] \<and> last (tq_landed s) = ((tq_target s, tq_values s), answer)
    \<and> tq_rendered s = (case answer of Inl result \<Rightarrow> Some result | Inr _ \<Rightarrow> None)
    \<and> tq_error s = (case answer of Inl _ \<Rightarrow> None | Inr reason \<Rightarrow> Some reason)
    \<and> (\<forall>v \<in> snd ` set (tq_values s). v \<noteq> [])"
proof -
  have "map_of (tq_inflight (preview_run t ops)) (tq_latest (preview_run t ops)) = None"
    using assms(3) by (simp add: map_of_eq_None_iff)
  with preview_run_fresh [of t ops] assms(1,2) show ?thesis by (simp add: preview_fresh_def Let_def)
qed

definition prompt_target :: "string \<Rightarrow> TemplateRenderTarget" where
  "prompt_target name = \<lparr>tg_kind = Some TplPrompt, tg_scope = Some ScopeGlobal, tg_name = Some (lit name), tg_project = None, tg_revision = Some 1\<rparr>"

definition prompt_text :: "string \<Rightarrow> RenderedPrompt" where
  "prompt_text text = \<lparr>rq_text = lit text, rq_unfilled = [], rq_unknown = []\<rparr>"

theorem preview_matches_values_witness:
  "let s = preview_run (prompt_target ''a'') [RenderTimer, Fills (lit ''x'') (lit ''1''), RenderTimer, RenderAnswers 2 (Inl (prompt_text ''new'')),
      RenderAnswers 1 (Inl (prompt_text ''old''))] in
   tq_rendered s = Some (prompt_text ''new'') \<and> tq_values s = [(lit ''x'', lit ''1'')] \<and> fst (last (tq_landed s)) = (tq_target s, tq_values s)"
proof -
  let ?ops = "[RenderTimer, Fills (lit ''x'') (lit ''1''), RenderTimer, RenderAnswers 2 (Inl (prompt_text ''new'')),
      RenderAnswers 1 (Inl (prompt_text ''old''))]"
  let ?s = "preview_run (prompt_target ''a'') ?ops"
  have r: "renders (tq_target ?s)" by code_simp
  have t: "tq_timer ?s = None" by code_simp
  have l: "tq_latest ?s \<notin> fst ` set (tq_inflight ?s)" by code_simp
  have "tq_rendered ?s = Some (prompt_text ''new'') \<and> tq_values ?s = [(lit ''x'', lit ''1'')]" by code_simp
  with preview_matches_values [OF r t l] show ?thesis by (auto simp: Let_def)
qed

text \<open>
  Opening another template does not disown the render in flight: its answer still carries the
  newest stamp, so the preview of the template just opened shows the other one's text, until its
  own render is sent and answered.
\<close>

theorem late_render_crosses_templates:
  "let s = preview_run (prompt_target ''a'') [RenderTimer, Retargets (prompt_target ''b'')];
       t = render_step s (RenderAnswers 1 (Inl (prompt_text ''of a'')))
   in tq_rendered s = None \<and> tg_name (tq_target t) = Some (lit ''b'') \<and> tq_rendered t = Some (prompt_text ''of a'')"
  by code_simp

subsection \<open>The libraries\<close>

record TemplateDefaults =
  td_scratchpad :: "int option"
  td_todo :: "int option"
  td_pr :: "int option"

definition NO_DEFAULTS :: TemplateDefaults where
  "NO_DEFAULTS = \<lparr>td_scratchpad = None, td_todo = None, td_pr = None\<rparr>"

text \<open>The key of a default; prompt has none, and writing it adds a key nothing reads.\<close>

fun put_default :: "TemplateKind \<Rightarrow> int option \<Rightarrow> TemplateDefaults \<Rightarrow> TemplateDefaults" where
  "put_default TplScratchpad i d = d\<lparr>td_scratchpad := i\<rparr>"
| "put_default TplTodo i d = d\<lparr>td_todo := i\<rparr>"
| "put_default TplPr i d = d\<lparr>td_pr := i\<rparr>"
| "put_default TplPrompt i d = d"

datatype TemplateCall =
    ListTemplates TemplateKind TemplateScope "int option" | ReadDefaults int
  | CreateTemplate TemplateKind "int option" jstring "jstring option" jstring | DeleteTemplate TemplateKind "int option" jstring
  | ReadForCopy TemplateKind TemplateScope "int option" jstring | SetDefault TemplateKind int "int option" | ReloadDefaults int

record Templates =
  tp_project :: "int option"
  tp_lists :: "TemplateKind \<Rightarrow> TemplateScope \<Rightarrow> TemplateSummary list"
  tp_defaults :: TemplateDefaults
  tp_error :: "jstring option"
  tp_calls :: "(nat \<times> TemplateCall) list"
  tp_issued :: nat

definition put_list ::
  "TemplateKind \<Rightarrow> TemplateScope \<Rightarrow> TemplateSummary list \<Rightarrow> Templates \<Rightarrow> Templates" where
  "put_list kind scope rows s = s\<lparr>tp_lists := (tp_lists s)(kind := (tp_lists s kind)(scope := rows))\<rparr>"

definition template_call :: "TemplateCall \<Rightarrow> Templates \<Rightarrow> Templates" where
  "template_call c s = s\<lparr>tp_calls := tp_calls s @ [(tp_issued s, c)], tp_issued := tp_issued s + 1\<rparr>"

definition idOf :: "TemplateScope \<Rightarrow> Templates \<Rightarrow> int option" where
  "idOf scope s = templateScopeProject (Some scope) (tp_project s)"

definition loadKind :: "TemplateKind \<Rightarrow> TemplateScope \<Rightarrow> Templates \<Rightarrow> Templates" where
  "loadKind kind scope s =
     (if scope = ScopeProject \<and> tp_project s = None then put_list kind ScopeProject [] s
      else template_call (ListTemplates kind scope (idOf scope s)) s)"

definition loadDefaults :: "Templates \<Rightarrow> Templates" where
  "loadDefaults s = (case tp_project s of None \<Rightarrow> s\<lparr>tp_defaults := NO_DEFAULTS\<rparr> | Some p \<Rightarrow> template_call (ReadDefaults p) s)"

text \<open>The effect of a project: every kind in every scope, and the defaults.\<close>

definition load_everything :: "Templates \<Rightarrow> Templates" where
  "load_everything s = loadDefaults (foldl (\<lambda>s kind. foldl (\<lambda>s scope. loadKind kind scope s) s TEMPLATE_SCOPES) s TEMPLATE_KINDS)"

definition useTemplates :: "int option \<Rightarrow> Templates" where
  "useTemplates project = load_everything \<lparr>tp_project = project, tp_lists = (\<lambda>_ _. []), tp_defaults = NO_DEFAULTS, tp_error = None,
     tp_calls = [], tp_issued = 0\<rparr>"

definition show_project :: "int option \<Rightarrow> Templates \<Rightarrow> Templates" where
  "show_project project s = (if project = tp_project s then s else load_everything (s\<lparr>tp_project := project\<rparr>))"

definition templates_hear :: "DomainEvent \<Rightarrow> Templates \<Rightarrow> Templates" where
  "templates_hear ev s =
     (case ev of EvTemplateChanged kind project \<Rightarrow>
          (if project = None then loadDefaults (loadKind kind ScopeGlobal s)
           else if project = tp_project s then loadDefaults (loadKind kind ScopeProject s)
           else s)
      | _ \<Rightarrow> s)"

definition create_template :: "TemplateKind \<Rightarrow> TemplateScope \<Rightarrow> jstring \<Rightarrow> jstring \<Rightarrow> jstring \<Rightarrow> Templates \<Rightarrow> Templates" where
  "create_template kind scope name description body s =
     template_call (CreateTemplate kind (idOf scope s) name (if js_trim description = [] then None else Some description) body) s"

definition delete_template :: "TemplateKind \<Rightarrow> TemplateScope \<Rightarrow> jstring \<Rightarrow> Templates \<Rightarrow> Templates" where
  "delete_template kind scope name s = template_call (DeleteTemplate kind (idOf scope s) name) s"

definition duplicate_template :: "TemplateKind \<Rightarrow> TemplateScope \<Rightarrow> jstring \<Rightarrow> Templates \<Rightarrow> Templates" where
  "duplicate_template kind scope name s = template_call (ReadForCopy kind scope (idOf scope s) name) s"

definition setDefault :: "TemplateKind \<Rightarrow> int option \<Rightarrow> Templates \<Rightarrow> Templates" where
  "setDefault kind i s =
     (case tp_project s of None \<Rightarrow> s
      | Some p \<Rightarrow> template_call (SetDefault kind p i) (s\<lparr>tp_defaults := put_default kind i (tp_defaults s)\<rparr>))"

datatype TemplateReply =
    Rows "TemplateSummary list" | Defaults TemplateDefaults | Copied TemplateView | Performed | RefusedTemplate jstring

text \<open>The continuation of each call; a rejected create, delete or copy rejects to its caller.\<close>

definition template_replies :: "nat \<Rightarrow> TemplateReply \<Rightarrow> Templates \<Rightarrow> Templates" where
  "template_replies t reply s =
     (case map_of (tp_calls s) t of None \<Rightarrow> s
      | Some c \<Rightarrow>
          let s = s\<lparr>tp_calls := filter (\<lambda>q. fst q \<noteq> t) (tp_calls s)\<rparr>
          in case (c, reply) of
               (ListTemplates kind scope _, Rows rows) \<Rightarrow> put_list kind scope rows s
             | (ReadDefaults _, Defaults d) \<Rightarrow> s\<lparr>tp_defaults := d\<rparr>
             | (SetDefault _ _ _, Defaults d) \<Rightarrow> s\<lparr>tp_defaults := d\<rparr>
             | (ReloadDefaults _, Defaults d) \<Rightarrow> s\<lparr>tp_defaults := d\<rparr>
             | (ReadForCopy kind scope p _, Copied source) \<Rightarrow>
                 template_call (CreateTemplate kind p (uniqueCopyName (tv_name source) (map ts_name (tp_lists s kind scope)))
                   (tv_description source) (tv_body source)) s
             | (ListTemplates _ _ _, RefusedTemplate reason) \<Rightarrow> s\<lparr>tp_error := Some reason\<rparr>
             | (ReadDefaults _, RefusedTemplate reason) \<Rightarrow> s\<lparr>tp_error := Some reason\<rparr>
             | (SetDefault _ p _, RefusedTemplate _) \<Rightarrow> template_call (ReloadDefaults p) s
             | _ \<Rightarrow> s)"

lemmas template_defs = put_list_def template_call_def idOf_def loadKind_def loadDefaults_def load_everything_def useTemplates_def
  show_project_def templates_hear_def create_template_def delete_template_def duplicate_template_def setDefault_def
  template_replies_def TEMPLATE_KINDS_def TEMPLATE_SCOPES_def templateScopeProject_def Let_def

text \<open>
  A change elsewhere costs nothing, a change here re-reads exactly what it may have moved: a
  template event of another project makes no call and changes no list, one of this project or of
  the global library makes one listing call for its kind and scope and, with a project open, one
  read of the defaults.
\<close>

theorem template_event_rereads_its_list:
  "templates_hear (EvTemplateChanged kind (Some other)) (s\<lparr>tp_project := Some p\<rparr>) = (if other \<noteq> p then s\<lparr>tp_project := Some p\<rparr>
     else (s\<lparr>tp_project := Some p\<rparr>)\<lparr>tp_calls := tp_calls s @ [(tp_issued s, ListTemplates kind ScopeProject (Some p)), (tp_issued s + 1, ReadDefaults p)],
       tp_issued := tp_issued s + 2\<rparr>)
   \<and> tp_calls (templates_hear (EvTemplateChanged kind None) s) = tp_calls s @ (tp_issued s, ListTemplates kind ScopeGlobal None)
       # (case tp_project s of None \<Rightarrow> [] | Some p \<Rightarrow> [(tp_issued s + 1, ReadDefaults p)])
   \<and> tp_lists (templates_hear (EvTemplateChanged kind None) s) = tp_lists s"
  by (auto simp: template_defs split: option.splits)

text \<open>
  The lists are not guarded by the project they were read for: a listing requested for one
  project and answered after the panel moved to another is shown as the other project's library,
  and stays when the newer listing was answered first.
\<close>

theorem late_listing_crosses_projects:
  "let row = (\<lambda>n. \<lparr>ts_id = 1, ts_kind = TplPrompt, ts_name = lit n, ts_description = None, ts_placeholders = [],
          ts_scope = ScopeProject, ts_revision = 1\<rparr>);
       s = show_project (Some 2) (useTemplates (Some 1));
       s = template_replies 10 (Rows [row ''of 2'']) s;
       t = template_replies 1 (Rows [row ''of 1'']) s
   in map_of (tp_calls (useTemplates (Some 1))) 1 = Some (ListTemplates TplPrompt ScopeProject (Some 1))
      \<and> tp_lists s TplPrompt ScopeProject = [row ''of 2''] \<and> tp_project t = Some 2 \<and> tp_lists t TplPrompt ScopeProject = [row ''of 1'']"
  by code_simp

end
