(* ===== verification/Surfaces.thy ===== *)
theory Surfaces
  imports Status
begin

section \<open>Small hooks of the shell\<close>

text \<open>
  \<open>store/useTerminalPool.ts\<close> (which terminals stay mounted), \<open>store/useScrollSpy.ts\<close> (the section being read),
  \<open>store/useProcessRemoval.ts\<close>, \<open>store/useTodoActions.ts\<close>, \<open>store/useToggleSet.ts\<close>,
  \<open>store/useCollapseState.ts\<close> and \<open>store/usePresence.ts\<close>.
\<close>

subsection \<open>The terminal pool\<close>

definition TERMINAL_POOL_CAP :: nat where "TERMINAL_POOL_CAP = 6"

definition nextPool :: "int list \<Rightarrow> int option \<Rightarrow> int list \<Rightarrow> nat \<Rightarrow> int list" where
  "nextPool prev selectedId existing cap =
     (let pool = filter (\<lambda>i. i \<in> set existing) prev;
          pool = (case selectedId of None \<Rightarrow> pool
            | Some i \<Rightarrow> if i \<in> set existing then i # filter (\<lambda>j. j \<noteq> i) pool else pool);
          pool = (if length pool > cap then take cap pool else pool);
          unchanged = (length pool = length prev \<and> list_all2 (=) pool prev)
      in if unchanged then prev else pool)"

definition useTerminalPool :: "nat \<Rightarrow> int list \<Rightarrow> int option \<times> int list \<Rightarrow> int list" where
  "useTerminalPool cap pool e = nextPool pool (fst e) (snd e) cap"

lemma nextPool_eq:
  "nextPool prev selectedId existing cap =
     take cap (case selectedId of None \<Rightarrow> filter (\<lambda>i. i \<in> set existing) prev
       | Some i \<Rightarrow> if i \<in> set existing then i # filter (\<lambda>j. j \<noteq> i) (filter (\<lambda>i. i \<in> set existing) prev)
           else filter (\<lambda>i. i \<in> set existing) prev)"
  by (auto simp: nextPool_def Let_def list.rel_eq split: option.splits)

lemma take_filter_one:
  assumes "distinct xs"
  shows "take k (filter (\<lambda>y. y \<noteq> x) (take (Suc k) xs)) = take k (filter (\<lambda>y. y \<noteq> x) xs)"
  using assms
proof (induction xs arbitrary: k)
  case (Cons y ys)
  show ?case
  proof (cases "y = x")
    case True
    with Cons.prems have no: "filter (\<lambda>y. y \<noteq> x) ys = ys" "filter (\<lambda>y. y \<noteq> x) (take k ys) = take k ys"
      by (auto intro!: filter_eq_self dest: in_set_takeD)
    with True show ?thesis by simp
  next
    case False
    with Cons show ?thesis by (cases k) simp_all
  qed
qed simp

lemma pool_selects:
  assumes "distinct (rev (remdups sels))" and "sel \<in> set existing" and "\<forall>x \<in> set sels. x \<in> set existing"
  shows "nextPool (take cap (rev (remdups sels))) (Some sel) existing cap = take cap (rev (remdups (sels @ [sel])))"
proof -
  let ?l = "rev (remdups sels)"
  have kept: "filter (\<lambda>i. i \<in> set existing) (take cap ?l) = take cap ?l"
    using assms(3) by (intro filter_eq_self) (auto dest: in_set_takeD)
  show ?thesis
  proof (cases cap)
    case (Suc k)
    with take_filter_one [OF assms(1), of k sel] assms(2) kept show ?thesis
      by (simp add: nextPool_eq remdups_snoc rev_filter)
  qed (simp add: nextPool_eq)
qed

text \<open>
  The pool is the recently viewed terminals: as long as no selected process leaves the registry,
  the mounted terminals are the last distinct selections, most recent first, as many as the cap
  allows.
\<close>

theorem pool_keeps_recent_selections:
  assumes "\<forall>sel \<in> set sels. sel \<in> set existing"
  shows "foldl (useTerminalPool cap) [] (map (\<lambda>sel. (Some sel, existing)) sels) = take cap (rev (remdups sels))"
  using assms
proof (induction sels rule: rev_induct)
  case (snoc sel sels)
  then show ?case using pool_selects [of sels sel existing cap] by (simp add: useTerminalPool_def)
qed simp

theorem pool_keeps_recent_selections_witness:
  "foldl (useTerminalPool 2) [] (map (\<lambda>sel. (Some sel, [1, 2, 3])) [1, 2, 3, 2]) = [2, 3]"
  using pool_keeps_recent_selections [of "[1, 2, 3, 2]" "[1, 2, 3]" 2] by simp

text \<open>
  Whatever is selected and whatever leaves the registry, no terminal is mounted twice, only
  registered processes are, never more than the cap, and a registered selection heads the pool.
\<close>

theorem pool_bounded:
  "let pool = foldl (useTerminalPool cap) [] (runs @ [(selected, existing)]) in
     distinct pool \<and> set pool \<subseteq> set existing \<and> length pool \<le> cap
     \<and> (case selected of None \<Rightarrow> True | Some i \<Rightarrow> if i \<in> set existing \<and> cap > 0 then take 1 pool = [i] else True)"
proof -
  have d: "distinct (foldl (useTerminalPool cap) [] es)" for es
    by (induction es rule: rev_induct)
      (auto simp: useTerminalPool_def nextPool_eq intro!: distinct_take split: option.splits)
  show ?thesis
    using d [of "runs @ [(selected, existing)]"]
    by (auto simp: useTerminalPool_def nextPool_eq Let_def take_Cons' dest!: in_set_takeD split: option.splits if_splits)
qed

subsection \<open>The section being read\<close>

text \<open>Positions are exact rationals here; the source's are doubles.\<close>

definition NO_ACTIVE_TARGET :: int where "NO_ACTIVE_TARGET = -1"
definition SCROLL_END_EPSILON :: rat where "SCROLL_END_EPSILON = 1"

record ScrollSpyGeometry =
  sp_offsets :: "rat list"
  sp_scrollTop :: rat
  sp_clientHeight :: rat
  sp_scrollHeight :: rat

record ScrollSpyBand =
  sb_topOffset :: rat
  sb_bottomFraction :: rat

function search_targets :: "rat list \<Rightarrow> rat \<Rightarrow> int \<Rightarrow> int \<Rightarrow> int \<Rightarrow> int" where
  "search_targets offsets limit low high found =
     (if low \<le> high then
        let mid = (low + high) div 2
        in if offsets ! nat mid \<le> limit then search_targets offsets limit (mid + 1) high mid
           else search_targets offsets limit low (mid - 1) found
      else found)"
  by pat_completeness auto

termination
  by (relation "measure (\<lambda>(offsets, limit, low, high, found). nat (high - low + 1))") auto

definition lastTargetAtOrAbove :: "rat list \<Rightarrow> rat \<Rightarrow> int" where
  "lastTargetAtOrAbove offsets limit = search_targets offsets limit 0 (int (length offsets) - 1) 0"

definition activeTargetIndex :: "ScrollSpyGeometry \<Rightarrow> ScrollSpyBand \<Rightarrow> int" where
  "activeTargetIndex geometry band =
     (let offsets = sp_offsets geometry; scrollTop = sp_scrollTop geometry; clientHeight = sp_clientHeight geometry
      in if offsets = [] then NO_ACTIVE_TARGET
         else if scrollTop \<le> 0 then 0
         else if scrollTop + clientHeight \<ge> sp_scrollHeight geometry - SCROLL_END_EPSILON then int (length offsets) - 1
         else
           let bandTop = scrollTop + sb_topOffset band;
               bandBottom = scrollTop + clientHeight * (1 - sb_bottomFraction band)
           in case List.find (\<lambda>i. offsets ! i \<ge> bandTop \<and> offsets ! i < bandBottom) [0..<length offsets] of
                Some i \<Rightarrow> int i | None \<Rightarrow> lastTargetAtOrAbove offsets bandTop)"

declare search_targets.simps [simp del]

text \<open>Everything before \<open>low\<close> is at or above the limit with \<open>found\<close> the last of it, everything behind \<open>high\<close> below.\<close>

lemma search_finds:
  assumes "sorted offsets" and "0 \<le> low" and "high < int (length offsets)" and "low \<le> high + 1"
    and "\<forall>i < length offsets. int i < low \<longrightarrow> offsets ! i \<le> limit"
    and "\<forall>i < length offsets. high < int i \<longrightarrow> limit < offsets ! i"
    and "found = (if low = 0 then 0 else low - 1)"
  shows "search_targets offsets limit low high found
    = (let n = length (filter (\<lambda>x. x \<le> limit) offsets) in if n = 0 then 0 else int n - 1)"
  using assms
proof (induction offsets limit low high found rule: search_targets.induct)
  case (1 offsets limit low high found)
  note prems = 1 (3-9) and IH = 1 (1,2)
  show ?case
  proof (cases "low \<le> high")
    case True
    define mid where "mid = (low + high) div 2"
    have mid: "low \<le> mid" "mid \<le> high" "nat mid < length offsets" using True prems(2,3) by (auto simp: mid_def)
    show ?thesis
    proof (cases "offsets ! nat mid \<le> limit")
      case below: True
      have "offsets ! i \<le> limit" if "i < length offsets" "int i < mid + 1" for i
      proof -
        have "offsets ! i \<le> offsets ! nat mid" using prems(1) that mid(3) by (intro sorted_nth_mono) auto
        with below show ?thesis by simp
      qed
      then show ?thesis using prems True below mid IH(1) [OF True mid_def]
        by (subst search_targets.simps) (simp add: Let_def flip: mid_def)
    next
      case above: False
      have "limit < offsets ! i" if "i < length offsets" "mid - 1 < int i" for i
      proof -
        have "offsets ! nat mid \<le> offsets ! i" using prems(1) that mid(1) prems(2) by (intro sorted_nth_mono) auto
        with above show ?thesis by simp
      qed
      then show ?thesis using prems True above mid IH(2) [OF True mid_def]
        by (subst search_targets.simps) (simp add: Let_def flip: mid_def)
    qed
  next
    case False
    then have edge: "low = high + 1" using prems(4) by simp
    have "filter (\<lambda>x. x \<le> limit) offsets = take (nat low) offsets"
    proof -
      have "filter (\<lambda>x. x \<le> limit) (take (nat low) offsets) = take (nat low) offsets"
        using prems(2,5) by (intro filter_eq_self) (auto simp: in_set_conv_nth)
      moreover have "filter (\<lambda>x. x \<le> limit) (drop (nat low) offsets) = []"
        using prems(2,6) edge by (auto simp: filter_empty_conv in_set_conv_nth not_le)
      ultimately show ?thesis by (metis append_Nil2 append_take_drop_id filter_append)
    qed
    moreover have "nat low \<le> length offsets" using prems(3) edge by simp
    ultimately show ?thesis using False prems(2,7) by (subst search_targets.simps) (auto simp: Let_def)
  qed
qed

lemma last_target_counts:
  assumes "sorted offsets"
  shows "lastTargetAtOrAbove offsets limit = int (length (filter (\<lambda>x. x \<le> limit) offsets) - 1)"
proof -
  have k: "(if k = 0 then 0 else int k - 1) = int (k - 1)" for k :: nat by (cases k) simp_all
  show ?thesis
    unfolding lastTargetAtOrAbove_def k [symmetric]
    by (subst search_finds [OF assms]) (simp_all add: Let_def)
qed

text \<open>
  The binary search returns what a count over all targets would: in the body of a document whose
  targets are in order, with no target inside the band, the section being read is the last one
  at or above the band's top, and the first when every one is below it; and an index is always
  one of a target, or none exactly for a document without targets.
\<close>

theorem active_target_exact:
  assumes "sorted (sp_offsets g)"
  shows "(activeTargetIndex g band = NO_ACTIVE_TARGET \<longleftrightarrow> sp_offsets g = [])
    \<and> activeTargetIndex g band < max 1 (int (length (sp_offsets g)))
    \<and> (0 < sp_scrollTop g \<and> sp_scrollTop g + sp_clientHeight g < sp_scrollHeight g - SCROLL_END_EPSILON
        \<and> sp_offsets g \<noteq> []
        \<and> filter (\<lambda>x. x \<ge> sp_scrollTop g + sb_topOffset band
             \<and> x < sp_scrollTop g + sp_clientHeight g * (1 - sb_bottomFraction band)) (sp_offsets g) = []
      \<longrightarrow> activeTargetIndex g band = int (length (filter (\<lambda>x. x \<le> sp_scrollTop g + sb_topOffset band) (sp_offsets g)) - 1))"
proof -
  let ?P = "\<lambda>i. sp_offsets g ! i \<ge> sp_scrollTop g + sb_topOffset band
      \<and> sp_offsets g ! i < sp_scrollTop g + sp_clientHeight g * (1 - sb_bottomFraction band)"
  have found: "i < length (sp_offsets g)" if "List.find ?P [0..<length (sp_offsets g)] = Some i" for i
    using that by (auto simp: find_Some_iff)
  have count: "int (length (filter Q (sp_offsets g)) - 1) < max 1 (int (length (sp_offsets g)))" for Q
  proof -
    have "int (k - 1) < max 1 (int n)" if "k \<le> n" for k n :: nat using that by (cases k) auto
    then show ?thesis using length_filter_le by blast
  qed
  have none: "List.find ?P [0..<length (sp_offsets g)] = None"
    if "filter (\<lambda>x. x \<ge> sp_scrollTop g + sb_topOffset band
             \<and> x < sp_scrollTop g + sp_clientHeight g * (1 - sb_bottomFraction band)) (sp_offsets g) = []"
    using that by (auto simp: find_None_iff filter_empty_conv)
  show ?thesis
    using found count [of "\<lambda>x. x \<le> sp_scrollTop g + sb_topOffset band"] none
    by (auto simp: activeTargetIndex_def Let_def NO_ACTIVE_TARGET_def last_target_counts [OF assms] split: option.splits)
qed

theorem active_target_exact_witness:
  "activeTargetIndex \<lparr>sp_offsets = [10, 400, 900], sp_scrollTop = 500, sp_clientHeight = 100, sp_scrollHeight = 2000\<rparr>
     \<lparr>sb_topOffset = 0, sb_bottomFraction = 7 / 10\<rparr> = 1"
proof -
  let ?g = "\<lparr>sp_offsets = [10, 400, 900], sp_scrollTop = 500, sp_clientHeight = 100, sp_scrollHeight = 2000\<rparr>"
  have "sorted (sp_offsets ?g)" by simp
  from active_target_exact [OF this, of "\<lparr>sb_topOffset = 0, sb_bottomFraction = 7 / 10\<rparr>"]
  show ?thesis by (simp add: SCROLL_END_EPSILON_def)
qed

subsection \<open>Removing a process\<close>

record ProcessRemoval =
  rm_pendingId :: "int option"
  rm_closed :: "int list"

definition useProcessRemoval :: ProcessRemoval where
  "useProcessRemoval = \<lparr>rm_pendingId = None, rm_closed = []\<rparr>"

definition removal_pending :: "ProcessView list \<Rightarrow> ProcessRemoval \<Rightarrow> ProcessView option" where
  "removal_pending processes s = (case rm_pendingId s of None \<Rightarrow> None | Some i \<Rightarrow> List.find (\<lambda>p. pv_id p = i) processes)"

definition request_removal :: "ProcessView list \<Rightarrow> int \<Rightarrow> ProcessRemoval \<Rightarrow> ProcessRemoval" where
  "request_removal processes i s =
     (case List.find (\<lambda>p. pv_id p = i) processes of
        Some process \<Rightarrow> if isActive (pv_status process) then s\<lparr>rm_pendingId := Some i\<rparr> else s\<lparr>rm_closed := rm_closed s @ [i]\<rparr>
      | None \<Rightarrow> s\<lparr>rm_closed := rm_closed s @ [i]\<rparr>)"

definition confirm_removal :: "ProcessRemoval \<Rightarrow> ProcessRemoval" where
  "confirm_removal s = (case rm_pendingId s of None \<Rightarrow> s | Some i \<Rightarrow> s\<lparr>rm_closed := rm_closed s @ [i], rm_pendingId := None\<rparr>)"

definition dismiss_removal :: "ProcessRemoval \<Rightarrow> ProcessRemoval" where
  "dismiss_removal s = s\<lparr>rm_pendingId := None\<rparr>"

datatype RemovalOp = RequestRemoval "ProcessView list" int | ConfirmRemoval | DismissRemoval

fun removal_step :: "ProcessRemoval \<Rightarrow> RemovalOp \<Rightarrow> ProcessRemoval" where
  "removal_step s (RequestRemoval processes i) = request_removal processes i s"
| "removal_step s ConfirmRemoval = confirm_removal s"
| "removal_step s DismissRemoval = dismiss_removal s"

definition live_in :: "ProcessView list \<Rightarrow> int \<Rightarrow> bool" where
  "live_in processes i \<longleftrightarrow> (case List.find (\<lambda>p. pv_id p = i) processes of None \<Rightarrow> False | Some p \<Rightarrow> isActive (pv_status p))"

text \<open>The removal a confirmation would carry out: the last live request since the last answer.\<close>

fun asked_for :: "int option \<Rightarrow> RemovalOp \<Rightarrow> int option" where
  "asked_for pending (RequestRemoval processes i) = (if live_in processes i then Some i else pending)"
| "asked_for pending _ = None"

fun removed_by :: "int option \<Rightarrow> RemovalOp \<Rightarrow> int list" where
  "removed_by pending (RequestRemoval processes i) = (if live_in processes i then [] else [i])"
| "removed_by pending ConfirmRemoval = (case pending of None \<Rightarrow> [] | Some i \<Rightarrow> [i])"
| "removed_by pending DismissRemoval = []"

text \<open>
  A live process is never removed unasked: a request removes at once exactly what is not live in
  the list of the moment; a live one is removed only by a confirmation that follows its request
  with no answer in between.
\<close>

theorem live_removal_is_confirmed:
  "rm_pendingId (foldl removal_step useProcessRemoval ops) = foldl asked_for None ops
   \<and> rm_closed (foldl removal_step useProcessRemoval (ops @ [op]))
      = rm_closed (foldl removal_step useProcessRemoval ops) @ removed_by (foldl asked_for None ops) op"
proof -
  have pend: "rm_pendingId (foldl removal_step useProcessRemoval ops) = foldl asked_for None ops" for ops
  proof (induction ops rule: rev_induct)
    case (snoc op ops)
    then show ?case
      by (cases op) (auto simp: request_removal_def confirm_removal_def dismiss_removal_def live_in_def split: option.splits)
  qed (simp add: useProcessRemoval_def)
  show ?thesis
    using pend [of ops]
    by (cases op) (auto simp: request_removal_def confirm_removal_def dismiss_removal_def live_in_def split: option.splits)
qed

subsection \<open>Writes of the todo board\<close>

datatype TodoWrite = CompleteTodo int | LinkTodo int | CommentTodo int jstring

record TodoActions =
  ta_busyId :: "int option"
  ta_errorById :: "(int, jstring) jsmap"
  ta_writes :: "(nat \<times> TodoWrite) list"
  ta_issued :: nat

definition useTodoActions :: TodoActions where
  "useTodoActions = \<lparr>ta_busyId = None, ta_errorById = [], ta_writes = [], ta_issued = 0\<rparr>"

definition setError :: "int \<Rightarrow> jstring option \<Rightarrow> TodoActions \<Rightarrow> TodoActions" where
  "setError i message s = s\<lparr>ta_errorById := (case message of
     None \<Rightarrow> if map_get (ta_errorById s) i = None then ta_errorById s else map_delete i (ta_errorById s)
   | Some m \<Rightarrow> map_set i m (ta_errorById s))\<rparr>"

definition todo_write :: "TodoWrite \<Rightarrow> TodoActions \<Rightarrow> TodoActions" where
  "todo_write w s = s\<lparr>ta_writes := ta_writes s @ [(ta_issued s, w)], ta_issued := ta_issued s + 1\<rparr>"

definition complete :: "int \<Rightarrow> TodoActions \<Rightarrow> TodoActions" where
  "complete i s = todo_write (CompleteTodo i) (setError i None (s\<lparr>ta_busyId := Some i\<rparr>))"

definition copyTodoLink :: "int \<Rightarrow> TodoActions \<Rightarrow> TodoActions" where
  "copyTodoLink i s = todo_write (LinkTodo i) s"

definition comment :: "int \<Rightarrow> jstring \<Rightarrow> TodoActions \<Rightarrow> TodoActions" where
  "comment i body s = todo_write (CommentTodo i body) (setError i None s)"

text \<open>A write ends, with the reason when it was refused.\<close>

definition write_ends :: "nat \<Rightarrow> jstring option \<Rightarrow> TodoActions \<Rightarrow> TodoActions" where
  "write_ends t refused s =
     (case map_of (ta_writes s) t of None \<Rightarrow> s
      | Some w \<Rightarrow>
          let s = s\<lparr>ta_writes := filter (\<lambda>q. fst q \<noteq> t) (ta_writes s)\<rparr>;
              i = (case w of CompleteTodo i \<Rightarrow> i | LinkTodo i \<Rightarrow> i | CommentTodo i _ \<Rightarrow> i);
              s = (case refused of None \<Rightarrow> s | Some reason \<Rightarrow> setError i (Some reason) s)
          in case w of CompleteTodo _ \<Rightarrow> s\<lparr>ta_busyId := (if ta_busyId s = Some i then None else ta_busyId s)\<rparr> | _ \<Rightarrow> s)"

datatype TodoActionOp = Completes int | CopiesLink int | Comments int jstring | WriteEnds nat "jstring option" | ClearsError int

fun todo_action_step :: "TodoActions \<Rightarrow> TodoActionOp \<Rightarrow> TodoActions" where
  "todo_action_step s (Completes i) = complete i s"
| "todo_action_step s (CopiesLink i) = copyTodoLink i s"
| "todo_action_step s (Comments i body) = comment i body s"
| "todo_action_step s (WriteEnds t refused) = write_ends t refused s"
| "todo_action_step s (ClearsError i) = setError i None s"

lemmas todo_action_defs = useTodoActions_def setError_def todo_write_def complete_def copyTodoLink_def comment_def write_ends_def Let_def

text \<open>
  The todo shown busy is one whose completion is in flight, whatever writes overlap; the
  converse fails: completing a second todo takes the mark from the first, which is in flight
  unmarked from then on.
\<close>

theorem busy_todo_is_completing:
  "(\<forall>i. ta_busyId (foldl todo_action_step useTodoActions ops) = Some i \<longrightarrow>
      CompleteTodo i \<in> snd ` set (ta_writes (foldl todo_action_step useTodoActions ops)))
   \<and> (let s = foldl todo_action_step useTodoActions [Completes 1, Completes 2, WriteEnds 1 None]
      in ta_busyId s = None \<and> CompleteTodo 1 \<in> snd ` set (ta_writes s))"
proof -
  let ?inv = "\<lambda>s. (\<forall>i. ta_busyId s = Some i \<longrightarrow> CompleteTodo i \<in> snd ` set (ta_writes s)) \<and> distinct (map fst (ta_writes s))
     \<and> (\<forall>q \<in> set (ta_writes s). fst q < ta_issued s)"
  have err: "ta_busyId (setError i m s) = ta_busyId s" "ta_writes (setError i m s) = ta_writes s" "ta_issued (setError i m s) = ta_issued s"
    for i m s by (simp_all add: setError_def)
  have fresh: "distinct (map fst (ta_writes s @ [(ta_issued s, w)])) \<and> (\<forall>q \<in> set (ta_writes s @ [(ta_issued s, w)]). fst q < ta_issued s + 1)"
    if "?inv s" for s w
    using that by fastforce
  have step: "?inv (todo_action_step s op)" if inv: "?inv s" for s op
  proof (cases op)
    case (WriteEnds t refused)
    show ?thesis
    proof (cases "map_of (ta_writes s) t")
      case (Some w)
      have kept: "CompleteTodo i \<in> snd ` set (filter (\<lambda>q. fst q \<noteq> t) (ta_writes s))"
        if "CompleteTodo i \<in> snd ` set (ta_writes s)" "w \<noteq> CompleteTodo i" for i
      proof -
        from that(1) obtain u where u: "(u, CompleteTodo i) \<in> set (ta_writes s)" by auto
        with Some that(2) inv have "u \<noteq> t" by (metis map_of_is_SomeI option.inject)
        with u show ?thesis by force
      qed
      show ?thesis
        using inv kept WriteEnds Some
        by (cases w; cases refused) (auto simp: write_ends_def Let_def err distinct_map_filter)
    qed (use inv WriteEnds in \<open>simp add: write_ends_def\<close>)
  qed (use inv fresh [OF inv] in \<open>auto simp: complete_def copyTodoLink_def comment_def todo_write_def err\<close>)
  have "?inv (foldl todo_action_step useTodoActions ops)"
    by (induction ops rule: rev_induct) (simp_all add: step useTodoActions_def del: todo_action_step.simps)
  then show ?thesis by (simp add: todo_action_defs)
qed

theorem busy_todo_is_completing_witness:
  "CompleteTodo 1 \<in> snd ` set (ta_writes (foldl todo_action_step useTodoActions [Completes 1, Comments 2 []]))"
  using busy_todo_is_completing [of "[Completes 1, Comments 2 []]"] by (simp add: todo_action_defs)

subsection \<open>Toggled and collapsed rows\<close>

definition toggle_member :: "int list \<Rightarrow> int \<Rightarrow> int list" where
  "toggle_member members i = (if i \<in> set members then removeAll i members else members @ [i])"

definition useToggleSet :: "int list \<Rightarrow> int list" where
  "useToggleSet toggles = foldl toggle_member [] toggles"

text \<open>An id is a member exactly after an odd number of toggles of it.\<close>

lemma toggled_parity: "i \<in> set (useToggleSet toggles) \<longleftrightarrow> odd (count_list toggles i)"
proof (induction toggles rule: rev_induct)
  case (snoc x xs)
  then show ?case by (cases "x = i") (auto simp: useToggleSet_def toggle_member_def)
qed (simp add: useToggleSet_def)

text \<open>
  The collapse map and the text under its key in local storage; \<open>parse\<close> and \<open>print\<close> are the
  runtime's JSON. A storage that cannot be written keeps the choice in memory only.
\<close>

record CollapseState =
  cl_map :: "(jstring, bool) jsmap"
  cl_stored :: "jstring option"

definition load_collapsed :: "(jstring \<Rightarrow> (jstring, bool) jsmap option) \<Rightarrow> jstring option \<Rightarrow> (jstring, bool) jsmap" where
  "load_collapsed parse stored =
     (case parse (case stored of None \<Rightarrow> lit ''{}'' | Some text \<Rightarrow> text) of None \<Rightarrow> [] | Some m \<Rightarrow> m)"

definition useCollapseState :: "(jstring \<Rightarrow> (jstring, bool) jsmap option) \<Rightarrow> jstring option \<Rightarrow> CollapseState" where
  "useCollapseState parse stored = \<lparr>cl_map = load_collapsed parse stored, cl_stored = stored\<rparr>"

definition set_collapsed ::
  "((jstring, bool) jsmap \<Rightarrow> jstring) \<Rightarrow> bool \<Rightarrow> jstring \<Rightarrow> bool \<Rightarrow> CollapseState \<Rightarrow> CollapseState" where
  "set_collapsed print writable key collapsed s =
     (let next = map_set key collapsed (cl_map s)
      in s\<lparr>cl_map := next, cl_stored := (if writable then Some (print next) else cl_stored s)\<rparr>)"

text \<open>A choice made with a working storage is what the next launch loads.\<close>

lemma collapse_survives_launch:
  assumes "\<And>m. parse (print m) = Some m"
  shows "cl_map (useCollapseState parse (cl_stored (set_collapsed print True key c s))) = cl_map (set_collapsed print True key c s)"
  by (simp add: useCollapseState_def set_collapsed_def load_collapsed_def Let_def assms)

subsection \<open>Where the user is\<close>

type_synonym Presence = "bool \<times> int option"

text \<open>Each report made to the core, in order; \<open>focused\<close> is \<open>None\<close> until the window answered.\<close>

definition presence_report :: "bool option \<Rightarrow> int option \<Rightarrow> Presence" where
  "presence_report focused viewing = ((case focused of None \<Rightarrow> False | Some f \<Rightarrow> f), viewing)"

definition usePresence :: "(bool option \<times> int option) list \<Rightarrow> Presence list" where
  "usePresence renders = map (\<lambda>(focused, viewing). presence_report focused viewing) (remdups_adj renders)"

definition presence_unmount :: "(bool option \<times> int option) list \<Rightarrow> Presence list" where
  "presence_unmount renders = usePresence renders @ [(False, None)]"

text \<open>A watched process is reported exactly while the window is known to be focused.\<close>

lemma presence_claims_focus:
  "(True, viewing) \<in> set (usePresence renders) \<longleftrightarrow> (Some True, viewing) \<in> set renders"
  by (force simp: usePresence_def presence_report_def split: option.splits)

end
