(* ===== verification/Colors.thy ===== *)
theory Colors
  imports Prelude "HOL-Library.Monad_Syntax"
begin

section \<open>Hexadecimal colours and their contrast\<close>

text \<open>
  The first part of \<open>theme/derive.ts\<close>: reading, mixing and comparing colours. A colour is the string the
  source carries. Mixing is exact rational arithmetic where the source computes on doubles, and the
  luminance a real number, its exponent \<open>2.4\<close> by \<open>powr\<close>; a function of the source that throws on a
  string that is no colour is option-valued.
\<close>

subsection \<open>Reading and writing\<close>

definition hex_unit :: "nat \<Rightarrow> bool" where
  "hex_unit c \<longleftrightarrow> 48 \<le> c \<and> c \<le> 57 \<or> 65 \<le> c \<and> c \<le> 70 \<or> 97 \<le> c \<and> c \<le> 102"

definition lower_hex :: "nat \<Rightarrow> nat" where
  "lower_hex c = (if 65 \<le> c \<and> c \<le> 70 then c + 32 else c)"

definition HEX_COLOR :: "jstring \<Rightarrow> bool" where
  "HEX_COLOR v \<longleftrightarrow> (case v of [] \<Rightarrow> False
     | c # digits \<Rightarrow> c = 35 \<and> length digits \<in> {3, 4, 6, 8} \<and> list_all hex_unit digits)"

definition normalizeHexColor :: "jstring \<Rightarrow> jstring option" where
  "normalizeHexColor v =
     (if \<not> HEX_COLOR v then None
      else let digits = map lower_hex (tl v)
        in if length digits = 3 \<or> length digits = 4 then Some (35 # concat (map (\<lambda>d. [d, d]) digits))
           else Some (35 # digits))"

definition hex_value :: "nat \<Rightarrow> int" where
  "hex_value c = (if c \<le> 57 then int c - 48 else int c - 87)"

definition parse_hex :: "jstring \<Rightarrow> int" where
  "parse_hex s = foldl (\<lambda>n c. 16 * n + hex_value c) 0 s"

type_synonym rgb = "int \<times> int \<times> int"

definition channels :: "jstring \<Rightarrow> rgb option" where
  "channels v = (case normalizeHexColor v of None \<Rightarrow> None
     | Some n \<Rightarrow> Some (parse_hex (take 2 (drop 1 n)), parse_hex (take 2 (drop 3 n)), parse_hex (take 2 (drop 5 n))))"

text \<open>\<open>Math.round\<close>, \<open>Number.prototype.toString(16)\<close> and \<open>padStart(2, "0")\<close>.\<close>

definition hex_digit :: "nat \<Rightarrow> nat" where
  "hex_digit n = (if n < 10 then 48 + n else 87 + n)"

fun show_hex :: "nat \<Rightarrow> jstring" where
  "show_hex n = (if n < 16 then [hex_digit n] else show_hex (n div 16) @ [hex_digit (n mod 16)])"

declare show_hex.simps [simp del]

definition to_hex :: "int \<Rightarrow> jstring" where
  "to_hex i = (if i < 0 then 45 # show_hex (nat (- i)) else show_hex (nat i))"

definition pad2 :: "jstring \<Rightarrow> jstring" where
  "pad2 s = replicate (2 - length s) 48 @ s"

definition hex :: "rat \<Rightarrow> rat \<Rightarrow> rat \<Rightarrow> jstring" where
  "hex red green blue = 35 # concat (map (\<lambda>channel. pad2 (to_hex (js_round channel))) [red, green, blue])"

definition mixHex :: "jstring \<Rightarrow> jstring \<Rightarrow> rat \<Rightarrow> jstring option" where
  "mixHex from to amount =
     do { (r, g, b) \<leftarrow> channels from;
          (r', g', b') \<leftarrow> channels to;
          let weight = max 0 (min 1 amount);
          Some (hex (of_int r + of_int (r' - r) * weight) (of_int g + of_int (g' - g) * weight)
                    (of_int b + of_int (b' - b) * weight)) }"

definition withAlpha :: "jstring \<Rightarrow> rat \<Rightarrow> jstring option" where
  "withAlpha color alpha =
     (case normalizeHexColor color of None \<Rightarrow> None
      | Some n \<Rightarrow> Some (take 7 n @ pad2 (to_hex (js_round (max 0 (min 1 alpha) * 255)))))"

subsection \<open>A colour written is the colour read\<close>

definition byte :: "int \<Rightarrow> bool" where
  "byte i \<longleftrightarrow> 0 \<le> i \<and> i \<le> 255"

fun rgb_ok :: "rgb \<Rightarrow> bool" where
  "rgb_ok (r, g, b) \<longleftrightarrow> byte r \<and> byte g \<and> byte b"

lemma show_hex_byte:
  "n < 256 \<Longrightarrow> show_hex n = (if n < 16 then [hex_digit n] else [hex_digit (n div 16), hex_digit (n mod 16)])"
  by (subst show_hex.simps) (auto simp: show_hex.simps [of "n div 16"])

lemma pad2_byte: "byte i \<Longrightarrow> pad2 (to_hex i) = [hex_digit (nat i div 16), hex_digit (nat i mod 16)]"
  by (auto simp: byte_def pad2_def to_hex_def show_hex_byte hex_digit_def)

lemma hex_digit_props:
  "n < 16 \<Longrightarrow> hex_unit (hex_digit n)"
  "n < 16 \<Longrightarrow> lower_hex (hex_digit n) = hex_digit n"
  "n < 16 \<Longrightarrow> hex_value (hex_digit n) = int n"
  by (auto simp: hex_unit_def hex_digit_def lower_hex_def hex_value_def)

lemma hex_value_range: "hex_unit c \<Longrightarrow> 0 \<le> hex_value (lower_hex c) \<and> hex_value (lower_hex c) < 16"
  by (auto simp: hex_unit_def lower_hex_def hex_value_def)

lemma parse_byte: "byte i \<Longrightarrow> parse_hex [hex_digit (nat i div 16), hex_digit (nat i mod 16)] = i"
  by (auto simp: parse_hex_def hex_digit_props byte_def zdiv_int zmod_int)

lemma channels_hex:
  assumes "byte (js_round x)" "byte (js_round y)" "byte (js_round z)"
  shows "channels (hex x y z) = Some (js_round x, js_round y, js_round z)"
    and "HEX_COLOR (hex x y z)"
proof -
  have lt: "nat i div 16 < 16" "nat i mod 16 < 16" if "byte i" for i
    using that by (auto simp: byte_def)
  note facts = pad2_byte [OF assms(1)] pad2_byte [OF assms(2)] pad2_byte [OF assms(3)]
    lt [OF assms(1)] lt [OF assms(2)] lt [OF assms(3)]
  show color: "HEX_COLOR (hex x y z)"
    using facts by (simp add: hex_def HEX_COLOR_def hex_digit_props)
  then show "channels (hex x y z) = Some (js_round x, js_round y, js_round z)"
    using facts assms by (simp add: channels_def normalizeHexColor_def hex_def hex_digit_props parse_byte)
qed

lemma normalize_shape:
  assumes "normalizeHexColor v = Some n"
  shows "HEX_COLOR n" and "\<exists>ds. n = 35 # ds \<and> length ds \<in> {6, 8} \<and> (\<forall>d \<in> set ds. \<exists>c. hex_unit c \<and> d = lower_hex c)"
proof -
  have v: "HEX_COLOR v" using assms by (auto simp: normalizeHexColor_def split: if_splits)
  then obtain ds where ds: "v = 35 # ds" "length ds \<in> {3, 4, 6, 8}" "\<forall>c \<in> set ds. hex_unit c"
    by (auto simp: HEX_COLOR_def list_all_iff split: list.splits)
  have low: "hex_unit c \<Longrightarrow> hex_unit (lower_hex c)" for c by (auto simp: hex_unit_def lower_hex_def)
  have len: "length (concat (map (\<lambda>d. [d, d]) xs)) = 2 * length xs" for xs :: "nat list"
    by (induction xs) auto
  define es where "es = map lower_hex ds"
  have es: "length es = length ds" "\<forall>d \<in> set es. \<exists>c. hex_unit c \<and> d = lower_hex c"
    using ds(3) by (auto simp: es_def)
  have "n = 35 # (if length ds = 3 \<or> length ds = 4 then concat (map (\<lambda>d. [d, d]) es) else es)"
    using assms v ds(1) by (auto simp: normalizeHexColor_def Let_def es_def split: if_splits)
  then show shape: "\<exists>ds. n = 35 # ds \<and> length ds \<in> {6, 8} \<and> (\<forall>d \<in> set ds. \<exists>c. hex_unit c \<and> d = lower_hex c)"
    using ds(2) es len [of es] by auto
  then obtain fs where fs: "n = 35 # fs" "length fs \<in> {6, 8}" "\<forall>d \<in> set fs. \<exists>c. hex_unit c \<and> d = lower_hex c"
    by (elim exE conjE) rule
  have "hex_unit d" if "d \<in> set fs" for d using fs(3) that low by fast
  then show "HEX_COLOR n" using fs(1,2) by (auto simp: HEX_COLOR_def list_all_iff)
qed

lemma channels_bytes: "channels v = Some c \<Longrightarrow> rgb_ok c"
proof -
  assume "channels v = Some c"
  then obtain n where n: "normalizeHexColor v = Some n"
    and c: "c = (parse_hex (take 2 (drop 1 n)), parse_hex (take 2 (drop 3 n)), parse_hex (take 2 (drop 5 n)))"
    by (auto simp: channels_def split: option.splits)
  from normalize_shape(2) [OF n] obtain ds where ds: "n = 35 # ds" "6 \<le> length ds"
    and units: "\<forall>d \<in> set ds. \<exists>u. hex_unit u \<and> d = lower_hex u" by auto
  have pair: "byte (parse_hex [a, b])" if "a \<in> set ds" "b \<in> set ds" for a b
  proof -
    from units that obtain u u' where "hex_unit u" "a = lower_hex u" "hex_unit u'" "b = lower_hex u'" by blast
    then show ?thesis using hex_value_range [of u] hex_value_range [of u'] by (auto simp: parse_hex_def byte_def)
  qed
  from ds(2) obtain a b d e f g rest where "ds = a # b # d # e # f # g # rest"
    by (auto simp: Suc_le_length_iff numeral_eq_Suc)
  then show ?thesis using c ds(1) pair by simp
qed

lemma channels_defined: "channels v \<noteq> None \<longleftrightarrow> HEX_COLOR v"
  by (auto simp: channels_def normalizeHexColor_def Let_def split: option.splits)

lemma channels_of_color: "HEX_COLOR v \<Longrightarrow> \<exists>c. channels v = Some c \<and> rgb_ok c"
  using channels_defined channels_bytes by blast

lemma js_round_byte: "0 \<le> x \<Longrightarrow> x \<le> 255 \<Longrightarrow> byte (js_round x)"
  by (auto simp: js_round_def byte_def le_floor_iff floor_le_iff)

lemma mix_in_range:
  fixes w :: rat
  assumes "byte a" "byte b" "0 \<le> w" "w \<le> 1"
  shows "0 \<le> of_int a + of_int (b - a) * w" and "of_int a + of_int (b - a) * w \<le> 255"
proof -
  have eq: "of_int a + of_int (b - a) * w = of_int a * (1 - w) + of_int b * w" by (simp add: algebra_simps)
  have "(0::rat) \<le> of_int a * (1 - w)" "(0::rat) \<le> of_int b * w"
    using assms by (auto simp: byte_def)
  then show "0 \<le> of_int a + of_int (b - a) * w" unfolding eq by simp
  have "(of_int a :: rat) \<le> 255" "(of_int b :: rat) \<le> 255" using assms by (simp_all add: byte_def)
  then have "of_int a * (1 - w) \<le> 255 * (1 - w)" "of_int b * w \<le> 255 * w"
    using assms(3,4) by (simp_all only: mult_right_mono diff_ge_0_iff_ge)
  then have "of_int a * (1 - w) + of_int b * w \<le> 255 * (1 - w) + 255 * w" by (rule add_mono)
  then show "of_int a + of_int (b - a) * w \<le> 255" unfolding eq by (simp add: algebra_simps)
qed

lemma mixHex_color:
  assumes "HEX_COLOR from" "HEX_COLOR to"
  shows "\<exists>c. mixHex from to amount = Some c \<and> HEX_COLOR c"
proof -
  from channels_of_color [OF assms(1)] obtain r g b where a: "channels from = Some (r, g, b)" "byte r" "byte g" "byte b"
    by (auto simp: split_paired_all)
  from channels_of_color [OF assms(2)] obtain r' g' b' where c: "channels to = Some (r', g', b')" "byte r'" "byte g'" "byte b'"
    by (auto simp: split_paired_all)
  have w: "0 \<le> max 0 (min 1 amount)" "max 0 (min 1 amount) \<le> 1" by auto
  show ?thesis
    by (auto simp: mixHex_def Let_def a c simp del: of_int_diff intro!: channels_hex(2) js_round_byte mix_in_range w a(2-4) c(2-4))
qed

text \<open>Nothing mixed in leaves a colour's channels, everything mixed in gives the other's.\<close>

lemma mixHex_ends:
  assumes "channels from = Some a" "channels to = Some b"
  shows "amount \<le> 0 \<Longrightarrow> \<exists>c. mixHex from to amount = Some c \<and> channels c = Some a"
    and "1 \<le> amount \<Longrightarrow> \<exists>c. mixHex from to amount = Some c \<and> channels c = Some b"
proof -
  obtain r g b0 r' g' b' where ab: "a = (r, g, b0)" "b = (r', g', b')" by (cases a, cases b) auto
  have ok: "byte r" "byte g" "byte b0" "byte r'" "byte g'" "byte b'"
    using channels_bytes [OF assms(1)] channels_bytes [OF assms(2)] ab by auto
  show "amount \<le> 0 \<Longrightarrow> \<exists>c. mixHex from to amount = Some c \<and> channels c = Some a"
    using assms ab ok by (auto simp: mixHex_def max_def channels_hex)
  assume "1 \<le> amount"
  then have "max 0 (min 1 amount) = 1" by simp
  moreover have whole: "of_int x + of_int (y - x) = (of_int y :: rat)" for x y :: int by simp
  ultimately show "\<exists>c. mixHex from to amount = Some c \<and> channels c = Some b"
    using assms ab ok by (auto simp: mixHex_def channels_hex whole simp del: of_int_diff)
qed

lemma withAlpha_color:
  assumes "HEX_COLOR color"
  shows "\<exists>c. withAlpha color alpha = Some c \<and> HEX_COLOR c \<and> channels c = channels color"
proof -
  obtain n where n: "normalizeHexColor color = Some n"
    using assms by (cases "normalizeHexColor color") (auto simp: normalizeHexColor_def Let_def split: if_splits)
  from normalize_shape(2) [OF n] obtain ds where ds: "n = 35 # ds" "6 \<le> length ds"
    and units: "\<forall>d \<in> set ds. \<exists>u. hex_unit u \<and> d = lower_hex u" by auto
  from ds(2) obtain a b d e f g rest where six: "ds = a # b # d # e # f # g # rest"
    by (auto simp: Suc_le_length_iff numeral_eq_Suc)
  have low: "hex_unit x \<and> lower_hex x = x" if "x \<in> set ds" for x
    using units that by (auto simp: hex_unit_def lower_hex_def)
  define k where "k = js_round (max 0 (min 1 alpha) * 255)"
  have "byte k" unfolding k_def by (rule js_round_byte) (auto simp: min_def max_def)
  then have k: "pad2 (to_hex k) = [hex_digit (nat k div 16), hex_digit (nat k mod 16)]"
    "nat k div 16 < 16" "nat k mod 16 < 16" by (auto simp: pad2_byte byte_def)
  have "withAlpha color alpha = Some (take 7 n @ pad2 (to_hex k))"
    by (simp add: withAlpha_def n k_def)
  moreover have "HEX_COLOR (take 7 n @ pad2 (to_hex k))"
    using low k by (simp add: ds(1) six HEX_COLOR_def hex_digit_props)
  moreover from this have "normalizeHexColor (take 7 n @ pad2 (to_hex k)) = Some (take 7 n @ pad2 (to_hex k))"
    using low k by (simp add: normalizeHexColor_def ds(1) six hex_digit_props)
  then have "channels (take 7 n @ pad2 (to_hex k)) = channels color"
    by (simp add: channels_def n ds(1) six)
  ultimately show ?thesis by blast
qed

end
