(* ===== verification/Contrast.thy ===== *)
theory Contrast
  imports Colors Complex_Main
begin

section \<open>Contrast\<close>

text \<open>
  The contrast arithmetic of \<open>theme/derive.ts\<close>: the relative luminance of a colour, the ratio of two
  colours, and the two searches that move a colour until it reads on every background. The numbers are
  real, so an inequality the source decides on a double is decided here exactly. The lemmas give the range
  and the multiplicative triangle of the ratio, and what the two searches return.
\<close>

definition linear_channel :: "int \<Rightarrow> real" where
  "linear_channel channel =
     (let v = of_int channel / 255
      in if v \<le> 0.04045 then v / 12.92 else ((v + 0.055) / 1.055) powr 2.4)"

definition relativeLuminance :: "jstring \<Rightarrow> real option" where
  "relativeLuminance color =
     do { (r, g, b) \<leftarrow> channels color;
          Some (linear_channel r * 0.2126 + linear_channel g * 0.7152 + linear_channel b * 0.0722) }"

definition contrastRatio :: "jstring \<Rightarrow> jstring \<Rightarrow> real option" where
  "contrastRatio first second =
     do { a \<leftarrow> relativeLuminance first;
          b \<leftarrow> relativeLuminance second;
          Some ((max a b + 0.05) / (min a b + 0.05)) }"

definition readableForeground :: "jstring \<Rightarrow> jstring \<Rightarrow> jstring \<Rightarrow> jstring option" where
  "readableForeground background first second =
     do { x \<leftarrow> contrastRatio background first;
          y \<leftarrow> contrastRatio background second;
          Some (if x \<ge> y then first else second) }"

text \<open>\<open>backgrounds.every(\<dots>)\<close>, which stops at the first background the colour fails on.\<close>

fun every_contrast :: "jstring \<Rightarrow> jstring list \<Rightarrow> real \<Rightarrow> bool option" where
  "every_contrast color [] minimum = Some True"
| "every_contrast color (background # rest) minimum =
     do { ratio \<leftarrow> contrastRatio color background;
          if ratio \<ge> minimum then every_contrast color rest minimum else Some False }"

fun contrast_steps :: "jstring \<Rightarrow> jstring list \<Rightarrow> real \<Rightarrow> jstring \<Rightarrow> nat list \<Rightarrow> jstring option" where
  "contrast_steps color backgrounds minimum target [] = Some target"
| "contrast_steps color backgrounds minimum target (step # steps) =
     do { adjusted \<leftarrow> mixHex color target (of_nat step / 100);
          ok \<leftarrow> every_contrast adjusted backgrounds minimum;
          if ok then Some adjusted else contrast_steps color backgrounds minimum target steps }"

definition ensureThemeContrast :: "jstring \<Rightarrow> jstring list \<Rightarrow> real \<Rightarrow> jstring \<Rightarrow> jstring option" where
  "ensureThemeContrast color backgrounds minimum target =
     do { ok \<leftarrow> every_contrast color backgrounds minimum;
          if ok then Some color else contrast_steps color backgrounds minimum target [1..<101] }"

text \<open>
  \<open>Math.min\<close> of no numbers is \<open>Infinity\<close>, here \<open>None\<close>; \<open>reduce\<close> over the two endpoints keeps black unless
  white is strictly better.
\<close>

definition worstRatio :: "jstring list \<Rightarrow> jstring \<Rightarrow> real option option" where
  "worstRatio backgrounds c =
     do { ratios \<leftarrow> those (map (contrastRatio c) backgrounds);
          Some (case ratios of [] \<Rightarrow> None | r # rs \<Rightarrow> Some (fold min rs r)) }"

fun ratio_above :: "real option \<Rightarrow> real option \<Rightarrow> bool" where
  "ratio_above None (Some _) = True"
| "ratio_above (Some x) (Some y) = (x > y)"
| "ratio_above _ None = False"

definition BLACK :: jstring where "BLACK = hex 0 0 0"
definition WHITE :: jstring where "WHITE = hex 255 255 255"

definition contrastSafeThemeColor :: "jstring \<Rightarrow> jstring list \<Rightarrow> real \<Rightarrow> jstring option" where
  "contrastSafeThemeColor color backgrounds minimum =
     do { white \<leftarrow> worstRatio backgrounds WHITE;
          black \<leftarrow> worstRatio backgrounds BLACK;
          ensureThemeContrast color backgrounds minimum (if ratio_above white black then WHITE else BLACK) }"

subsection \<open>The ratio\<close>

lemma linear_channel_range: "byte c \<Longrightarrow> 0 \<le> linear_channel c" "byte c \<Longrightarrow> linear_channel c \<le> 1"
  by (auto simp: linear_channel_def Let_def byte_def field_simps intro!: powr_le1)

lemma linear_channel_ends [simp]: "linear_channel 0 = 0" "linear_channel 255 = 1"
  by (simp_all add: linear_channel_def)

lemma luminance_color:
  assumes "HEX_COLOR c"
  obtains l where "relativeLuminance c = Some l" "0 \<le> l" "l \<le> 1"
proof -
  from channels_of_color [OF assms] obtain r g b where c: "channels c = Some (r, g, b)" "byte r" "byte g" "byte b"
    by (auto simp: split_paired_all)
  show thesis
  proof (rule that)
    show "relativeLuminance c
      = Some (linear_channel r * 0.2126 + linear_channel g * 0.7152 + linear_channel b * 0.0722)"
      by (simp add: relativeLuminance_def c)
    show "0 \<le> linear_channel r * 0.2126 + linear_channel g * 0.7152 + linear_channel b * 0.0722"
      "linear_channel r * 0.2126 + linear_channel g * 0.7152 + linear_channel b * 0.0722 \<le> 1"
      using linear_channel_range [OF c(2)] linear_channel_range [OF c(3)] linear_channel_range [OF c(4)] by simp_all
  qed
qed

lemma contrast_of:
  "relativeLuminance x = Some a \<Longrightarrow> relativeLuminance y = Some b
   \<Longrightarrow> contrastRatio x y = Some ((max a b + 0.05) / (min a b + 0.05))"
  by (simp add: contrastRatio_def)

lemma contrast_color:
  assumes "HEX_COLOR x" "HEX_COLOR y"
  obtains r where "contrastRatio x y = Some r" "1 \<le> r" "r \<le> 21"
proof -
  obtain a where a: "relativeLuminance x = Some a" "0 \<le> a" "a \<le> 1" by (rule luminance_color [OF assms(1)])
  obtain b where b: "relativeLuminance y = Some b" "0 \<le> b" "b \<le> 1" by (rule luminance_color [OF assms(2)])
  have "max a b + 0.05 \<le> 21 * (min a b + 0.05)" "0 < min a b + 0.05" "min a b \<le> max a b"
    using a b by auto
  then show thesis using that [OF contrast_of [OF a(1) b(1)]] by (simp add: field_simps)
qed

lemma contrast_sym: "contrastRatio x y = contrastRatio y x"
  by (cases "relativeLuminance x"; cases "relativeLuminance y") (auto simp: contrastRatio_def max.commute min.commute)

lemma ratio_triangle:
  fixes a b c :: real
  assumes "0 < a" "0 < b" "0 < c"
  shows "max a c / min a c \<le> (max a b / min a b) * (max b c / min b c)"
proof -
  have "a / c \<le> (max a b / min a b) * (max b c / min b c)" if "0 < a" "0 < b" "0 < c" for a b c :: real
  proof -
    have "a / b \<le> max a b / min a b" "b / c \<le> max b c / min b c"
      using that by (auto intro!: frac_le)
    then have "(a / b) * (b / c) \<le> (max a b / min a b) * (max b c / min b c)"
      using that by (intro mult_mono) auto
    then show ?thesis using that by simp
  qed
  from this [of a b c] this [of c b a] assms show ?thesis
    by (cases "a \<le> c") (auto simp: max.commute min.commute mult.commute max_def min_def)
qed

lemma contrast_triangle:
  assumes "contrastRatio x y = Some p" "contrastRatio y z = Some q" "contrastRatio x z = Some r"
    and "HEX_COLOR x" "HEX_COLOR y" "HEX_COLOR z"
  shows "r \<le> p * q"
proof -
  obtain a where a: "relativeLuminance x = Some a" "0 \<le> a" by (rule luminance_color [OF assms(4)])
  obtain b where b: "relativeLuminance y = Some b" "0 \<le> b" by (rule luminance_color [OF assms(5)])
  obtain c where c: "relativeLuminance z = Some c" "0 \<le> c" by (rule luminance_color [OF assms(6)])
  have shift: "max u v + 1 / 20 = max (u + 1 / 20) (v + 1 / 20)" "min u v + 1 / 20 = min (u + 1 / 20) (v + 1 / 20)"
    for u v :: real
    by (auto simp: max_def min_def)
  show ?thesis
    using ratio_triangle [of "a + 0.05" "b + 0.05" "c + 0.05"] a b c
      contrast_of [OF a(1) b(1)] contrast_of [OF b(1) c(1)] contrast_of [OF a(1) c(1)] assms(1-3)
    by (simp add: shift)
qed

lemma ends_color [simp]: "HEX_COLOR BLACK" "HEX_COLOR WHITE" "channels BLACK = Some (0, 0, 0)"
  "channels WHITE = Some (255, 255, 255)"
  using channels_hex [of 0 0 0] channels_hex [of 255 255 255] js_round_of_int [of 0] js_round_of_int [of 255]
  by (simp_all add: BLACK_def WHITE_def byte_def)

lemma ends_luminance [simp]: "relativeLuminance BLACK = Some 0" "relativeLuminance WHITE = Some 1"
  by (simp_all add: relativeLuminance_def)

lemma ends_contrast: "contrastRatio WHITE BLACK = Some 21"
  by (simp add: contrast_of [of WHITE 1 BLACK 0])

text \<open>Whatever the background, one of black and white reaches the ratio body text must have.\<close>

lemma black_or_white:
  assumes "HEX_COLOR b"
  obtains x y where "contrastRatio BLACK b = Some x" "contrastRatio WHITE b = Some y" "4.5 \<le> max x y"
proof -
  obtain l where l: "relativeLuminance b = Some l" "0 \<le> l" "l \<le> 1" by (rule luminance_color [OF assms])
  have "contrastRatio BLACK b = Some ((l + 0.05) / 0.05)" "contrastRatio WHITE b = Some (1.05 / (l + 0.05))"
    using l contrast_of [of BLACK 0 b l] contrast_of [of WHITE 1 b l] by (simp_all add: max_def min_def)
  moreover have "4.5 \<le> (l + 0.05) / 0.05 \<or> 4.5 \<le> 1.05 / (l + 0.05)"
  proof (cases "0.175 \<le> l")
    case True
    then show ?thesis by (simp add: field_simps)
  next
    case False
    then have "4.5 * (l + 0.05) \<le> 1.05" by simp
    then have "4.5 \<le> 1.05 / (l + 0.05)" using l(2) by (subst le_divide_eq) auto
    then show ?thesis by blast
  qed
  ultimately show thesis using that by (simp add: le_max_iff_disj)
qed

text \<open>The pick of a foreground is the better of the two, so it is at least the root of their own contrast.\<close>

lemma readable_color:
  assumes "HEX_COLOR background" "HEX_COLOR first" "HEX_COLOR second"
  obtains ink where "readableForeground background first second = Some ink" "HEX_COLOR ink"
proof -
  obtain x where x: "contrastRatio background first = Some x" by (rule contrast_color [OF assms(1,2)])
  obtain y where y: "contrastRatio background second = Some y" by (rule contrast_color [OF assms(1,3)])
  show thesis
    by (rule that [of "if x \<ge> y then first else second"]) (simp_all add: readableForeground_def x y assms)
qed

lemma readable_best:
  assumes colors: "HEX_COLOR background" "HEX_COLOR first" "HEX_COLOR second"
    and ink: "readableForeground background first second = Some ink" "contrastRatio background ink = Some r"
    and own: "contrastRatio first second = Some q"
  shows "q \<le> r * r"
proof -
  obtain x where x: "contrastRatio background first = Some x" "1 \<le> x" by (rule contrast_color [OF colors(1,2)])
  obtain y where y: "contrastRatio background second = Some y" "1 \<le> y" by (rule contrast_color [OF colors(1,3)])
  have r: "x \<le> r" "y \<le> r" using ink x(1) y(1) by (auto simp: readableForeground_def split: if_splits)
  have "q \<le> x * y"
    using contrast_triangle [of first background x second y q] x y own colors contrast_sym [of first background] by simp
  also have "\<dots> \<le> r * r" using r x(2) y(2) by (intro mult_mono) auto
  finally show ?thesis .
qed

subsection \<open>The searches\<close>

definition meets :: "jstring \<Rightarrow> jstring list \<Rightarrow> real \<Rightarrow> bool" where
  "meets color backgrounds minimum
     \<longleftrightarrow> list_all (\<lambda>b. case contrastRatio color b of None \<Rightarrow> False | Some r \<Rightarrow> minimum \<le> r) backgrounds"

lemma every_contrast_meets:
  assumes "HEX_COLOR c" "list_all HEX_COLOR bs"
  shows "every_contrast c bs m = Some (meets c bs m)"
  using assms(2)
proof (induction bs)
  case (Cons b bs)
  then have "HEX_COLOR b" by simp
  then obtain r where "contrastRatio c b = Some r" by (rule contrast_color [OF assms(1)])
  then show ?case using Cons by (simp add: meets_def)
qed (simp add: meets_def)

lemma meets_channels:
  assumes "channels c = channels d"
  shows "meets c bs m = meets d bs m"
proof -
  have "relativeLuminance c = relativeLuminance d" using assms by (simp add: relativeLuminance_def)
  then show ?thesis by (simp add: meets_def contrastRatio_def)
qed

text \<open>
  The walk from a colour to its target: it always answers a colour, the first of the steps that reads on
  every background, and the target's own channels are the last of them.
\<close>

lemma contrast_steps_color:
  assumes "HEX_COLOR color" "HEX_COLOR target" "list_all HEX_COLOR bs"
  obtains c where "contrast_steps color bs m target steps = Some c" "HEX_COLOR c"
    "meets target bs m \<longrightarrow> meets c bs m"
proof -
  have "\<exists>c. contrast_steps color bs m target steps = Some c \<and> HEX_COLOR c \<and> (meets target bs m \<longrightarrow> meets c bs m)"
  proof (induction steps)
    case (Cons s steps)
    obtain a where a: "mixHex color target (of_nat s / 100) = Some a" "HEX_COLOR a"
      using mixHex_color [OF assms(1,2)] by blast
    show ?case using Cons every_contrast_meets [OF a(2) assms(3)] a by auto
  qed (use assms in simp)
  then show thesis using that by blast
qed

lemma contrast_steps_first:
  assumes "HEX_COLOR color" "HEX_COLOR target" "list_all HEX_COLOR bs"
    and "contrast_steps color bs m target steps = Some c"
  shows "c = target \<and> (\<forall>s \<in> set steps. \<forall>d. mixHex color target (of_nat s / 100) = Some d \<longrightarrow> \<not> meets d bs m)
    \<or> (\<exists>before s after. steps = before @ s # after \<and> mixHex color target (of_nat s / 100) = Some c \<and> meets c bs m
        \<and> (\<forall>t \<in> set before. \<forall>d. mixHex color target (of_nat t / 100) = Some d \<longrightarrow> \<not> meets d bs m))"
  using assms(4)
proof (induction steps)
  case (Cons s steps)
  obtain a where a: "mixHex color target (of_nat s / 100) = Some a" "HEX_COLOR a"
    using mixHex_color [OF assms(1,2)] by blast
  note every = every_contrast_meets [OF a(2) assms(3), of m]
  show ?case
  proof (cases "meets a bs m")
    case True
    then have "c = a" using Cons.prems a every by simp
    then show ?thesis using a True by (intro disjI2 exI [of _ "[]"]) auto
  next
    case False
    then have rest: "contrast_steps color bs m target steps = Some c" using Cons.prems a every by simp
    from Cons.IH [OF rest] show ?thesis
    proof (elim disjE exE conjE)
      fix before t after
      assume "steps = before @ t # after" "mixHex color target (of_nat t / 100) = Some c" "meets c bs m"
        "\<forall>t \<in> set before. \<forall>d. mixHex color target (of_nat t / 100) = Some d \<longrightarrow> \<not> meets d bs m"
      then show ?thesis using False a(1) by (intro disjI2 exI [of _ "s # before"] exI [of _ t] exI [of _ after]) auto
    qed (use False a(1) in auto)
  qed
qed simp

lemma ensure_contrast_color:
  assumes "HEX_COLOR color" "HEX_COLOR target" "list_all HEX_COLOR bs"
  obtains c where "ensureThemeContrast color bs m target = Some c" "HEX_COLOR c"
    "meets target bs m \<longrightarrow> meets c bs m" "meets color bs m \<longrightarrow> c = color"
proof (cases "meets color bs m")
  case True
  then show thesis using that [of color] assms every_contrast_meets [OF assms(1,3), of m]
    by (simp add: ensureThemeContrast_def)
next
  case False
  obtain c where "contrast_steps color bs m target [1..<101] = Some c" "HEX_COLOR c"
    "meets target bs m \<longrightarrow> meets c bs m"
    by (rule contrast_steps_color [OF assms, of m "[1..<101]"])
  then show thesis using that [of c] False every_contrast_meets [OF assms(1,3), of m]
    by (simp add: ensureThemeContrast_def)
qed

text \<open>The hundredth step is the target itself, so the walk never answers a colour short of it by rounding.\<close>

lemma last_step_is_target:
  assumes "HEX_COLOR color" "HEX_COLOR target"
  shows "\<exists>c. mixHex color target (of_nat 100 / 100) = Some c \<and> channels c = channels target"
proof -
  obtain a b where "channels color = Some a" "channels target = Some b"
    using channels_of_color [OF assms(1)] channels_of_color [OF assms(2)] by blast
  from mixHex_ends(2) [OF this, of 1] this show ?thesis by simp
qed

subsection \<open>The safe colour\<close>

lemma worst_ratio_color:
  assumes "HEX_COLOR c" "list_all HEX_COLOR bs"
  shows "\<exists>w. worstRatio bs c = Some w \<and> (case w of None \<Rightarrow> bs = [] | Some r \<Rightarrow> bs \<noteq> [] \<and> (\<forall>m. meets c bs m = (m \<le> r)))"
proof -
  have "\<exists>rs. those (map (contrastRatio c) bs) = Some rs \<and> length rs = length bs
      \<and> (\<forall>m. meets c bs m = list_all (\<lambda>r. m \<le> r) rs)"
    using assms(2)
  proof (induction bs)
    case (Cons b bs)
    then have "HEX_COLOR b" by simp
    then obtain r where "contrastRatio c b = Some r" by (rule contrast_color [OF assms(1)])
    then show ?case using Cons by (auto simp: meets_def)
  qed (simp add: meets_def)
  then obtain rs where rs: "those (map (contrastRatio c) bs) = Some rs" "length rs = length bs"
    "\<And>m. meets c bs m = list_all (\<lambda>r. m \<le> r) rs" by blast
  have least: "(m \<le> fold min xs x) = (m \<le> x \<and> list_all (\<lambda>r. m \<le> r) xs)" for m x :: real and xs
    by (induction xs arbitrary: x) auto
  show ?thesis
  proof (cases rs)
    case Nil
    then show ?thesis using rs by (simp add: worstRatio_def)
  next
    case (Cons r rs')
    then show ?thesis using rs least by (auto simp: worstRatio_def)
  qed
qed

lemma safe_color:
  assumes "HEX_COLOR color" "list_all HEX_COLOR bs"
  obtains c where "contrastSafeThemeColor color bs m = Some c" "HEX_COLOR c"
    "meets BLACK bs m \<or> meets WHITE bs m \<longrightarrow> meets c bs m" "meets color bs m \<longrightarrow> c = color"
proof -
  obtain w where w: "worstRatio bs WHITE = Some w"
    "case w of None \<Rightarrow> bs = [] | Some r \<Rightarrow> bs \<noteq> [] \<and> (\<forall>m. meets WHITE bs m = (m \<le> r))"
    using worst_ratio_color [OF ends_color(2) assms(2)] by blast
  obtain b where b: "worstRatio bs BLACK = Some b"
    "case b of None \<Rightarrow> bs = [] | Some r \<Rightarrow> bs \<noteq> [] \<and> (\<forall>m. meets BLACK bs m = (m \<le> r))"
    using worst_ratio_color [OF ends_color(1) assms(2)] by blast
  let ?target = "if ratio_above w b then WHITE else BLACK"
  have t: "HEX_COLOR ?target" by simp
  have best: "meets BLACK bs m \<or> meets WHITE bs m \<Longrightarrow> meets ?target bs m"
    using w(2) b(2) by (cases w; cases b) (auto simp: meets_def split: if_splits)
  obtain c where "ensureThemeContrast color bs m ?target = Some c" "HEX_COLOR c"
    "meets ?target bs m \<longrightarrow> meets c bs m" "meets color bs m \<longrightarrow> c = color"
    by (rule ensure_contrast_color [OF assms(1) t assms(2), of m])
  then show thesis using that [of c] best w(1) b(1) by (simp add: contrastSafeThemeColor_def)
qed

end
