(* ===== verification/SettingsDomain.thy ===== *)
theory SettingsDomain
  imports Domain
begin

section \<open>The settings vocabulary\<close>

text \<open>
  The shapes of \<open>domain.ts\<close> that the appearance and theme modules and the IPC client read: the Appearance
  document with its closed enums, the theme file with its palettes and extensions, the applied theme, and
  the documents of the other settings tabs. A record over a closed set of keys (\<open>Record<Role, string>\<close>) is
  a function on the datatype of its keys, a partial one an option-valued function.
\<close>

subsection \<open>Appearance\<close>

datatype FontScale = ScaleExtraSmall | ScaleSmall | ScaleMedium | ScaleLarge | ScaleExtraLarge

datatype FontWeight = W100 | W200 | W300 | W400 | W500 | W600 | W700 | W800 | W900

datatype LineHeight = LineCompact | LineDefault | LineComfortable | LineSpacious

datatype LetterSpacing = SpacingTight | SpacingDefault | SpacingWide | SpacingWider

datatype CursorStyle = CursorBlock | CursorUnderline | CursorBar

datatype CursorInactiveStyle = InactiveOutline | InactiveBlock | InactiveBar | InactiveUnderline | InactiveNone

record TerminalAppearance =
  ta_focus_on_click :: bool
  ta_copy_on_select :: bool
  ta_font_family :: "jstring option"
  ta_font_weight :: FontWeight
  ta_bold_font_weight :: FontWeight
  ta_font_scale :: FontScale
  ta_line_height :: LineHeight
  ta_letter_spacing :: LetterSpacing
  ta_cursor_style :: CursorStyle
  ta_cursor_inactive_style :: CursorInactiveStyle
  ta_cursor_blink :: bool

subsection \<open>Themes\<close>

datatype ThemeAppearance = AppLight | AppDark

definition THEME_APPEARANCES :: "ThemeAppearance list" where "THEME_APPEARANCES = [AppLight, AppDark]"

datatype ThemeColorRole = RoleCanvas | RoleChrome | RoleToolbar | RoleToolbarForeground |
  RoleToolbarBorder | RoleToolbarControl | RoleToolbarControlForeground | RoleToolbarControlHover
  | RoleSurface | RoleSurfaceRaised | RoleSurfaceOverlay | RoleText | RoleTextMuted | RoleBorder |
  RoleInput | RoleFocus | RoleAccent | RoleAccentForeground | RoleSecondary |
  RoleSecondaryForeground | RoleMuted | RoleMutedForeground | RolePlaceholder | RoleSecondaryLabel
  | RoleIconMuted | RoleError | RoleErrorForeground | RoleErrorSurface | RoleWarning |
  RoleWarningForeground | RoleWarningSurface | RoleUpdate | RoleUpdateForeground |
  RoleUpdateSurface | RoleAccentSurface | RoleAccentSurfaceForeground | RoleMessageSurface |
  RoleMessageForeground | RoleMessageAction | RoleMessageActionForeground | RoleMessageActionHover
  | RoleCodeBackground | RoleCodeForeground | RoleSidebar | RoleSidebarForeground |
  RoleSidebarMutedForeground | RoleSidebarControlSurface | RoleSidebarRowHover |
  RoleSidebarRowActive | RoleSidebarRowSelected | RoleSidebarBorder | RoleTerminalBackground |
  RoleTerminalForeground | RoleTerminalCursor | RoleTerminalSelection | RoleTerminalScrollbar |
  RoleTerminalScrollbarHover

type_synonym ThemeColors = "ThemeColorRole \<Rightarrow> jstring"

datatype ExtensionRole = ExtStatusRunning | ExtStatusTransition | ExtStatusStopped |
  ExtStatusCrashed | ExtStatusExhausted | ExtStatusAttention | ExtGitModified | ExtGitAdded |
  ExtGitDeleted | ExtGitConflicted | ExtGitIgnored | ExtGitBranchSynced | ExtGitBranchLocal |
  ExtFileLanguageAmber | ExtFileLanguageAzure | ExtFileLanguageBlue | ExtFileLanguageCyan |
  ExtFileLanguageGreen | ExtFileLanguageOrange | ExtFileLanguagePink | ExtFileLanguageRed |
  ExtFileLanguageViolet | ExtOverlayScrim | ExtShadowInk

type_synonym ThemeExtensions = "ExtensionRole \<Rightarrow> jstring"

datatype SoloistRole = Extension ExtensionRole | SolTerminalSelectionInactive |
  SolTerminalScrollbarActive | SolTerminalOverviewRulerBorder | SolTerminalAnsiBlack |
  SolTerminalAnsiRed | SolTerminalAnsiGreen | SolTerminalAnsiYellow | SolTerminalAnsiBlue |
  SolTerminalAnsiMagenta | SolTerminalAnsiCyan | SolTerminalAnsiWhite | SolTerminalAnsiBrightBlack
  | SolTerminalAnsiBrightRed | SolTerminalAnsiBrightGreen | SolTerminalAnsiBrightYellow |
  SolTerminalAnsiBrightBlue | SolTerminalAnsiBrightMagenta | SolTerminalAnsiBrightCyan |
  SolTerminalAnsiBrightWhite | SolTerminalSearchMatchBackground | SolTerminalSearchMatchBorder |
  SolTerminalSearchMatchOverviewRuler | SolTerminalSearchActiveMatchBackground |
  SolTerminalSearchActiveMatchBorder | SolTerminalSearchActiveMatchOverviewRuler

text \<open>A partial record of all the application-specific roles, \<open>Partial<SoloistThemeExtensions>\<close>.\<close>

type_synonym SoloistThemeExtensions = "SoloistRole \<Rightarrow> jstring option"

datatype TerminalRole = TermBackground | TermForeground | TermCursor | TermCursorAccent |
  TermSelectionBackground | TermSelectionInactiveBackground | TermScrollbarSliderBackground |
  TermScrollbarSliderHoverBackground | TermScrollbarSliderActiveBackground |
  TermOverviewRulerBorder | TermBlack | TermRed | TermGreen | TermYellow | TermBlue | TermMagenta
  | TermCyan | TermWhite | TermBrightBlack | TermBrightRed | TermBrightGreen | TermBrightYellow |
  TermBrightBlue | TermBrightMagenta | TermBrightCyan | TermBrightWhite |
  TermSearchMatchBackground | TermSearchMatchBorder | TermSearchMatchOverviewRuler |
  TermSearchActiveMatchBackground | TermSearchActiveMatchBorder |
  TermSearchActiveMatchOverviewRuler

type_synonym AppliedTerminalTheme = "TerminalRole \<Rightarrow> jstring"

record ThemeFileExtensions =
  tfe_soloist :: "SoloistThemeExtensions option"

record ThemeVariants =
  tva_light :: "ThemeColors option"
  tva_dark :: "ThemeColors option"
  tva_extensions :: "(ThemeAppearance \<Rightarrow> ThemeFileExtensions option) option"

record ThemeFile =
  tf_version :: int
  tf_id :: jstring
  tf_name :: jstring
  tf_appearance :: ThemeAppearance
  tf_author :: "jstring option"
  tf_description :: "jstring option"
  tf_colors :: ThemeColors
  tf_variants :: "ThemeVariants option"
  tf_sidebarArtwork :: "bool option"
  tf_managed :: "bool option"
  tf_extensions :: "ThemeFileExtensions option"

datatype ThemeSource = BuiltIn | Custom

record ThemeDefinition = ThemeFile +
  td_source :: ThemeSource

record ThemeSelection =
  tsel_light :: jstring
  tsel_dark :: jstring

datatype ThemeConflictPolicy = ConflictReject | ConflictReplace | ConflictKeepBoth

record AppliedTheme =
  at_id :: jstring
  at_name :: jstring
  at_appearance :: ThemeAppearance
  at_colors :: ThemeColors
  at_extensions :: ThemeExtensions
  at_terminal :: AppliedTerminalTheme
  at_glassOpacity :: int
  at_signature :: jstring

record Appearance =
  ap_theme :: Theme
  ap_interface_font_scale :: FontScale
  ap_terminal :: TerminalAppearance
  ap_selected_themes :: ThemeSelection
  ap_custom_themes :: "ThemeFile list"
  ap_glass_opacity :: int

subsection \<open>The keys of the theme records\<close>

text \<open>The keys in the order the source declares them, with the text each has on the wire.\<close>

primrec role_name :: "ThemeColorRole \<Rightarrow> string" where
  "role_name RoleCanvas = ''canvas''"
| "role_name RoleChrome = ''chrome''"
| "role_name RoleToolbar = ''toolbar''"
| "role_name RoleToolbarForeground = ''toolbarForeground''"
| "role_name RoleToolbarBorder = ''toolbarBorder''"
| "role_name RoleToolbarControl = ''toolbarControl''"
| "role_name RoleToolbarControlForeground = ''toolbarControlForeground''"
| "role_name RoleToolbarControlHover = ''toolbarControlHover''"
| "role_name RoleSurface = ''surface''"
| "role_name RoleSurfaceRaised = ''surfaceRaised''"
| "role_name RoleSurfaceOverlay = ''surfaceOverlay''"
| "role_name RoleText = ''text''"
| "role_name RoleTextMuted = ''textMuted''"
| "role_name RoleBorder = ''border''"
| "role_name RoleInput = ''input''"
| "role_name RoleFocus = ''focus''"
| "role_name RoleAccent = ''accent''"
| "role_name RoleAccentForeground = ''accentForeground''"
| "role_name RoleSecondary = ''secondary''"
| "role_name RoleSecondaryForeground = ''secondaryForeground''"
| "role_name RoleMuted = ''muted''"
| "role_name RoleMutedForeground = ''mutedForeground''"
| "role_name RolePlaceholder = ''placeholder''"
| "role_name RoleSecondaryLabel = ''secondaryLabel''"
| "role_name RoleIconMuted = ''iconMuted''"
| "role_name RoleError = ''error''"
| "role_name RoleErrorForeground = ''errorForeground''"
| "role_name RoleErrorSurface = ''errorSurface''"
| "role_name RoleWarning = ''warning''"
| "role_name RoleWarningForeground = ''warningForeground''"
| "role_name RoleWarningSurface = ''warningSurface''"
| "role_name RoleUpdate = ''update''"
| "role_name RoleUpdateForeground = ''updateForeground''"
| "role_name RoleUpdateSurface = ''updateSurface''"
| "role_name RoleAccentSurface = ''accentSurface''"
| "role_name RoleAccentSurfaceForeground = ''accentSurfaceForeground''"
| "role_name RoleMessageSurface = ''messageSurface''"
| "role_name RoleMessageForeground = ''messageForeground''"
| "role_name RoleMessageAction = ''messageAction''"
| "role_name RoleMessageActionForeground = ''messageActionForeground''"
| "role_name RoleMessageActionHover = ''messageActionHover''"
| "role_name RoleCodeBackground = ''codeBackground''"
| "role_name RoleCodeForeground = ''codeForeground''"
| "role_name RoleSidebar = ''sidebar''"
| "role_name RoleSidebarForeground = ''sidebarForeground''"
| "role_name RoleSidebarMutedForeground = ''sidebarMutedForeground''"
| "role_name RoleSidebarControlSurface = ''sidebarControlSurface''"
| "role_name RoleSidebarRowHover = ''sidebarRowHover''"
| "role_name RoleSidebarRowActive = ''sidebarRowActive''"
| "role_name RoleSidebarRowSelected = ''sidebarRowSelected''"
| "role_name RoleSidebarBorder = ''sidebarBorder''"
| "role_name RoleTerminalBackground = ''terminalBackground''"
| "role_name RoleTerminalForeground = ''terminalForeground''"
| "role_name RoleTerminalCursor = ''terminalCursor''"
| "role_name RoleTerminalSelection = ''terminalSelection''"
| "role_name RoleTerminalScrollbar = ''terminalScrollbar''"
| "role_name RoleTerminalScrollbarHover = ''terminalScrollbarHover''"

definition THEME_COLOR_ROLES :: "ThemeColorRole list" where
  "THEME_COLOR_ROLES = [RoleCanvas, RoleChrome, RoleToolbar, RoleToolbarForeground,
     RoleToolbarBorder, RoleToolbarControl, RoleToolbarControlForeground, RoleToolbarControlHover,
     RoleSurface, RoleSurfaceRaised, RoleSurfaceOverlay, RoleText, RoleTextMuted, RoleBorder,
     RoleInput, RoleFocus, RoleAccent, RoleAccentForeground, RoleSecondary,
     RoleSecondaryForeground, RoleMuted, RoleMutedForeground, RolePlaceholder, RoleSecondaryLabel,
     RoleIconMuted, RoleError, RoleErrorForeground, RoleErrorSurface, RoleWarning,
     RoleWarningForeground, RoleWarningSurface, RoleUpdate, RoleUpdateForeground,
     RoleUpdateSurface, RoleAccentSurface, RoleAccentSurfaceForeground, RoleMessageSurface,
     RoleMessageForeground, RoleMessageAction, RoleMessageActionForeground,
     RoleMessageActionHover, RoleCodeBackground, RoleCodeForeground, RoleSidebar,
     RoleSidebarForeground, RoleSidebarMutedForeground, RoleSidebarControlSurface,
     RoleSidebarRowHover, RoleSidebarRowActive, RoleSidebarRowSelected, RoleSidebarBorder,
     RoleTerminalBackground, RoleTerminalForeground, RoleTerminalCursor, RoleTerminalSelection,
     RoleTerminalScrollbar, RoleTerminalScrollbarHover]"

primrec extension_name :: "ExtensionRole \<Rightarrow> string" where
  "extension_name ExtStatusRunning = ''statusRunning''"
| "extension_name ExtStatusTransition = ''statusTransition''"
| "extension_name ExtStatusStopped = ''statusStopped''"
| "extension_name ExtStatusCrashed = ''statusCrashed''"
| "extension_name ExtStatusExhausted = ''statusExhausted''"
| "extension_name ExtStatusAttention = ''statusAttention''"
| "extension_name ExtGitModified = ''gitModified''"
| "extension_name ExtGitAdded = ''gitAdded''"
| "extension_name ExtGitDeleted = ''gitDeleted''"
| "extension_name ExtGitConflicted = ''gitConflicted''"
| "extension_name ExtGitIgnored = ''gitIgnored''"
| "extension_name ExtGitBranchSynced = ''gitBranchSynced''"
| "extension_name ExtGitBranchLocal = ''gitBranchLocal''"
| "extension_name ExtFileLanguageAmber = ''fileLanguageAmber''"
| "extension_name ExtFileLanguageAzure = ''fileLanguageAzure''"
| "extension_name ExtFileLanguageBlue = ''fileLanguageBlue''"
| "extension_name ExtFileLanguageCyan = ''fileLanguageCyan''"
| "extension_name ExtFileLanguageGreen = ''fileLanguageGreen''"
| "extension_name ExtFileLanguageOrange = ''fileLanguageOrange''"
| "extension_name ExtFileLanguagePink = ''fileLanguagePink''"
| "extension_name ExtFileLanguageRed = ''fileLanguageRed''"
| "extension_name ExtFileLanguageViolet = ''fileLanguageViolet''"
| "extension_name ExtOverlayScrim = ''overlayScrim''"
| "extension_name ExtShadowInk = ''shadowInk''"

definition EXTENSION_ROLES :: "ExtensionRole list" where
  "EXTENSION_ROLES = [ExtStatusRunning, ExtStatusTransition, ExtStatusStopped, ExtStatusCrashed,
     ExtStatusExhausted, ExtStatusAttention, ExtGitModified, ExtGitAdded, ExtGitDeleted,
     ExtGitConflicted, ExtGitIgnored, ExtGitBranchSynced, ExtGitBranchLocal, ExtFileLanguageAmber,
     ExtFileLanguageAzure, ExtFileLanguageBlue, ExtFileLanguageCyan, ExtFileLanguageGreen,
     ExtFileLanguageOrange, ExtFileLanguagePink, ExtFileLanguageRed, ExtFileLanguageViolet,
     ExtOverlayScrim, ExtShadowInk]"

fun soloist_name :: "SoloistRole \<Rightarrow> string" where
  "soloist_name (Extension r) = extension_name r"
| "soloist_name SolTerminalSelectionInactive = ''terminalSelectionInactive''"
| "soloist_name SolTerminalScrollbarActive = ''terminalScrollbarActive''"
| "soloist_name SolTerminalOverviewRulerBorder = ''terminalOverviewRulerBorder''"
| "soloist_name SolTerminalAnsiBlack = ''terminalAnsiBlack''"
| "soloist_name SolTerminalAnsiRed = ''terminalAnsiRed''"
| "soloist_name SolTerminalAnsiGreen = ''terminalAnsiGreen''"
| "soloist_name SolTerminalAnsiYellow = ''terminalAnsiYellow''"
| "soloist_name SolTerminalAnsiBlue = ''terminalAnsiBlue''"
| "soloist_name SolTerminalAnsiMagenta = ''terminalAnsiMagenta''"
| "soloist_name SolTerminalAnsiCyan = ''terminalAnsiCyan''"
| "soloist_name SolTerminalAnsiWhite = ''terminalAnsiWhite''"
| "soloist_name SolTerminalAnsiBrightBlack = ''terminalAnsiBrightBlack''"
| "soloist_name SolTerminalAnsiBrightRed = ''terminalAnsiBrightRed''"
| "soloist_name SolTerminalAnsiBrightGreen = ''terminalAnsiBrightGreen''"
| "soloist_name SolTerminalAnsiBrightYellow = ''terminalAnsiBrightYellow''"
| "soloist_name SolTerminalAnsiBrightBlue = ''terminalAnsiBrightBlue''"
| "soloist_name SolTerminalAnsiBrightMagenta = ''terminalAnsiBrightMagenta''"
| "soloist_name SolTerminalAnsiBrightCyan = ''terminalAnsiBrightCyan''"
| "soloist_name SolTerminalAnsiBrightWhite = ''terminalAnsiBrightWhite''"
| "soloist_name SolTerminalSearchMatchBackground = ''terminalSearchMatchBackground''"
| "soloist_name SolTerminalSearchMatchBorder = ''terminalSearchMatchBorder''"
| "soloist_name SolTerminalSearchMatchOverviewRuler = ''terminalSearchMatchOverviewRuler''"
| "soloist_name SolTerminalSearchActiveMatchBackground = ''terminalSearchActiveMatchBackground''"
| "soloist_name SolTerminalSearchActiveMatchBorder = ''terminalSearchActiveMatchBorder''"
| "soloist_name SolTerminalSearchActiveMatchOverviewRuler = ''terminalSearchActiveMatchOverviewRuler''"

definition SOLOIST_ROLES :: "SoloistRole list" where
  "SOLOIST_ROLES = map Extension EXTENSION_ROLES @ [SolTerminalSelectionInactive,
     SolTerminalScrollbarActive, SolTerminalOverviewRulerBorder, SolTerminalAnsiBlack,
     SolTerminalAnsiRed, SolTerminalAnsiGreen, SolTerminalAnsiYellow, SolTerminalAnsiBlue,
     SolTerminalAnsiMagenta, SolTerminalAnsiCyan, SolTerminalAnsiWhite,
     SolTerminalAnsiBrightBlack, SolTerminalAnsiBrightRed, SolTerminalAnsiBrightGreen,
     SolTerminalAnsiBrightYellow, SolTerminalAnsiBrightBlue, SolTerminalAnsiBrightMagenta,
     SolTerminalAnsiBrightCyan, SolTerminalAnsiBrightWhite, SolTerminalSearchMatchBackground,
     SolTerminalSearchMatchBorder, SolTerminalSearchMatchOverviewRuler,
     SolTerminalSearchActiveMatchBackground, SolTerminalSearchActiveMatchBorder,
     SolTerminalSearchActiveMatchOverviewRuler]"

definition TERMINAL_ROLES :: "TerminalRole list" where
  "TERMINAL_ROLES = [TermBackground, TermForeground, TermCursor, TermCursorAccent,
     TermSelectionBackground, TermSelectionInactiveBackground, TermScrollbarSliderBackground,
     TermScrollbarSliderHoverBackground, TermScrollbarSliderActiveBackground,
     TermOverviewRulerBorder, TermBlack, TermRed, TermGreen, TermYellow, TermBlue, TermMagenta,
     TermCyan, TermWhite, TermBrightBlack, TermBrightRed, TermBrightGreen, TermBrightYellow,
     TermBrightBlue, TermBrightMagenta, TermBrightCyan, TermBrightWhite,
     TermSearchMatchBackground, TermSearchMatchBorder, TermSearchMatchOverviewRuler,
     TermSearchActiveMatchBackground, TermSearchActiveMatchBorder,
     TermSearchActiveMatchOverviewRuler]"

lemma all_color_roles [simp]: "r \<in> set THEME_COLOR_ROLES"
  by (cases r) (simp_all add: THEME_COLOR_ROLES_def)

lemma all_extension_roles [simp]: "r \<in> set EXTENSION_ROLES"
  by (cases r) (simp_all add: EXTENSION_ROLES_def)

lemma all_soloist_roles [simp]: "r \<in> set SOLOIST_ROLES"
  by (cases r) (simp_all add: SOLOIST_ROLES_def)

lemma all_terminal_roles [simp]: "r \<in> set TERMINAL_ROLES"
  by (cases r) (simp_all add: TERMINAL_ROLES_def)

lemma all_appearances [simp]: "a \<in> set THEME_APPEARANCES"
  by (cases a) (simp_all add: THEME_APPEARANCES_def)

subsection \<open>The other tabs\<close>

record ToolDefaults =
  tld_default_editor :: "jstring option"
  tld_default_terminal :: "jstring option"

record Integrations =
  itg_mcp_enabled :: bool
  itg_http_api_enabled :: bool

datatype McpFeatureGroup =
  McpScratchpads | McpDiagrams | McpTodos | McpTimers | McpKeyValue | McpPromptTemplates | McpGit

record McpSetupInfo =
  mcp_helper_path :: jstring
  mcp_data_dir :: jstring
  mcp_data_dir_overridden :: bool

record ProcessSpec =
  psp_command :: jstring
  psp_working_dir :: "jstring option option"
  psp_auto_start :: "bool option"
  psp_auto_restart :: "bool option"
  psp_restart_when_changed :: "jstring list option"
  psp_env :: "(jstring, jstring) jsmap option"

end
