(* ===== verification/ThemeDerive.thy ===== *)
theory ThemeDerive
  imports Contrast SettingsDomain
begin

section \<open>Deriving a theme\<close>

text \<open>
  The recipes of \<open>theme/derive.ts\<close>: the palette an appearance of a theme uses, the palette derived from a
  background and an accent, the application-specific colours derived from a palette, and the terminal
  theme. The catalog of built-in themes is data (\<open>themes/builtins/catalog.json\<close>) and a parameter here. The
  lemmas show that every recipe answers a colour for every role, which of them keep a minimum contrast, and
  that an explicit colour always wins over the derived one.
\<close>

subsection \<open>The catalog\<close>

definition theme_definition :: "ThemeSource \<Rightarrow> ThemeFile \<Rightarrow> ThemeDefinition" where
  "theme_definition source theme = ThemeFile.extend theme (ThemeDefinition.fields source)"

definition theme_file :: "ThemeDefinition \<Rightarrow> ThemeFile" where
  "theme_file = ThemeFile.truncate"

definition DEFAULT_THEME_ID :: jstring where "DEFAULT_THEME_ID = lit ''soloist-default''"

definition BUILT_IN_THEMES :: "ThemeFile list \<Rightarrow> ThemeDefinition list" where
  "BUILT_IN_THEMES catalog = map (theme_definition BuiltIn) catalog"

definition themeDefinitions :: "ThemeFile list \<Rightarrow> ThemeFile list \<Rightarrow> ThemeDefinition list" where
  "themeDefinitions catalog customThemes = BUILT_IN_THEMES catalog @ map (theme_definition Custom) customThemes"

subsection \<open>The palette of an appearance\<close>

definition variant :: "ThemeVariants \<Rightarrow> ThemeAppearance \<Rightarrow> ThemeColors option" where
  "variant v appearance = (case appearance of AppLight \<Rightarrow> tva_light v | AppDark \<Rightarrow> tva_dark v)"

definition themeColorsForAppearance :: "('a ThemeFile_scheme) \<Rightarrow> ThemeAppearance \<Rightarrow> ThemeColors option" where
  "themeColorsForAppearance theme appearance =
     (if tf_appearance theme = appearance then Some (tf_colors theme)
      else case tf_variants theme of None \<Rightarrow> None | Some v \<Rightarrow> variant v appearance)"

definition themeSupportsAppearance :: "('a ThemeFile_scheme) \<Rightarrow> ThemeAppearance \<Rightarrow> bool" where
  "themeSupportsAppearance theme appearance \<longleftrightarrow> themeColorsForAppearance theme appearance \<noteq> None"

definition themeExtensionsForAppearance ::
    "('a ThemeFile_scheme) \<Rightarrow> ThemeAppearance \<Rightarrow> SoloistThemeExtensions option" where
  "themeExtensionsForAppearance theme appearance =
     (let declared = (if tf_appearance theme = appearance then tf_extensions theme
        else case Option.bind (Option.bind (tf_variants theme) tva_extensions) (\<lambda>e. e appearance) of
            Some own \<Rightarrow> Some own
          | None \<Rightarrow> tf_extensions theme)
      in Option.bind declared tfe_soloist)"

definition defaultColors :: "ThemeFile list \<Rightarrow> ThemeAppearance \<Rightarrow> ThemeColors option" where
  "defaultColors catalog appearance =
     (case find (\<lambda>theme. tf_id theme = DEFAULT_THEME_ID) (BUILT_IN_THEMES catalog) of
        None \<Rightarrow> None
      | Some theme \<Rightarrow> themeColorsForAppearance theme appearance)"

subsection \<open>A palette from a background and an accent\<close>

definition by_appearance :: "ThemeAppearance \<Rightarrow> 'a \<Rightarrow> 'a \<Rightarrow> 'a" where
  "by_appearance appearance dark light = (if appearance = AppDark then dark else light)"

definition deriveThemeColors ::
    "ThemeFile list \<Rightarrow> ThemeAppearance \<Rightarrow> jstring \<Rightarrow> jstring \<Rightarrow> ThemeColors option" where
  "deriveThemeColors catalog appearance background accent =
     do { base \<leftarrow> defaultColors catalog appearance;
          ink \<leftarrow> readableForeground background (base RoleText) (base RoleCanvas);
          raised \<leftarrow> mixHex background ink (by_appearance appearance 0.055 0.025);
          control \<leftarrow> mixHex background ink (by_appearance appearance 0.1 0.055);
          hover \<leftarrow> mixHex background ink (by_appearance appearance 0.15 0.09);
          border \<leftarrow> mixHex background ink (by_appearance appearance 0.18 0.13);
          mutedText \<leftarrow> mixHex ink background 0.42;
          accentSurface \<leftarrow> mixHex background accent (by_appearance appearance 0.18 0.12);
          onAccent \<leftarrow> readableForeground accent (base RoleText) (base RoleCanvas);
          actionHover \<leftarrow> mixHex hover accent 0.15;
          recess \<leftarrow> mixHex background ink (by_appearance appearance 0.025 0.015);
          selected \<leftarrow> mixHex background accent (by_appearance appearance 0.35 0.22);
          scrollbar \<leftarrow> withAlpha ink 0.22;
          scrollbarHover \<leftarrow> withAlpha ink 0.38;
          Some (base(RoleCanvas := background, RoleChrome := background, RoleToolbar := raised,
            RoleToolbarForeground := ink, RoleToolbarBorder := border, RoleToolbarControl := control,
            RoleToolbarControlForeground := ink, RoleToolbarControlHover := hover,
            RoleSurface := background, RoleSurfaceRaised := raised, RoleSurfaceOverlay := raised,
            RoleText := ink, RoleTextMuted := mutedText, RoleBorder := border, RoleInput := border,
            RoleFocus := accent, RoleAccent := accent, RoleAccentForeground := onAccent,
            RoleSecondary := control, RoleSecondaryForeground := ink, RoleMuted := raised,
            RoleMutedForeground := mutedText, RolePlaceholder := mutedText,
            RoleSecondaryLabel := mutedText, RoleIconMuted := mutedText,
            RoleAccentSurface := accentSurface, RoleAccentSurfaceForeground := ink,
            RoleMessageSurface := control, RoleMessageForeground := ink, RoleMessageAction := hover,
            RoleMessageActionForeground := ink, RoleMessageActionHover := actionHover,
            RoleCodeBackground := recess, RoleCodeForeground := ink, RoleSidebar := raised,
            RoleSidebarForeground := ink, RoleSidebarMutedForeground := mutedText,
            RoleSidebarControlSurface := control, RoleSidebarRowHover := control,
            RoleSidebarRowActive := accentSurface, RoleSidebarRowSelected := accentSurface,
            RoleSidebarBorder := border, RoleTerminalBackground := recess,
            RoleTerminalForeground := ink, RoleTerminalCursor := accent,
            RoleTerminalSelection := selected, RoleTerminalScrollbar := scrollbar,
            RoleTerminalScrollbarHover := scrollbarHover)) }"

subsection \<open>Hues\<close>

text \<open>The remainder \<open>%\<close> of the source takes the sign of the dividend.\<close>

definition js_rem :: "rat \<Rightarrow> rat \<Rightarrow> rat" where
  "js_rem x y = x - y * of_int (if 0 \<le> x / y then \<lfloor>x / y\<rfloor> else \<lceil>x / y\<rceil>)"

definition hueFrom :: "jstring \<Rightarrow> rat \<Rightarrow> rat \<Rightarrow> jstring option" where
  "hueFrom reference hue lightnessShift =
     do { (r0, g0, b0) \<leftarrow> channels reference;
          let red = of_int r0 / 255;
          let green = of_int g0 / 255;
          let blue = of_int b0 / 255;
          let maximum = max red (max green blue);
          let minimum = min red (min green blue);
          let lightness = (maximum + minimum) / 2;
          let delta = maximum - minimum;
          let saturation = (if delta = 0 then 0 else delta / (1 - \<bar>2 * lightness - 1\<bar>));
          let chroma = (1 - \<bar>2 * (lightness + lightnessShift) - 1\<bar>) * max 0.45 saturation;
          let segment = js_rem (js_rem hue 360 + 360) 360 / 60;
          let secondary = chroma * (1 - \<bar>js_rem segment 2 - 1\<bar>);
          let (r, g, b) =
            (if segment < 1 then (chroma, secondary, 0)
             else if segment < 2 then (secondary, chroma, 0)
             else if segment < 3 then (0, chroma, secondary)
             else if segment < 4 then (0, secondary, chroma)
             else if segment < 5 then (secondary, 0, chroma)
             else (chroma, 0, secondary));
          let adjustedLightness = max 0.18 (min 0.82 (lightness + lightnessShift));
          let match = adjustedLightness - chroma / 2;
          Some (hex ((r + match) * 255) ((g + match) * 255) ((b + match) * 255)) }"

subsection \<open>The application-specific colours\<close>

definition rail_backgrounds :: "ThemeColors \<Rightarrow> jstring list" where
  "rail_backgrounds colors =
     [colors RoleSidebar, colors RoleSidebarRowHover, colors RoleSidebarRowActive, colors RoleSidebarRowSelected]"

definition rail_color :: "ThemeColors \<Rightarrow> real \<Rightarrow> jstring \<Rightarrow> jstring option" where
  "rail_color colors minimum color =
     ensureThemeContrast color (rail_backgrounds colors) minimum (colors RoleSidebarForeground)"

text \<open>The colours before the explicit ones are laid over: \<open>derived\<close> of \<open>deriveThemeExtensions\<close>.\<close>

definition derived_extensions :: "ThemeColors \<Rightarrow> ThemeAppearance \<Rightarrow> ThemeExtensions option" where
  "derived_extensions colors appearance =
     do { running \<leftarrow> hueFrom (colors RoleAccent) 145 (by_appearance appearance 0.04 (- 0.05));
          statusRunning \<leftarrow> rail_color colors 3 running;
          exhausted \<leftarrow> mixHex (colors RoleError) (colors RoleCodeBackground) 0.14;
          statusExhausted \<leftarrow> rail_color colors 3 exhausted;
          statusStopped \<leftarrow> rail_color colors 3 (colors RoleTextMuted);
          statusAttention \<leftarrow> rail_color colors 3 (colors RoleWarning);
          localHue \<leftarrow> hueFrom (colors RoleAccent) 300 0;
          gitBranchLocal \<leftarrow> rail_color colors 4.5 localHue;
          amber \<leftarrow> rail_color colors 3 (colors RoleWarning);
          azure \<leftarrow> rail_color colors 3 (colors RoleAccent);
          blueMix \<leftarrow> mixHex (colors RoleAccent) (colors RoleUpdate) 0.25;
          blue \<leftarrow> rail_color colors 3 blueMix;
          cyan \<leftarrow> rail_color colors 3 (colors RoleUpdate);
          green \<leftarrow> rail_color colors 3 statusRunning;
          orangeMix \<leftarrow> mixHex (colors RoleWarning) (colors RoleError) 0.35;
          orange \<leftarrow> rail_color colors 3 orangeMix;
          pinkHue \<leftarrow> hueFrom (colors RoleAccent) 335 0;
          pink \<leftarrow> rail_color colors 3 pinkHue;
          red \<leftarrow> rail_color colors 3 (colors RoleError);
          violetHue \<leftarrow> hueFrom (colors RoleAccent) 285 (by_appearance appearance 0.12 (- 0.04));
          violet \<leftarrow> rail_color colors 3 violetHue;
          statusTransition \<leftarrow> rail_color colors 3 (colors RoleWarning);
          statusCrashed \<leftarrow> rail_color colors 3 (colors RoleError);
          gitModified \<leftarrow> rail_color colors 4.5 (colors RoleWarning);
          gitAdded \<leftarrow> rail_color colors 4.5 statusRunning;
          gitDeleted \<leftarrow> rail_color colors 4.5 (colors RoleError);
          gitConflicted \<leftarrow> rail_color colors 4.5 statusExhausted;
          gitIgnored \<leftarrow> rail_color colors 4.5 (colors RoleTextMuted);
          gitBranchSynced \<leftarrow> rail_color colors 4.5 statusRunning;
          overlayScrim \<leftarrow> withAlpha (colors RoleCodeBackground) (by_appearance appearance 0.62 0.45);
          shadowInk \<leftarrow> withAlpha (by_appearance appearance (colors RoleCodeBackground) (colors RoleCodeForeground))
            (by_appearance appearance 0.5 0.2);
          Some (\<lambda>role. case role of
              ExtStatusRunning \<Rightarrow> statusRunning
            | ExtStatusStopped \<Rightarrow> statusStopped
            | ExtStatusExhausted \<Rightarrow> statusExhausted
            | ExtStatusAttention \<Rightarrow> statusAttention
            | ExtGitBranchLocal \<Rightarrow> gitBranchLocal
            | ExtFileLanguageAmber \<Rightarrow> amber
            | ExtFileLanguageAzure \<Rightarrow> azure
            | ExtFileLanguageBlue \<Rightarrow> blue
            | ExtFileLanguageCyan \<Rightarrow> cyan
            | ExtFileLanguageGreen \<Rightarrow> green
            | ExtFileLanguageOrange \<Rightarrow> orange
            | ExtFileLanguagePink \<Rightarrow> pink
            | ExtFileLanguageRed \<Rightarrow> red
            | ExtFileLanguageViolet \<Rightarrow> violet
            | ExtStatusTransition \<Rightarrow> statusTransition
            | ExtStatusCrashed \<Rightarrow> statusCrashed
            | ExtGitModified \<Rightarrow> gitModified
            | ExtGitAdded \<Rightarrow> gitAdded
            | ExtGitDeleted \<Rightarrow> gitDeleted
            | ExtGitConflicted \<Rightarrow> gitConflicted
            | ExtGitIgnored \<Rightarrow> gitIgnored
            | ExtGitBranchSynced \<Rightarrow> gitBranchSynced
            | ExtOverlayScrim \<Rightarrow> overlayScrim
            | ExtShadowInk \<Rightarrow> shadowInk) }"

text \<open>\<open>if (override) derived[key] = override\<close>: an empty string is no override.\<close>

definition override_with :: "jstring option \<Rightarrow> jstring \<Rightarrow> jstring" where
  "override_with override derived = (case override of Some (c # cs) \<Rightarrow> c # cs | _ \<Rightarrow> derived)"

definition deriveThemeExtensions ::
    "ThemeColors \<Rightarrow> ThemeAppearance \<Rightarrow> SoloistThemeExtensions \<Rightarrow> ThemeExtensions option" where
  "deriveThemeExtensions colors appearance explicit =
     do { derived \<leftarrow> derived_extensions colors appearance;
          Some (\<lambda>key. override_with (explicit (Extension key)) (derived key)) }"

subsection \<open>The terminal\<close>

definition terminal_override :: "TerminalRole \<Rightarrow> SoloistRole option" where
  "terminal_override role = (case role of
     TermSelectionInactiveBackground \<Rightarrow> Some SolTerminalSelectionInactive
   | TermScrollbarSliderActiveBackground \<Rightarrow> Some SolTerminalScrollbarActive
   | TermOverviewRulerBorder \<Rightarrow> Some SolTerminalOverviewRulerBorder
   | TermBlack \<Rightarrow> Some SolTerminalAnsiBlack
   | TermRed \<Rightarrow> Some SolTerminalAnsiRed
   | TermGreen \<Rightarrow> Some SolTerminalAnsiGreen
   | TermYellow \<Rightarrow> Some SolTerminalAnsiYellow
   | TermBlue \<Rightarrow> Some SolTerminalAnsiBlue
   | TermMagenta \<Rightarrow> Some SolTerminalAnsiMagenta
   | TermCyan \<Rightarrow> Some SolTerminalAnsiCyan
   | TermWhite \<Rightarrow> Some SolTerminalAnsiWhite
   | TermBrightBlack \<Rightarrow> Some SolTerminalAnsiBrightBlack
   | TermBrightRed \<Rightarrow> Some SolTerminalAnsiBrightRed
   | TermBrightGreen \<Rightarrow> Some SolTerminalAnsiBrightGreen
   | TermBrightYellow \<Rightarrow> Some SolTerminalAnsiBrightYellow
   | TermBrightBlue \<Rightarrow> Some SolTerminalAnsiBrightBlue
   | TermBrightMagenta \<Rightarrow> Some SolTerminalAnsiBrightMagenta
   | TermBrightCyan \<Rightarrow> Some SolTerminalAnsiBrightCyan
   | TermBrightWhite \<Rightarrow> Some SolTerminalAnsiBrightWhite
   | TermSearchMatchBackground \<Rightarrow> Some SolTerminalSearchMatchBackground
   | TermSearchMatchBorder \<Rightarrow> Some SolTerminalSearchMatchBorder
   | TermSearchMatchOverviewRuler \<Rightarrow> Some SolTerminalSearchMatchOverviewRuler
   | TermSearchActiveMatchBackground \<Rightarrow> Some SolTerminalSearchActiveMatchBackground
   | TermSearchActiveMatchBorder \<Rightarrow> Some SolTerminalSearchActiveMatchBorder
   | TermSearchActiveMatchOverviewRuler \<Rightarrow> Some SolTerminalSearchActiveMatchOverviewRuler
   | _ \<Rightarrow> None)"

definition derived_terminal ::
    "ThemeColors \<Rightarrow> ThemeAppearance \<Rightarrow> ThemeExtensions \<Rightarrow> AppliedTerminalTheme option" where
  "derived_terminal colors appearance extensions =
     do { let background = colors RoleTerminalBackground;
          let foreground = colors RoleTerminalForeground;
          let emphasize = (\<lambda>color. mixHex color foreground (by_appearance appearance 0.32 0.16));
          selectionInactive \<leftarrow> mixHex background foreground (by_appearance appearance 0.18 0.12);
          scrollbarActive \<leftarrow> withAlpha foreground 0.5;
          ruler \<leftarrow> mixHex background foreground 0.1;
          black \<leftarrow> mixHex background foreground (by_appearance appearance 0.12 0.86);
          white \<leftarrow> mixHex background foreground (by_appearance appearance 0.84 0.18);
          brightBlack \<leftarrow> mixHex background foreground (by_appearance appearance 0.6 0.65);
          brightRed \<leftarrow> emphasize (colors RoleError);
          brightGreen \<leftarrow> emphasize (extensions ExtStatusRunning);
          brightYellow \<leftarrow> emphasize (colors RoleWarning);
          brightBlue \<leftarrow> emphasize (colors RoleAccent);
          brightMagenta \<leftarrow> emphasize (extensions ExtFileLanguageViolet);
          brightCyan \<leftarrow> emphasize (colors RoleUpdate);
          brightWhite \<leftarrow> by_appearance appearance (Some foreground) (mixHex background foreground 0.01);
          matchBackground \<leftarrow> mixHex background foreground (by_appearance appearance 0.16 0.15);
          matchBorder \<leftarrow> mixHex background foreground (by_appearance appearance 0.58 0.62);
          matchRuler \<leftarrow> mixHex background foreground 0.45;
          activeBackground \<leftarrow> mixHex background (colors RoleAccent) (by_appearance appearance 0.55 0.3);
          activeRuler \<leftarrow> emphasize (colors RoleFocus);
          Some (\<lambda>role. case role of
              TermBackground \<Rightarrow> background
            | TermForeground \<Rightarrow> foreground
            | TermCursor \<Rightarrow> colors RoleTerminalCursor
            | TermCursorAccent \<Rightarrow> background
            | TermSelectionBackground \<Rightarrow> colors RoleTerminalSelection
            | TermSelectionInactiveBackground \<Rightarrow> selectionInactive
            | TermScrollbarSliderBackground \<Rightarrow> colors RoleTerminalScrollbar
            | TermScrollbarSliderHoverBackground \<Rightarrow> colors RoleTerminalScrollbarHover
            | TermScrollbarSliderActiveBackground \<Rightarrow> scrollbarActive
            | TermOverviewRulerBorder \<Rightarrow> ruler
            | TermBlack \<Rightarrow> black
            | TermRed \<Rightarrow> colors RoleError
            | TermGreen \<Rightarrow> extensions ExtStatusRunning
            | TermYellow \<Rightarrow> colors RoleWarning
            | TermBlue \<Rightarrow> colors RoleAccent
            | TermMagenta \<Rightarrow> extensions ExtFileLanguageViolet
            | TermCyan \<Rightarrow> colors RoleUpdate
            | TermWhite \<Rightarrow> white
            | TermBrightBlack \<Rightarrow> brightBlack
            | TermBrightRed \<Rightarrow> brightRed
            | TermBrightGreen \<Rightarrow> brightGreen
            | TermBrightYellow \<Rightarrow> brightYellow
            | TermBrightBlue \<Rightarrow> brightBlue
            | TermBrightMagenta \<Rightarrow> brightMagenta
            | TermBrightCyan \<Rightarrow> brightCyan
            | TermBrightWhite \<Rightarrow> brightWhite
            | TermSearchMatchBackground \<Rightarrow> matchBackground
            | TermSearchMatchBorder \<Rightarrow> matchBorder
            | TermSearchMatchOverviewRuler \<Rightarrow> matchRuler
            | TermSearchActiveMatchBackground \<Rightarrow> activeBackground
            | TermSearchActiveMatchBorder \<Rightarrow> foreground
            | TermSearchActiveMatchOverviewRuler \<Rightarrow> activeRuler) }"

definition deriveTerminalTheme ::
    "ThemeColors \<Rightarrow> ThemeAppearance \<Rightarrow> ThemeExtensions \<Rightarrow> SoloistThemeExtensions \<Rightarrow> AppliedTerminalTheme option" where
  "deriveTerminalTheme colors appearance extensions explicit =
     do { derived \<leftarrow> derived_terminal colors appearance extensions;
          Some (\<lambda>target. override_with (Option.bind (terminal_override target) explicit) (derived target)) }"

subsection \<open>What a recipe answers\<close>

text \<open>
  \<open>returns m P\<close>: the computation does not throw, and what it answers satisfies \<open>P\<close>; a block of
  \<open>const\<close> bindings is walked by the rule for one binding.
\<close>

definition returns :: "'a option \<Rightarrow> ('a \<Rightarrow> bool) \<Rightarrow> bool" where
  "returns m P \<longleftrightarrow> (\<exists>x. m = Some x \<and> P x)"

lemma returns_bind: "returns m P \<Longrightarrow> (\<And>x. P x \<Longrightarrow> returns (f x) Q) \<Longrightarrow> returns (m \<bind> f) Q"
  by (auto simp: returns_def)

lemma returns_some [simp]: "returns (Some x) P \<longleftrightarrow> P x"
  by (simp add: returns_def)

lemma returns_weaken: "returns m P \<Longrightarrow> (\<And>x. P x \<Longrightarrow> Q x) \<Longrightarrow> returns m Q"
  by (auto simp: returns_def)

abbreviation palette :: "('r \<Rightarrow> jstring) \<Rightarrow> bool" where
  "palette colors \<equiv> \<forall>role. HEX_COLOR (colors role)"

lemma returns_mix: "HEX_COLOR a \<Longrightarrow> HEX_COLOR b \<Longrightarrow> returns (mixHex a b w) HEX_COLOR"
  using mixHex_color by (auto simp: returns_def)

lemma returns_alpha: "HEX_COLOR a \<Longrightarrow> returns (withAlpha a w) HEX_COLOR"
  using withAlpha_color by (fastforce simp: returns_def)

lemma returns_readable:
  assumes "HEX_COLOR a" "HEX_COLOR b" "HEX_COLOR c"
  shows "returns (readableForeground a b c) HEX_COLOR"
proof -
  obtain ink where "readableForeground a b c = Some ink" "HEX_COLOR ink" by (rule readable_color [OF assms])
  then show ?thesis by simp
qed

subsection \<open>The hue of a colour\<close>

lemma js_rem_range:
  assumes "0 \<le> x" "0 < y"
  shows "0 \<le> js_rem x y" "js_rem x y < y"
proof -
  have "0 \<le> x / y" using assms by simp
  then have eq: "js_rem x y = y * (x / y - of_int \<lfloor>x / y\<rfloor>)"
    using assms(2) by (simp add: js_rem_def field_simps)
  have "0 \<le> x / y - of_int \<lfloor>x / y\<rfloor>" "x / y - of_int \<lfloor>x / y\<rfloor> < 1" by linarith+
  then show "0 \<le> js_rem x y" "js_rem x y < y"
    unfolding eq using assms(2) by simp_all
qed

text \<open>A hue lies within half its chroma of the clamped lightness, so no channel leaves its byte.\<close>

lemma saturation_range:
  fixes M m :: rat
  assumes "0 \<le> m" "m \<le> M" "M \<le> 1"
  defines "l \<equiv> (M + m) / 2"
  shows "0 \<le> (if M - m = 0 then 0 else (M - m) / (1 - \<bar>2 * l - 1\<bar>))"
    and "(if M - m = 0 then 0 else (M - m) / (1 - \<bar>2 * l - 1\<bar>)) \<le> 1"
proof -
  have twice: "2 * l = M + m" by (simp add: l_def)
  have "M - m \<le> 1 - \<bar>2 * l - 1\<bar>" unfolding twice using assms(1-3) by (auto simp: abs_if)
  moreover have "0 < 1 - \<bar>2 * l - 1\<bar>" if "M - m \<noteq> 0"
    unfolding twice using that assms(1-3) by (auto simp: abs_if)
  ultimately show "0 \<le> (if M - m = 0 then 0 else (M - m) / (1 - \<bar>2 * l - 1\<bar>))"
    and "(if M - m = 0 then 0 else (M - m) / (1 - \<bar>2 * l - 1\<bar>)) \<le> 1"
    using assms(2) by (auto simp: divide_le_eq)
qed

lemma chroma_bound:
  fixes l t s :: rat
  assumes "0 \<le> l" "l \<le> 1" "\<bar>s\<bar> \<le> 0.18" "0 \<le> t" "t \<le> 1"
  defines "k \<equiv> 1 - \<bar>2 * (l + s) - 1\<bar>" and "adj \<equiv> max 0.18 (min 0.82 (l + s))"
  shows "\<bar>k * t\<bar> / 2 \<le> adj" and "adj + \<bar>k * t\<bar> / 2 \<le> 1"
proof -
  have "\<bar>k * t\<bar> \<le> \<bar>k\<bar>" using assms(4,5) by (simp add: abs_mult mult_left_le)
  moreover have "\<bar>k\<bar> / 2 \<le> adj" "adj + \<bar>k\<bar> / 2 \<le> 1"
    using assms(1-3) by (auto simp: k_def adj_def abs_if max_def min_def field_simps split: if_splits)
  ultimately show "\<bar>k * t\<bar> / 2 \<le> adj" and "adj + \<bar>k * t\<bar> / 2 \<le> 1" by simp_all
qed

lemma offset_byte:
  fixes c v adj :: rat
  assumes "\<bar>v - c / 2\<bar> \<le> \<bar>c\<bar> / 2" "\<bar>c\<bar> / 2 \<le> adj" "adj + \<bar>c\<bar> / 2 \<le> 1"
  shows "byte (js_round ((v + (adj - c / 2)) * 255))"
  using assms by (intro js_round_byte) (auto simp: abs_if split: if_splits)

lemma between_chroma:
  fixes c w :: rat
  assumes "0 \<le> w" "w \<le> 1"
  shows "\<bar>c * w - c / 2\<bar> \<le> \<bar>c\<bar> / 2"
proof -
  have "\<bar>c * w - c / 2\<bar> = \<bar>c\<bar> * \<bar>w - 1 / 2\<bar>" by (simp add: abs_mult [symmetric] algebra_simps)
  also have "\<dots> \<le> \<bar>c\<bar> * (1 / 2)" using assms by (intro mult_left_mono) (auto simp: abs_if)
  finally show ?thesis by simp
qed

lemma returns_hue:
  assumes "HEX_COLOR reference" "\<bar>shift\<bar> \<le> 0.18"
  shows "returns (hueFrom reference hue shift) HEX_COLOR"
proof -
  from channels_of_color [OF assms(1)] obtain r g b
    where c: "channels reference = Some (r, g, b)" "byte r" "byte g" "byte b" by (auto simp: split_paired_all)
  define red green blue where ch: "red = (of_int r / 255 :: rat)" "green = (of_int g / 255 :: rat)" "blue = (of_int b / 255 :: rat)"
  define M m where Mm: "M = max red (max green blue)" "m = min red (min green blue)"
  define l where "l = (M + m) / 2"
  define sat where "sat = (if M - m = 0 then 0 else (M - m) / (1 - \<bar>2 * l - 1\<bar>))"
  define chroma where "chroma = (1 - \<bar>2 * (l + shift) - 1\<bar>) * max 0.45 sat"
  define segment where "segment = js_rem (js_rem hue 360 + 360) 360 / 60"
  define w where "w = 1 - \<bar>js_rem segment 2 - 1\<bar>"
  define adj where "adj = max 0.18 (min 0.82 (l + shift))"
  have unit: "0 \<le> red" "red \<le> 1" "0 \<le> green" "green \<le> 1" "0 \<le> blue" "blue \<le> 1"
    using c by (simp_all add: ch byte_def)
  then have Mm': "0 \<le> m" "m \<le> M" "M \<le> 1" by (auto simp: Mm)
  then have l: "0 \<le> l" "l \<le> 1" by (simp_all add: l_def)
  have t: "0 \<le> max 0.45 sat" "max 0.45 sat \<le> 1"
    using saturation_range [OF Mm', folded l_def, folded sat_def] by auto
  note bound = chroma_bound [OF l assms(2) t, folded chroma_def adj_def]
  have "0 \<le> js_rem hue 360 + 360"
  proof (cases "0 \<le> hue")
    case True
    then show ?thesis using js_rem_range(1) [of hue 360] by simp
  next
    case False
    then have "hue / 360 \<le> of_int \<lceil>hue / 360\<rceil>" "of_int \<lceil>hue / 360\<rceil> < hue / 360 + 1" by linarith+
    then show ?thesis using False by (auto simp: js_rem_def)
  qed
  then have "0 \<le> segment" using js_rem_range(1) [of "js_rem hue 360 + 360" 360] by (simp add: segment_def)
  then have "0 \<le> w" "w \<le> 1" using js_rem_range [of segment 2] by (auto simp: w_def abs_if)
  then have secondary: "\<bar>chroma * w - chroma / 2\<bar> \<le> \<bar>chroma\<bar> / 2" by (rule between_chroma)
  have ends: "\<bar>chroma - chroma / 2\<bar> \<le> \<bar>chroma\<bar> / 2" "\<bar>0 - chroma / 2\<bar> \<le> \<bar>chroma\<bar> / 2"
    by (auto simp: abs_if)
  have "\<bar>v - chroma / 2\<bar> \<le> \<bar>chroma\<bar> / 2" if "v \<in> {chroma, chroma * w, 0}" for v
    using that by (elim insertE emptyE) (simp_all only: secondary ends)
  note ok = offset_byte [OF this bound]
  obtain x y z where result: "hueFrom reference hue shift
      = Some (hex ((x + (adj - chroma / 2)) * 255) ((y + (adj - chroma / 2)) * 255) ((z + (adj - chroma / 2)) * 255))"
    and "{x, y, z} \<subseteq> {chroma, chroma * w, 0}" (is "_ \<subseteq> ?values")
  proof (rule that)
    let ?p = "if segment < 1 then (chroma, chroma * w, 0) else if segment < 2 then (chroma * w, chroma, 0)
      else if segment < 3 then (0, chroma, chroma * w) else if segment < 4 then (0, chroma * w, chroma)
      else if segment < 5 then (chroma * w, 0, chroma) else (chroma, 0, chroma * w)"
    show "hueFrom reference hue shift = Some (hex ((fst ?p + (adj - chroma / 2)) * 255)
        ((fst (snd ?p) + (adj - chroma / 2)) * 255) ((snd (snd ?p) + (adj - chroma / 2)) * 255))"
      unfolding hueFrom_def Let_def c Option.bind.simps prod.case
      unfolding ch [symmetric] Mm [symmetric] l_def [symmetric] sat_def [symmetric] chroma_def [symmetric]
        segment_def [symmetric] w_def [symmetric] adj_def [symmetric]
      by (simp add: split_beta)
    show "{fst ?p, fst (snd ?p), snd (snd ?p)} \<subseteq> {chroma, chroma * w, 0}" by simp
  qed
  then have "x \<in> ?values" "y \<in> ?values" "z \<in> ?values" by simp_all
  note bytes = ok [OF this(1)] ok [OF this(2)] ok [OF this(3)]
  show ?thesis unfolding result returns_some by (rule channels_hex(2) [OF bytes])
qed


lemma returns_rail:
  assumes "palette colors" "HEX_COLOR color"
  shows "returns (rail_color colors minimum color) (\<lambda>c. HEX_COLOR c
    \<and> (meets (colors RoleSidebarForeground) (rail_backgrounds colors) minimum \<longrightarrow> meets c (rail_backgrounds colors) minimum))"
proof -
  have rail: "list_all HEX_COLOR (rail_backgrounds colors)" using assms(1) by (simp add: rail_backgrounds_def)
  have fg: "HEX_COLOR (colors RoleSidebarForeground)" using assms(1) by blast
  obtain c where "ensureThemeContrast color (rail_backgrounds colors) minimum (colors RoleSidebarForeground) = Some c"
    "HEX_COLOR c"
    "meets (colors RoleSidebarForeground) (rail_backgrounds colors) minimum \<longrightarrow> meets c (rail_backgrounds colors) minimum"
    by (rule ensure_contrast_color [OF assms(2) fg rail])
  then show ?thesis by (simp add: rail_color_def)
qed

subsection \<open>The recipes are total\<close>

definition catalog_ok :: "ThemeFile list \<Rightarrow> bool" where
  "catalog_ok catalog \<longleftrightarrow> (\<forall>appearance. case defaultColors catalog appearance of
     None \<Rightarrow> False | Some colors \<Rightarrow> palette colors)"

lemma catalog_default: "catalog_ok catalog \<Longrightarrow> returns (defaultColors catalog appearance) palette"
  by (auto simp: catalog_ok_def returns_def split: option.splits dest: spec [of _ appearance])

lemma palette_upd: "palette c \<Longrightarrow> HEX_COLOR v \<Longrightarrow> palette (c(r := v))"
  by simp

lemma derived_palette:
  assumes "catalog_ok catalog" "HEX_COLOR background" "HEX_COLOR accent"
  shows "returns (deriveThemeColors catalog appearance background accent) palette"
  unfolding deriveThemeColors_def
  apply (rule returns_bind, rule catalog_default [OF assms(1)])
  apply (rule returns_bind, (rule returns_readable returns_mix returns_alpha; simp add: assms))+
  apply (simp only: returns_some)
  apply (intro palette_upd; simp add: assms)
  done

text \<open>The contrast each application-specific colour is pulled up to on the sidebar's four surfaces.\<close>

definition rail_minimum :: "ExtensionRole \<Rightarrow> real option" where
  "rail_minimum role =
     (if role \<in> {ExtOverlayScrim, ExtShadowInk} then None
      else if role \<in> {ExtGitModified, ExtGitAdded, ExtGitDeleted, ExtGitConflicted, ExtGitIgnored,
        ExtGitBranchSynced, ExtGitBranchLocal} then Some 4.5
      else Some 3)"

definition reads_on_rail :: "ThemeColors \<Rightarrow> ThemeExtensions \<Rightarrow> ExtensionRole \<Rightarrow> bool" where
  "reads_on_rail colors extensions role \<longleftrightarrow> (case rail_minimum role of None \<Rightarrow> True
     | Some m \<Rightarrow> meets (colors RoleSidebarForeground) (rail_backgrounds colors) m
         \<longrightarrow> meets (extensions role) (rail_backgrounds colors) m)"

lemma derived_extension_colors:
  assumes "palette colors"
  shows "returns (derived_extensions colors appearance)
    (\<lambda>e. \<forall>role. HEX_COLOR (e role) \<and> reads_on_rail colors e role)"
  unfolding derived_extensions_def by_appearance_def
  apply (rule returns_bind, (rule returns_rail [OF assms] returns_mix returns_alpha returns_hue; simp add: assms))+
  apply (simp only: returns_some)
  apply (rule allI)
  subgoal for _ _ _ _ _ _ _ _ _ _ _ _ _ _ _ _ _ _ _ _ _ _ _ _ _ _ _ _ _ _ _ role
    by (cases role) (simp_all add: reads_on_rail_def rail_minimum_def)
  done

lemma override_color: "HEX_COLOR v \<Longrightarrow> (\<And>c. override = Some c \<Longrightarrow> c \<noteq> [] \<Longrightarrow> HEX_COLOR c) \<Longrightarrow> HEX_COLOR (override_with override v)"
  by (auto simp: override_with_def split: option.splits list.splits)

lemma theme_extension_colors:
  assumes "palette colors" "\<And>role c. explicit role = Some c \<Longrightarrow> c \<noteq> [] \<Longrightarrow> HEX_COLOR c"
  shows "returns (deriveThemeExtensions colors appearance explicit) (\<lambda>e. \<forall>role. HEX_COLOR (e role)
    \<and> e role = override_with (explicit (Extension role)) (e role)
    \<and> (explicit (Extension role) \<in> {None, Some []} \<longrightarrow> reads_on_rail colors e role))"
  unfolding deriveThemeExtensions_def
  apply (rule returns_bind, rule derived_extension_colors [OF assms(1)])
  apply (simp add: override_color assms(2))
  apply (auto simp: override_with_def reads_on_rail_def split: option.splits list.splits)
  done

lemma derived_terminal_colors:
  assumes "palette colors" "palette extensions"
  shows "returns (derived_terminal colors appearance extensions) palette"
  unfolding derived_terminal_def by_appearance_def Let_def
  apply (rule returns_bind, (rule returns_mix returns_alpha; simp add: assms)
    | rule returns_bind [where P = HEX_COLOR], (cases appearance; simp add: assms returns_mix; fail))+
  apply (simp only: returns_some)
  apply (rule allI)
  subgoal for _ _ _ _ _ _ _ _ _ _ _ _ _ _ _ _ _ _ role
    by (cases role) (simp_all add: assms)
  done

lemma terminal_theme_colors:
  assumes "palette colors" "palette extensions" "\<And>role c. explicit role = Some c \<Longrightarrow> c \<noteq> [] \<Longrightarrow> HEX_COLOR c"
  shows "returns (deriveTerminalTheme colors appearance extensions explicit) palette"
  unfolding deriveTerminalTheme_def
  apply (rule returns_bind, rule derived_terminal_colors [OF assms(1,2)])
  apply (auto intro!: override_color intro: assms(3) simp: bind_eq_Some_conv)
  done

end
