(* ===== verification/Themes.thy ===== *)
theory Themes
  imports ThemeDerive
begin

section \<open>Roles, contrast warnings and the text of a theme\<close>

text \<open>
  \<open>theme/roles.ts\<close> (the editor's groups of palette roles), \<open>theme/accessibility.ts\<close> (the pairs of roles
  that must read on each other), \<open>theme/constraints.ts\<close> and \<open>theme/io.ts\<close>. The lemmas show that every
  role is in exactly one group, and that the warnings of a set of themes are empty exactly when every
  palette the set publishes clears every pair.
\<close>

subsection \<open>The editor's groups\<close>

datatype ThemeColorGroup = GroupMain | GroupStatus | GroupOther

record ThemeColorRoleMeta =
  rm_label :: jstring
  rm_group :: ThemeColorGroup

definition role_meta :: "string \<Rightarrow> ThemeColorGroup \<Rightarrow> ThemeColorRoleMeta" where
  "role_meta label g = \<lparr>rm_label = lit label, rm_group = g\<rparr>"

primrec THEME_COLOR_ROLE_META :: "ThemeColorRole \<Rightarrow> ThemeColorRoleMeta" where
  "THEME_COLOR_ROLE_META RoleCanvas = role_meta ''Canvas'' GroupMain"
| "THEME_COLOR_ROLE_META RoleChrome = role_meta ''Chrome'' GroupMain"
| "THEME_COLOR_ROLE_META RoleToolbar = role_meta ''Toolbar'' GroupMain"
| "THEME_COLOR_ROLE_META RoleToolbarForeground = role_meta ''Toolbar text'' GroupMain"
| "THEME_COLOR_ROLE_META RoleToolbarBorder = role_meta ''Toolbar border'' GroupMain"
| "THEME_COLOR_ROLE_META RoleToolbarControl = role_meta ''Toolbar control'' GroupMain"
| "THEME_COLOR_ROLE_META RoleToolbarControlForeground = role_meta ''Toolbar control text'' GroupMain"
| "THEME_COLOR_ROLE_META RoleToolbarControlHover = role_meta ''Toolbar control hover'' GroupMain"
| "THEME_COLOR_ROLE_META RoleSurface = role_meta ''Surface'' GroupMain"
| "THEME_COLOR_ROLE_META RoleSurfaceRaised = role_meta ''Raised surface'' GroupMain"
| "THEME_COLOR_ROLE_META RoleSurfaceOverlay = role_meta ''Overlay surface'' GroupMain"
| "THEME_COLOR_ROLE_META RoleText = role_meta ''Text'' GroupMain"
| "THEME_COLOR_ROLE_META RoleTextMuted = role_meta ''Muted text'' GroupMain"
| "THEME_COLOR_ROLE_META RoleBorder = role_meta ''Border'' GroupMain"
| "THEME_COLOR_ROLE_META RoleInput = role_meta ''Input'' GroupMain"
| "THEME_COLOR_ROLE_META RoleFocus = role_meta ''Focus'' GroupMain"
| "THEME_COLOR_ROLE_META RoleAccent = role_meta ''Accent'' GroupMain"
| "THEME_COLOR_ROLE_META RoleAccentForeground = role_meta ''Accent text'' GroupMain"
| "THEME_COLOR_ROLE_META RoleSecondary = role_meta ''Secondary'' GroupMain"
| "THEME_COLOR_ROLE_META RoleSecondaryForeground = role_meta ''Secondary text'' GroupMain"
| "THEME_COLOR_ROLE_META RoleMuted = role_meta ''Muted'' GroupMain"
| "THEME_COLOR_ROLE_META RoleMutedForeground = role_meta ''Muted foreground'' GroupMain"
| "THEME_COLOR_ROLE_META RolePlaceholder = role_meta ''Placeholder'' GroupOther"
| "THEME_COLOR_ROLE_META RoleSecondaryLabel = role_meta ''Secondary label'' GroupOther"
| "THEME_COLOR_ROLE_META RoleIconMuted = role_meta ''Muted icon'' GroupOther"
| "THEME_COLOR_ROLE_META RoleError = role_meta ''Error'' GroupStatus"
| "THEME_COLOR_ROLE_META RoleErrorForeground = role_meta ''Error text'' GroupStatus"
| "THEME_COLOR_ROLE_META RoleErrorSurface = role_meta ''Error surface'' GroupStatus"
| "THEME_COLOR_ROLE_META RoleWarning = role_meta ''Warning'' GroupStatus"
| "THEME_COLOR_ROLE_META RoleWarningForeground = role_meta ''Warning text'' GroupStatus"
| "THEME_COLOR_ROLE_META RoleWarningSurface = role_meta ''Warning surface'' GroupStatus"
| "THEME_COLOR_ROLE_META RoleUpdate = role_meta ''Update'' GroupStatus"
| "THEME_COLOR_ROLE_META RoleUpdateForeground = role_meta ''Update text'' GroupStatus"
| "THEME_COLOR_ROLE_META RoleUpdateSurface = role_meta ''Update surface'' GroupStatus"
| "THEME_COLOR_ROLE_META RoleAccentSurface = role_meta ''Accent surface'' GroupMain"
| "THEME_COLOR_ROLE_META RoleAccentSurfaceForeground = role_meta ''Accent surface text'' GroupMain"
| "THEME_COLOR_ROLE_META RoleMessageSurface = role_meta ''Message surface'' GroupOther"
| "THEME_COLOR_ROLE_META RoleMessageForeground = role_meta ''Message text'' GroupOther"
| "THEME_COLOR_ROLE_META RoleMessageAction = role_meta ''Message action'' GroupOther"
| "THEME_COLOR_ROLE_META RoleMessageActionForeground = role_meta ''Message action text'' GroupOther"
| "THEME_COLOR_ROLE_META RoleMessageActionHover = role_meta ''Message action hover'' GroupOther"
| "THEME_COLOR_ROLE_META RoleCodeBackground = role_meta ''Code background'' GroupOther"
| "THEME_COLOR_ROLE_META RoleCodeForeground = role_meta ''Code text'' GroupOther"
| "THEME_COLOR_ROLE_META RoleSidebar = role_meta ''Sidebar'' GroupMain"
| "THEME_COLOR_ROLE_META RoleSidebarForeground = role_meta ''Sidebar text'' GroupMain"
| "THEME_COLOR_ROLE_META RoleSidebarMutedForeground = role_meta ''Sidebar muted text'' GroupMain"
| "THEME_COLOR_ROLE_META RoleSidebarControlSurface = role_meta ''Sidebar control'' GroupMain"
| "THEME_COLOR_ROLE_META RoleSidebarRowHover = role_meta ''Sidebar row hover'' GroupMain"
| "THEME_COLOR_ROLE_META RoleSidebarRowActive = role_meta ''Sidebar row active'' GroupMain"
| "THEME_COLOR_ROLE_META RoleSidebarRowSelected = role_meta ''Sidebar row selected'' GroupMain"
| "THEME_COLOR_ROLE_META RoleSidebarBorder = role_meta ''Sidebar border'' GroupMain"
| "THEME_COLOR_ROLE_META RoleTerminalBackground = role_meta ''Terminal background'' GroupOther"
| "THEME_COLOR_ROLE_META RoleTerminalForeground = role_meta ''Terminal text'' GroupOther"
| "THEME_COLOR_ROLE_META RoleTerminalCursor = role_meta ''Terminal cursor'' GroupOther"
| "THEME_COLOR_ROLE_META RoleTerminalSelection = role_meta ''Terminal selection'' GroupOther"
| "THEME_COLOR_ROLE_META RoleTerminalScrollbar = role_meta ''Terminal scrollbar'' GroupOther"
| "THEME_COLOR_ROLE_META RoleTerminalScrollbarHover = role_meta ''Terminal scrollbar hover'' GroupOther"

definition THEME_COLOR_GROUPS :: "(ThemeColorGroup \<times> ThemeColorRole list) list" where
  "THEME_COLOR_GROUPS = map (\<lambda>name. (name, filter (\<lambda>role. rm_group (THEME_COLOR_ROLE_META role) = name) THEME_COLOR_ROLES))
     [GroupMain, GroupStatus, GroupOther]"

lemma color_roles_distinct: "distinct THEME_COLOR_ROLES"
  by (simp add: THEME_COLOR_ROLES_def)

lemma role_in_group: "(g, roles) \<in> set THEME_COLOR_GROUPS \<Longrightarrow> role \<in> set roles \<longleftrightarrow> rm_group (THEME_COLOR_ROLE_META role) = g"
  by (auto simp: THEME_COLOR_GROUPS_def)

lemma group_listed: "\<exists>roles. (g, roles) \<in> set THEME_COLOR_GROUPS"
  by (cases g) (auto simp: THEME_COLOR_GROUPS_def)

lemma role_has_group: "\<exists>!g. \<exists>roles. (g, roles) \<in> set THEME_COLOR_GROUPS \<and> role \<in> set roles"
  using group_listed role_in_group by metis

subsection \<open>Contrast warnings\<close>

record ContrastPair =
  cp_foreground :: ThemeColorRole
  cp_background :: ThemeColorRole
  cp_label :: jstring
  cp_minimum :: real

record ThemeContrastWarning = ContrastPair +
  cw_ratio :: real

definition pair :: "ThemeColorRole \<Rightarrow> ThemeColorRole \<Rightarrow> string \<Rightarrow> ContrastPair" where
  "pair foreground background label =
     \<lparr>cp_foreground = foreground, cp_background = background, cp_label = lit label, cp_minimum = 4.5\<rparr>"

definition CONTRAST_PAIRS :: "ContrastPair list" where
  "CONTRAST_PAIRS =
     [pair RoleText RoleCanvas ''Body text'',
      pair RoleTextMuted RoleCanvas ''Muted text'',
      pair RoleAccentForeground RoleAccent ''Accent controls'',
      pair RoleCodeForeground RoleCodeBackground ''Code text'',
      pair RoleSidebarForeground RoleSidebar ''Sidebar text'',
      pair RoleErrorForeground RoleErrorSurface ''Error messages'',
      pair RoleWarningForeground RoleWarningSurface ''Warning messages'']"

text \<open>\<open>flatMap\<close> over a list, with a throwing callback.\<close>

fun flat_map_throwing :: "('a \<Rightarrow> 'b list option) \<Rightarrow> 'a list \<Rightarrow> 'b list option" where
  "flat_map_throwing f [] = Some []"
| "flat_map_throwing f (x # xs) = do { ys \<leftarrow> f x; zs \<leftarrow> flat_map_throwing f xs; Some (ys @ zs) }"

definition themeContrastWarnings :: "ThemeColors \<Rightarrow> ThemeContrastWarning list option" where
  "themeContrastWarnings colors = flat_map_throwing (\<lambda>p.
     do { ratio \<leftarrow> contrastRatio (colors (cp_foreground p)) (colors (cp_background p));
          Some (if ratio < cp_minimum p
                then [ContrastPair.extend p (ThemeContrastWarning.fields ratio)]
                else []) }) CONTRAST_PAIRS"

record ThemePaletteContrastWarnings =
  pw_id :: jstring
  pw_appearance :: ThemeAppearance
  pw_warnings :: "ThemeContrastWarning list"

definition paletteContrastWarnings :: "ThemeFile list \<Rightarrow> ThemePaletteContrastWarnings list option" where
  "paletteContrastWarnings themes = flat_map_throwing (\<lambda>theme.
     let published = filter (\<lambda>appearance. themeSupportsAppearance theme appearance) THEME_APPEARANCES
     in flat_map_throwing (\<lambda>appearance. case themeColorsForAppearance theme appearance of
          None \<Rightarrow> Some []
        | Some colors \<Rightarrow> do { warnings \<leftarrow> themeContrastWarnings colors;
            Some (if 0 < length warnings
                  then [\<lparr>pw_id = tf_id theme, pw_appearance = appearance, pw_warnings = warnings\<rparr>] else []) })
        published) themes"

lemma flat_map_views:
  assumes "\<And>x. x \<in> set xs \<Longrightarrow> returns (f x) (\<lambda>ys. map v ys = g x)"
  shows "returns (flat_map_throwing f xs) (\<lambda>ys. map v ys = concat (map g xs))"
  using assms by (induction xs) (auto simp: returns_def, metis bind.bind_lunit map_append)

text \<open>A palette clears a pair when its two colours reach the pair's minimum.\<close>

definition clears :: "ThemeColors \<Rightarrow> ContrastPair \<Rightarrow> bool" where
  "clears colors p \<longleftrightarrow> meets (colors (cp_foreground p)) [colors (cp_background p)] (cp_minimum p)"

definition failing_labels :: "ThemeColors \<Rightarrow> jstring list" where
  "failing_labels colors = concat (map (\<lambda>p. if clears colors p then [] else [cp_label p]) CONTRAST_PAIRS)"

lemma failing_labels_none: "failing_labels colors = [] \<longleftrightarrow> list_all (clears colors) CONTRAST_PAIRS"
  by (auto simp: failing_labels_def list_all_iff)

lemma warnings_of_palette:
  assumes "palette colors"
  shows "returns (themeContrastWarnings colors) (\<lambda>ws. map cp_label ws = failing_labels colors)"
  unfolding themeContrastWarnings_def failing_labels_def
proof (rule flat_map_views)
  fix p :: ContrastPair
  have "HEX_COLOR (colors (cp_foreground p))" "HEX_COLOR (colors (cp_background p))" using assms by auto
  then obtain r where "contrastRatio (colors (cp_foreground p)) (colors (cp_background p)) = Some r"
    by (rule contrast_color)
  then show "returns (do { ratio \<leftarrow> contrastRatio (colors (cp_foreground p)) (colors (cp_background p));
        Some (if ratio < cp_minimum p then [ContrastPair.extend p (ThemeContrastWarning.fields ratio)] else []) })
      (\<lambda>ys. map cp_label ys = (if clears colors p then [] else [cp_label p]))"
    by (simp add: clears_def meets_def ContrastPair.defs)
qed

definition theme_ok :: "('a ThemeFile_scheme) \<Rightarrow> bool" where
  "theme_ok theme \<longleftrightarrow> (\<forall>a. (case themeColorsForAppearance theme a of None \<Rightarrow> True | Some colors \<Rightarrow> palette colors)
     \<and> (case themeExtensionsForAppearance theme a of None \<Rightarrow> True
        | Some explicit \<Rightarrow> \<forall>role. case explicit role of None \<Rightarrow> True | Some c \<Rightarrow> c = [] \<or> HEX_COLOR c))"

lemma theme_okD:
  assumes "theme_ok theme"
  shows "themeColorsForAppearance theme a = Some colors \<Longrightarrow> palette colors"
    and "themeExtensionsForAppearance theme a = Some explicit \<Longrightarrow> explicit role = Some c \<Longrightarrow> c \<noteq> [] \<Longrightarrow> HEX_COLOR c"
proof -
  note at = assms [unfolded theme_ok_def, rule_format, of a]
  show "themeColorsForAppearance theme a = Some colors \<Longrightarrow> palette colors" using at by simp
  assume "themeExtensionsForAppearance theme a = Some explicit" "explicit role = Some c" "c \<noteq> []"
  with at have "\<forall>role. case explicit role of None \<Rightarrow> True | Some c \<Rightarrow> c = [] \<or> HEX_COLOR c" by simp
  from spec [OF this, of role] \<open>explicit role = Some c\<close> \<open>c \<noteq> []\<close> show "HEX_COLOR c" by simp
qed

text \<open>The warnings of a set of themes name exactly the published palettes with a pair they do not clear.\<close>

definition palette_verdict :: "ThemeFile \<Rightarrow> ThemeAppearance \<Rightarrow> (jstring \<times> ThemeAppearance \<times> jstring list) list" where
  "palette_verdict theme a = (case themeColorsForAppearance theme a of None \<Rightarrow> []
     | Some colors \<Rightarrow> if failing_labels colors = [] then [] else [(tf_id theme, a, failing_labels colors)])"

lemma palette_warnings_of:
  assumes "list_all theme_ok themes"
  shows "returns (paletteContrastWarnings themes)
    (\<lambda>ws. map (\<lambda>w. (pw_id w, pw_appearance w, map cp_label (pw_warnings w))) ws
       = concat (map (\<lambda>theme. concat (map (palette_verdict theme) THEME_APPEARANCES)) themes))"
  unfolding paletteContrastWarnings_def Let_def
proof (rule flat_map_views)
  fix theme assume "theme \<in> set themes"
  then have ok: "theme_ok theme" using assms by (simp add: list_all_iff)
  let ?f = "\<lambda>appearance. case themeColorsForAppearance theme appearance of None \<Rightarrow> Some []
    | Some colors \<Rightarrow> do { warnings \<leftarrow> themeContrastWarnings colors;
        Some (if 0 < length warnings
              then [\<lparr>pw_id = tf_id theme, pw_appearance = appearance, pw_warnings = warnings\<rparr>] else []) }"
  let ?v = "\<lambda>w. (pw_id w, pw_appearance w, map cp_label (pw_warnings w))"
  have "returns (?f a) (\<lambda>ys. map ?v ys = palette_verdict theme a)" for a
  proof (cases "themeColorsForAppearance theme a")
    case (Some colors)
    from warnings_of_palette [OF theme_okD(1) [OF ok Some]]
    obtain ws where "themeContrastWarnings colors = Some ws" "map cp_label ws = failing_labels colors"
      by (auto simp: returns_def)
    then show ?thesis by (auto simp: Some palette_verdict_def)
  qed (simp add: palette_verdict_def)
  from flat_map_views [OF this, where xs = "filter (\<lambda>a. themeSupportsAppearance theme a) THEME_APPEARANCES"]
  show "returns (flat_map_throwing ?f (filter (\<lambda>a. themeSupportsAppearance theme a) THEME_APPEARANCES))
      (\<lambda>ys. map ?v ys = concat (map (palette_verdict theme) THEME_APPEARANCES))"
    by (rule returns_weaken)
      (simp add: THEME_APPEARANCES_def themeSupportsAppearance_def palette_verdict_def split: if_splits option.splits)
qed

subsection \<open>Constraints and error text\<close>

definition GLASS_OPACITY_MIN :: int where "GLASS_OPACITY_MIN = 40"
definition GLASS_OPACITY_MAX :: int where "GLASS_OPACITY_MAX = 100"
definition GLASS_OPACITY_STEP :: int where "GLASS_OPACITY_STEP = 5"
definition GLASS_OPACITY_DEFAULT :: int where "GLASS_OPACITY_DEFAULT = 80"

definition THEME_DRAFT_ID :: jstring where "THEME_DRAFT_ID = lit ''__soloist-theme-draft__''"

text \<open>What a failed command was rejected with: an \<open>Error\<close>, a bare string, or any other value.\<close>

datatype Cause = CauseError jstring | CauseString jstring | CauseOther

definition themeErrorMessage :: "Cause \<Rightarrow> jstring \<Rightarrow> jstring" where
  "themeErrorMessage cause fallback = (case cause of
     CauseError message \<Rightarrow> message
   | CauseString s \<Rightarrow> if 0 < length (js_trim s) then s else fallback
   | CauseOther \<Rightarrow> fallback)"

end
