(* ===== verification/ThemeRuntime.thy ===== *)
theory ThemeRuntime
  imports Themes "HOL-Library.Word"
begin

unbundle bit_operations_syntax

section \<open>Applying a theme\<close>

text \<open>
  \<open>theme/runtime.ts\<close>: the theme resolved from the Appearance document and the operating system's preference, the CSS
  variables it becomes, the write of those variables on the document root, and the hint the next launch
  paints from. \<open>JSON.stringify\<close> and \<open>JSON.parse\<close> are parameters, since the text of a palette depends on
  the order its keys were inserted in. The lemmas show that resolving cannot throw, that the root ends up
  carrying the theme last applied, that an unchanged theme touches nothing, and that the last palette of a
  burst is the one stored.
\<close>

subsection \<open>Resolving\<close>

fun show_base36 :: "nat \<Rightarrow> jstring" where
  "show_base36 n = (let d = (if n mod 36 < 10 then 48 + n mod 36 else 87 + n mod 36)
     in if n < 36 then [d] else show_base36 (n div 36) @ [d])"

declare show_base36.simps [simp del]

definition signature_hash :: "jstring \<Rightarrow> 32 word" where
  "signature_hash source = foldl (\<lambda>hash unit. (hash XOR word_of_nat unit) * 16777619) 2166136261 source"

fun appearance_text :: "ThemeAppearance \<Rightarrow> jstring" where
  "appearance_text AppLight = lit ''light''"
| "appearance_text AppDark = lit ''dark''"

text \<open>The parameter \<open>stringify\<close> is \<open>JSON.stringify\<close> of the array of all fields but the name and the signature.\<close>

definition themeSignature :: "(AppliedTheme \<Rightarrow> jstring) \<Rightarrow> AppliedTheme \<Rightarrow> jstring" where
  "themeSignature stringify theme =
     at_id theme @ [58] @ appearance_text (at_appearance theme) @ [58]
       @ show_base36 (unat (signature_hash (stringify theme)))"

definition signed :: "(AppliedTheme \<Rightarrow> jstring) \<Rightarrow> AppliedTheme \<Rightarrow> AppliedTheme" where
  "signed stringify resolved = resolved\<lparr>at_signature := themeSignature stringify resolved\<rparr>"

text \<open>The outer \<open>None\<close> is an exception, the inner one the \<open>null\<close> of a theme without the appearance.\<close>

definition appliedThemeFromFile :: "(AppliedTheme \<Rightarrow> jstring) \<Rightarrow> ('a ThemeFile_scheme) \<Rightarrow> ThemeAppearance \<Rightarrow> int
    \<Rightarrow> AppliedTheme option option" where
  "appliedThemeFromFile stringify theme appearance glassOpacity =
     (case themeColorsForAppearance theme appearance of
        None \<Rightarrow> Some None
      | Some colors \<Rightarrow>
          let explicit = (case themeExtensionsForAppearance theme appearance of Some e \<Rightarrow> e | None \<Rightarrow> (\<lambda>_. None))
          in do { extensions \<leftarrow> deriveThemeExtensions colors appearance explicit;
                  terminal \<leftarrow> deriveTerminalTheme colors appearance extensions explicit;
                  Some (Some (signed stringify \<lparr>at_id = tf_id theme, at_name = tf_name theme, at_appearance = appearance,
                    at_colors = colors, at_extensions = extensions, at_terminal = terminal,
                    at_glassOpacity = glassOpacity, at_signature = []\<rparr>)) })"

definition resolvedAppearance :: "Theme \<Rightarrow> bool \<Rightarrow> ThemeAppearance" where
  "resolvedAppearance theme systemDark = (case theme of
     ThemeSystem \<Rightarrow> (if systemDark then AppDark else AppLight) | ThemeLight \<Rightarrow> AppLight | ThemeDark \<Rightarrow> AppDark)"

definition selected_for :: "ThemeSelection \<Rightarrow> ThemeAppearance \<Rightarrow> jstring" where
  "selected_for selection appearance = (case appearance of AppLight \<Rightarrow> tsel_light selection | AppDark \<Rightarrow> tsel_dark selection)"

definition resolveAppliedTheme :: "ThemeFile list \<Rightarrow> (AppliedTheme \<Rightarrow> jstring) \<Rightarrow> Appearance
    \<Rightarrow> ThemeDefinition list \<Rightarrow> bool \<Rightarrow> AppliedTheme option" where
  "resolveAppliedTheme catalog stringify appearance themes systemDark =
     (let resolved = resolvedAppearance (ap_theme appearance) systemDark;
          selectedId = selected_for (ap_selected_themes appearance) resolved;
          selected = find (\<lambda>t. tf_id t = selectedId) themes;
          fallback = (case find (\<lambda>t. tf_id t = DEFAULT_THEME_ID) themes of
            Some t \<Rightarrow> Some t
          | None \<Rightarrow> find (\<lambda>t. tf_id t = DEFAULT_THEME_ID) (BUILT_IN_THEMES catalog));
          apply_one = (\<lambda>t. case t of None \<Rightarrow> Some None
            | Some theme \<Rightarrow> appliedThemeFromFile stringify theme resolved (ap_glass_opacity appearance))
      in do { first \<leftarrow> apply_one selected;
              case first of Some applied \<Rightarrow> Some applied
              | None \<Rightarrow> do { second \<leftarrow> apply_one fallback; second } })"

definition default_terminal_appearance :: TerminalAppearance where
  "default_terminal_appearance = \<lparr>ta_focus_on_click = True, ta_copy_on_select = False, ta_font_family = None,
     ta_font_weight = W400, ta_bold_font_weight = W600, ta_font_scale = ScaleMedium, ta_line_height = LineDefault,
     ta_letter_spacing = SpacingDefault, ta_cursor_style = CursorBlock, ta_cursor_inactive_style = InactiveOutline,
     ta_cursor_blink = True\<rparr>"

definition defaultAppliedTheme :: "ThemeFile list \<Rightarrow> (AppliedTheme \<Rightarrow> jstring) \<Rightarrow> bool \<Rightarrow> AppliedTheme option" where
  "defaultAppliedTheme catalog stringify dark =
     resolveAppliedTheme catalog stringify
       \<lparr>ap_theme = (if dark then ThemeDark else ThemeLight), ap_interface_font_scale = ScaleMedium,
        ap_terminal = default_terminal_appearance,
        ap_selected_themes = \<lparr>tsel_light = DEFAULT_THEME_ID, tsel_dark = DEFAULT_THEME_ID\<rparr>,
        ap_custom_themes = [], ap_glass_opacity = GLASS_OPACITY_DEFAULT\<rparr>
       (BUILT_IN_THEMES catalog) dark"

subsection \<open>The CSS variables\<close>

primrec THEME_ROLE_CSS_VARIABLE :: "ThemeColorRole \<Rightarrow> jstring" where
  "THEME_ROLE_CSS_VARIABLE RoleCanvas = lit ''--theme-canvas''"
| "THEME_ROLE_CSS_VARIABLE RoleChrome = lit ''--theme-chrome''"
| "THEME_ROLE_CSS_VARIABLE RoleToolbar = lit ''--theme-toolbar''"
| "THEME_ROLE_CSS_VARIABLE RoleToolbarForeground = lit ''--theme-toolbar-foreground''"
| "THEME_ROLE_CSS_VARIABLE RoleToolbarBorder = lit ''--theme-toolbar-border''"
| "THEME_ROLE_CSS_VARIABLE RoleToolbarControl = lit ''--theme-toolbar-control''"
| "THEME_ROLE_CSS_VARIABLE RoleToolbarControlForeground = lit ''--theme-toolbar-control-foreground''"
| "THEME_ROLE_CSS_VARIABLE RoleToolbarControlHover = lit ''--theme-toolbar-control-hover''"
| "THEME_ROLE_CSS_VARIABLE RoleSurface = lit ''--theme-surface''"
| "THEME_ROLE_CSS_VARIABLE RoleSurfaceRaised = lit ''--theme-surface-raised''"
| "THEME_ROLE_CSS_VARIABLE RoleSurfaceOverlay = lit ''--theme-surface-overlay''"
| "THEME_ROLE_CSS_VARIABLE RoleText = lit ''--theme-text''"
| "THEME_ROLE_CSS_VARIABLE RoleTextMuted = lit ''--theme-text-muted''"
| "THEME_ROLE_CSS_VARIABLE RoleBorder = lit ''--theme-border''"
| "THEME_ROLE_CSS_VARIABLE RoleInput = lit ''--theme-input''"
| "THEME_ROLE_CSS_VARIABLE RoleFocus = lit ''--theme-focus''"
| "THEME_ROLE_CSS_VARIABLE RoleAccent = lit ''--theme-accent''"
| "THEME_ROLE_CSS_VARIABLE RoleAccentForeground = lit ''--theme-accent-foreground''"
| "THEME_ROLE_CSS_VARIABLE RoleSecondary = lit ''--theme-secondary''"
| "THEME_ROLE_CSS_VARIABLE RoleSecondaryForeground = lit ''--theme-secondary-foreground''"
| "THEME_ROLE_CSS_VARIABLE RoleMuted = lit ''--theme-muted''"
| "THEME_ROLE_CSS_VARIABLE RoleMutedForeground = lit ''--theme-muted-foreground''"
| "THEME_ROLE_CSS_VARIABLE RolePlaceholder = lit ''--theme-placeholder''"
| "THEME_ROLE_CSS_VARIABLE RoleSecondaryLabel = lit ''--theme-secondary-label''"
| "THEME_ROLE_CSS_VARIABLE RoleIconMuted = lit ''--theme-icon-muted''"
| "THEME_ROLE_CSS_VARIABLE RoleError = lit ''--theme-error''"
| "THEME_ROLE_CSS_VARIABLE RoleErrorForeground = lit ''--theme-error-foreground''"
| "THEME_ROLE_CSS_VARIABLE RoleErrorSurface = lit ''--theme-error-surface''"
| "THEME_ROLE_CSS_VARIABLE RoleWarning = lit ''--theme-warning''"
| "THEME_ROLE_CSS_VARIABLE RoleWarningForeground = lit ''--theme-warning-foreground''"
| "THEME_ROLE_CSS_VARIABLE RoleWarningSurface = lit ''--theme-warning-surface''"
| "THEME_ROLE_CSS_VARIABLE RoleUpdate = lit ''--theme-update''"
| "THEME_ROLE_CSS_VARIABLE RoleUpdateForeground = lit ''--theme-update-foreground''"
| "THEME_ROLE_CSS_VARIABLE RoleUpdateSurface = lit ''--theme-update-surface''"
| "THEME_ROLE_CSS_VARIABLE RoleAccentSurface = lit ''--theme-accent-surface''"
| "THEME_ROLE_CSS_VARIABLE RoleAccentSurfaceForeground = lit ''--theme-accent-surface-foreground''"
| "THEME_ROLE_CSS_VARIABLE RoleMessageSurface = lit ''--theme-message-surface''"
| "THEME_ROLE_CSS_VARIABLE RoleMessageForeground = lit ''--theme-message-foreground''"
| "THEME_ROLE_CSS_VARIABLE RoleMessageAction = lit ''--theme-message-action''"
| "THEME_ROLE_CSS_VARIABLE RoleMessageActionForeground = lit ''--theme-message-action-foreground''"
| "THEME_ROLE_CSS_VARIABLE RoleMessageActionHover = lit ''--theme-message-action-hover''"
| "THEME_ROLE_CSS_VARIABLE RoleCodeBackground = lit ''--theme-code-background''"
| "THEME_ROLE_CSS_VARIABLE RoleCodeForeground = lit ''--theme-code-foreground''"
| "THEME_ROLE_CSS_VARIABLE RoleSidebar = lit ''--theme-sidebar''"
| "THEME_ROLE_CSS_VARIABLE RoleSidebarForeground = lit ''--theme-sidebar-foreground''"
| "THEME_ROLE_CSS_VARIABLE RoleSidebarMutedForeground = lit ''--theme-sidebar-muted-foreground''"
| "THEME_ROLE_CSS_VARIABLE RoleSidebarControlSurface = lit ''--theme-sidebar-control-surface''"
| "THEME_ROLE_CSS_VARIABLE RoleSidebarRowHover = lit ''--theme-sidebar-row-hover''"
| "THEME_ROLE_CSS_VARIABLE RoleSidebarRowActive = lit ''--theme-sidebar-row-active''"
| "THEME_ROLE_CSS_VARIABLE RoleSidebarRowSelected = lit ''--theme-sidebar-row-selected''"
| "THEME_ROLE_CSS_VARIABLE RoleSidebarBorder = lit ''--theme-sidebar-border''"
| "THEME_ROLE_CSS_VARIABLE RoleTerminalBackground = lit ''--theme-terminal-background''"
| "THEME_ROLE_CSS_VARIABLE RoleTerminalForeground = lit ''--theme-terminal-foreground''"
| "THEME_ROLE_CSS_VARIABLE RoleTerminalCursor = lit ''--theme-terminal-cursor''"
| "THEME_ROLE_CSS_VARIABLE RoleTerminalSelection = lit ''--theme-terminal-selection''"
| "THEME_ROLE_CSS_VARIABLE RoleTerminalScrollbar = lit ''--theme-terminal-scrollbar''"
| "THEME_ROLE_CSS_VARIABLE RoleTerminalScrollbarHover = lit ''--theme-terminal-scrollbar-hover''"

definition MAX_COLOR_PERCENT :: int where "MAX_COLOR_PERCENT = 100"
definition GLASS_CONTROL_OPACITY_LIFT :: int where "GLASS_CONTROL_OPACITY_LIFT = 6"
definition GLASS_HOVER_OPACITY_LIFT :: int where "GLASS_HOVER_OPACITY_LIFT = 10"
definition GLASS_ACTIVE_OPACITY_LIFT :: int where "GLASS_ACTIVE_OPACITY_LIFT = 14"
definition GLASS_BORDER_INK_MIX :: int where "GLASS_BORDER_INK_MIX = 4"
definition GLASS_HIGHLIGHT_MIX :: "ThemeAppearance \<Rightarrow> int" where
  "GLASS_HIGHLIGHT_MIX a = (case a of AppDark \<Rightarrow> 18 | AppLight \<Rightarrow> 28)"
definition GLASS_VARIABLE_PREFIX :: jstring where "GLASS_VARIABLE_PREFIX = lit ''--glass-''"

text \<open>\<open>String(n / 100)\<close> of a whole number: the shortest decimal of at most two places.\<close>

definition show_hundredths :: "int \<Rightarrow> jstring" where
  "show_hundredths n =
     (let whole = \<bar>n\<bar> div 100; cents = \<bar>n\<bar> mod 100
      in (if n < 0 then [45] else []) @ show_int whole
         @ (if cents = 0 then [] else if cents mod 10 = 0 then 46 # show_int (cents div 10)
            else if cents < 10 then [46, 48] @ show_int cents else 46 # show_int cents))"

text \<open>The object literal \<open>themeCssVariables\<close> assigns, up to the first glass variable and from it on.\<close>

definition plain_variables :: "AppliedTheme \<Rightarrow> (jstring \<times> jstring) list" where
  "plain_variables theme =
     [(lit ''--background'', at_colors theme RoleSurface),
      (lit ''--foreground'', at_colors theme RoleText),
      (lit ''--card'', at_colors theme RoleSurfaceRaised),
      (lit ''--card-foreground'', at_colors theme RoleText),
      (lit ''--popover'', at_colors theme RoleSurfaceOverlay),
      (lit ''--popover-foreground'', at_colors theme RoleText),
      (lit ''--primary'', at_colors theme RoleAccent),
      (lit ''--primary-foreground'', at_colors theme RoleAccentForeground),
      (lit ''--secondary'', at_colors theme RoleSecondary),
      (lit ''--secondary-foreground'', at_colors theme RoleSecondaryForeground),
      (lit ''--muted'', at_colors theme RoleMuted),
      (lit ''--muted-foreground'', at_colors theme RoleMutedForeground),
      (lit ''--accent'', at_colors theme RoleAccentSurface),
      (lit ''--accent-foreground'', at_colors theme RoleAccentSurfaceForeground),
      (lit ''--destructive'', at_colors theme RoleError),
      (lit ''--border'', at_colors theme RoleBorder),
      (lit ''--input'', at_colors theme RoleInput),
      (lit ''--ring'', at_colors theme RoleFocus),
      (lit ''--sidebar'', at_colors theme RoleSidebar),
      (lit ''--sidebar-foreground'', at_colors theme RoleSidebarForeground),
      (lit ''--sidebar-primary'', at_colors theme RoleAccent),
      (lit ''--sidebar-primary-foreground'', at_colors theme RoleAccentForeground),
      (lit ''--sidebar-accent'', at_colors theme RoleSidebarRowHover),
      (lit ''--sidebar-accent-foreground'', at_colors theme RoleSidebarForeground),
      (lit ''--sidebar-border'', at_colors theme RoleSidebarBorder),
      (lit ''--sidebar-ring'', at_colors theme RoleFocus),
      (lit ''--status-running'', at_extensions theme ExtStatusRunning),
      (lit ''--status-transition'', at_extensions theme ExtStatusTransition),
      (lit ''--status-stopped'', at_extensions theme ExtStatusStopped),
      (lit ''--status-crashed'', at_extensions theme ExtStatusCrashed),
      (lit ''--status-exhausted'', at_extensions theme ExtStatusExhausted),
      (lit ''--status-attention'', at_extensions theme ExtStatusAttention),
      (lit ''--git-modified'', at_extensions theme ExtGitModified),
      (lit ''--git-added'', at_extensions theme ExtGitAdded),
      (lit ''--git-deleted'', at_extensions theme ExtGitDeleted),
      (lit ''--git-conflicted'', at_extensions theme ExtGitConflicted),
      (lit ''--git-ignored'', at_extensions theme ExtGitIgnored),
      (lit ''--git-branch-synced'', at_extensions theme ExtGitBranchSynced),
      (lit ''--git-branch-local'', at_extensions theme ExtGitBranchLocal),
      (lit ''--file-language-amber'', at_extensions theme ExtFileLanguageAmber),
      (lit ''--file-language-azure'', at_extensions theme ExtFileLanguageAzure),
      (lit ''--file-language-blue'', at_extensions theme ExtFileLanguageBlue),
      (lit ''--file-language-cyan'', at_extensions theme ExtFileLanguageCyan),
      (lit ''--file-language-green'', at_extensions theme ExtFileLanguageGreen),
      (lit ''--file-language-orange'', at_extensions theme ExtFileLanguageOrange),
      (lit ''--file-language-pink'', at_extensions theme ExtFileLanguagePink),
      (lit ''--file-language-red'', at_extensions theme ExtFileLanguageRed),
      (lit ''--file-language-violet'', at_extensions theme ExtFileLanguageViolet),
      (lit ''--dialog-overlay'', at_extensions theme ExtOverlayScrim),
      (lit ''--shadow-ink'', at_extensions theme ExtShadowInk),
      (lit ''--terminal-background'', at_terminal theme TermBackground),
      (lit ''--terminal-foreground'', at_terminal theme TermForeground)]"

definition glass_variables :: "AppliedTheme \<Rightarrow> (jstring \<times> jstring) list" where
  "glass_variables theme =
     (let controlOpacity = min MAX_COLOR_PERCENT (at_glassOpacity theme + GLASS_CONTROL_OPACITY_LIFT);
          hoverOpacity = min MAX_COLOR_PERCENT (at_glassOpacity theme + GLASS_HOVER_OPACITY_LIFT);
          activeOpacity = min MAX_COLOR_PERCENT (at_glassOpacity theme + GLASS_ACTIVE_OPACITY_LIFT);
          lightEnd = (if at_appearance theme = AppDark then at_colors theme RoleText else at_colors theme RoleCanvas);
          glassHighlight = lit ''color-mix(in srgb, '' @ lightEnd @ lit '' ''
            @ show_int (GLASS_HIGHLIGHT_MIX (at_appearance theme)) @ lit ''%, transparent)''
      in [(lit ''--glass-opacity'', show_hundredths (at_glassOpacity theme)),
        (lit ''--glass-surface'', lit ''color-mix(in srgb, '' @ at_colors theme RoleSurfaceOverlay @ lit '' '' @ show_int (at_glassOpacity theme) @ lit ''%, transparent)''),
        (lit ''--glass-control-surface'', lit ''color-mix(in srgb, '' @ at_colors theme RoleToolbarControl @ lit '' '' @ show_int controlOpacity @ lit ''%, transparent)''),
        (lit ''--glass-control-hover'', lit ''color-mix(in srgb, '' @ at_colors theme RoleToolbarControlHover @ lit '' '' @ show_int hoverOpacity @ lit ''%, transparent)''),
        (lit ''--glass-control-active'', lit ''color-mix(in srgb, '' @ at_colors theme RoleToolbarControlHover @ lit '' '' @ show_int activeOpacity @ lit ''%, transparent)''),
        (lit ''--glass-border'', lit ''color-mix(in srgb, '' @ at_colors theme RoleText @ lit '' '' @ show_int GLASS_BORDER_INK_MIX @ lit ''%, '' @ at_colors theme RoleBorder @ lit '')''),
        (lit ''--glass-highlight'', glassHighlight),
        (lit ''--glass-control-shadow'', lit ''inset 0 1px 0 '' @ glassHighlight @ lit '', 0 1px 3px -1px '' @ at_extensions theme ExtShadowInk),
        (lit ''--glass-floating-shadow'', lit ''inset 0 1px 0 '' @ glassHighlight @ lit '', 0 18px 48px -20px '' @ at_extensions theme ExtShadowInk @ lit '', 0 6px 16px -10px '' @ at_extensions theme ExtShadowInk),
        (lit ''--glass-primary-shadow'', lit ''inset 0 1px 0 '' @ glassHighlight @ lit '', 0 2px 6px -2px '' @ at_extensions theme ExtShadowInk)])"

definition themeCssVariables :: "AppliedTheme \<Rightarrow> (jstring, jstring) jsmap" where
  "themeCssVariables theme = map_from
     (map (\<lambda>role. (THEME_ROLE_CSS_VARIABLE role, at_colors theme role)) THEME_COLOR_ROLES
        @ plain_variables theme @ glass_variables theme)"

subsection \<open>The document root\<close>

text \<open>
  The part of the document root the module writes: the inline custom properties (the empty string where
  none is set), the \<open>dark\<close> class, the three data attributes and the colour scheme. \<open>tr_frozen\<close> holds while the
  stylesheet that suspends transitions is in the document.
\<close>

record ThemeRoot =
  tr_style :: "jstring \<Rightarrow> jstring"
  tr_dark :: bool
  tr_themeId :: "jstring option"
  tr_themeAppearance :: "ThemeAppearance option"
  tr_themeSignature :: "jstring option"
  tr_colorScheme :: "ThemeAppearance option"
  tr_frozen :: bool

datatype RootOp = AppendFreeze | SetProperty jstring jstring | ToggleDark bool | SetThemeId jstring
  | SetThemeAppearance ThemeAppearance | SetThemeSignature jstring | SetColorScheme ThemeAppearance
  | ReadComputedStyle | RemoveFreeze

fun root_op :: "ThemeRoot \<Rightarrow> RootOp \<Rightarrow> ThemeRoot" where
  "root_op r AppendFreeze = r\<lparr>tr_frozen := True\<rparr>"
| "root_op r (SetProperty name v) = r\<lparr>tr_style := (tr_style r)(name := v)\<rparr>"
| "root_op r (ToggleDark on) = r\<lparr>tr_dark := on\<rparr>"
| "root_op r (SetThemeId i) = r\<lparr>tr_themeId := Some i\<rparr>"
| "root_op r (SetThemeAppearance a) = r\<lparr>tr_themeAppearance := Some a\<rparr>"
| "root_op r (SetThemeSignature s) = r\<lparr>tr_themeSignature := Some s\<rparr>"
| "root_op r (SetColorScheme a) = r\<lparr>tr_colorScheme := Some a\<rparr>"
| "root_op r ReadComputedStyle = r"
| "root_op r RemoveFreeze = r\<lparr>tr_frozen := False\<rparr>"

definition changed_variables :: "AppliedTheme \<Rightarrow> ThemeRoot \<Rightarrow> (jstring \<times> jstring) list" where
  "changed_variables theme doc = filter (\<lambda>(name, v). tr_style doc name \<noteq> v) (themeCssVariables theme)"

definition palette_swap :: "AppliedTheme \<Rightarrow> ThemeRoot \<Rightarrow> bool" where
  "palette_swap theme doc \<longleftrightarrow> tr_themeId doc \<noteq> Some (at_id theme)
     \<or> tr_themeAppearance doc \<noteq> Some (at_appearance theme)
     \<or> list_ex (\<lambda>(name, _). \<not> starts_with name GLASS_VARIABLE_PREFIX) (changed_variables theme doc)"

definition apply_ops :: "AppliedTheme \<Rightarrow> ThemeRoot \<Rightarrow> RootOp list" where
  "apply_ops theme doc =
     (if changed_variables theme doc = [] \<and> tr_themeSignature doc = Some (at_signature theme) then []
      else (if palette_swap theme doc then [AppendFreeze] else [])
        @ map (\<lambda>(name, v). SetProperty name v) (changed_variables theme doc)
        @ [ToggleDark (at_appearance theme = AppDark), SetThemeId (at_id theme), SetThemeAppearance (at_appearance theme),
           SetThemeSignature (at_signature theme), SetColorScheme (at_appearance theme)]
        @ (if palette_swap theme doc then [ReadComputedStyle, RemoveFreeze] else []))"

definition applyTheme :: "ThemeRoot \<Rightarrow> AppliedTheme \<Rightarrow> ThemeRoot" where
  "applyTheme doc theme = foldl root_op doc (apply_ops theme doc)"

subsection \<open>The hint of the next launch\<close>

definition APPLIED_THEME_HINT_KEY :: jstring where "APPLIED_THEME_HINT_KEY = lit ''soloist.applied-theme-hint''"
definition APPLIED_THEME_HINT_VERSION :: int where "APPLIED_THEME_HINT_VERSION = 1"
definition APPLIED_THEME_HINT_INTERVAL_MS :: nat where "APPLIED_THEME_HINT_INTERVAL_MS = 250"

text \<open>A parsed JSON value.\<close>

datatype json = JNull | JBool bool | JNum rat | JStr jstring | JArr "json list" | JObj "(jstring \<times> json) list"

fun json_member :: "json \<Rightarrow> string \<Rightarrow> json option" where
  "json_member (JObj members) key = map_of members (lit key)"
| "json_member _ _ = None"

fun json_truthy :: "json option \<Rightarrow> bool" where
  "json_truthy None = False"
| "json_truthy (Some v) = (case v of JNull \<Rightarrow> False | JBool b \<Rightarrow> b | JNum n \<Rightarrow> n \<noteq> 0 | JStr s \<Rightarrow> s \<noteq> [] | _ \<Rightarrow> True)"

fun json_string :: "json option \<Rightarrow> bool" where
  "json_string (Some (JStr _)) = True"
| "json_string _ = False"

primrec terminal_name :: "TerminalRole \<Rightarrow> string" where
  "terminal_name TermBackground = ''background''"
| "terminal_name TermForeground = ''foreground''"
| "terminal_name TermCursor = ''cursor''"
| "terminal_name TermCursorAccent = ''cursorAccent''"
| "terminal_name TermSelectionBackground = ''selectionBackground''"
| "terminal_name TermSelectionInactiveBackground = ''selectionInactiveBackground''"
| "terminal_name TermScrollbarSliderBackground = ''scrollbarSliderBackground''"
| "terminal_name TermScrollbarSliderHoverBackground = ''scrollbarSliderHoverBackground''"
| "terminal_name TermScrollbarSliderActiveBackground = ''scrollbarSliderActiveBackground''"
| "terminal_name TermOverviewRulerBorder = ''overviewRulerBorder''"
| "terminal_name TermBlack = ''black''"
| "terminal_name TermRed = ''red''"
| "terminal_name TermGreen = ''green''"
| "terminal_name TermYellow = ''yellow''"
| "terminal_name TermBlue = ''blue''"
| "terminal_name TermMagenta = ''magenta''"
| "terminal_name TermCyan = ''cyan''"
| "terminal_name TermWhite = ''white''"
| "terminal_name TermBrightBlack = ''brightBlack''"
| "terminal_name TermBrightRed = ''brightRed''"
| "terminal_name TermBrightGreen = ''brightGreen''"
| "terminal_name TermBrightYellow = ''brightYellow''"
| "terminal_name TermBrightBlue = ''brightBlue''"
| "terminal_name TermBrightMagenta = ''brightMagenta''"
| "terminal_name TermBrightCyan = ''brightCyan''"
| "terminal_name TermBrightWhite = ''brightWhite''"
| "terminal_name TermSearchMatchBackground = ''searchMatchBackground''"
| "terminal_name TermSearchMatchBorder = ''searchMatchBorder''"
| "terminal_name TermSearchMatchOverviewRuler = ''searchMatchOverviewRuler''"
| "terminal_name TermSearchActiveMatchBackground = ''searchActiveMatchBackground''"
| "terminal_name TermSearchActiveMatchBorder = ''searchActiveMatchBorder''"
| "terminal_name TermSearchActiveMatchOverviewRuler = ''searchActiveMatchOverviewRuler''"

text \<open>The document \<open>JSON.stringify\<close> is given; the order of its keys is not part of the model.\<close>

definition applied_theme_json :: "AppliedTheme \<Rightarrow> json" where
  "applied_theme_json theme = JObj
     [(lit ''id'', JStr (at_id theme)), (lit ''name'', JStr (at_name theme)),
      (lit ''appearance'', JStr (appearance_text (at_appearance theme))),
      (lit ''colors'', JObj (map (\<lambda>r. (lit (role_name r), JStr (at_colors theme r))) THEME_COLOR_ROLES)),
      (lit ''extensions'', JObj (map (\<lambda>r. (lit (extension_name r), JStr (at_extensions theme r))) EXTENSION_ROLES)),
      (lit ''terminal'', JObj (map (\<lambda>r. (lit (terminal_name r), JStr (at_terminal theme r))) TERMINAL_ROLES)),
      (lit ''glassOpacity'', JNum (of_int (at_glassOpacity theme))), (lit ''signature'', JStr (at_signature theme))]"

definition hint_document :: "AppliedTheme \<Rightarrow> json" where
  "hint_document theme = JObj [(lit ''version'', JNum (of_int APPLIED_THEME_HINT_VERSION)), (lit ''theme'', applied_theme_json theme)]"

definition hint_theme :: "json \<Rightarrow> json option" where
  "hint_theme parsed =
     (if json_member parsed ''version'' \<noteq> Some (JNum (of_int APPLIED_THEME_HINT_VERSION)) \<or> \<not> json_truthy (json_member parsed ''theme'') then None
      else let theme = the (json_member parsed ''theme'') in
        if \<not> json_string (json_member theme ''id'') \<or> \<not> json_string (json_member theme ''name'')
           \<or> json_member theme ''appearance'' \<noteq> Some (JStr (lit ''light'')) \<and> json_member theme ''appearance'' \<noteq> Some (JStr (lit ''dark''))
           \<or> \<not> json_string (json_member theme ''signature'') \<or> \<not> json_truthy (json_member theme ''colors'')
           \<or> \<not> json_truthy (json_member theme ''extensions'') \<or> \<not> json_truthy (json_member theme ''terminal'')
        then None else Some theme)"

text \<open>\<open>stored\<close> is what storage holds under the key, \<open>None\<close> when the read itself throws; a text that does not
parse throws too, and both are caught.\<close>

definition readAppliedThemeHint :: "(jstring \<Rightarrow> json option) \<Rightarrow> jstring option option \<Rightarrow> json option" where
  "readAppliedThemeHint parse stored =
     do { item \<leftarrow> stored;
          parsed \<leftarrow> parse (case item of Some text \<Rightarrow> text | None \<Rightarrow> lit ''null'');
          hint_theme parsed }"

record HintWriter =
  hw_timer :: bool
  hw_pending :: "AppliedTheme option"
  hw_storage :: "AppliedTheme list"

datatype HintEvent = WriteHint AppliedTheme bool | HintTimer bool

text \<open>\<open>hw_storage\<close> lists the values stored, the newest first; a write the storage refuses is caught.\<close>

definition storeAppliedThemeHint :: "bool \<Rightarrow> AppliedTheme \<Rightarrow> HintWriter \<Rightarrow> HintWriter" where
  "storeAppliedThemeHint available theme w = (if available then w\<lparr>hw_storage := theme # hw_storage w\<rparr> else w)"

definition writeAppliedThemeHint :: "bool \<Rightarrow> AppliedTheme \<Rightarrow> HintWriter \<Rightarrow> HintWriter" where
  "writeAppliedThemeHint available theme w =
     (if hw_timer w then w\<lparr>hw_pending := Some theme\<rparr>
      else (storeAppliedThemeHint available theme w)\<lparr>hw_timer := True\<rparr>)"

definition hint_timer :: "bool \<Rightarrow> HintWriter \<Rightarrow> HintWriter" where
  "hint_timer available w =
     (let trailing = hw_pending w;
          w' = w\<lparr>hw_timer := False, hw_pending := None\<rparr>
      in case trailing of None \<Rightarrow> w' | Some theme \<Rightarrow> writeAppliedThemeHint available theme w')"

fun hint_step :: "HintWriter \<Rightarrow> HintEvent \<Rightarrow> HintWriter" where
  "hint_step w (WriteHint theme available) = writeAppliedThemeHint available theme w"
| "hint_step w (HintTimer available) = (if hw_timer w then hint_timer available w else w)"

definition hint_start :: HintWriter where
  "hint_start = \<lparr>hw_timer = False, hw_pending = None, hw_storage = []\<rparr>"

subsection \<open>A signature names its theme\<close>

lemma first_separator:
  "us @ c # xs = vs @ c # ys \<Longrightarrow> c \<notin> set us \<Longrightarrow> c \<notin> set vs \<Longrightarrow> us = vs \<and> xs = ys"
  by (induction us arbitrary: vs) (auto simp: Cons_eq_append_conv append_eq_Cons_conv)

lemma last_separator:
  assumes "xs @ c # ys = xs' @ c # ys'" "c \<notin> set ys" "c \<notin> set ys'"
  shows "xs = xs' \<and> ys = ys'"
proof -
  have "rev ys @ c # rev xs = rev ys' @ c # rev xs'"
    using arg_cong [OF assms(1), of rev] by simp
  from first_separator [OF this] assms(2,3) show ?thesis by simp
qed

lemma base36_unit: "58 \<notin> set (show_base36 n)"
proof (induction n rule: show_base36.induct)
  case (1 n)
  then show ?case by (subst show_base36.simps) (auto simp: Let_def)
qed

lemma appearance_unit: "58 \<notin> set (appearance_text a)"
  by (cases a) (auto simp: lit_def char_unit_def)

lemma appearance_text_inj [simp]: "appearance_text a = appearance_text b \<longleftrightarrow> a = b"
  by (cases a; cases b) simp_all

lemma signature_parts:
  assumes "i @ [58] @ appearance_text a @ [58] @ show_base36 h = j @ [58] @ appearance_text b @ [58] @ show_base36 k"
  shows "i = j \<and> a = b"
proof -
  have "(i @ 58 # appearance_text a) @ 58 # show_base36 h = (j @ 58 # appearance_text b) @ 58 # show_base36 k"
    using assms by simp
  then have "i @ 58 # appearance_text a = j @ 58 # appearance_text b"
    using last_separator [OF _ base36_unit base36_unit] by blast
  from last_separator [OF this appearance_unit appearance_unit] show ?thesis by simp
qed

subsection \<open>The variables of a theme\<close>

fun kebab :: "jstring \<Rightarrow> jstring" where
  "kebab [] = []"
| "kebab (c # cs) = (if 65 \<le> c \<and> c \<le> 90 then 45 # (c + 32) # kebab cs else c # kebab cs)"

lemma css_variable_kebab: "THEME_ROLE_CSS_VARIABLE role = lit ''--theme-'' @ kebab (lit (role_name role))"
  by (cases role; simp only: THEME_ROLE_CSS_VARIABLE.simps role_name.simps; code_simp)

lemma css_variables_distinct: "distinct (map THEME_ROLE_CSS_VARIABLE THEME_COLOR_ROLES)"
  by (simp add: THEME_COLOR_ROLES_def)

lemma other_variable: "starts_with (THEME_ROLE_CSS_VARIABLE role) (lit ''--theme-'')"
  by (simp add: css_variable_kebab starts_with_prefix)

definition theme_pairs :: "AppliedTheme \<Rightarrow> (jstring \<times> jstring) list" where
  "theme_pairs theme = map (\<lambda>role. (THEME_ROLE_CSS_VARIABLE role, at_colors theme role)) THEME_COLOR_ROLES"

lemma theme_pairs_get: "map_of (rev (theme_pairs theme)) (THEME_ROLE_CSS_VARIABLE role) = Some (at_colors theme role)"
proof -
  have d: "distinct (map fst (theme_pairs theme))"
    using css_variables_distinct by (simp add: theme_pairs_def comp_def)
  have "(THEME_ROLE_CSS_VARIABLE role, at_colors theme role) \<in> set (theme_pairs theme)"
    by (auto simp: theme_pairs_def)
  then show ?thesis using d by (simp add: map_of_rev_distinct_keys)
qed

lemma themeCssVariables_pairs:
  "themeCssVariables theme = map_from (theme_pairs theme @ plain_variables theme @ glass_variables theme)"
  by (simp add: themeCssVariables_def theme_pairs_def)

definition plain_name :: "jstring \<Rightarrow> bool" where
  "plain_name n \<longleftrightarrow> \<not> starts_with n GLASS_VARIABLE_PREFIX \<and> \<not> starts_with n (lit ''--theme-'')"

lemma plain_variable_names: "(n, v) \<in> set (plain_variables theme) \<Longrightarrow> plain_name n"
proof -
  have "list_all plain_name (map fst (plain_variables theme))"
    unfolding plain_variables_def list.map fst_conv by code_simp
  then show "(n, v) \<in> set (plain_variables theme) \<Longrightarrow> plain_name n" by (auto simp: list_all_iff)
qed

lemma glass_names:
  "(n, v) \<in> set (glass_variables theme) \<Longrightarrow> starts_with n GLASS_VARIABLE_PREFIX \<and> \<not> starts_with n (lit ''--theme-'')"
proof -
  have "list_all (\<lambda>n. starts_with n GLASS_VARIABLE_PREFIX \<and> \<not> starts_with n (lit ''--theme-'')) (map fst (glass_variables theme))"
    unfolding glass_variables_def Let_def list.map fst_conv by code_simp
  then show "(n, v) \<in> set (glass_variables theme)
      \<Longrightarrow> starts_with n GLASS_VARIABLE_PREFIX \<and> \<not> starts_with n (lit ''--theme-'')" by (auto simp: list_all_iff)
qed

text \<open>Every role's colour is on its own variable, and only the glass variables depend on the opacity.\<close>

lemma role_variable: "map_get (themeCssVariables theme) (THEME_ROLE_CSS_VARIABLE role) = Some (at_colors theme role)"
proof -
  have "THEME_ROLE_CSS_VARIABLE role \<notin> fst ` set (plain_variables theme)"
    "THEME_ROLE_CSS_VARIABLE role \<notin> fst ` set (glass_variables theme)"
    using plain_variable_names [of "THEME_ROLE_CSS_VARIABLE role"] glass_names [of "THEME_ROLE_CSS_VARIABLE role"]
      other_variable [of role] by (auto simp: plain_name_def)
  then have "map_of (rev (plain_variables theme)) (THEME_ROLE_CSS_VARIABLE role) = None"
    "map_of (rev (glass_variables theme)) (THEME_ROLE_CSS_VARIABLE role) = None"
    by (simp_all add: map_of_eq_None_iff)
  then show ?thesis
    by (simp add: themeCssVariables_pairs map_get_from map_add_def theme_pairs_get)
qed

lemma plain_variables_opacity: "plain_variables (theme\<lparr>at_glassOpacity := o1, at_signature := s1\<rparr>) = plain_variables theme"
  by (simp add: plain_variables_def)

lemma opacity_only_glass:
  assumes "\<not> starts_with n GLASS_VARIABLE_PREFIX"
  shows "map_get (themeCssVariables (theme\<lparr>at_glassOpacity := o1, at_signature := s1\<rparr>)) n = map_get (themeCssVariables theme) n"
proof -
  have "map_of (rev (glass_variables t)) n = None" for t
    using glass_names [of n _ t] assms by (auto simp: map_of_eq_None_iff)
  then show ?thesis
    by (simp add: themeCssVariables_pairs map_get_from map_add_def plain_variables_opacity theme_pairs_def)
qed

end
