(* ===== verification/ThemeCatalog.thy ===== *)
theory ThemeCatalog
  imports Themes
begin

section \<open>The built-in themes\<close>

text \<open>
  The catalog \<open>themes/builtins/catalog.json\<close> that \<open>theme/catalog.ts\<close> imports, transcribed: the six themes, each
  palette in the order of the roles. The lemmas show that every colour of it is one, and that Soloist
  Default has a palette for both appearances, which is what keeps the derivations from throwing.
\<close>

definition colors_of :: "string list \<Rightarrow> ThemeColors" where
  "colors_of vs role = lit (the (map_of (zip THEME_COLOR_ROLES vs) role))"

definition soloist_of :: "string list \<Rightarrow> SoloistThemeExtensions" where
  "soloist_of vs role = map_option lit (map_of (zip SOLOIST_ROLES vs) role)"

definition SOLOIST_DEFAULT_COLORS :: "string list" where
  "SOLOIST_DEFAULT_COLORS =
    [''#fbfcfd'', ''#fbfcfd'', ''#fbfcfd'', ''#14171c'', ''#dcdee1'', ''#eef0f3'', ''#14171c'',
      ''#e6e8eb'', ''#fbfcfd'', ''#fbfcfd'', ''#fbfcfd'', ''#14171c'', ''#63686e'', ''#dcdee1'',
      ''#dcdee1'', ''#1777b8'', ''#1777b8'', ''#fafafa'', ''#eef0f3'', ''#14171c'', ''#f4f6f8'',
      ''#63686e'', ''#63686e'', ''#63686e'', ''#63686e'', ''#cc2827'', ''#cc2827'', ''#fbe9e9'',
      ''#b77611'', ''#14171c'', ''#fff4df'', ''#1777b8'', ''#fafafa'', ''#e8f2fa'', ''#eef0f3'',
      ''#14171c'', ''#eef0f3'', ''#14171c'', ''#e2e6ea'', ''#14171c'', ''#d8dee5'', ''#fbfbfd'',
      ''#23262c'', ''#f4f6f8'', ''#14171c'', ''#63686e'', ''#eef0f3'', ''#eef0f3'', ''#e8f2fa'',
      ''#e8f2fa'', ''#dcdee1'', ''#fbfbfd'', ''#23262c'', ''#3b6fd4'', ''#cfdcf5'', ''#23262c38'',
      ''#23262c61'']"

definition SOLOIST_DEFAULT_DARK_COLORS :: "string list" where
  "SOLOIST_DEFAULT_DARK_COLORS =
    [''#0c1015'', ''#0c1015'', ''#14181d'', ''#f0f2f4'', ''#2b3037'', ''#1f2329'', ''#f0f2f4'',
      ''#23282e'', ''#0c1015'', ''#14181d'', ''#14181d'', ''#f0f2f4'', ''#999fa6'', ''#2b3037'',
      ''#30353c'', ''#4299dc'', ''#4299dc'', ''#0f1216'', ''#1f2329'', ''#f0f2f4'', ''#1a1e24'',
      ''#999fa6'', ''#999fa6'', ''#999fa6'', ''#999fa6'', ''#f75d59'', ''#f75d59'', ''#3b2023'',
      ''#eba941'', ''#eba941'', ''#382b19'', ''#4299dc'', ''#0f1216'', ''#182d3e'', ''#23282e'',
      ''#f0f2f4'', ''#1f2329'', ''#f0f2f4'', ''#23282e'', ''#f0f2f4'', ''#30353c'', ''#1b1e25'',
      ''#e6e8ec'', ''#12161b'', ''#f0f2f4'', ''#999fa6'', ''#1f2329'', ''#23282e'', ''#182d3e'',
      ''#182d3e'', ''#2b3037'', ''#1b1e25'', ''#e6e8ec'', ''#8ab4f8'', ''#33405a'', ''#e6e8ec38'',
      ''#e6e8ec61'']"

definition SOLOIST_DEFAULT_SOLOIST :: "string list" where
  "SOLOIST_DEFAULT_SOLOIST =
    [''#1b9247'', ''#b77611'', ''#6e7276'', ''#cc2827'', ''#ac0024'', ''#e19100'', ''#915200'',
      ''#007026'', ''#c0180a'', ''#ae003c'', ''#5f6266'', ''#007026'', ''#7241a0'', ''#b27a00'',
      ''#0071bc'', ''#2f60b2'', ''#007886'', ''#067132'', ''#bb5000'', ''#af3b85'', ''#be2e31'',
      ''#6f47a7'', ''#1b1e2573'', ''#23262c33'', ''#d9dcdf'', ''#23262c80'', ''#e2e4e9'', ''#20242a'',
      ''#be433c'', ''#1e7d3e'', ''#996000'', ''#0c71b2'', ''#a04d9e'', ''#00797f'', ''#c7c9cd'',
      ''#686e74'', ''#af0b15'', ''#00652c'', ''#7b4c00'', ''#005a91'', ''#8f2a8f'', ''#006166'',
      ''#ffffff'', ''#d3d8e0'', ''#667994'', ''#8493a9'', ''#a8c3ef'', ''#2456ad'', ''#2456ad'']"

definition SOLOIST_DEFAULT :: ThemeFile where
  "SOLOIST_DEFAULT = \<lparr>tf_version = 1, tf_id = lit ''soloist-default'', tf_name = lit ''Soloist Default'', tf_appearance = AppLight,
     tf_author = Some (lit ''Soloist''), tf_description = None, tf_colors = colors_of SOLOIST_DEFAULT_COLORS,
     tf_variants = Some \<lparr>tva_light = None, tva_dark = Some (colors_of SOLOIST_DEFAULT_DARK_COLORS),
       tva_extensions = Some (\<lambda>a. case a of AppLight \<Rightarrow> None | AppDark \<Rightarrow> Some \<lparr>tfe_soloist = None\<rparr>)\<rparr>,
     tf_sidebarArtwork = None, tf_managed = None,
     tf_extensions = Some \<lparr>tfe_soloist = Some (soloist_of SOLOIST_DEFAULT_SOLOIST)\<rparr>\<rparr>"

definition POIMANDRES_DARK_THEME_COLORS :: "string list" where
  "POIMANDRES_DARK_THEME_COLORS =
    [''#1b1e28'', ''#1b1e28'', ''#1b1e28'', ''#edeef1'', ''#404145'', ''#32343a'', ''#edeef1'',
      ''#3f4148'', ''#1b1e28'', ''#1b1e28'', ''#1b1e28'', ''#bfc3db'', ''#8c8e94'', ''#3a3e4d'',
      ''#464b5d'', ''#5de4c7'', ''#5de4c7'', ''#1b1e28'', ''#35373b'', ''#edeef1'', ''#2c2d30'',
      ''#a6accd'', ''#8c8e94'', ''#8c8e94'', ''#8c8e94'', ''#d0679d'', ''#ff6467'', ''#3f242d'',
      ''#fffac2'', ''#ffb900'', ''#3f3222'', ''#89ddff'', ''#1b1e28'', ''#253247'', ''#262934'',
      ''#edeef1'', ''#45474c'', ''#edeef1'', ''#303340'', ''#ffffff'', ''#5a3f5e'', ''#13151b'',
      ''#edeef1'', ''#1b1e28'', ''#edeef1'', ''#97999d'', ''#35373d'', ''#262934'', ''#262934'',
      ''#262934'', ''#48494d'', ''#1b1e28'', ''#a6accd'', ''#a6accd'', ''#272c3c'', ''#0d0f14'',
      ''#6c6d72'']"

definition POIMANDRES_DARK_THEME :: ThemeFile where
  "POIMANDRES_DARK_THEME = \<lparr>tf_version = 1, tf_id = lit ''poimandres-dark-theme'', tf_name = lit ''Poimandres dark theme'', tf_appearance = AppDark,
     tf_author = Some (lit ''sbansal1999''), tf_description = None, tf_colors = colors_of POIMANDRES_DARK_THEME_COLORS,
     tf_variants = None,
     tf_sidebarArtwork = None, tf_managed = None,
     tf_extensions = None\<rparr>"

definition CATPPUCCIN_COLORS :: "string list" where
  "CATPPUCCIN_COLORS =
    [''#1e1e2e'', ''#181825'', ''#181825'', ''#cdd6f4'', ''#313244'', ''#313244'', ''#cdd6f4'',
      ''#45475a'', ''#1e1e2e'', ''#242438'', ''#242438'', ''#cdd6f4'', ''#a6adc8'', ''#313244'',
      ''#45475a'', ''#89b4fa'', ''#89b4fa'', ''#11111b'', ''#313244'', ''#cdd6f4'', ''#242438'',
      ''#a6adc8'', ''#7f849c'', ''#a6adc8'', ''#7f849c'', ''#f38ba8'', ''#f38ba8'', ''#452b3a'',
      ''#f9e2af'', ''#f9e2af'', ''#443d35'', ''#89dceb'', ''#11111b'', ''#283b48'', ''#313244'',
      ''#cdd6f4'', ''#313244'', ''#cdd6f4'', ''#45475a'', ''#cdd6f4'', ''#585b70'', ''#11111b'',
      ''#cdd6f4'', ''#181825'', ''#cdd6f4'', ''#a6adc8'', ''#313244'', ''#313244'', ''#36415b'',
      ''#36415b'', ''#313244'', ''#11111b'', ''#cdd6f4'', ''#f5e0dc'', ''#45475a'', ''#6c708666'',
      ''#9399b2aa'']"

definition CATPPUCCIN :: ThemeFile where
  "CATPPUCCIN = \<lparr>tf_version = 1, tf_id = lit ''catppuccin'', tf_name = lit ''Catppuccin Mocha'', tf_appearance = AppDark,
     tf_author = Some (lit ''Catppuccin''), tf_description = None, tf_colors = colors_of CATPPUCCIN_COLORS,
     tf_variants = None,
     tf_sidebarArtwork = None, tf_managed = None,
     tf_extensions = None\<rparr>"

definition DRACULA_COLORS :: "string list" where
  "DRACULA_COLORS =
    [''#282a36'', ''#21222c'', ''#21222c'', ''#f8f8f2'', ''#44475a'', ''#343746'', ''#f8f8f2'',
      ''#44475a'', ''#282a36'', ''#30323f'', ''#30323f'', ''#f8f8f2'', ''#aeb5d1'', ''#44475a'',
      ''#44475a'', ''#bd93f9'', ''#bd93f9'', ''#21222c'', ''#343746'', ''#f8f8f2'', ''#30323f'',
      ''#aeb5d1'', ''#7d87aa'', ''#aeb5d1'', ''#7d87aa'', ''#ff6e6e'', ''#ff6e6e'', ''#442a30'',
      ''#f1fa8c'', ''#f1fa8c'', ''#414336'', ''#8be9fd'', ''#21222c'', ''#29404b'', ''#3a344d'',
      ''#f8f8f2'', ''#343746'', ''#f8f8f2'', ''#44475a'', ''#f8f8f2'', ''#565a72'', ''#21222c'',
      ''#f8f8f2'', ''#21222c'', ''#f8f8f2'', ''#aeb5d1'', ''#343746'', ''#343746'', ''#3a344d'',
      ''#3a344d'', ''#44475a'', ''#21222c'', ''#f8f8f2'', ''#f8f8f2'', ''#44475a'', ''#6272a466'',
      ''#aeb5d1aa'']"

definition DRACULA :: ThemeFile where
  "DRACULA = \<lparr>tf_version = 1, tf_id = lit ''dracula'', tf_name = lit ''Dracula'', tf_appearance = AppDark,
     tf_author = Some (lit ''Dracula Theme''), tf_description = None, tf_colors = colors_of DRACULA_COLORS,
     tf_variants = None,
     tf_sidebarArtwork = None, tf_managed = None,
     tf_extensions = None\<rparr>"

definition TOKYO_NIGHT_COLORS :: "string list" where
  "TOKYO_NIGHT_COLORS =
    [''#1a1b26'', ''#16161e'', ''#16161e'', ''#c0caf5'', ''#292e42'', ''#24283b'', ''#c0caf5'',
      ''#292e42'', ''#1a1b26'', ''#1f2335'', ''#1f2335'', ''#c0caf5'', ''#a9b1d6'', ''#292e42'',
      ''#3b4261'', ''#7aa2f7'', ''#7aa2f7'', ''#16161e'', ''#24283b'', ''#c0caf5'', ''#1f2335'',
      ''#a9b1d6'', ''#737aa2'', ''#a9b1d6'', ''#737aa2'', ''#f7768e'', ''#f7768e'', ''#482936'',
      ''#e0af68'', ''#e0af68'', ''#3e342c'', ''#7dcfff'', ''#16161e'', ''#24384c'', ''#242d49'',
      ''#c0caf5'', ''#24283b'', ''#c0caf5'', ''#292e42'', ''#c0caf5'', ''#3b4261'', ''#16161e'',
      ''#c0caf5'', ''#16161e'', ''#c0caf5'', ''#a9b1d6'', ''#24283b'', ''#24283b'', ''#242d49'',
      ''#242d49'', ''#292e42'', ''#16161e'', ''#c0caf5'', ''#c0caf5'', ''#33467c'', ''#565f8966'',
      ''#a9b1d6aa'']"

definition TOKYO_NIGHT :: ThemeFile where
  "TOKYO_NIGHT = \<lparr>tf_version = 1, tf_id = lit ''tokyo-night'', tf_name = lit ''Tokyo Night'', tf_appearance = AppDark,
     tf_author = Some (lit ''enkia''), tf_description = None, tf_colors = colors_of TOKYO_NIGHT_COLORS,
     tf_variants = None,
     tf_sidebarArtwork = None, tf_managed = None,
     tf_extensions = None\<rparr>"

definition GITHUB_LIGHT_COLORS :: "string list" where
  "GITHUB_LIGHT_COLORS =
    [''#ffffff'', ''#f6f8fa'', ''#f6f8fa'', ''#1f2328'', ''#d1d9e0'', ''#ffffff'', ''#1f2328'',
      ''#eff2f5'', ''#ffffff'', ''#ffffff'', ''#ffffff'', ''#1f2328'', ''#59636e'', ''#d1d9e0'',
      ''#d1d9e0'', ''#0969da'', ''#0969da'', ''#ffffff'', ''#f6f8fa'', ''#1f2328'', ''#f6f8fa'',
      ''#59636e'', ''#6e7781'', ''#59636e'', ''#6e7781'', ''#cf222e'', ''#cf222e'', ''#ffebe9'',
      ''#9a6700'', ''#1f2328'', ''#fff8c5'', ''#0969da'', ''#ffffff'', ''#ddf4ff'', ''#ddf4ff'',
      ''#1f2328'', ''#f6f8fa'', ''#1f2328'', ''#eff2f5'', ''#1f2328'', ''#e7ebef'', ''#f6f8fa'',
      ''#1f2328'', ''#f6f8fa'', ''#1f2328'', ''#59636e'', ''#ffffff'', ''#eff2f5'', ''#ddf4ff'',
      ''#ddf4ff'', ''#d1d9e0'', ''#ffffff'', ''#1f2328'', ''#0969da'', ''#b6d7ff'', ''#59636e38'',
      ''#59636e61'']"

definition GITHUB_LIGHT :: ThemeFile where
  "GITHUB_LIGHT = \<lparr>tf_version = 1, tf_id = lit ''github-light'', tf_name = lit ''GitHub Light'', tf_appearance = AppLight,
     tf_author = Some (lit ''GitHub''), tf_description = None, tf_colors = colors_of GITHUB_LIGHT_COLORS,
     tf_variants = None,
     tf_sidebarArtwork = None, tf_managed = None,
     tf_extensions = None\<rparr>"

definition BUILT_IN_FILES :: "ThemeFile list" where
  "BUILT_IN_FILES = [SOLOIST_DEFAULT, POIMANDRES_DARK_THEME, CATPPUCCIN, DRACULA, TOKYO_NIGHT, GITHUB_LIGHT]"

subsection \<open>Every colour of the catalog is a colour\<close>

lemma map_of_zip_mem: "map_of (zip ks vs) k = Some v \<Longrightarrow> v \<in> set vs"
  by (meson map_of_SomeD set_zip_rightD)

lemma colors_of_palette:
  assumes "length vs = length THEME_COLOR_ROLES" "list_all (\<lambda>v. HEX_COLOR (lit v)) vs"
  shows "palette (colors_of vs)"
proof
  fix role
  have "map_of (zip THEME_COLOR_ROLES vs) role \<noteq> None"
    using assms(1) by (simp add: map_of_zip_is_None)
  then obtain v where v: "map_of (zip THEME_COLOR_ROLES vs) role = Some v" by blast
  then have "v \<in> set vs" by (rule map_of_zip_mem)
  then show "HEX_COLOR (colors_of vs role)" using v assms(2) by (simp add: colors_of_def list_all_iff)
qed

lemma soloist_of_colors:
  "list_all (\<lambda>v. HEX_COLOR (lit v)) vs \<Longrightarrow> soloist_of vs role = Some c \<Longrightarrow> HEX_COLOR c"
  using map_of_zip_mem [of SOLOIST_ROLES vs role] by (auto simp: soloist_of_def list_all_iff)

lemma soloist_default_colors_hex: "length SOLOIST_DEFAULT_COLORS = length THEME_COLOR_ROLES \<and> list_all (\<lambda>v. HEX_COLOR (lit v)) SOLOIST_DEFAULT_COLORS"
  unfolding SOLOIST_DEFAULT_COLORS_def by code_simp+

lemma soloist_default_dark_colors_hex: "length SOLOIST_DEFAULT_DARK_COLORS = length THEME_COLOR_ROLES \<and> list_all (\<lambda>v. HEX_COLOR (lit v)) SOLOIST_DEFAULT_DARK_COLORS"
  unfolding SOLOIST_DEFAULT_DARK_COLORS_def by code_simp+

lemma soloist_default_soloist_hex: "list_all (\<lambda>v. HEX_COLOR (lit v)) SOLOIST_DEFAULT_SOLOIST"
  unfolding SOLOIST_DEFAULT_SOLOIST_def by code_simp+

lemma poimandres_dark_theme_colors_hex: "length POIMANDRES_DARK_THEME_COLORS = length THEME_COLOR_ROLES \<and> list_all (\<lambda>v. HEX_COLOR (lit v)) POIMANDRES_DARK_THEME_COLORS"
  unfolding POIMANDRES_DARK_THEME_COLORS_def by code_simp+

lemma catppuccin_colors_hex: "length CATPPUCCIN_COLORS = length THEME_COLOR_ROLES \<and> list_all (\<lambda>v. HEX_COLOR (lit v)) CATPPUCCIN_COLORS"
  unfolding CATPPUCCIN_COLORS_def by code_simp+

lemma dracula_colors_hex: "length DRACULA_COLORS = length THEME_COLOR_ROLES \<and> list_all (\<lambda>v. HEX_COLOR (lit v)) DRACULA_COLORS"
  unfolding DRACULA_COLORS_def by code_simp+

lemma tokyo_night_colors_hex: "length TOKYO_NIGHT_COLORS = length THEME_COLOR_ROLES \<and> list_all (\<lambda>v. HEX_COLOR (lit v)) TOKYO_NIGHT_COLORS"
  unfolding TOKYO_NIGHT_COLORS_def by code_simp+

lemma github_light_colors_hex: "length GITHUB_LIGHT_COLORS = length THEME_COLOR_ROLES \<and> list_all (\<lambda>v. HEX_COLOR (lit v)) GITHUB_LIGHT_COLORS"
  unfolding GITHUB_LIGHT_COLORS_def by code_simp+

lemmas catalog_colors = colors_of_palette [OF conjunct1 [OF soloist_default_colors_hex] conjunct2 [OF soloist_default_colors_hex], rule_format] colors_of_palette [OF conjunct1 [OF soloist_default_dark_colors_hex] conjunct2 [OF soloist_default_dark_colors_hex], rule_format] colors_of_palette [OF conjunct1 [OF poimandres_dark_theme_colors_hex] conjunct2 [OF poimandres_dark_theme_colors_hex], rule_format] colors_of_palette [OF conjunct1 [OF catppuccin_colors_hex] conjunct2 [OF catppuccin_colors_hex], rule_format] colors_of_palette [OF conjunct1 [OF dracula_colors_hex] conjunct2 [OF dracula_colors_hex], rule_format] colors_of_palette [OF conjunct1 [OF tokyo_night_colors_hex] conjunct2 [OF tokyo_night_colors_hex], rule_format] colors_of_palette [OF conjunct1 [OF github_light_colors_hex] conjunct2 [OF github_light_colors_hex], rule_format]

lemmas catalog_soloist = soloist_of_colors [OF soloist_default_soloist_hex]

lemmas catalog_defs = SOLOIST_DEFAULT_def POIMANDRES_DARK_THEME_def CATPPUCCIN_def DRACULA_def TOKYO_NIGHT_def GITHUB_LIGHT_def

lemma built_in_ok: "list_all theme_ok BUILT_IN_FILES"
  unfolding BUILT_IN_FILES_def list.pred_inject
  by (auto simp: theme_ok_def themeColorsForAppearance_def themeExtensionsForAppearance_def variant_def catalog_defs
    intro: catalog_colors dest: catalog_soloist split: ThemeAppearance.splits option.splits)

lemma built_in_default: "catalog_ok BUILT_IN_FILES"
  by (auto simp: catalog_ok_def defaultColors_def BUILT_IN_THEMES_def BUILT_IN_FILES_def DEFAULT_THEME_ID_def
    theme_definition_def ThemeFile.defs themeColorsForAppearance_def variant_def catalog_defs
    intro: catalog_colors split: ThemeAppearance.splits)

lemma built_in_ids_distinct: "distinct (map tf_id BUILT_IN_FILES)"
  by (simp add: BUILT_IN_FILES_def catalog_defs)

text \<open>
  The contrast of Soloist Default's own text and canvas: at least 16 in both palettes. The exponent 2.4 is
  decided by raising to the fifth power.
\<close>

lemma powr_fifth:
  fixes x :: real
  assumes "0 < x" "0 \<le> b"
  shows "x powr 2.4 \<le> b \<longleftrightarrow> x ^ 12 \<le> b ^ 5" and "b \<le> x powr 2.4 \<longleftrightarrow> b ^ 5 \<le> x ^ 12"
proof -
  have "(x powr 2.4) ^ 5 = x powr (2.4 * of_nat 5)" using assms(1) by (simp add: powr_power)
  also have "\<dots> = x ^ 12" using assms(1) by (simp add: powr_numeral)
  finally have eq: "(x powr 2.4) ^ 5 = x ^ 12" .
  show "x powr 2.4 \<le> b \<longleftrightarrow> x ^ 12 \<le> b ^ 5"
    unfolding eq [symmetric] using assms by (intro power_mono_iff [symmetric]) auto
  show "b \<le> x powr 2.4 \<longleftrightarrow> b ^ 5 \<le> x ^ 12"
    unfolding eq [symmetric] using assms by (intro power_mono_iff [symmetric]) auto
qed

lemma linear_bounds:
  assumes "0.04045 < (of_int c / 255 :: real)" "0 \<le> b"
  shows "((of_int c / 255 + 0.055) / 1.055) ^ 12 \<le> b ^ 5 \<Longrightarrow> linear_channel c \<le> b"
    and "b ^ 5 \<le> ((of_int c / 255 + 0.055) / 1.055) ^ 12 \<Longrightarrow> b \<le> linear_channel c"
proof -
  have pos: "0 < ((of_int c / 255 + 0.055) / 1.055 :: real)" using assms(1) by simp
  have eq: "linear_channel c = ((of_int c / 255 + 0.055) / 1.055) powr 2.4"
    using assms(1) by (simp add: linear_channel_def Let_def)
  show "((of_int c / 255 + 0.055) / 1.055) ^ 12 \<le> b ^ 5 \<Longrightarrow> linear_channel c \<le> b"
    unfolding eq powr_fifth(1) [OF pos assms(2)] .
  show "b ^ 5 \<le> ((of_int c / 255 + 0.055) / 1.055) ^ 12 \<Longrightarrow> b \<le> linear_channel c"
    unfolding eq powr_fifth(2) [OF pos assms(2)] .
qed

lemma default_luminances:
  "\<exists>l. relativeLuminance (lit ''#14171c'') = Some l \<and> 0 \<le> l \<and> l \<le> 0.009"
  "\<exists>l. relativeLuminance (lit ''#fbfcfd'') = Some l \<and> 0.96 \<le> l"
  "\<exists>l. relativeLuminance (lit ''#f0f2f4'') = Some l \<and> 0.87 \<le> l"
  "\<exists>l. relativeLuminance (lit ''#0c1015'') = Some l \<and> 0 \<le> l \<and> l \<le> 0.006"
proof -
  have c: "channels (lit ''#14171c'') = Some (20, 23, 28)" "channels (lit ''#fbfcfd'') = Some (251, 252, 253)"
    "channels (lit ''#f0f2f4'') = Some (240, 242, 244)" "channels (lit ''#0c1015'') = Some (12, 16, 21)"
    by code_simp+
  have low: "linear_channel 20 \<le> 0.008" "linear_channel 23 \<le> 0.0088" "linear_channel 28 \<le> 0.012"
    "linear_channel 12 \<le> 0.004" "linear_channel 16 \<le> 0.0055" "linear_channel 21 \<le> 0.008"
    by (rule linear_bounds(1); simp add: power_divide)+
  have high: "0.96 \<le> linear_channel 251" "0.96 \<le> linear_channel 252" "0.96 \<le> linear_channel 253"
    "0.87 \<le> linear_channel 240" "0.87 \<le> linear_channel 242" "0.87 \<le> linear_channel 244"
    by (rule linear_bounds(2); simp add: power_divide)+
  have nonneg: "0 \<le> linear_channel 20" "0 \<le> linear_channel 23" "0 \<le> linear_channel 28"
    "0 \<le> linear_channel 12" "0 \<le> linear_channel 16" "0 \<le> linear_channel 21"
    by (rule linear_channel_range(1); simp add: byte_def)+
  show "\<exists>l. relativeLuminance (lit ''#14171c'') = Some l \<and> 0 \<le> l \<and> l \<le> 0.009"
    "\<exists>l. relativeLuminance (lit ''#fbfcfd'') = Some l \<and> 0.96 \<le> l"
    "\<exists>l. relativeLuminance (lit ''#f0f2f4'') = Some l \<and> 0.87 \<le> l"
    "\<exists>l. relativeLuminance (lit ''#0c1015'') = Some l \<and> 0 \<le> l \<and> l \<le> 0.006"
    using low high nonneg by (simp_all add: relativeLuminance_def c)
qed

lemma default_contrast:
  "defaultColors BUILT_IN_FILES appearance = Some base
    \<Longrightarrow> \<exists>q. contrastRatio (base RoleText) (base RoleCanvas) = Some q \<and> 16 \<le> q"
proof -
  assume base: "defaultColors BUILT_IN_FILES appearance = Some base"
  have "base RoleText = lit ''#14171c'' \<and> base RoleCanvas = lit ''#fbfcfd''
      \<or> base RoleText = lit ''#f0f2f4'' \<and> base RoleCanvas = lit ''#0c1015''"
    using base by (cases appearance)
      (auto simp: defaultColors_def BUILT_IN_THEMES_def BUILT_IN_FILES_def DEFAULT_THEME_ID_def
      theme_definition_def ThemeFile.defs themeColorsForAppearance_def variant_def catalog_defs
      colors_of_def THEME_COLOR_ROLES_def SOLOIST_DEFAULT_COLORS_def SOLOIST_DEFAULT_DARK_COLORS_def)
  then show ?thesis
  proof (elim disjE conjE)
    assume b: "base RoleText = lit ''#14171c''" "base RoleCanvas = lit ''#fbfcfd''"
    obtain l m where l: "relativeLuminance (base RoleText) = Some l" "0 \<le> l" "l \<le> 0.009"
      and m: "relativeLuminance (base RoleCanvas) = Some m" "0.96 \<le> m"
      using default_luminances(1,2) b by auto
    then show ?thesis using contrast_of [OF l(1) m(1)] by (simp add: max_def min_def le_divide_eq)
  next
    assume b: "base RoleText = lit ''#f0f2f4''" "base RoleCanvas = lit ''#0c1015''"
    obtain l m where l: "relativeLuminance (base RoleText) = Some l" "0.87 \<le> l"
      and m: "relativeLuminance (base RoleCanvas) = Some m" "0 \<le> m" "m \<le> 0.006"
      using default_luminances(3,4) b by auto
    then show ?thesis using contrast_of [OF l(1) m(1)] by (simp add: max_def min_def le_divide_eq)
  qed
qed

end
