(* ===== verification/ThemeLaws.thy ===== *)
theory ThemeLaws
  imports ThemeRuntime ThemeCatalog
begin

section \<open>What applying a theme leaves\<close>

text \<open>
  The laws of \<open>theme/runtime.ts\<close>: resolving answers a complete theme of the asked appearance whatever is
  selected, the document root carries the theme applied last, applying the theme it carries does nothing, a
  change of the glass opacity alone does not suspend transitions, and the hint that is stored is the last
  of its burst.
\<close>

subsection \<open>Resolving cannot throw\<close>

lemma find_append: "find P (xs @ ys) = (case find P xs of Some x \<Rightarrow> Some x | None \<Rightarrow> find P ys)"
  by (induction xs) auto

lemma definition_fields [simp]:
  "tf_id (theme_definition s t) = tf_id t"
  "themeColorsForAppearance (theme_definition s t) a = themeColorsForAppearance t a"
  "themeExtensionsForAppearance (theme_definition s t) a = themeExtensionsForAppearance t a"
  by (auto simp: theme_definition_def ThemeFile.defs themeColorsForAppearance_def themeExtensionsForAppearance_def Let_def
    split: option.split)

lemma theme_ok_definition [simp]: "theme_ok (theme_definition s t) = theme_ok t"
  by (simp add: theme_ok_def)

text \<open>The signature is the one of the theme's other fields.\<close>

definition well_signed :: "(AppliedTheme \<Rightarrow> jstring) \<Rightarrow> AppliedTheme \<Rightarrow> bool" where
  "well_signed stringify theme \<longleftrightarrow> at_signature theme = themeSignature stringify (theme\<lparr>at_signature := []\<rparr>)"

definition complete_theme :: "AppliedTheme \<Rightarrow> bool" where
  "complete_theme theme \<longleftrightarrow> palette (at_colors theme) \<and> palette (at_extensions theme) \<and> palette (at_terminal theme)"

lemma applied_of_file:
  assumes "theme_ok theme"
  shows "returns (appliedThemeFromFile stringify theme appearance opacity) (\<lambda>r.
    case themeColorsForAppearance theme appearance of None \<Rightarrow> r = None
    | Some colors \<Rightarrow> \<exists>a. r = Some a \<and> complete_theme a \<and> at_id a = tf_id theme \<and> at_appearance a = appearance
        \<and> at_colors a = colors \<and> at_glassOpacity a = opacity \<and> well_signed stringify a)"
proof (cases "themeColorsForAppearance theme appearance")
  case (Some colors)
  define explicit where "explicit = (case themeExtensionsForAppearance theme appearance of Some e \<Rightarrow> e | None \<Rightarrow> (\<lambda>_. None))"
  have colors: "palette colors" by (rule theme_okD(1) [OF assms Some])
  have ex: "explicit role = Some c \<Longrightarrow> c \<noteq> [] \<Longrightarrow> HEX_COLOR c" for role c
    using theme_okD(2) [OF assms] by (auto simp: explicit_def split: option.splits)
  obtain e where e: "deriveThemeExtensions colors appearance explicit = Some e" "palette e"
    using theme_extension_colors [OF colors, of explicit appearance] ex by (auto simp: returns_def)
  obtain t where t: "deriveTerminalTheme colors appearance e explicit = Some t" "palette t"
    using terminal_theme_colors [OF colors e(2), of explicit appearance] ex by (auto simp: returns_def)
  show ?thesis
    using e t colors Some
    by (auto simp: appliedThemeFromFile_def explicit_def [symmetric] signed_def complete_theme_def well_signed_def)
qed (simp add: appliedThemeFromFile_def)

lemma resolve_complete:
  assumes catalog: "catalog_ok catalog" "list_all theme_ok catalog" and custom: "list_all theme_ok customs"
    and res: "resolved = resolvedAppearance (ap_theme appearance) systemDark"
  shows "returns (resolveAppliedTheme catalog stringify appearance (themeDefinitions catalog customs) systemDark)
    (\<lambda>a. complete_theme a \<and> at_appearance a = resolved \<and> well_signed stringify a
      \<and> (case find (\<lambda>t. tf_id t = selected_for (ap_selected_themes appearance) resolved) (themeDefinitions catalog customs) of
           Some t \<Rightarrow> (case themeColorsForAppearance t resolved of
               Some colors \<Rightarrow> at_id a = tf_id t \<and> at_colors a = colors | None \<Rightarrow> at_id a = DEFAULT_THEME_ID)
         | None \<Rightarrow> at_id a = DEFAULT_THEME_ID))"
proof -
  let ?themes = "themeDefinitions catalog customs"
  let ?id = "selected_for (ap_selected_themes appearance) resolved"
  obtain base where base: "find (\<lambda>t. tf_id t = DEFAULT_THEME_ID) (BUILT_IN_THEMES catalog) = Some base"
    "themeColorsForAppearance base resolved \<noteq> None"
    using catalog(1) by (auto simp: catalog_ok_def defaultColors_def split: option.splits dest!: spec [of _ resolved])
  have all_ok: "t \<in> set ?themes \<Longrightarrow> theme_ok t" for t
    using catalog(2) custom by (auto simp: themeDefinitions_def BUILT_IN_THEMES_def list_all_iff)
  have base': "find (\<lambda>t. tf_id t = DEFAULT_THEME_ID) ?themes = Some base"
    using base(1) by (simp add: themeDefinitions_def find_append)
  then have base_in: "base \<in> set ?themes" "tf_id base = DEFAULT_THEME_ID"
    by (auto simp: find_Some_iff dest: nth_mem)
  obtain colors where colors: "themeColorsForAppearance base resolved = Some colors" using base(2) by blast
  obtain fb where fb: "appliedThemeFromFile stringify base resolved (ap_glass_opacity appearance) = Some (Some fb)"
    "complete_theme fb" "at_id fb = DEFAULT_THEME_ID" "at_appearance fb = resolved" "well_signed stringify fb"
    using applied_of_file [OF all_ok [OF base_in(1)], of stringify resolved "ap_glass_opacity appearance"] colors base_in(2)
    by (auto simp: returns_def)
  show ?thesis
  proof (cases "find (\<lambda>t. tf_id t = ?id) ?themes")
    case None
    then show ?thesis using fb base' by (simp add: resolveAppliedTheme_def res [symmetric])
  next
    case (Some t)
    then have "t \<in> set ?themes" by (auto simp: find_Some_iff dest: nth_mem)
    from applied_of_file [OF all_ok [OF this], of stringify resolved "ap_glass_opacity appearance"] Some fb base'
    show ?thesis
      by (cases "themeColorsForAppearance t resolved")
        (auto simp: resolveAppliedTheme_def res [symmetric] returns_def)
  qed
qed

subsection \<open>The root carries the theme\<close>

definition carries :: "AppliedTheme \<Rightarrow> ThemeRoot \<Rightarrow> bool" where
  "carries theme doc \<longleftrightarrow> (\<forall>(name, v) \<in> set (themeCssVariables theme). tr_style doc name = v)
     \<and> tr_dark doc = (at_appearance theme = AppDark) \<and> tr_themeId doc = Some (at_id theme)
     \<and> tr_themeAppearance doc = Some (at_appearance theme) \<and> tr_themeSignature doc = Some (at_signature theme)
     \<and> tr_colorScheme doc = Some (at_appearance theme)"

text \<open>
  The root is only written by \<open>applyTheme\<close>: the attributes it holds go with the signature, and no
  stylesheet is left behind.
\<close>

definition root_coherent :: "ThemeRoot \<Rightarrow> bool" where
  "root_coherent doc \<longleftrightarrow> \<not> tr_frozen doc \<and> (case tr_themeSignature doc of None \<Rightarrow> True
     | Some s \<Rightarrow> \<exists>i a h. s = i @ [58] @ appearance_text a @ [58] @ show_base36 h \<and> tr_themeId doc = Some i
         \<and> tr_themeAppearance doc = Some a \<and> tr_dark doc = (a = AppDark) \<and> tr_colorScheme doc = Some a)"

lemma set_properties:
  "distinct (map fst ps) \<Longrightarrow> foldl root_op doc (map (\<lambda>(name, v). SetProperty name v) ps)
     = doc\<lparr>tr_style := (\<lambda>n. case map_of ps n of Some v \<Rightarrow> v | None \<Rightarrow> tr_style doc n)\<rparr>"
proof (induction ps arbitrary: doc)
  case (Cons p ps)
  obtain n v where p: "p = (n, v)" by (cases p)
  have "map_of ps n = None" using Cons.prems by (auto simp: p map_of_eq_None_iff)
  then show ?case using Cons by (auto simp: p fun_eq_iff split: option.splits)
qed simp

lemma changed_distinct: "distinct (map fst (changed_variables theme doc))"
proof -
  have "distinct (map fst (themeCssVariables theme))"
    using map_wf_from by (simp add: themeCssVariables_def map_wf_def)
  then show ?thesis unfolding changed_variables_def by (rule distinct_map_filter)
qed

lemma apply_changes:
  assumes "\<not> (changed_variables theme doc = [] \<and> tr_themeSignature doc = Some (at_signature theme))" "\<not> tr_frozen doc"
  shows "applyTheme doc theme = doc
    \<lparr>tr_style := (\<lambda>n. case map_of (changed_variables theme doc) n of Some v \<Rightarrow> v | None \<Rightarrow> tr_style doc n),
     tr_dark := (at_appearance theme = AppDark), tr_themeId := Some (at_id theme),
     tr_themeAppearance := Some (at_appearance theme), tr_themeSignature := Some (at_signature theme),
     tr_colorScheme := Some (at_appearance theme)\<rparr>"
  by (rule ThemeRoot.equality)
    (use assms in \<open>auto simp: applyTheme_def apply_ops_def set_properties [OF changed_distinct] fun_eq_iff
      split: option.splits\<close>)

lemma changed_style:
  "(name, v) \<in> set (themeCssVariables theme)
    \<Longrightarrow> (case map_of (changed_variables theme doc) name of Some w \<Rightarrow> w | None \<Rightarrow> tr_style doc name) = v"
proof -
  assume m: "(name, v) \<in> set (themeCssVariables theme)"
  have d: "distinct (map fst (themeCssVariables theme))"
    using map_wf_from by (simp add: themeCssVariables_def map_wf_def)
  show ?thesis
  proof (cases "tr_style doc name = v")
    case True
    have "(name, w) \<notin> set (changed_variables theme doc)" for w
      using m d True by (auto simp: changed_variables_def dest: eq_key_imp_eq_value)
    then have "map_of (changed_variables theme doc) name = None" by (auto simp: map_of_eq_None_iff)
    then show ?thesis using True by simp
  next
    case False
    then have "(name, v) \<in> set (changed_variables theme doc)" using m by (simp add: changed_variables_def)
    then show ?thesis using changed_distinct by simp
  qed
qed

lemma apply_carries:
  assumes "root_coherent doc" "well_signed stringify theme"
  shows "carries theme (applyTheme doc theme)" and "root_coherent (applyTheme doc theme)"
proof -
  have "carries theme (applyTheme doc theme) \<and> root_coherent (applyTheme doc theme)"
  proof (cases "changed_variables theme doc = [] \<and> tr_themeSignature doc = Some (at_signature theme)")
    case True
    then have same: "applyTheme doc theme = doc" by (simp add: applyTheme_def apply_ops_def)
    obtain i a h where s: "themeSignature stringify (theme\<lparr>at_signature := []\<rparr>) = i @ [58] @ appearance_text a @ [58] @ show_base36 h"
      "tr_themeId doc = Some i" "tr_themeAppearance doc = Some a" "tr_dark doc = (a = AppDark)" "tr_colorScheme doc = Some a"
      using True assms by (auto simp: root_coherent_def well_signed_def)
    from signature_parts [OF s(1) [unfolded themeSignature_def]]
    have ids: "at_id theme = i" "at_appearance theme = a" by simp_all
    have "\<forall>(name, v) \<in> set (themeCssVariables theme). tr_style doc name = v"
      using True by (auto simp: changed_variables_def filter_empty_conv)
    then show ?thesis using True s(2-) ids assms(1) by (simp add: same carries_def)
  next
    case False
    then have eq: "applyTheme doc theme = doc
      \<lparr>tr_style := (\<lambda>n. case map_of (changed_variables theme doc) n of Some v \<Rightarrow> v | None \<Rightarrow> tr_style doc n),
       tr_dark := (at_appearance theme = AppDark), tr_themeId := Some (at_id theme),
       tr_themeAppearance := Some (at_appearance theme), tr_themeSignature := Some (at_signature theme),
       tr_colorScheme := Some (at_appearance theme)\<rparr>"
      using assms(1) by (intro apply_changes) (auto simp: root_coherent_def)
    have "\<forall>(name, v) \<in> set (themeCssVariables theme). tr_style (applyTheme doc theme) name = v"
      using changed_style by (auto simp: eq)
    then show ?thesis using assms
      by (auto simp: carries_def eq root_coherent_def well_signed_def themeSignature_def)
  qed
  then show "carries theme (applyTheme doc theme)" and "root_coherent (applyTheme doc theme)" by simp_all
qed

lemma carried_untouched: "carries theme doc \<Longrightarrow> apply_ops theme doc = []"
  by (auto simp: apply_ops_def changed_variables_def carries_def filter_empty_conv)

text \<open>A root that has carried themes one after the other carries the last of them.\<close>

definition page_root :: "ThemeRoot \<Rightarrow> bool" where
  "page_root doc \<longleftrightarrow> \<not> tr_frozen doc \<and> tr_themeSignature doc = None"

lemma apply_run_coherent:
  assumes "root_coherent doc" "list_all (well_signed stringify) themes"
  shows "root_coherent (foldl applyTheme doc themes)"
  using assms by (induction themes arbitrary: doc) (auto intro: apply_carries(2))

subsection \<open>Transitions\<close>

lemma glass_change_ops:
  assumes "carries theme doc" "theme' = theme\<lparr>at_glassOpacity := opacity, at_signature := signature\<rparr>"
  shows "\<not> palette_swap theme' doc"
proof -
  have wf: "map_wf (themeCssVariables t)" for t using map_wf_from by (simp add: themeCssVariables_def)
  have "starts_with name GLASS_VARIABLE_PREFIX" if "(name, v) \<in> set (changed_variables theme' doc)" for name v
  proof (rule ccontr)
    assume plain: "\<not> starts_with name GLASS_VARIABLE_PREFIX"
    from that have m: "(name, v) \<in> set (themeCssVariables theme')" and ne: "tr_style doc name \<noteq> v"
      by (auto simp: changed_variables_def)
    from m wf have "map_get (themeCssVariables theme') name = Some v" by (simp add: map_wf_def)
    then have "map_get (themeCssVariables theme) name = Some v"
      using opacity_only_glass [OF plain, of signature opacity theme] by (simp add: assms(2))
    then have "(name, v) \<in> set (themeCssVariables theme)" by (rule map_of_SomeD)
    then show False using assms(1) ne by (auto simp: carries_def)
  qed
  then show ?thesis using assms by (auto simp: palette_swap_def carries_def list_ex_iff)
qed

text \<open>Where transitions are suspended, every property is written while they are, and none stays so.\<close>

definition freeze_brackets :: "RootOp list \<Rightarrow> bool" where
  "freeze_brackets ops \<longleftrightarrow> (\<exists>writes. ops = AppendFreeze # writes @ [ReadComputedStyle, RemoveFreeze]
     \<and> list_all (\<lambda>w. w \<notin> {AppendFreeze, ReadComputedStyle, RemoveFreeze}) writes)"

lemma apply_ops_bracket:
  "apply_ops theme doc = [] \<or> freeze_brackets (apply_ops theme doc)
     \<or> \<not> palette_swap theme doc \<and> list_all (\<lambda>w. w \<notin> {AppendFreeze, ReadComputedStyle, RemoveFreeze}) (apply_ops theme doc)"
proof -
  have "list_all (\<lambda>w. w \<notin> {AppendFreeze, ReadComputedStyle, RemoveFreeze})
      (map (\<lambda>(name, v). SetProperty name v) (changed_variables theme doc)
        @ [ToggleDark (at_appearance theme = AppDark), SetThemeId (at_id theme), SetThemeAppearance (at_appearance theme),
           SetThemeSignature (at_signature theme), SetColorScheme (at_appearance theme)])" (is "list_all _ ?writes")
    by (auto simp: list_all_iff)
  then show ?thesis
    by (cases "palette_swap theme doc")
      (auto simp: apply_ops_def freeze_brackets_def intro!: exI [of _ ?writes])
qed

subsection \<open>The stored hint\<close>

fun last_hint :: "HintEvent list \<Rightarrow> AppliedTheme option" where
  "last_hint [] = None"
| "last_hint (e # es) = (case last_hint es of Some t \<Rightarrow> Some t
     | None \<Rightarrow> (case e of WriteHint t _ \<Rightarrow> Some t | HintTimer _ \<Rightarrow> None))"

fun storage_available :: "HintEvent \<Rightarrow> bool" where
  "storage_available (WriteHint _ available) = available"
| "storage_available (HintTimer available) = available"

text \<open>What the next launch will find once the timer has run: what is pending, or else what is stored.\<close>

definition newest_hint :: "HintWriter \<Rightarrow> AppliedTheme option" where
  "newest_hint w = (case hw_pending w of Some t \<Rightarrow> Some t | None \<Rightarrow> (case hw_storage w of [] \<Rightarrow> None | t # _ \<Rightarrow> Some t))"

definition hint_ok :: "HintWriter \<Rightarrow> bool" where
  "hint_ok w \<longleftrightarrow> (hw_pending w \<noteq> None \<longrightarrow> hw_timer w)"

lemmas hint_defs = hint_timer_def writeAppliedThemeHint_def storeAppliedThemeHint_def newest_hint_def hint_ok_def

lemma hint_step_newest:
  "hint_ok w \<Longrightarrow> storage_available e \<Longrightarrow> hint_ok (hint_step w e)
     \<and> newest_hint (hint_step w e) = (case e of WriteHint t _ \<Rightarrow> Some t | HintTimer _ \<Rightarrow> newest_hint w)"
  by (cases e) (auto simp: hint_defs Let_def split: option.splits)

lemma hint_run_newest:
  "hint_ok w \<Longrightarrow> list_all storage_available es \<Longrightarrow> hint_ok (foldl hint_step w es)
     \<and> newest_hint (foldl hint_step w es) = (case last_hint es of Some t \<Rightarrow> Some t | None \<Rightarrow> newest_hint w)"
proof (induction es arbitrary: w)
  case (Cons e es)
  then have "hint_ok (hint_step w e)" using hint_step_newest by simp
  with Cons hint_step_newest [of w e] show ?case by (auto split: option.splits HintEvent.splits)
qed simp

text \<open>A write of the module happens at most once between two firings of its timer.\<close>

lemma hint_burst:
  "list_all (\<lambda>e. \<exists>t a. e = WriteHint t a) es
   \<Longrightarrow> length (hw_storage (foldl hint_step w es)) \<le> length (hw_storage w) + (if hw_timer w then 0 else 1)
     \<and> (es \<noteq> [] \<longrightarrow> hw_timer (foldl hint_step w es))"
proof (induction es arbitrary: w)
  case (Cons e es)
  then obtain t a where e: "e = WriteHint t a" by auto
  have "hw_timer (hint_step w e)" "length (hw_storage (hint_step w e)) \<le> length (hw_storage w) + (if hw_timer w then 0 else 1)"
    by (auto simp: e hint_defs)
  then show ?case using Cons.IH [of "hint_step w e"] Cons.prems by (cases es) auto
qed simp

lemma hint_read_back:
  "parse (stringify (hint_document theme)) = Some (hint_document theme)
    \<Longrightarrow> readAppliedThemeHint parse (Some (Some (stringify (hint_document theme)))) = Some (applied_theme_json theme)"
  by (cases "at_appearance theme")
    (simp_all add: readAppliedThemeHint_def hint_theme_def hint_document_def applied_theme_json_def)

subsection \<open>The properties\<close>

lemma derived_inputs:
  "deriveThemeColors catalog appearance background accent = Some c
    \<Longrightarrow> c RoleCanvas = background \<and> c RoleAccent = accent
      \<and> (\<exists>base. defaultColors catalog appearance = Some base
          \<and> readableForeground background (base RoleText) (base RoleCanvas) = Some (c RoleText))"
  by (auto simp: deriveThemeColors_def bind_eq_Some_conv)

text \<open>
  C26. The palette derived from a background and an accent: with the shipped catalog the
  derivation never throws, every role of it is a colour, the two inputs are kept as they are,
  and its text reads on its canvas at 4 to 1 at least, whatever background was picked.
\<close>

theorem theme_derivation_reads:
  assumes "HEX_COLOR background" "HEX_COLOR accent"
  shows "\<exists>c r. deriveThemeColors BUILT_IN_FILES appearance background accent = Some c \<and> (\<forall>role. HEX_COLOR (c role))
    \<and> c RoleCanvas = background \<and> c RoleAccent = accent
    \<and> contrastRatio (c RoleCanvas) (c RoleText) = Some r \<and> 4 \<le> r"
proof -
  obtain c where c: "deriveThemeColors BUILT_IN_FILES appearance background accent = Some c" "palette c"
    using derived_palette [OF built_in_default assms] by (auto simp: returns_def)
  from derived_inputs [OF c(1)] obtain base where base: "defaultColors BUILT_IN_FILES appearance = Some base"
    and ink: "readableForeground background (base RoleText) (base RoleCanvas) = Some (c RoleText)"
    and kept: "c RoleCanvas = background" "c RoleAccent = accent" by auto
  have pal: "HEX_COLOR (base RoleText)" "HEX_COLOR (base RoleCanvas)"
    using catalog_default [OF built_in_default, of appearance] base by (auto simp: returns_def)
  have "HEX_COLOR (c RoleText)" using c(2) by simp
  then obtain r where r: "contrastRatio background (c RoleText) = Some r" "1 \<le> r" by (rule contrast_color [OF assms(1)])
  obtain q where q: "contrastRatio (base RoleText) (base RoleCanvas) = Some q" "16 \<le> q"
    using default_contrast [OF base] by blast
  have "4\<^sup>2 \<le> r\<^sup>2"
    using readable_best [OF assms(1) pal ink r(1) q(1)] q(2) by (simp add: power2_eq_square)
  then have "4 \<le> r" by (rule power2_le_imp_le) (use r(2) in simp)
  then show ?thesis using c kept r(1) by auto
qed

theorem theme_derivation_reads_witness:
  "\<exists>c r. deriveThemeColors BUILT_IN_FILES AppDark (lit ''#777'') (lit ''#1777b8'') = Some c \<and> (\<forall>role. HEX_COLOR (c role))
    \<and> c RoleCanvas = lit ''#777'' \<and> c RoleAccent = lit ''#1777b8''
    \<and> contrastRatio (c RoleCanvas) (c RoleText) = Some r \<and> 4 \<le> r"
  by (rule theme_derivation_reads) code_simp+

text \<open>
  The application-specific colours of a palette: none of them can throw, every one is a colour,
  an explicit colour wins over the derived one, and a derived status or file colour reads on the
  four sidebar surfaces at 3 to 1 and a derived git colour at 4.5 to 1 whenever the sidebar's
  own text does.
\<close>

theorem derived_extensions_read:
  assumes "palette colors" "\<forall>role c. explicit role = Some c \<longrightarrow> HEX_COLOR c"
  shows "\<exists>e. deriveThemeExtensions colors appearance explicit = Some e \<and> (\<forall>role. HEX_COLOR (e role))
    \<and> (\<forall>role c. explicit (Extension role) = Some c \<longrightarrow> e role = c)
    \<and> (\<forall>role. explicit (Extension role) = None \<longrightarrow> reads_on_rail colors e role)"
proof -
  obtain e where e: "deriveThemeExtensions colors appearance explicit = Some e"
    and each: "\<And>role. HEX_COLOR (e role) \<and> e role = override_with (explicit (Extension role)) (e role)
      \<and> (explicit (Extension role) \<in> {None, Some []} \<longrightarrow> reads_on_rail colors e role)"
    using theme_extension_colors [OF assms(1), of explicit appearance] assms(2) by (auto simp: returns_def)
  have "e role = c" if "explicit (Extension role) = Some c" for role c
  proof -
    have "HEX_COLOR c" using that assms(2) by blast
    then have "c \<noteq> []" by (auto simp: HEX_COLOR_def)
    then show ?thesis using each [of role] that by (auto simp: override_with_def neq_Nil_conv)
  qed
  then show ?thesis using e each by blast
qed

definition one_override :: SoloistThemeExtensions where
  "one_override role = (if role = Extension ExtShadowInk then Some (lit ''#123456'') else None)"

theorem derived_extensions_read_witness:
  "\<exists>e. deriveThemeExtensions (\<lambda>_. lit ''#fff'') AppLight one_override = Some e \<and> (\<forall>role. HEX_COLOR (e role))
    \<and> (\<forall>role c. one_override (Extension role) = Some c \<longrightarrow> e role = c)
    \<and> (\<forall>role. one_override (Extension role) = None \<longrightarrow> reads_on_rail (\<lambda>_. lit ''#fff'') e role)"
proof -
  have "HEX_COLOR (lit ''#fff'')" "HEX_COLOR (lit ''#123456'')" by code_simp+
  then show ?thesis by (intro derived_extensions_read) (auto simp: one_override_def)
qed

text \<open>
  The colour made safe for a background: against any one background it is a colour that reads at
  the minimum asked, 4.5 to 1 at most, and a colour that already does is left alone; against
  several backgrounds it does whenever black or white does.
\<close>

theorem safe_color_reads:
  assumes "HEX_COLOR color" "list_all HEX_COLOR backgrounds"
  shows "\<exists>c. contrastSafeThemeColor color backgrounds minimum = Some c \<and> HEX_COLOR c
    \<and> (meets color backgrounds minimum \<longrightarrow> c = color)
    \<and> (meets BLACK backgrounds minimum \<or> meets WHITE backgrounds minimum \<longrightarrow> meets c backgrounds minimum)
    \<and> (length backgrounds = 1 \<and> minimum \<le> 4.5 \<longrightarrow> meets c backgrounds minimum)"
proof -
  obtain c where c: "contrastSafeThemeColor color backgrounds minimum = Some c" "HEX_COLOR c"
    "meets BLACK backgrounds minimum \<or> meets WHITE backgrounds minimum \<longrightarrow> meets c backgrounds minimum"
    "meets color backgrounds minimum \<longrightarrow> c = color"
    by (rule safe_color [OF assms])
  have "meets BLACK backgrounds minimum \<or> meets WHITE backgrounds minimum" if "length backgrounds = 1" "minimum \<le> 4.5"
  proof -
    obtain b where b: "backgrounds = [b]" using \<open>length backgrounds = 1\<close> by (cases backgrounds) auto
    then have "HEX_COLOR b" using assms(2) by simp
    then obtain x y where "contrastRatio BLACK b = Some x" "contrastRatio WHITE b = Some y" "4.5 \<le> max x y"
      by (rule black_or_white)
    then show ?thesis using that(2) by (auto simp: b meets_def le_max_iff_disj)
  qed
  then show ?thesis using c by blast
qed

theorem safe_color_reads_witness:
  "\<exists>c. contrastSafeThemeColor (lit ''#777'') [lit ''#888888''] 4.5 = Some c \<and> meets c [lit ''#888888''] 4.5"
proof -
  have "HEX_COLOR (lit ''#777'')" "list_all HEX_COLOR [lit ''#888888'']" by code_simp+
  from safe_color_reads [OF this, of "4.5"] show ?thesis by auto
qed


definition plain_appearance :: "Theme \<Rightarrow> jstring \<Rightarrow> Appearance" where
  "plain_appearance theme selected = \<lparr>ap_theme = theme, ap_interface_font_scale = ScaleMedium,
     ap_terminal = default_terminal_appearance, ap_selected_themes = \<lparr>tsel_light = selected, tsel_dark = selected\<rparr>,
     ap_custom_themes = [], ap_glass_opacity = GLASS_OPACITY_DEFAULT\<rparr>"



definition flat_theme :: "ThemeAppearance \<Rightarrow> int \<Rightarrow> AppliedTheme" where
  "flat_theme appearance opacity = signed (\<lambda>t. show_int (at_glassOpacity t)) \<lparr>at_id = lit ''flat'', at_name = lit ''Flat'',
     at_appearance = appearance, at_colors = (\<lambda>_. lit ''#fff''), at_extensions = (\<lambda>_. lit ''#fff''),
     at_terminal = (\<lambda>_. lit ''#fff''), at_glassOpacity = opacity, at_signature = []\<rparr>"

definition bare_root :: ThemeRoot where
  "bare_root = \<lparr>tr_style = (\<lambda>_. []), tr_dark = False, tr_themeId = None, tr_themeAppearance = None,
     tr_themeSignature = None, tr_colorScheme = None, tr_frozen = False\<rparr>"

lemma flat_signed: "well_signed (\<lambda>t. show_int (at_glassOpacity t)) (flat_theme a n)"
  by (simp add: flat_theme_def well_signed_def signed_def)


text \<open>
  Moving the glass opacity of the theme the root carries never suspends transitions nor forces a
  style recalculation; any other write that suspends them does so around all of its property
  writes and ends by lifting the suspension.
\<close>

theorem glass_change_keeps_transitions:
  assumes "carries theme doc"
  shows "list_all (\<lambda>w. w \<notin> {AppendFreeze, ReadComputedStyle, RemoveFreeze})
      (apply_ops (theme\<lparr>at_glassOpacity := opacity, at_signature := signature\<rparr>) doc)
    \<and> (\<forall>other. AppendFreeze \<in> set (apply_ops other doc) \<longrightarrow> freeze_brackets (apply_ops other doc))"
  using glass_change_ops [OF assms refl, of signature opacity]
    apply_ops_bracket [of "theme\<lparr>at_glassOpacity := opacity, at_signature := signature\<rparr>" doc]
    apply_ops_bracket [of _ doc]
  by (auto simp: list_all_iff freeze_brackets_def apply_ops_def)

theorem glass_change_keeps_transitions_witness:
  "list_all (\<lambda>w. w \<notin> {AppendFreeze, ReadComputedStyle, RemoveFreeze})
      (apply_ops ((flat_theme AppDark 80)\<lparr>at_glassOpacity := 45, at_signature := lit ''s''\<rparr>) (applyTheme bare_root (flat_theme AppDark 80)))"
  using glass_change_keeps_transitions [OF apply_carries(1) [of bare_root "\<lambda>t. show_int (at_glassOpacity t)" "flat_theme AppDark 80"], of "lit ''s''" 45]
    flat_signed
  by (simp add: root_coherent_def bare_root_def)

text \<open>
  The hint of the next launch: as long as the storage accepts writes, the palette written last
  is either stored or pending behind the armed timer, the timer's firing stores it, and a burst
  of writes between two firings costs one store at most.
\<close>

theorem hint_stores_last:
  assumes "list_all storage_available (events @ [HintTimer True])" "last_hint events = Some theme"
  shows "newest_hint (foldl hint_step hint_start events) = Some theme
    \<and> hint_ok (foldl hint_step hint_start events)
    \<and> hd (hw_storage (foldl hint_step hint_start (events @ [HintTimer True]))) = theme
    \<and> (\<forall>burst. list_all (\<lambda>e. \<exists>t a. e = WriteHint t a) burst
        \<longrightarrow> length (hw_storage (foldl hint_step (foldl hint_step hint_start events) burst))
              \<le> length (hw_storage (foldl hint_step hint_start events)) + 1)"
proof -
  let ?w = "foldl hint_step hint_start events"
  have start: "hint_ok hint_start" by (simp add: hint_ok_def hint_start_def)
  have w: "hint_ok ?w" "newest_hint ?w = Some theme"
    using hint_run_newest [OF start, of events] assms by auto
  moreover have "hd (hw_storage (hint_step ?w (HintTimer True))) = theme"
    using w by (auto simp: hint_defs Let_def split: option.splits list.splits)
  moreover have "length (hw_storage (foldl hint_step ?w burst)) \<le> length (hw_storage ?w) + 1"
    if "list_all (\<lambda>e. \<exists>t a. e = WriteHint t a) burst" for burst
    using hint_burst [OF that, of ?w] by (auto split: if_splits)
  ultimately show ?thesis by simp
qed

theorem hint_stores_last_witness:
  "hd (hw_storage (foldl hint_step hint_start
     [WriteHint (flat_theme AppDark 80) True, WriteHint (flat_theme AppDark 60) True, WriteHint (flat_theme AppDark 40) True,
      HintTimer True])) = flat_theme AppDark 40"
  using hint_stores_last [of "[WriteHint (flat_theme AppDark 80) True, WriteHint (flat_theme AppDark 60) True,
      WriteHint (flat_theme AppDark 40) True]" "flat_theme AppDark 40"]
  by simp

text \<open>
  C34. The contrast report of a set of themes with valid palettes never throws, and it names
  exactly the published palettes in which some pair of roles misses its minimum, each with the
  labels of those pairs in the pairs' order; so it is empty exactly when the whole set is clean.
\<close>

theorem palette_warnings_exact:
  assumes "list_all theme_ok themes"
  shows "\<exists>ws. paletteContrastWarnings themes = Some ws
    \<and> map (\<lambda>w. (pw_id w, pw_appearance w, map cp_label (pw_warnings w))) ws
        = concat (map (\<lambda>theme. concat (map (palette_verdict theme) THEME_APPEARANCES)) themes)
    \<and> (ws = [] \<longleftrightarrow> (\<forall>theme \<in> set themes. \<forall>a colors. themeColorsForAppearance theme a = Some colors
          \<longrightarrow> list_all (clears colors) CONTRAST_PAIRS))"
proof -
  obtain ws where ws: "paletteContrastWarnings themes = Some ws"
    "map (\<lambda>w. (pw_id w, pw_appearance w, map cp_label (pw_warnings w))) ws
        = concat (map (\<lambda>theme. concat (map (palette_verdict theme) THEME_APPEARANCES)) themes)"
    using palette_warnings_of [OF assms] by (auto simp: returns_def)
  have one: "palette_verdict theme a = [] \<longleftrightarrow> (\<forall>colors. themeColorsForAppearance theme a = Some colors
      \<longrightarrow> list_all (clears colors) CONTRAST_PAIRS)" for theme a
    using failing_labels_none by (cases "themeColorsForAppearance theme a") (auto simp: palette_verdict_def)
  have "ws = [] \<longleftrightarrow> concat (map (\<lambda>theme. concat (map (palette_verdict theme) THEME_APPEARANCES)) themes) = []"
    unfolding ws(2) [symmetric] by simp
  also have "\<dots> \<longleftrightarrow> (\<forall>theme \<in> set themes. \<forall>a. palette_verdict theme a = [])"
    using all_appearances by auto
  finally show ?thesis using ws unfolding one by blast
qed

theorem palette_warnings_exact_witness: "\<exists>ws. paletteContrastWarnings BUILT_IN_FILES = Some ws"
  using palette_warnings_exact [OF built_in_ok] by blast

end
