(* ===== verification/AppearanceTables.thy ===== *)
theory AppearanceTables
  imports ThemeLaws
begin

section \<open>The appearance tables\<close>

text \<open>
  \<open>lib/appearance.ts\<close> and \<open>lib/terminalPalette.ts\<close>: the one place a closed Appearance enum becomes a
  concrete size, weight or label, the two synchronous hints of the next launch, the options a terminal pane is
  opened with, and what the pickers offer. Sizes and factors are rationals. The lemmas show that every picker offers
  each value once, that a hint written is the hint read, and that the two ways the program decides between light
  and dark agree.
\<close>

subsection \<open>Sizes\<close>

fun TERMINAL_FONT_PX :: "FontScale \<Rightarrow> nat" where
  "TERMINAL_FONT_PX ScaleExtraSmall = 11"
| "TERMINAL_FONT_PX ScaleSmall = 12"
| "TERMINAL_FONT_PX ScaleMedium = 13"
| "TERMINAL_FONT_PX ScaleLarge = 15"
| "TERMINAL_FONT_PX ScaleExtraLarge = 17"

fun INTERFACE_SCALE :: "FontScale \<Rightarrow> rat" where
  "INTERFACE_SCALE ScaleExtraSmall = 0.875"
| "INTERFACE_SCALE ScaleSmall = 0.9375"
| "INTERFACE_SCALE ScaleMedium = 1"
| "INTERFACE_SCALE ScaleLarge = 1.0625"
| "INTERFACE_SCALE ScaleExtraLarge = 1.125"

primrec FONT_WEIGHT_VALUE :: "FontWeight \<Rightarrow> nat" where
  "FONT_WEIGHT_VALUE W100 = 100"
| "FONT_WEIGHT_VALUE W200 = 200"
| "FONT_WEIGHT_VALUE W300 = 300"
| "FONT_WEIGHT_VALUE W400 = 400"
| "FONT_WEIGHT_VALUE W500 = 500"
| "FONT_WEIGHT_VALUE W600 = 600"
| "FONT_WEIGHT_VALUE W700 = 700"
| "FONT_WEIGHT_VALUE W800 = 800"
| "FONT_WEIGHT_VALUE W900 = 900"

fun LINE_HEIGHT_VALUE :: "LineHeight \<Rightarrow> rat" where
  "LINE_HEIGHT_VALUE LineCompact = 1"
| "LINE_HEIGHT_VALUE LineDefault = 1.1"
| "LINE_HEIGHT_VALUE LineComfortable = 1.4"
| "LINE_HEIGHT_VALUE LineSpacious = 1.8"

fun LETTER_SPACING_PX :: "LetterSpacing \<Rightarrow> rat" where
  "LETTER_SPACING_PX SpacingTight = 0.5"
| "LETTER_SPACING_PX SpacingDefault = 0.9"
| "LETTER_SPACING_PX SpacingWide = 1.1"
| "LETTER_SPACING_PX SpacingWider = 1.3"

definition TERMINAL_SCROLLBACK_LINES :: nat where "TERMINAL_SCROLLBACK_LINES = 5000"
definition TERMINAL_OVERVIEW_RULER_WIDTH :: nat where "TERMINAL_OVERVIEW_RULER_WIDTH = 14"
definition ROOT_FONT_PX :: rat where "ROOT_FONT_PX = 16"

definition DEFAULT_MONO_STACK :: jstring where
  "DEFAULT_MONO_STACK = [34] @ lit ''Ubuntu Mono'' @ [34] @ lit '', '' @ [34] @ lit ''DejaVu Sans Mono'' @ [34] @ lit '', monospace''"

definition DEFAULT_APPEARANCE :: Appearance where
  "DEFAULT_APPEARANCE = \<lparr>ap_theme = ThemeSystem, ap_interface_font_scale = ScaleMedium,
     ap_terminal = \<lparr>ta_focus_on_click = True, ta_copy_on_select = False, ta_font_family = None, ta_font_weight = W400,
       ta_bold_font_weight = W600, ta_font_scale = ScaleMedium, ta_line_height = LineDefault,
       ta_letter_spacing = SpacingDefault, ta_cursor_style = CursorBlock, ta_cursor_inactive_style = InactiveOutline,
       ta_cursor_blink = True\<rparr>,
     ap_selected_themes = \<lparr>tsel_light = lit ''soloist-default'', tsel_dark = lit ''soloist-default''\<rparr>,
     ap_custom_themes = [], ap_glass_opacity = GLASS_OPACITY_DEFAULT\<rparr>"

definition terminalFontPx :: "FontScale \<Rightarrow> nat" where "terminalFontPx scale = TERMINAL_FONT_PX scale"
definition interfaceRootFontPx :: "FontScale \<Rightarrow> rat" where "interfaceRootFontPx scale = ROOT_FONT_PX * INTERFACE_SCALE scale"
definition fontWeightValue :: "FontWeight \<Rightarrow> nat" where "fontWeightValue weight = FONT_WEIGHT_VALUE weight"
definition lineHeightValue :: "LineHeight \<Rightarrow> rat" where "lineHeightValue height = LINE_HEIGHT_VALUE height"
definition letterSpacingPx :: "LetterSpacing \<Rightarrow> rat" where "letterSpacingPx spacing = LETTER_SPACING_PX spacing"

text \<open>An empty family is no family.\<close>

definition terminalFontFamily :: "jstring option \<Rightarrow> jstring" where
  "terminalFontFamily family = (case family of
     Some (c # cs) \<Rightarrow> [34] @ (c # cs) @ [34] @ lit '', '' @ DEFAULT_MONO_STACK
   | _ \<Rightarrow> DEFAULT_MONO_STACK)"

subsection \<open>The hints\<close>

text \<open>Storage local to the webview: what it holds under each key, \<open>None\<close> where reaching it throws.\<close>

type_synonym local_storage = "(jstring \<Rightarrow> jstring option) option"

definition storage_set :: "jstring \<Rightarrow> jstring \<Rightarrow> local_storage \<Rightarrow> local_storage" where
  "storage_set key v s = map_option (\<lambda>m. m(key \<mapsto> v)) s"

definition THEME_HINT_KEY :: jstring where "THEME_HINT_KEY = lit ''soloist.theme-hint''"

fun theme_text :: "Theme \<Rightarrow> jstring" where
  "theme_text ThemeLight = lit ''light''"
| "theme_text ThemeDark = lit ''dark''"
| "theme_text ThemeSystem = lit ''system''"

definition readThemeHint :: "local_storage \<Rightarrow> Theme option" where
  "readThemeHint s = (case s of None \<Rightarrow> None | Some m \<Rightarrow>
     (case m THEME_HINT_KEY of None \<Rightarrow> None | Some v \<Rightarrow>
        if v = lit ''light'' then Some ThemeLight else if v = lit ''dark'' then Some ThemeDark
        else if v = lit ''system'' then Some ThemeSystem else None))"

definition writeThemeHint :: "Theme \<Rightarrow> local_storage \<Rightarrow> local_storage" where
  "writeThemeHint theme s = storage_set THEME_HINT_KEY (theme_text theme) s"

definition INTERFACE_SCALE_HINT_KEY :: jstring where "INTERFACE_SCALE_HINT_KEY = lit ''soloist.interface-scale-hint''"

fun scale_text :: "FontScale \<Rightarrow> jstring" where
  "scale_text ScaleExtraSmall = lit ''extra_small''"
| "scale_text ScaleSmall = lit ''small''"
| "scale_text ScaleMedium = lit ''medium''"
| "scale_text ScaleLarge = lit ''large''"
| "scale_text ScaleExtraLarge = lit ''extra_large''"

definition FONT_SCALE_ORDER :: "FontScale list" where
  "FONT_SCALE_ORDER = [ScaleExtraSmall, ScaleSmall, ScaleMedium, ScaleLarge, ScaleExtraLarge]"

definition readInterfaceScaleHint :: "local_storage \<Rightarrow> FontScale option" where
  "readInterfaceScaleHint s = (case s of None \<Rightarrow> None | Some m \<Rightarrow>
     (case m INTERFACE_SCALE_HINT_KEY of None \<Rightarrow> None | Some v \<Rightarrow>
        if v = [] then None else find (\<lambda>scale. scale_text scale = v) FONT_SCALE_ORDER))"

definition writeInterfaceScaleHint :: "FontScale \<Rightarrow> local_storage \<Rightarrow> local_storage" where
  "writeInterfaceScaleHint scale s = storage_set INTERFACE_SCALE_HINT_KEY (scale_text scale) s"

subsection \<open>Light and dark\<close>

definition applyDarkClass :: "bool \<Rightarrow> RootOp list" where
  "applyDarkClass dark = [AppendFreeze, ToggleDark dark, ReadComputedStyle, RemoveFreeze]"

fun resolveDark :: "Theme \<Rightarrow> bool \<Rightarrow> bool" where
  "resolveDark ThemeLight _ = False"
| "resolveDark ThemeDark _ = True"
| "resolveDark ThemeSystem systemPrefersDark = systemPrefersDark"

text \<open>The host's media query, \<open>None\<close> where \<open>matchMedia\<close> does not exist.\<close>

definition systemPrefersDark :: "bool option \<Rightarrow> bool" where
  "systemPrefersDark media = (case media of None \<Rightarrow> False | Some matches \<Rightarrow> matches)"

subsection \<open>The terminal's options\<close>

definition TERMINAL_MINIMUM_CONTRAST_RATIO :: rat where "TERMINAL_MINIMUM_CONTRAST_RATIO = 4.5"

record TerminalFixedOptions =
  tfo_minimumContrastRatio :: rat
  tfo_allowProposedApi :: bool
  tfo_overviewRulerWidth :: nat
  tfo_rightClickSelectsWord :: bool
  tfo_screenReaderMode :: bool

definition TERMINAL_FIXED_OPTIONS :: "bool \<Rightarrow> TerminalFixedOptions" where
  "TERMINAL_FIXED_OPTIONS e2e = \<lparr>tfo_minimumContrastRatio = TERMINAL_MINIMUM_CONTRAST_RATIO, tfo_allowProposedApi = True,
     tfo_overviewRulerWidth = TERMINAL_OVERVIEW_RULER_WIDTH, tfo_rightClickSelectsWord = True, tfo_screenReaderMode = e2e\<rparr>"

definition ANSI_COLOR_NAMES :: "TerminalRole list" where
  "ANSI_COLOR_NAMES = [TermBlack, TermRed, TermGreen, TermYellow, TermBlue, TermMagenta, TermCyan, TermWhite,
     TermBrightBlack, TermBrightRed, TermBrightGreen, TermBrightYellow, TermBrightBlue, TermBrightMagenta, TermBrightCyan,
     TermBrightWhite]"

definition TERMINAL_COLOR_ROLES :: "TerminalRole list" where
  "TERMINAL_COLOR_ROLES = [TermBackground, TermForeground, TermCursor, TermCursorAccent, TermSelectionBackground,
     TermSelectionInactiveBackground, TermScrollbarSliderBackground, TermScrollbarSliderHoverBackground,
     TermScrollbarSliderActiveBackground, TermOverviewRulerBorder] @ ANSI_COLOR_NAMES"

text \<open>The second argument is the boolean or the theme the caller passes.\<close>

definition applied :: "ThemeFile list \<Rightarrow> (AppliedTheme \<Rightarrow> jstring) \<Rightarrow> bool + AppliedTheme \<Rightarrow> AppliedTheme option" where
  "applied catalog stringify v = (case v of Inl dark \<Rightarrow> defaultAppliedTheme catalog stringify dark | Inr theme \<Rightarrow> Some theme)"

definition terminalColors ::
    "ThemeFile list \<Rightarrow> (AppliedTheme \<Rightarrow> jstring) \<Rightarrow> bool + AppliedTheme \<Rightarrow> (TerminalRole \<times> jstring) list option" where
  "terminalColors catalog stringify v =
     map_option (\<lambda>t. map (\<lambda>role. (role, at_terminal t role)) TERMINAL_COLOR_ROLES) (applied catalog stringify v)"

record SearchDecorationColors =
  sd_matchBackground :: jstring
  sd_matchBorder :: jstring
  sd_matchOverviewRuler :: jstring
  sd_activeMatchBackground :: jstring
  sd_activeMatchBorder :: jstring
  sd_activeMatchColorOverviewRuler :: jstring

definition searchDecorationColors ::
    "ThemeFile list \<Rightarrow> (AppliedTheme \<Rightarrow> jstring) \<Rightarrow> bool + AppliedTheme \<Rightarrow> SearchDecorationColors option" where
  "searchDecorationColors catalog stringify v = map_option (\<lambda>t.
     \<lparr>sd_matchBackground = at_terminal t TermSearchMatchBackground,
      sd_matchBorder = at_terminal t TermSearchMatchBorder,
      sd_matchOverviewRuler = at_terminal t TermSearchMatchOverviewRuler,
      sd_activeMatchBackground = at_terminal t TermSearchActiveMatchBackground,
      sd_activeMatchBorder = at_terminal t TermSearchActiveMatchBorder,
      sd_activeMatchColorOverviewRuler = at_terminal t TermSearchActiveMatchOverviewRuler\<rparr>) (applied catalog stringify v)"

fun space_capitals :: "jstring \<Rightarrow> jstring" where
  "space_capitals [] = []"
| "space_capitals (c # cs) = (if 65 \<le> c \<and> c \<le> 90 then 32 # c # space_capitals cs else c # space_capitals cs)"

definition ansiColorLabel :: "TerminalRole \<Rightarrow> jstring" where
  "ansiColorLabel name = (let spaced = map ascii_lower (space_capitals (lit (terminal_name name)))
     in ascii_upper (hd spaced) # tl spaced)"

record TerminalOptions =
  to_fontFamily :: jstring
  to_fontSize :: nat
  to_fontWeight :: nat
  to_fontWeightBold :: nat
  to_lineHeight :: rat
  to_letterSpacing :: rat
  to_cursorStyle :: CursorStyle
  to_cursorInactiveStyle :: CursorInactiveStyle
  to_cursorBlink :: bool
  to_theme :: "(TerminalRole \<times> jstring) list"

definition terminalOptions ::
    "ThemeFile list \<Rightarrow> (AppliedTheme \<Rightarrow> jstring) \<Rightarrow> Appearance \<Rightarrow> bool + AppliedTheme \<Rightarrow> TerminalOptions option" where
  "terminalOptions catalog stringify appearance theme =
     (let t = ap_terminal appearance in map_option (\<lambda>colors.
        \<lparr>to_fontFamily = terminalFontFamily (ta_font_family t), to_fontSize = terminalFontPx (ta_font_scale t),
         to_fontWeight = fontWeightValue (ta_font_weight t), to_fontWeightBold = fontWeightValue (ta_bold_font_weight t),
         to_lineHeight = lineHeightValue (ta_line_height t), to_letterSpacing = letterSpacingPx (ta_letter_spacing t),
         to_cursorStyle = ta_cursor_style t, to_cursorInactiveStyle = ta_cursor_inactive_style t,
         to_cursorBlink = ta_cursor_blink t, to_theme = colors\<rparr>) (terminalColors catalog stringify theme))"

subsection \<open>What the pickers offer\<close>

type_synonym 'a choices = "('a \<times> jstring) list"

definition THEME_OPTIONS :: "Theme choices" where
  "THEME_OPTIONS = [(ThemeLight, lit ''Light''), (ThemeDark, lit ''Dark''), (ThemeSystem, lit ''System'')]"

fun FONT_SCALE_LABEL :: "FontScale \<Rightarrow> jstring" where
  "FONT_SCALE_LABEL ScaleExtraSmall = lit ''Extra small''"
| "FONT_SCALE_LABEL ScaleSmall = lit ''Small''"
| "FONT_SCALE_LABEL ScaleMedium = lit ''Medium''"
| "FONT_SCALE_LABEL ScaleLarge = lit ''Large''"
| "FONT_SCALE_LABEL ScaleExtraLarge = lit ''Extra large''"

definition FONT_WEIGHT_OPTIONS :: "FontWeight choices" where
  "FONT_WEIGHT_OPTIONS = map (\<lambda>v. (v, show_nat (FONT_WEIGHT_VALUE v))) [W100, W200, W300, W400, W500, W600, W700, W800, W900]"

definition LINE_HEIGHT_OPTIONS :: "LineHeight choices" where
  "LINE_HEIGHT_OPTIONS = [(LineCompact, lit ''Compact''), (LineDefault, lit ''Default''),
     (LineComfortable, lit ''Comfortable''), (LineSpacious, lit ''Spacious'')]"

definition CURSOR_STYLE_OPTIONS :: "CursorStyle choices" where
  "CURSOR_STYLE_OPTIONS = [(CursorBlock, lit ''Block''), (CursorUnderline, lit ''Underline''), (CursorBar, lit ''Bar'')]"

definition CURSOR_INACTIVE_STYLE_OPTIONS :: "CursorInactiveStyle choices" where
  "CURSOR_INACTIVE_STYLE_OPTIONS = [(InactiveOutline, lit ''Outline''), (InactiveBlock, lit ''Block''),
     (InactiveUnderline, lit ''Underline''), (InactiveBar, lit ''Bar''), (InactiveNone, lit ''Hidden'')]"

definition LETTER_SPACING_OPTIONS :: "LetterSpacing choices" where
  "LETTER_SPACING_OPTIONS = [(SpacingTight, lit ''Tight''), (SpacingDefault, lit ''Default''),
     (SpacingWide, lit ''Wide''), (SpacingWider, lit ''Wider'')]"

definition MONO_FONT_OPTIONS :: "jstring option choices" where
  "MONO_FONT_OPTIONS = [(None, lit ''System default''), (Some (lit ''Ubuntu Mono''), lit ''Ubuntu Mono''),
     (Some (lit ''DejaVu Sans Mono''), lit ''DejaVu Sans Mono''), (Some (lit ''Liberation Mono''), lit ''Liberation Mono'')]"

definition monoFontOptions :: "jstring option \<Rightarrow> jstring option choices" where
  "monoFontOptions family = (case family of
     Some (c # cs) \<Rightarrow> if list_ex (\<lambda>option. fst option = family) MONO_FONT_OPTIONS then MONO_FONT_OPTIONS
       else MONO_FONT_OPTIONS @ [(family, c # cs)]
   | _ \<Rightarrow> MONO_FONT_OPTIONS)"

subsection \<open>Lemmas\<close>

definition offers_all :: "'a choices \<Rightarrow> bool" where
  "offers_all options \<longleftrightarrow> distinct (map fst options) \<and> distinct (map snd options) \<and> (\<forall>v. v \<in> fst ` set options)"

lemma pickers_offer_all:
  "offers_all THEME_OPTIONS" "offers_all LINE_HEIGHT_OPTIONS" "offers_all CURSOR_STYLE_OPTIONS"
  "offers_all CURSOR_INACTIVE_STYLE_OPTIONS" "offers_all LETTER_SPACING_OPTIONS" "offers_all FONT_WEIGHT_OPTIONS"
proof -
  have t: "v \<in> {ThemeLight, ThemeDark, ThemeSystem}" for v by (cases v) auto
  have l: "v \<in> {LineCompact, LineDefault, LineComfortable, LineSpacious}" for v by (cases v) auto
  have c: "v \<in> {CursorBlock, CursorUnderline, CursorBar}" for v by (cases v) auto
  have i: "v \<in> {InactiveOutline, InactiveBlock, InactiveUnderline, InactiveBar, InactiveNone}" for v by (cases v) auto
  have s: "v \<in> {SpacingTight, SpacingDefault, SpacingWide, SpacingWider}" for v by (cases v) auto
  have w: "v \<in> {W100, W200, W300, W400, W500, W600, W700, W800, W900}" for v by (cases v) auto
  show "offers_all THEME_OPTIONS" using t by (auto simp: offers_all_def THEME_OPTIONS_def)
  show "offers_all LINE_HEIGHT_OPTIONS" using l by (auto simp: offers_all_def LINE_HEIGHT_OPTIONS_def)
  show "offers_all CURSOR_STYLE_OPTIONS" using c by (auto simp: offers_all_def CURSOR_STYLE_OPTIONS_def)
  show "offers_all CURSOR_INACTIVE_STYLE_OPTIONS" using i by (auto simp: offers_all_def CURSOR_INACTIVE_STYLE_OPTIONS_def)
  show "offers_all LETTER_SPACING_OPTIONS" using s by (auto simp: offers_all_def LETTER_SPACING_OPTIONS_def)
  show "offers_all FONT_WEIGHT_OPTIONS" using w by (auto simp: offers_all_def FONT_WEIGHT_OPTIONS_def)
qed

lemma scales_ordered:
  "sorted_wrt (<) (map TERMINAL_FONT_PX FONT_SCALE_ORDER)" "sorted_wrt (<) (map INTERFACE_SCALE FONT_SCALE_ORDER)"
  "scale \<in> set FONT_SCALE_ORDER"
  by (simp_all add: FONT_SCALE_ORDER_def) (cases scale; simp)

lemma resolve_dark_agrees: "resolveDark theme dark = (resolvedAppearance theme dark = AppDark)"
  by (cases theme) (simp_all add: resolvedAppearance_def)

lemma theme_hint_back: "s \<noteq> None \<Longrightarrow> readThemeHint (writeThemeHint theme s) = Some theme"
  by (cases theme) (auto simp: readThemeHint_def writeThemeHint_def storage_set_def)

lemma scale_text_inj [simp]: "scale_text a = scale_text b \<longleftrightarrow> a = b"
  by (cases a; cases b) simp_all

lemma scale_text_nonempty [simp]: "scale_text a \<noteq> []"
  by (cases a) (simp_all add: lit_def)

lemma lit_eq_Nil [simp]: "lit s = [] \<longleftrightarrow> s = []"
  by (simp add: lit_def)

lemma scale_hint_back: "s \<noteq> None \<Longrightarrow> readInterfaceScaleHint (writeInterfaceScaleHint scale s) = Some scale"
  by (cases scale) (auto simp: readInterfaceScaleHint_def writeInterfaceScaleHint_def storage_set_def FONT_SCALE_ORDER_def)

lemma hints_apart:
  "readThemeHint (writeInterfaceScaleHint scale s) = readThemeHint s"
  "readInterfaceScaleHint (writeThemeHint theme s) = readInterfaceScaleHint s"
  by (cases s; simp add: readThemeHint_def writeInterfaceScaleHint_def readInterfaceScaleHint_def writeThemeHint_def
      storage_set_def THEME_HINT_KEY_def INTERFACE_SCALE_HINT_KEY_def)+

lemma mono_font_offered:
  "prefix MONO_FONT_OPTIONS (monoFontOptions family)"
  "(family', label) \<in> set (monoFontOptions family) \<Longrightarrow> family' \<noteq> Some []"
  "distinct (map fst (monoFontOptions family))"
  "family \<noteq> Some [] \<Longrightarrow> family \<in> fst ` set (monoFontOptions family)"
  by (auto simp: monoFontOptions_def MONO_FONT_OPTIONS_def lit_def list_ex_iff split: option.splits list.splits if_splits)

lemma applied_total:
  "\<exists>t. applied BUILT_IN_FILES stringify v = Some t \<and> (case v of Inl dark \<Rightarrow> complete_theme t \<and> at_appearance t = (if dark then AppDark else AppLight)
     | Inr theme \<Rightarrow> t = theme)"
proof (cases v)
  case (Inl dark)
  let ?ap = "\<lparr>ap_theme = (if dark then ThemeDark else ThemeLight), ap_interface_font_scale = ScaleMedium,
    ap_terminal = default_terminal_appearance, ap_selected_themes = \<lparr>tsel_light = DEFAULT_THEME_ID, tsel_dark = DEFAULT_THEME_ID\<rparr>,
    ap_custom_themes = [], ap_glass_opacity = GLASS_OPACITY_DEFAULT\<rparr>"
  have r: "(if dark then AppDark else AppLight) = resolvedAppearance (ap_theme ?ap) dark" by (simp add: resolvedAppearance_def)
  have none: "list_all theme_ok []" by simp
  have themes: "themeDefinitions BUILT_IN_FILES [] = BUILT_IN_THEMES BUILT_IN_FILES" by (simp add: themeDefinitions_def)
  from resolve_complete [OF built_in_default built_in_ok none r, of stringify] show ?thesis
    unfolding themes by (auto simp: Inl applied_def defaultAppliedTheme_def returns_def)
qed (simp add: applied_def)

lemma ansi_labels_distinct: "distinct (map ansiColorLabel ANSI_COLOR_NAMES)"
  by code_simp

end
