(* ===== verification/AppearanceStore.thy ===== *)
theory AppearanceStore
  imports AppearanceTables
begin

section \<open>The appearance store\<close>

text \<open>
  \<open>store/AppearanceProvider.tsx\<close> and \<open>store/useThemeLibrary.ts\<close>: the document the client holds, the patch a save
  carries through the mutation queue, the theme the page paints, and the commands on the theme library. The
  queue itself is in theory MutationQueue. An object the source compares with \<open>!==\<close> has an identity here. The core's commands are a
  parameter, a state transformer that answers a document or a rejection.
\<close>

subsection \<open>The document and its identity\<close>

datatype 'a obj = Obj (obj_id: nat) (obj_val: 'a)

record AppearanceDoc =
  doc_theme :: Theme
  doc_interface_font_scale :: FontScale
  doc_terminal :: "TerminalAppearance obj"
  doc_selected_themes :: "ThemeSelection obj"
  doc_custom_themes :: "ThemeFile list obj"
  doc_glass_opacity :: int

text \<open>
  A document as it arrives: any member may be missing. Its terminal section is what spreading it over
  another one does, the identity where it is missing.
\<close>

record StoredDoc =
  st_theme :: "Theme option"
  st_interface_font_scale :: "FontScale option"
  st_terminal :: "TerminalAppearance \<Rightarrow> TerminalAppearance"
  st_selected_themes :: "ThemeSelection obj option"
  st_custom_themes :: "ThemeFile list obj option"
  st_glass_opacity :: "int option"

definition or_else :: "'a option \<Rightarrow> 'a \<Rightarrow> 'a" where
  "or_else v d = (case v of Some x \<Rightarrow> x | None \<Rightarrow> d)"

text \<open>\<open>fresh\<close> and \<open>fresh + 1\<close> name the objects the call creates; 0 names the default selection.\<close>

definition normalizedAppearance :: "nat \<Rightarrow> StoredDoc \<Rightarrow> AppearanceDoc" where
  "normalizedAppearance fresh v =
     \<lparr>doc_theme = or_else (st_theme v) (ap_theme DEFAULT_APPEARANCE),
      doc_interface_font_scale = or_else (st_interface_font_scale v) (ap_interface_font_scale DEFAULT_APPEARANCE),
      doc_terminal = Obj fresh (st_terminal v (ap_terminal DEFAULT_APPEARANCE)),
      doc_selected_themes = or_else (st_selected_themes v) (Obj 0 (ap_selected_themes DEFAULT_APPEARANCE)),
      doc_custom_themes = or_else (st_custom_themes v) (Obj (fresh + 1) []),
      doc_glass_opacity = or_else (st_glass_opacity v) GLASS_OPACITY_DEFAULT\<rparr>"

definition whole :: "AppearanceDoc \<Rightarrow> StoredDoc" where
  "whole d = \<lparr>st_theme = Some (doc_theme d), st_interface_font_scale = Some (doc_interface_font_scale d),
     st_terminal = (\<lambda>_. obj_val (doc_terminal d)), st_selected_themes = Some (doc_selected_themes d),
     st_custom_themes = Some (doc_custom_themes d), st_glass_opacity = Some (doc_glass_opacity d)\<rparr>"

text \<open>\<open>{...latest, ...patch}\<close>: the members the patch holds, over the latest document.\<close>

definition appearanceProjection :: "AppearanceDoc \<Rightarrow> AppearanceDoc \<Rightarrow> nat \<Rightarrow> AppearanceDoc \<Rightarrow> AppearanceDoc" where
  "appearanceProjection current next' fresh latest = normalizedAppearance fresh (whole (latest
     \<lparr>doc_theme := (if doc_theme current \<noteq> doc_theme next' then doc_theme next' else doc_theme latest),
      doc_selected_themes := (if obj_id (doc_selected_themes current) \<noteq> obj_id (doc_selected_themes next')
        then doc_selected_themes next' else doc_selected_themes latest),
      doc_custom_themes := (if obj_id (doc_custom_themes current) \<noteq> obj_id (doc_custom_themes next')
        then doc_custom_themes next' else doc_custom_themes latest),
      doc_glass_opacity := (if doc_glass_opacity current \<noteq> doc_glass_opacity next'
        then doc_glass_opacity next' else doc_glass_opacity latest),
      doc_interface_font_scale := (if doc_interface_font_scale current \<noteq> doc_interface_font_scale next'
        then doc_interface_font_scale next' else doc_interface_font_scale latest),
      doc_terminal := (if obj_id (doc_terminal current) \<noteq> obj_id (doc_terminal next')
        then doc_terminal next' else doc_terminal latest)\<rparr>))"

text \<open>\<open>saveAsync\<close>: the projection handed to the queue for a document \<open>next\<close>.\<close>

definition save_projection :: "AppearanceDoc \<Rightarrow> nat \<Rightarrow> StoredDoc \<Rightarrow> nat \<Rightarrow> AppearanceDoc \<Rightarrow> AppearanceDoc" where
  "save_projection appearance fresh v fresh' = appearanceProjection appearance (normalizedAppearance fresh v) fresh'"

text \<open>The values of a document, without the identities.\<close>

definition doc_value :: "AppearanceDoc \<Rightarrow> Appearance" where
  "doc_value d = \<lparr>ap_theme = doc_theme d, ap_interface_font_scale = doc_interface_font_scale d,
     ap_terminal = obj_val (doc_terminal d), ap_selected_themes = obj_val (doc_selected_themes d),
     ap_custom_themes = obj_val (doc_custom_themes d), ap_glass_opacity = doc_glass_opacity d\<rparr>"

lemma normalized_whole: "doc_value (normalizedAppearance fresh (whole d)) = doc_value d"
  by (simp add: normalizedAppearance_def whole_def or_else_def doc_value_def)

lemma normalized_defaults: "doc_value (normalizedAppearance fresh \<lparr>st_theme = None, st_interface_font_scale = None,
    st_terminal = (\<lambda>t. t), st_selected_themes = None, st_custom_themes = None, st_glass_opacity = None\<rparr>) = DEFAULT_APPEARANCE"
  by (simp add: normalizedAppearance_def or_else_def doc_value_def DEFAULT_APPEARANCE_def)

subsection \<open>What the page paints\<close>

record ProviderView =
  pv_appearance :: Appearance
  pv_system_dark :: bool
  pv_loaded :: bool
  pv_prepaint :: "AppliedTheme option"
  pv_draft :: "ThemeFile option"

definition initial_appearance :: "local_storage \<Rightarrow> Appearance" where
  "initial_appearance s = DEFAULT_APPEARANCE\<lparr>ap_theme := or_else (readThemeHint s) (ap_theme DEFAULT_APPEARANCE),
     ap_interface_font_scale := or_else (readInterfaceScaleHint s) (ap_interface_font_scale DEFAULT_APPEARANCE)\<rparr>"

definition adopt_hints :: "Appearance \<Rightarrow> local_storage \<Rightarrow> local_storage" where
  "adopt_hints next' s = writeInterfaceScaleHint (ap_interface_font_scale next') (writeThemeHint (ap_theme next') s)"

definition adopt :: "ProviderView \<times> local_storage \<Rightarrow> Appearance \<Rightarrow> ProviderView \<times> local_storage" where
  "adopt vs v = (case vs of (view, s) \<Rightarrow> (view\<lparr>pv_appearance := v\<rparr>, adopt_hints v s))"

definition on_load :: "ProviderView \<times> local_storage \<Rightarrow> Appearance \<Rightarrow> ProviderView \<times> local_storage" where
  "on_load vs v = (case adopt vs v of (view, s) \<Rightarrow> (view\<lparr>pv_loaded := True\<rparr>, s))"

definition draftApplied :: "(AppliedTheme \<Rightarrow> jstring) \<Rightarrow> ProviderView \<Rightarrow> AppliedTheme option option" where
  "draftApplied stringify view = (case pv_draft view of None \<Rightarrow> Some None
     | Some draft \<Rightarrow> appliedThemeFromFile stringify draft (tf_appearance draft) (ap_glass_opacity (pv_appearance view)))"

definition provider_theme :: "ThemeFile list \<Rightarrow> (AppliedTheme \<Rightarrow> jstring) \<Rightarrow> ProviderView \<Rightarrow> AppliedTheme option" where
  "provider_theme catalog stringify view =
     do { resolved \<leftarrow> resolveAppliedTheme catalog stringify (pv_appearance view)
            (themeDefinitions catalog (ap_custom_themes (pv_appearance view))) (pv_system_dark view);
          draft \<leftarrow> draftApplied stringify view;
          Some (case draft of Some t \<Rightarrow> t
            | None \<Rightarrow> (case pv_prepaint view of
                Some hint \<Rightarrow> if \<not> pv_loaded view then hint else resolved | None \<Rightarrow> resolved)) }"

lemma hints_of_adopted:
  assumes "s \<noteq> None"
  shows "ap_theme (initial_appearance (adopt_hints v s)) = ap_theme v"
    and "ap_interface_font_scale (initial_appearance (adopt_hints v s)) = ap_interface_font_scale v"
proof -
  have s': "writeThemeHint (ap_theme v) s \<noteq> None" using assms by (auto simp: writeThemeHint_def storage_set_def)
  show "ap_theme (initial_appearance (adopt_hints v s)) = ap_theme v"
    by (simp add: initial_appearance_def adopt_hints_def or_else_def hints_apart theme_hint_back [OF assms])
  show "ap_interface_font_scale (initial_appearance (adopt_hints v s)) = ap_interface_font_scale v"
    by (simp add: initial_appearance_def adopt_hints_def or_else_def scale_hint_back [OF s'])
qed

subsection \<open>The theme library\<close>

datatype ThemeCommand = SelectStoredTheme ThemeAppearance jstring | StoreGlassOpacity int | CreateTheme ThemeFile
  | UpdateTheme ThemeFile | RemoveTheme jstring | DuplicateStoredTheme jstring | ImportTheme jstring ThemeConflictPolicy

datatype ThemeError = StoredNotReturned jstring | ThemeNotFound jstring | DuplicateNotReturned | ImportedNotReturned
  | NoDraftActive | ImportConflict ThemeDefinition ThemeFile | Rejection jstring

text \<open>
  The core behind the commands: a command answers the stored document or rejects with a text, inspecting a
  file answers the theme it holds, and the reconciling read after a rejection may fail.
\<close>

record 's ThemeCore =
  tc_run :: "ThemeCommand \<Rightarrow> 's \<Rightarrow> (jstring + Appearance) \<times> 's"
  tc_inspect :: "jstring \<Rightarrow> 's \<Rightarrow> jstring + ThemeFile"
  tc_read :: "'s \<Rightarrow> Appearance option"

text \<open>The library's own state: \<open>appearanceRef.current\<close>, the draft, and the core behind it.\<close>

record 's ThemeLibrary =
  tl_ref :: Appearance
  tl_draft :: "ThemeFile option"
  tl_core :: 's

definition runCommand :: "'s ThemeCore \<Rightarrow> ThemeCommand \<Rightarrow> 's ThemeLibrary \<Rightarrow> (ThemeError + Appearance) \<times> 's ThemeLibrary" where
  "runCommand core command lib = (case tc_run core command (tl_core lib) of
     (Inr stored, s) \<Rightarrow> (Inr stored, lib\<lparr>tl_ref := stored, tl_core := s\<rparr>)
   | (Inl error, s) \<Rightarrow> (Inl (Rejection error), lib\<lparr>tl_ref := or_else (tc_read core s) (tl_ref lib), tl_core := s\<rparr>))"

definition plainTheme :: "('a ThemeFile_scheme) \<Rightarrow> ThemeFile" where "plainTheme = ThemeFile.truncate"

definition installedTheme :: "Appearance \<Rightarrow> jstring \<Rightarrow> ThemeError + ThemeFile" where
  "installedTheme appearance themeId = (case find (\<lambda>t. tf_id t = themeId) (ap_custom_themes appearance) of
     Some theme \<Rightarrow> Inr theme | None \<Rightarrow> Inl (StoredNotReturned themeId))"

datatype ThemeSelectionTarget = TargetOne ThemeAppearance | TargetBoth

fun select_each :: "'s ThemeCore \<Rightarrow> jstring \<Rightarrow> ThemeAppearance list \<Rightarrow> 's ThemeLibrary \<Rightarrow> (ThemeError + unit) \<times> 's ThemeLibrary" where
  "select_each core themeId [] lib = (Inr (), lib)"
| "select_each core themeId (a # rest) lib = (case runCommand core (SelectStoredTheme a themeId) lib of
     (Inl e, lib') \<Rightarrow> (Inl e, lib') | (Inr _, lib') \<Rightarrow> select_each core themeId rest lib')"

definition selected_targets :: "ThemeDefinition \<Rightarrow> ThemeSelectionTarget option \<Rightarrow> ThemeAppearance list" where
  "selected_targets definition target =
     (let requested = (case target of Some t \<Rightarrow> t | None \<Rightarrow> TargetOne (tf_appearance definition))
      in filter (\<lambda>a. (requested = TargetBoth \<or> requested = TargetOne a) \<and> themeSupportsAppearance definition a)
           [AppLight, AppDark])"

definition selectTheme :: "ThemeFile list \<Rightarrow> 's ThemeCore \<Rightarrow> jstring \<Rightarrow> ThemeSelectionTarget option \<Rightarrow> 's ThemeLibrary
    \<Rightarrow> (ThemeError + unit) \<times> 's ThemeLibrary" where
  "selectTheme catalog core themeId target lib =
     (case find (\<lambda>t. tf_id t = themeId) (themeDefinitions catalog (ap_custom_themes (tl_ref lib))) of
        None \<Rightarrow> (Inl (ThemeNotFound themeId), lib)
      | Some definition \<Rightarrow> select_each core themeId (selected_targets definition target) lib)"

definition setGlassOpacity :: "'s ThemeCore \<Rightarrow> int \<Rightarrow> 's ThemeLibrary \<Rightarrow> (ThemeError + Appearance) \<times> 's ThemeLibrary" where
  "setGlassOpacity core opacity lib = runCommand core (StoreGlassOpacity opacity) lib"

definition resetGlassOpacity :: "'s ThemeCore \<Rightarrow> 's ThemeLibrary \<Rightarrow> (ThemeError + Appearance) \<times> 's ThemeLibrary" where
  "resetGlassOpacity core lib = setGlassOpacity core GLASS_OPACITY_DEFAULT lib"

definition serializeTheme :: "(ThemeFile \<Rightarrow> jstring) \<Rightarrow> ThemeFile \<Rightarrow> jstring" where
  "serializeTheme stringify theme = stringify theme @ [10]"

text \<open>\<open>draft_stringify\<close> is the same of the object without its id.\<close>

definition serializeNewTheme :: "(ThemeFile \<Rightarrow> jstring) \<Rightarrow> ThemeFile \<Rightarrow> jstring" where
  "serializeNewTheme draft_stringify theme = draft_stringify theme @ [10]"

definition createCustomTheme :: "(ThemeFile \<Rightarrow> jstring) \<Rightarrow> (ThemeFile \<Rightarrow> jstring) \<Rightarrow> 's ThemeCore \<Rightarrow> ThemeFile \<Rightarrow> 's ThemeLibrary
    \<Rightarrow> (ThemeError + ThemeFile) \<times> 's ThemeLibrary" where
  "createCustomTheme stringify draft_stringify core theme lib =
     (case tc_inspect core (if tf_id theme = THEME_DRAFT_ID then serializeNewTheme draft_stringify (plainTheme theme)
          else serializeTheme stringify (plainTheme theme)) (tl_core lib) of
        Inl e \<Rightarrow> (Inl (Rejection e), lib)
      | Inr file \<Rightarrow> (case runCommand core (CreateTheme file) lib of
          (Inl e, lib') \<Rightarrow> (Inl e, lib')
        | (Inr stored, lib') \<Rightarrow> (installedTheme stored (tf_id file), lib')))"

definition updateCustomTheme :: "'s ThemeCore \<Rightarrow> ThemeFile \<Rightarrow> 's ThemeLibrary \<Rightarrow> (ThemeError + ThemeFile) \<times> 's ThemeLibrary" where
  "updateCustomTheme core theme lib = (let file = plainTheme theme in
     case runCommand core (UpdateTheme file) lib of
       (Inl e, lib') \<Rightarrow> (Inl e, lib')
     | (Inr stored, lib') \<Rightarrow> (installedTheme stored (tf_id file), lib'))"

definition removeCustomTheme :: "'s ThemeCore \<Rightarrow> jstring \<Rightarrow> 's ThemeLibrary \<Rightarrow> (ThemeError + Appearance) \<times> 's ThemeLibrary" where
  "removeCustomTheme core themeId lib = runCommand core (RemoveTheme themeId) lib"

definition custom_ids :: "Appearance \<Rightarrow> jstring set" where
  "custom_ids appearance = set (map tf_id (ap_custom_themes appearance))"

definition newly_stored :: "Appearance \<Rightarrow> Appearance \<Rightarrow> ThemeFile option" where
  "newly_stored before stored = find (\<lambda>t. tf_id t \<notin> custom_ids before) (ap_custom_themes stored)"

definition duplicateTheme :: "'s ThemeCore \<Rightarrow> jstring \<Rightarrow> 's ThemeLibrary \<Rightarrow> (ThemeError + ThemeFile) \<times> 's ThemeLibrary" where
  "duplicateTheme core themeId lib = (case runCommand core (DuplicateStoredTheme themeId) lib of
     (Inl e, lib') \<Rightarrow> (Inl e, lib')
   | (Inr stored, lib') \<Rightarrow> (case newly_stored (tl_ref lib) stored of
       Some duplicate \<Rightarrow> (Inr duplicate, lib') | None \<Rightarrow> (Inl DuplicateNotReturned, lib')))"

text \<open>The conflict policy of the dialog; the core's \<open>reject\<close> is the dialog's \<open>error\<close>.\<close>

definition importThemeJson :: "ThemeFile list \<Rightarrow> 's ThemeCore \<Rightarrow> jstring \<Rightarrow> ThemeConflictPolicy \<Rightarrow> 's ThemeLibrary
    \<Rightarrow> (ThemeError + ThemeFile) \<times> 's ThemeLibrary" where
  "importThemeJson catalog core json conflict lib = (case tc_inspect core json (tl_core lib) of
     Inl e \<Rightarrow> (Inl (Rejection e), lib)
   | Inr incoming \<Rightarrow> (case runCommand core (ImportTheme json conflict) lib of
       (Inl e, lib') \<Rightarrow>
         (case find (\<lambda>t. tf_id t = tf_id incoming) (themeDefinitions catalog (ap_custom_themes (tl_ref lib'))) of
            Some existing \<Rightarrow> if conflict = ConflictReject then (Inl (ImportConflict existing incoming), lib') else (Inl e, lib')
          | None \<Rightarrow> (Inl e, lib'))
     | (Inr stored, lib') \<Rightarrow>
         (case (if conflict = ConflictKeepBoth then newly_stored (tl_ref lib) stored
                else find (\<lambda>t. tf_id t = tf_id incoming) (ap_custom_themes stored)) of
            Some installed \<Rightarrow> (Inr installed, lib') | None \<Rightarrow> (Inl ImportedNotReturned, lib'))))"

definition serializeThemeById :: "ThemeFile list \<Rightarrow> (ThemeFile \<Rightarrow> jstring) \<Rightarrow> jstring \<Rightarrow> 's ThemeLibrary \<Rightarrow> ThemeError + jstring" where
  "serializeThemeById catalog stringify themeId lib =
     (case find (\<lambda>t. tf_id t = themeId) (themeDefinitions catalog (ap_custom_themes (tl_ref lib))) of
        None \<Rightarrow> Inl (ThemeNotFound themeId) | Some theme \<Rightarrow> Inr (serializeTheme stringify (plainTheme theme)))"

definition beginThemeDraft :: "('a ThemeFile_scheme) \<Rightarrow> 's ThemeLibrary \<Rightarrow> 's ThemeLibrary" where
  "beginThemeDraft theme lib = lib\<lparr>tl_draft := Some (plainTheme theme)\<rparr>"

definition updateThemeDraft :: "('a ThemeFile_scheme) \<Rightarrow> 's ThemeLibrary \<Rightarrow> 's ThemeLibrary" where
  "updateThemeDraft theme lib = lib\<lparr>tl_draft := Some (plainTheme theme)\<rparr>"

definition cancelThemeDraft :: "'s ThemeLibrary \<Rightarrow> 's ThemeLibrary" where
  "cancelThemeDraft lib = lib\<lparr>tl_draft := None\<rparr>"

definition commitThemeDraft :: "(ThemeFile \<Rightarrow> jstring) \<Rightarrow> (ThemeFile \<Rightarrow> jstring) \<Rightarrow> 's ThemeCore \<Rightarrow> ThemeFile option
    \<Rightarrow> 's ThemeLibrary \<Rightarrow> (ThemeError + ThemeFile) \<times> 's ThemeLibrary" where
  "commitThemeDraft stringify draft_stringify core provided lib =
     (case (case provided of Some theme \<Rightarrow> Some (plainTheme theme) | None \<Rightarrow> tl_draft lib) of
        None \<Rightarrow> (Inl NoDraftActive, lib)
      | Some draft \<Rightarrow>
          (case (if list_ex (\<lambda>t. tf_id t = tf_id draft) (ap_custom_themes (tl_ref lib))
                 then updateCustomTheme core draft lib
                 else createCustomTheme stringify draft_stringify core draft lib) of
             (Inl e, lib') \<Rightarrow> (Inl e, lib')
           | (Inr saved, lib') \<Rightarrow> (Inr saved, lib'\<lparr>tl_draft := None\<rparr>)))"

subsection \<open>What the library answers\<close>

lemma run_cases [consumes 0, case_names rejected stored]:
  obtains (rejected) e l where "runCommand core c lib = (Inl (Rejection e), l)" "tl_draft l = tl_draft lib"
  | (stored) d l where "runCommand core c lib = (Inr d, l)" "tl_ref l = d" "tl_draft l = tl_draft lib"
proof (cases "tc_run core c (tl_core lib)")
  case (Pair r s)
  show thesis
  proof (cases r)
    case (Inl e)
    then show thesis by (intro that(1) [of e "lib\<lparr>tl_ref := or_else (tc_read core s) (tl_ref lib), tl_core := s\<rparr>"]) (simp_all add: runCommand_def Pair)
  next
    case (Inr d)
    then show thesis by (intro that(2) [of d "lib\<lparr>tl_ref := d, tl_core := s\<rparr>"]) (simp_all add: runCommand_def Pair)
  qed
qed

lemma installed_ref: "installedTheme a i = Inr t \<Longrightarrow> t \<in> set (ap_custom_themes a) \<and> tf_id t = i"
  by (auto simp: installedTheme_def find_Some_iff split: option.splits dest: nth_mem)

lemma newly_stored_new: "newly_stored before stored = Some t \<Longrightarrow> t \<in> set (ap_custom_themes stored) \<and> tf_id t \<notin> custom_ids before"
  by (auto simp: newly_stored_def find_Some_iff dest: nth_mem)

lemma duplicate_answer:
  assumes "duplicateTheme core i lib = (Inr t, lib')"
  shows "t \<in> set (ap_custom_themes (tl_ref lib')) \<and> tf_id t \<notin> custom_ids (tl_ref lib)"
proof (cases rule: run_cases [of core "DuplicateStoredTheme i" lib])
  case (stored d l)
  then show ?thesis using assms newly_stored_new [of "tl_ref lib" d]
    by (auto simp: duplicateTheme_def split: option.splits)
qed (use assms in \<open>simp add: duplicateTheme_def\<close>)

lemma import_answer:
  assumes "importThemeJson catalog core json conflict lib = (Inr t, lib')"
  shows "t \<in> set (ap_custom_themes (tl_ref lib'))
    \<and> (if conflict = ConflictKeepBoth then tf_id t \<notin> custom_ids (tl_ref lib)
       else \<exists>incoming. tc_inspect core json (tl_core lib) = Inr incoming \<and> tf_id t = tf_id incoming)"
proof (cases "tc_inspect core json (tl_core lib)")
  case (Inr incoming)
  show ?thesis
  proof (cases rule: run_cases [of core "ImportTheme json conflict" lib])
    case (stored d l)
    then show ?thesis using assms Inr newly_stored_new [of "tl_ref lib" d] found_in [of "\<lambda>t. tf_id t = tf_id incoming"]
      by (auto simp: importThemeJson_def split: option.splits if_splits)
  qed (use assms Inr in \<open>auto simp: importThemeJson_def split: option.splits if_splits\<close>)
qed (use assms in \<open>simp add: importThemeJson_def\<close>)

lemma import_conflict:
  assumes "importThemeJson catalog core json conflict lib = (Inl (ImportConflict existing incoming), lib')"
  shows "conflict = ConflictReject \<and> existing \<in> set (themeDefinitions catalog (ap_custom_themes (tl_ref lib')))
    \<and> tf_id existing = tf_id incoming"
proof (cases "tc_inspect core json (tl_core lib)")
  case (Inr incoming')
  show ?thesis
  proof (cases rule: run_cases [of core "ImportTheme json conflict" lib])
    case (rejected e l)
    then show ?thesis
      using assms Inr found_in [of "\<lambda>t. tf_id t = tf_id incoming'" "themeDefinitions catalog (ap_custom_themes (tl_ref l))"]
      by (auto simp: importThemeJson_def split: option.splits if_splits)
  qed (use assms Inr in \<open>auto simp: importThemeJson_def split: option.splits if_splits\<close>)
qed (use assms in \<open>simp add: importThemeJson_def\<close>)

definition draft_kept :: "'s ThemeLibrary \<Rightarrow> (ThemeError + ThemeFile) \<times> 's ThemeLibrary \<Rightarrow> bool" where
  "draft_kept lib rl = (case rl of (Inr saved, l) \<Rightarrow> saved \<in> set (ap_custom_themes (tl_ref l))
     | (Inl _, l) \<Rightarrow> tl_draft l = tl_draft lib)"

lemma update_keeps: "draft_kept lib (updateCustomTheme core theme lib)"
proof (cases rule: run_cases [of core "UpdateTheme (plainTheme theme)" lib])
  case (stored d l)
  then show ?thesis using installed_ref [of d]
    by (auto simp: updateCustomTheme_def draft_kept_def Let_def split: sum.splits)
qed (simp add: updateCustomTheme_def draft_kept_def Let_def)

lemma create_keeps: "draft_kept lib (createCustomTheme stringify draft_stringify core theme lib)"
proof (cases "tc_inspect core (if tf_id theme = THEME_DRAFT_ID then serializeNewTheme draft_stringify (plainTheme theme)
    else serializeTheme stringify (plainTheme theme)) (tl_core lib)")
  case (Inr parsed)
  note inspected = this
  show ?thesis
  proof (cases rule: run_cases [of core "CreateTheme parsed" lib])
    case (stored d l)
    then show ?thesis unfolding createCustomTheme_def inspected using installed_ref [of d]
      by (auto simp: draft_kept_def split: sum.splits)
  qed (unfold createCustomTheme_def inspected, simp add: draft_kept_def)
qed (unfold createCustomTheme_def, simp add: draft_kept_def)

lemma commit_answer:
  assumes "commitThemeDraft stringify draft_stringify core provided lib = (r, lib')"
  shows "case r of Inr saved \<Rightarrow> tl_draft lib' = None \<and> saved \<in> set (ap_custom_themes (tl_ref lib'))
    | Inl _ \<Rightarrow> tl_draft lib' = tl_draft lib"
proof (cases "case provided of Some theme \<Rightarrow> Some (plainTheme theme) | None \<Rightarrow> tl_draft lib")
  case None
  then show ?thesis using assms by (auto simp: commitThemeDraft_def)
next
  case (Some draft)
  let ?rl = "if list_ex (\<lambda>t. tf_id t = tf_id draft) (ap_custom_themes (tl_ref lib))
    then updateCustomTheme core draft lib else createCustomTheme stringify draft_stringify core draft lib"
  have "draft_kept lib ?rl" by (simp add: update_keeps create_keeps)
  then show ?thesis using assms unfolding commitThemeDraft_def Some
    by (cases ?rl; cases "fst ?rl") (auto simp: draft_kept_def)
qed

text \<open>Selecting runs one command for each palette asked for that the theme has, light before dark.\<close>

fun runs_all :: "'s ThemeCore \<Rightarrow> ThemeCommand list \<Rightarrow> 's ThemeLibrary \<Rightarrow> 's ThemeLibrary \<Rightarrow> bool" where
  "runs_all core [] lib lib' = (lib' = lib)"
| "runs_all core (c # cs) lib lib' = (case runCommand core c lib of (Inl _, _) \<Rightarrow> False | (Inr _, l) \<Rightarrow> runs_all core cs l lib')"

lemma select_each_runs:
  "select_each core i as lib = (Inr (), lib') \<Longrightarrow> runs_all core (map (\<lambda>a. SelectStoredTheme a i) as) lib lib'"
proof (induction as arbitrary: lib)
  case (Cons a as)
  show ?case
    by (cases rule: run_cases [of core "SelectStoredTheme a i" lib]) (use Cons in auto)
qed simp

subsection \<open>The properties\<close>

text \<open>
  A save made from the document on screen carries only what it changed: for the theme mode, the
  glass opacity, the interface scale, the selection and the library, the document it is finally
  applied to keeps its own value of every member the save left alone. The terminal section is
  always overwritten by the one the save was made from, since normalizing a document creates
  that object anew.
\<close>

theorem save_carries_changes:
  assumes "fresh \<noteq> obj_id (doc_terminal current)"
  shows "let r = doc_value (save_projection current fresh (whole d) fresh' latest) in
      ap_theme r = (if doc_theme d = doc_theme current then doc_theme latest else doc_theme d)
    \<and> ap_glass_opacity r = (if doc_glass_opacity d = doc_glass_opacity current then doc_glass_opacity latest else doc_glass_opacity d)
    \<and> ap_interface_font_scale r
        = (if doc_interface_font_scale d = doc_interface_font_scale current then doc_interface_font_scale latest else doc_interface_font_scale d)
    \<and> ap_selected_themes r = obj_val (if obj_id (doc_selected_themes d) = obj_id (doc_selected_themes current)
        then doc_selected_themes latest else doc_selected_themes d)
    \<and> ap_custom_themes r = obj_val (if obj_id (doc_custom_themes d) = obj_id (doc_custom_themes current)
        then doc_custom_themes latest else doc_custom_themes d)
    \<and> ap_terminal r = obj_val (doc_terminal d)"
  unfolding save_projection_def appearanceProjection_def normalized_whole Let_def using assms
  by (simp add: doc_value_def) (simp add: normalizedAppearance_def whole_def or_else_def)

definition some_doc :: "Theme \<Rightarrow> bool \<Rightarrow> AppearanceDoc" where
  "some_doc theme blink = \<lparr>doc_theme = theme, doc_interface_font_scale = ScaleMedium,
     doc_terminal = Obj (if blink then 1 else 2) (default_terminal_appearance\<lparr>ta_cursor_blink := blink\<rparr>),
     doc_selected_themes = Obj 0 \<lparr>tsel_light = DEFAULT_THEME_ID, tsel_dark = DEFAULT_THEME_ID\<rparr>,
     doc_custom_themes = Obj 3 [], doc_glass_opacity = 80\<rparr>"

text \<open>A change of mode alone, made on a screen that had not yet shown a change of the cursor, undoes the latter.\<close>

theorem save_carries_changes_witness:
  "ap_theme (doc_value (save_projection (some_doc ThemeLight True) 9 (whole (some_doc ThemeDark True)) 11 (some_doc ThemeLight False))) = ThemeDark
    \<and> ta_cursor_blink (ap_terminal (doc_value (save_projection (some_doc ThemeLight True) 9 (whole (some_doc ThemeDark True)) 11 (some_doc ThemeLight False))))
    \<and> \<not> ta_cursor_blink (obj_val (doc_terminal (some_doc ThemeLight False)))"
  using save_carries_changes [of 9 "some_doc ThemeLight True" "some_doc ThemeDark True" 11 "some_doc ThemeLight False"]
  by (simp add: Let_def some_doc_def)

text \<open>
  The theme on the page: it is never missing, a draft being edited is shown whatever else is
  selected, the stored hint only until the document has loaded, and from then on without a draft
  the resolved theme of the document; and what is adopted is what the next launch starts from
  while the storage works.
\<close>

theorem page_theme:
  assumes "list_all theme_ok (ap_custom_themes (pv_appearance view))" "case pv_draft view of None \<Rightarrow> True | Some d \<Rightarrow> theme_ok d"
    and "storage \<noteq> None"
  shows "\<exists>t. provider_theme BUILT_IN_FILES stringify view = Some t
    \<and> (case pv_draft view of Some d \<Rightarrow> at_id t = tf_id d \<and> at_colors t = tf_colors d
       | None \<Rightarrow> (pv_loaded view \<or> pv_prepaint view = None \<longrightarrow>
             resolveAppliedTheme BUILT_IN_FILES stringify (pv_appearance view)
               (themeDefinitions BUILT_IN_FILES (ap_custom_themes (pv_appearance view))) (pv_system_dark view) = Some t)
           \<and> (\<not> pv_loaded view \<and> pv_prepaint view \<noteq> None \<longrightarrow> pv_prepaint view = Some t))
    \<and> ap_theme (initial_appearance (snd (adopt (view, storage) v))) = ap_theme v
    \<and> ap_interface_font_scale (initial_appearance (snd (adopt (view, storage) v))) = ap_interface_font_scale v"
proof -
  from resolve_complete [OF built_in_default built_in_ok assms(1) refl, of stringify "pv_appearance view" "pv_system_dark view"]
  obtain a where a: "resolveAppliedTheme BUILT_IN_FILES stringify (pv_appearance view)
      (themeDefinitions BUILT_IN_FILES (ap_custom_themes (pv_appearance view))) (pv_system_dark view) = Some a"
    by (auto simp: returns_def)
  have hints: "ap_theme (initial_appearance (snd (adopt (view, storage) v))) = ap_theme v"
    "ap_interface_font_scale (initial_appearance (snd (adopt (view, storage) v))) = ap_interface_font_scale v"
    using hints_of_adopted [OF assms(3)] by (simp_all add: adopt_def)
  show ?thesis
  proof (cases "pv_draft view")
    case None
    then show ?thesis using a hints
      by (cases "pv_prepaint view") (auto simp: provider_theme_def draftApplied_def)
  next
    case (Some d)
    then have "theme_ok d" using assms(2) by simp
    from applied_of_file [OF this, of stringify "tf_appearance d" "ap_glass_opacity (pv_appearance view)"]
    obtain t where "appliedThemeFromFile stringify d (tf_appearance d) (ap_glass_opacity (pv_appearance view)) = Some (Some t)"
      "at_id t = tf_id d" "at_colors t = tf_colors d"
      by (auto simp: returns_def themeColorsForAppearance_def)
    then show ?thesis using Some a hints by (simp add: provider_theme_def draftApplied_def)
  qed
qed

theorem page_theme_witness:
  "\<exists>t. provider_theme BUILT_IN_FILES (\<lambda>_. []) \<lparr>pv_appearance = plain_appearance ThemeDark (lit ''dracula''), pv_system_dark = False,
       pv_loaded = False, pv_prepaint = Some (flat_theme AppDark 80), pv_draft = None\<rparr> = Some t \<and> t = flat_theme AppDark 80"
  using page_theme [of "\<lparr>pv_appearance = plain_appearance ThemeDark (lit ''dracula''), pv_system_dark = False,
       pv_loaded = False, pv_prepaint = Some (flat_theme AppDark 80), pv_draft = None\<rparr>" "Some Map.empty" "\<lambda>_. []"]
  by (auto simp: plain_appearance_def)


text \<open>A core that keeps its document, for the concrete runs: it answers a command by the stored library.\<close>

definition echo_core :: "Appearance ThemeCore" where
  "echo_core = \<lparr>tc_run = (\<lambda>c s. case c of
       DuplicateStoredTheme i \<Rightarrow> (case find (\<lambda>t. tf_id t = i) (ap_custom_themes s) of
         Some t \<Rightarrow> let s' = s\<lparr>ap_custom_themes := ap_custom_themes s @ [t\<lparr>tf_id := i @ lit ''-copy''\<rparr>]\<rparr> in (Inr s', s')
       | None \<Rightarrow> (Inl (lit ''not found''), s))
     | _ \<Rightarrow> (Inl (lit ''refused''), s)),
     tc_inspect = (\<lambda>_ _. Inr DRACULA), tc_read = Some\<rparr>"

definition dracula_library :: "Appearance ThemeLibrary" where
  "dracula_library = (let a = (plain_appearance ThemeDark (lit ''dracula''))\<lparr>ap_custom_themes := [DRACULA]\<rparr>
     in \<lparr>tl_ref = a, tl_draft = Some CATPPUCCIN, tl_core = a\<rparr>)"

lemma duplicate_run:
  "\<exists>t l. duplicateTheme echo_core (lit ''dracula'') dracula_library = (Inr t, l)"
  by (simp add: duplicateTheme_def runCommand_def echo_core_def dracula_library_def plain_appearance_def Let_def
      newly_stored_def custom_ids_def DRACULA_def)


end
