(* ===== verification/Wire.thy ===== *)
theory Wire
  imports Colors SettingsDomain GitDomain
begin

section \<open>The wire between the client and the core\<close>

text \<open>
  What crosses the IPC boundary: a JSON value, and the type the core deserializes an argument to. A
  \<open>wire_type\<close> is a Rust type as \<open>serde\<close> reads it (\<open>crates/core/src\<close>): a bounded integer, a string, an option that
  \<open>null\<close> or a missing key leaves empty, an enum by its \<open>snake_case\<close> names, a struct by its fields, each required or
  defaulted, and refusing unknown ones where it says so. The encoders are what the TypeScript shapes of \<open>domain.ts\<close> serialize to.
  What the core checks of a value beyond its type, such as a
  theme's name or its complete palette, is its own validation. The lemmas, in the collection \<open>wire\<close>, show that every encoded value fits the core's type.
\<close>

named_theorems wire

datatype wire = WNull | WBool bool | WNum int | WStr jstring | WList "wire list" | WObj "(jstring \<times> wire) list" | WChannel

datatype wire_type = TNum int int | TBool | TString | TColor | TGlass | TOption wire_type | TVec wire_type | TEnum "string list"
  | TRec bool "(string \<times> bool \<times> wire_type) list" | TDict wire_type | TKeyed "string list" wire_type
  | TTagged string "(string \<times> wire_type) list" | TChannel

text \<open>
  The flag of a record refuses unknown fields, the flag of a field requires it. A tagged union is an object whose tag member
  names the variant.
\<close>

fun fits :: "wire_type \<Rightarrow> wire \<Rightarrow> bool" where
  "fits (TNum lo hi) w = (case w of WNum n \<Rightarrow> lo \<le> n \<and> n \<le> hi | _ \<Rightarrow> False)"
| "fits TBool w = (case w of WBool _ \<Rightarrow> True | _ \<Rightarrow> False)"
| "fits TString w = (case w of WStr _ \<Rightarrow> True | _ \<Rightarrow> False)"
| "fits TColor w = (case w of WStr s \<Rightarrow> HEX_COLOR s | _ \<Rightarrow> False)"
| "fits TGlass w = (case w of WNum n \<Rightarrow> 40 \<le> n \<and> n \<le> 100 \<and> n mod 5 = 0 | _ \<Rightarrow> False)"
| "fits (TOption t) w = (w = WNull \<or> fits t w)"
| "fits (TVec t) w = (case w of WList ws \<Rightarrow> list_all (fits t) ws | _ \<Rightarrow> False)"
| "fits (TEnum names) w = (case w of WStr s \<Rightarrow> list_ex (\<lambda>n. lit n = s) names | _ \<Rightarrow> False)"
| "fits (TRec strict fs) w = (case w of WObj ms \<Rightarrow>
     list_all (\<lambda>(name, required, t). case map_of ms (lit name) of None \<Rightarrow> \<not> required | Some v \<Rightarrow> fits t v) fs
     \<and> (strict \<longrightarrow> list_all (\<lambda>m. list_ex (\<lambda>f. lit (fst f) = fst m) fs) ms) | _ \<Rightarrow> False)"
| "fits (TDict t) w = (case w of WObj ms \<Rightarrow> list_all (\<lambda>m. fits t (snd m)) ms | _ \<Rightarrow> False)"
| "fits (TKeyed names t) w = (case w of WObj ms \<Rightarrow> list_all (\<lambda>m. list_ex (\<lambda>n. lit n = fst m) names \<and> fits t (snd m)) ms | _ \<Rightarrow> False)"
| "fits (TTagged tag variants) w = (case w of WObj ms \<Rightarrow>
     list_ex (\<lambda>(name, t). map_of ms (lit tag) = Some (WStr (lit name)) \<and> fits t w) variants | _ \<Rightarrow> False)"
| "fits TChannel w = (w = WChannel)"

abbreviation TU64 :: wire_type where "TU64 \<equiv> TNum 0 18446744073709551615"
abbreviation TU32 :: wire_type where "TU32 \<equiv> TNum 0 4294967295"
abbreviation TU16 :: wire_type where "TU16 \<equiv> TNum 0 65535"
abbreviation TU8 :: wire_type where "TU8 \<equiv> TNum 0 255"
abbreviation TI32 :: wire_type where "TI32 \<equiv> TNum (- 2147483648) 2147483647"

subsection \<open>The core's argument types\<close>

definition RUST_DiffTarget :: wire_type where
  "RUST_DiffTarget = TEnum [''staged'', ''unstaged'', ''head'', ''untracked'']"

definition RUST_DiffExtent :: wire_type where
  "RUST_DiffExtent = TEnum [''capped'', ''full'']"

definition RUST_MergeMethod :: wire_type where
  "RUST_MergeMethod = TEnum [''merge'', ''squash'', ''rebase'']"

definition RUST_TodoStatus :: wire_type where
  "RUST_TodoStatus = TEnum [''open'', ''blocked'', ''in_progress'', ''done'']"

definition RUST_TemplateKind :: wire_type where
  "RUST_TemplateKind = TEnum [''prompt'', ''scratchpad'', ''todo'', ''pr'']"

definition RUST_NotificationLevel :: wire_type where
  "RUST_NotificationLevel = TEnum [''all'', ''important'', ''none'']"

definition RUST_ThemeAppearance :: wire_type where
  "RUST_ThemeAppearance = TEnum [''light'', ''dark'']"

definition RUST_ThemeConflictPolicy :: wire_type where
  "RUST_ThemeConflictPolicy = TEnum [''reject'', ''replace'', ''keep_both'']"

definition RUST_McpFeatureGroup :: wire_type where
  "RUST_McpFeatureGroup = TEnum [''scratchpads'', ''diagrams'', ''todos'', ''timers'', ''key_value'', ''prompt_templates'', ''git'']"

definition RUST_ProcessCpuThreshold :: wire_type where
  "RUST_ProcessCpuThreshold = TEnum [''always'', ''pct10'', ''pct30'', ''pct60'', ''pct90'', ''never'']"

definition RUST_ProcessMemThreshold :: wire_type where
  "RUST_ProcessMemThreshold = TEnum [''always'', ''mb100'', ''mb500'', ''gb1'', ''gb2'', ''never'']"

definition RUST_Theme :: wire_type where
  "RUST_Theme = TEnum [''light'', ''dark'', ''system'']"

definition RUST_FontScale :: wire_type where
  "RUST_FontScale = TEnum [''extra_small'', ''small'', ''medium'', ''large'', ''extra_large'']"

definition RUST_FontWeight :: wire_type where
  "RUST_FontWeight = TEnum [''w100'', ''w200'', ''w300'', ''w400'', ''w500'', ''w600'', ''w700'', ''w800'', ''w900'']"

definition RUST_LineHeight :: wire_type where
  "RUST_LineHeight = TEnum [''compact'', ''default'', ''comfortable'', ''spacious'']"

definition RUST_LetterSpacing :: wire_type where
  "RUST_LetterSpacing = TEnum [''tight'', ''default'', ''wide'', ''wider'']"

definition RUST_CursorStyle :: wire_type where
  "RUST_CursorStyle = TEnum [''block'', ''underline'', ''bar'']"

definition RUST_CursorInactiveStyle :: wire_type where
  "RUST_CursorInactiveStyle = TEnum [''outline'', ''block'', ''bar'', ''underline'', ''none'']"

definition RUST_HotkeyAction :: wire_type where
  "RUST_HotkeyAction = TEnum [''open_command_palette'', ''quick_actions'', ''quick_jump'', ''new_agent_or_terminal'',
     ''open_settings'', ''close_agent_or_terminal'', ''next_project_group'', ''prev_project_group'',
     ''next_section'', ''prev_section'', ''jump_to_agents'', ''jump_to_commands'',
     ''jump_to_terminals'', ''collapse_or_section'', ''jump_to_parent_project'', ''expand_project'',
     ''restart_selection'', ''open_terminal_search'', ''previous_process'', ''next_process'',
     ''increase_terminal_font_size'', ''decrease_terminal_font_size'', ''copy_selection'',
     ''paste_clipboard'', ''archive_scratchpad'']"

definition RUST_HunkRange :: wire_type where
  "RUST_HunkRange = TRec False [(''old_start'', True, TU32), (''old_lines'', True, TU32), (''new_start'', True, TU32), (''new_lines'', True, TU32)]"

definition RUST_NewPullRequest :: wire_type where
  "RUST_NewPullRequest = TRec False [(''title'', True, TString), (''body'', True, TString), (''base'', True, TString), (''draft'', True, TBool)]"

definition RUST_HandoffSubject :: wire_type where
  "RUST_HandoffSubject = TTagged ''kind'' [(''check'', TRec False [(''name'', True, TString)]), (''thread'', TRec False [(''id'', True, TString)])]"

definition RUST_TodoDoc :: wire_type where
  "RUST_TodoDoc = TRec False [(''title'', True, TString), (''body'', True, TString), (''status'', True, RUST_TodoStatus)]"

definition RUST_Presence :: wire_type where
  "RUST_Presence = TRec False [(''focused'', True, TBool), (''viewing'', False, TOption TU64)]"

definition RUST_ProcessSpec :: wire_type where
  "RUST_ProcessSpec = TRec True [(''command'', True, TString), (''working_dir'', False, TOption TString), (''auto_start'', False, TBool),
     (''auto_restart'', False, TBool), (''restart_when_changed'', False, TVec TString), (''env'', False, TDict TString)]"

definition RUST_Sidebar :: wire_type where
  "RUST_Sidebar = TRec False [(''show_filter_input'', False, TBool), (''hide_empty_sections'', False, TBool),
     (''process_cpu_threshold'', False, RUST_ProcessCpuThreshold), (''process_mem_threshold'', False, RUST_ProcessMemThreshold),
     (''show_settings_footer'', False, TBool)]"

definition RUST_Binding :: wire_type where
  "RUST_Binding = TRec False [(''ctrl'', True, TBool), (''alt'', True, TBool), (''shift'', True, TBool), (''super'', True, TBool),
     (''key'', True, TString)]"

definition RUST_ToolDefaults :: wire_type where
  "RUST_ToolDefaults = TRec False [(''default_editor'', False, TOption TString), (''default_terminal'', False, TOption TString)]"

definition RUST_Assist :: wire_type where
  "RUST_Assist = TRec False [(''tool'', False, TOption TString)]"

definition RUST_Integrations :: wire_type where
  "RUST_Integrations = TRec False [(''mcp_enabled'', False, TBool), (''http_api_enabled'', False, TBool)]"

definition RUST_Notifications :: wire_type where
  "RUST_Notifications = TRec False [(''enabled'', False, TBool), (''bell'', False, TOption TString)]"

definition RUST_ThemeColors :: wire_type where
  "RUST_ThemeColors = TKeyed (map role_name THEME_COLOR_ROLES) TColor"

definition RUST_SoloistThemeExtensions :: wire_type where
  "RUST_SoloistThemeExtensions = TKeyed (map soloist_name SOLOIST_ROLES) TColor"

definition RUST_ThemeExtensions :: wire_type where
  "RUST_ThemeExtensions = TRec True [(''soloist'', False, TOption RUST_SoloistThemeExtensions)]"

definition RUST_ThemeVariantExtensions :: wire_type where
  "RUST_ThemeVariantExtensions = TRec True [(''light'', False, TOption RUST_ThemeExtensions), (''dark'', False, TOption RUST_ThemeExtensions)]"

definition RUST_ThemeVariants :: wire_type where
  "RUST_ThemeVariants = TRec True [(''light'', False, TOption RUST_ThemeColors), (''dark'', False, TOption RUST_ThemeColors),
     (''extensions'', False, RUST_ThemeVariantExtensions)]"

definition RUST_ThemeFile :: wire_type where
  "RUST_ThemeFile = TRec True [(''version'', True, TU8), (''id'', False, TOption TString), (''name'', True, TString),
     (''appearance'', True, RUST_ThemeAppearance), (''author'', False, TOption TString), (''description'', False, TOption TString),
     (''colors'', True, RUST_ThemeColors), (''variants'', False, RUST_ThemeVariants), (''extensions'', False, RUST_ThemeExtensions),
     (''sidebarArtwork'', False, TBool), (''managed'', False, TBool)]"

definition RUST_TerminalAppearance :: wire_type where
  "RUST_TerminalAppearance = TRec False [(''focus_on_click'', False, TBool), (''copy_on_select'', False, TBool),
     (''font_family'', False, TOption TString), (''font_weight'', False, RUST_FontWeight), (''bold_font_weight'', False, RUST_FontWeight),
     (''font_scale'', False, RUST_FontScale), (''line_height'', False, RUST_LineHeight), (''letter_spacing'', False, RUST_LetterSpacing),
     (''cursor_style'', False, RUST_CursorStyle), (''cursor_inactive_style'', False, RUST_CursorInactiveStyle), (''cursor_blink'', False, TBool)]"

definition RUST_Appearance :: wire_type where
  "RUST_Appearance = TRec False [(''theme'', False, RUST_Theme),
     (''selected_themes'', False, TRec False [(''light'', False, TString), (''dark'', False, TString)]),
     (''custom_themes'', False, TVec RUST_ThemeFile), (''glass_opacity'', False, TGlass),
     (''interface_font_scale'', False, RUST_FontScale), (''terminal'', False, RUST_TerminalAppearance)]"

subsection \<open>What the client's shapes serialize to\<close>

fun diff_target_text :: "DiffTarget \<Rightarrow> string" where
  "diff_target_text StagedDiff = ''staged''"
| "diff_target_text UnstagedDiff = ''unstaged''"
| "diff_target_text HeadDiff = ''head''"
| "diff_target_text UntrackedDiff = ''untracked''"

fun diff_extent_text :: "DiffExtent \<Rightarrow> string" where
  "diff_extent_text Capped = ''capped''"
| "diff_extent_text Full = ''full''"

fun merge_method_text :: "MergeMethod \<Rightarrow> string" where
  "merge_method_text MergeCommit = ''merge''"
| "merge_method_text Squash = ''squash''"
| "merge_method_text Rebase = ''rebase''"

fun todo_status_text :: "TodoStatus \<Rightarrow> string" where
  "todo_status_text TodoOpen = ''open''"
| "todo_status_text TodoBlocked = ''blocked''"
| "todo_status_text TodoInProgress = ''in_progress''"
| "todo_status_text TodoDone = ''done''"

fun template_kind_text :: "TemplateKind \<Rightarrow> string" where
  "template_kind_text TplPrompt = ''prompt''"
| "template_kind_text TplScratchpad = ''scratchpad''"
| "template_kind_text TplTodo = ''todo''"
| "template_kind_text TplPr = ''pr''"

fun notification_level_text :: "NotificationLevel \<Rightarrow> string" where
  "notification_level_text LevelAll = ''all''"
| "notification_level_text LevelImportant = ''important''"
| "notification_level_text LevelNone = ''none''"

fun theme_appearance_text :: "ThemeAppearance \<Rightarrow> string" where
  "theme_appearance_text AppLight = ''light''"
| "theme_appearance_text AppDark = ''dark''"

fun conflict_policy_text :: "ThemeConflictPolicy \<Rightarrow> string" where
  "conflict_policy_text ConflictReject = ''reject''"
| "conflict_policy_text ConflictReplace = ''replace''"
| "conflict_policy_text ConflictKeepBoth = ''keep_both''"

primrec feature_group_text :: "McpFeatureGroup \<Rightarrow> string" where
  "feature_group_text McpScratchpads = ''scratchpads''"
| "feature_group_text McpDiagrams = ''diagrams''"
| "feature_group_text McpTodos = ''todos''"
| "feature_group_text McpTimers = ''timers''"
| "feature_group_text McpKeyValue = ''key_value''"
| "feature_group_text McpPromptTemplates = ''prompt_templates''"
| "feature_group_text McpGit = ''git''"

primrec cpu_threshold_text :: "ProcessCpuThreshold \<Rightarrow> string" where
  "cpu_threshold_text CpuAlways = ''always''"
| "cpu_threshold_text Pct10 = ''pct10''"
| "cpu_threshold_text Pct30 = ''pct30''"
| "cpu_threshold_text Pct60 = ''pct60''"
| "cpu_threshold_text Pct90 = ''pct90''"
| "cpu_threshold_text CpuNever = ''never''"

primrec mem_threshold_text :: "ProcessMemThreshold \<Rightarrow> string" where
  "mem_threshold_text MemAlways = ''always''"
| "mem_threshold_text Mb100 = ''mb100''"
| "mem_threshold_text Mb500 = ''mb500''"
| "mem_threshold_text Gb1 = ''gb1''"
| "mem_threshold_text Gb2 = ''gb2''"
| "mem_threshold_text MemNever = ''never''"

fun wire_theme_text :: "Theme \<Rightarrow> string" where
  "wire_theme_text ThemeLight = ''light''"
| "wire_theme_text ThemeDark = ''dark''"
| "wire_theme_text ThemeSystem = ''system''"

fun font_scale_text :: "FontScale \<Rightarrow> string" where
  "font_scale_text ScaleExtraSmall = ''extra_small''"
| "font_scale_text ScaleSmall = ''small''"
| "font_scale_text ScaleMedium = ''medium''"
| "font_scale_text ScaleLarge = ''large''"
| "font_scale_text ScaleExtraLarge = ''extra_large''"

primrec font_weight_text :: "FontWeight \<Rightarrow> string" where
  "font_weight_text W100 = ''w100''"
| "font_weight_text W200 = ''w200''"
| "font_weight_text W300 = ''w300''"
| "font_weight_text W400 = ''w400''"
| "font_weight_text W500 = ''w500''"
| "font_weight_text W600 = ''w600''"
| "font_weight_text W700 = ''w700''"
| "font_weight_text W800 = ''w800''"
| "font_weight_text W900 = ''w900''"

fun line_height_text :: "LineHeight \<Rightarrow> string" where
  "line_height_text LineCompact = ''compact''"
| "line_height_text LineDefault = ''default''"
| "line_height_text LineComfortable = ''comfortable''"
| "line_height_text LineSpacious = ''spacious''"

fun letter_spacing_text :: "LetterSpacing \<Rightarrow> string" where
  "letter_spacing_text SpacingTight = ''tight''"
| "letter_spacing_text SpacingDefault = ''default''"
| "letter_spacing_text SpacingWide = ''wide''"
| "letter_spacing_text SpacingWider = ''wider''"

fun cursor_style_text :: "CursorStyle \<Rightarrow> string" where
  "cursor_style_text CursorBlock = ''block''"
| "cursor_style_text CursorUnderline = ''underline''"
| "cursor_style_text CursorBar = ''bar''"

fun cursor_inactive_style_text :: "CursorInactiveStyle \<Rightarrow> string" where
  "cursor_inactive_style_text InactiveOutline = ''outline''"
| "cursor_inactive_style_text InactiveBlock = ''block''"
| "cursor_inactive_style_text InactiveBar = ''bar''"
| "cursor_inactive_style_text InactiveUnderline = ''underline''"
| "cursor_inactive_style_text InactiveNone = ''none''"

primrec hotkey_action_text :: "HotkeyAction \<Rightarrow> string" where
  "hotkey_action_text open_command_palette = ''open_command_palette''"
| "hotkey_action_text quick_actions = ''quick_actions''"
| "hotkey_action_text quick_jump = ''quick_jump''"
| "hotkey_action_text new_agent_or_terminal = ''new_agent_or_terminal''"
| "hotkey_action_text open_settings = ''open_settings''"
| "hotkey_action_text open_terminal_search = ''open_terminal_search''"
| "hotkey_action_text close_agent_or_terminal = ''close_agent_or_terminal''"
| "hotkey_action_text next_project_group = ''next_project_group''"
| "hotkey_action_text prev_project_group = ''prev_project_group''"
| "hotkey_action_text next_section = ''next_section''"
| "hotkey_action_text prev_section = ''prev_section''"
| "hotkey_action_text jump_to_agents = ''jump_to_agents''"
| "hotkey_action_text jump_to_commands = ''jump_to_commands''"
| "hotkey_action_text jump_to_terminals = ''jump_to_terminals''"
| "hotkey_action_text collapse_or_section = ''collapse_or_section''"
| "hotkey_action_text jump_to_parent_project = ''jump_to_parent_project''"
| "hotkey_action_text expand_project = ''expand_project''"
| "hotkey_action_text restart_selection = ''restart_selection''"
| "hotkey_action_text previous_process = ''previous_process''"
| "hotkey_action_text next_process = ''next_process''"
| "hotkey_action_text increase_terminal_font_size = ''increase_terminal_font_size''"
| "hotkey_action_text decrease_terminal_font_size = ''decrease_terminal_font_size''"
| "hotkey_action_text copy_selection = ''copy_selection''"
| "hotkey_action_text paste_clipboard = ''paste_clipboard''"
| "hotkey_action_text archive_scratchpad = ''archive_scratchpad''"

definition wenum :: "string \<Rightarrow> wire" where "wenum text = WStr (lit text)"

definition wopt :: "('a \<Rightarrow> wire) \<Rightarrow> 'a option \<Rightarrow> wire" where
  "wopt enc v = (case v of None \<Rightarrow> WNull | Some x \<Rightarrow> enc x)"

definition wobj :: "(string \<times> wire) list \<Rightarrow> wire" where
  "wobj ms = WObj (map (\<lambda>(k, w). (lit k, w)) ms)"

text \<open>A member that is \<open>undefined\<close> is left out of the text.\<close>

definition present :: "string \<Rightarrow> ('a \<Rightarrow> wire) \<Rightarrow> 'a option \<Rightarrow> (string \<times> wire) list" where
  "present key enc v = (case v of None \<Rightarrow> [] | Some x \<Rightarrow> [(key, enc x)])"

definition enc_hunk :: "HunkRange \<Rightarrow> wire" where
  "enc_hunk h = wobj [(''old_start'', WNum (hr_old_start h)), (''old_lines'', WNum (hr_old_lines h)),
     (''new_start'', WNum (hr_new_start h)), (''new_lines'', WNum (hr_new_lines h))]"

definition enc_pull_request :: "NewPullRequest \<Rightarrow> wire" where
  "enc_pull_request r = wobj [(''title'', WStr (npr_title r)), (''body'', WStr (npr_body r)), (''base'', WStr (npr_base r)),
     (''draft'', WBool (npr_draft r))]"

definition enc_handoff :: "HandoffSubject \<Rightarrow> wire" where
  "enc_handoff s = (case s of AboutCheck name \<Rightarrow> wobj [(''kind'', wenum ''check''), (''name'', WStr name)]
     | AboutThread i \<Rightarrow> wobj [(''kind'', wenum ''thread''), (''id'', WStr i)])"

definition enc_todo_doc :: "TodoDoc \<Rightarrow> wire" where
  "enc_todo_doc d = wobj [(''title'', WStr (td_title d)), (''body'', WStr (td_body d)), (''status'', wenum (todo_status_text (td_status d)))]"

record PresenceReport =
  pres_focused :: bool
  pres_viewing :: "int option"

definition enc_presence :: "PresenceReport \<Rightarrow> wire" where
  "enc_presence p = wobj [(''focused'', WBool (pres_focused p)), (''viewing'', wopt WNum (pres_viewing p))]"

definition wdict :: "(jstring, jstring) jsmap \<Rightarrow> wire" where
  "wdict ms = WObj (map (\<lambda>(k, v). (k, WStr v)) ms)"

definition enc_process_spec :: "ProcessSpec \<Rightarrow> wire" where
  "enc_process_spec s = wobj ([(''command'', WStr (psp_command s))] @ present ''working_dir'' (wopt WStr) (psp_working_dir s)
     @ present ''auto_start'' WBool (psp_auto_start s) @ present ''auto_restart'' WBool (psp_auto_restart s)
     @ present ''restart_when_changed'' (\<lambda>ps. WList (map WStr ps)) (psp_restart_when_changed s) @ present ''env'' wdict (psp_env s))"

definition enc_sidebar :: "Sidebar \<Rightarrow> wire" where
  "enc_sidebar s = wobj [(''show_filter_input'', WBool (sb_show_filter_input s)), (''hide_empty_sections'', WBool (sb_hide_empty_sections s)),
     (''process_cpu_threshold'', wenum (cpu_threshold_text (sb_process_cpu_threshold s))),
     (''process_mem_threshold'', wenum (mem_threshold_text (sb_process_mem_threshold s))),
     (''show_settings_footer'', WBool (sb_show_settings_footer s))]"

definition enc_binding :: "Binding \<Rightarrow> wire" where
  "enc_binding b = wobj [(''ctrl'', WBool (bd_ctrl b)), (''alt'', WBool (bd_alt b)), (''shift'', WBool (bd_shift b)),
     (''super'', WBool (bd_super b)), (''key'', WStr (bd_key b))]"

definition enc_tool_defaults :: "ToolDefaults \<Rightarrow> wire" where
  "enc_tool_defaults t = wobj [(''default_editor'', wopt WStr (tld_default_editor t)), (''default_terminal'', wopt WStr (tld_default_terminal t))]"

definition enc_assist :: "Assist \<Rightarrow> wire" where
  "enc_assist a = wobj [(''tool'', wopt WStr (asst_tool a))]"

definition enc_integrations :: "Integrations \<Rightarrow> wire" where
  "enc_integrations i = wobj [(''mcp_enabled'', WBool (itg_mcp_enabled i)), (''http_api_enabled'', WBool (itg_http_api_enabled i))]"

definition enc_notifications :: "Notifications \<Rightarrow> wire" where
  "enc_notifications n = wobj [(''enabled'', WBool (nt_enabled n)), (''bell'', wopt WStr (nt_bell n))]"

definition enc_colors :: "ThemeColors \<Rightarrow> wire" where
  "enc_colors c = WObj (map (\<lambda>r. (lit (role_name r), WStr (c r))) THEME_COLOR_ROLES)"

definition enc_soloist :: "SoloistThemeExtensions \<Rightarrow> wire" where
  "enc_soloist e = WObj (concat (map (\<lambda>r. case e r of None \<Rightarrow> [] | Some c \<Rightarrow> [(lit (soloist_name r), WStr c)]) SOLOIST_ROLES))"

definition enc_extensions :: "ThemeFileExtensions \<Rightarrow> wire" where
  "enc_extensions e = wobj (present ''soloist'' enc_soloist (tfe_soloist e))"

definition enc_variant_extensions :: "(ThemeAppearance \<Rightarrow> ThemeFileExtensions option) \<Rightarrow> wire" where
  "enc_variant_extensions e = wobj (present ''light'' enc_extensions (e AppLight) @ present ''dark'' enc_extensions (e AppDark))"

definition enc_variants :: "ThemeVariants \<Rightarrow> wire" where
  "enc_variants v = wobj (present ''light'' enc_colors (tva_light v) @ present ''dark'' enc_colors (tva_dark v)
     @ present ''extensions'' enc_variant_extensions (tva_extensions v))"

definition enc_theme_file :: "ThemeFile \<Rightarrow> wire" where
  "enc_theme_file t = wobj ([(''version'', WNum (tf_version t)), (''id'', WStr (tf_id t)), (''name'', WStr (tf_name t)),
     (''appearance'', wenum (theme_appearance_text (tf_appearance t)))] @ present ''author'' WStr (tf_author t)
     @ present ''description'' WStr (tf_description t) @ [(''colors'', enc_colors (tf_colors t))]
     @ present ''variants'' enc_variants (tf_variants t) @ present ''sidebarArtwork'' WBool (tf_sidebarArtwork t)
     @ present ''managed'' WBool (tf_managed t) @ present ''extensions'' enc_extensions (tf_extensions t))"

definition enc_terminal_appearance :: "TerminalAppearance \<Rightarrow> wire" where
  "enc_terminal_appearance t = wobj [(''focus_on_click'', WBool (ta_focus_on_click t)), (''copy_on_select'', WBool (ta_copy_on_select t)),
     (''font_family'', wopt WStr (ta_font_family t)), (''font_weight'', wenum (font_weight_text (ta_font_weight t))),
     (''bold_font_weight'', wenum (font_weight_text (ta_bold_font_weight t))), (''font_scale'', wenum (font_scale_text (ta_font_scale t))),
     (''line_height'', wenum (line_height_text (ta_line_height t))), (''letter_spacing'', wenum (letter_spacing_text (ta_letter_spacing t))),
     (''cursor_style'', wenum (cursor_style_text (ta_cursor_style t))),
     (''cursor_inactive_style'', wenum (cursor_inactive_style_text (ta_cursor_inactive_style t))), (''cursor_blink'', WBool (ta_cursor_blink t))]"

definition enc_appearance :: "Appearance \<Rightarrow> wire" where
  "enc_appearance a = wobj [(''theme'', wenum (wire_theme_text (ap_theme a))), (''interface_font_scale'', wenum (font_scale_text (ap_interface_font_scale a))),
     (''terminal'', enc_terminal_appearance (ap_terminal a)),
     (''selected_themes'', wobj [(''light'', WStr (tsel_light (ap_selected_themes a))), (''dark'', WStr (tsel_dark (ap_selected_themes a)))]),
     (''custom_themes'', WList (map enc_theme_file (ap_custom_themes a))), (''glass_opacity'', WNum (ap_glass_opacity a))]"

subsection \<open>Every shape fits\<close>

abbreviation u64 :: "int \<Rightarrow> bool" where "u64 n \<equiv> 0 \<le> n \<and> n \<le> 18446744073709551615"
abbreviation u32 :: "int \<Rightarrow> bool" where "u32 n \<equiv> 0 \<le> n \<and> n \<le> 4294967295"
abbreviation u16 :: "int \<Rightarrow> bool" where "u16 n \<equiv> 0 \<le> n \<and> n \<le> 65535"
abbreviation u8 :: "int \<Rightarrow> bool" where "u8 n \<equiv> 0 \<le> n \<and> n \<le> 255"
abbreviation i32 :: "int \<Rightarrow> bool" where "i32 n \<equiv> - 2147483648 \<le> n \<and> n \<le> 2147483647"

definition hunk_in_range :: "HunkRange \<Rightarrow> bool" where
  "hunk_in_range h \<longleftrightarrow> u32 (hr_old_start h) \<and> u32 (hr_old_lines h) \<and> u32 (hr_new_start h) \<and> u32 (hr_new_lines h)"

definition colors_valid :: "ThemeColors \<Rightarrow> bool" where "colors_valid c \<longleftrightarrow> (\<forall>r. HEX_COLOR (c r))"

definition extensions_valid :: "ThemeFileExtensions \<Rightarrow> bool" where
  "extensions_valid e \<longleftrightarrow> (case tfe_soloist e of None \<Rightarrow> True | Some s \<Rightarrow> \<forall>r c. s r = Some c \<longrightarrow> HEX_COLOR c)"

definition theme_valid :: "ThemeFile \<Rightarrow> bool" where
  "theme_valid t \<longleftrightarrow> u8 (tf_version t) \<and> colors_valid (tf_colors t) \<and> pred_option extensions_valid (tf_extensions t)
     \<and> pred_option (\<lambda>v. pred_option colors_valid (tva_light v) \<and> pred_option colors_valid (tva_dark v)
          \<and> pred_option (\<lambda>e. \<forall>a. pred_option extensions_valid (e a)) (tva_extensions v)) (tf_variants t)"

definition glass_valid :: "int \<Rightarrow> bool" where "glass_valid n \<longleftrightarrow> 40 \<le> n \<and> n \<le> 100 \<and> n mod 5 = 0"

definition appearance_valid :: "Appearance \<Rightarrow> bool" where
  "appearance_valid a \<longleftrightarrow> list_all theme_valid (ap_custom_themes a) \<and> glass_valid (ap_glass_opacity a)"

lemma lookup_lit [simp]: "map_of (map (\<lambda>(k, w). (lit k, w)) ms) (lit n) = map_of ms n"
  by (induction ms) auto

lemma lookup_present [simp]:
  "map_of (present k enc v @ ms) n = (if k = n \<and> v \<noteq> None then Some (enc (the v)) else map_of ms n)"
  "map_of (present k enc v) n = (if k = n \<and> v \<noteq> None then Some (enc (the v)) else None)"
  by (auto simp: present_def split: option.splits)

lemma all_present [simp]: "list_all P (present k enc v) \<longleftrightarrow> (\<forall>x. v = Some x \<longrightarrow> P (k, enc x))"
  by (auto simp: present_def split: option.splits)

lemma fits_record: "fits (TRec strict fs) (wobj ms) \<longleftrightarrow>
    list_all (\<lambda>(name, required, t). case map_of ms name of None \<Rightarrow> \<not> required | Some v \<Rightarrow> fits t v) fs
    \<and> (strict \<longrightarrow> list_all (\<lambda>m. fst m \<in> set (map fst fs)) ms)"
proof -
  have "list_ex (\<lambda>f. lit (fst f) = lit k) fs \<longleftrightarrow> k \<in> set (map fst fs)" for k
    by (auto simp: list_ex_iff)
  then show ?thesis by (simp add: wobj_def list_all_iff case_prod_beta)
qed

declare fits.simps(9) [simp del] map_of_append [simp del]

lemma wopt_fits [wire]: "pred_option (\<lambda>x. fits t (enc x)) v \<Longrightarrow> fits (TOption t) (wopt enc v)"
  by (auto simp: wopt_def split: option.splits)

lemma vec_fits [wire]: "list_all (\<lambda>x. fits t (enc x)) xs \<Longrightarrow> fits (TVec t) (WList (map enc xs))"
  by (simp add: list_all_iff)

lemma prim_fits [wire, simp]: "fits TBool (WBool b)" "fits TString (WStr s)" "fits (TOption TString) (wopt WStr v)"
  "lo \<le> n \<Longrightarrow> n \<le> hi \<Longrightarrow> fits (TNum lo hi) (WNum n)" "fits TChannel WChannel"
  by (auto simp: wopt_def split: option.splits)

lemma strings_fit [wire, simp]: "fits (TVec TString) (WList (map WStr ss))"
  by (simp add: list_all_iff)

lemma dict_fits [wire, simp]: "fits (TDict TString) (wdict ms)"
  by (auto simp: wdict_def list_all_iff)

lemma fits_diff_target [wire]: "fits RUST_DiffTarget (wenum (diff_target_text x))"
  by (cases x) (simp_all add: RUST_DiffTarget_def wenum_def)

lemma fits_diff_extent [wire]: "fits RUST_DiffExtent (wenum (diff_extent_text x))"
  by (cases x) (simp_all add: RUST_DiffExtent_def wenum_def)

lemma fits_merge_method [wire]: "fits RUST_MergeMethod (wenum (merge_method_text x))"
  by (cases x) (simp_all add: RUST_MergeMethod_def wenum_def)

lemma fits_todo_status [wire]: "fits RUST_TodoStatus (wenum (todo_status_text x))"
  by (cases x) (simp_all add: RUST_TodoStatus_def wenum_def)

lemma fits_template_kind [wire]: "fits RUST_TemplateKind (wenum (template_kind_text x))"
  by (cases x) (simp_all add: RUST_TemplateKind_def wenum_def)

lemma fits_notification_level [wire]: "fits RUST_NotificationLevel (wenum (notification_level_text x))"
  by (cases x) (simp_all add: RUST_NotificationLevel_def wenum_def)

lemma fits_theme_appearance [wire]: "fits RUST_ThemeAppearance (wenum (theme_appearance_text x))"
  by (cases x) (simp_all add: RUST_ThemeAppearance_def wenum_def)

lemma fits_conflict_policy [wire]: "fits RUST_ThemeConflictPolicy (wenum (conflict_policy_text x))"
  by (cases x) (simp_all add: RUST_ThemeConflictPolicy_def wenum_def)

lemma fits_feature_group [wire]: "fits RUST_McpFeatureGroup (wenum (feature_group_text x))"
  by (cases x) (simp_all add: RUST_McpFeatureGroup_def wenum_def)

lemma fits_cpu_threshold [wire]: "fits RUST_ProcessCpuThreshold (wenum (cpu_threshold_text x))"
  by (cases x) (simp_all add: RUST_ProcessCpuThreshold_def wenum_def)

lemma fits_mem_threshold [wire]: "fits RUST_ProcessMemThreshold (wenum (mem_threshold_text x))"
  by (cases x) (simp_all add: RUST_ProcessMemThreshold_def wenum_def)

lemma fits_theme [wire]: "fits RUST_Theme (wenum (wire_theme_text x))"
  by (cases x) (simp_all add: RUST_Theme_def wenum_def)

lemma fits_font_scale [wire]: "fits RUST_FontScale (wenum (font_scale_text x))"
  by (cases x) (simp_all add: RUST_FontScale_def wenum_def)

lemma fits_font_weight [wire]: "fits RUST_FontWeight (wenum (font_weight_text x))"
  by (cases x) (simp_all add: RUST_FontWeight_def wenum_def)

lemma fits_line_height [wire]: "fits RUST_LineHeight (wenum (line_height_text x))"
  by (cases x) (simp_all add: RUST_LineHeight_def wenum_def)

lemma fits_letter_spacing [wire]: "fits RUST_LetterSpacing (wenum (letter_spacing_text x))"
  by (cases x) (simp_all add: RUST_LetterSpacing_def wenum_def)

lemma fits_cursor_style [wire]: "fits RUST_CursorStyle (wenum (cursor_style_text x))"
  by (cases x) (simp_all add: RUST_CursorStyle_def wenum_def)

lemma fits_cursor_inactive_style [wire]: "fits RUST_CursorInactiveStyle (wenum (cursor_inactive_style_text x))"
  by (cases x) (simp_all add: RUST_CursorInactiveStyle_def wenum_def)

lemma fits_hotkey_action [wire]: "fits RUST_HotkeyAction (wenum (hotkey_action_text x))"
  by (cases x) (simp_all add: RUST_HotkeyAction_def wenum_def)

lemma fits_hunk [wire]: "hunk_in_range h \<Longrightarrow> fits RUST_HunkRange (enc_hunk h)"
  by (simp add: RUST_HunkRange_def enc_hunk_def fits_record hunk_in_range_def)

lemma fits_pull_request [wire]: "fits RUST_NewPullRequest (enc_pull_request r)"
  by (simp add: RUST_NewPullRequest_def enc_pull_request_def fits_record)

lemma fits_handoff [wire]: "fits RUST_HandoffSubject (enc_handoff s)"
  by (cases s) (simp_all add: RUST_HandoffSubject_def enc_handoff_def wobj_def wenum_def fits.simps)

lemma fits_todo_doc [wire]: "fits RUST_TodoDoc (enc_todo_doc d)"
  by (simp add: RUST_TodoDoc_def enc_todo_doc_def fits_record fits_todo_status)

lemma fits_presence [wire]: "pred_option u64 (pres_viewing p) \<Longrightarrow> fits RUST_Presence (enc_presence p)"
  by (auto simp: RUST_Presence_def enc_presence_def fits_record wopt_def split: option.splits)

lemma fits_process_spec [wire]: "fits RUST_ProcessSpec (enc_process_spec s)"
  by (simp add: RUST_ProcessSpec_def enc_process_spec_def fits_record prim_fits dict_fits strings_fit del: fits.simps(6,7,10))

lemma fits_sidebar [wire]: "fits RUST_Sidebar (enc_sidebar s)"
  by (simp add: RUST_Sidebar_def enc_sidebar_def fits_record fits_cpu_threshold fits_mem_threshold)

lemma fits_binding [wire]: "fits RUST_Binding (enc_binding b)"
  by (simp add: RUST_Binding_def enc_binding_def fits_record)

lemma fits_tool_defaults [wire]: "fits RUST_ToolDefaults (enc_tool_defaults t)"
  by (simp add: RUST_ToolDefaults_def enc_tool_defaults_def fits_record del: fits.simps(6))

lemma fits_assist [wire]: "fits RUST_Assist (enc_assist a)"
  by (simp add: RUST_Assist_def enc_assist_def fits_record del: fits.simps(6))

lemma fits_integrations [wire]: "fits RUST_Integrations (enc_integrations i)"
  by (simp add: RUST_Integrations_def enc_integrations_def fits_record)

lemma fits_notifications [wire]: "fits RUST_Notifications (enc_notifications n)"
  by (simp add: RUST_Notifications_def enc_notifications_def fits_record del: fits.simps(6))

lemma fits_colors: "colors_valid c \<Longrightarrow> fits RUST_ThemeColors (enc_colors c)"
  by (auto simp: RUST_ThemeColors_def enc_colors_def list_all_iff list_ex_iff colors_valid_def)

lemma fits_soloist: "\<forall>r c. e r = Some c \<longrightarrow> HEX_COLOR c \<Longrightarrow> fits RUST_SoloistThemeExtensions (enc_soloist e)"
  by (auto simp: RUST_SoloistThemeExtensions_def enc_soloist_def list_all_iff list_ex_iff split: option.splits)

lemma option_fits: "fits t w \<Longrightarrow> fits (TOption t) w"
  by simp

lemma fits_extensions: "extensions_valid e \<Longrightarrow> fits RUST_ThemeExtensions (enc_extensions e)"
  by (auto simp: RUST_ThemeExtensions_def enc_extensions_def fits_record extensions_valid_def fits_soloist)

lemma fits_variant_extensions:
  assumes "\<forall>a. pred_option extensions_valid (e a)"
  shows "fits RUST_ThemeVariantExtensions (enc_variant_extensions e)"
  using spec [OF assms, of AppLight] spec [OF assms, of AppDark]
  by (auto simp: RUST_ThemeVariantExtensions_def enc_variant_extensions_def fits_record fits_extensions)

lemma fits_variants:
  assumes "pred_option colors_valid (tva_light v)" "pred_option colors_valid (tva_dark v)"
    "pred_option (\<lambda>e. \<forall>a. pred_option extensions_valid (e a)) (tva_extensions v)"
  shows "fits RUST_ThemeVariants (enc_variants v)"
  using assms by (auto simp: RUST_ThemeVariants_def enc_variants_def fits_record fits_colors fits_variant_extensions)

lemma fits_theme_file [wire]:
  assumes "theme_valid t"
  shows "fits RUST_ThemeFile (enc_theme_file t)"
proof -
  have v: "fits RUST_ThemeVariants (enc_variants v)" if "tf_variants t = Some v" for v
    using assms that by (intro fits_variants) (auto simp: theme_valid_def)
  have x: "fits RUST_ThemeExtensions (enc_extensions e)" if "tf_extensions t = Some e" for e
    using assms that by (intro fits_extensions) (auto simp: theme_valid_def)
  have c: "fits RUST_ThemeColors (enc_colors (tf_colors t))" "u8 (tf_version t)"
    using assms by (auto simp: theme_valid_def intro: fits_colors)
  show ?thesis
    using v x c by (auto simp: RUST_ThemeFile_def enc_theme_file_def fits_record fits_theme_appearance)
qed

lemma fits_terminal_appearance: "fits RUST_TerminalAppearance (enc_terminal_appearance t)"
  by (simp add: RUST_TerminalAppearance_def enc_terminal_appearance_def fits_record fits_font_weight fits_font_scale fits_line_height
    fits_letter_spacing fits_cursor_style fits_cursor_inactive_style del: fits.simps(6))

lemma fits_appearance [wire]: "appearance_valid a \<Longrightarrow> fits RUST_Appearance (enc_appearance a)"
  by (auto simp: RUST_Appearance_def enc_appearance_def fits_record fits_theme fits_font_scale fits_terminal_appearance appearance_valid_def
    glass_valid_def list_all_iff fits_theme_file)

lemma fits_glass [wire]: "glass_valid n \<Longrightarrow> fits TGlass (WNum n)"
  by (simp add: glass_valid_def)

end
