(* ===== verification/Commands.thy ===== *)
theory Commands
  imports Wire
begin

section \<open>The commands the core registers\<close>

text \<open>
  The commands of the desktop shell (\<open>crates/app/src/lib.rs\<close> and \<open>crates/app/src/commands/\<close>), each with the
  parameters its Rust function takes from the message, by their Rust names and types; the state and the handle that the shell
  injects are left out. The shell looks an argument up by the parameter's name in camel case, and a parameter that is an
  option may be missing.
\<close>

text \<open>A parameter: its name, whether a message must carry it, its type.\<close>

type_synonym param = "string \<times> bool \<times> wire_type"

definition SHELL_COMMANDS :: "(string \<times> param list) list" where
  "SHELL_COMMANDS =
    [(''app_info'', [])]"

definition CORE_COMMANDS :: "(string \<times> param list) list" where
  "CORE_COMMANDS =
    [(''proc_list'', []),
     (''project_list'', []),
     (''project_load'', [(''path'', True, TString)]),
     (''project_remove'', [(''project'', True, TU64)]),
     (''project_reorder'', [(''order'', True, TVec TU64)]),
     (''config_command_review'', [(''project'', True, TU64), (''name'', True, TString)]),
     (''config_trust'', [(''project'', True, TU64), (''name'', True, TString), (''variant_hash'', True, TString)]),
     (''agent_list'', []),
     (''agent_detect'', []),
     (''agent_redetect'', []),
     (''agent_launch'', [(''project'', True, TU64), (''tool'', True, TString), (''extra_args'', True, TVec TString)]),
     (''terminal_create'', [(''project'', True, TU64)]),
     (''proc_start'', [(''id'', True, TU64)]),
     (''proc_stop'', [(''id'', True, TU64)]),
     (''proc_restart'', [(''id'', True, TU64)]),
     (''proc_close'', [(''id'', True, TU64)]),
     (''agent_resume'', [(''id'', True, TU64)]),
     (''stack_start'', [(''project'', True, TU64)]),
     (''stack_stop'', [(''project'', True, TU64)]),
     (''stack_restart_running'', [(''project'', True, TU64)]),
     (''pty_write'', [(''id'', True, TU64), (''data'', True, TString)]),
     (''pty_resize'', [(''id'', True, TU64), (''cols'', True, TU16), (''rows'', True, TU16)]),
     (''pty_attach'', [(''id'', True, TU64), (''on_chunk'', True, TChannel)]),
     (''pty_detach'', [(''token'', True, TU64)]),
     (''orphans_resolve'', [(''pgids'', True, TVec TI32)])]"

definition TRUST_COMMANDS :: "(string \<times> param list) list" where
  "TRUST_COMMANDS =
    [(''trust_requests'', [(''project'', True, TU64)]),
     (''trust_request_approve'', [(''request'', True, TU64), (''variant_hash'', True, TString)]),
     (''trust_request_deny'', [(''request'', True, TU64)]),
     (''trust_grants'', [(''project'', True, TU64)]),
     (''trust_revoke'', [(''project'', True, TU64), (''variant_hash'', True, TString)])]"

definition SETTINGS_COMMANDS :: "(string \<times> param list) list" where
  "SETTINGS_COMMANDS =
    [(''appearance'', []),
     (''set_appearance'', [(''appearance'', True, RUST_Appearance)]),
     (''select_theme'', [(''appearance'', True, RUST_ThemeAppearance), (''theme_id'', True, TString)]),
     (''create_theme'', [(''theme'', True, RUST_ThemeFile)]),
     (''update_theme'', [(''theme'', True, RUST_ThemeFile)]),
     (''import_theme'', [(''theme_json'', True, TString), (''conflict'', True, RUST_ThemeConflictPolicy)]),
     (''inspect_theme'', [(''theme_json'', True, TString)]),
     (''duplicate_theme'', [(''theme_id'', True, TString)]),
     (''remove_theme'', [(''theme_id'', True, TString)]),
     (''set_glass_opacity'', [(''opacity'', True, TGlass)]),
     (''sidebar_settings'', []),
     (''set_sidebar_settings'', [(''sidebar'', True, RUST_Sidebar)]),
     (''hotkeys'', []),
     (''remap_hotkey'', [(''action'', True, RUST_HotkeyAction), (''binding'', True, RUST_Binding)]),
     (''disable_hotkey'', [(''action'', True, RUST_HotkeyAction)]),
     (''reset_hotkey'', [(''action'', True, RUST_HotkeyAction)]),
     (''reset_all_hotkeys'', []),
     (''tool_defaults'', []),
     (''set_tool_defaults'', [(''tools'', True, RUST_ToolDefaults)]),
     (''assist_settings'', []),
     (''set_assist_settings'', [(''assist'', True, RUST_Assist)]),
     (''integration_settings'', []),
     (''set_integration_settings'', [(''integrations'', True, RUST_Integrations)]),
     (''notification_settings'', []),
     (''set_notification_settings'', [(''notifications'', True, RUST_Notifications)]),
     (''mcp_tool_groups'', []),
     (''set_mcp_tool_group'', [(''group'', True, RUST_McpFeatureGroup), (''enabled'', True, TBool)]),
     (''mcp_setup_info'', [])]"

definition ATTENTION_COMMANDS :: "(string \<times> param list) list" where
  "ATTENTION_COMMANDS =
    [(''set_presence'', [(''presence'', True, RUST_Presence)]),
     (''attention_snapshot'', []),
     (''clear_attention'', [(''process'', True, TU64)]),
     (''clear_all_attention'', []),
     (''send_test_notification'', []),
     (''notifier_status'', [])]"

definition TEMPLATES_COMMANDS :: "(string \<times> param list) list" where
  "TEMPLATES_COMMANDS =
    [(''templates'', [(''kind'', True, RUST_TemplateKind), (''project'', False, TOption TU64)]),
     (''template_read'', [(''kind'', True, RUST_TemplateKind), (''project'', False, TOption TU64), (''name'', True, TString)]),
     (''template_create'', [(''kind'', True, RUST_TemplateKind), (''project'', False, TOption TU64), (''name'', True, TString), (''description'', False, TOption TString), (''body'', True, TString)]),
     (''template_update'', [(''kind'', True, RUST_TemplateKind), (''project'', False, TOption TU64), (''name'', True, TString), (''description'', False, TOption TString), (''body'', True, TString), (''expected_revision'', True, TU64)]),
     (''template_delete'', [(''kind'', True, RUST_TemplateKind), (''project'', False, TOption TU64), (''name'', True, TString)]),
     (''template_render'', [(''project'', False, TOption TU64), (''name'', True, TString), (''values'', True, TDict TString)])]"

definition PROJECT_SETTINGS_COMMANDS :: "(string \<times> param list) list" where
  "PROJECT_SETTINGS_COMMANDS =
    [(''template_defaults'', [(''project'', True, TU64)]),
     (''set_default_template'', [(''kind'', True, RUST_TemplateKind), (''project'', True, TU64), (''template'', False, TOption TU64)]),
     (''project_settings_page'', [(''project'', True, TU64)]),
     (''project_settings'', [(''project'', True, TU64)]),
     (''set_project_auto_start_gate'', [(''project'', True, TU64), (''engaged'', True, TBool)]),
     (''set_project_auto_trust_command_changes'', [(''project'', True, TU64), (''enabled'', True, TBool)]),
     (''set_project_editor_override'', [(''project'', True, TU64), (''editor'', False, TOption TString)]),
     (''set_project_notification_level'', [(''project'', True, TU64), (''level'', True, RUST_NotificationLevel)]),
     (''set_command_notification_level'', [(''project'', True, TU64), (''command'', True, TString), (''level'', False, TOption RUST_NotificationLevel)]),
     (''add_shared_command'', [(''project'', True, TU64), (''name'', True, TString), (''spec'', True, RUST_ProcessSpec)]),
     (''edit_shared_command'', [(''project'', True, TU64), (''name'', True, TString), (''spec'', True, RUST_ProcessSpec)]),
     (''rename_shared_command'', [(''project'', True, TU64), (''from'', True, TString), (''to'', True, TString)]),
     (''remove_shared_command'', [(''project'', True, TU64), (''name'', True, TString)]),
     (''add_local_command'', [(''project'', True, TU64), (''name'', True, TString), (''spec'', True, RUST_ProcessSpec)]),
     (''edit_local_command'', [(''project'', True, TU64), (''name'', True, TString), (''spec'', True, RUST_ProcessSpec)]),
     (''rename_local_command'', [(''project'', True, TU64), (''from'', True, TString), (''to'', True, TString)]),
     (''remove_local_command'', [(''project'', True, TU64), (''name'', True, TString)]),
     (''make_command_local'', [(''project'', True, TU64), (''name'', True, TString)]),
     (''save_command_to_yaml'', [(''project'', True, TU64), (''name'', True, TString)]),
     (''set_project_icon'', [(''project'', True, TU64), (''icon'', False, TOption TString)])]"

definition GIT_COMMANDS :: "(string \<times> param list) list" where
  "GIT_COMMANDS =
    [(''git_status'', [(''project'', True, TU64)]),
     (''git_files'', [(''project'', True, TU64)]),
     (''git_diff'', [(''project'', True, TU64), (''path'', True, TString), (''target'', True, RUST_DiffTarget), (''extent'', True, RUST_DiffExtent)]),
     (''git_file'', [(''project'', True, TU64), (''path'', True, TString)]),
     (''git_open_file'', [(''project'', True, TU64), (''path'', True, TString)]),
     (''git_trusted'', [(''project'', True, TU64)]),
     (''git_trust_project'', [(''project'', True, TU64)]),
     (''git_stage'', [(''project'', True, TU64), (''path'', True, TString)]),
     (''git_unstage'', [(''project'', True, TU64), (''path'', True, TString)]),
     (''git_discard'', [(''project'', True, TU64), (''path'', True, TString)]),
     (''git_stage_hunk'', [(''project'', True, TU64), (''path'', True, TString), (''hunk'', True, RUST_HunkRange)]),
     (''git_unstage_hunk'', [(''project'', True, TU64), (''path'', True, TString), (''hunk'', True, RUST_HunkRange)]),
     (''git_discard_hunk'', [(''project'', True, TU64), (''path'', True, TString), (''hunk'', True, RUST_HunkRange)]),
     (''git_commit'', [(''project'', True, TU64), (''message'', True, TString), (''amend'', True, TBool)]),
     (''git_commit_template'', [(''project'', True, TU64)]),
     (''git_draft_commit_message'', [(''project'', True, TU64)])]"

definition GIT_BRANCHES_COMMANDS :: "(string \<times> param list) list" where
  "GIT_BRANCHES_COMMANDS =
    [(''git_branches'', [(''project'', True, TU64)]),
     (''git_create_branch'', [(''project'', True, TU64), (''name'', True, TString)]),
     (''git_switch_branch'', [(''project'', True, TU64), (''name'', True, TString)]),
     (''git_delete_branch'', [(''project'', True, TU64), (''name'', True, TString)]),
     (''git_stash'', [(''project'', True, TU64)]),
     (''git_pop_stash'', [(''project'', True, TU64)])]"

definition GIT_SYNC_COMMANDS :: "(string \<times> param list) list" where
  "GIT_SYNC_COMMANDS =
    [(''git_push'', [(''project'', True, TU64)]),
     (''git_pull'', [(''project'', True, TU64)]),
     (''git_fetch'', [(''project'', True, TU64)]),
     (''git_stop_exchange'', [(''project'', True, TU64)]),
     (''git_abort_merge'', [(''project'', True, TU64)])]"

definition GIT_PR_COMMANDS :: "(string \<times> param list) list" where
  "GIT_PR_COMMANDS =
    [(''git_pull_request_surface'', [(''project'', True, TU64)]),
     (''git_create_pull_request'', [(''project'', True, TU64), (''request'', True, RUST_NewPullRequest)]),
     (''git_draft_pull_request_body'', [(''project'', True, TU64), (''base'', True, TString), (''skeleton'', True, TString)])]"

definition GIT_REVIEW_COMMANDS :: "(string \<times> param list) list" where
  "GIT_REVIEW_COMMANDS =
    [(''git_pull_request_review'', [(''project'', True, TU64)]),
     (''git_merge_pull_request'', [(''project'', True, TU64), (''number'', True, TU64), (''method'', True, RUST_MergeMethod)]),
     (''git_hand_off'', [(''project'', True, TU64), (''subject'', True, RUST_HandoffSubject), (''target'', False, TOption TU64)])]"

definition ORCHESTRATION_COMMANDS :: "(string \<times> param list) list" where
  "ORCHESTRATION_COMMANDS =
    [(''orchestration_snapshot'', [(''project'', True, TU64)]),
     (''lineage_edges'', []),
     (''agent_activity'', [])]"

definition COORDINATION_COMMANDS :: "(string \<times> param list) list" where
  "COORDINATION_COMMANDS =
    [(''scratchpad_read'', [(''project'', True, TU64), (''name'', True, TString)]),
     (''scratchpad_write'', [(''project'', True, TU64), (''name'', True, TString), (''body'', True, TString), (''expected_revision'', False, TOption TU64)]),
     (''scratchpad_archive'', [(''project'', True, TU64), (''name'', True, TString), (''archived'', True, TBool)]),
     (''scratchpad_rename'', [(''project'', True, TU64), (''from'', True, TString), (''to'', True, TString)]),
     (''diagram_read'', [(''project'', True, TU64), (''name'', True, TString)]),
     (''diagram_write'', [(''project'', True, TU64), (''name'', True, TString), (''source'', True, TString), (''expected_revision'', False, TOption TU64)]),
     (''diagram_archive'', [(''project'', True, TU64), (''name'', True, TString), (''archived'', True, TBool)]),
     (''diagram_rename'', [(''project'', True, TU64), (''from'', True, TString), (''to'', True, TString)]),
     (''todo_create'', [(''project'', True, TU64), (''doc'', True, RUST_TodoDoc), (''scratchpad'', False, TOption TU64)]),
     (''todo_update'', [(''project'', True, TU64), (''id'', True, TU64), (''doc'', True, RUST_TodoDoc), (''scratchpad'', False, TOption TU64), (''expected_revision'', True, TU64)]),
     (''todo_complete'', [(''project'', True, TU64), (''id'', True, TU64)]),
     (''todo_set_blockers'', [(''project'', True, TU64), (''id'', True, TU64), (''blockers'', True, TVec TU64)]),
     (''todo_add_blocker'', [(''project'', True, TU64), (''id'', True, TU64), (''blocker'', True, TU64)]),
     (''todo_remove_blocker'', [(''project'', True, TU64), (''id'', True, TU64), (''blocker'', True, TU64)]),
     (''todo_comment_create'', [(''project'', True, TU64), (''id'', True, TU64), (''body'', True, TString)]),
     (''scratchpad_link'', [(''project'', True, TU64), (''scratchpad'', True, TU64)]),
     (''todo_link'', [(''project'', True, TU64), (''todo'', True, TU64)])]"

definition EXPORT_COMMANDS :: "(string \<times> param list) list" where
  "EXPORT_COMMANDS =
    [(''export_markdown'', [(''path'', True, TString), (''contents'', True, TString)]),
     (''export_bytes'', [(''path'', True, TString), (''bytes'', True, TVec TU8)])]"

definition TIMERS_COMMANDS :: "(string \<times> param list) list" where
  "TIMERS_COMMANDS =
    [(''timer_cancel'', [(''owner'', True, TU64), (''timer'', True, TU64)]),
     (''timer_pause'', [(''owner'', True, TU64), (''timer'', True, TU64)]),
     (''timer_resume'', [(''owner'', True, TU64), (''timer'', True, TU64)])]"

definition COMMANDS :: "(string \<times> param list) list" where
  "COMMANDS = SHELL_COMMANDS
     @ CORE_COMMANDS
     @ TRUST_COMMANDS
     @ SETTINGS_COMMANDS
     @ ATTENTION_COMMANDS
     @ TEMPLATES_COMMANDS
     @ PROJECT_SETTINGS_COMMANDS
     @ GIT_COMMANDS
     @ GIT_BRANCHES_COMMANDS
     @ GIT_SYNC_COMMANDS
     @ GIT_PR_COMMANDS
     @ GIT_REVIEW_COMMANDS
     @ ORCHESTRATION_COMMANDS
     @ COORDINATION_COMMANDS
     @ EXPORT_COMMANDS
     @ TIMERS_COMMANDS"

text \<open>The names the shell looks arguments up by.\<close>

definition upper_char :: "char \<Rightarrow> char" where
  "upper_char c = char_of (ascii_upper (of_char c))"

fun camel :: "string \<Rightarrow> string" where
  "camel (c # d # cs) = (if c = CHR ''_'' then upper_char d # camel cs else c # camel (d # cs))"
| "camel cs = cs"

definition camel_param :: "param \<Rightarrow> param" where
  "camel_param = map_prod camel (\<lambda>t. t)"

lemma camel_names:
  "camel ''action'' = ''action''"
  "camel ''amend'' = ''amend''"
  "camel ''appearance'' = ''appearance''"
  "camel ''archived'' = ''archived''"
  "camel ''assist'' = ''assist''"
  "camel ''base'' = ''base''"
  "camel ''binding'' = ''binding''"
  "camel ''blocker'' = ''blocker''"
  "camel ''blockers'' = ''blockers''"
  "camel ''body'' = ''body''"
  "camel ''bytes'' = ''bytes''"
  "camel ''cols'' = ''cols''"
  "camel ''command'' = ''command''"
  "camel ''conflict'' = ''conflict''"
  "camel ''contents'' = ''contents''"
  "camel ''data'' = ''data''"
  "camel ''description'' = ''description''"
  "camel ''doc'' = ''doc''"
  "camel ''editor'' = ''editor''"
  "camel ''enabled'' = ''enabled''"
  "camel ''engaged'' = ''engaged''"
  "camel ''expected_revision'' = ''expectedRevision''"
  "camel ''extent'' = ''extent''"
  "camel ''extra_args'' = ''extraArgs''"
  "camel ''from'' = ''from''"
  "camel ''group'' = ''group''"
  "camel ''hunk'' = ''hunk''"
  "camel ''icon'' = ''icon''"
  "camel ''id'' = ''id''"
  "camel ''integrations'' = ''integrations''"
  "camel ''kind'' = ''kind''"
  "camel ''level'' = ''level''"
  "camel ''message'' = ''message''"
  "camel ''method'' = ''method''"
  "camel ''name'' = ''name''"
  "camel ''notifications'' = ''notifications''"
  "camel ''number'' = ''number''"
  "camel ''on_chunk'' = ''onChunk''"
  "camel ''opacity'' = ''opacity''"
  "camel ''order'' = ''order''"
  "camel ''owner'' = ''owner''"
  "camel ''path'' = ''path''"
  "camel ''pgids'' = ''pgids''"
  "camel ''presence'' = ''presence''"
  "camel ''process'' = ''process''"
  "camel ''project'' = ''project''"
  "camel ''request'' = ''request''"
  "camel ''rows'' = ''rows''"
  "camel ''scratchpad'' = ''scratchpad''"
  "camel ''sidebar'' = ''sidebar''"
  "camel ''skeleton'' = ''skeleton''"
  "camel ''source'' = ''source''"
  "camel ''spec'' = ''spec''"
  "camel ''subject'' = ''subject''"
  "camel ''target'' = ''target''"
  "camel ''template'' = ''template''"
  "camel ''theme'' = ''theme''"
  "camel ''theme_id'' = ''themeId''"
  "camel ''theme_json'' = ''themeJson''"
  "camel ''timer'' = ''timer''"
  "camel ''to'' = ''to''"
  "camel ''todo'' = ''todo''"
  "camel ''token'' = ''token''"
  "camel ''tool'' = ''tool''"
  "camel ''tools'' = ''tools''"
  "camel ''values'' = ''values''"
  "camel ''variant_hash'' = ''variantHash''"
  by (simp_all add: upper_char_def ascii_upper_def char_of_def bit_0)

declare camel.simps [simp del]

text \<open>
  A call is a command's name and the object of its arguments. The core carries it out when the command is registered and
  every parameter finds its argument; \<open>accepts\<close> asks besides that no argument goes unread, as a key the core does not know would.
\<close>

type_synonym Call = "jstring \<times> (jstring \<times> wire) list"

definition accepts :: "Call \<Rightarrow> bool" where
  "accepts c = list_ex (\<lambda>(name, ps). lit name = fst c \<and> fits (TRec True (map camel_param ps)) (WObj (snd c))) COMMANDS"

definition invoke :: "string \<Rightarrow> (string \<times> wire) list \<Rightarrow> Call" where
  "invoke command args = (lit command, map (\<lambda>(k, w). (lit k, w)) args)"

lemma accepted:
  assumes "(name, ps) \<in> set COMMANDS" "fits (TRec True (map camel_param ps)) (wobj args)"
  shows "accepts (invoke name args)"
  using assms by (auto simp: accepts_def invoke_def wobj_def list_ex_iff)

named_theorems registered

lemma shell_commands_sub: "x \<in> set SHELL_COMMANDS \<Longrightarrow> x \<in> set COMMANDS"
  by (simp add: COMMANDS_def)

lemma shell_commands_registered [registered]:
  "(''app_info'', []) \<in> set COMMANDS"
  by (rule shell_commands_sub, unfold SHELL_COMMANDS_def, (rule list.set_intros)+)+

lemma core_commands_sub: "x \<in> set CORE_COMMANDS \<Longrightarrow> x \<in> set COMMANDS"
  by (simp add: COMMANDS_def)

lemma core_commands_registered [registered]:
  "(''proc_list'', []) \<in> set COMMANDS"
  "(''project_list'', []) \<in> set COMMANDS"
  "(''project_load'', [(''path'', True, TString)]) \<in> set COMMANDS"
  "(''project_remove'', [(''project'', True, TU64)]) \<in> set COMMANDS"
  "(''project_reorder'', [(''order'', True, TVec TU64)]) \<in> set COMMANDS"
  "(''config_command_review'', [(''project'', True, TU64), (''name'', True, TString)]) \<in> set COMMANDS"
  "(''config_trust'', [(''project'', True, TU64), (''name'', True, TString), (''variant_hash'', True, TString)]) \<in> set COMMANDS"
  "(''agent_list'', []) \<in> set COMMANDS"
  "(''agent_detect'', []) \<in> set COMMANDS"
  "(''agent_redetect'', []) \<in> set COMMANDS"
  "(''agent_launch'', [(''project'', True, TU64), (''tool'', True, TString), (''extra_args'', True, TVec TString)]) \<in> set COMMANDS"
  "(''terminal_create'', [(''project'', True, TU64)]) \<in> set COMMANDS"
  "(''proc_start'', [(''id'', True, TU64)]) \<in> set COMMANDS"
  "(''proc_stop'', [(''id'', True, TU64)]) \<in> set COMMANDS"
  "(''proc_restart'', [(''id'', True, TU64)]) \<in> set COMMANDS"
  "(''proc_close'', [(''id'', True, TU64)]) \<in> set COMMANDS"
  "(''agent_resume'', [(''id'', True, TU64)]) \<in> set COMMANDS"
  "(''stack_start'', [(''project'', True, TU64)]) \<in> set COMMANDS"
  "(''stack_stop'', [(''project'', True, TU64)]) \<in> set COMMANDS"
  "(''stack_restart_running'', [(''project'', True, TU64)]) \<in> set COMMANDS"
  "(''pty_write'', [(''id'', True, TU64), (''data'', True, TString)]) \<in> set COMMANDS"
  "(''pty_resize'', [(''id'', True, TU64), (''cols'', True, TU16), (''rows'', True, TU16)]) \<in> set COMMANDS"
  "(''pty_attach'', [(''id'', True, TU64), (''on_chunk'', True, TChannel)]) \<in> set COMMANDS"
  "(''pty_detach'', [(''token'', True, TU64)]) \<in> set COMMANDS"
  "(''orphans_resolve'', [(''pgids'', True, TVec TI32)]) \<in> set COMMANDS"
  by (rule core_commands_sub, unfold CORE_COMMANDS_def, (rule list.set_intros)+)+

lemma trust_commands_sub: "x \<in> set TRUST_COMMANDS \<Longrightarrow> x \<in> set COMMANDS"
  by (simp add: COMMANDS_def)

lemma trust_commands_registered [registered]:
  "(''trust_requests'', [(''project'', True, TU64)]) \<in> set COMMANDS"
  "(''trust_request_approve'', [(''request'', True, TU64), (''variant_hash'', True, TString)]) \<in> set COMMANDS"
  "(''trust_request_deny'', [(''request'', True, TU64)]) \<in> set COMMANDS"
  "(''trust_grants'', [(''project'', True, TU64)]) \<in> set COMMANDS"
  "(''trust_revoke'', [(''project'', True, TU64), (''variant_hash'', True, TString)]) \<in> set COMMANDS"
  by (rule trust_commands_sub, unfold TRUST_COMMANDS_def, (rule list.set_intros)+)+

lemma settings_commands_sub: "x \<in> set SETTINGS_COMMANDS \<Longrightarrow> x \<in> set COMMANDS"
  by (simp add: COMMANDS_def)

lemma settings_commands_registered [registered]:
  "(''appearance'', []) \<in> set COMMANDS"
  "(''set_appearance'', [(''appearance'', True, RUST_Appearance)]) \<in> set COMMANDS"
  "(''select_theme'', [(''appearance'', True, RUST_ThemeAppearance), (''theme_id'', True, TString)]) \<in> set COMMANDS"
  "(''create_theme'', [(''theme'', True, RUST_ThemeFile)]) \<in> set COMMANDS"
  "(''update_theme'', [(''theme'', True, RUST_ThemeFile)]) \<in> set COMMANDS"
  "(''import_theme'', [(''theme_json'', True, TString), (''conflict'', True, RUST_ThemeConflictPolicy)]) \<in> set COMMANDS"
  "(''inspect_theme'', [(''theme_json'', True, TString)]) \<in> set COMMANDS"
  "(''duplicate_theme'', [(''theme_id'', True, TString)]) \<in> set COMMANDS"
  "(''remove_theme'', [(''theme_id'', True, TString)]) \<in> set COMMANDS"
  "(''set_glass_opacity'', [(''opacity'', True, TGlass)]) \<in> set COMMANDS"
  "(''sidebar_settings'', []) \<in> set COMMANDS"
  "(''set_sidebar_settings'', [(''sidebar'', True, RUST_Sidebar)]) \<in> set COMMANDS"
  "(''hotkeys'', []) \<in> set COMMANDS"
  "(''remap_hotkey'', [(''action'', True, RUST_HotkeyAction), (''binding'', True, RUST_Binding)]) \<in> set COMMANDS"
  "(''disable_hotkey'', [(''action'', True, RUST_HotkeyAction)]) \<in> set COMMANDS"
  "(''reset_hotkey'', [(''action'', True, RUST_HotkeyAction)]) \<in> set COMMANDS"
  "(''reset_all_hotkeys'', []) \<in> set COMMANDS"
  "(''tool_defaults'', []) \<in> set COMMANDS"
  "(''set_tool_defaults'', [(''tools'', True, RUST_ToolDefaults)]) \<in> set COMMANDS"
  "(''assist_settings'', []) \<in> set COMMANDS"
  "(''set_assist_settings'', [(''assist'', True, RUST_Assist)]) \<in> set COMMANDS"
  "(''integration_settings'', []) \<in> set COMMANDS"
  "(''set_integration_settings'', [(''integrations'', True, RUST_Integrations)]) \<in> set COMMANDS"
  "(''notification_settings'', []) \<in> set COMMANDS"
  "(''set_notification_settings'', [(''notifications'', True, RUST_Notifications)]) \<in> set COMMANDS"
  "(''mcp_tool_groups'', []) \<in> set COMMANDS"
  "(''set_mcp_tool_group'', [(''group'', True, RUST_McpFeatureGroup), (''enabled'', True, TBool)]) \<in> set COMMANDS"
  "(''mcp_setup_info'', []) \<in> set COMMANDS"
  by (rule settings_commands_sub, unfold SETTINGS_COMMANDS_def, (rule list.set_intros)+)+

lemma attention_commands_sub: "x \<in> set ATTENTION_COMMANDS \<Longrightarrow> x \<in> set COMMANDS"
  by (simp add: COMMANDS_def)

lemma attention_commands_registered [registered]:
  "(''set_presence'', [(''presence'', True, RUST_Presence)]) \<in> set COMMANDS"
  "(''attention_snapshot'', []) \<in> set COMMANDS"
  "(''clear_attention'', [(''process'', True, TU64)]) \<in> set COMMANDS"
  "(''clear_all_attention'', []) \<in> set COMMANDS"
  "(''send_test_notification'', []) \<in> set COMMANDS"
  "(''notifier_status'', []) \<in> set COMMANDS"
  by (rule attention_commands_sub, unfold ATTENTION_COMMANDS_def, (rule list.set_intros)+)+

lemma templates_commands_sub: "x \<in> set TEMPLATES_COMMANDS \<Longrightarrow> x \<in> set COMMANDS"
  by (simp add: COMMANDS_def)

lemma templates_commands_registered [registered]:
  "(''templates'', [(''kind'', True, RUST_TemplateKind), (''project'', False, TOption TU64)]) \<in> set COMMANDS"
  "(''template_read'', [(''kind'', True, RUST_TemplateKind), (''project'', False, TOption TU64), (''name'', True, TString)]) \<in> set COMMANDS"
  "(''template_create'', [(''kind'', True, RUST_TemplateKind), (''project'', False, TOption TU64), (''name'', True, TString), (''description'', False, TOption TString), (''body'', True, TString)]) \<in> set COMMANDS"
  "(''template_update'', [(''kind'', True, RUST_TemplateKind), (''project'', False, TOption TU64), (''name'', True, TString), (''description'', False, TOption TString), (''body'', True, TString), (''expected_revision'', True, TU64)]) \<in> set COMMANDS"
  "(''template_delete'', [(''kind'', True, RUST_TemplateKind), (''project'', False, TOption TU64), (''name'', True, TString)]) \<in> set COMMANDS"
  "(''template_render'', [(''project'', False, TOption TU64), (''name'', True, TString), (''values'', True, TDict TString)]) \<in> set COMMANDS"
  by (rule templates_commands_sub, unfold TEMPLATES_COMMANDS_def, (rule list.set_intros)+)+

lemma project_settings_commands_sub: "x \<in> set PROJECT_SETTINGS_COMMANDS \<Longrightarrow> x \<in> set COMMANDS"
  by (simp add: COMMANDS_def)

lemma project_settings_commands_registered [registered]:
  "(''template_defaults'', [(''project'', True, TU64)]) \<in> set COMMANDS"
  "(''set_default_template'', [(''kind'', True, RUST_TemplateKind), (''project'', True, TU64), (''template'', False, TOption TU64)]) \<in> set COMMANDS"
  "(''project_settings_page'', [(''project'', True, TU64)]) \<in> set COMMANDS"
  "(''project_settings'', [(''project'', True, TU64)]) \<in> set COMMANDS"
  "(''set_project_auto_start_gate'', [(''project'', True, TU64), (''engaged'', True, TBool)]) \<in> set COMMANDS"
  "(''set_project_auto_trust_command_changes'', [(''project'', True, TU64), (''enabled'', True, TBool)]) \<in> set COMMANDS"
  "(''set_project_editor_override'', [(''project'', True, TU64), (''editor'', False, TOption TString)]) \<in> set COMMANDS"
  "(''set_project_notification_level'', [(''project'', True, TU64), (''level'', True, RUST_NotificationLevel)]) \<in> set COMMANDS"
  "(''set_command_notification_level'', [(''project'', True, TU64), (''command'', True, TString), (''level'', False, TOption RUST_NotificationLevel)]) \<in> set COMMANDS"
  "(''add_shared_command'', [(''project'', True, TU64), (''name'', True, TString), (''spec'', True, RUST_ProcessSpec)]) \<in> set COMMANDS"
  "(''edit_shared_command'', [(''project'', True, TU64), (''name'', True, TString), (''spec'', True, RUST_ProcessSpec)]) \<in> set COMMANDS"
  "(''rename_shared_command'', [(''project'', True, TU64), (''from'', True, TString), (''to'', True, TString)]) \<in> set COMMANDS"
  "(''remove_shared_command'', [(''project'', True, TU64), (''name'', True, TString)]) \<in> set COMMANDS"
  "(''add_local_command'', [(''project'', True, TU64), (''name'', True, TString), (''spec'', True, RUST_ProcessSpec)]) \<in> set COMMANDS"
  "(''edit_local_command'', [(''project'', True, TU64), (''name'', True, TString), (''spec'', True, RUST_ProcessSpec)]) \<in> set COMMANDS"
  "(''rename_local_command'', [(''project'', True, TU64), (''from'', True, TString), (''to'', True, TString)]) \<in> set COMMANDS"
  "(''remove_local_command'', [(''project'', True, TU64), (''name'', True, TString)]) \<in> set COMMANDS"
  "(''make_command_local'', [(''project'', True, TU64), (''name'', True, TString)]) \<in> set COMMANDS"
  "(''save_command_to_yaml'', [(''project'', True, TU64), (''name'', True, TString)]) \<in> set COMMANDS"
  "(''set_project_icon'', [(''project'', True, TU64), (''icon'', False, TOption TString)]) \<in> set COMMANDS"
  by (rule project_settings_commands_sub, unfold PROJECT_SETTINGS_COMMANDS_def, (rule list.set_intros)+)+

lemma git_commands_sub: "x \<in> set GIT_COMMANDS \<Longrightarrow> x \<in> set COMMANDS"
  by (simp add: COMMANDS_def)

lemma git_commands_registered [registered]:
  "(''git_status'', [(''project'', True, TU64)]) \<in> set COMMANDS"
  "(''git_files'', [(''project'', True, TU64)]) \<in> set COMMANDS"
  "(''git_diff'', [(''project'', True, TU64), (''path'', True, TString), (''target'', True, RUST_DiffTarget), (''extent'', True, RUST_DiffExtent)]) \<in> set COMMANDS"
  "(''git_file'', [(''project'', True, TU64), (''path'', True, TString)]) \<in> set COMMANDS"
  "(''git_open_file'', [(''project'', True, TU64), (''path'', True, TString)]) \<in> set COMMANDS"
  "(''git_trusted'', [(''project'', True, TU64)]) \<in> set COMMANDS"
  "(''git_trust_project'', [(''project'', True, TU64)]) \<in> set COMMANDS"
  "(''git_stage'', [(''project'', True, TU64), (''path'', True, TString)]) \<in> set COMMANDS"
  "(''git_unstage'', [(''project'', True, TU64), (''path'', True, TString)]) \<in> set COMMANDS"
  "(''git_discard'', [(''project'', True, TU64), (''path'', True, TString)]) \<in> set COMMANDS"
  "(''git_stage_hunk'', [(''project'', True, TU64), (''path'', True, TString), (''hunk'', True, RUST_HunkRange)]) \<in> set COMMANDS"
  "(''git_unstage_hunk'', [(''project'', True, TU64), (''path'', True, TString), (''hunk'', True, RUST_HunkRange)]) \<in> set COMMANDS"
  "(''git_discard_hunk'', [(''project'', True, TU64), (''path'', True, TString), (''hunk'', True, RUST_HunkRange)]) \<in> set COMMANDS"
  "(''git_commit'', [(''project'', True, TU64), (''message'', True, TString), (''amend'', True, TBool)]) \<in> set COMMANDS"
  "(''git_commit_template'', [(''project'', True, TU64)]) \<in> set COMMANDS"
  "(''git_draft_commit_message'', [(''project'', True, TU64)]) \<in> set COMMANDS"
  by (rule git_commands_sub, unfold GIT_COMMANDS_def, (rule list.set_intros)+)+

lemma git_branches_commands_sub: "x \<in> set GIT_BRANCHES_COMMANDS \<Longrightarrow> x \<in> set COMMANDS"
  by (simp add: COMMANDS_def)

lemma git_branches_commands_registered [registered]:
  "(''git_branches'', [(''project'', True, TU64)]) \<in> set COMMANDS"
  "(''git_create_branch'', [(''project'', True, TU64), (''name'', True, TString)]) \<in> set COMMANDS"
  "(''git_switch_branch'', [(''project'', True, TU64), (''name'', True, TString)]) \<in> set COMMANDS"
  "(''git_delete_branch'', [(''project'', True, TU64), (''name'', True, TString)]) \<in> set COMMANDS"
  "(''git_stash'', [(''project'', True, TU64)]) \<in> set COMMANDS"
  "(''git_pop_stash'', [(''project'', True, TU64)]) \<in> set COMMANDS"
  by (rule git_branches_commands_sub, unfold GIT_BRANCHES_COMMANDS_def, (rule list.set_intros)+)+

lemma git_sync_commands_sub: "x \<in> set GIT_SYNC_COMMANDS \<Longrightarrow> x \<in> set COMMANDS"
  by (simp add: COMMANDS_def)

lemma git_sync_commands_registered [registered]:
  "(''git_push'', [(''project'', True, TU64)]) \<in> set COMMANDS"
  "(''git_pull'', [(''project'', True, TU64)]) \<in> set COMMANDS"
  "(''git_fetch'', [(''project'', True, TU64)]) \<in> set COMMANDS"
  "(''git_stop_exchange'', [(''project'', True, TU64)]) \<in> set COMMANDS"
  "(''git_abort_merge'', [(''project'', True, TU64)]) \<in> set COMMANDS"
  by (rule git_sync_commands_sub, unfold GIT_SYNC_COMMANDS_def, (rule list.set_intros)+)+

lemma git_pr_commands_sub: "x \<in> set GIT_PR_COMMANDS \<Longrightarrow> x \<in> set COMMANDS"
  by (simp add: COMMANDS_def)

lemma git_pr_commands_registered [registered]:
  "(''git_pull_request_surface'', [(''project'', True, TU64)]) \<in> set COMMANDS"
  "(''git_create_pull_request'', [(''project'', True, TU64), (''request'', True, RUST_NewPullRequest)]) \<in> set COMMANDS"
  "(''git_draft_pull_request_body'', [(''project'', True, TU64), (''base'', True, TString), (''skeleton'', True, TString)]) \<in> set COMMANDS"
  by (rule git_pr_commands_sub, unfold GIT_PR_COMMANDS_def, (rule list.set_intros)+)+

lemma git_review_commands_sub: "x \<in> set GIT_REVIEW_COMMANDS \<Longrightarrow> x \<in> set COMMANDS"
  by (simp add: COMMANDS_def)

lemma git_review_commands_registered [registered]:
  "(''git_pull_request_review'', [(''project'', True, TU64)]) \<in> set COMMANDS"
  "(''git_merge_pull_request'', [(''project'', True, TU64), (''number'', True, TU64), (''method'', True, RUST_MergeMethod)]) \<in> set COMMANDS"
  "(''git_hand_off'', [(''project'', True, TU64), (''subject'', True, RUST_HandoffSubject), (''target'', False, TOption TU64)]) \<in> set COMMANDS"
  by (rule git_review_commands_sub, unfold GIT_REVIEW_COMMANDS_def, (rule list.set_intros)+)+

lemma orchestration_commands_sub: "x \<in> set ORCHESTRATION_COMMANDS \<Longrightarrow> x \<in> set COMMANDS"
  by (simp add: COMMANDS_def)

lemma orchestration_commands_registered [registered]:
  "(''orchestration_snapshot'', [(''project'', True, TU64)]) \<in> set COMMANDS"
  "(''lineage_edges'', []) \<in> set COMMANDS"
  "(''agent_activity'', []) \<in> set COMMANDS"
  by (rule orchestration_commands_sub, unfold ORCHESTRATION_COMMANDS_def, (rule list.set_intros)+)+

lemma coordination_commands_sub: "x \<in> set COORDINATION_COMMANDS \<Longrightarrow> x \<in> set COMMANDS"
  by (simp add: COMMANDS_def)

lemma coordination_commands_registered [registered]:
  "(''scratchpad_read'', [(''project'', True, TU64), (''name'', True, TString)]) \<in> set COMMANDS"
  "(''scratchpad_write'', [(''project'', True, TU64), (''name'', True, TString), (''body'', True, TString), (''expected_revision'', False, TOption TU64)]) \<in> set COMMANDS"
  "(''scratchpad_archive'', [(''project'', True, TU64), (''name'', True, TString), (''archived'', True, TBool)]) \<in> set COMMANDS"
  "(''scratchpad_rename'', [(''project'', True, TU64), (''from'', True, TString), (''to'', True, TString)]) \<in> set COMMANDS"
  "(''diagram_read'', [(''project'', True, TU64), (''name'', True, TString)]) \<in> set COMMANDS"
  "(''diagram_write'', [(''project'', True, TU64), (''name'', True, TString), (''source'', True, TString), (''expected_revision'', False, TOption TU64)]) \<in> set COMMANDS"
  "(''diagram_archive'', [(''project'', True, TU64), (''name'', True, TString), (''archived'', True, TBool)]) \<in> set COMMANDS"
  "(''diagram_rename'', [(''project'', True, TU64), (''from'', True, TString), (''to'', True, TString)]) \<in> set COMMANDS"
  "(''todo_create'', [(''project'', True, TU64), (''doc'', True, RUST_TodoDoc), (''scratchpad'', False, TOption TU64)]) \<in> set COMMANDS"
  "(''todo_update'', [(''project'', True, TU64), (''id'', True, TU64), (''doc'', True, RUST_TodoDoc), (''scratchpad'', False, TOption TU64), (''expected_revision'', True, TU64)]) \<in> set COMMANDS"
  "(''todo_complete'', [(''project'', True, TU64), (''id'', True, TU64)]) \<in> set COMMANDS"
  "(''todo_set_blockers'', [(''project'', True, TU64), (''id'', True, TU64), (''blockers'', True, TVec TU64)]) \<in> set COMMANDS"
  "(''todo_add_blocker'', [(''project'', True, TU64), (''id'', True, TU64), (''blocker'', True, TU64)]) \<in> set COMMANDS"
  "(''todo_remove_blocker'', [(''project'', True, TU64), (''id'', True, TU64), (''blocker'', True, TU64)]) \<in> set COMMANDS"
  "(''todo_comment_create'', [(''project'', True, TU64), (''id'', True, TU64), (''body'', True, TString)]) \<in> set COMMANDS"
  "(''scratchpad_link'', [(''project'', True, TU64), (''scratchpad'', True, TU64)]) \<in> set COMMANDS"
  "(''todo_link'', [(''project'', True, TU64), (''todo'', True, TU64)]) \<in> set COMMANDS"
  by (rule coordination_commands_sub, unfold COORDINATION_COMMANDS_def, (rule list.set_intros)+)+

lemma export_commands_sub: "x \<in> set EXPORT_COMMANDS \<Longrightarrow> x \<in> set COMMANDS"
  by (simp add: COMMANDS_def)

lemma export_commands_registered [registered]:
  "(''export_markdown'', [(''path'', True, TString), (''contents'', True, TString)]) \<in> set COMMANDS"
  "(''export_bytes'', [(''path'', True, TString), (''bytes'', True, TVec TU8)]) \<in> set COMMANDS"
  by (rule export_commands_sub, unfold EXPORT_COMMANDS_def, (rule list.set_intros)+)+

lemma timers_commands_sub: "x \<in> set TIMERS_COMMANDS \<Longrightarrow> x \<in> set COMMANDS"
  by (simp add: COMMANDS_def)

lemma timers_commands_registered [registered]:
  "(''timer_cancel'', [(''owner'', True, TU64), (''timer'', True, TU64)]) \<in> set COMMANDS"
  "(''timer_pause'', [(''owner'', True, TU64), (''timer'', True, TU64)]) \<in> set COMMANDS"
  "(''timer_resume'', [(''owner'', True, TU64), (''timer'', True, TU64)]) \<in> set COMMANDS"
  by (rule timers_commands_sub, unfold TIMERS_COMMANDS_def, (rule list.set_intros)+)+

end
