(* ===== verification/Api.thy ===== *)
theory Api
  imports Commands "HOL-Library.Word"
begin

section \<open>The client\<close>

text \<open>
  \<open>api.ts\<close>, the one module of the front end that speaks to the core. A function of it that invokes one command is the
  \<open>Call\<close> it makes of its parameters; the reply is returned as it is. Three ask the desktop for a path first, one hands
  the core a channel whose frames it unpacks, and two listen. Six have the name of another definition or a variable of the
  library and end in \<open>Call\<close>. The section ends with the property that ties the client to the core: whatever the front end
  calls, the core has a command of that name whose parameters are those arguments.
\<close>

subsection \<open>Commands\<close>

definition appInfo :: Call where
  "appInfo = invoke ''app_info'' []"

definition procList :: Call where
  "procList = invoke ''proc_list'' []"

definition orchestrationSnapshot :: "int \<Rightarrow> Call" where
  "orchestrationSnapshot project = invoke ''orchestration_snapshot'' [(''project'', WNum project)]"

definition lineageEdges :: Call where
  "lineageEdges = invoke ''lineage_edges'' []"

definition agentActivity :: Call where
  "agentActivity = invoke ''agent_activity'' []"

definition gitStatus :: "int \<Rightarrow> Call" where
  "gitStatus project = invoke ''git_status'' [(''project'', WNum project)]"

definition gitFiles :: "int \<Rightarrow> Call" where
  "gitFiles project = invoke ''git_files'' [(''project'', WNum project)]"

definition gitDiff :: "int \<Rightarrow> jstring \<Rightarrow> DiffTarget \<Rightarrow> DiffExtent \<Rightarrow> Call" where
    "gitDiff project path target extent = invoke ''git_diff'' [(''project'', WNum project), (''path'', WStr path), (''target'', wenum
     (diff_target_text target)), (''extent'', wenum (diff_extent_text extent))]"

definition gitFile :: "int \<Rightarrow> jstring \<Rightarrow> Call" where
  "gitFile project path = invoke ''git_file'' [(''project'', WNum project), (''path'', WStr path)]"

definition gitTrusted :: "int \<Rightarrow> Call" where
  "gitTrusted project = invoke ''git_trusted'' [(''project'', WNum project)]"

definition gitTrustProject :: "int \<Rightarrow> Call" where
  "gitTrustProject project = invoke ''git_trust_project'' [(''project'', WNum project)]"

definition gitStage :: "int \<Rightarrow> jstring \<Rightarrow> Call" where
  "gitStage project path = invoke ''git_stage'' [(''project'', WNum project), (''path'', WStr path)]"

definition gitUnstage :: "int \<Rightarrow> jstring \<Rightarrow> Call" where
  "gitUnstage project path = invoke ''git_unstage'' [(''project'', WNum project), (''path'', WStr path)]"

definition gitDiscard :: "int \<Rightarrow> jstring \<Rightarrow> Call" where
  "gitDiscard project path = invoke ''git_discard'' [(''project'', WNum project), (''path'', WStr path)]"

definition gitStageHunk :: "int \<Rightarrow> jstring \<Rightarrow> HunkRange \<Rightarrow> Call" where
  "gitStageHunk project path hunk =
     invoke ''git_stage_hunk'' [(''project'', WNum project), (''path'', WStr path), (''hunk'', enc_hunk hunk)]"

definition gitUnstageHunk :: "int \<Rightarrow> jstring \<Rightarrow> HunkRange \<Rightarrow> Call" where
  "gitUnstageHunk project path hunk =
     invoke ''git_unstage_hunk'' [(''project'', WNum project), (''path'', WStr path), (''hunk'', enc_hunk hunk)]"

definition gitDiscardHunk :: "int \<Rightarrow> jstring \<Rightarrow> HunkRange \<Rightarrow> Call" where
  "gitDiscardHunk project path hunk =
     invoke ''git_discard_hunk'' [(''project'', WNum project), (''path'', WStr path), (''hunk'', enc_hunk hunk)]"

definition gitCommit :: "int \<Rightarrow> jstring \<Rightarrow> bool \<Rightarrow> Call" where
  "gitCommit project message amend =
     invoke ''git_commit'' [(''project'', WNum project), (''message'', WStr message), (''amend'', WBool amend)]"

definition gitOpenFile :: "int \<Rightarrow> jstring \<Rightarrow> Call" where
  "gitOpenFile project path = invoke ''git_open_file'' [(''project'', WNum project), (''path'', WStr path)]"

definition gitCommitTemplate :: "int \<Rightarrow> Call" where
  "gitCommitTemplate project = invoke ''git_commit_template'' [(''project'', WNum project)]"

definition gitDraftCommitMessage :: "int \<Rightarrow> Call" where
  "gitDraftCommitMessage project = invoke ''git_draft_commit_message'' [(''project'', WNum project)]"

definition gitBranches :: "int \<Rightarrow> Call" where
  "gitBranches project = invoke ''git_branches'' [(''project'', WNum project)]"

definition gitCreateBranch :: "int \<Rightarrow> jstring \<Rightarrow> Call" where
  "gitCreateBranch project name = invoke ''git_create_branch'' [(''project'', WNum project), (''name'', WStr name)]"

definition gitSwitchBranch :: "int \<Rightarrow> jstring \<Rightarrow> Call" where
  "gitSwitchBranch project name = invoke ''git_switch_branch'' [(''project'', WNum project), (''name'', WStr name)]"

definition gitDeleteBranch :: "int \<Rightarrow> jstring \<Rightarrow> Call" where
  "gitDeleteBranch project name = invoke ''git_delete_branch'' [(''project'', WNum project), (''name'', WStr name)]"

definition gitStash :: "int \<Rightarrow> Call" where
  "gitStash project = invoke ''git_stash'' [(''project'', WNum project)]"

definition gitPopStash :: "int \<Rightarrow> Call" where
  "gitPopStash project = invoke ''git_pop_stash'' [(''project'', WNum project)]"

definition gitPush :: "int \<Rightarrow> Call" where
  "gitPush project = invoke ''git_push'' [(''project'', WNum project)]"

definition gitPull :: "int \<Rightarrow> Call" where
  "gitPull project = invoke ''git_pull'' [(''project'', WNum project)]"

definition gitFetch :: "int \<Rightarrow> Call" where
  "gitFetch project = invoke ''git_fetch'' [(''project'', WNum project)]"

definition gitStopExchange :: "int \<Rightarrow> Call" where
  "gitStopExchange project = invoke ''git_stop_exchange'' [(''project'', WNum project)]"

definition gitAbortMerge :: "int \<Rightarrow> Call" where
  "gitAbortMerge project = invoke ''git_abort_merge'' [(''project'', WNum project)]"

definition gitPullRequestSurface :: "int \<Rightarrow> Call" where
  "gitPullRequestSurface project = invoke ''git_pull_request_surface'' [(''project'', WNum project)]"

definition gitCreatePullRequest :: "int \<Rightarrow> NewPullRequest \<Rightarrow> Call" where
  "gitCreatePullRequest project request =
     invoke ''git_create_pull_request'' [(''project'', WNum project), (''request'', enc_pull_request request)]"

definition gitDraftPullRequestBody :: "int \<Rightarrow> jstring \<Rightarrow> jstring \<Rightarrow> Call" where
  "gitDraftPullRequestBody project base skeleton =
     invoke ''git_draft_pull_request_body'' [(''project'', WNum project), (''base'', WStr base), (''skeleton'', WStr skeleton)]"

definition gitPullRequestReview :: "int \<Rightarrow> Call" where
  "gitPullRequestReview project = invoke ''git_pull_request_review'' [(''project'', WNum project)]"

definition gitMergePullRequest :: "int \<Rightarrow> int \<Rightarrow> MergeMethod \<Rightarrow> Call" where
    "gitMergePullRequest project number how = invoke ''git_merge_pull_request'' [(''project'', WNum project), (''number'', WNum
     number), (''method'', wenum (merge_method_text how))]"

definition gitHandOff :: "int \<Rightarrow> HandoffSubject \<Rightarrow> int option \<Rightarrow> Call" where
  "gitHandOff project subject target =
     invoke ''git_hand_off'' [(''project'', WNum project), (''subject'', enc_handoff subject), (''target'', wopt WNum target)]"

definition scratchpadRead :: "int \<Rightarrow> jstring \<Rightarrow> Call" where
  "scratchpadRead project name = invoke ''scratchpad_read'' [(''project'', WNum project), (''name'', WStr name)]"

definition scratchpadWrite :: "int \<Rightarrow> jstring \<Rightarrow> jstring \<Rightarrow> int option \<Rightarrow> Call" where
    "scratchpadWrite project name body expectedRevision = invoke ''scratchpad_write'' [(''project'', WNum project), (''name'', WStr
     name), (''body'', WStr body), (''expectedRevision'', wopt WNum expectedRevision)]"

definition scratchpadArchive :: "int \<Rightarrow> jstring \<Rightarrow> bool \<Rightarrow> Call" where
  "scratchpadArchive project name archived =
     invoke ''scratchpad_archive'' [(''project'', WNum project), (''name'', WStr name), (''archived'', WBool archived)]"

definition scratchpadRename :: "int \<Rightarrow> jstring \<Rightarrow> jstring \<Rightarrow> Call" where
  "scratchpadRename project from to = invoke ''scratchpad_rename'' [(''project'', WNum project), (''from'', WStr from), (''to'', WStr to)]"

definition diagramRead :: "int \<Rightarrow> jstring \<Rightarrow> Call" where
  "diagramRead project name = invoke ''diagram_read'' [(''project'', WNum project), (''name'', WStr name)]"

definition diagramWrite :: "int \<Rightarrow> jstring \<Rightarrow> jstring \<Rightarrow> int option \<Rightarrow> Call" where
    "diagramWrite project name source expectedRevision = invoke ''diagram_write'' [(''project'', WNum project), (''name'', WStr name),
     (''source'', WStr source), (''expectedRevision'', wopt WNum expectedRevision)]"

definition diagramArchive :: "int \<Rightarrow> jstring \<Rightarrow> bool \<Rightarrow> Call" where
  "diagramArchive project name archived =
     invoke ''diagram_archive'' [(''project'', WNum project), (''name'', WStr name), (''archived'', WBool archived)]"

definition diagramRename :: "int \<Rightarrow> jstring \<Rightarrow> jstring \<Rightarrow> Call" where
  "diagramRename project from to = invoke ''diagram_rename'' [(''project'', WNum project), (''from'', WStr from), (''to'', WStr to)]"

definition todoCreate :: "int \<Rightarrow> TodoDoc \<Rightarrow> int option \<Rightarrow> Call" where
  "todoCreate project doc scratchpad =
     invoke ''todo_create'' [(''project'', WNum project), (''doc'', enc_todo_doc doc), (''scratchpad'', wopt WNum scratchpad)]"

definition todoUpdate :: "int \<Rightarrow> int \<Rightarrow> TodoDoc \<Rightarrow> int option \<Rightarrow> int \<Rightarrow> Call" where
    "todoUpdate project i doc scratchpad expectedRevision = invoke ''todo_update'' [(''project'', WNum project), (''id'', WNum i),
     (''doc'', enc_todo_doc doc), (''scratchpad'', wopt WNum scratchpad), (''expectedRevision'', WNum expectedRevision)]"

definition todoComplete :: "int \<Rightarrow> int \<Rightarrow> Call" where
  "todoComplete project i = invoke ''todo_complete'' [(''project'', WNum project), (''id'', WNum i)]"

definition todoSetBlockers :: "int \<Rightarrow> int \<Rightarrow> int list \<Rightarrow> Call" where
  "todoSetBlockers project i blockers =
     invoke ''todo_set_blockers'' [(''project'', WNum project), (''id'', WNum i), (''blockers'', WList (map WNum blockers))]"

definition todoAddBlocker :: "int \<Rightarrow> int \<Rightarrow> int \<Rightarrow> Call" where
  "todoAddBlocker project i blocker =
     invoke ''todo_add_blocker'' [(''project'', WNum project), (''id'', WNum i), (''blocker'', WNum blocker)]"

definition todoRemoveBlocker :: "int \<Rightarrow> int \<Rightarrow> int \<Rightarrow> Call" where
  "todoRemoveBlocker project i blocker =
     invoke ''todo_remove_blocker'' [(''project'', WNum project), (''id'', WNum i), (''blocker'', WNum blocker)]"

definition todoCommentCreate :: "int \<Rightarrow> int \<Rightarrow> jstring \<Rightarrow> Call" where
  "todoCommentCreate project i body = invoke ''todo_comment_create'' [(''project'', WNum project), (''id'', WNum i), (''body'', WStr body)]"

definition scratchpadLink :: "int \<Rightarrow> int \<Rightarrow> Call" where
  "scratchpadLink project scratchpad = invoke ''scratchpad_link'' [(''project'', WNum project), (''scratchpad'', WNum scratchpad)]"

definition todoLink :: "int \<Rightarrow> int \<Rightarrow> Call" where
  "todoLink project todo = invoke ''todo_link'' [(''project'', WNum project), (''todo'', WNum todo)]"

definition timerCancel :: "int \<Rightarrow> int \<Rightarrow> Call" where
  "timerCancel owner timer = invoke ''timer_cancel'' [(''owner'', WNum owner), (''timer'', WNum timer)]"

definition timerPause :: "int \<Rightarrow> int \<Rightarrow> Call" where
  "timerPause owner timer = invoke ''timer_pause'' [(''owner'', WNum owner), (''timer'', WNum timer)]"

definition timerResume :: "int \<Rightarrow> int \<Rightarrow> Call" where
  "timerResume owner timer = invoke ''timer_resume'' [(''owner'', WNum owner), (''timer'', WNum timer)]"

definition projectList :: Call where
  "projectList = invoke ''project_list'' []"

definition projectLoad :: "jstring \<Rightarrow> Call" where
  "projectLoad path = invoke ''project_load'' [(''path'', WStr path)]"

definition projectRemove :: "int \<Rightarrow> Call" where
  "projectRemove project = invoke ''project_remove'' [(''project'', WNum project)]"

definition projectReorder :: "int list \<Rightarrow> Call" where
  "projectReorder ids = invoke ''project_reorder'' [(''order'', WList (map WNum ids))]"

definition configCommandReview :: "int \<Rightarrow> jstring \<Rightarrow> Call" where
  "configCommandReview project name = invoke ''config_command_review'' [(''project'', WNum project), (''name'', WStr name)]"

definition configTrust :: "int \<Rightarrow> jstring \<Rightarrow> jstring \<Rightarrow> Call" where
  "configTrust project name variantHash =
     invoke ''config_trust'' [(''project'', WNum project), (''name'', WStr name), (''variantHash'', WStr variantHash)]"

definition trustRequests :: "int \<Rightarrow> Call" where
  "trustRequests project = invoke ''trust_requests'' [(''project'', WNum project)]"

definition trustRequestApprove :: "int \<Rightarrow> jstring \<Rightarrow> Call" where
  "trustRequestApprove request variantHash =
     invoke ''trust_request_approve'' [(''request'', WNum request), (''variantHash'', WStr variantHash)]"

definition trustRequestDeny :: "int \<Rightarrow> Call" where
  "trustRequestDeny request = invoke ''trust_request_deny'' [(''request'', WNum request)]"

definition trustGrants :: "int \<Rightarrow> Call" where
  "trustGrants project = invoke ''trust_grants'' [(''project'', WNum project)]"

definition trustRevoke :: "int \<Rightarrow> jstring \<Rightarrow> Call" where
  "trustRevoke project variantHash = invoke ''trust_revoke'' [(''project'', WNum project), (''variantHash'', WStr variantHash)]"

definition agentList :: Call where
  "agentList = invoke ''agent_list'' []"

definition agentDetect :: Call where
  "agentDetect = invoke ''agent_detect'' []"

definition agentRedetect :: Call where
  "agentRedetect = invoke ''agent_redetect'' []"

definition agentLaunch :: "int \<Rightarrow> jstring \<Rightarrow> jstring list \<Rightarrow> Call" where
  "agentLaunch project tool extraArgs =
     invoke ''agent_launch'' [(''project'', WNum project), (''tool'', WStr tool), (''extraArgs'', WList (map WStr extraArgs))]"

definition terminalCreate :: "int \<Rightarrow> Call" where
  "terminalCreate project = invoke ''terminal_create'' [(''project'', WNum project)]"

definition procStart :: "int \<Rightarrow> Call" where
  "procStart i = invoke ''proc_start'' [(''id'', WNum i)]"

definition procStop :: "int \<Rightarrow> Call" where
  "procStop i = invoke ''proc_stop'' [(''id'', WNum i)]"

definition procRestart :: "int \<Rightarrow> Call" where
  "procRestart i = invoke ''proc_restart'' [(''id'', WNum i)]"

definition procClose :: "int \<Rightarrow> Call" where
  "procClose i = invoke ''proc_close'' [(''id'', WNum i)]"

definition agentResume :: "int \<Rightarrow> Call" where
  "agentResume i = invoke ''agent_resume'' [(''id'', WNum i)]"

definition stackStart :: "int \<Rightarrow> Call" where
  "stackStart project = invoke ''stack_start'' [(''project'', WNum project)]"

definition stackStop :: "int \<Rightarrow> Call" where
  "stackStop project = invoke ''stack_stop'' [(''project'', WNum project)]"

definition stackRestartRunning :: "int \<Rightarrow> Call" where
  "stackRestartRunning project = invoke ''stack_restart_running'' [(''project'', WNum project)]"

definition ptyWrite :: "int \<Rightarrow> jstring \<Rightarrow> Call" where
  "ptyWrite i data = invoke ''pty_write'' [(''id'', WNum i), (''data'', WStr data)]"

definition ptyResize :: "int \<Rightarrow> int \<Rightarrow> int \<Rightarrow> Call" where
  "ptyResize i cols rows = invoke ''pty_resize'' [(''id'', WNum i), (''cols'', WNum cols), (''rows'', WNum rows)]"

definition ptyDetach :: "int \<Rightarrow> Call" where
  "ptyDetach token = invoke ''pty_detach'' [(''token'', WNum token)]"

definition orphansResolve :: "int list \<Rightarrow> Call" where
  "orphansResolve pgids = invoke ''orphans_resolve'' [(''pgids'', WList (map WNum pgids))]"

definition appearanceCall :: Call where
  "appearanceCall = invoke ''appearance'' []"

definition setAppearance :: "Appearance \<Rightarrow> Call" where
  "setAppearance appearance = invoke ''set_appearance'' [(''appearance'', enc_appearance appearance)]"

definition selectThemeCall :: "ThemeAppearance \<Rightarrow> jstring \<Rightarrow> Call" where
  "selectThemeCall appearance themeId =
     invoke ''select_theme'' [(''appearance'', wenum (theme_appearance_text appearance)), (''themeId'', WStr themeId)]"

definition createTheme :: "ThemeFile \<Rightarrow> Call" where
  "createTheme theme = invoke ''create_theme'' [(''theme'', enc_theme_file theme)]"

definition updateTheme :: "ThemeFile \<Rightarrow> Call" where
  "updateTheme theme = invoke ''update_theme'' [(''theme'', enc_theme_file theme)]"

definition importTheme :: "jstring \<Rightarrow> ThemeConflictPolicy \<Rightarrow> Call" where
  "importTheme themeJson conflict =
     invoke ''import_theme'' [(''themeJson'', WStr themeJson), (''conflict'', wenum (conflict_policy_text conflict))]"

definition inspectTheme :: "jstring \<Rightarrow> Call" where
  "inspectTheme themeJson = invoke ''inspect_theme'' [(''themeJson'', WStr themeJson)]"

definition duplicateThemeCall :: "jstring \<Rightarrow> Call" where
  "duplicateThemeCall themeId = invoke ''duplicate_theme'' [(''themeId'', WStr themeId)]"

definition removeTheme :: "jstring \<Rightarrow> Call" where
  "removeTheme themeId = invoke ''remove_theme'' [(''themeId'', WStr themeId)]"

definition setGlassOpacityCall :: "int \<Rightarrow> Call" where
  "setGlassOpacityCall opacity = invoke ''set_glass_opacity'' [(''opacity'', WNum opacity)]"

definition sidebarSettings :: Call where
  "sidebarSettings = invoke ''sidebar_settings'' []"

definition setSidebarSettings :: "Sidebar \<Rightarrow> Call" where
  "setSidebarSettings sidebar = invoke ''set_sidebar_settings'' [(''sidebar'', enc_sidebar sidebar)]"

definition hotkeysCall :: Call where
  "hotkeysCall = invoke ''hotkeys'' []"

definition remapHotkey :: "HotkeyAction \<Rightarrow> Binding \<Rightarrow> Call" where
  "remapHotkey action binding =
     invoke ''remap_hotkey'' [(''action'', wenum (hotkey_action_text action)), (''binding'', enc_binding binding)]"

definition disableHotkey :: "HotkeyAction \<Rightarrow> Call" where
  "disableHotkey action = invoke ''disable_hotkey'' [(''action'', wenum (hotkey_action_text action))]"

definition resetHotkey :: "HotkeyAction \<Rightarrow> Call" where
  "resetHotkey action = invoke ''reset_hotkey'' [(''action'', wenum (hotkey_action_text action))]"

definition resetAllHotkeys :: Call where
  "resetAllHotkeys = invoke ''reset_all_hotkeys'' []"

definition toolDefaults :: Call where
  "toolDefaults = invoke ''tool_defaults'' []"

definition setToolDefaults :: "ToolDefaults \<Rightarrow> Call" where
  "setToolDefaults tools = invoke ''set_tool_defaults'' [(''tools'', enc_tool_defaults tools)]"

definition assistSettings :: Call where
  "assistSettings = invoke ''assist_settings'' []"

definition setAssistSettings :: "Assist \<Rightarrow> Call" where
  "setAssistSettings assist = invoke ''set_assist_settings'' [(''assist'', enc_assist assist)]"

definition integrationSettings :: Call where
  "integrationSettings = invoke ''integration_settings'' []"

definition setIntegrationSettings :: "Integrations \<Rightarrow> Call" where
  "setIntegrationSettings integrations = invoke ''set_integration_settings'' [(''integrations'', enc_integrations integrations)]"

definition notificationSettings :: Call where
  "notificationSettings = invoke ''notification_settings'' []"

definition setNotificationSettings :: "Notifications \<Rightarrow> Call" where
  "setNotificationSettings notifications = invoke ''set_notification_settings'' [(''notifications'', enc_notifications notifications)]"

definition setPresence :: "PresenceReport \<Rightarrow> Call" where
  "setPresence presence = invoke ''set_presence'' [(''presence'', enc_presence presence)]"

definition attentionSnapshot :: Call where
  "attentionSnapshot = invoke ''attention_snapshot'' []"

definition clearAttention :: "int \<Rightarrow> Call" where
  "clearAttention process = invoke ''clear_attention'' [(''process'', WNum process)]"

definition clearAllAttention :: Call where
  "clearAllAttention = invoke ''clear_all_attention'' []"

definition sendTestNotification :: Call where
  "sendTestNotification = invoke ''send_test_notification'' []"

definition notifierStatus :: Call where
  "notifierStatus = invoke ''notifier_status'' []"

definition mcpToolGroups :: Call where
  "mcpToolGroups = invoke ''mcp_tool_groups'' []"

definition setMcpToolGroup :: "McpFeatureGroup \<Rightarrow> bool \<Rightarrow> Call" where
  "setMcpToolGroup grp enabled = invoke ''set_mcp_tool_group'' [(''group'', wenum (feature_group_text grp)), (''enabled'', WBool enabled)]"

definition mcpSetupInfo :: Call where
  "mcpSetupInfo = invoke ''mcp_setup_info'' []"

definition templatesCall :: "TemplateKind \<Rightarrow> int option \<Rightarrow> Call" where
  "templatesCall kind project = invoke ''templates'' [(''kind'', wenum (template_kind_text kind)), (''project'', wopt WNum project)]"

definition templateRead :: "TemplateKind \<Rightarrow> int option \<Rightarrow> jstring \<Rightarrow> Call" where
  "templateRead kind project name =
     invoke ''template_read'' [(''kind'', wenum (template_kind_text kind)), (''project'', wopt WNum project), (''name'', WStr name)]"

definition templateCreate :: "TemplateKind \<Rightarrow> int option \<Rightarrow> jstring \<Rightarrow> jstring option \<Rightarrow> jstring \<Rightarrow> Call" where
    "templateCreate kind project name description body = invoke ''template_create'' [(''kind'', wenum (template_kind_text kind)),
     (''project'', wopt WNum project), (''name'', WStr name), (''description'', wopt WStr description), (''body'', WStr body)]"

definition templateUpdate :: "TemplateKind \<Rightarrow> int option \<Rightarrow> jstring \<Rightarrow> jstring option \<Rightarrow> jstring \<Rightarrow> int \<Rightarrow> Call" where
    "templateUpdate kind project name description body expectedRevision = invoke ''template_update'' [(''kind'', wenum
     (template_kind_text kind)), (''project'', wopt WNum project), (''name'', WStr name), (''description'', wopt WStr description),
     (''body'', WStr body), (''expectedRevision'', WNum expectedRevision)]"

definition templateDelete :: "TemplateKind \<Rightarrow> int option \<Rightarrow> jstring \<Rightarrow> Call" where
  "templateDelete kind project name =
     invoke ''template_delete'' [(''kind'', wenum (template_kind_text kind)), (''project'', wopt WNum project), (''name'', WStr name)]"

definition templateRender :: "int option \<Rightarrow> jstring \<Rightarrow> (jstring, jstring) jsmap \<Rightarrow> Call" where
  "templateRender project name vals =
     invoke ''template_render'' [(''project'', wopt WNum project), (''name'', WStr name), (''values'', wdict vals)]"

definition templateDefaults :: "int \<Rightarrow> Call" where
  "templateDefaults project = invoke ''template_defaults'' [(''project'', WNum project)]"

definition setDefaultTemplate :: "TemplateKind \<Rightarrow> int \<Rightarrow> int option \<Rightarrow> Call" where
    "setDefaultTemplate kind project template = invoke ''set_default_template'' [(''kind'', wenum (template_kind_text kind)),
     (''project'', WNum project), (''template'', wopt WNum template)]"

definition projectSettingsPage :: "int \<Rightarrow> Call" where
  "projectSettingsPage project = invoke ''project_settings_page'' [(''project'', WNum project)]"

definition projectSettings :: "int \<Rightarrow> Call" where
  "projectSettings project = invoke ''project_settings'' [(''project'', WNum project)]"

definition setProjectAutoStartGate :: "int \<Rightarrow> bool \<Rightarrow> Call" where
  "setProjectAutoStartGate project engaged =
     invoke ''set_project_auto_start_gate'' [(''project'', WNum project), (''engaged'', WBool engaged)]"

definition setProjectAutoTrustCommandChanges :: "int \<Rightarrow> bool \<Rightarrow> Call" where
  "setProjectAutoTrustCommandChanges project enabled =
     invoke ''set_project_auto_trust_command_changes'' [(''project'', WNum project), (''enabled'', WBool enabled)]"

definition setProjectEditorOverride :: "int \<Rightarrow> jstring option \<Rightarrow> Call" where
  "setProjectEditorOverride project editor =
     invoke ''set_project_editor_override'' [(''project'', WNum project), (''editor'', wopt WStr editor)]"

definition setProjectNotificationLevel :: "int \<Rightarrow> NotificationLevel \<Rightarrow> Call" where
  "setProjectNotificationLevel project level =
     invoke ''set_project_notification_level'' [(''project'', WNum project), (''level'', wenum (notification_level_text level))]"

definition setCommandNotificationLevel :: "int \<Rightarrow> jstring \<Rightarrow> NotificationLevel option \<Rightarrow> Call" where
    "setCommandNotificationLevel project command level = invoke ''set_command_notification_level'' [(''project'', WNum project),
     (''command'', WStr command), (''level'', wopt (\<lambda>x. wenum (notification_level_text x)) level)]"

definition addSharedCommand :: "int \<Rightarrow> jstring \<Rightarrow> ProcessSpec \<Rightarrow> Call" where
  "addSharedCommand project name spec =
     invoke ''add_shared_command'' [(''project'', WNum project), (''name'', WStr name), (''spec'', enc_process_spec spec)]"

definition editSharedCommand :: "int \<Rightarrow> jstring \<Rightarrow> ProcessSpec \<Rightarrow> Call" where
  "editSharedCommand project name spec =
     invoke ''edit_shared_command'' [(''project'', WNum project), (''name'', WStr name), (''spec'', enc_process_spec spec)]"

definition renameSharedCommand :: "int \<Rightarrow> jstring \<Rightarrow> jstring \<Rightarrow> Call" where
  "renameSharedCommand project from to =
     invoke ''rename_shared_command'' [(''project'', WNum project), (''from'', WStr from), (''to'', WStr to)]"

definition removeSharedCommand :: "int \<Rightarrow> jstring \<Rightarrow> Call" where
  "removeSharedCommand project name = invoke ''remove_shared_command'' [(''project'', WNum project), (''name'', WStr name)]"

definition addLocalCommand :: "int \<Rightarrow> jstring \<Rightarrow> ProcessSpec \<Rightarrow> Call" where
  "addLocalCommand project name spec =
     invoke ''add_local_command'' [(''project'', WNum project), (''name'', WStr name), (''spec'', enc_process_spec spec)]"

definition editLocalCommand :: "int \<Rightarrow> jstring \<Rightarrow> ProcessSpec \<Rightarrow> Call" where
  "editLocalCommand project name spec =
     invoke ''edit_local_command'' [(''project'', WNum project), (''name'', WStr name), (''spec'', enc_process_spec spec)]"

definition renameLocalCommand :: "int \<Rightarrow> jstring \<Rightarrow> jstring \<Rightarrow> Call" where
  "renameLocalCommand project from to =
     invoke ''rename_local_command'' [(''project'', WNum project), (''from'', WStr from), (''to'', WStr to)]"

definition removeLocalCommand :: "int \<Rightarrow> jstring \<Rightarrow> Call" where
  "removeLocalCommand project name = invoke ''remove_local_command'' [(''project'', WNum project), (''name'', WStr name)]"

definition makeCommandLocal :: "int \<Rightarrow> jstring \<Rightarrow> Call" where
  "makeCommandLocal project name = invoke ''make_command_local'' [(''project'', WNum project), (''name'', WStr name)]"

definition saveCommandToYaml :: "int \<Rightarrow> jstring \<Rightarrow> Call" where
  "saveCommandToYaml project name = invoke ''save_command_to_yaml'' [(''project'', WNum project), (''name'', WStr name)]"

definition setProjectIcon :: "int \<Rightarrow> jstring option \<Rightarrow> Call" where
  "setProjectIcon project icon = invoke ''set_project_icon'' [(''project'', WNum project), (''icon'', wopt WStr icon)]"

subsection \<open>Paths from the desktop\<close>

text \<open>
  What a dialog is opened with, and what an export does with its answer. \<open>None\<close> is a dialog that was dismissed: nothing is
  sent, and the caller is told \<open>False\<close>.
\<close>

record SaveDialog =
  sd_title :: jstring
  sd_defaultPath :: jstring
  sd_filters :: "(jstring \<times> jstring list) list"

record OpenDialog =
  od_directory :: bool
  od_multiple :: bool
  od_title :: jstring

definition exportMarkdownCall :: "jstring \<Rightarrow> jstring \<Rightarrow> Call" where
  "exportMarkdownCall path contents = invoke ''export_markdown'' [(''path'', WStr path), (''contents'', WStr contents)]"

definition exportBytesCall :: "jstring \<Rightarrow> 8 word list \<Rightarrow> Call" where
  "exportBytesCall path bytes = invoke ''export_bytes'' [(''path'', WStr path), (''bytes'', WList (map (\<lambda>b. WNum (uint b)) bytes))]"

definition exportMarkdown :: "(SaveDialog \<Rightarrow> jstring option) \<Rightarrow> jstring \<Rightarrow> jstring \<Rightarrow> Call list \<times> bool" where
  "exportMarkdown save defaultName contents =
     (case save \<lparr>sd_title = lit ''Export scratchpad'', sd_defaultPath = defaultName @ lit ''.md'',
         sd_filters = [(lit ''Markdown'', [lit ''md''])]\<rparr> of
        None \<Rightarrow> ([], False) | Some path \<Rightarrow> ([exportMarkdownCall path contents], True))"

definition exportDiagramFile :: "(SaveDialog \<Rightarrow> jstring option) \<Rightarrow> jstring \<Rightarrow> jstring \<Rightarrow> jstring \<Rightarrow> 8 word list \<Rightarrow> Call list \<times> bool" where
  "exportDiagramFile save defaultName extension filterLabel bytes =
     (case save \<lparr>sd_title = lit ''Export diagram'', sd_defaultPath = defaultName @ lit ''.'' @ extension,
         sd_filters = [(filterLabel, [extension])]\<rparr> of
        None \<Rightarrow> ([], False) | Some path \<Rightarrow> ([exportBytesCall path bytes], True))"

definition openProjectDirectory :: "(OpenDialog \<Rightarrow> jstring option) \<Rightarrow> jstring option" where
  "openProjectDirectory open_dialog = open_dialog \<lparr>od_directory = True, od_multiple = False, od_title = lit ''Open project''\<rparr>"

subsection \<open>The terminal's channel\<close>

definition PTY_FRAME_CHUNK :: "8 word" where "PTY_FRAME_CHUNK = 0"
definition PTY_FRAME_RESYNC :: "8 word" where "PTY_FRAME_RESYNC = 1"

definition ptyAttach :: "int \<Rightarrow> Call" where
  "ptyAttach i = invoke ''pty_attach'' [(''id'', WNum i), (''onChunk'', WChannel)]"

text \<open>
  The channel's \<open>onmessage\<close>: what the caller's \<open>onChunk\<close> is given for a frame. Reading past the end of a view is
  \<open>undefined\<close>, which is no tag, and a subarray of it is empty.
\<close>

definition pty_frame :: "8 word list \<Rightarrow> 8 word list \<times> bool" where
  "pty_frame bytes = (drop 1 bytes, bytes \<noteq> [] \<and> hd bytes = PTY_FRAME_RESYNC)"

subsection \<open>Events of the core\<close>

definition DOMAIN_EVENT :: jstring where "DOMAIN_EVENT = lit ''domain-event''"
definition DOMAIN_RESYNC :: jstring where "DOMAIN_RESYNC = lit ''domain-resync''"

text \<open>
  A registered listener: the event's name, what the handler is called with for a payload, and the runtime's \<open>unlisten\<close>, which
  may reject. \<open>safeUnlisten\<close> is what the subscriber is given: calling it never fails, whatever that rejection was.
\<close>

definition safeUnlisten :: "('s \<Rightarrow> ('e + unit) \<times> 's) \<Rightarrow> 's \<Rightarrow> unit \<times> 's" where
  "safeUnlisten unlisten s = (case unlisten s of (Inl _, s') \<Rightarrow> ((), s') | (Inr _, s') \<Rightarrow> ((), s'))"

definition onDomainEvent :: "('p \<Rightarrow> 's \<Rightarrow> 's) \<Rightarrow> ('s \<Rightarrow> ('e + unit) \<times> 's) \<Rightarrow> jstring \<times> ('p \<Rightarrow> 's \<Rightarrow> 's) \<times> ('s \<Rightarrow> unit \<times> 's)" where
  "onDomainEvent handler unlisten = (DOMAIN_EVENT, (\<lambda>payload. handler payload), safeUnlisten unlisten)"

definition onResync :: "('s \<Rightarrow> 's) \<Rightarrow> ('s \<Rightarrow> ('e + unit) \<times> 's) \<Rightarrow> jstring \<times> ('p \<Rightarrow> 's \<Rightarrow> 's) \<times> ('s \<Rightarrow> unit \<times> 's)" where
  "onResync handler unlisten = (DOMAIN_RESYNC, (\<lambda>_. handler), safeUnlisten unlisten)"

subsection \<open>What the client can call\<close>

text \<open>
  Every call of the client, with what the type \<open>number\<close> does not say: ids, revisions and counts are natural numbers below
  the core's width, a theme's colours are hex colours and a glass opacity is a step of five from 40 to 100.
\<close>

inductive client_call :: "Call \<Rightarrow> bool" where
  call_app_info: "client_call appInfo"
| call_proc_list: "client_call procList"
| call_project_list: "client_call projectList"
| call_project_load: "client_call (projectLoad path)"
| call_project_remove: "u64 project \<Longrightarrow> client_call (projectRemove project)"
| call_project_reorder: "list_all u64 ids \<Longrightarrow> client_call (projectReorder ids)"
| call_config_command_review: "u64 project \<Longrightarrow> client_call (configCommandReview project name)"
| call_config_trust: "u64 project \<Longrightarrow> client_call (configTrust project name variantHash)"
| call_trust_requests: "u64 project \<Longrightarrow> client_call (trustRequests project)"
| call_trust_request_approve: "u64 request \<Longrightarrow> client_call (trustRequestApprove request variantHash)"
| call_trust_request_deny: "u64 request \<Longrightarrow> client_call (trustRequestDeny request)"
| call_trust_grants: "u64 project \<Longrightarrow> client_call (trustGrants project)"
| call_trust_revoke: "u64 project \<Longrightarrow> client_call (trustRevoke project variantHash)"
| call_agent_list: "client_call agentList"
| call_agent_detect: "client_call agentDetect"
| call_agent_redetect: "client_call agentRedetect"
| call_agent_launch: "u64 project \<Longrightarrow> client_call (agentLaunch project tool extraArgs)"
| call_terminal_create: "u64 project \<Longrightarrow> client_call (terminalCreate project)"
| call_proc_start: "u64 i \<Longrightarrow> client_call (procStart i)"
| call_proc_stop: "u64 i \<Longrightarrow> client_call (procStop i)"
| call_proc_restart: "u64 i \<Longrightarrow> client_call (procRestart i)"
| call_proc_close: "u64 i \<Longrightarrow> client_call (procClose i)"
| call_agent_resume: "u64 i \<Longrightarrow> client_call (agentResume i)"
| call_stack_start: "u64 project \<Longrightarrow> client_call (stackStart project)"
| call_stack_stop: "u64 project \<Longrightarrow> client_call (stackStop project)"
| call_stack_restart_running: "u64 project \<Longrightarrow> client_call (stackRestartRunning project)"
| call_pty_write: "u64 i \<Longrightarrow> client_call (ptyWrite i data)"
| call_pty_resize: "u64 i \<Longrightarrow> u16 cols \<Longrightarrow> u16 rows \<Longrightarrow> client_call (ptyResize i cols rows)"
| call_pty_attach: "u64 i \<Longrightarrow> client_call (ptyAttach i)"
| call_pty_detach: "u64 token \<Longrightarrow> client_call (ptyDetach token)"
| call_orphans_resolve: "list_all i32 pgids \<Longrightarrow> client_call (orphansResolve pgids)"
| call_appearance: "client_call appearanceCall"
| call_set_appearance: "appearance_valid appearance \<Longrightarrow> client_call (setAppearance appearance)"
| call_select_theme: "client_call (selectThemeCall appearance themeId)"
| call_create_theme: "theme_valid theme \<Longrightarrow> client_call (createTheme theme)"
| call_update_theme: "theme_valid theme \<Longrightarrow> client_call (updateTheme theme)"
| call_import_theme: "client_call (importTheme themeJson conflict)"
| call_inspect_theme: "client_call (inspectTheme themeJson)"
| call_duplicate_theme: "client_call (duplicateThemeCall themeId)"
| call_remove_theme: "client_call (removeTheme themeId)"
| call_set_glass_opacity: "glass_valid opacity \<Longrightarrow> client_call (setGlassOpacityCall opacity)"
| call_sidebar_settings: "client_call sidebarSettings"
| call_set_sidebar_settings: "client_call (setSidebarSettings sidebar)"
| call_hotkeys: "client_call hotkeysCall"
| call_remap_hotkey: "client_call (remapHotkey action binding)"
| call_disable_hotkey: "client_call (disableHotkey action)"
| call_reset_hotkey: "client_call (resetHotkey action)"
| call_reset_all_hotkeys: "client_call resetAllHotkeys"
| call_tool_defaults: "client_call toolDefaults"
| call_set_tool_defaults: "client_call (setToolDefaults tools)"
| call_assist_settings: "client_call assistSettings"
| call_set_assist_settings: "client_call (setAssistSettings assist)"
| call_integration_settings: "client_call integrationSettings"
| call_set_integration_settings: "client_call (setIntegrationSettings integrations)"
| call_notification_settings: "client_call notificationSettings"
| call_set_notification_settings: "client_call (setNotificationSettings notifications)"
| call_set_presence: "pred_option u64 (pres_viewing presence) \<Longrightarrow> client_call (setPresence presence)"
| call_attention_snapshot: "client_call attentionSnapshot"
| call_clear_attention: "u64 process \<Longrightarrow> client_call (clearAttention process)"
| call_clear_all_attention: "client_call clearAllAttention"
| call_send_test_notification: "client_call sendTestNotification"
| call_notifier_status: "client_call notifierStatus"
| call_mcp_tool_groups: "client_call mcpToolGroups"
| call_set_mcp_tool_group: "client_call (setMcpToolGroup grp enabled)"
| call_mcp_setup_info: "client_call mcpSetupInfo"
| call_templates: "pred_option u64 project \<Longrightarrow> client_call (templatesCall kind project)"
| call_template_read: "pred_option u64 project \<Longrightarrow> client_call (templateRead kind project name)"
| call_template_create: "pred_option u64 project \<Longrightarrow> client_call (templateCreate kind project name description body)"
| call_template_update: "pred_option u64 project \<Longrightarrow> u64 expectedRevision \<Longrightarrow> client_call (templateUpdate kind project name description body expectedRevision)"
| call_template_delete: "pred_option u64 project \<Longrightarrow> client_call (templateDelete kind project name)"
| call_template_render: "pred_option u64 project \<Longrightarrow> client_call (templateRender project name vals)"
| call_template_defaults: "u64 project \<Longrightarrow> client_call (templateDefaults project)"
| call_set_default_template: "u64 project \<Longrightarrow> pred_option u64 template \<Longrightarrow> client_call (setDefaultTemplate kind project template)"
| call_project_settings_page: "u64 project \<Longrightarrow> client_call (projectSettingsPage project)"
| call_project_settings: "u64 project \<Longrightarrow> client_call (projectSettings project)"
| call_set_project_auto_start_gate: "u64 project \<Longrightarrow> client_call (setProjectAutoStartGate project engaged)"
| call_set_project_auto_trust_command_changes: "u64 project \<Longrightarrow> client_call (setProjectAutoTrustCommandChanges project enabled)"
| call_set_project_editor_override: "u64 project \<Longrightarrow> client_call (setProjectEditorOverride project editor)"
| call_set_project_notification_level: "u64 project \<Longrightarrow> client_call (setProjectNotificationLevel project level)"
| call_set_command_notification_level: "u64 project \<Longrightarrow> client_call (setCommandNotificationLevel project command level)"
| call_add_shared_command: "u64 project \<Longrightarrow> client_call (addSharedCommand project name spec)"
| call_edit_shared_command: "u64 project \<Longrightarrow> client_call (editSharedCommand project name spec)"
| call_rename_shared_command: "u64 project \<Longrightarrow> client_call (renameSharedCommand project from to)"
| call_remove_shared_command: "u64 project \<Longrightarrow> client_call (removeSharedCommand project name)"
| call_add_local_command: "u64 project \<Longrightarrow> client_call (addLocalCommand project name spec)"
| call_edit_local_command: "u64 project \<Longrightarrow> client_call (editLocalCommand project name spec)"
| call_rename_local_command: "u64 project \<Longrightarrow> client_call (renameLocalCommand project from to)"
| call_remove_local_command: "u64 project \<Longrightarrow> client_call (removeLocalCommand project name)"
| call_make_command_local: "u64 project \<Longrightarrow> client_call (makeCommandLocal project name)"
| call_save_command_to_yaml: "u64 project \<Longrightarrow> client_call (saveCommandToYaml project name)"
| call_set_project_icon: "u64 project \<Longrightarrow> client_call (setProjectIcon project icon)"
| call_git_status: "u64 project \<Longrightarrow> client_call (gitStatus project)"
| call_git_files: "u64 project \<Longrightarrow> client_call (gitFiles project)"
| call_git_diff: "u64 project \<Longrightarrow> client_call (gitDiff project path target extent)"
| call_git_file: "u64 project \<Longrightarrow> client_call (gitFile project path)"
| call_git_open_file: "u64 project \<Longrightarrow> client_call (gitOpenFile project path)"
| call_git_trusted: "u64 project \<Longrightarrow> client_call (gitTrusted project)"
| call_git_trust_project: "u64 project \<Longrightarrow> client_call (gitTrustProject project)"
| call_git_stage: "u64 project \<Longrightarrow> client_call (gitStage project path)"
| call_git_unstage: "u64 project \<Longrightarrow> client_call (gitUnstage project path)"
| call_git_discard: "u64 project \<Longrightarrow> client_call (gitDiscard project path)"
| call_git_stage_hunk: "u64 project \<Longrightarrow> hunk_in_range hunk \<Longrightarrow> client_call (gitStageHunk project path hunk)"
| call_git_unstage_hunk: "u64 project \<Longrightarrow> hunk_in_range hunk \<Longrightarrow> client_call (gitUnstageHunk project path hunk)"
| call_git_discard_hunk: "u64 project \<Longrightarrow> hunk_in_range hunk \<Longrightarrow> client_call (gitDiscardHunk project path hunk)"
| call_git_commit: "u64 project \<Longrightarrow> client_call (gitCommit project message amend)"
| call_git_commit_template: "u64 project \<Longrightarrow> client_call (gitCommitTemplate project)"
| call_git_draft_commit_message: "u64 project \<Longrightarrow> client_call (gitDraftCommitMessage project)"
| call_git_branches: "u64 project \<Longrightarrow> client_call (gitBranches project)"
| call_git_create_branch: "u64 project \<Longrightarrow> client_call (gitCreateBranch project name)"
| call_git_switch_branch: "u64 project \<Longrightarrow> client_call (gitSwitchBranch project name)"
| call_git_delete_branch: "u64 project \<Longrightarrow> client_call (gitDeleteBranch project name)"
| call_git_stash: "u64 project \<Longrightarrow> client_call (gitStash project)"
| call_git_pop_stash: "u64 project \<Longrightarrow> client_call (gitPopStash project)"
| call_git_push: "u64 project \<Longrightarrow> client_call (gitPush project)"
| call_git_pull: "u64 project \<Longrightarrow> client_call (gitPull project)"
| call_git_fetch: "u64 project \<Longrightarrow> client_call (gitFetch project)"
| call_git_stop_exchange: "u64 project \<Longrightarrow> client_call (gitStopExchange project)"
| call_git_abort_merge: "u64 project \<Longrightarrow> client_call (gitAbortMerge project)"
| call_git_pull_request_surface: "u64 project \<Longrightarrow> client_call (gitPullRequestSurface project)"
| call_git_create_pull_request: "u64 project \<Longrightarrow> client_call (gitCreatePullRequest project request)"
| call_git_draft_pull_request_body: "u64 project \<Longrightarrow> client_call (gitDraftPullRequestBody project base skeleton)"
| call_git_pull_request_review: "u64 project \<Longrightarrow> client_call (gitPullRequestReview project)"
| call_git_merge_pull_request: "u64 project \<Longrightarrow> u64 number \<Longrightarrow> client_call (gitMergePullRequest project number how)"
| call_git_hand_off: "u64 project \<Longrightarrow> pred_option u64 target \<Longrightarrow> client_call (gitHandOff project subject target)"
| call_orchestration_snapshot: "u64 project \<Longrightarrow> client_call (orchestrationSnapshot project)"
| call_lineage_edges: "client_call lineageEdges"
| call_agent_activity: "client_call agentActivity"
| call_scratchpad_read: "u64 project \<Longrightarrow> client_call (scratchpadRead project name)"
| call_scratchpad_write: "u64 project \<Longrightarrow> pred_option u64 expectedRevision \<Longrightarrow> client_call (scratchpadWrite project name body expectedRevision)"
| call_scratchpad_archive: "u64 project \<Longrightarrow> client_call (scratchpadArchive project name archived)"
| call_scratchpad_rename: "u64 project \<Longrightarrow> client_call (scratchpadRename project from to)"
| call_diagram_read: "u64 project \<Longrightarrow> client_call (diagramRead project name)"
| call_diagram_write: "u64 project \<Longrightarrow> pred_option u64 expectedRevision \<Longrightarrow> client_call (diagramWrite project name source expectedRevision)"
| call_diagram_archive: "u64 project \<Longrightarrow> client_call (diagramArchive project name archived)"
| call_diagram_rename: "u64 project \<Longrightarrow> client_call (diagramRename project from to)"
| call_export_markdown: "client_call (exportMarkdownCall path contents)"
| call_export_bytes: "client_call (exportBytesCall path bytes)"
| call_todo_create: "u64 project \<Longrightarrow> pred_option u64 scratchpad \<Longrightarrow> client_call (todoCreate project doc scratchpad)"
| call_todo_update: "u64 project \<Longrightarrow> u64 i \<Longrightarrow> pred_option u64 scratchpad \<Longrightarrow> u64 expectedRevision \<Longrightarrow> client_call (todoUpdate project i doc scratchpad expectedRevision)"
| call_todo_complete: "u64 project \<Longrightarrow> u64 i \<Longrightarrow> client_call (todoComplete project i)"
| call_todo_set_blockers: "u64 project \<Longrightarrow> u64 i \<Longrightarrow> list_all u64 blockers \<Longrightarrow> client_call (todoSetBlockers project i blockers)"
| call_todo_add_blocker: "u64 project \<Longrightarrow> u64 i \<Longrightarrow> u64 blocker \<Longrightarrow> client_call (todoAddBlocker project i blocker)"
| call_todo_remove_blocker: "u64 project \<Longrightarrow> u64 i \<Longrightarrow> u64 blocker \<Longrightarrow> client_call (todoRemoveBlocker project i blocker)"
| call_todo_comment_create: "u64 project \<Longrightarrow> u64 i \<Longrightarrow> client_call (todoCommentCreate project i body)"
| call_scratchpad_link: "u64 project \<Longrightarrow> u64 scratchpad \<Longrightarrow> client_call (scratchpadLink project scratchpad)"
| call_todo_link: "u64 project \<Longrightarrow> u64 todo \<Longrightarrow> client_call (todoLink project todo)"
| call_timer_cancel: "u64 owner \<Longrightarrow> u64 timer \<Longrightarrow> client_call (timerCancel owner timer)"
| call_timer_pause: "u64 owner \<Longrightarrow> u64 timer \<Longrightarrow> client_call (timerPause owner timer)"
| call_timer_resume: "u64 owner \<Longrightarrow> u64 timer \<Longrightarrow> client_call (timerResume owner timer)"

lemmas api_defs =
    appInfo_def procList_def orchestrationSnapshot_def lineageEdges_def agentActivity_def gitStatus_def gitFiles_def
    gitDiff_def gitFile_def gitTrusted_def gitTrustProject_def gitStage_def gitUnstage_def gitDiscard_def
    gitStageHunk_def gitUnstageHunk_def gitDiscardHunk_def gitCommit_def gitOpenFile_def gitCommitTemplate_def
    gitDraftCommitMessage_def gitBranches_def gitCreateBranch_def gitSwitchBranch_def gitDeleteBranch_def gitStash_def
    gitPopStash_def gitPush_def gitPull_def gitFetch_def gitStopExchange_def gitAbortMerge_def gitPullRequestSurface_def
    gitCreatePullRequest_def gitDraftPullRequestBody_def gitPullRequestReview_def gitMergePullRequest_def gitHandOff_def
    scratchpadRead_def scratchpadWrite_def scratchpadArchive_def scratchpadRename_def diagramRead_def diagramWrite_def
    diagramArchive_def diagramRename_def todoCreate_def todoUpdate_def todoComplete_def todoSetBlockers_def
    todoAddBlocker_def todoRemoveBlocker_def todoCommentCreate_def scratchpadLink_def todoLink_def timerCancel_def
    timerPause_def timerResume_def projectList_def projectLoad_def projectRemove_def projectReorder_def
    configCommandReview_def configTrust_def trustRequests_def trustRequestApprove_def trustRequestDeny_def
    trustGrants_def trustRevoke_def agentList_def agentDetect_def agentRedetect_def agentLaunch_def terminalCreate_def
    procStart_def procStop_def procRestart_def procClose_def agentResume_def stackStart_def stackStop_def
    stackRestartRunning_def ptyWrite_def ptyResize_def ptyDetach_def orphansResolve_def appearanceCall_def
    setAppearance_def selectThemeCall_def createTheme_def updateTheme_def importTheme_def inspectTheme_def
    duplicateThemeCall_def removeTheme_def setGlassOpacityCall_def sidebarSettings_def setSidebarSettings_def
    hotkeysCall_def remapHotkey_def disableHotkey_def resetHotkey_def resetAllHotkeys_def toolDefaults_def
    setToolDefaults_def assistSettings_def setAssistSettings_def integrationSettings_def setIntegrationSettings_def
    notificationSettings_def setNotificationSettings_def setPresence_def attentionSnapshot_def clearAttention_def
    clearAllAttention_def sendTestNotification_def notifierStatus_def mcpToolGroups_def setMcpToolGroup_def
    mcpSetupInfo_def templatesCall_def templateRead_def templateCreate_def templateUpdate_def templateDelete_def
    templateRender_def templateDefaults_def setDefaultTemplate_def projectSettingsPage_def projectSettings_def
    setProjectAutoStartGate_def setProjectAutoTrustCommandChanges_def setProjectEditorOverride_def
    setProjectNotificationLevel_def setCommandNotificationLevel_def addSharedCommand_def editSharedCommand_def
    renameSharedCommand_def removeSharedCommand_def addLocalCommand_def editLocalCommand_def renameLocalCommand_def
    removeLocalCommand_def makeCommandLocal_def saveCommandToYaml_def setProjectIcon_def exportMarkdownCall_def
    exportBytesCall_def ptyAttach_def

lemma bytes_fit [wire]: "fits (TVec TU8) (WList (map (\<lambda>b. WNum (uint b)) (bytes :: 8 word list)))"
proof -
  have "uint b \<le> 255" for b :: "8 word" using uint_lt2p [of b] by simp
  then show ?thesis by (simp add: list_all_iff)
qed

lemma numbers_fit [wire]:
  "list_all (\<lambda>n. lo \<le> n \<and> n \<le> hi) ns \<Longrightarrow> fits (TVec (TNum lo hi)) (WList (map WNum ns))"
  by (simp add: list_all_iff)

lemma optional_number_fits [wire]:
  "pred_option (\<lambda>n. lo \<le> n \<and> n \<le> hi) v \<Longrightarrow> fits (TOption (TNum lo hi)) (wopt WNum v)"
  by (cases v) (simp_all add: wopt_def)

lemma optional_level_fits [wire]:
  "fits (TOption RUST_NotificationLevel) (wopt (\<lambda>x. wenum (notification_level_text x)) v)"
  by (cases v) (simp_all add: wopt_def fits_notification_level)

lemma calls_accepted: "client_call c \<Longrightarrow> accepts c"
  unfolding api_defs
  by (induction rule: client_call.induct; unfold api_defs; rule accepted, rule registered;
      simp add: fits_record camel_param_def camel_names wire glass_valid_def del: fits.simps(6,7,10))

text \<open>The other way round: no command is registered that the client has no call for.\<close>

definition called :: "string \<Rightarrow> bool" where
  "called name \<longleftrightarrow> (\<exists>c. client_call c \<and> fst c = lit name)"

lemma calledI: "client_call (invoke name args) \<Longrightarrow> called name"
  by (auto simp: called_def invoke_def)

lemmas calls = client_call.intros [unfolded api_defs]

definition plain_theme :: ThemeFile where
  "plain_theme = \<lparr>tf_version = 1, tf_id = [], tf_name = [], tf_appearance = AppLight, tf_author = None, tf_description = None,
     tf_colors = (\<lambda>_. lit ''#fff''), tf_variants = None, tf_sidebarArtwork = None, tf_managed = None, tf_extensions = None\<rparr>"

definition plain_document :: Appearance where
  "plain_document = \<lparr>ap_theme = ThemeSystem, ap_interface_font_scale = ScaleMedium,
     ap_terminal = \<lparr>ta_focus_on_click = True, ta_copy_on_select = False, ta_font_family = None, ta_font_weight = W400,
       ta_bold_font_weight = W700, ta_font_scale = ScaleMedium, ta_line_height = LineDefault, ta_letter_spacing = SpacingDefault,
       ta_cursor_style = CursorBlock, ta_cursor_inactive_style = InactiveOutline, ta_cursor_blink = True\<rparr>,
     ap_selected_themes = \<lparr>tsel_light = [], tsel_dark = []\<rparr>, ap_custom_themes = [plain_theme], ap_glass_opacity = 80\<rparr>"

lemma plain_theme_valid: "theme_valid plain_theme"
proof -
  have "HEX_COLOR (lit ''#fff'')" by code_simp
  then show ?thesis by (simp add: theme_valid_def plain_theme_def colors_valid_def)
qed

lemma sample_args:
  "u64 0" "u16 0" "pred_option P None" "list_all Q []" "glass_valid 80" "theme_valid plain_theme" "appearance_valid plain_document"
  "hunk_in_range \<lparr>hr_old_start = 0, hr_old_lines = 0, hr_new_start = 0, hr_new_lines = 0\<rparr>"
  "pred_option R (pres_viewing \<lparr>pres_focused = True, pres_viewing = None\<rparr>)"
  by (simp_all add: glass_valid_def plain_theme_valid appearance_valid_def plain_document_def hunk_in_range_def)

lemma shell_commands_called: "list_all (\<lambda>(name, _). called name) SHELL_COMMANDS"
  unfolding SHELL_COMMANDS_def by (simp only: list.pred_inject case_prod_conv simp_thms, (intro conjI)?, (rule calledI, (rule calls; rule sample_args))+)

lemma core_commands_called: "list_all (\<lambda>(name, _). called name) CORE_COMMANDS"
  unfolding CORE_COMMANDS_def by (simp only: list.pred_inject case_prod_conv simp_thms, (intro conjI)?, (rule calledI, (rule calls; rule sample_args))+)

lemma trust_commands_called: "list_all (\<lambda>(name, _). called name) TRUST_COMMANDS"
  unfolding TRUST_COMMANDS_def by (simp only: list.pred_inject case_prod_conv simp_thms, (intro conjI)?, (rule calledI, (rule calls; rule sample_args))+)

lemma settings_commands_called: "list_all (\<lambda>(name, _). called name) SETTINGS_COMMANDS"
  unfolding SETTINGS_COMMANDS_def by (simp only: list.pred_inject case_prod_conv simp_thms, (intro conjI)?, (rule calledI, (rule calls; rule sample_args))+)

lemma attention_commands_called: "list_all (\<lambda>(name, _). called name) ATTENTION_COMMANDS"
  unfolding ATTENTION_COMMANDS_def by (simp only: list.pred_inject case_prod_conv simp_thms, (intro conjI)?, (rule calledI, (rule calls; rule sample_args))+)

lemma templates_commands_called: "list_all (\<lambda>(name, _). called name) TEMPLATES_COMMANDS"
  unfolding TEMPLATES_COMMANDS_def by (simp only: list.pred_inject case_prod_conv simp_thms, (intro conjI)?, (rule calledI, (rule calls; rule sample_args))+)

lemma project_settings_commands_called: "list_all (\<lambda>(name, _). called name) PROJECT_SETTINGS_COMMANDS"
  unfolding PROJECT_SETTINGS_COMMANDS_def by (simp only: list.pred_inject case_prod_conv simp_thms, (intro conjI)?, (rule calledI, (rule calls; rule sample_args))+)

lemma git_commands_called: "list_all (\<lambda>(name, _). called name) GIT_COMMANDS"
  unfolding GIT_COMMANDS_def by (simp only: list.pred_inject case_prod_conv simp_thms, (intro conjI)?, (rule calledI, (rule calls; rule sample_args))+)

lemma git_branches_commands_called: "list_all (\<lambda>(name, _). called name) GIT_BRANCHES_COMMANDS"
  unfolding GIT_BRANCHES_COMMANDS_def by (simp only: list.pred_inject case_prod_conv simp_thms, (intro conjI)?, (rule calledI, (rule calls; rule sample_args))+)

lemma git_sync_commands_called: "list_all (\<lambda>(name, _). called name) GIT_SYNC_COMMANDS"
  unfolding GIT_SYNC_COMMANDS_def by (simp only: list.pred_inject case_prod_conv simp_thms, (intro conjI)?, (rule calledI, (rule calls; rule sample_args))+)

lemma git_pr_commands_called: "list_all (\<lambda>(name, _). called name) GIT_PR_COMMANDS"
  unfolding GIT_PR_COMMANDS_def by (simp only: list.pred_inject case_prod_conv simp_thms, (intro conjI)?, (rule calledI, (rule calls; rule sample_args))+)

lemma git_review_commands_called: "list_all (\<lambda>(name, _). called name) GIT_REVIEW_COMMANDS"
  unfolding GIT_REVIEW_COMMANDS_def by (simp only: list.pred_inject case_prod_conv simp_thms, (intro conjI)?, (rule calledI, (rule calls; rule sample_args))+)

lemma orchestration_commands_called: "list_all (\<lambda>(name, _). called name) ORCHESTRATION_COMMANDS"
  unfolding ORCHESTRATION_COMMANDS_def by (simp only: list.pred_inject case_prod_conv simp_thms, (intro conjI)?, (rule calledI, (rule calls; rule sample_args))+)

lemma coordination_commands_called: "list_all (\<lambda>(name, _). called name) COORDINATION_COMMANDS"
  unfolding COORDINATION_COMMANDS_def by (simp only: list.pred_inject case_prod_conv simp_thms, (intro conjI)?, (rule calledI, (rule calls; rule sample_args))+)

lemma export_commands_called: "list_all (\<lambda>(name, _). called name) EXPORT_COMMANDS"
  unfolding EXPORT_COMMANDS_def by (simp only: list.pred_inject case_prod_conv simp_thms, (intro conjI)?, (rule calledI, (rule calls; rule sample_args))+)

lemma timers_commands_called: "list_all (\<lambda>(name, _). called name) TIMERS_COMMANDS"
  unfolding TIMERS_COMMANDS_def by (simp only: list.pred_inject case_prod_conv simp_thms, (intro conjI)?, (rule calledI, (rule calls; rule sample_args))+)

lemma commands_called: "list_all (\<lambda>(name, _). called name) COMMANDS"
  by (simp add: COMMANDS_def shell_commands_called core_commands_called trust_commands_called settings_commands_called attention_commands_called templates_commands_called project_settings_commands_called git_commands_called git_branches_commands_called git_sync_commands_called git_pr_commands_called git_review_commands_called orchestration_commands_called coordination_commands_called export_commands_called timers_commands_called)

text \<open>
  C8. The client and the core agree on the wire: every call the front end can make names a
  registered command and carries exactly the arguments that command takes, each under the name
  the shell looks up and of the type the core reads, and the core registers no command that the
  front end cannot call.
\<close>

theorem client_matches_core:
  "(client_call c \<longrightarrow> accepts c) \<and> list_all (\<lambda>(name, _). called name) COMMANDS"
  using calls_accepted commands_called by simp

theorem client_matches_core_witness:
  "accepts (todoUpdate 3 7 \<lparr>td_title = lit ''Ship'', td_body = [], td_status = TodoInProgress\<rparr> None 12)"
  using client_matches_core [of "todoUpdate 3 7 \<lparr>td_title = lit ''Ship'', td_body = [], td_status = TodoInProgress\<rparr> None 12"]
    call_todo_update [of 3 7 None 12 "\<lparr>td_title = lit ''Ship'', td_body = [], td_status = TodoInProgress\<rparr>"]
  by simp

text \<open>An export makes the one call the core takes, and only after a path was picked; a frame gives back its payload and tag.\<close>

lemma exports_ask_first:
  "snd (exportMarkdown save n s) \<longleftrightarrow> fst (exportMarkdown save n s) \<noteq> []"
  "snd (exportDiagramFile save n e l b) \<longleftrightarrow> fst (exportDiagramFile save n e l b) \<noteq> []"
  "list_all accepts (fst (exportMarkdown save n s))" "list_all accepts (fst (exportDiagramFile save n e l b))"
  using calls_accepted call_export_markdown call_export_bytes
  by (auto simp: exportMarkdown_def exportDiagramFile_def split: option.splits)

lemma pty_frame_tagged: "pty_frame (tag # payload) = (payload, tag = PTY_FRAME_RESYNC)"
  by (simp add: pty_frame_def)

end
