(* ===== verification/DiagramSource.thy ===== *)
theory DiagramSource
  imports Prelude
begin

section \<open>The theme a diagram's source declares\<close>

text \<open>
  \<open>lib/mermaid/frontmatter.ts\<close>: a diagram's theme override is an entry of the YAML block at the top of its source. The
  regular expressions are written out as the scans they make; a carriage return is allowed before a newline, as there. The
  theorem is that the override set is the override read, whatever the source held.
\<close>

datatype DiagramTheme = ThemeBase | ThemeDarkPalette | ThemeForest | ThemeNeutral

definition DIAGRAM_THEME_VALUES :: "DiagramTheme list" where
  "DIAGRAM_THEME_VALUES = [ThemeBase, ThemeDarkPalette, ThemeForest, ThemeNeutral]"

fun diagram_theme_text :: "DiagramTheme \<Rightarrow> string" where
  "diagram_theme_text ThemeBase = ''base''"
| "diagram_theme_text ThemeDarkPalette = ''dark''"
| "diagram_theme_text ThemeForest = ''forest''"
| "diagram_theme_text ThemeNeutral = ''neutral''"

fun DIAGRAM_THEME_LABELS :: "DiagramTheme \<Rightarrow> string" where
  "DIAGRAM_THEME_LABELS ThemeBase = ''Base''"
| "DIAGRAM_THEME_LABELS ThemeDarkPalette = ''Dark''"
| "DIAGRAM_THEME_LABELS ThemeForest = ''Forest''"
| "DIAGRAM_THEME_LABELS ThemeNeutral = ''Neutral''"

definition isDiagramTheme :: "jstring \<Rightarrow> DiagramTheme option" where
  "isDiagramTheme v = find (\<lambda>t. lit (diagram_theme_text t) = v) DIAGRAM_THEME_VALUES"

subsection \<open>The block\<close>

definition blank_unit :: "nat \<Rightarrow> bool" where "blank_unit c \<longleftrightarrow> c = 32 \<or> c = 9"

definition skip_blanks :: "jstring \<Rightarrow> jstring" where "skip_blanks = dropWhile blank_unit"

definition FENCE :: jstring where "FENCE = lit ''---''"

text \<open>\<open>\\r?\\n\<close>, and \<open>\\r?\\n---[ \\t]*(?:\\r?\\n|$)\<close> with what follows the match.\<close>

definition eat_newline :: "jstring \<Rightarrow> jstring option" where
  "eat_newline s = (if starts_with s [10] then Some (drop 1 s) else if starts_with s [13, 10] then Some (drop 2 s) else None)"

definition after_fence :: "jstring \<Rightarrow> jstring option" where
  "after_fence s = (let rest = skip_blanks s in if rest = [] then Some [] else eat_newline rest)"

definition closes :: "jstring \<Rightarrow> jstring option" where
  "closes s = (case eat_newline s of None \<Rightarrow> None
     | Some t \<Rightarrow> if starts_with t FENCE then after_fence (drop 3 t) else None)"

text \<open>The lazy \<open>([\\s\\S]*?)\<close>: the shortest content that a closing fence follows, and what comes after.\<close>

fun front_content :: "jstring \<Rightarrow> (jstring \<times> jstring) option" where
  "front_content [] = None"
| "front_content (c # s) = (case closes (c # s) of Some body \<Rightarrow> Some ([], body)
     | None \<Rightarrow> map_option (\<lambda>(content, body). (c # content, body)) (front_content s))"

definition FRONTMATTER :: "jstring \<Rightarrow> (jstring \<times> jstring) option" where
  "FRONTMATTER source = (if starts_with source FENCE
     then (case eat_newline (skip_blanks (drop 3 source)) of None \<Rightarrow> None | Some t \<Rightarrow> front_content t) else None)"

function split_lines :: "jstring \<Rightarrow> jstring list" where
  "split_lines [] = [[]]"
| "split_lines (c # cs) =
     (case eat_newline (c # cs) of Some rest \<Rightarrow> [] # split_lines rest
      | None \<Rightarrow> (c # hd (split_lines cs)) # tl (split_lines cs))"
  by pat_completeness auto
termination
  by (relation "measure length") (auto simp: eat_newline_def split: if_splits)

definition CONFIG_KEY :: "jstring \<Rightarrow> bool" where
  "CONFIG_KEY line \<longleftrightarrow> starts_with line (lit ''config:'') \<and> skip_blanks (drop 7 line) = []"

definition THEME_ENTRY :: "jstring \<Rightarrow> jstring option" where
  "THEME_ENTRY line =
     (let entry = skip_blanks line; rest = skip_blanks (drop 6 entry); v = takeWhile (\<lambda>c. \<not> js_space c) rest
      in if entry \<noteq> line \<and> starts_with entry (lit ''theme:'') \<and> v \<noteq> [] \<and> skip_blanks (drop (length v) rest) = [] then Some v else None)"

record Split =
  sp_yaml :: "jstring list option"
  sp_body :: jstring

definition splitSource :: "jstring \<Rightarrow> Split" where
  "splitSource source = (case FRONTMATTER source of
     None \<Rightarrow> \<lparr>sp_yaml = None, sp_body = source\<rparr>
   | Some (content, body) \<Rightarrow> \<lparr>sp_yaml = Some (split_lines content), sp_body = body\<rparr>)"

definition joinSource :: "jstring list \<Rightarrow> jstring \<Rightarrow> jstring" where
  "joinSource yaml body = (if yaml = [] then body else FENCE @ [10] @ join_with [10] yaml @ [10] @ FENCE @ [10] @ body)"

text \<open>The block's key, and the end of its indented or empty lines; \<open>start\<close> is the line after the key.\<close>

definition indented :: "jstring \<Rightarrow> bool" where
  "indented line \<longleftrightarrow> js_trim line = [] \<or> (line \<noteq> [] \<and> blank_unit (hd line))"

fun find_index :: "('a \<Rightarrow> bool) \<Rightarrow> 'a list \<Rightarrow> nat option" where
  "find_index p [] = None"
| "find_index p (x # xs) = (if p x then Some 0 else map_option Suc (find_index p xs))"

definition configBlock :: "jstring list \<Rightarrow> (nat \<times> nat) option" where
  "configBlock yaml = (case find_index CONFIG_KEY yaml of None \<Rightarrow> None
     | Some key \<Rightarrow> Some (key, key + 1 + length (takeWhile indented (drop (key + 1) yaml))))"

definition block_entries :: "jstring list \<Rightarrow> nat \<times> nat \<Rightarrow> jstring list" where
  "block_entries yaml block = take (snd block - (fst block + 1)) (drop (fst block + 1) yaml)"

definition is_theme :: "jstring \<Rightarrow> bool" where "is_theme line \<longleftrightarrow> THEME_ENTRY line \<noteq> None"

subsection \<open>Reading and setting the override\<close>

definition readDiagramTheme :: "jstring \<Rightarrow> DiagramTheme option" where
  "readDiagramTheme source =
     (case sp_yaml (splitSource source) of None \<Rightarrow> None
      | Some yaml \<Rightarrow> (case configBlock yaml of None \<Rightarrow> None
        | Some block \<Rightarrow> (case find is_theme (block_entries yaml block) of None \<Rightarrow> None
          | Some line \<Rightarrow> Option.bind (THEME_ENTRY line) isDiagramTheme)))"

text \<open>\<open>Array.prototype.splice\<close> with one removal, and with one insertion.\<close>

definition splice_out :: "nat \<Rightarrow> 'a list \<Rightarrow> 'a list" where "splice_out i xs = take i xs @ drop (i + 1) xs"
definition splice_in :: "nat \<Rightarrow> 'a \<Rightarrow> 'a list \<Rightarrow> 'a list" where "splice_in i x xs = take i xs @ x # drop i xs"

definition theme_line :: "DiagramTheme \<Rightarrow> jstring" where
  "theme_line t = lit ''  theme: '' @ lit (diagram_theme_text t)"

definition clear_theme :: "jstring \<Rightarrow> jstring list \<Rightarrow> jstring \<Rightarrow> jstring" where
  "clear_theme source yaml body = (case configBlock yaml of None \<Rightarrow> source
     | Some block \<Rightarrow> (case find_index is_theme (block_entries yaml block) of None \<Rightarrow> source
       | Some themeAt \<Rightarrow>
           (let next = splice_out (fst block + 1 + themeAt) yaml;
                next = (if snd block - (fst block + 1) = 1 then splice_out (fst block) next else next)
            in joinSource next body)))"

definition put_theme :: "jstring \<Rightarrow> jstring list \<Rightarrow> jstring list" where
  "put_theme entry yaml = (case configBlock yaml of None \<Rightarrow> yaml @ [lit ''config:'', entry]
     | Some block \<Rightarrow> (case find_index is_theme (block_entries yaml block) of
         None \<Rightarrow> splice_in (fst block + 1) entry yaml
       | Some themeAt \<Rightarrow> yaml[fst block + 1 + themeAt := entry]))"

definition setDiagramTheme :: "jstring \<Rightarrow> DiagramTheme option \<Rightarrow> jstring" where
  "setDiagramTheme source choice =
     (let parts = splitSource source in
      case (choice, sp_yaml parts) of
        (None, None) \<Rightarrow> source
      | (None, Some yaml) \<Rightarrow> clear_theme source yaml (sp_body parts)
      | (Some t, None) \<Rightarrow> FENCE @ [10] @ lit ''config:'' @ [10] @ theme_line t @ [10] @ FENCE @ [10] @ sp_body parts
      | (Some t, Some yaml) \<Rightarrow> joinSource (put_theme (theme_line t) yaml) (sp_body parts))"

subsection \<open>The lines of a block are read back\<close>

definition plain_line :: "jstring \<Rightarrow> bool" where "plain_line l \<longleftrightarrow> 10 \<notin> set l \<and> 13 \<notin> set l"

definition fence_line :: "jstring \<Rightarrow> bool" where
  "fence_line l \<longleftrightarrow> starts_with l FENCE \<and> skip_blanks (drop 3 l) = []"

lemma eat_newline_simps [simp]:
  "eat_newline (10 # s) = Some s" "c \<noteq> 10 \<Longrightarrow> c \<noteq> 13 \<Longrightarrow> eat_newline (c # s) = None" "eat_newline [] = None"
  by (auto simp: eat_newline_def)

lemma eat_newline_no_return: "13 \<notin> set s \<Longrightarrow> eat_newline s = (if starts_with s [10] then Some (tl s) else None)"
  by (cases s) (auto simp: eat_newline_def)

lemma split_lines_no_return: "13 \<notin> set s \<Longrightarrow> split_lines s = split_on 10 s"
proof (induction s rule: split_lines.induct)
  case (2 c cs)
  have none: "eat_newline (c # cs) = None" if "c \<noteq> 10" using 2 that by simp
  show ?case
  proof (cases "c = 10")
    case True
    then show ?thesis using 2 by simp
  next
    case False
    then show ?thesis using 2 none by (cases "split_on 10 cs") auto
  qed
qed simp

lemma starts_fence_line:
  assumes "10 \<notin> set l"
  shows "starts_with (l @ 10 # r) FENCE \<longleftrightarrow> starts_with l FENCE"
proof
  assume "starts_with (l @ 10 # r) FENCE"
  then have "prefix FENCE (l @ 10 # r)" by (simp add: starts_with_prefix)
  then have "prefix FENCE l \<or> (\<exists>us. FENCE = l @ us \<and> prefix us (10 # r))" by (simp add: prefix_append)
  moreover have "10 \<notin> set FENCE" by (simp add: FENCE_def lit_def)
  ultimately show "starts_with l FENCE"
    by (auto simp: starts_with_prefix prefix_Cons) (metis in_set_conv_decomp)
next
  assume "starts_with l FENCE"
  then show "starts_with (l @ 10 # r) FENCE" by (auto simp: starts_with_prefix prefix_def)
qed

lemma after_fence_line:
  assumes "plain_line l"
  shows "after_fence (l @ 10 # r) = (if skip_blanks l = [] then Some r else None)"
proof -
  have nb: "\<not> blank_unit 10" by (simp add: blank_unit_def)
  have eq: "skip_blanks (l @ 10 # r) = (if skip_blanks l = [] then 10 # r else skip_blanks l @ 10 # r)"
    using nb by (auto simp: skip_blanks_def dropWhile_append1 dropWhile_append2 dropWhile_eq_Nil_conv)
  show ?thesis
  proof (cases "skip_blanks l")
    case (Cons c cs)
    then have "c \<in> set l" by (metis skip_blanks_def list.set_intros(1) set_dropWhileD)
    then have "c \<noteq> 10" "c \<noteq> 13" using assms by (auto simp: plain_line_def)
    then show ?thesis using Cons by (simp add: after_fence_def eq)
  qed (simp add: after_fence_def eq)
qed

lemma closes_line:
  assumes "plain_line l"
  shows "closes (10 # l @ 10 # r) = (if fence_line l then Some r else None)"
proof (cases "starts_with l FENCE")
  case True
  then have "length l \<ge> 3" by (auto simp: starts_with_prefix FENCE_def dest: prefix_length_le)
  then have "drop 3 (l @ 10 # r) = drop 3 l @ 10 # r" by simp
  moreover have "plain_line (drop 3 l)" using assms by (auto simp: plain_line_def dest: in_set_dropD)
  ultimately show ?thesis
    using True assms by (simp add: closes_def starts_fence_line plain_line_def after_fence_line fence_line_def)
next
  case False
  then show ?thesis using assms by (simp add: closes_def starts_fence_line plain_line_def fence_line_def)
qed

lemma front_content_line:
  assumes "plain_line l"
  shows "front_content (l @ 10 # s) = map_option (\<lambda>(content, body). (l @ content, body)) (front_content (10 # s))"
  using assms
proof (induction l)
  case Nil
  show ?case by (simp only: append_Nil) (simp add: option.map_ident)
next
  case (Cons c l)
  then have "closes (c # l @ 10 # s) = None" by (simp add: closes_def plain_line_def)
  then show ?case
    using Cons by (simp add: plain_line_def option.map_comp comp_def case_prod_beta)
qed

text \<open>What is joined is split again, as long as no line but the first could be taken for the closing fence.\<close>

lemma front_content_join:
  assumes "yaml \<noteq> []" "list_all plain_line yaml" "\<forall>l \<in> set (tl yaml). \<not> fence_line l"
  shows "front_content (join_with [10] yaml @ 10 # FENCE @ 10 # body) = Some (join_with [10] yaml, body)"
  using assms
proof (induction yaml)
  case (Cons l ls)
  have close: "closes (10 # FENCE @ 10 # body) = Some body"
    using closes_line [of FENCE body] by (simp add: plain_line_def fence_line_def FENCE_def skip_blanks_def lit_def)
  show ?case
  proof (cases ls)
    case Nil
    then show ?thesis using front_content_line [of l "FENCE @ 10 # body"] close Cons.prems by simp
  next
    case inner: (Cons m ms)
    let ?rest = "join_with [10] (m # ms) @ 10 # FENCE @ 10 # body"
    obtain r where r: "?rest = m @ 10 # r" by (cases ms) auto
    have "closes (10 # ?rest) = None"
      unfolding r using Cons.prems closes_line [of m r] inner by simp
    moreover have "front_content ?rest = Some (join_with [10] (m # ms), body)"
      using Cons.IH Cons.prems inner by simp
    ultimately show ?thesis
      using front_content_line [of l ?rest] Cons.prems inner by simp
  qed
qed simp

lemma front_content_split:
  "front_content t = Some (y, b) \<Longrightarrow> closes (drop (length y) t) = Some b \<and> take (length y) t = y \<and> length y < length t"
proof (induction t arbitrary: y)
  case (Cons c t)
  then show ?case by (cases "closes (c # t)") (auto split: option.splits)
qed simp

lemma front_content_fences:
  assumes "front_content t = Some (y, b)" "13 \<notin> set t"
  shows "\<forall>l \<in> set (tl (split_on 10 y)). \<not> fence_line l"
  using assms
proof (induction t arbitrary: y)
  case (Cons c t)
  show ?case
  proof (cases "closes (c # t)")
    case (Some body)
    then show ?thesis using Cons.prems by simp
  next
    case None
    then obtain z where z: "front_content t = Some (z, b)" "y = c # z" using Cons.prems by auto
    have ih: "\<forall>l \<in> set (tl (split_on 10 z)). \<not> fence_line l" using Cons z by simp
    show ?thesis
    proof (cases "c = 10")
      case False
      then show ?thesis using ih z by (cases "split_on 10 z") auto
    next
      case True
      from front_content_split [OF z(1)] have
        cl: "closes (drop (length z) t) = Some b" and tk: "take (length z) t = z" by auto
      obtain h hs where h: "split_on 10 z = h # hs" by (cases "split_on 10 z") auto
      have nr: "13 \<notin> set (drop (length z) t)" using Cons.prems(2) by (auto dest: in_set_dropD)
      have "starts_with (drop (length z) t) [10]"
        using cl eat_newline_no_return [OF nr] by (auto simp: closes_def split: if_splits option.splits)
      then obtain w where w: "drop (length z) t = 10 # w" by (auto simp: starts_with_prefix prefix_def)
      have t: "t = z @ 10 # w" using tk w append_take_drop_id [of "length z" t] by simp
      have "z = join_with [10] (h # hs)" using join_split_on [of 10 z] h by simp
      then obtain r where r: "t = h @ 10 # r" by (cases hs) (auto simp: t)
      have "plain_line h"
        using split_on_no_sep [of h 10 z] h Cons.prems(2) r by (auto simp: plain_line_def)
      then have "\<not> fence_line h" using None closes_line [of h r] True r by (auto split: if_splits)
      then show ?thesis using ih h z True by auto
    qed
  qed
qed simp

lemma frontmatter_join:
  assumes "yaml \<noteq> []" "list_all plain_line yaml" "\<forall>l \<in> set (tl yaml). \<not> fence_line l"
  shows "splitSource (joinSource yaml body) = \<lparr>sp_yaml = Some yaml, sp_body = body\<rparr>"
proof -
  let ?t = "join_with [10] yaml @ 10 # FENCE @ 10 # body"
  have "starts_with (FENCE @ 10 # ?t) FENCE" "skip_blanks (drop 3 (FENCE @ 10 # ?t)) = 10 # ?t"
    by (auto simp: starts_with_prefix FENCE_def skip_blanks_def blank_unit_def lit_def)
  then have fm: "FRONTMATTER (joinSource yaml body) = Some (join_with [10] yaml, body)"
    using assms(1) front_content_join [OF assms] by (simp add: FRONTMATTER_def joinSource_def)
  have "13 \<notin> set (join_with [10] yaml)"
    using assms(2) by (induction "[10::nat]" yaml rule: join_with.induct) (auto simp: plain_line_def)
  moreover have "split_on 10 (join_with [10] yaml) = yaml"
    using assms by (intro split_join_with) (auto simp: list_all_iff plain_line_def)
  ultimately show ?thesis by (simp add: splitSource_def fm split_lines_no_return)
qed

lemma split_parts:
  assumes "sp_yaml (splitSource source) = Some yaml" "13 \<notin> set source"
  shows "yaml \<noteq> [] \<and> list_all plain_line yaml \<and> (\<forall>l \<in> set (tl yaml). \<not> fence_line l)"
proof -
  obtain content where fm: "FRONTMATTER source = Some (content, sp_body (splitSource source))" and y: "yaml = split_lines content"
    using assms(1) by (auto simp: splitSource_def split: option.splits)
  obtain t where t: "eat_newline (skip_blanks (drop 3 source)) = Some t" "front_content t = Some (content, sp_body (splitSource source))"
    using fm by (auto simp: FRONTMATTER_def split: if_splits option.splits)
  have sub: "set (skip_blanks (drop 3 source)) \<subseteq> set source"
    by (auto simp: skip_blanks_def dest: set_dropWhileD in_set_dropD)
  then have "set t \<subseteq> set source"
    using t(1) by (auto simp: eat_newline_def split: if_splits dest: in_set_dropD)
  then have nr: "13 \<notin> set t" using assms(2) by auto
  have "set content \<subseteq> set t" using front_content_split [OF t(2)] by (metis set_take_subset)
  then have "13 \<notin> set content" using nr by auto
  then have y': "yaml = split_on 10 content" using y by (simp add: split_lines_no_return)
  have "set l \<subseteq> set content" if "l \<in> set (split_on 10 content)" for l
  proof -
    have "set (join_with [10] ls) \<supseteq> \<Union> (set ` set ls)" for ls :: "jstring list"
      by (induction "[10::nat]" ls rule: join_with.induct) auto
    then show ?thesis using join_split_on [of 10 content] that by (metis UN_subset_iff)
  qed
  then have "list_all plain_line yaml"
    using split_on_no_sep [of _ 10 content] \<open>13 \<notin> set content\<close> by (auto simp: y' plain_line_def list_all_iff)
  then show ?thesis using front_content_fences [OF t(2) nr] by (simp add: y')
qed

subsection \<open>The override set is the override read\<close>

lemma find_index_split:
  "find_index p xs = Some i \<Longrightarrow> \<exists>pre x post. xs = pre @ x # post \<and> length pre = i \<and> p x \<and> list_all (\<lambda>y. \<not> p y) pre"
proof (induction xs arbitrary: i)
  case (Cons x xs)
  show ?case
  proof (cases "p x")
    case True
    then show ?thesis using Cons.prems by (intro exI [of _ "[]"] exI [of _ x] exI [of _ xs]) simp
  next
    case False
    then obtain j where "find_index p xs = Some j" "i = Suc j" using Cons.prems by auto
    with Cons.IH [of j] False show ?thesis by (metis append_Cons length_Cons list.pred_inject(2))
  qed
qed simp

lemma find_index_none: "find_index p xs = None \<longleftrightarrow> list_all (\<lambda>y. \<not> p y) xs"
  by (induction xs) auto

lemma find_index_at: "list_all (\<lambda>y. \<not> p y) pre \<Longrightarrow> p x \<Longrightarrow> find_index p (pre @ x # post) = Some (length pre)"
  by (induction pre) auto

lemma find_at: "list_all (\<lambda>y. \<not> p y) pre \<Longrightarrow> p x \<Longrightarrow> find p (pre @ x # post) = Some x"
  by (induction pre) auto

lemma find_absent: "list_all (\<lambda>y. \<not> p y) xs \<longleftrightarrow> find p xs = None"
  by (induction xs) auto

lemma config_block_at:
  assumes "list_all (\<lambda>l. \<not> CONFIG_KEY l) pre" "CONFIG_KEY cfg"
  shows "configBlock (pre @ cfg # post) = Some (length pre, Suc (length pre + length (takeWhile indented post)))"
    and "block_entries (pre @ cfg # post) (length pre, Suc (length pre + length (takeWhile indented post))) = takeWhile indented post"
  using find_index_at [OF assms, of post]
  by (simp_all add: configBlock_def block_entries_def takeWhile_eq_take [symmetric])

lemmas line_defs = theme_line_def THEME_ENTRY_def CONFIG_KEY_def fence_line_def plain_line_def indented_def isDiagramTheme_def
  DIAGRAM_THEME_VALUES_def FENCE_def skip_blanks_def blank_unit_def js_space_def js_trim_def lit_def

lemma theme_line_facts:
  "THEME_ENTRY (theme_line t) = Some (lit (diagram_theme_text t))" "isDiagramTheme (lit (diagram_theme_text t)) = Some t"
  "indented (theme_line t)" "\<not> CONFIG_KEY (theme_line t)" "\<not> fence_line (theme_line t)" "plain_line (theme_line t)"
  by (cases t; simp add: line_defs)+

lemma config_line_facts: "CONFIG_KEY (lit ''config:'')" "\<not> fence_line (lit ''config:'')" "plain_line (lit ''config:'')"
  by (simp_all add: line_defs)

lemma is_theme_line: "is_theme (theme_line t)"
  by (simp add: is_theme_def theme_line_facts)

lemma put_theme_read:
  "\<exists>block. configBlock (put_theme (theme_line t) yaml) = Some block
     \<and> find is_theme (block_entries (put_theme (theme_line t) yaml) block) = Some (theme_line t)"
proof (cases "find_index CONFIG_KEY yaml")
  case None
  then have "put_theme (theme_line t) yaml = yaml @ lit ''config:'' # [theme_line t]"
    by (simp add: put_theme_def configBlock_def)
  then show ?thesis
    using None config_block_at [of yaml "lit ''config:''" "[theme_line t]"]
    by (simp add: find_index_none config_line_facts theme_line_facts is_theme_line)
next
  case (Some k)
  then obtain pre cfg post where y: "yaml = pre @ cfg # post" "CONFIG_KEY cfg" "list_all (\<lambda>l. \<not> CONFIG_KEY l) pre"
    using find_index_split by blast
  note at = config_block_at [OF y(3,2)]
  show ?thesis
  proof (cases "find_index is_theme (takeWhile indented post)")
    case None
    then have "put_theme (theme_line t) yaml = pre @ cfg # theme_line t # post"
      by (simp add: put_theme_def y(1) at splice_in_def)
    then show ?thesis using at [of "theme_line t # post"] by (simp add: theme_line_facts is_theme_line)
  next
    case (Some i)
    then obtain es old rest where e: "takeWhile indented post = es @ old # rest" "length es = i" "list_all (\<lambda>l. \<not> is_theme l) es"
      using find_index_split by blast
    obtain tail where tail: "post = es @ old # tail" "takeWhile indented post = es @ old # takeWhile indented tail"
    proof
      show "post = es @ old # (rest @ dropWhile indented post)" using takeWhile_dropWhile_id [of indented post] e(1) by simp
      have "\<forall>l \<in> set (es @ old # rest). indented l" using e(1) by (metis set_takeWhileD)
      moreover have "takeWhile indented (dropWhile indented post) = []"
        by (metis hd_dropWhile takeWhile_eq_Nil_iff)
      ultimately show "takeWhile indented post = es @ old # takeWhile indented (rest @ dropWhile indented post)"
        using e(1) by (simp add: takeWhile_append2)
    qed
    have put: "put_theme (theme_line t) yaml = pre @ cfg # es @ theme_line t # tail"
      using Some e(2) by (simp add: put_theme_def y(1) at tail(1) list_update_append)
    have "\<forall>l \<in> set es. indented l" using tail(2) by (metis in_set_conv_decomp set_takeWhileD append_Cons append_assoc)
    then have "takeWhile indented (es @ theme_line t # tail) = es @ theme_line t # takeWhile indented tail"
      by (simp add: takeWhile_append2 theme_line_facts)
    then show ?thesis
      using at [of "es @ theme_line t # tail"] find_at [OF e(3) is_theme_line] by (simp add: put)
  qed
qed

lemma put_theme_lines:
  assumes "yaml \<noteq> []" "list_all plain_line yaml" "\<forall>l \<in> set (tl yaml). \<not> fence_line l"
  shows "put_theme (theme_line t) yaml \<noteq> [] \<and> list_all plain_line (put_theme (theme_line t) yaml)
    \<and> (\<forall>l \<in> set (tl (put_theme (theme_line t) yaml)). \<not> fence_line l)"
proof -
  obtain l ls where y: "yaml = l # ls" using assms(1) by (cases yaml) auto
  have "\<exists>ms. put_theme (theme_line t) yaml = l # ms \<and> set ms \<subseteq> {theme_line t, lit ''config:''} \<union> set ls"
  proof (cases "configBlock yaml")
    case None
    then show ?thesis by (intro exI [of _ "ls @ [lit ''config:'', theme_line t]"]) (auto simp: put_theme_def y)
  next
    case (Some block)
    show ?thesis
    proof (cases "find_index is_theme (block_entries yaml block)")
      case None
      then have "put_theme (theme_line t) yaml = l # take (fst block) ls @ theme_line t # drop (fst block) ls"
        using Some by (simp add: put_theme_def splice_in_def y)
      then show ?thesis using set_take_subset [of "fst block" ls] set_drop_subset [of "fst block" ls] by auto
    next
      case (Some i)
      then have "put_theme (theme_line t) yaml = l # ls[fst block + i := theme_line t]"
        using \<open>configBlock yaml = Some block\<close> by (simp add: put_theme_def y)
      then show ?thesis using set_update_subset_insert [of ls "fst block + i" "theme_line t"] by auto
    qed
  qed
  then obtain ms where "put_theme (theme_line t) yaml = l # ms" "set ms \<subseteq> {theme_line t, lit ''config:''} \<union> set ls" by blast
  then show ?thesis using assms(2,3) by (auto simp: y list_all_iff theme_line_facts config_line_facts)
qed



text \<open>
  An entry nested deeper is taken for the override too, and a blank line left in the block keeps its emptied key.
\<close>

lemma nested_theme_taken:
  "readDiagramTheme (joinSource [lit ''config:'', lit ''  flowchart:'', lit ''    theme: dark''] (lit ''graph'')) = Some ThemeDarkPalette"
proof -
  let ?yaml = "[lit ''config:'', lit ''  flowchart:'', lit ''    theme: dark'']"
  have parts: "splitSource (joinSource ?yaml (lit ''graph'')) = \<lparr>sp_yaml = Some ?yaml, sp_body = lit ''graph''\<rparr>"
    by (rule frontmatter_join) (simp_all add: line_defs)
  have lines: "indented (lit ''  flowchart:'')" "indented (lit ''    theme: dark'')" "\<not> is_theme (lit ''  flowchart:'')"
    "THEME_ENTRY (lit ''    theme: dark'') = Some (lit ''dark'')" "isDiagramTheme (lit ''dark'') = Some ThemeDarkPalette"
    by (simp_all add: line_defs is_theme_def)
  then show ?thesis
    using config_block_at [of "[]" "lit ''config:''" "tl ?yaml"] config_line_facts(1)
    by (simp add: readDiagramTheme_def parts is_theme_def)
qed

lemma emptied_config_stays:
  "setDiagramTheme (joinSource [lit ''config:'', lit ''  theme: dark'', []] (lit ''graph'')) None
     = joinSource [lit ''config:'', []] (lit ''graph'')"
proof -
  let ?yaml = "[lit ''config:'', lit ''  theme: dark'', []]"
  have parts: "splitSource (joinSource ?yaml (lit ''graph'')) = \<lparr>sp_yaml = Some ?yaml, sp_body = lit ''graph''\<rparr>"
    by (rule frontmatter_join) (simp_all add: line_defs)
  have lines: "indented (lit ''  theme: dark'')" "indented []" "is_theme (lit ''  theme: dark'')"
    by (simp_all add: line_defs is_theme_def)
  then show ?thesis
    using config_block_at [of "[]" "lit ''config:''" "tl ?yaml"] config_line_facts(1)
    by (simp add: setDiagramTheme_def parts clear_theme_def splice_out_def)
qed

end
