(* ===== verification/DiagramTools.thy ===== *)
theory DiagramTools
  imports Prelude
begin

section \<open>Diagrams: constants, cache, zoom and size\<close>

text \<open>
  The parts of \<open>lib/mermaid/\<close> that compute: its constants (\<open>const.ts\<close>), the bounded cache of renders
  (\<open>renderCache.ts\<close>), the arithmetic of the canvas (\<open>zoom.ts\<close>, over the rationals) and the rewrite that gives a drawing its
  own size (\<open>svgSize.ts\<close>).
\<close>

subsection \<open>Constants\<close>

definition MERMAID_ID_PREFIX :: jstring where "MERMAID_ID_PREFIX = lit ''soloist-mermaid''"
definition MERMAID_LANGUAGE :: jstring where "MERMAID_LANGUAGE = lit ''mermaid''"
definition MERMAID_STARTER_SOURCE :: jstring where
  "MERMAID_STARTER_SOURCE = lit ''flowchart TD'' @ [10] @ lit ''  A[Start] --> B[Done]''"
definition MERMAID_SECURITY_LEVEL :: jstring where "MERMAID_SECURITY_LEVEL = lit ''strict''"
definition MERMAID_FONT_SIZE :: jstring where "MERMAID_FONT_SIZE = lit ''13px''"
definition MERMAID_RENDER_DEBOUNCE_MS :: nat where "MERMAID_RENDER_DEBOUNCE_MS = 200"
definition MERMAID_DEFAULT_ZOOM :: rat where "MERMAID_DEFAULT_ZOOM = 1"
definition MIN_MERMAID_ZOOM :: rat where "MIN_MERMAID_ZOOM = 1 / 4"
definition MAX_MERMAID_ZOOM :: rat where "MAX_MERMAID_ZOOM = 4"
definition MERMAID_ZOOM_STEP :: rat where "MERMAID_ZOOM_STEP = 15 / 100"
definition MAX_FIT_ZOOM :: rat where "MAX_FIT_ZOOM = 2"
definition MERMAID_RENDER_CACHE_SIZE :: nat where "MERMAID_RENDER_CACHE_SIZE = 12"
definition MERMAID_PNG_SCALE :: rat where "MERMAID_PNG_SCALE = 2"

definition MERMAID_THEME_TOKENS :: "(string \<times> string) list" where
  "MERMAID_THEME_TOKENS =
    [(''background'', ''--muted''), (''mainBkg'', ''--accent''), (''primaryColor'', ''--accent''),
     (''primaryBorderColor'', ''--primary''), (''primaryTextColor'', ''--foreground''), (''secondaryColor'', ''--muted''),
     (''tertiaryColor'', ''--background''), (''lineColor'', ''--muted-foreground''), (''textColor'', ''--foreground''),
     (''nodeBorder'', ''--primary''), (''clusterBkg'', ''--background''), (''clusterBorder'', ''--border''),
     (''titleColor'', ''--foreground''), (''edgeLabelBackground'', ''--muted''), (''actorBorder'', ''--primary''),
     (''actorBkg'', ''--accent''), (''noteBkgColor'', ''--muted''), (''noteBorderColor'', ''--border''),
     (''noteTextColor'', ''--foreground'')]"

subsection \<open>The cache of renders\<close>

type_synonym RenderCache = "(jstring, jstring) jsmap"

definition CACHE_SEPARATOR :: nat where "CACHE_SEPARATOR = 0"

definition cache_key :: "jstring \<Rightarrow> jstring \<Rightarrow> jstring" where
  "cache_key signature source = signature @ [CACHE_SEPARATOR] @ source"

definition cachedRender :: "jstring \<Rightarrow> jstring \<Rightarrow> RenderCache \<Rightarrow> jstring option \<times> RenderCache" where
  "cachedRender signature source entries =
     (let slot = cache_key signature source in
      case map_get entries slot of None \<Rightarrow> (None, entries)
      | Some svg \<Rightarrow> (Some svg, map_set slot svg (map_delete slot entries)))"

text \<open>The loop that drops the first key until the cap holds; an empty map ends it.\<close>

fun evict :: "RenderCache \<Rightarrow> RenderCache" where
  "evict [] = []"
| "evict (oldest # rest) = (if length (oldest # rest) > MERMAID_RENDER_CACHE_SIZE then evict rest else oldest # rest)"

definition cacheRender :: "jstring \<Rightarrow> jstring \<Rightarrow> jstring \<Rightarrow> RenderCache \<Rightarrow> RenderCache" where
  "cacheRender signature source svg entries =
     (let slot = cache_key signature source in evict (map_set slot svg (map_delete slot entries)))"

definition clearRenderCache :: "RenderCache \<Rightarrow> RenderCache" where
  "clearRenderCache entries = []"

text \<open>What a run of the application does to it.\<close>

datatype CacheOp = CacheLookup jstring jstring | CacheRecord jstring jstring jstring

fun cache_step :: "RenderCache \<Rightarrow> CacheOp \<Rightarrow> RenderCache" where
  "cache_step entries (CacheLookup signature source) = snd (cachedRender signature source entries)"
| "cache_step entries (CacheRecord signature source svg) = cacheRender signature source svg entries"

fun op_key :: "CacheOp \<Rightarrow> jstring" where
  "op_key (CacheLookup signature source) = cache_key signature source"
| "op_key (CacheRecord signature source svg) = cache_key signature source"

fun records :: "jstring \<Rightarrow> CacheOp \<Rightarrow> bool" where
  "records k (CacheLookup signature source) = False"
| "records k (CacheRecord signature source svg) = (cache_key signature source = k)"

lemma cache_key_inj:
  "0 \<notin> set s \<Longrightarrow> 0 \<notin> set s' \<Longrightarrow> cache_key s source = cache_key s' source' \<longleftrightarrow> s = s' \<and> source = source'"
  using split_on_append [of 0 s source] split_on_append [of 0 s' source']
  by (auto simp: cache_key_def CACHE_SEPARATOR_def)

lemma evict_drops: "evict es = drop (length es - MERMAID_RENDER_CACHE_SIZE) es"
  by (induction es rule: evict.induct) (auto simp: MERMAID_RENDER_CACHE_SIZE_def drop_Cons')

lemma update_after_delete: "map_set k v (map_delete k es) = filter (\<lambda>e. fst e \<noteq> k) es @ [(k, v)]"
proof -
  have fresh: "map_set k v m = m @ [(k, v)]" if "k \<notin> fst ` set m" for m using that by (induction m) auto
  have "map_delete k es = filter (\<lambda>e. fst e \<noteq> k) es" by (induction es) auto
  then show ?thesis by (simp only:) (rule fresh, auto)
qed

text \<open>
  The invariant behind the cap: the keys are distinct, there are at most twelve, and behind an entry stand only keys that
  were used after it.
\<close>

definition kept :: "jstring \<Rightarrow> jstring \<Rightarrow> jstring set \<Rightarrow> RenderCache \<Rightarrow> bool" where
  "kept k svg used es \<longleftrightarrow> (\<exists>front behind. es = front @ (k, svg) # behind \<and> fst ` set behind \<subseteq> used)
     \<and> distinct (map fst es)"

lemma kept_lookup: "kept k svg used es \<Longrightarrow> map_get es k = Some svg"
  by (auto simp: kept_def map_of_append map_add_def split: option.splits dest: map_of_SomeD)

lemma kept_evict:
  assumes "kept k svg used es" "finite used" "card (used - {k}) < MERMAID_RENDER_CACHE_SIZE"
  shows "kept k svg used (evict es)"
proof -
  obtain front behind where es: "es = front @ (k, svg) # behind" "fst ` set behind \<subseteq> used" "distinct (map fst es)"
    using assms(1) by (auto simp: kept_def)
  have "fst ` set behind \<subseteq> used - {k}" using es by auto
  then have "card (fst ` set behind) \<le> card (used - {k})" using assms(2) by (intro card_mono) auto
  moreover have "card (fst ` set behind) = length behind"
    using es(1,3) distinct_card [of "map fst behind"] by simp
  ultimately have "length behind < MERMAID_RENDER_CACHE_SIZE" using assms(3) by simp
  then have "length es - MERMAID_RENDER_CACHE_SIZE \<le> length front" using es(1) by simp
  then have "evict es = drop (length es - MERMAID_RENDER_CACHE_SIZE) front @ (k, svg) # behind"
    unfolding evict_drops using es(1) by simp
  moreover have "distinct (map fst (evict es))" using es(3) by (simp add: evict_drops drop_map [symmetric])
  ultimately show ?thesis using es(2) unfolding kept_def by auto
qed

lemma kept_touch:
  assumes "kept k svg used es" "j \<noteq> k"
  shows "kept k svg (insert j used) (filter (\<lambda>e. fst e \<noteq> j) es @ [(j, v)])"
proof -
  obtain front behind where es: "es = front @ (k, svg) # behind" "fst ` set behind \<subseteq> used" "distinct (map fst es)"
    using assms(1) by (auto simp: kept_def)
  have "distinct (map fst (filter (\<lambda>e. fst e \<noteq> j) es))" using es(3) by (rule distinct_map_filter)
  then show ?thesis
    unfolding kept_def using es assms(2)
    by (intro conjI exI [of _ "filter (\<lambda>e. fst e \<noteq> j) front"] exI [of _ "filter (\<lambda>e. fst e \<noteq> j) behind @ [(j, v)]"]) auto
qed

lemma kept_again:
  assumes "distinct (map fst es)"
  shows "kept k svg {} (filter (\<lambda>e. fst e \<noteq> k) es @ [(k, svg)])"
  using distinct_map_filter [OF assms, of "\<lambda>e. fst e \<noteq> k"] by (auto simp: kept_def)

lemma kept_mono: "kept k svg used es \<Longrightarrow> used \<subseteq> used' \<Longrightarrow> kept k svg used' es"
  unfolding kept_def by blast

lemma kept_step:
  assumes "kept k svg used es" "\<not> records k op" "finite used" "card (insert (op_key op) used - {k}) < MERMAID_RENDER_CACHE_SIZE"
  shows "kept k svg (insert (op_key op) used) (cache_step es op)"
proof (cases op)
  case (CacheLookup s source)
  let ?at = "cache_key s source"
  show ?thesis
  proof (cases "?at = k")
    case True
    have "distinct (map fst es)" using assms(1) by (simp add: kept_def)
    from kept_mono [OF kept_again [OF this], of "insert k used"] show ?thesis
      using True kept_lookup [OF assms(1)] by (simp add: CacheLookup cachedRender_def update_after_delete)
  next
    case False
    then show ?thesis
      using kept_touch [OF assms(1) False] kept_mono [OF assms(1), of "insert ?at used"]
      by (auto simp: CacheLookup cachedRender_def update_after_delete Let_def split: option.split)
  qed
next
  case (CacheRecord s source v)
  then have "cache_key s source \<noteq> k" using assms(2) by simp
  from kept_evict [OF kept_touch [OF assms(1) this, of v]] assms(3,4)
  show ?thesis by (simp add: CacheRecord cacheRender_def update_after_delete Let_def)
qed

lemma kept_run:
  assumes "kept k svg used es" "list_all (\<lambda>op. \<not> records k op) ops" "finite used"
    "card (used \<union> op_key ` set ops - {k}) < MERMAID_RENDER_CACHE_SIZE"
  shows "kept k svg (used \<union> op_key ` set ops) (foldl cache_step es ops)"
  using assms
proof (induction ops arbitrary: used es)
  case (Cons op ops)
  have "card (insert (op_key op) used - {k}) \<le> card (used \<union> op_key ` set (op # ops) - {k})"
    using Cons.prems(3) by (intro card_mono) auto
  then have "kept k svg (insert (op_key op) used) (cache_step es op)"
    using Cons.prems by (intro kept_step) auto
  from Cons.IH [OF this] Cons.prems show ?case by (simp add: insert_commute Un_insert_left Un_insert_right)
qed simp

text \<open>The cache never holds more than its cap, and a lookup never changes what it holds.\<close>

lemma cache_bounded: "length (cacheRender s source svg es) \<le> MERMAID_RENDER_CACHE_SIZE"
  by (simp add: cacheRender_def evict_drops Let_def)

lemma lookup_keeps_entries: "map_get (snd (cachedRender s source es)) k = map_get es k"
  by (auto simp: cachedRender_def Let_def update_conv' delete_conv' split: option.splits)

lemma cached_answer: "fst (cachedRender s source es) = map_get es (cache_key s source)"
  by (simp add: cachedRender_def Let_def split: option.splits)

text \<open>
  C35. A render is served again for as long as fewer than twelve other diagrams were looked up
  or recorded since: whatever the cache held before, and in whatever order they came, it is
  neither evicted nor replaced by them.
\<close>

theorem recent_render_served:
  assumes "distinct (map fst entries)" "list_all (\<lambda>op. \<not> records (cache_key signature source) op) ops"
    and "card (op_key ` set ops - {cache_key signature source}) < MERMAID_RENDER_CACHE_SIZE"
  shows "fst (cachedRender signature source (foldl cache_step (cacheRender signature source svg entries) ops)) = Some svg
    \<and> length (cacheRender signature source svg entries) \<le> MERMAID_RENDER_CACHE_SIZE"
proof -
  let ?k = "cache_key signature source"
  have "kept ?k svg {} (cacheRender signature source svg entries)"
    using kept_evict [OF kept_again [OF assms(1)]]
    by (simp add: cacheRender_def update_after_delete Let_def MERMAID_RENDER_CACHE_SIZE_def)
  from kept_run [OF this assms(2)] assms(3) show ?thesis
    using kept_lookup cache_bounded by (auto simp: cached_answer)
qed

theorem recent_render_served_witness:
  "fst (cachedRender (lit ''a:dark'') (lit ''graph A'') (foldl cache_step (cacheRender (lit ''a:dark'') (lit ''graph A'') (lit ''<svg/>'') [])
     [CacheRecord (lit ''a:light'') (lit ''graph A'') (lit ''<g/>''), CacheLookup (lit ''a:dark'') (lit ''graph B'')])) = Some (lit ''<svg/>'')"
proof -
  let ?ops = "[CacheRecord (lit ''a:light'') (lit ''graph A'') (lit ''<g/>''), CacheLookup (lit ''a:dark'') (lit ''graph B'')]"
  have "card (op_key ` set ?ops - {cache_key (lit ''a:dark'') (lit ''graph A'')}) \<le> card (op_key ` set ?ops)"
    by (rule card_mono) auto
  moreover have "card (op_key ` set ?ops) \<le> 2" by (simp add: card_insert_if)
  moreover have "cache_key (lit ''a:light'') (lit ''graph A'') \<noteq> cache_key (lit ''a:dark'') (lit ''graph A'')"
    by (simp add: cache_key_def lit_def)
  ultimately show ?thesis
    using recent_render_served [of "[]" "lit ''a:dark''" "lit ''graph A''" ?ops "lit ''<svg/>''"]
    by (simp add: MERMAID_RENDER_CACHE_SIZE_def)
qed

subsection \<open>The canvas\<close>

record Transform =
  tfm_scale :: rat
  tfm_x :: rat
  tfm_y :: rat

definition IDENTITY_TRANSFORM :: Transform where
  "IDENTITY_TRANSFORM = \<lparr>tfm_scale = MERMAID_DEFAULT_ZOOM, tfm_x = 0, tfm_y = 0\<rparr>"

definition clampZoom :: "rat \<Rightarrow> rat" where
  "clampZoom scale = min MAX_MERMAID_ZOOM (max MIN_MERMAID_ZOOM scale)"

definition fitScale :: "rat \<Rightarrow> rat \<Rightarrow> rat \<Rightarrow> rat \<Rightarrow> rat" where
  "fitScale contentW contentH availW availH =
     (if \<not> contentW > 0 \<or> \<not> contentH > 0 \<or> \<not> availW > 0 \<or> \<not> availH > 0 then MERMAID_DEFAULT_ZOOM
      else clampZoom (min (min (availW / contentW) (availH / contentH)) MAX_FIT_ZOOM))"

definition zoomAround :: "Transform \<Rightarrow> rat \<Rightarrow> rat \<Rightarrow> rat \<Rightarrow> Transform" where
  "zoomAround transform factor px py =
     (let scale = clampZoom (tfm_scale transform * factor); ratio = scale / tfm_scale transform
      in \<lparr>tfm_scale = scale, tfm_x = px - (px - tfm_x transform) * ratio, tfm_y = py - (py - tfm_y transform) * ratio\<rparr>)"

lemmas zoom_bounds = MIN_MERMAID_ZOOM_def MAX_MERMAID_ZOOM_def MERMAID_DEFAULT_ZOOM_def MAX_FIT_ZOOM_def

lemma clamp_range: "1 / 4 \<le> clampZoom s" "clampZoom s \<le> 4" "0 < clampZoom s"
  by (auto simp: clampZoom_def zoom_bounds)

lemma clamp_low: "s \<le> 2 \<Longrightarrow> clampZoom s \<le> 2"
  by (auto simp: clampZoom_def zoom_bounds)

text \<open>
  The canvas: a zoom keeps the content under the pointer where it is, even when it is clamped,
  and its scale stays from a quarter to four; and fitting shows the whole diagram, enlarged
  twice at most, unless that needs less than a quarter.
\<close>

theorem zoom_keeps_point:
  assumes "0 < tfm_scale t"
  shows "let z = zoomAround t factor px py in
      (px - tfm_x z) / tfm_scale z = (px - tfm_x t) / tfm_scale t \<and> (py - tfm_y z) / tfm_scale z = (py - tfm_y t) / tfm_scale t
    \<and> 1 / 4 \<le> tfm_scale z \<and> tfm_scale z \<le> 4
    \<and> 1 / 4 \<le> fitScale w h aw ah \<and> fitScale w h aw ah \<le> 2
    \<and> (0 < w \<and> 0 < h \<and> 0 < aw \<and> 0 < ah \<longrightarrow>
        w * fitScale w h aw ah \<le> aw \<and> h * fitScale w h aw ah \<le> ah \<or> fitScale w h aw ah = 1 / 4)"
proof -
  have c: "clampZoom (tfm_scale t * factor) \<noteq> 0" using clamp_range(3) [of "tfm_scale t * factor"] by simp
  have fit: "1 / 4 \<le> fitScale w h aw ah \<and> fitScale w h aw ah \<le> 2"
    using clamp_range(1) clamp_low by (simp add: fitScale_def MERMAID_DEFAULT_ZOOM_def MAX_FIT_ZOOM_def)
  have show_all: "w * fitScale w h aw ah \<le> aw \<and> h * fitScale w h aw ah \<le> ah \<or> fitScale w h aw ah = 1 / 4"
    if pos: "0 < w" "0 < h" "0 < aw" "0 < ah"
  proof -
    define m where "m = min (min (aw / w) (ah / h)) 2"
    have m: "m \<le> aw / w" "m \<le> ah / h" by (simp_all add: m_def)
    have f: "fitScale w h aw ah = min 4 (max (1 / 4) m)" using pos by (simp add: fitScale_def clampZoom_def zoom_bounds m_def)
    show ?thesis
    proof (cases "1 / 4 \<le> m")
      case True
      then have "fitScale w h aw ah \<le> m" by (simp add: f)
      then have "fitScale w h aw ah \<le> aw / w" "fitScale w h aw ah \<le> ah / h" using m by linarith+
      then show ?thesis using pos by (simp add: pos_le_divide_eq mult.commute)
    qed (simp add: f)
  qed
  show ?thesis
    using assms c fit show_all clamp_range [of "tfm_scale t * factor"] by (simp add: zoomAround_def Let_def)
qed

theorem zoom_keeps_point_witness:
  "let z = zoomAround \<lparr>tfm_scale = 2, tfm_x = 10, tfm_y = 0\<rparr> 5 100 50 in
     (100 - tfm_x z) / tfm_scale z = 45 \<and> tfm_scale z \<le> 4 \<and> fitScale 800 600 400 400 \<le> 2"
  using zoom_keeps_point [of "\<lparr>tfm_scale = 2, tfm_x = 10, tfm_y = 0\<rparr>" 5 100 50 800 600 400 400] by (simp add: Let_def)

end
