(* ===== verification/SvgSize.thy ===== *)
theory SvgSize
  imports Prelude
begin

section \<open>The size of a drawing\<close>

text \<open>
  \<open>lib/mermaid/svgSize.ts\<close>: the opening tag of a drawing is given the width and height of its view box. The regular
  expressions are scans whose character classes leave one way to match. A number is read as the rational its literal
  denotes; its text in a template literal is the runtime's and is a parameter.
\<close>

definition number_unit :: "nat \<Rightarrow> bool" where "number_unit c \<longleftrightarrow> is_digit_unit c \<or> c \<in> {46, 101, 69, 43}"

definition signed_unit :: "nat \<Rightarrow> bool" where "signed_unit c \<longleftrightarrow> number_unit c \<or> c = 45"

definition sep_unit :: "nat \<Rightarrow> bool" where "sep_unit c \<longleftrightarrow> js_space c \<or> c = 44"

text \<open>One or more units of a class: the run and what follows it.\<close>

definition run1 :: "(nat \<Rightarrow> bool) \<Rightarrow> jstring \<Rightarrow> (jstring \<times> jstring) option" where
  "run1 p s = (let r = takeWhile p s in if r = [] then None else Some (r, drop (length r) s))"

definition view_box_here :: "jstring \<Rightarrow> (jstring \<times> jstring) option" where
  "view_box_here s = (if \<not> starts_with s (lit ''viewBox='' @ [34]) then None else
     Option.bind (run1 signed_unit (dropWhile js_space (drop 9 s))) (\<lambda>(_, s).
     Option.bind (run1 sep_unit s) (\<lambda>(_, s).
     Option.bind (run1 signed_unit s) (\<lambda>(_, s).
     Option.bind (run1 sep_unit s) (\<lambda>(_, s).
     Option.bind (run1 number_unit s) (\<lambda>(w, s).
     Option.bind (run1 sep_unit s) (\<lambda>(_, s).
     Option.bind (run1 number_unit s) (\<lambda>(h, s).
       if starts_with (dropWhile js_space s) [34] then Some (w, h) else None))))))))"

fun VIEW_BOX :: "jstring \<Rightarrow> (jstring \<times> jstring) option" where
  "VIEW_BOX [] = view_box_here []"
| "VIEW_BOX (c # s) = (case view_box_here (c # s) of Some box \<Rightarrow> Some box | None \<Rightarrow> VIEW_BOX s)"

text \<open>\<open>\\s(?:width|height)="[^"]*"\<close> at the front: what follows it.\<close>

definition size_attr_here :: "jstring \<Rightarrow> jstring option" where
  "size_attr_here s = (case s of [] \<Rightarrow> None | c # t \<Rightarrow>
     if \<not> js_space c then None
     else (let opened = (if starts_with t (lit ''width='' @ [34]) then Some (drop 7 t)
                         else if starts_with t (lit ''height='' @ [34]) then Some (drop 8 t) else None)
           in case opened of None \<Rightarrow> None
              | Some v \<Rightarrow> (case dropWhile (\<lambda>u. u \<noteq> 34) v of [] \<Rightarrow> None | _ # rest \<Rightarrow> Some rest)))"

lemma dropWhile_shorter: "dropWhile p (drop n t) = u # rest \<Longrightarrow> length rest < length t"
  using length_dropWhile_le [of p "drop n t"] by simp

lemma size_attr_shorter: "size_attr_here s = Some rest \<Longrightarrow> length rest < length s"
  by (auto simp: size_attr_here_def Let_def split: list.splits if_splits dest!: dropWhile_shorter)

function strip_sizes :: "jstring \<Rightarrow> jstring" where
  "strip_sizes s = (case size_attr_here s of Some rest \<Rightarrow> strip_sizes rest
     | None \<Rightarrow> (case s of [] \<Rightarrow> [] | c # t \<Rightarrow> c # strip_sizes t))"
  by pat_completeness auto
termination
  by (relation "measure length") (auto dest: size_attr_shorter)

declare strip_sizes.simps [simp del]

text \<open>\<open>\\s*max-width:[^;"]*;?\<close>, the first match.\<close>

definition max_width_here :: "jstring \<Rightarrow> jstring option" where
  "max_width_here s = (let t = dropWhile js_space s in
     if starts_with t (lit ''max-width:'')
     then (let rest = dropWhile (\<lambda>u. u \<noteq> 59 \<and> u \<noteq> 34) (drop 10 t)
           in Some (if starts_with rest [59] then drop 1 rest else rest)) else None)"

fun strip_max_width :: "jstring \<Rightarrow> jstring" where
  "strip_max_width [] = []"
| "strip_max_width (c # s) = (case max_width_here (c # s) of Some rest \<Rightarrow> rest | None \<Rightarrow> c # strip_max_width s)"

text \<open>\<open>Number\<close> of a text of the class: digits with at most one point, and an exponent.\<close>

definition digits_value :: "jstring \<Rightarrow> jstring \<Rightarrow> rat option" where
  "digits_value whole fraction = (if whole = [] \<and> fraction = [] then None
     else Some (of_nat (read_nat whole) + of_nat (read_nat fraction) / 10 ^ length fraction))"

definition js_number :: "jstring \<Rightarrow> rat option" where
  "js_number text =
     (let s = (if starts_with text [43] then drop 1 text else text);
          whole = takeWhile is_digit_unit s; s = drop (length whole) s;
          point = starts_with s [46]; s = (if point then drop 1 s else s);
          fraction = (if point then takeWhile is_digit_unit s else []); s = drop (length fraction) s
      in case digits_value whole fraction of None \<Rightarrow> None
         | Some m \<Rightarrow>
             if s = [] then Some m
             else if starts_with s [101] \<or> starts_with s [69]
             then (let e = (if starts_with (drop 1 s) [43] then drop 2 s else drop 1 s)
                   in if e \<noteq> [] \<and> list_all is_digit_unit e then Some (m * 10 ^ read_nat e) else None)
             else None)"

text \<open>The scan for the tag's end, with the quote it is inside of.\<close>

fun tag_end :: "nat option \<Rightarrow> nat \<Rightarrow> jstring \<Rightarrow> nat option" where
  "tag_end quote i [] = None"
| "tag_end (Some q) i (c # s) = tag_end (if c = q then None else Some q) (i + 1) s"
| "tag_end None i (c # s) = (if c = 34 \<or> c = 39 then tag_end (Some c) (i + 1) s
     else if c = 62 then Some i else tag_end None (i + 1) s)"

definition openingTagEnd :: "jstring \<Rightarrow> nat option" where
  "openingTagEnd markup = tag_end None 0 markup"

definition withIntrinsicSize :: "(rat \<Rightarrow> jstring) \<Rightarrow> jstring \<Rightarrow> jstring" where
  "withIntrinsicSize number_text svg =
     (case openingTagEnd svg of None \<Rightarrow> svg
      | Some end_at \<Rightarrow>
          (let opening = take end_at svg in
           case VIEW_BOX opening of None \<Rightarrow> svg
           | Some (w, h) \<Rightarrow>
               (case (js_number w, js_number h) of
                  (Some width, Some height) \<Rightarrow>
                    if \<not> width > 0 \<or> \<not> height > 0 then svg
                    else strip_max_width (strip_sizes opening) @ lit '' width='' @ [34] @ number_text width @ [34]
                      @ lit '' height='' @ [34] @ number_text height @ [34] @ drop end_at svg
                | _ \<Rightarrow> svg)))"

text \<open>The end is the first closing bracket that is in no quotes, so the tag's content is never touched.\<close>

fun quoted_after :: "nat option \<Rightarrow> jstring \<Rightarrow> nat option" where
  "quoted_after q [] = q"
| "quoted_after (Some q) (c # s) = quoted_after (if c = q then None else Some q) s"
| "quoted_after None (c # s) = quoted_after (if c = 34 \<or> c = 39 then Some c else None) s"

lemma tag_end_spec:
  "tag_end q i s = Some n \<Longrightarrow> \<exists>m. n = i + m \<and> m < length s \<and> s ! m = 62 \<and> quoted_after q (take m s) = None
     \<and> (\<forall>j < m. s ! j = 62 \<longrightarrow> quoted_after q (take j s) \<noteq> None)"
proof (induction q i s rule: tag_end.induct)
  case (2 q i c s)
  then obtain m where "n = i + Suc m \<and> m < length s \<and> s ! m = 62 \<and> quoted_after (if c = q then None else Some q) (take m s) = None
     \<and> (\<forall>j < m. s ! j = 62 \<longrightarrow> quoted_after (if c = q then None else Some q) (take j s) \<noteq> None)" by auto
  then show ?case by (intro exI [of _ "Suc m"]) (auto simp: take_Cons' nth_Cons')
next
  case (3 i c s)
  show ?case
  proof (cases "c = 62")
    case True
    then show ?thesis using 3 by simp
  next
    case False
    then obtain m where "n = i + Suc m \<and> m < length s \<and> s ! m = 62
       \<and> quoted_after (if c = 34 \<or> c = 39 then Some c else None) (take m s) = None
       \<and> (\<forall>j < m. s ! j = 62 \<longrightarrow> quoted_after (if c = 34 \<or> c = 39 then Some c else None) (take j s) \<noteq> None)"
      using 3 by (cases "c = 34 \<or> c = 39") auto
    then show ?thesis using False by (intro exI [of _ "Suc m"]) (auto simp: take_Cons' nth_Cons')
  qed
qed simp

lemma opening_tag_end:
  "openingTagEnd s = Some n \<Longrightarrow> n < length s \<and> s ! n = 62 \<and> quoted_after None (take n s) = None
     \<and> (\<forall>j < n. s ! j = 62 \<longrightarrow> quoted_after None (take j s) \<noteq> None)"
  using tag_end_spec [of None 0 s n] by (auto simp: openingTagEnd_def)

lemma sized_keeps_content:
  "openingTagEnd svg = Some n \<Longrightarrow> \<exists>tag. withIntrinsicSize number_text svg = tag @ drop n svg"
  "openingTagEnd svg = None \<Longrightarrow> withIntrinsicSize number_text svg = svg"
proof -
  assume n: "openingTagEnd svg = Some n"
  have "svg = take n svg @ drop n svg" by simp
  then have "\<exists>tag. svg = tag @ drop n svg" by blast
  moreover have "withIntrinsicSize number_text svg = svg \<or> (\<exists>tag. withIntrinsicSize number_text svg = tag @ drop n svg)"
    using n by (auto simp: withIntrinsicSize_def Let_def split: option.split)
  ultimately show "\<exists>tag. withIntrinsicSize number_text svg = tag @ drop n svg" by auto
qed (simp add: withIntrinsicSize_def)

end
