(* ===== verification/DiagramEngine.thy ===== *)
theory DiagramEngine
  imports DiagramSource DiagramTools SvgSize
begin

section \<open>Drawing diagrams\<close>

text \<open>
  \<open>lib/mermaid/\<close>: the bridge from the page's tokens to the library's configuration (\<open>color.ts\<close>, \<open>theme.ts\<close>), the engine
  that configures and draws one diagram at a time and files the drawing (\<open>engine.ts\<close>), what one surface asks of it
  (\<open>useDiagramRender.ts\<close>, \<open>useDebouncedPreview.ts\<close>) and the exports (\<open>export.ts\<close>). The library is a parameter: what it
  draws of a source under its configuration and an element id, or what it throws. It reads its configuration when it
  draws, not when it is asked, which is why the engine queues.
\<close>

subsection \<open>The theme bridge\<close>

text \<open>The page as the bridge reads it: the root's signature and mode, its custom properties and the body's font.\<close>

record Palette =
  pal_signature :: "jstring option"
  pal_dark :: bool
  pal_property :: "string \<Rightarrow> jstring"
  pal_font :: jstring

definition isDarkTheme :: "Palette \<Rightarrow> bool" where "isDarkTheme p = pal_dark p"

definition paletteSignature :: "Palette \<Rightarrow> jstring" where
  "paletteSignature p = (case pal_signature p of None \<Rightarrow> lit ''legacy'' | Some s \<Rightarrow> s) @ lit '':''
     @ (if isDarkTheme p then lit ''dark'' else lit ''light'')"

text \<open>
  \<open>toRgb\<close>. The pixel the canvas reads back is a parameter: \<open>None\<close> where there is no canvas or it rejects the value. The text of a
  number is the runtime's.
\<close>

definition OPAQUE :: int where "OPAQUE = 255"
definition ALPHA_PRECISION :: int where "ALPHA_PRECISION = 1000"

definition toRgb :: "(rat \<Rightarrow> jstring) \<Rightarrow> (jstring \<Rightarrow> (int \<times> int \<times> int \<times> int) option) \<Rightarrow> jstring \<Rightarrow> jstring" where
  "toRgb number_text pixel raw =
     (case (if raw = [] then None else pixel raw) of None \<Rightarrow> raw
      | Some (r, g, b, a) \<Rightarrow>
          let rgb = show_int r @ lit '', '' @ show_int g @ lit '', '' @ show_int b in
          if a = OPAQUE then lit ''rgb('' @ rgb @ lit '')''
          else lit ''rgba('' @ rgb @ lit '', ''
            @ number_text (of_int (js_round (of_int a / of_int OPAQUE * of_int ALPHA_PRECISION)) / of_int ALPHA_PRECISION) @ lit '')'')"

datatype ThemeVariable = TextVariable jstring | FlagVariable bool

record MermaidThemeConfig =
  mtc_themeVariables :: "(string \<times> ThemeVariable) list"
  mtc_fontFamily :: jstring

definition mermaidThemeConfig :: "(jstring \<Rightarrow> jstring) \<Rightarrow> Palette \<Rightarrow> MermaidThemeConfig" where
  "mermaidThemeConfig to_rgb p =
     \<lparr>mtc_themeVariables = [(''fontSize'', TextVariable MERMAID_FONT_SIZE), (''darkMode'', FlagVariable (isDarkTheme p))]
        @ concat (map (\<lambda>(variable, token). let resolved = to_rgb (js_trim (pal_property p token)) in
            if resolved \<noteq> [] then [(variable, TextVariable resolved)] else []) MERMAID_THEME_TOKENS),
      mtc_fontFamily = (if pal_font p = [] then lit ''system-ui, sans-serif'' else pal_font p)\<rparr>"

subsection \<open>The engine\<close>

text \<open>What the library is initialized with for a source; \<open>securityLevel\<close> and \<open>startOnLoad\<close> are always the same two.\<close>

record InitConfig =
  ini_fontFamily :: jstring
  ini_theme :: "jstring option"
  ini_themeVariables :: "(string \<times> ThemeVariable) list"

definition init_config :: "(jstring \<Rightarrow> jstring) \<Rightarrow> Palette \<Rightarrow> jstring \<Rightarrow> InitConfig" where
  "init_config to_rgb p source =
     (let theme = mermaidThemeConfig to_rgb p; declared = readDiagramTheme source;
          appTokened = (declared = None \<or> declared = Some ThemeBase)
      in \<lparr>ini_fontFamily = mtc_fontFamily theme, ini_theme = (if appTokened then Some (lit ''base'') else None),
          ini_themeVariables = (if appTokened then mtc_themeVariables theme
            else [(''fontSize'', TextVariable MERMAID_FONT_SIZE)])\<rparr>)"

datatype Thrown = ErrorObject jstring | ThrownText jstring | ThrownOther

fun errorMessage :: "Thrown \<Rightarrow> jstring" where
  "errorMessage (ErrorObject message) = message"
| "errorMessage (ThrownText text) = text"
| "errorMessage ThrownOther = lit ''Could not render diagram.''"

datatype RenderResult = Rendered jstring | RenderFailed jstring

text \<open>The library, and what the engine keeps: calls waiting under a ticket, the one being drawn, and what was answered.\<close>

record Mermaid =
  mm_initialize :: "InitConfig \<Rightarrow> Thrown option"
  mm_render :: "InitConfig \<Rightarrow> jstring \<Rightarrow> jstring \<Rightarrow> Thrown + jstring"
  mm_parse :: "jstring \<Rightarrow> Thrown option"

record Drawing =
  dw_ticket :: nat
  dw_source :: jstring
  dw_signature :: jstring
  dw_id :: jstring

record Engine =
  eg_palette :: Palette
  eg_loader :: "Thrown option option"
  eg_cache :: RenderCache
  eg_queue :: "(nat \<times> jstring) list"
  eg_drawing :: "Drawing option"
  eg_config :: "InitConfig option"
  eg_renderCounter :: int
  eg_next :: nat
  eg_answers :: "(nat \<times> RenderResult) list"

definition renderDiagram :: "jstring \<Rightarrow> Engine \<Rightarrow> Engine" where
  "renderDiagram source s =
     (let ticket = eg_next s; s = s\<lparr>eg_next := ticket + 1\<rparr> in
      case cachedRender (paletteSignature (eg_palette s)) source (eg_cache s) of
        (Some svg, cache) \<Rightarrow> s\<lparr>eg_cache := cache, eg_answers := eg_answers s @ [(ticket, Rendered svg)]\<rparr>
      | (None, cache) \<Rightarrow> s\<lparr>eg_cache := cache, eg_queue := eg_queue s @ [(ticket, source)]\<rparr>)"

text \<open>
  \<open>loadMermaid\<close>: one import, shared by every draw and parse; what it came to, the library (\<open>None\<close>) or what the import was
  rejected with, stays, so a chunk that failed to load once is not asked for again.
\<close>

definition loadMermaid :: "Thrown option \<Rightarrow> Engine \<Rightarrow> Thrown option \<times> Engine" where
  "loadMermaid loading s = (case eg_loader s of Some outcome \<Rightarrow> (outcome, s) | None \<Rightarrow> (loading, s\<lparr>eg_loader := Some loading\<rparr>))"

definition engine_answers :: "nat \<Rightarrow> RenderResult \<Rightarrow> Engine \<Rightarrow> Engine" where
  "engine_answers ticket result s = s\<lparr>eg_answers := eg_answers s @ [(ticket, result)]\<rparr>"

text \<open>
  \<open>draw\<close> up to its call of the library, once the library has loaded or failed to, at the front of the queue; and from the
  library's answer on.
\<close>

definition draw_begins :: "(jstring \<Rightarrow> jstring) \<Rightarrow> Mermaid \<Rightarrow> Thrown option \<Rightarrow> Engine \<Rightarrow> Engine" where
  "draw_begins to_rgb mermaid loading s =
     (case (eg_drawing s, eg_queue s) of
        (None, (ticket, source) # rest) \<Rightarrow>
          (let (failed, s) = loadMermaid loading (s\<lparr>eg_queue := rest\<rparr>); signature = paletteSignature (eg_palette s);
               config = init_config to_rgb (eg_palette s) source in
           case (case failed of Some e \<Rightarrow> Some e | None \<Rightarrow> mm_initialize mermaid config) of
             Some e \<Rightarrow> engine_answers ticket (RenderFailed (errorMessage e)) s
           | None \<Rightarrow>
               let n = eg_renderCounter s + 1 in
               s\<lparr>eg_config := Some config, eg_renderCounter := n,
                 eg_drawing := Some \<lparr>dw_ticket = ticket, dw_source = source, dw_signature = signature,
                   dw_id = MERMAID_ID_PREFIX @ lit ''-'' @ show_int n\<rparr>\<rparr>)
      | _ \<Rightarrow> s)"

definition draw_ends :: "(rat \<Rightarrow> jstring) \<Rightarrow> Mermaid \<Rightarrow> Engine \<Rightarrow> Engine" where
  "draw_ends number_text mermaid s =
     (case (eg_drawing s, eg_config s) of
        (Some d, Some config) \<Rightarrow>
          (let s = s\<lparr>eg_drawing := None\<rparr> in
           case mm_render mermaid config (dw_id d) (dw_source d) of
             Inl e \<Rightarrow> engine_answers (dw_ticket d) (RenderFailed (errorMessage e)) s
           | Inr svg \<Rightarrow>
               (let sized = withIntrinsicSize number_text svg in
                engine_answers (dw_ticket d) (Rendered sized)
                  (s\<lparr>eg_cache := cacheRender (dw_signature d) (dw_source d) sized (eg_cache s)\<rparr>)))
      | _ \<Rightarrow> s)"

definition parseDiagram :: "Mermaid \<Rightarrow> Thrown option \<Rightarrow> jstring \<Rightarrow> Engine \<Rightarrow> (jstring + unit) \<times> Engine" where
  "parseDiagram mermaid loading source s =
     (let (failed, s) = loadMermaid loading s in
      (case (case failed of Some e \<Rightarrow> Some e | None \<Rightarrow> mm_parse mermaid source) of Some e \<Rightarrow> Inl (errorMessage e) | None \<Rightarrow> Inr (), s))"

datatype EngineOp = RenderAsked jstring | ParseAsked "Thrown option" jstring | PaletteTurns Palette | DrawBegins "Thrown option" | DrawEnds

fun engine_step :: "(jstring \<Rightarrow> jstring) \<Rightarrow> (rat \<Rightarrow> jstring) \<Rightarrow> Mermaid \<Rightarrow> Engine \<Rightarrow> EngineOp \<Rightarrow> Engine" where
  "engine_step to_rgb number_text mermaid s (RenderAsked source) = renderDiagram source s"
| "engine_step to_rgb number_text mermaid s (ParseAsked loading source) = snd (parseDiagram mermaid loading source s)"
| "engine_step to_rgb number_text mermaid s (PaletteTurns p) = s\<lparr>eg_palette := p\<rparr>"
| "engine_step to_rgb number_text mermaid s (DrawBegins loading) = draw_begins to_rgb mermaid loading s"
| "engine_step to_rgb number_text mermaid s DrawEnds = draw_ends number_text mermaid s"

definition engine_init :: "Palette \<Rightarrow> Engine" where
  "engine_init p = \<lparr>eg_palette = p, eg_loader = None, eg_cache = [], eg_queue = [], eg_drawing = None, eg_config = None, eg_renderCounter = 0,
     eg_next = 0, eg_answers = []\<rparr>"

subsection \<open>What the cache serves\<close>

text \<open>A drawing of a source in a palette: what the library draws under that palette's configuration, at its own size.\<close>

definition drawn_in :: "(jstring \<Rightarrow> jstring) \<Rightarrow> (rat \<Rightarrow> jstring) \<Rightarrow> Mermaid \<Rightarrow> Palette \<Rightarrow> jstring \<Rightarrow> jstring \<Rightarrow> bool" where
  "drawn_in to_rgb number_text mermaid p source svg \<longleftrightarrow>
     (\<exists>i raw. mm_render mermaid (init_config to_rgb p source) i source = Inr raw \<and> svg = withIntrinsicSize number_text raw)"

fun turned_to :: "EngineOp \<Rightarrow> Palette list" where
  "turned_to (PaletteTurns p) = [p]"
| "turned_to _ = []"

definition pending_tickets :: "Engine \<Rightarrow> nat list" where
  "pending_tickets s = map fst (eg_queue s) @ (case eg_drawing s of None \<Rightarrow> [] | Some d \<Rightarrow> [dw_ticket d])"

definition filed :: "(Palette \<Rightarrow> jstring \<Rightarrow> jstring \<Rightarrow> bool) \<Rightarrow> Palette set \<Rightarrow> RenderCache \<Rightarrow> bool" where
  "filed drawn P cache \<longleftrightarrow> (\<forall>k svg. map_get cache k = Some svg \<longrightarrow>
     (\<exists>p source. p \<in> P \<and> k = cache_key (paletteSignature p) source \<and> drawn p source svg))"

definition engine_ok :: "(jstring \<Rightarrow> jstring) \<Rightarrow> (rat \<Rightarrow> jstring) \<Rightarrow> Mermaid \<Rightarrow> Palette set \<Rightarrow> Engine \<Rightarrow> bool" where
  "engine_ok to_rgb number_text mermaid P s \<longleftrightarrow>
     eg_palette s \<in> P \<and> filed (drawn_in to_rgb number_text mermaid) P (eg_cache s)
     \<and> (\<forall>d. eg_drawing s = Some d \<longrightarrow> (\<exists>p \<in> P. dw_signature d = paletteSignature p
          \<and> eg_config s = Some (init_config to_rgb p (dw_source d))))
     \<and> mset (map fst (eg_answers s) @ pending_tickets s) = mset [0..<eg_next s]"

lemma evict_get: "distinct (map fst es) \<Longrightarrow> map_get (evict es) k = Some v \<Longrightarrow> map_get es k = Some v"
proof -
  assume d: "distinct (map fst es)" and e: "map_get (evict es) k = Some v"
  from map_of_SomeD [OF e] have "(k, v) \<in> set es" by (auto simp: evict_drops dest: in_set_dropD)
  then show ?thesis using d by simp
qed

lemma filed_recorded:
  assumes "filed drawn P cache" "p \<in> P" "drawn p source svg" "distinct (map fst cache)"
  shows "filed drawn P (cacheRender (paletteSignature p) source svg cache)"
proof -
  have d: "distinct (map fst (filter (\<lambda>e. fst e \<noteq> k) cache @ [(k, svg)]))" for k
    using distinct_map_filter [OF assms(4), of "\<lambda>e. fst e \<noteq> k"] by auto
  have "map_get cache k = Some v" if "map_get (filter (\<lambda>e. fst e \<noteq> j) cache @ [(j, svg)]) k = Some v" "k \<noteq> j" for k j v
    using that assms(4) map_of_SomeD [OF that(1)] by auto
  moreover have "v = svg" if "map_get (filter (\<lambda>e. fst e \<noteq> j) cache @ [(j, svg)]) j = Some v" for j v
    using map_of_SomeD [OF that] by auto
  ultimately show ?thesis
    using assms(1-3) unfolding filed_def cacheRender_def Let_def update_after_delete
    by (metis evict_get [OF d])
qed

lemma recorded_distinct: "distinct (map fst cache) \<Longrightarrow> distinct (map fst (cacheRender s source svg cache))"
proof -
  assume "distinct (map fst cache)"
  then have "distinct (map fst (filter (\<lambda>e. fst e \<noteq> k) cache @ [(k, svg)]))" for k
    using distinct_map_filter [where xs = cache and f = fst and P = "\<lambda>e. fst e \<noteq> k"] by auto
  then have "distinct (drop n (map fst (filter (\<lambda>e. fst e \<noteq> k) cache @ [(k, svg)])))" for n k
    by (rule distinct_drop)
  then show ?thesis unfolding cacheRender_def Let_def update_after_delete evict_drops drop_map .
qed

lemma looked_up_distinct: "distinct (map fst es) \<Longrightarrow> distinct (map fst (snd (cachedRender sig source es)))"
  using distinct_map_filter [where xs = es and f = fst] by (auto simp: cachedRender_def Let_def update_after_delete split: option.splits)

lemma looked_up_filed: "filed drawn P es \<Longrightarrow> filed drawn P (snd (cachedRender sig source es))"
  by (simp add: filed_def lookup_keeps_entries)

lemmas engine_defs = engine_ok_def pending_tickets_def engine_answers_def

lemma ok_render_asked:
  assumes "engine_ok to_rgb number_text mermaid P s"
  shows "engine_ok to_rgb number_text mermaid P (renderDiagram source s)"
proof -
  obtain hit es where c: "cachedRender (paletteSignature (eg_palette s)) source (eg_cache s) = (hit, es)"
    by (rule prod.exhaust)
  then have "filed (drawn_in to_rgb number_text mermaid) P es"
    using assms looked_up_filed [where sig = "paletteSignature (eg_palette s)" and source = source and es = "eg_cache s"]
    by (metis engine_ok_def snd_conv)
  then show ?thesis
    using assms c by (cases hit) (auto simp: renderDiagram_def engine_defs Let_def split: option.splits)
qed

lemma loaded_keeps:
  assumes "engine_ok to_rgb number_text mermaid P s"
  shows "engine_ok to_rgb number_text mermaid P (snd (loadMermaid loading s))"
  using assms by (simp add: loadMermaid_def engine_defs split: option.split)

lemma loaded_frame:
  "eg_palette (snd (loadMermaid loading s)) = eg_palette s" "eg_cache (snd (loadMermaid loading s)) = eg_cache s"
  "eg_queue (snd (loadMermaid loading s)) = eg_queue s" "eg_drawing (snd (loadMermaid loading s)) = eg_drawing s"
  "eg_answers (snd (loadMermaid loading s)) = eg_answers s" "eg_next (snd (loadMermaid loading s)) = eg_next s"
  by (simp_all add: loadMermaid_def split: option.split)

lemma ok_draw_begins:
  assumes "engine_ok to_rgb number_text mermaid P s"
  shows "engine_ok to_rgb number_text mermaid P (draw_begins to_rgb mermaid loading s)"
proof (cases "eg_drawing s = None \<and> eg_queue s \<noteq> []")
  case True
  then obtain ticket source rest where q: "eg_drawing s = None" "eg_queue s = (ticket, source) # rest"
    by (cases "eg_queue s") auto
  obtain failed t where l: "loadMermaid loading (s\<lparr>eg_queue := rest\<rparr>) = (failed, t)" by (rule prod.exhaust)
  have t: "eg_palette t = eg_palette s" "eg_cache t = eg_cache s" "eg_queue t = rest" "eg_drawing t = None"
    "eg_answers t = eg_answers s" "eg_next t = eg_next s"
    using loaded_frame [of loading "s\<lparr>eg_queue := rest\<rparr>"] l q by simp_all
  note same = assms q t l
  show ?thesis
  proof (cases failed)
    case None
    then show ?thesis
      using same by (cases "mm_initialize mermaid (init_config to_rgb (eg_palette s) source)")
        (auto simp: draw_begins_def engine_defs Let_def)
  next
    case (Some e)
    then show ?thesis using same by (auto simp: draw_begins_def engine_defs Let_def)
  qed
qed (use assms in \<open>auto simp: draw_begins_def split: option.split list.split\<close>)

lemma ok_draw_ends:
  assumes "engine_ok to_rgb number_text mermaid P s" "distinct (map fst (eg_cache s))"
  shows "engine_ok to_rgb number_text mermaid P (draw_ends number_text mermaid s)"
proof (cases "eg_drawing s")
  case (Some d)
  then obtain p where p: "p \<in> P" "dw_signature d = paletteSignature p" "eg_config s = Some (init_config to_rgb p (dw_source d))"
    using assms(1) by (auto simp: engine_ok_def)
  show ?thesis
  proof (cases "mm_render mermaid (init_config to_rgb p (dw_source d)) (dw_id d) (dw_source d)")
    case (Inl e)
    then show ?thesis using assms(1) Some p by (auto simp: draw_ends_def engine_defs)
  next
    case (Inr svg)
    then have "drawn_in to_rgb number_text mermaid p (dw_source d) (withIntrinsicSize number_text svg)"
      by (auto simp: drawn_in_def)
    then have "filed (drawn_in to_rgb number_text mermaid) P
        (cacheRender (dw_signature d) (dw_source d) (withIntrinsicSize number_text svg) (eg_cache s))"
      using assms p(1) unfolding p(2) by (intro filed_recorded) (auto simp: engine_ok_def)
    then show ?thesis using assms(1) Some p Inr by (auto simp: draw_ends_def engine_defs Let_def)
  qed
qed (use assms in \<open>simp add: draw_ends_def\<close>)

lemma begun_cache: "eg_cache (draw_begins to_rgb mermaid loading s) = eg_cache s"
  by (simp add: draw_begins_def engine_answers_def loadMermaid_def Let_def split: option.split list.split)

lemma ended_distinct:
  assumes "distinct (map fst (eg_cache s))"
  shows "distinct (map fst (eg_cache (draw_ends number_text mermaid s)))"
  using assms recorded_distinct [OF assms]
  by (simp add: draw_ends_def engine_answers_def Let_def split: option.split sum.split)

lemma asked_distinct:
  assumes "distinct (map fst (eg_cache s))"
  shows "distinct (map fst (eg_cache (renderDiagram source s)))"
proof -
  obtain hit es where c: "cachedRender (paletteSignature (eg_palette s)) source (eg_cache s) = (hit, es)"
    by (rule prod.exhaust)
  then have "distinct (map fst es)"
    using looked_up_distinct [OF assms, where sig = "paletteSignature (eg_palette s)" and source = source] by simp
  then show ?thesis using c by (cases hit) (simp_all add: renderDiagram_def Let_def)
qed

lemma cache_distinct_step:
  assumes "distinct (map fst (eg_cache s))"
  shows "distinct (map fst (eg_cache (engine_step to_rgb number_text mermaid s op)))"
  using assms by (cases op) (simp_all add: asked_distinct ended_distinct begun_cache parseDiagram_def loaded_frame split_beta)

lemma turned_ok:
  assumes "engine_ok to_rgb number_text mermaid P s" "p \<in> P"
  shows "engine_ok to_rgb number_text mermaid P (s\<lparr>eg_palette := p\<rparr>)"
  using assms by (simp add: engine_defs)

lemma engine_ok_step:
  assumes "engine_ok to_rgb number_text mermaid P s \<and> distinct (map fst (eg_cache s))" "set (turned_to op) \<subseteq> P"
  shows "engine_ok to_rgb number_text mermaid P (engine_step to_rgb number_text mermaid s op)
    \<and> distinct (map fst (eg_cache (engine_step to_rgb number_text mermaid s op)))"
proof
  show "engine_ok to_rgb number_text mermaid P (engine_step to_rgb number_text mermaid s op)"
    using assms by (cases op)
      (simp_all add: ok_render_asked ok_draw_begins ok_draw_ends turned_ok loaded_keeps parseDiagram_def split_beta)
  show "distinct (map fst (eg_cache (engine_step to_rgb number_text mermaid s op)))"
    using assms(1) cache_distinct_step by blast
qed

lemma engine_ok_run:
  assumes "engine_ok to_rgb number_text mermaid P s \<and> distinct (map fst (eg_cache s))" "\<forall>op \<in> set ops. set (turned_to op) \<subseteq> P"
  shows "engine_ok to_rgb number_text mermaid P (foldl (engine_step to_rgb number_text mermaid) s ops)"
  using assms
proof (induction ops arbitrary: s)
  case (Cons op ops)
  then show ?case using engine_ok_step [of to_rgb number_text mermaid P s op] by simp
qed simp

lemma init_ok: "p \<in> P \<Longrightarrow> engine_ok to_rgb number_text mermaid P (engine_init p)"
  by (simp add: engine_defs engine_init_def filed_def)

lemma init_distinct: "distinct (map fst (eg_cache (engine_init p)))"
  by (simp add: engine_init_def)

lemma served_is_drawn:
  assumes "filed (drawn_in to_rgb number_text mermaid) P es" "p \<in> P" "\<forall>q \<in> P. 0 \<notin> set (paletteSignature q)"
    and same: "\<forall>p \<in> P. \<forall>q \<in> P. paletteSignature p = paletteSignature q \<longrightarrow> mermaidThemeConfig to_rgb p = mermaidThemeConfig to_rgb q"
    and hit: "map_get es (cache_key (paletteSignature p) source) = Some svg"
  shows "drawn_in to_rgb number_text mermaid p source svg"
proof -
  from assms(1) hit obtain q src where q: "q \<in> P" "cache_key (paletteSignature p) source = cache_key (paletteSignature q) src"
    "drawn_in to_rgb number_text mermaid q src svg"
    unfolding filed_def by blast
  have eq: "paletteSignature p = paletteSignature q \<and> source = src"
    using assms(2,3) q(1,2) by (simp add: cache_key_inj)
  then have "mermaidThemeConfig to_rgb p = mermaidThemeConfig to_rgb q"
    using same assms(2) q(1) by blast
  then have "init_config to_rgb p src = init_config to_rgb q src"
    by (simp add: init_config_def)
  then show ?thesis using q(3) eq by (simp add: drawn_in_def)
qed

text \<open>
  C11. Whatever palettes the page took and however renders and turns interleaved, as long as a
  signature names one palette, what the cache serves for a source in a palette is a drawing of
  that source under that palette's configuration, never another's; and no request is lost or
  answered twice: every ticket given out is waiting, being drawn or answered, once.
\<close>

theorem cached_drawing_is_current:
  assumes "p0 \<in> P" "\<forall>op \<in> set ops. set (turned_to op) \<subseteq> P" "\<forall>p \<in> P. 0 \<notin> set (paletteSignature p)"
    and "\<forall>p \<in> P. \<forall>q \<in> P. paletteSignature p = paletteSignature q \<longrightarrow> mermaidThemeConfig to_rgb p = mermaidThemeConfig to_rgb q"
  shows "let s = foldl (engine_step to_rgb number_text mermaid) (engine_init p0) ops in
      (\<forall>p \<in> P. \<forall>source svg. fst (cachedRender (paletteSignature p) source (eg_cache s)) = Some svg
          \<longrightarrow> drawn_in to_rgb number_text mermaid p source svg)
    \<and> mset (map fst (eg_answers s) @ pending_tickets s) = mset [0..<eg_next s]"
proof -
  let ?s = "foldl (engine_step to_rgb number_text mermaid) (engine_init p0) ops"
  have "engine_ok to_rgb number_text mermaid P ?s"
    by (rule engine_ok_run [OF conjI [OF init_ok [OF assms(1)] init_distinct] assms(2)])
  then have ok: "filed (drawn_in to_rgb number_text mermaid) P (eg_cache ?s)"
    "mset (map fst (eg_answers ?s) @ pending_tickets ?s) = mset [0..<eg_next ?s]"
    unfolding engine_ok_def by blast+
  show ?thesis
    unfolding Let_def cached_answer
    by (intro conjI ballI allI impI ok(2)) (rule served_is_drawn [OF ok(1) _ assms(3,4)])
qed

definition plain_palette :: "bool \<Rightarrow> Palette" where
  "plain_palette dark = \<lparr>pal_signature = None, pal_dark = dark, pal_property = (\<lambda>_. []), pal_font = []\<rparr>"

definition echo_mermaid :: Mermaid where
  "echo_mermaid = \<lparr>mm_initialize = (\<lambda>_. None), mm_render = (\<lambda>c i source. Inr (source @ lit ''drawn'')), mm_parse = (\<lambda>_. None)\<rparr>"

definition turned_while_drawn :: "EngineOp list" where
  "turned_while_drawn = [RenderAsked (lit ''graph''), DrawBegins None, PaletteTurns (plain_palette False), DrawEnds]"

theorem cached_drawing_is_current_witness:
  "let s = foldl (engine_step (\<lambda>c. c) (\<lambda>_. []) echo_mermaid) (engine_init (plain_palette True)) turned_while_drawn in
     (\<exists>svg. fst (cachedRender (paletteSignature (plain_palette True)) (lit ''graph'') (eg_cache s)) = Some svg
        \<and> drawn_in (\<lambda>c. c) (\<lambda>_. []) echo_mermaid (plain_palette True) (lit ''graph'') svg)
     \<and> fst (cachedRender (paletteSignature (plain_palette False)) (lit ''graph'') (eg_cache s)) = None"
proof -
  let ?P = "{plain_palette True, plain_palette False}"
  let ?s = "foldl (engine_step (\<lambda>c. c) (\<lambda>_. []) echo_mermaid) (engine_init (plain_palette True)) turned_while_drawn"
  have sig: "\<forall>p \<in> ?P. 0 \<notin> set (paletteSignature p)"
    by (simp add: paletteSignature_def isDarkTheme_def plain_palette_def lit_def)
  have same: "\<forall>p \<in> ?P. \<forall>q \<in> ?P. paletteSignature p = paletteSignature q \<longrightarrow> mermaidThemeConfig (\<lambda>c. c) p = mermaidThemeConfig (\<lambda>c. c) q"
    by (simp add: paletteSignature_def isDarkTheme_def plain_palette_def)
  have turns: "\<forall>op \<in> set turned_while_drawn. set (turned_to op) \<subseteq> ?P"
    by (simp add: turned_while_drawn_def)
  have served: "map_get (eg_cache ?s) (cache_key (paletteSignature (plain_palette True)) (lit ''graph'')) \<noteq> None"
    "map_get (eg_cache ?s) (cache_key (paletteSignature (plain_palette False)) (lit ''graph'')) = None"
    by (simp_all add: turned_while_drawn_def engine_init_def renderDiagram_def cachedRender_def draw_begins_def loadMermaid_def
        echo_mermaid_def draw_ends_def cacheRender_def engine_answers_def evict_drops MERMAID_RENDER_CACHE_SIZE_def
        paletteSignature_def plain_palette_def isDarkTheme_def Let_def cache_key_def CACHE_SEPARATOR_def lit_def)
  show ?thesis
    using cached_drawing_is_current [of "plain_palette True" ?P turned_while_drawn, OF _ turns sig same, of "\<lambda>_. []" echo_mermaid]
      served unfolding Let_def cached_answer by auto
qed

end
