(* ===== verification/DiagramSurface.thy ===== *)
theory DiagramSurface
  imports DiagramEngine
begin

section \<open>One diagram surface\<close>

text \<open>
  What a mounted diagram keeps: the render it shows and the one it has outstanding (\<open>useDiagramRender.ts\<close>), the debounced
  source it previews while being edited (\<open>useDebouncedPreview.ts\<close>), the page's signature it follows
  (\<open>useMermaidTheme.ts\<close>), and the files it can be saved as (\<open>export.ts\<close>).
\<close>

subsection \<open>The render a surface shows\<close>

datatype DiagramRender = RenderPending "jstring option" | RenderDrawn jstring | RenderError "jstring option" jstring

definition FIRST_RENDER :: DiagramRender where "FIRST_RENDER = RenderPending None"

primrec last_drawn :: "DiagramRender \<Rightarrow> jstring option" where
  "last_drawn (RenderPending drawn) = drawn"
| "last_drawn (RenderDrawn drawn) = Some drawn"
| "last_drawn (RenderError drawn message) = drawn"

record Request =
  rq_source :: jstring
  rq_signature :: jstring

text \<open>The hook's refs, with the request whose render is outstanding: \<open>drawing.current\<close> is whether there is one.\<close>

record Surface =
  sf_render :: DiagramRender
  sf_next :: "Request option"
  sf_drawing :: "Request option"
  sf_mounted :: bool
  sf_parsed :: "bool list"

definition surface_init :: Surface where
  "surface_init = \<lparr>sf_render = FIRST_RENDER, sf_next = None, sf_drawing = None, sf_mounted = True, sf_parsed = []\<rparr>"

text \<open>\<open>drain\<close> up to its next call of the engine, or to its end when nothing is wanted.\<close>

definition drain_takes :: "Surface \<Rightarrow> Surface" where
  "drain_takes s = (case sf_next s of None \<Rightarrow> s\<lparr>sf_drawing := None\<rparr> | Some request \<Rightarrow> s\<lparr>sf_next := None, sf_drawing := Some request\<rparr>)"

definition surface_wants :: "Request \<Rightarrow> Surface \<Rightarrow> Surface" where
  "surface_wants request s =
     (let s = s\<lparr>sf_next := Some request, sf_render := RenderPending (last_drawn (sf_render s))\<rparr> in
      case sf_drawing s of Some _ \<Rightarrow> s | None \<Rightarrow> drain_takes s)"

fun shown_after :: "RenderResult \<Rightarrow> DiagramRender \<Rightarrow> DiagramRender" where
  "shown_after (Rendered svg) current = RenderDrawn svg"
| "shown_after (RenderFailed message) current = RenderError (last_drawn current) message"

primrec rendered_ok :: "RenderResult \<Rightarrow> bool" where
  "rendered_ok (Rendered svg) = True"
| "rendered_ok (RenderFailed message) = False"

text \<open>\<open>drain\<close> from an answer on; an unmounted surface leaves what is wanted unanswered, and a newer request makes the answer stale.\<close>

definition surface_answered :: "RenderResult \<Rightarrow> Surface \<Rightarrow> Surface" where
  "surface_answered result s =
     (if sf_drawing s = None then s
      else if \<not> sf_mounted s then s\<lparr>sf_drawing := None\<rparr>
      else if sf_next s \<noteq> None then drain_takes s
      else s\<lparr>sf_render := shown_after result (sf_render s), sf_parsed := sf_parsed s @ [rendered_ok result], sf_drawing := None\<rparr>)"

datatype SurfaceOp = Wants Request | Answered RenderResult | Unmounts

fun surface_step :: "Surface \<Rightarrow> SurfaceOp \<Rightarrow> Surface" where
  "surface_step s (Wants request) = surface_wants request s"
| "surface_step s (Answered result) = surface_answered result s"
| "surface_step s Unmounts = s\<lparr>sf_mounted := False\<rparr>"

definition surface_run :: "SurfaceOp list \<Rightarrow> Surface" where "surface_run ops = foldl surface_step surface_init ops"

fun wanted :: "SurfaceOp \<Rightarrow> Request option" where
  "wanted (Wants request) = Some request"
| "wanted _ = None"

text \<open>The last request of a history, and what the surface owes it: shown, being drawn, or next to be drawn.\<close>

definition last_wanted :: "SurfaceOp list \<Rightarrow> Request option" where
  "last_wanted ops = (case filter (\<lambda>op. wanted op \<noteq> None) ops of [] \<Rightarrow> None | wants \<Rightarrow> wanted (last wants))"

definition owed :: "Request option \<Rightarrow> Surface \<Rightarrow> bool" where
  "owed request s \<longleftrightarrow> (case sf_next s of
       Some r \<Rightarrow> sf_drawing s \<noteq> None \<and> request = Some r \<and> (\<exists>d. sf_render s = RenderPending d)
     | None \<Rightarrow> (case sf_drawing s of
           Some r \<Rightarrow> request = Some r \<and> (\<exists>d. sf_render s = RenderPending d)
         | None \<Rightarrow> request = None \<or> (\<forall>d. sf_render s \<noteq> RenderPending d)))"

lemma last_wanted_snoc: "last_wanted (ops @ [op]) = (case wanted op of None \<Rightarrow> last_wanted ops | Some r \<Rightarrow> Some r)"
  by (cases "filter (\<lambda>op. wanted op \<noteq> None) ops") (auto simp: last_wanted_def)

lemma owed_answered:
  assumes "owed request s" "sf_mounted s"
  shows "owed request (surface_answered result s) \<and> sf_mounted (surface_answered result s)"
proof (cases "sf_drawing s")
  case (Some d)
  show ?thesis
  proof (cases "sf_next s")
    case None
    then show ?thesis using assms Some by (cases result) (simp_all add: owed_def surface_answered_def)
  next
    case (Some r)
    then show ?thesis using assms \<open>sf_drawing s = Some d\<close> by (simp add: owed_def surface_answered_def drain_takes_def)
  qed
qed (use assms in \<open>simp add: surface_answered_def\<close>)

lemma owed_step:
  assumes "owed request s" "sf_mounted s" "op \<noteq> Unmounts"
  shows "owed (case wanted op of None \<Rightarrow> request | Some r \<Rightarrow> Some r) (surface_step s op) \<and> sf_mounted (surface_step s op)"
proof (cases op)
  case (Wants r)
  then show ?thesis
    using assms by (cases "sf_drawing s") (simp_all add: surface_wants_def owed_def drain_takes_def Let_def)
next
  case (Answered result)
  then show ?thesis using owed_answered [OF assms(1,2)] by simp
qed (use assms in simp)

lemma owed_run:
  assumes "Unmounts \<notin> set ops"
  shows "owed (last_wanted ops) (surface_run ops) \<and> sf_mounted (surface_run ops)"
  using assms
proof (induction ops rule: rev_induct)
  case Nil
  show ?case by (simp add: last_wanted_def surface_run_def surface_init_def owed_def)
next
  case (snoc op ops)
  then have "owed (last_wanted ops) (surface_run ops)" "sf_mounted (surface_run ops)" "op \<noteq> Unmounts" by auto
  from owed_step [OF this] show ?case by (simp add: last_wanted_snoc surface_run_def)
qed

text \<open>
  C20. However changes of source and palette and the engine's answers interleave, a mounted
  surface settles on the newest request within two answers: either it is idle and shows an
  outcome, or the next answer is shown and leaves it idle (the render outstanding being the
  newest request's), or the next answer is dropped as stale, the newest request is the one then
  drawn, and its answer is shown and leaves the surface idle.
\<close>

theorem surface_settles:
  assumes "Unmounts \<notin> set ops" "last_wanted ops = Some request"
  shows "let s = surface_run ops; once = surface_step s (Answered first); twice = surface_step once (Answered second) in
      (sf_drawing s = None \<and> sf_next s = None \<and> (\<forall>d. sf_render s \<noteq> RenderPending d))
    \<or> (sf_drawing s = Some request \<and> sf_drawing once = None \<and> sf_next once = None
        \<and> sf_render once = shown_after first (sf_render s) \<and> sf_parsed once = sf_parsed s @ [rendered_ok first])
    \<or> (sf_drawing once = Some request \<and> sf_render once = sf_render s \<and> sf_parsed once = sf_parsed s
        \<and> sf_drawing twice = None \<and> sf_next twice = None
        \<and> sf_render twice = shown_after second (sf_render s) \<and> sf_parsed twice = sf_parsed s @ [rendered_ok second])"
proof -
  let ?s = "surface_run ops"
  have ok: "owed (Some request) ?s" "sf_mounted ?s" using owed_run [OF assms(1)] assms(2) by auto
  show ?thesis
  proof (cases "sf_next ?s")
    case (Some r)
    then show ?thesis using ok by (auto simp: owed_def surface_answered_def drain_takes_def Let_def)
  next
    case None
    then show ?thesis
      using ok by (cases "sf_drawing ?s") (simp_all add: owed_def surface_answered_def Let_def)
  qed
qed

definition a_request :: "string \<Rightarrow> Request" where
  "a_request name = \<lparr>rq_source = lit name, rq_signature = lit ''light''\<rparr>"

theorem surface_settles_witness:
  "let s = surface_run [Wants (a_request ''a''), Wants (a_request ''b''), Wants (a_request ''c'')];
       once = surface_step s (Answered (Rendered (lit ''A''))); twice = surface_step once (Answered (RenderFailed (lit ''no''))) in
     sf_drawing once = Some (a_request ''c'') \<and> sf_drawing twice = None \<and> sf_parsed twice = [False]
       \<and> sf_render twice = RenderError None (lit ''no'')"
proof -
  let ?ops = "[Wants (a_request ''a''), Wants (a_request ''b''), Wants (a_request ''c'')]"
  have "last_wanted ?ops = Some (a_request ''c'')" "Unmounts \<notin> set ?ops"
    by (simp_all add: last_wanted_def)
  then show ?thesis
    using surface_settles [of ?ops "a_request ''c''" "Rendered (lit ''A'')" "RenderFailed (lit ''no'')"]
    by (simp add: surface_run_def surface_init_def surface_wants_def drain_takes_def FIRST_RENDER_def a_request_def lit_def Let_def)
qed

subsection \<open>The debounced preview\<close>

text \<open>
  \<open>useDebouncedPreview\<close>: the source, its preview, the text the last edit produced and the timer's source. The effect runs when
  the source changes, after the timer it had armed is cleared; editing only notes the text, and the parent's new source arrives
  as its own step.
\<close>

record Preview =
  pv_source :: jstring
  pv_preview :: jstring
  pv_typed :: "jstring option"
  pv_timer :: "jstring option"

definition preview_init :: "jstring \<Rightarrow> Preview" where
  "preview_init source = \<lparr>pv_source = source, pv_preview = source, pv_typed = None, pv_timer = None\<rparr>"

datatype PreviewOp = EditedTo jstring | SourceArrives jstring | DebounceFires | PreviewUnmounts

definition source_arrives :: "jstring \<Rightarrow> Preview \<Rightarrow> Preview" where
  "source_arrives source s =
     (if source = pv_source s then s
      else let s = s\<lparr>pv_source := source, pv_timer := None\<rparr> in
        if Some source \<noteq> pv_typed s then s\<lparr>pv_typed := None, pv_preview := source\<rparr>
        else s\<lparr>pv_timer := Some source\<rparr>)"

fun preview_step :: "Preview \<Rightarrow> PreviewOp \<Rightarrow> Preview" where
  "preview_step s (EditedTo text) = s\<lparr>pv_typed := Some text\<rparr>"
| "preview_step s (SourceArrives source) = source_arrives source s"
| "preview_step s DebounceFires = (case pv_timer s of None \<Rightarrow> s | Some source \<Rightarrow> s\<lparr>pv_timer := None, pv_preview := source\<rparr>)"
| "preview_step s PreviewUnmounts = s\<lparr>pv_timer := None\<rparr>"

definition previews :: "Preview \<Rightarrow> bool" where
  "previews s \<longleftrightarrow> (case pv_timer s of None \<Rightarrow> pv_preview s = pv_source s | Some source \<Rightarrow> source = pv_source s)"

lemma previews_step: "previews s \<Longrightarrow> op \<noteq> PreviewUnmounts \<Longrightarrow> previews (preview_step s op)"
  by (cases op) (auto simp: previews_def source_arrives_def Let_def split: option.splits)

lemma previews_run: "previews s \<Longrightarrow> PreviewUnmounts \<notin> set ops \<Longrightarrow> previews (foldl preview_step s ops)"
  by (induction ops arbitrary: s) (auto simp: previews_step)

text \<open>
  Whatever edits, outside changes and timer firings a mounted editor sees, the preview is the
  source unless a debounce is armed; then it becomes the source when the debounce fires. A
  source that is not the text of the last edit is previewed at once, even while a debounce is
  outstanding.
\<close>

theorem preview_catches_up:
  assumes "PreviewUnmounts \<notin> set ops"
  shows "let s = foldl preview_step (preview_init source) ops; fired = preview_step s DebounceFires;
             arrived = preview_step s (SourceArrives other) in
       (pv_timer s = None \<longrightarrow> pv_preview s = pv_source s) \<and> pv_preview fired = pv_source s \<and> pv_timer fired = None
     \<and> (other \<noteq> pv_source s \<and> pv_typed s \<noteq> Some other \<longrightarrow> pv_preview arrived = other \<and> pv_timer arrived = None)"
proof -
  have "previews (foldl preview_step (preview_init source) ops)"
    using assms by (intro previews_run) (simp_all add: previews_def preview_init_def)
  then show ?thesis by (auto simp: previews_def source_arrives_def Let_def split: option.splits)
qed

theorem preview_catches_up_witness:
  "let s = foldl preview_step (preview_init (lit ''a'')) [EditedTo (lit ''ab''), SourceArrives (lit ''ab'')] in
     pv_preview s = lit ''a'' \<and> pv_timer s = Some (lit ''ab'') \<and> pv_preview (preview_step s DebounceFires) = lit ''ab''
       \<and> pv_preview (preview_step s (SourceArrives (lit ''c''))) = lit ''c''"
  using preview_catches_up [of "[EditedTo (lit ''ab''), SourceArrives (lit ''ab'')]" "lit ''a''" "lit ''c''"]
  by (simp add: preview_init_def source_arrives_def lit_def Let_def)

subsection \<open>The signature a surface follows\<close>

text \<open>
  \<open>useMermaidTheme\<close>: read when the hook is first rendered, again when its effect starts, and at every observed change of the
  root's class or signature.
\<close>

definition followed_signature :: "Palette \<Rightarrow> Palette \<Rightarrow> Palette list \<Rightarrow> jstring" where
  "followed_signature rendered mounted observed = foldl (\<lambda>_ p. paletteSignature p) (paletteSignature rendered) (mounted # observed)"

lemma follows_last_palette: "followed_signature p q observed = paletteSignature (last (q # observed))"
  by (induction observed rule: rev_induct) (simp_all add: followed_signature_def)

subsection \<open>Exports\<close>

datatype DiagramExportFormat = SvgExport | SourceExport | PngExport

primrec DIAGRAM_EXPORT_FILE :: "DiagramExportFormat \<Rightarrow> jstring \<times> jstring" where
  "DIAGRAM_EXPORT_FILE SvgExport = (lit ''svg'', lit ''SVG image'')"
| "DIAGRAM_EXPORT_FILE SourceExport = (lit ''mmd'', lit ''Mermaid source'')"
| "DIAGRAM_EXPORT_FILE PngExport = (lit ''png'', lit ''PNG image'')"

text \<open>
  \<open>TextEncoder.encode\<close>: UTF-8 of the code points a string of 16-bit units spells, a lone surrogate read as U+FFFD.
\<close>


fun scalar_values :: "jstring \<Rightarrow> nat list" where
  "scalar_values [] = []"
| "scalar_values [u] = [if is_high u \<or> is_low u then 65533 else u]"
| "scalar_values (u # v # us) =
     (if is_high u \<and> is_low v then (65536 + (u - 55296) * 1024 + (v - 56320)) # scalar_values us
      else (if is_high u \<or> is_low u then 65533 else u) # scalar_values (v # us))"

definition utf8_bytes :: "nat \<Rightarrow> nat list" where
  "utf8_bytes c =
     (if c < 128 then [c]
      else if c < 2048 then [192 + c div 64, 128 + c mod 64]
      else if c < 65536 then [224 + c div 4096, 128 + c div 64 mod 64, 128 + c mod 64]
      else [240 + c div 262144, 128 + c div 4096 mod 64, 128 + c div 64 mod 64, 128 + c mod 64])"

definition utf8_encode :: "jstring \<Rightarrow> nat list" where "utf8_encode s = concat (map utf8_bytes (scalar_values s))"

fun renderSvg :: "RenderResult \<Rightarrow> jstring + jstring" where
  "renderSvg (RenderFailed error) = Inl error"
| "renderSvg (Rendered svg) = Inr svg"

text \<open>
  \<open>rasterizeToPng\<close>. The page's part is a parameter: the size the loaded image has (its natural one, and its own where that is
  zero) or \<open>None\<close> when it fails to load, whether the canvas has a context, and the bytes it encodes for a width and a height.
\<close>

record Raster =
  rs_image :: "jstring \<Rightarrow> ((rat \<times> rat) \<times> (rat \<times> rat)) option"
  rs_context :: bool
  rs_blob :: "jstring \<Rightarrow> int \<Rightarrow> int \<Rightarrow> nat list option"

definition RASTER_FAILED :: jstring where "RASTER_FAILED = lit ''Could not rasterize diagram.''"

definition png_extent :: "rat \<Rightarrow> rat \<Rightarrow> int" where
  "png_extent natural own = max 1 (js_round ((if natural = 0 then own else natural) * MERMAID_PNG_SCALE))"

definition rasterizeToPng :: "Raster \<Rightarrow> jstring \<Rightarrow> jstring + nat list" where
  "rasterizeToPng r svg =
     (case rs_image r svg of None \<Rightarrow> Inl RASTER_FAILED
      | Some ((naturalWidth, width), (naturalHeight, height)) \<Rightarrow>
          if \<not> rs_context r then Inl RASTER_FAILED
          else case rs_blob r svg (png_extent naturalWidth width) (png_extent naturalHeight height) of
            None \<Rightarrow> Inl RASTER_FAILED
          | Some bytes \<Rightarrow> Inr bytes)"

definition diagramExportBytes :: "Raster \<Rightarrow> (jstring \<Rightarrow> RenderResult) \<Rightarrow> jstring \<Rightarrow> DiagramExportFormat \<Rightarrow> jstring + nat list" where
  "diagramExportBytes r render source format =
     (if format = SourceExport then Inr (utf8_encode source)
      else case renderSvg (render source) of Inl e \<Rightarrow> Inl e
        | Inr svg \<Rightarrow> if format = SvgExport then Inr (utf8_encode svg) else rasterizeToPng r svg)"

text \<open>The source and the drawing as copied: a window without a clipboard takes neither and reports neither.\<close>

definition copyDiagramSource :: "bool \<Rightarrow> jstring \<Rightarrow> jstring option" where
  "copyDiagramSource clipboard source = (if clipboard then Some source else None)"

definition copyDiagramSvg :: "bool \<Rightarrow> (jstring \<Rightarrow> RenderResult) \<Rightarrow> jstring \<Rightarrow> jstring + jstring option" where
  "copyDiagramSvg clipboard render source =
     (if \<not> clipboard then Inr None
      else case renderSvg (render source) of Inl e \<Rightarrow> Inl e | Inr svg \<Rightarrow> Inr (Some svg))"

lemma scalar_bytes_fit: "c < 1114112 \<Longrightarrow> \<forall>b \<in> set (utf8_bytes c). b < 256"
  by (auto simp: utf8_bytes_def)

lemma scalars_fit: "\<forall>u \<in> set s. u < 65536 \<Longrightarrow> \<forall>c \<in> set (scalar_values s). c < 1114112"
  by (induction s rule: scalar_values.induct) (auto simp: is_high_def is_low_def)

lemma encoded_bytes: "\<forall>u \<in> set s. u < 65536 \<Longrightarrow> \<forall>b \<in> set (utf8_encode s). b < 256"
  using scalars_fit scalar_bytes_fit by (fastforce simp: utf8_encode_def)

lemma source_always_exports: "diagramExportBytes r render source SourceExport = Inr (utf8_encode source)"
  by (simp add: diagramExportBytes_def)

lemma png_has_pixels: "png_extent natural own \<ge> 1"
  by (simp add: png_extent_def)

end
