(* ===== verification/EditorText.thy ===== *)
theory EditorText
  imports Prelude
begin

section \<open>Text in the document editor\<close>

text \<open>
  \<open>components/editor/markdownEntities.ts\<close>: the correction of the Markdown serializer's entities. The serializer is a parameter:
  the correction wraps the method it has, if it has one.
\<close>

subsection \<open>Entities in stored Markdown\<close>

definition html_letter :: "nat \<Rightarrow> bool" where "html_letter c \<longleftrightarrow> 65 \<le> c \<and> c \<le> 90 \<or> 97 \<le> c \<and> c \<le> 122"
definition html_hex :: "nat \<Rightarrow> bool" where
  "html_hex c \<longleftrightarrow> is_digit_unit c \<or> 65 \<le> c \<and> c \<le> 70 \<or> 97 \<le> c \<and> c \<le> 102"

text \<open>One or more units of a class and then a semicolon, the shape of each alternative of \<open>ENTITY_FOLLOWS_AMP\<close>.\<close>

definition run_then_semicolon :: "(nat \<Rightarrow> bool) \<Rightarrow> jstring \<Rightarrow> bool" where
  "run_then_semicolon P s \<longleftrightarrow> takeWhile P s \<noteq> [] \<and> starts_with (dropWhile P s) (lit '';'')"

definition ENTITY_FOLLOWS_AMP :: "jstring \<Rightarrow> bool" where
  "ENTITY_FOLLOWS_AMP s \<longleftrightarrow> (case s of [] \<Rightarrow> False
     | c # cs \<Rightarrow> html_letter c \<and> run_then_semicolon (\<lambda>d. html_letter d \<or> is_digit_unit d) s
         \<or> c = 35 \<and> (run_then_semicolon is_digit_unit cs
             \<or> (case cs of [] \<Rightarrow> False | x # xs \<Rightarrow> x \<in> {120, 88} \<and> run_then_semicolon html_hex xs)))"

definition TAG_FOLLOWS_LT :: "jstring \<Rightarrow> bool" where
  "TAG_FOLLOWS_LT s \<longleftrightarrow> (case s of [] \<Rightarrow> False | c # cs \<Rightarrow> html_letter c \<or> c \<in> {33, 47, 63})"

definition atLineStart :: "jstring \<Rightarrow> nat \<Rightarrow> bool" where
  "atLineStart text offset \<longleftrightarrow> js_trim (rev (takeWhile (\<lambda>c. c \<noteq> 10) (rev (take offset text)))) = []"

text \<open>\<open>replace\<close> scans from the left; what it has passed is carried so the callback's offset is its length.\<close>

function decode_from :: "jstring \<Rightarrow> jstring \<Rightarrow> jstring" where
  "decode_from before [] = []"
| "decode_from before (c # cs) =
     (if starts_with (c # cs) (lit ''&amp;'') then
        (if ENTITY_FOLLOWS_AMP (drop 4 cs) then lit ''&amp;'' else lit ''&'') @ decode_from (before @ lit ''&amp;'') (drop 4 cs)
      else if starts_with (c # cs) (lit ''&lt;'') then
        (if TAG_FOLLOWS_LT (drop 3 cs) then lit ''&lt;'' else lit ''<'') @ decode_from (before @ lit ''&lt;'') (drop 3 cs)
      else if starts_with (c # cs) (lit ''&gt;'') then
        (if atLineStart (before @ c # cs) (length before) then lit ''&gt;'' else lit ''>'')
          @ decode_from (before @ lit ''&gt;'') (drop 3 cs)
      else c # decode_from (before @ [c]) cs)"
  by pat_completeness auto

termination by (relation "measure (\<lambda>(before, s). length s)") auto

definition decodeWhereUnambiguous :: "jstring \<Rightarrow> jstring" where "decodeWhereUnambiguous encoded = decode_from [] encoded"

text \<open>
  The serializer's prototype: its encoder, when the library still has one under that name, and whether it was wrapped.
\<close>

record 'n Serializer =
  sz_encode :: "('n \<Rightarrow> jstring \<Rightarrow> jstring) option"
  sz_corrected :: bool

definition applyMarkdownEntityCorrection :: "'n Serializer \<Rightarrow> 'n Serializer" where
  "applyMarkdownEntityCorrection proto =
     (case sz_encode proto of None \<Rightarrow> proto
      | Some encode \<Rightarrow>
          if sz_corrected proto then proto
          else proto\<lparr>sz_encode := Some (\<lambda>node text. let encoded = encode node text in
                 if encoded = text then text else decodeWhereUnambiguous encoded), sz_corrected := True\<rparr>)"

text \<open>
  The specification. \<open>html_escape\<close> is what the encoder does to the three characters; \<open>reads_as\<close> is what the next load makes of
  stored text: the three entities are their characters, any other entity, a tag or a quote marker is not text as typed.
\<close>

primrec escape_unit :: "nat \<Rightarrow> jstring" where
  "escape_unit 0 = [0]"
| "escape_unit (Suc n) = (if Suc n = 38 then lit ''&amp;'' else if Suc n = 60 then lit ''&lt;'' else if Suc n = 62 then lit ''&gt;''
     else [Suc n])"

definition html_escape :: "jstring \<Rightarrow> jstring" where "html_escape t = concat (map escape_unit t)"

function reads_as :: "jstring \<Rightarrow> jstring \<Rightarrow> jstring option" where
  "reads_as before [] = Some []"
| "reads_as before (c # cs) =
     (if starts_with (c # cs) (lit ''&amp;'') then map_option ((#) 38) (reads_as (before @ lit ''&amp;'') (drop 4 cs))
      else if starts_with (c # cs) (lit ''&lt;'') then map_option ((#) 60) (reads_as (before @ lit ''&lt;'') (drop 3 cs))
      else if starts_with (c # cs) (lit ''&gt;'') then map_option ((#) 62) (reads_as (before @ lit ''&gt;'') (drop 3 cs))
      else if c = 38 \<and> ENTITY_FOLLOWS_AMP cs then None
      else if c = 60 \<and> TAG_FOLLOWS_LT cs then None
      else if c = 62 \<and> atLineStart (before @ c # cs) (length before) then None
      else map_option ((#) c) (reads_as (before @ [c]) cs))"
  by pat_completeness auto

termination by (relation "measure (\<lambda>(before, s). length s)") auto

subsection \<open>Facts\<close>

definition markup_unit :: "nat \<Rightarrow> bool" where "markup_unit c \<longleftrightarrow> c = 38 \<or> c = 60 \<or> c = 62"

lemma markup_unit_simps [simp]: "markup_unit 38" "markup_unit 60" "markup_unit 62"
  by (simp_all add: markup_unit_def)

lemma escape_unit_simps [simp]:
  "escape_unit 38 = lit ''&amp;''" "escape_unit 60 = lit ''&lt;''" "escape_unit 62 = lit ''&gt;''"
  by (simp_all add: numeral_eq_Suc)

lemma escape_plain [simp]: "\<not> markup_unit c \<Longrightarrow> escape_unit c = [c]"
  by (cases c) (auto simp: markup_unit_def)

lemma html_escape_simps [simp]: "html_escape [] = []" "html_escape (c # t) = escape_unit c @ html_escape t"
  by (simp_all add: html_escape_def)

lemma lit_entities: "lit ''&amp;'' = [38, 97, 109, 112, 59]" "lit ''&lt;'' = [38, 108, 116, 59]" "lit ''&gt;'' = [38, 103, 116, 59]"
  "lit ''&'' = [38]" "lit ''<'' = [60]" "lit ''>'' = [62]" "lit '';'' = [59]"
  by (simp_all add: lit_def)

text \<open>Two texts agree up to the first markup_unit unit, which is also markup_unit in the other.\<close>

definition same_until :: "jstring \<Rightarrow> jstring \<Rightarrow> bool" where
  "same_until s t \<longleftrightarrow> (\<exists>p s' t'. s = p @ s' \<and> t = p @ t' \<and> (\<forall>c \<in> set p. \<not> markup_unit c)
     \<and> (s' = [] \<longleftrightarrow> t' = []) \<and> (s' \<noteq> [] \<longrightarrow> markup_unit (hd s') \<and> markup_unit (hd t')))"

lemma same_until_run:
  assumes "same_until s t" "\<And>c. markup_unit c \<Longrightarrow> \<not> P c"
  shows "run_then_semicolon P s \<longleftrightarrow> run_then_semicolon P t"
proof -
  obtain p s' t' where e: "s = p @ s'" "t = p @ t'" "s' = [] \<longleftrightarrow> t' = []" "s' \<noteq> [] \<longrightarrow> markup_unit (hd s') \<and> markup_unit (hd t')"
    using assms(1) unfolding same_until_def by blast
  have s: "takeWhile P s' = []" "takeWhile P t' = []" "dropWhile P s' = s'" "dropWhile P t' = t'"
    using assms(2) e(3,4) by (cases s'; cases t'; auto)+
  have "\<not> starts_with s' (lit '';'')" "\<not> starts_with t' (lit '';'')"
    using e(3,4) by (cases s'; cases t'; auto simp: lit_entities markup_unit_def)+
  moreover have "starts_with (r @ s') (lit '';'') \<longleftrightarrow> starts_with (r @ t') (lit '';'')" if "r \<noteq> []" for r
    using that by (cases r) (auto simp: lit_entities)
  moreover have "dropWhile P p \<noteq> []" if "\<not> (\<forall>c \<in> set p. P c)"
    using that by (simp add: dropWhile_eq_Nil_conv)
  ultimately show ?thesis
    using s unfolding run_then_semicolon_def e(1,2) takeWhile_append dropWhile_append by (simp del: dropWhile_eq_Nil_conv)
qed

lemma same_until_Cons: "same_until (c # s) (d # t) \<Longrightarrow> c = d \<and> \<not> markup_unit c \<and> same_until s t \<or> markup_unit c \<and> markup_unit d"
  unfolding same_until_def
proof (elim exE conjE)
  fix p s' t' assume *: "c # s = p @ s'" "d # t = p @ t'" "\<forall>c \<in> set p. \<not> markup_unit c" "(s' = []) = (t' = [])"
    "s' \<noteq> [] \<longrightarrow> markup_unit (hd s') \<and> markup_unit (hd t')"
  show "c = d \<and> \<not> markup_unit c \<and> (\<exists>p s' t'. s = p @ s' \<and> t = p @ t' \<and> (\<forall>c\<in>set p. \<not> markup_unit c) \<and> (s' = []) = (t' = [])
      \<and> (s' \<noteq> [] \<longrightarrow> markup_unit (hd s') \<and> markup_unit (hd t'))) \<or> markup_unit c \<and> markup_unit d"
    using * by (cases p) auto
qed

lemma same_until_nil: "same_until [] t \<longleftrightarrow> t = []" "same_until s [] \<longleftrightarrow> s = []"
  by (auto simp: same_until_def)

lemma special_classes: "markup_unit c \<Longrightarrow> \<not> html_letter c \<and> \<not> is_digit_unit c \<and> \<not> html_hex c \<and> c \<noteq> 35 \<and> c \<notin> {120, 88, 33, 47, 63}"
  by (auto simp: markup_unit_def html_letter_def is_digit_unit_def html_hex_def)

lemma same_until_tag: "same_until s t \<Longrightarrow> TAG_FOLLOWS_LT s \<longleftrightarrow> TAG_FOLLOWS_LT t"
  by (cases s; cases t) (auto simp: TAG_FOLLOWS_LT_def same_until_nil dest!: same_until_Cons dest: special_classes)

lemma same_until_entity:
  assumes "same_until s t"
  shows "ENTITY_FOLLOWS_AMP s \<longleftrightarrow> ENTITY_FOLLOWS_AMP t"
proof (cases s)
  case Nil
  then show ?thesis using assms by (simp add: same_until_nil)
next
  case s: (Cons c cs)
  then obtain d ds where t: "t = d # ds" using assms by (cases t) (auto simp: same_until_nil)
  have run: "run_then_semicolon (\<lambda>d. html_letter d \<or> is_digit_unit d) s = run_then_semicolon (\<lambda>d. html_letter d \<or> is_digit_unit d) t"
    using assms special_classes by (intro same_until_run) auto
  consider "c = d" "\<not> markup_unit c" "same_until cs ds" | "markup_unit c" "markup_unit d"
    using same_until_Cons assms s t by blast
  then show ?thesis
  proof cases
    case 1
    have "run_then_semicolon is_digit_unit cs = run_then_semicolon is_digit_unit ds"
      using 1 special_classes by (intro same_until_run) auto
    moreover have "(case cs of [] \<Rightarrow> False | x # xs \<Rightarrow> x \<in> {120, 88} \<and> run_then_semicolon html_hex xs)
        = (case ds of [] \<Rightarrow> False | x # xs \<Rightarrow> x \<in> {120, 88} \<and> run_then_semicolon html_hex xs)"
    proof (cases cs)
      case Nil
      then show ?thesis using 1 by (simp add: same_until_nil)
    next
      case cs: (Cons x xs)
      then obtain y ys where ds: "ds = y # ys" using 1 by (cases ds) (auto simp: same_until_nil)
      then consider "x = y" "same_until xs ys" | "markup_unit x" "markup_unit y" using same_until_Cons 1(3) cs by blast
      then show ?thesis
        using same_until_run [of xs ys html_hex] special_classes by cases (auto simp: cs ds)
    qed
    ultimately show ?thesis using 1 run by (simp add: ENTITY_FOLLOWS_AMP_def s t)
  next
    case 2
    then show ?thesis using special_classes [of c] special_classes [of d] by (auto simp: ENTITY_FOLLOWS_AMP_def s t)
  qed
qed

lemma same_until_cong: "same_until s t \<Longrightarrow> \<not> markup_unit c \<Longrightarrow> same_until (c # s) (c # t)"
  unfolding same_until_def by (metis (no_types, lifting) append_Cons set_ConsD)

lemma same_until_special: "markup_unit c \<Longrightarrow> markup_unit d \<Longrightarrow> same_until (c # s) (d # t)"
  unfolding same_until_def by (rule exI [of _ "[]"]) auto

lemma same_until_lit [simp]:
  "markup_unit c \<Longrightarrow> same_until (lit ''&amp;'' @ s) (c # t)" "markup_unit c \<Longrightarrow> same_until (lit ''&lt;'' @ s) (c # t)"
  "markup_unit c \<Longrightarrow> same_until (lit ''&gt;'' @ s) (c # t)" "markup_unit c \<Longrightarrow> same_until (lit ''&'' @ s) (c # t)"
  "markup_unit c \<Longrightarrow> same_until (lit ''<'' @ s) (c # t)" "markup_unit c \<Longrightarrow> same_until (lit ''>'' @ s) (c # t)"
  by (auto simp: lit_entities intro!: same_until_special)

lemma escape_same: "same_until (html_escape t) t"
proof (induction t)
  case (Cons c t)
  then show ?case by (cases "markup_unit c") (auto simp: same_until_cong markup_unit_def [of c])
qed (simp add: same_until_nil)

definition line_blank :: "jstring \<Rightarrow> bool" where
  "line_blank before \<longleftrightarrow> js_trim (rev (takeWhile (\<lambda>c. c \<noteq> 10) (rev before))) = []"

lemma atLineStart_before [simp]: "atLineStart (before @ s) (length before) \<longleftrightarrow> line_blank before"
  by (simp add: atLineStart_def line_blank_def)

lemma line_blank_snoc: "line_blank (before @ [c]) \<longleftrightarrow> c = 10 \<or> js_space c \<and> line_blank before"
  by (auto simp: line_blank_def js_trim_blank)

lemma line_blank_same:
  assumes "line_blank b = line_blank d"
  shows "line_blank (b @ [c]) = line_blank (d @ [c])"
  using assms by (simp add: line_blank_snoc)

lemma line_blank_append: "s \<noteq> [] \<Longrightarrow> \<not> js_space (last s) \<Longrightarrow> \<not> line_blank (b @ s)"
  using line_blank_snoc [of "b @ butlast s" "last s"] by (auto simp: js_space_def)

lemma line_blank_entities [simp]:
  "\<not> line_blank (b @ lit ''&amp;'')" "\<not> line_blank (b @ lit ''&lt;'')" "\<not> line_blank (b @ lit ''&gt;'')"
  "\<not> line_blank (b @ [38])" "\<not> line_blank (b @ [60])" "\<not> line_blank (b @ [62])"
  by (rule line_blank_append; simp add: lit_entities js_space_def)+

lemma decode_entities [simp]:
  "decode_from b (lit ''&amp;'' @ s) =
     (if ENTITY_FOLLOWS_AMP s then lit ''&amp;'' else lit ''&'') @ decode_from (b @ lit ''&amp;'') s"
  "decode_from b (lit ''&lt;'' @ s) = (if TAG_FOLLOWS_LT s then lit ''&lt;'' else lit ''<'') @ decode_from (b @ lit ''&lt;'') s"
  "decode_from b (lit ''&gt;'' @ s) = (if line_blank b then lit ''&gt;'' else lit ''>'') @ decode_from (b @ lit ''&gt;'') s"
  by (simp_all add: lit_entities)

lemma decode_plain [simp]: "c \<noteq> 38 \<Longrightarrow> decode_from b (c # s) = c # decode_from (b @ [c]) s"
  by (simp add: lit_entities)

lemma reads_entities [simp]:
  "reads_as b (lit ''&amp;'' @ s) = map_option ((#) 38) (reads_as (b @ lit ''&amp;'') s)"
  "reads_as b (lit ''&lt;'' @ s) = map_option ((#) 60) (reads_as (b @ lit ''&lt;'') s)"
  "reads_as b (lit ''&gt;'' @ s) = map_option ((#) 62) (reads_as (b @ lit ''&gt;'') s)"
  by (simp_all add: lit_entities)

lemma reads_plain [simp]: "\<not> markup_unit c \<Longrightarrow> reads_as b (c # s) = map_option ((#) c) (reads_as (b @ [c]) s)"
  by (simp add: lit_entities markup_unit_def)

lemma entity_is_followed:
  "starts_with s [97, 109, 112, 59] \<or> starts_with s [108, 116, 59] \<or> starts_with s [103, 116, 59] \<Longrightarrow> ENTITY_FOLLOWS_AMP s"
  by (auto simp: starts_with_prefix prefix_def ENTITY_FOLLOWS_AMP_def run_then_semicolon_def html_letter_def is_digit_unit_def
      lit_entities)

lemma reads_kept [simp]:
  "\<not> ENTITY_FOLLOWS_AMP s \<Longrightarrow> reads_as b (38 # s) = map_option ((#) 38) (reads_as (b @ [38]) s)"
  "\<not> TAG_FOLLOWS_LT s \<Longrightarrow> reads_as b (60 # s) = map_option ((#) 60) (reads_as (b @ [60]) s)"
  "\<not> line_blank b \<Longrightarrow> reads_as b (62 # s) = map_option ((#) 62) (reads_as (b @ [62]) s)"
  using entity_is_followed [of s] by (auto simp: lit_entities)

declare decode_from.simps(2) [simp del] reads_as.simps(2) [simp del]

lemma decoded_same: "same_until (decode_from b (html_escape t)) t"
proof (induction t arbitrary: b)
  case (Cons c t)
  show ?case
  proof (cases "markup_unit c")
    case True
    then show ?thesis by (auto simp: markup_unit_def [of c])
  next
    case False
    then have "c \<noteq> 38" by (simp add: markup_unit_def)
    then show ?thesis using False Cons by (simp add: same_until_cong)
  qed
qed (simp add: same_until_nil)

lemma reads_decoded:
  "line_blank b = line_blank d \<Longrightarrow> reads_as d (decode_from b (html_escape t)) = Some t"
proof (induction t arbitrary: b d)
  case (Cons c t)
  note IH = Cons.IH [of "b @ escape_unit c"]
  have ent: "ENTITY_FOLLOWS_AMP (html_escape t) = ENTITY_FOLLOWS_AMP (decode_from e (html_escape t))" for e
    using same_until_entity [OF escape_same] same_until_entity [OF decoded_same] by simp
  have tag: "TAG_FOLLOWS_LT (html_escape t) = TAG_FOLLOWS_LT (decode_from e (html_escape t))" for e
    using same_until_tag [OF escape_same] same_until_tag [OF decoded_same] by simp
  consider "c = 38" | "c = 60" | "c = 62" | "\<not> markup_unit c" unfolding markup_unit_def by blast
  then show ?case
  proof cases
    case 1
    then show ?thesis using IH ent [of "b @ lit ''&amp;''"] by (simp add: lit_entities(4))
  next
    case 2
    then show ?thesis using IH tag [of "b @ lit ''&lt;''"] by (simp add: lit_entities(5))
  next
    case 3
    then show ?thesis using IH Cons.prems by (simp add: lit_entities(6))
  next
    case 4
    then have "c \<noteq> 38" by (simp add: markup_unit_def)
    then show ?thesis using 4 IH line_blank_same [OF Cons.prems] by simp
  qed
qed simp

lemma reads_length: "reads_as d s = Some u \<Longrightarrow> length u \<le> length s"
proof (induction d s arbitrary: u rule: reads_as.induct)
  case (2 before c cs)
  show ?case using 2(5) [unfolded reads_as.simps(2)] 2(1-4) by (fastforce split: if_splits)
qed simp

lemma reads_self_step:
  assumes "reads_as d (c # t) = Some (c # t)"
  shows "reads_as (d @ [c]) t = Some t \<and> (c = 38 \<longrightarrow> \<not> ENTITY_FOLLOWS_AMP t) \<and> (c = 60 \<longrightarrow> \<not> TAG_FOLLOWS_LT t)
    \<and> (c = 62 \<longrightarrow> \<not> line_blank d)"
proof -
  have short: "reads_as e (drop n t) \<noteq> Some t" if "starts_with (c # t) x" "length x = Suc n" "0 < n" for e n x
    using reads_length [of e "drop n t" t] that by (auto simp: starts_with_prefix dest: prefix_length_le)
  show ?thesis
    using assms short [of "lit ''&amp;''" 4] short [of "lit ''&lt;''" 3] short [of "lit ''&gt;''" 3]
    by (subst (asm) reads_as.simps(2)) (auto split: if_splits)
qed

lemma decoded_self:
  "reads_as d t = Some t \<Longrightarrow> line_blank b = line_blank d \<Longrightarrow> decode_from b (html_escape t) = t"
proof (induction t arbitrary: b d)
  case (Cons c t)
  note step = reads_self_step [OF Cons.prems(1)]
  have same: "ENTITY_FOLLOWS_AMP (html_escape t) = ENTITY_FOLLOWS_AMP t" "TAG_FOLLOWS_LT (html_escape t) = TAG_FOLLOWS_LT t"
    by (rule same_until_entity same_until_tag, rule escape_same)+
  consider "c = 38" | "c = 60" | "c = 62" | "\<not> markup_unit c" unfolding markup_unit_def by blast
  then show ?case
  proof cases
    case 4
    then have "c \<noteq> 38" by (simp add: markup_unit_def)
    then show ?thesis using 4 step Cons.IH [of "d @ [c]" "b @ [c]"] line_blank_same [OF Cons.prems(2)] by simp
  qed (use step same Cons.prems(2) Cons.IH [of "d @ [c]" "b @ escape_unit c"] in \<open>simp_all add: lit_entities(4-6)\<close>)
qed simp



lemma correction_idempotent:
  "applyMarkdownEntityCorrection (applyMarkdownEntityCorrection proto) = applyMarkdownEntityCorrection proto"
  by (cases "sz_encode proto") (auto simp: applyMarkdownEntityCorrection_def)

lemma verbatim_text_untouched:
  "sz_encode proto = Some encode \<Longrightarrow> \<not> sz_corrected proto \<Longrightarrow> encode node text = text \<Longrightarrow>
    \<exists>corrected. sz_encode (applyMarkdownEntityCorrection proto) = Some corrected \<and> corrected node text = text"
  by (simp add: applyMarkdownEntityCorrection_def)

end
