(* ===== verification/EditorSearch.thy ===== *)
theory EditorSearch
  imports Prelude "HOL-Library.Monad_Syntax"
begin

section \<open>The editor's find bar and slash menu\<close>

text \<open>
  \<open>components/editor/search/searchPlugin.ts\<close>, \<open>EditorFindBar.tsx\<close>, \<open>slashItems.ts\<close> and \<open>SlashCommandList.tsx\<close>. A document is
  its nodes in order, each with its position and, for a text node, its text; lower-casing is the runtime's and a parameter. The
  matcher's loop ends because a needle is not empty, so a result is an option until that is proved.
\<close>

subsection \<open>Matching\<close>

record MatchRange =
  mr_from :: int
  mr_to :: int

definition indexOf_from :: "jstring \<Rightarrow> jstring \<Rightarrow> nat \<Rightarrow> nat option" where
  "indexOf_from haystack needle cursor = find (\<lambda>i. starts_with (drop i haystack) needle) [cursor..<Suc (length haystack)]"

partial_function (option) find_loop :: "jstring \<Rightarrow> jstring \<Rightarrow> nat \<Rightarrow> MatchRange list option" where
  "find_loop haystack needle cursor =
     (case indexOf_from haystack needle cursor of None \<Rightarrow> Some []
      | Some index \<Rightarrow> do {
          ranges \<leftarrow> find_loop haystack needle (index + length needle);
          Some (\<lparr>mr_from = int index, mr_to = int (index + length needle)\<rparr> # ranges) })"

definition findRanges :: "(jstring \<Rightarrow> jstring) \<Rightarrow> jstring \<Rightarrow> jstring \<Rightarrow> MatchRange list option" where
  "findRanges lower text query = (if query = [] then Some [] else find_loop (lower text) (lower query) 0)"

text \<open>The remainder of the language, with the sign of its first argument.\<close>

definition int_rem :: "int \<Rightarrow> int \<Rightarrow> int" where "int_rem a b = sgn a * (\<bar>a\<bar> mod \<bar>b\<bar>)"

definition stepIndex :: "int \<Rightarrow> int \<Rightarrow> int \<Rightarrow> int" where
  "stepIndex current many direction = (if many = 0 then 0 else int_rem (current + direction + many) many)"

subsection \<open>The plugin\<close>

type_synonym DocNodes = "(int \<times> jstring option) list"

definition shifted :: "int \<Rightarrow> MatchRange \<Rightarrow> MatchRange" where
  "shifted pos r = \<lparr>mr_from = pos + mr_from r, mr_to = pos + mr_to r\<rparr>"

definition node_matches :: "(jstring \<Rightarrow> jstring) \<Rightarrow> jstring \<Rightarrow> int \<times> jstring option \<Rightarrow> MatchRange list option" where
  "node_matches lower query node = (case snd node of None \<Rightarrow> Some []
     | Some text \<Rightarrow> if text = [] then Some [] else map_option (map (shifted (fst node))) (findRanges lower text query))"

definition collectMatches :: "(jstring \<Rightarrow> jstring) \<Rightarrow> DocNodes \<Rightarrow> jstring \<Rightarrow> MatchRange list option" where
  "collectMatches lower doc query =
     (if query = [] then Some [] else map_option concat (those (map (node_matches lower query) doc)))"

definition SEARCH_MATCH_CLASS :: jstring where "SEARCH_MATCH_CLASS = lit ''search-match''"
definition SEARCH_MATCH_CURRENT_CLASS :: jstring where "SEARCH_MATCH_CURRENT_CLASS = lit ''search-match--current''"

definition buildDecorations :: "MatchRange list \<Rightarrow> int \<Rightarrow> (MatchRange \<times> jstring) list" where
  "buildDecorations matches currentIndex =
     map (\<lambda>(index, m). (m, if int index = currentIndex then SEARCH_MATCH_CLASS @ lit '' '' @ SEARCH_MATCH_CURRENT_CLASS
         else SEARCH_MATCH_CLASS)) (enumerate 0 matches)"

record SearchPluginState =
  sp_query :: jstring
  sp_currentIndex :: int
  sp_matches :: "MatchRange list"
  sp_decorations :: "(MatchRange \<times> jstring) list"

definition recompute :: "(jstring \<Rightarrow> jstring) \<Rightarrow> DocNodes \<Rightarrow> jstring \<Rightarrow> int \<Rightarrow> SearchPluginState option" where
  "recompute lower doc query preferredIndex = do {
     matches \<leftarrow> collectMatches lower doc query;
     let currentIndex = (if matches = [] then 0 else min (max preferredIndex 0) (int (length matches) - 1));
     Some \<lparr>sp_query = query, sp_currentIndex = currentIndex, sp_matches = matches,
       sp_decorations = buildDecorations matches currentIndex\<rparr> }"

datatype SearchMeta = MetaSetQuery jstring | MetaStep int

record Transaction =
  tr_doc :: DocNodes
  tr_docChanged :: bool
  tr_meta :: "SearchMeta option"

definition search_init :: SearchPluginState where
  "search_init = \<lparr>sp_query = [], sp_currentIndex = 0, sp_matches = [], sp_decorations = []\<rparr>"

definition search_apply :: "(jstring \<Rightarrow> jstring) \<Rightarrow> Transaction \<Rightarrow> SearchPluginState \<Rightarrow> SearchPluginState option" where
  "search_apply lower tr s =
     (case tr_meta tr of
        Some (MetaSetQuery query) \<Rightarrow> recompute lower (tr_doc tr) query 0
      | Some (MetaStep direction) \<Rightarrow>
          let currentIndex = stepIndex (sp_currentIndex s) (int (length (sp_matches s))) direction in
          Some (s\<lparr>sp_currentIndex := currentIndex, sp_decorations := buildDecorations (sp_matches s) currentIndex\<rparr>)
      | None \<Rightarrow>
          if tr_docChanged tr \<and> sp_query s \<noteq> [] then recompute lower (tr_doc tr) (sp_query s) (sp_currentIndex s)
          else Some s)"

text \<open>
  The view the bar drives: the document, the plugin's state and what was last scrolled to. Setting the query and stepping dispatch
  a transaction on the document as it is.
\<close>

record SearchView =
  sv_doc :: DocNodes
  sv_state :: SearchPluginState
  sv_scrolled :: "MatchRange option"

definition scrollCurrentMatchIntoView :: "SearchView \<Rightarrow> SearchView" where
  "scrollCurrentMatchIntoView v =
     (let s = sv_state v in
      if 0 \<le> sp_currentIndex s \<and> nat (sp_currentIndex s) < length (sp_matches s)
      then v\<lparr>sv_scrolled := Some (sp_matches s ! nat (sp_currentIndex s))\<rparr> else v)"

definition dispatch :: "(jstring \<Rightarrow> jstring) \<Rightarrow> Transaction \<Rightarrow> SearchView \<Rightarrow> SearchView option" where
  "dispatch lower tr v = map_option (\<lambda>s. v\<lparr>sv_doc := tr_doc tr, sv_state := s\<rparr>) (search_apply lower tr (sv_state v))"

definition setSearchQuery :: "(jstring \<Rightarrow> jstring) \<Rightarrow> jstring \<Rightarrow> SearchView \<Rightarrow> SearchView option" where
  "setSearchQuery lower query v = map_option scrollCurrentMatchIntoView
     (dispatch lower \<lparr>tr_doc = sv_doc v, tr_docChanged = False, tr_meta = Some (MetaSetQuery query)\<rparr> v)"

definition stepSearch :: "(jstring \<Rightarrow> jstring) \<Rightarrow> int \<Rightarrow> SearchView \<Rightarrow> SearchView option" where
  "stepSearch lower direction v =
     (if sp_matches (sv_state v) = [] then Some v
      else map_option scrollCurrentMatchIntoView
        (dispatch lower \<lparr>tr_doc = sv_doc v, tr_docChanged = False, tr_meta = Some (MetaStep direction)\<rparr> v))"

definition clearSearch :: "(jstring \<Rightarrow> jstring) \<Rightarrow> SearchView \<Rightarrow> SearchView option" where
  "clearSearch lower v = setSearchQuery lower [] v"

definition getSearchStatus :: "SearchView \<Rightarrow> int \<times> int" where
  "getSearchStatus v = (int (length (sp_matches (sv_state v))), sp_currentIndex (sv_state v))"

text \<open>The bar: the seed it opens with from the selected text, its keys, and the counter it shows.\<close>

definition find_seed :: "jstring \<Rightarrow> jstring" where
  "find_seed selected = (if str_includes selected [10] then [] else js_trim selected)"

datatype FindKey = FindEscape | FindEnter bool | FindOther

definition find_direction :: "FindKey \<Rightarrow> int option" where
  "find_direction key = (case key of FindEnter shift \<Rightarrow> Some (if shift then - 1 else 1) | _ \<Rightarrow> None)"

definition find_count :: "SearchView \<Rightarrow> jstring" where
  "find_count v = (let (many, currentIndex) = getSearchStatus v; currentDisplay = (if many = 0 then 0 else currentIndex + 1) in
     show_int currentDisplay @ lit '' / '' @ show_int many)"

datatype SearchOp = SetsQuery jstring | Steps bool | Edits DocNodes | ClearsSearch

fun search_step :: "(jstring \<Rightarrow> jstring) \<Rightarrow> SearchView \<Rightarrow> SearchOp \<Rightarrow> SearchView option" where
  "search_step lower v (SetsQuery query) = setSearchQuery lower query v"
| "search_step lower v (Steps forward) = stepSearch lower (if forward then 1 else - 1) v"
| "search_step lower v (Edits doc) = dispatch lower \<lparr>tr_doc = doc, tr_docChanged = True, tr_meta = None\<rparr> v"
| "search_step lower v ClearsSearch = clearSearch lower v"

fun search_run :: "(jstring \<Rightarrow> jstring) \<Rightarrow> SearchView \<Rightarrow> SearchOp list \<Rightarrow> SearchView option" where
  "search_run lower v [] = Some v"
| "search_run lower v (op # ops) = Option.bind (search_step lower v op) (\<lambda>w. search_run lower w ops)"

definition view_init :: "DocNodes \<Rightarrow> SearchView" where
  "view_init doc = \<lparr>sv_doc = doc, sv_state = search_init, sv_scrolled = None\<rparr>"

subsection \<open>The matcher is right\<close>

definition occurs_at :: "jstring \<Rightarrow> jstring \<Rightarrow> nat \<Rightarrow> bool" where
  "occurs_at haystack needle i \<longleftrightarrow> starts_with (drop i haystack) needle"

definition covers :: "MatchRange list \<Rightarrow> nat \<Rightarrow> bool" where
  "covers ranges i \<longleftrightarrow> (\<exists>r \<in> set ranges. mr_from r \<le> int i \<and> int i < mr_to r)"

definition found_from :: "jstring \<Rightarrow> jstring \<Rightarrow> nat \<Rightarrow> MatchRange list \<Rightarrow> bool" where
  "found_from haystack needle cursor ranges \<longleftrightarrow>
     (\<forall>r \<in> set ranges. \<exists>i \<ge> cursor. occurs_at haystack needle i \<and> mr_from r = int i \<and> mr_to r = int (i + length needle))
     \<and> sorted_wrt (\<lambda>a b. mr_to a \<le> mr_from b) ranges
     \<and> (\<forall>i \<ge> cursor. occurs_at haystack needle i \<longrightarrow> covers ranges i)"

lemma occurs_fits: "occurs_at haystack needle i \<Longrightarrow> needle \<noteq> [] \<Longrightarrow> i + length needle \<le> length haystack"
  using prefix_length_le [of needle "drop i haystack"] by (cases needle) (auto simp: occurs_at_def starts_with_prefix)

lemma indexOf_from_None:
  "indexOf_from haystack needle cursor = None \<Longrightarrow> needle \<noteq> [] \<Longrightarrow> cursor \<le> i \<Longrightarrow> \<not> occurs_at haystack needle i"
  using occurs_fits [of haystack needle i] by (auto simp: indexOf_from_def find_None_iff occurs_at_def)

lemma indexOf_from_Some:
  assumes "indexOf_from haystack needle cursor = Some i"
  shows "cursor \<le> i" "occurs_at haystack needle i" "\<And>j. cursor \<le> j \<Longrightarrow> j < i \<Longrightarrow> \<not> occurs_at haystack needle j"
proof -
  obtain n where n: "n < length [cursor..<Suc (length haystack)]" "i = [cursor..<Suc (length haystack)] ! n"
    "starts_with (drop ([cursor..<Suc (length haystack)] ! n) haystack) needle"
    "\<forall>m < n. \<not> starts_with (drop ([cursor..<Suc (length haystack)] ! m) haystack) needle"
    using assms unfolding indexOf_from_def find_Some_iff by blast
  then have i: "i = cursor + n" by (simp del: upt_Suc)
  show "cursor \<le> i" "occurs_at haystack needle i" using n i by (simp_all add: occurs_at_def del: upt_Suc)
  fix j assume "cursor \<le> j" "j < i"
  moreover from this have "j - cursor < n" using i by simp
  ultimately show "\<not> occurs_at haystack needle j" using n(1,4) by (auto simp: occurs_at_def simp del: upt_Suc)
qed

lemma find_loop_found:
  assumes "needle \<noteq> []"
  shows "\<exists>ranges. find_loop haystack needle cursor = Some ranges \<and> found_from haystack needle cursor ranges"
proof (induction "length haystack - cursor" arbitrary: cursor rule: less_induct)
  case less
  show ?case
  proof (cases "indexOf_from haystack needle cursor")
    case None
    then have "found_from haystack needle cursor []" using indexOf_from_None assms by (auto simp: found_from_def)
    then show ?thesis using None by (subst find_loop.simps) simp
  next
    case (Some i)
    note at = indexOf_from_Some [OF Some]
    let ?r = "\<lparr>mr_from = int i, mr_to = int (i + length needle)\<rparr>"
    have fits: "i + length needle \<le> length haystack" using occurs_fits [OF at(2) assms] .
    have "length haystack - (i + length needle) < length haystack - cursor"
      using fits at(1) assms by (cases needle) auto
    from less [OF this] obtain rest where rest: "find_loop haystack needle (i + length needle) = Some rest"
      "found_from haystack needle (i + length needle) rest" by blast
    have "covers (?r # rest) j" if "cursor \<le> j" "occurs_at haystack needle j" for j
      using that at(3) [of j] rest(2) by (cases "i + length needle \<le> j") (auto simp: found_from_def covers_def)
    then have "found_from haystack needle cursor (?r # rest)"
      using rest(2) at unfolding found_from_def by fastforce
    then show ?thesis using Some rest(1) by (subst find_loop.simps) simp
  qed
qed

text \<open>
  Where lower-casing maps each unit by itself, the matcher ends, and its ranges are exactly a
  cover of the occurrences: each is an occurrence of the query up to case inside the text, they
  do not overlap and come in order, and every occurrence starts inside one of them.
\<close>

theorem find_ranges_exact:
  assumes "query \<noteq> []"
  shows "\<exists>ranges. findRanges (map fold_case) text query = Some ranges
    \<and> (\<forall>r \<in> set ranges. \<exists>i. mr_from r = int i \<and> mr_to r = int (i + length query) \<and> i + length query \<le> length text
        \<and> map fold_case (take (length query) (drop i text)) = map fold_case query)
    \<and> sorted_wrt (\<lambda>a b. mr_to a \<le> mr_from b) ranges
    \<and> (\<forall>i. prefix (map fold_case query) (map fold_case (drop i text)) \<longrightarrow> covers ranges i)"
proof -
  have "map fold_case query \<noteq> []" using assms by simp
  from find_loop_found [OF this, of "map fold_case text" 0] obtain ranges where
    r: "find_loop (map fold_case text) (map fold_case query) 0 = Some ranges"
      "found_from (map fold_case text) (map fold_case query) 0 ranges" by blast
  have slice: "i + length query \<le> length text \<and> map fold_case (take (length query) (drop i text)) = map fold_case query"
    if "occurs_at (map fold_case text) (map fold_case query) i" for i
    using occurs_fits [OF that] that assms
    by (auto simp: occurs_at_def starts_with_prefix prefix_def drop_map [symmetric] take_map [symmetric])
  have "findRanges (map fold_case) text query = Some ranges" using r(1) assms by (simp add: findRanges_def)
  moreover have "\<forall>r \<in> set ranges. \<exists>i. mr_from r = int i \<and> mr_to r = int (i + length query) \<and> i + length query \<le> length text
        \<and> map fold_case (take (length query) (drop i text)) = map fold_case query"
    using r(2) slice unfolding found_from_def by (metis length_map)
  moreover have "\<forall>i. prefix (map fold_case query) (map fold_case (drop i text)) \<longrightarrow> covers ranges i"
    using r(2) by (auto simp: found_from_def occurs_at_def starts_with_prefix drop_map)
  ultimately show ?thesis using r(2) unfolding found_from_def by blast
qed

theorem find_ranges_exact_witness:
  "\<exists>ranges. findRanges (map ascii_lower) (lit ''aAaab'') (lit ''aa'') = Some ranges
     \<and> sorted_wrt (\<lambda>a b. mr_to a \<le> mr_from b) ranges \<and> covers ranges 0 \<and> covers ranges 2"
proof -
  have "lit ''aa'' \<noteq> []" by (simp add: lit_def)
  then obtain ranges where "findRanges (map ascii_lower) (lit ''aAaab'') (lit ''aa'') = Some ranges"
    "sorted_wrt (\<lambda>a b. mr_to a \<le> mr_from b) ranges"
    "\<forall>i. prefix (map ascii_lower (lit ''aa'')) (map ascii_lower (drop i (lit ''aAaab''))) \<longrightarrow> covers ranges i"
    using find_ranges_exact [of "lit ''aa''" ascii_lower "lit ''aAaab''"] by blast
  then show ?thesis by (auto simp: lit_def ascii_lower_def)
qed

text \<open>A case mapping that lengthens a text moves its offsets: here the only match is placed past the end of the text.\<close>

definition dotted_lower :: "jstring \<Rightarrow> jstring" where
  "dotted_lower s = concat (map (\<lambda>c. if c = 304 then [105, 775] else [ascii_lower c]) s)"

lemma lengthened_match_drifts:
  "\<exists>ranges. findRanges dotted_lower [304, 120] [120] = Some ranges \<and> map mr_to ranges = [3]"
  by (simp add: findRanges_def dotted_lower_def ascii_lower_def find_loop.simps indexOf_from_def)

subsection \<open>The plugin follows the document\<close>

definition keeps_text :: "(jstring \<Rightarrow> jstring) \<Rightarrow> bool" where "keeps_text lower \<longleftrightarrow> (\<forall>s. lower s = [] \<longrightarrow> s = [])"

lemma those_all: "\<forall>x \<in> set xs. x \<noteq> None \<Longrightarrow> those xs \<noteq> None"
  by (induction xs) (auto split: option.splits)

lemma collect_returns:
  assumes "keeps_text lower"
  shows "\<exists>ms. collectMatches lower doc query = Some ms"
proof -
  have "\<exists>rs. findRanges lower t query = Some rs" if "query \<noteq> []" for t
    using find_loop_found [of "lower query" "lower t" 0] that assms by (auto simp: findRanges_def keeps_text_def)
  then have "\<forall>x \<in> set (map (node_matches lower query) doc). x \<noteq> None" if "query \<noteq> []"
    using that by (force simp: node_matches_def split: option.split)
  then show ?thesis using those_all by (fastforce simp: collectMatches_def)
qed

definition current_ok :: "int \<Rightarrow> MatchRange list \<Rightarrow> bool" where
  "current_ok i ms \<longleftrightarrow> (if ms = [] then i = 0 else 0 \<le> i \<and> i < int (length ms))"

definition search_ok :: "(jstring \<Rightarrow> jstring) \<Rightarrow> DocNodes \<Rightarrow> SearchPluginState \<Rightarrow> bool" where
  "search_ok lower doc s \<longleftrightarrow> collectMatches lower doc (sp_query s) = Some (sp_matches s) \<and> current_ok (sp_currentIndex s) (sp_matches s)
     \<and> sp_decorations s = buildDecorations (sp_matches s) (sp_currentIndex s)"

lemma int_rem_mod: "0 \<le> a \<Longrightarrow> 0 < b \<Longrightarrow> int_rem a b = a mod b"
  by (cases "a = 0") (simp_all add: int_rem_def)

lemma step_in_range: "current_ok i ms \<Longrightarrow> d \<in> {1, -1} \<Longrightarrow> current_ok (stepIndex i (int (length ms)) d) ms"
  by (auto simp: current_ok_def stepIndex_def int_rem_mod)

lemma step_there_and_back:
  assumes "0 \<le> i" "i < n" "d = 1 \<or> d = - 1"
  shows "stepIndex (stepIndex i n d) n (- d) = i"
proof -
  have n: "0 < n" and d: "0 \<le> i + d + n" using assms by auto
  then have j: "stepIndex i n d = (i + d + n) mod n" by (simp add: stepIndex_def int_rem_mod)
  have "0 \<le> (i + d + n) mod n" using n by simp
  then have "0 \<le> (i + d + n) mod n + - d + n" using n assms(3) by linarith
  then have "stepIndex (stepIndex i n d) n (- d) = ((i + d + n) mod n + (n - d)) mod n"
    using n unfolding j by (simp add: stepIndex_def int_rem_mod algebra_simps)
  also have "\<dots> = (i + d + n + (n - d)) mod n" by (rule mod_add_left_eq)
  also have "\<dots> = (i + n * 2) mod n" by (simp add: algebra_simps)
  also have "\<dots> = i" using assms by simp
  finally show ?thesis .
qed

lemma recompute_ok:
  assumes "keeps_text lower"
  shows "\<exists>s. recompute lower doc query i = Some s \<and> search_ok lower doc s \<and> sp_query s = query"
proof -
  obtain ms where "collectMatches lower doc query = Some ms" using collect_returns [OF assms] by blast
  then show ?thesis by (cases "ms = []") (simp_all add: recompute_def search_ok_def current_ok_def Let_def)
qed

lemma unsearched: "sp_query s = [] \<Longrightarrow> search_ok lower doc s \<Longrightarrow> search_ok lower doc' s"
  by (auto simp: search_ok_def collectMatches_def)

fun next_doc :: "DocNodes \<Rightarrow> SearchOp \<Rightarrow> DocNodes" where
  "next_doc doc (Edits edited) = edited"
| "next_doc doc _ = doc"

fun next_query :: "jstring \<Rightarrow> SearchOp \<Rightarrow> jstring" where
  "next_query query (SetsQuery q) = q"
| "next_query query ClearsSearch = []"
| "next_query query _ = query"

lemma scrolled_state [simp]:
  "sv_state (scrollCurrentMatchIntoView v) = sv_state v" "sv_doc (scrollCurrentMatchIntoView v) = sv_doc v"
  by (simp_all add: scrollCurrentMatchIntoView_def Let_def)

lemma set_query_ok:
  assumes "keeps_text lower"
  shows "\<exists>w. setSearchQuery lower query v = Some w \<and> search_ok lower (sv_doc v) (sv_state w) \<and> sv_doc w = sv_doc v
    \<and> sp_query (sv_state w) = query"
  using recompute_ok [OF assms, of "sv_doc v" query 0] by (auto simp: setSearchQuery_def dispatch_def search_apply_def)

lemma search_step_ok:
  assumes "keeps_text lower" "search_ok lower (sv_doc v) (sv_state v)"
  shows "\<exists>w. search_step lower v op = Some w \<and> search_ok lower (sv_doc w) (sv_state w)
    \<and> sv_doc w = next_doc (sv_doc v) op \<and> sp_query (sv_state w) = next_query (sp_query (sv_state v)) op"
proof (cases op)
  case (SetsQuery query)
  then show ?thesis using set_query_ok [OF assms(1), of query v] by auto
next
  case ClearsSearch
  then show ?thesis using set_query_ok [OF assms(1), of "[]" v] by (auto simp: clearSearch_def)
next
  case (Steps forward)
  then show ?thesis
    using assms(2) step_in_range [of "sp_currentIndex (sv_state v)" "sp_matches (sv_state v)" "if forward then 1 else - 1"]
    by (auto simp: stepSearch_def dispatch_def search_apply_def search_ok_def Let_def)
next
  case (Edits doc)
  then show ?thesis
    using assms(2) recompute_ok [OF assms(1), of doc "sp_query (sv_state v)" "sp_currentIndex (sv_state v)"]
    by (cases "sp_query (sv_state v) = []") (auto simp: dispatch_def search_apply_def intro: unsearched)
qed

lemma search_run_ok:
  assumes "keeps_text lower" "search_ok lower (sv_doc v) (sv_state v)"
  shows "\<exists>w. search_run lower v ops = Some w \<and> search_ok lower (sv_doc w) (sv_state w)
    \<and> sv_doc w = foldl next_doc (sv_doc v) ops \<and> sp_query (sv_state w) = foldl next_query (sp_query (sv_state v)) ops"
  using assms(2)
proof (induction ops arbitrary: v)
  case (Cons op ops)
  obtain w where w: "search_step lower v op = Some w" "search_ok lower (sv_doc w) (sv_state w)"
    "sv_doc w = next_doc (sv_doc v) op" "sp_query (sv_state w) = next_query (sp_query (sv_state v)) op"
    using search_step_ok [OF assms(1) Cons.prems] by blast
  show ?case using Cons.IH [OF w(2)] w(1,3,4) by simp
qed simp

lemma decorations_nth:
  "i < length ms \<Longrightarrow> buildDecorations ms current ! i = (ms ! i, if int i = current
     then SEARCH_MATCH_CLASS @ lit '' '' @ SEARCH_MATCH_CURRENT_CLASS else SEARCH_MATCH_CLASS)"
  by (simp add: buildDecorations_def nth_enumerate_eq)

text \<open>
  C29. Whatever is searched for, stepped through, cleared and edited underneath an open bar,
  with a lower-casing that empties no text, every operation returns, and the bar then holds the
  matches of the last query in the document as it now is, its index names one of them (or zero
  when there are none), and exactly that one is drawn as the current one.
\<close>

theorem search_follows_document:
  assumes "keeps_text lower"
  shows "\<exists>v. search_run lower (view_init doc) ops = Some v \<and> sv_doc v = foldl next_doc doc ops
    \<and> (let s = sv_state v in
         collectMatches lower (sv_doc v) (foldl next_query [] ops) = Some (sp_matches s)
       \<and> current_ok (sp_currentIndex s) (sp_matches s) \<and> length (sp_decorations s) = length (sp_matches s)
       \<and> (\<forall>i < length (sp_matches s). sp_decorations s ! i = (sp_matches s ! i, if int i = sp_currentIndex s
              then SEARCH_MATCH_CLASS @ lit '' '' @ SEARCH_MATCH_CURRENT_CLASS else SEARCH_MATCH_CLASS)))"
proof -
  have "search_ok lower (sv_doc (view_init doc)) (sv_state (view_init doc))"
    by (simp add: view_init_def search_init_def search_ok_def collectMatches_def current_ok_def buildDecorations_def)
  from search_run_ok [OF assms this, of ops] show ?thesis
    by (auto simp: Let_def search_ok_def view_init_def search_init_def decorations_nth)
      (simp add: buildDecorations_def)
qed

theorem search_follows_document_witness:
  "\<exists>v. search_run (map ascii_lower) (view_init [(1, Some (lit ''Aa''))]) [SetsQuery (lit ''a''), Steps False] = Some v
     \<and> sp_currentIndex (sv_state v) < int (length (sp_matches (sv_state v)))"
proof -
  have "keeps_text (map ascii_lower)" by (simp add: keeps_text_def)
  from search_follows_document [OF this, of "[(1, Some (lit ''Aa''))]" "[SetsQuery (lit ''a''), Steps False]"]
  obtain v where v: "search_run (map ascii_lower) (view_init [(1, Some (lit ''Aa''))]) [SetsQuery (lit ''a''), Steps False] = Some v"
    "sv_doc v = [(1, Some (lit ''Aa''))]" "collectMatches (map ascii_lower) (sv_doc v) (lit ''a'') = Some (sp_matches (sv_state v))"
    "current_ok (sp_currentIndex (sv_state v)) (sp_matches (sv_state v))" by (auto simp: Let_def)
  then have "sp_matches (sv_state v) \<noteq> []"
    by (auto simp: collectMatches_def node_matches_def findRanges_def find_loop.simps indexOf_from_def lit_def ascii_lower_def)
  then show ?thesis using v by (auto simp: current_ok_def)
qed

subsection \<open>The slash menu\<close>

datatype SlashRun = ToggleHeading nat | ToggleBulletList | ToggleOrderedList | ToggleTaskList | ToggleBlockquote | ToggleCodeBlock
  | InsertMermaidDiagram | SetHorizontalRule

record SlashItem =
  sl_title :: jstring
  sl_hint :: jstring
  sl_keywords :: "jstring list"
  sl_run :: SlashRun

definition SLASH_ITEMS :: "SlashItem list" where
  "SLASH_ITEMS =
    [\<lparr>sl_title = lit ''Heading 1'', sl_hint = lit ''Large section heading'', sl_keywords = map lit [''h1'', ''title'', ''heading''],
       sl_run = ToggleHeading 1\<rparr>,
     \<lparr>sl_title = lit ''Heading 2'', sl_hint = lit ''Medium section heading'', sl_keywords = map lit [''h2'', ''subheading'', ''heading''],
       sl_run = ToggleHeading 2\<rparr>,
     \<lparr>sl_title = lit ''Heading 3'', sl_hint = lit ''Small section heading'', sl_keywords = map lit [''h3'', ''heading''],
       sl_run = ToggleHeading 3\<rparr>,
     \<lparr>sl_title = lit ''Bullet list'', sl_hint = lit ''An unordered list'', sl_keywords = map lit [''ul'', ''bullet'', ''unordered'', ''list''],
       sl_run = ToggleBulletList\<rparr>,
     \<lparr>sl_title = lit ''Numbered list'', sl_hint = lit ''An ordered list'', sl_keywords = map lit [''ol'', ''ordered'', ''number'', ''list''],
       sl_run = ToggleOrderedList\<rparr>,
     \<lparr>sl_title = lit ''To-do list'', sl_hint = lit ''A checklist of tasks'',
       sl_keywords = map lit [''todo'', ''task'', ''checkbox'', ''check'', ''list''], sl_run = ToggleTaskList\<rparr>,
     \<lparr>sl_title = lit ''Quote'', sl_hint = lit ''A block quotation'', sl_keywords = map lit [''quote'', ''blockquote'', ''citation''],
       sl_run = ToggleBlockquote\<rparr>,
     \<lparr>sl_title = lit ''Code block'', sl_hint = lit ''A fenced code block'', sl_keywords = map lit [''code'', ''fence'', ''pre'', ''snippet''],
       sl_run = ToggleCodeBlock\<rparr>,
     \<lparr>sl_title = lit ''Mermaid diagram'', sl_hint = lit ''A flowchart or diagram'',
       sl_keywords = map lit [''mermaid'', ''diagram'', ''flowchart'', ''graph'', ''chart''], sl_run = InsertMermaidDiagram\<rparr>,
     \<lparr>sl_title = lit ''Divider'', sl_hint = lit ''A horizontal rule'', sl_keywords = map lit [''divider'', ''rule'', ''hr'', ''separator'', ''line''],
       sl_run = SetHorizontalRule\<rparr>]"

definition filterSlashItems :: "(jstring \<Rightarrow> jstring) \<Rightarrow> jstring \<Rightarrow> SlashItem list" where
  "filterSlashItems lower query =
     (let q = lower (js_trim query) in
      if q = [] then SLASH_ITEMS
      else filter (\<lambda>item. str_includes (lower (sl_title item)) q \<or> list_ex (\<lambda>keyword. str_includes keyword q) (sl_keywords item)) SLASH_ITEMS)"

text \<open>
  \<open>SlashCommandMenu\<close>: the highlighted row, the items of its query and the items run. A key answers whether it was handled.
\<close>

datatype MenuKey = MenuDown | MenuUp | MenuEnter | MenuOther

record SlashMenu =
  sm_items :: "SlashItem list"
  sm_active :: int
  sm_commands :: "SlashItem list"

definition menu_mounts :: "SlashItem list \<Rightarrow> SlashMenu" where
  "menu_mounts items = \<lparr>sm_items = items, sm_active = 0, sm_commands = []\<rparr>"

definition menu_key :: "MenuKey \<Rightarrow> SlashMenu \<Rightarrow> bool \<times> SlashMenu" where
  "menu_key key s =
     (let n = int (length (sm_items s)) in
      if sm_items s = [] then (False, s)
      else case key of
        MenuDown \<Rightarrow> (True, s\<lparr>sm_active := int_rem (sm_active s + 1) n\<rparr>)
      | MenuUp \<Rightarrow> (True, s\<lparr>sm_active := int_rem (sm_active s - 1 + n) n\<rparr>)
      | MenuEnter \<Rightarrow> (True, if 0 \<le> sm_active s \<and> sm_active s < n
            then s\<lparr>sm_commands := sm_commands s @ [sm_items s ! nat (sm_active s)]\<rparr> else s)
      | MenuOther \<Rightarrow> (False, s))"

definition menu_hover :: "nat \<Rightarrow> SlashMenu \<Rightarrow> SlashMenu" where
  "menu_hover i s = (if i < length (sm_items s) then s\<lparr>sm_active := int i\<rparr> else s)"

definition menu_run :: "SlashItem list \<Rightarrow> (MenuKey + nat) list \<Rightarrow> SlashMenu" where
  "menu_run items ops = foldl (\<lambda>s op. case op of Inl key \<Rightarrow> snd (menu_key key s) | Inr i \<Rightarrow> menu_hover i s) (menu_mounts items) ops"

definition menu_ok :: "SlashItem list \<Rightarrow> SlashMenu \<Rightarrow> bool" where
  "menu_ok items s \<longleftrightarrow> sm_items s = items \<and> 0 \<le> sm_active s \<and> (items \<noteq> [] \<longrightarrow> sm_active s < int (length items))
     \<and> set (sm_commands s) \<subseteq> set items"

lemma menu_key_ok: "menu_ok items s \<Longrightarrow> menu_ok items (snd (menu_key key s))"
  by (cases key) (auto simp: menu_ok_def menu_key_def Let_def int_rem_mod)

lemma menu_active_in_range: "menu_ok items (menu_run items ops)"
  unfolding menu_run_def
  by (induction ops rule: rev_induct)
    (auto simp: menu_mounts_def menu_key_ok menu_hover_def split: sum.split, auto simp: menu_ok_def)

lemma empty_query_lists_all: "lower [] = [] \<Longrightarrow> filterSlashItems lower [] = SLASH_ITEMS"
  by (simp add: filterSlashItems_def)

end
