(* ===== verification/SidebarKeys.thy ===== *)
theory SidebarKeys
  imports Grouping Hotkeys
begin

section \<open>The sidebar's keys and menus\<close>

text \<open>
  Under \<open>components/sidebar/\<close>: the actions a project offers (\<open>projectActions.ts\<close>), the look-ups in the grouped tree
  (\<open>sidebarNav.ts\<close>) and the key handler (\<open>useSidebarHotkeys.ts\<close>). A handler's callbacks are values it returns: what it
  selects, restarts or collapses, whether it takes the key, and the row it focuses.
\<close>

subsection \<open>The project menu\<close>

datatype SidebarCall = CallStartAll | CallRestartRunning | CallStopAll | CallOpenOrchestration | CallOpenProjectSettings
  | CallRemoveProject | CallMoveUp | CallMoveDown

text \<open>The two moves are offered or are \<open>null\<close>; the other handlers are always there.\<close>

record ProjectActionHandlers =
  ph_moveUp :: bool
  ph_moveDown :: bool

record ProjectAction =
  pa_id :: jstring
  pa_label :: jstring
  pa_icon :: string
  pa_run :: SidebarCall

datatype ProjectSectionId = SecBulk | SecViews | SecArrange | SecDanger

record ProjectActionSection =
  ps_id :: ProjectSectionId
  ps_actions :: "ProjectAction list"
  ps_destructive :: bool

definition project_action :: "string \<Rightarrow> string \<Rightarrow> string \<Rightarrow> SidebarCall \<Rightarrow> ProjectAction" where
  "project_action i label icon run = \<lparr>pa_id = lit i, pa_label = lit label, pa_icon = icon, pa_run = run\<rparr>"

definition projectActions :: "ProjectActionHandlers \<Rightarrow> ProjectActionSection list" where
  "projectActions handlers =
     (let arrange = (if ph_moveUp handlers then [project_action ''move-up'' ''Move up'' ''ArrowUp'' CallMoveUp] else [])
          @ (if ph_moveDown handlers then [project_action ''move-down'' ''Move down'' ''ArrowDown'' CallMoveDown] else []);
        sections =
          [\<lparr>ps_id = SecBulk, ps_actions =
              [project_action ''start-all'' ''Start all'' ''Play'' CallStartAll,
               project_action ''restart-running'' ''Restart running'' ''RotateCw'' CallRestartRunning,
               project_action ''stop-all'' ''Stop all'' ''Square'' CallStopAll], ps_destructive = False\<rparr>,
           \<lparr>ps_id = SecViews, ps_actions =
              [project_action ''orchestration'' ''Orchestration'' ''Network'' CallOpenOrchestration,
               project_action ''project-settings'' ''Project settings'' ''Settings'' CallOpenProjectSettings], ps_destructive = False\<rparr>,
           \<lparr>ps_id = SecArrange, ps_actions = arrange, ps_destructive = False\<rparr>,
           \<lparr>ps_id = SecDanger, ps_actions = [project_action ''remove-project'' ''Remove project'' ''Trash2'' CallRemoveProject],
             ps_destructive = True\<rparr>]
      in filter (\<lambda>section. length (ps_actions section) > 0) sections)"

subsection \<open>Look-ups in the tree\<close>

definition holds_process :: "int \<Rightarrow> ProcessGroup \<Rightarrow> bool" where
  "holds_process selectedId g \<longleftrightarrow> list_ex (\<lambda>p. pv_id p = selectedId) (pg_processes g)"

definition findSelectedTree :: "ProjectTree list \<Rightarrow> int option \<Rightarrow> ProjectTree option" where
  "findSelectedTree trees selectedId = (case selectedId of None \<Rightarrow> None
     | Some i \<Rightarrow> find (\<lambda>tree. list_ex (holds_process i) (pt_kinds tree)) trees)"

definition selectedKind :: "ProjectTree \<Rightarrow> int \<Rightarrow> ProcessKind option" where
  "selectedKind tree selectedId = map_option pg_kind (find (holds_process selectedId) (pt_kinds tree))"

definition head_of :: "'a list \<Rightarrow> 'a option" where
  "head_of xs = (case xs of [] \<Rightarrow> None | x # _ \<Rightarrow> Some x)"

definition firstProcessInTree :: "ProjectTree \<Rightarrow> ProcessView option" where
  "firstProcessInTree tree = Option.bind (find (\<lambda>group. length (pg_processes group) > 0) (pt_kinds tree)) (\<lambda>group. head_of (pg_processes group))"

definition firstOfKind :: "ProjectTree \<Rightarrow> ProcessKind \<Rightarrow> ProcessView option" where
  "firstOfKind tree kind = Option.bind (find (\<lambda>k. pg_kind k = kind) (pt_kinds tree)) (\<lambda>k. head_of (pg_processes k))"

subsection \<open>The key handler\<close>

datatype SidebarEffect = SbSelect int | SbRestart int | SbSetCollapsed jstring bool

text \<open>\<open>findIndex\<close> with its \<open>-1\<close>, and reading an array at an index it may not have.\<close>

fun index_where :: "('a \<Rightarrow> bool) \<Rightarrow> 'a list \<Rightarrow> int" where
  "index_where P [] = - 1"
| "index_where P (x # xs) = (if P x then 0 else let i = index_where P xs in if i = - 1 then - 1 else i + 1)"

definition element :: "'a list \<Rightarrow> int \<Rightarrow> 'a option" where
  "element xs i = (if 0 \<le> i \<and> nat i < length xs then Some (xs ! nat i) else None)"

definition selects :: "ProcessView option \<Rightarrow> SidebarEffect list" where
  "selects process = (case process of None \<Rightarrow> [] | Some p \<Rightarrow> [SbSelect (pv_id p)])"

definition neighbour_group :: "ProjectTree list \<Rightarrow> ProjectTree option \<Rightarrow> int \<Rightarrow> SidebarEffect list" where
  "neighbour_group trees currentTree offset = (case currentTree of None \<Rightarrow> []
     | Some tree \<Rightarrow>
         let idx = index_where (\<lambda>t. pj_id (pt_project t) = pj_id (pt_project tree)) trees in
         selects (Option.bind (element trees (idx + offset)) firstProcessInTree))"

definition neighbour_section :: "ProjectTree option \<Rightarrow> int option \<Rightarrow> int \<Rightarrow> SidebarEffect list" where
  "neighbour_section currentTree selectedId offset = (case (currentTree, selectedId) of
       (Some tree, Some i) \<Rightarrow>
         (case selectedKind tree i of None \<Rightarrow> []
          | Some kind \<Rightarrow>
              let kinds = filter (\<lambda>k. length (pg_processes k) > 0) (pt_kinds tree) in
              selects (Option.bind (element kinds (index_where (\<lambda>k. pg_kind k = kind) kinds + offset)) (\<lambda>k. head_of (pg_processes k))))
     | _ \<Rightarrow> [])"

definition in_current :: "ProjectTree option \<Rightarrow> (ProjectTree \<Rightarrow> ProcessView option) \<Rightarrow> SidebarEffect list" where
  "in_current currentTree first = selects (Option.bind currentTree first)"

definition collapses :: "ProjectTree option \<Rightarrow> bool \<Rightarrow> SidebarEffect list" where
  "collapses currentTree v = (case currentTree of None \<Rightarrow> []
     | Some tree \<Rightarrow> [SbSetCollapsed (projectCollapseKey (pj_id (pt_project tree))) v])"

text \<open>The switch; \<open>None\<close> is its default, which leaves the key alone.\<close>

definition sidebar_action :: "ProjectTree list \<Rightarrow> int option \<Rightarrow> HotkeyAction \<Rightarrow> SidebarEffect list option" where
  "sidebar_action trees selectedId action =
     (let currentTree = findSelectedTree trees selectedId in
      if action = restart_selection then Some (case selectedId of None \<Rightarrow> [] | Some i \<Rightarrow> [SbRestart i])
      else if action = next_project_group then Some (neighbour_group trees currentTree 1)
      else if action = prev_project_group then Some (neighbour_group trees currentTree (- 1))
      else if action = next_section then Some (neighbour_section currentTree selectedId 1)
      else if action = prev_section then Some (neighbour_section currentTree selectedId (- 1))
      else if action = jump_to_agents then Some (in_current currentTree (\<lambda>tree. firstOfKind tree Agent))
      else if action = jump_to_commands then Some (in_current currentTree (\<lambda>tree. firstOfKind tree Command))
      else if action = jump_to_terminals then Some (in_current currentTree (\<lambda>tree. firstOfKind tree Terminal))
      else if action = collapse_or_section then Some (collapses currentTree True)
      else if action = expand_project then Some (collapses currentTree False)
      else if action = jump_to_parent_project then Some (in_current currentTree firstProcessInTree)
      else None)"

text \<open>
  The event: whether it comes from a text field, its key, the tree rows on screen with the number each carries (\<open>None\<close> where it
  is not finite), and which of them has the focus.
\<close>

record SidebarEvent =
  se_editable :: bool
  se_key :: KeyEvent
  se_rows :: "int option list"
  se_focused :: "nat option"

record SidebarResponse =
  sr_effects :: "SidebarEffect list"
  sr_focus :: "nat option"
  sr_prevented :: bool

definition unhandled :: SidebarResponse where
  "unhandled = \<lparr>sr_effects = [], sr_focus = None, sr_prevented = False\<rparr>"

definition native_key :: "KeyEvent \<Rightarrow> bool" where
  "native_key event \<longleftrightarrow> \<not> ke_alt event \<and> \<not> ke_ctrl event \<and> \<not> ke_meta event \<and> \<not> ke_shift event
     \<and> ke_key event \<in> {lit ''ArrowUp'', lit ''ArrowDown'', lit ''Home'', lit ''End''}"

definition native_target :: "jstring \<Rightarrow> int \<Rightarrow> int \<Rightarrow> int" where
  "native_target key rows current =
     (if key = lit ''Home'' then 0
      else if key = lit ''End'' then rows - 1
      else if key = lit ''ArrowUp'' then max 0 (if current \<le> 0 then 0 else current - 1)
      else min (rows - 1) (current + 1))"

definition handleKeyDown ::
  "HotkeyBindingView list \<Rightarrow> ProjectTree list \<Rightarrow> int option \<Rightarrow> SidebarEvent \<Rightarrow> SidebarResponse" where
  "handleKeyDown bindings trees selectedId event =
     (if se_editable event then unhandled
      else if native_key (se_key event) then
        (let rows = se_rows event; current = (case se_focused event of None \<Rightarrow> - 1 | Some i \<Rightarrow> int i);
             target = native_target (ke_key (se_key event)) (int (length rows)) current in
         if rows = [] then unhandled
         else case Option.bind (element rows target) (\<lambda>i. i) of
           None \<Rightarrow> unhandled
         | Some i \<Rightarrow> \<lparr>sr_effects = [SbSelect i], sr_focus = Some (nat target), sr_prevented = True\<rparr>)
      else case bindingFromEvent (se_key event) of None \<Rightarrow> unhandled
        | Some pressed \<Rightarrow>
            (case Option.bind (matchHotkey bindings HkSidebar pressed (\<lambda>_. True)) (sidebar_action trees selectedId) of
               None \<Rightarrow> unhandled
             | Some effects \<Rightarrow> \<lparr>sr_effects = effects, sr_focus = None, sr_prevented = True\<rparr>))"

subsection \<open>Facts\<close>

definition tree_ids :: "ProjectTree \<Rightarrow> int set" where
  "tree_ids tree = (\<Union>k \<in> set (pt_kinds tree). pv_id ` set (pg_processes k))"

lemma element_in: "element xs i = Some x \<Longrightarrow> x \<in> set xs"
  by (auto simp: element_def split: if_splits)

lemma head_in: "head_of xs = Some x \<Longrightarrow> x \<in> set xs"
  by (cases xs) (auto simp: head_of_def)

lemma find_in: "find P xs = Some x \<Longrightarrow> x \<in> set xs \<and> P x"
  by (auto simp: find_Some_iff)

lemma first_in_tree: "firstProcessInTree tree = Some p \<Longrightarrow> pv_id p \<in> tree_ids tree"
  unfolding firstProcessInTree_def tree_ids_def by (auto simp: bind_eq_Some_conv dest!: find_in head_in)

lemma first_of_kind: "firstOfKind tree kind = Some p \<Longrightarrow> pv_id p \<in> tree_ids tree"
  unfolding firstOfKind_def tree_ids_def by (auto simp: bind_eq_Some_conv dest!: find_in head_in)

lemma selected_tree:
  assumes "findSelectedTree trees (Some i) = Some tree"
  shows "tree \<in> set trees" "i \<in> tree_ids tree"
  using find_in [OF assms [unfolded findSelectedTree_def, simplified]]
  by (auto simp: list_ex_iff holds_process_def tree_ids_def)

text \<open>What an effect may be: a listed process selected, the selected one restarted, or a listed project collapsed.\<close>

definition about_listed :: "ProjectTree list \<Rightarrow> int option \<Rightarrow> SidebarEffect \<Rightarrow> bool" where
  "about_listed trees selectedId effect \<longleftrightarrow> (case effect of
       SbSelect i \<Rightarrow> \<exists>tree \<in> set trees. i \<in> tree_ids tree
     | SbRestart i \<Rightarrow> selectedId = Some i
     | SbSetCollapsed k v \<Rightarrow> \<exists>tree \<in> set trees. k = projectCollapseKey (pj_id (pt_project tree))
         \<and> (\<exists>i. selectedId = Some i \<and> i \<in> tree_ids tree))"

definition all_listed :: "ProjectTree list \<Rightarrow> int option \<Rightarrow> SidebarEffect list \<Rightarrow> bool" where
  "all_listed trees selectedId effects \<longleftrightarrow> length effects \<le> 1 \<and> list_all (about_listed trees selectedId) effects"

lemma selects_listed:
  "(\<And>p. process = Some p \<Longrightarrow> \<exists>tree \<in> set trees. pv_id p \<in> tree_ids tree) \<Longrightarrow> all_listed trees s (selects process)"
  by (cases process) (auto simp: selects_def all_listed_def about_listed_def)

lemma neighbour_group_listed: "all_listed trees s (neighbour_group trees tree offset)"
proof (cases tree)
  case None
  then show ?thesis by (simp add: neighbour_group_def all_listed_def)
next
  case (Some t)
  show ?thesis unfolding neighbour_group_def Some option.case Let_def
    by (rule selects_listed) (auto simp: bind_eq_Some_conv dest!: element_in first_in_tree)
qed

lemma current_listed:
  assumes "\<And>tree p. first tree = Some p \<Longrightarrow> pv_id p \<in> tree_ids tree"
  shows "all_listed trees s (in_current (findSelectedTree trees s) first)"
  unfolding in_current_def using assms selected_tree
  by (intro selects_listed) (auto simp: bind_eq_Some_conv findSelectedTree_def split: option.splits dest!: find_in)

lemma collapses_listed: "all_listed trees s (collapses (findSelectedTree trees s) v)"
proof (cases "findSelectedTree trees s")
  case (Some tree)
  then obtain i where "s = Some i" by (cases s) (auto simp: findSelectedTree_def)
  then show ?thesis using Some selected_tree [of trees i tree] by (auto simp: collapses_def all_listed_def about_listed_def)
qed (simp add: collapses_def all_listed_def)

lemma section_in_tree:
  assumes "Option.bind (element (filter P (pt_kinds tree)) i) (\<lambda>k. head_of (pg_processes k)) = Some p"
  shows "pv_id p \<in> tree_ids tree"
  using assms by (auto simp: bind_eq_Some_conv tree_ids_def dest!: element_in head_in)

lemma neighbour_section_listed: "all_listed trees s (neighbour_section (findSelectedTree trees s) s offset)"
proof (cases "findSelectedTree trees s")
  case None
  then show ?thesis by (simp add: neighbour_section_def all_listed_def)
next
  case (Some tree)
  then obtain i where i: "s = Some i" by (cases s) (auto simp: findSelectedTree_def)
  then have tree: "tree \<in> set trees" using Some selected_tree by simp
  show ?thesis
  proof (cases "selectedKind tree i")
    case None
    then show ?thesis using Some i by (simp add: neighbour_section_def all_listed_def)
  next
    case (Some kind)
    then show ?thesis
      unfolding neighbour_section_def i \<open>findSelectedTree trees s = Some tree\<close> [unfolded i] prod.case option.case Some Let_def
      using tree by (intro selects_listed) (blast dest: section_in_tree)
  qed
qed

lemmas listed_effects = neighbour_group_listed current_listed [OF first_of_kind] current_listed [OF first_in_tree]
  collapses_listed neighbour_section_listed


definition arrow_down :: SidebarEvent where
  "arrow_down = \<lparr>se_editable = False, se_key = \<lparr>ke_key = lit ''ArrowDown'', ke_ctrl = False, ke_alt = False, ke_shift = False,
     ke_meta = False\<rparr>, se_rows = [Some 3, Some 5], se_focused = Some 0\<rparr>"


subsection \<open>Sections there and back\<close>

lemma find_index_nth:
  assumes "distinct (map f xs)" "n < length xs"
  shows "index_where (\<lambda>x. f x = f (xs ! n)) xs = int n"
  using assms
proof (induction xs arbitrary: n)
  case (Cons x xs)
  show ?case
  proof (cases n)
    case (Suc m)
    then have m: "m < length xs" and "distinct (map f xs)" and "f x \<noteq> f (xs ! m)" using Cons.prems by auto
    then show ?thesis using Cons.IH [of m] Suc by (simp add: Let_def)
  qed simp
qed simp

lemma find_unique:
  assumes "x \<in> set xs" "P x" "\<And>y. y \<in> set xs \<Longrightarrow> P y \<Longrightarrow> y = x"
  shows "find P xs = Some x"
  using assms
proof (induction xs)
  case (Cons a xs)
  show ?case
  proof (cases "P a")
    case True
    then have "a = x" using Cons.prems(3) [of a] by simp
    then show ?thesis using True by simp
  next
    case False
    then have "x \<in> set xs" using Cons.prems(1,2) by auto
    then have "find P xs = Some x" by (rule Cons.IH) (rule Cons.prems(2), rule Cons.prems(3), simp_all)
    then show ?thesis using False by simp
  qed
qed simp

definition groups_apart :: "ProjectTree \<Rightarrow> bool" where
  "groups_apart tree \<longleftrightarrow> distinct (map pg_kind (pt_kinds tree))
     \<and> (\<forall>a \<in> set (pt_kinds tree). \<forall>b \<in> set (pt_kinds tree). \<forall>p \<in> set (pg_processes a). \<forall>q \<in> set (pg_processes b).
          pv_id p = pv_id q \<longrightarrow> a = b)"

lemma kind_of_listed:
  assumes "groups_apart tree" "g \<in> set (pt_kinds tree)" "p \<in> set (pg_processes g)"
  shows "find (holds_process (pv_id p)) (pt_kinds tree) = Some g"
  using assms by (intro find_unique) (auto simp: groups_apart_def holds_process_def list_ex_iff)

text \<open>Going on to the next section and back to the previous one lands on the first process of the section left.\<close>

lemma section_there_and_back:
  assumes apart: "groups_apart tree" and kind: "selectedKind tree i = Some kind"
    and moved: "neighbour_section (Some tree) (Some i) 1 = [SbSelect j]"
  shows "neighbour_section (Some tree) (Some j) (- 1) = selects (firstOfKind tree kind) \<and> firstOfKind tree kind \<noteq> None"
proof -
  let ?ks = "filter (\<lambda>k. pg_processes k \<noteq> []) (pt_kinds tree)"
  obtain g where g: "find (holds_process i) (pt_kinds tree) = Some g" "kind = pg_kind g"
    using kind by (auto simp: selectedKind_def)
  then have gin: "g \<in> set (pt_kinds tree)" "g \<in> set ?ks" "pg_processes g \<noteq> []"
    using find_in [OF g(1)] by (auto simp: holds_process_def list_ex_iff)
  have dk: "distinct (map pg_kind ?ks)"
    using apart by (auto simp: groups_apart_def intro: distinct_map_filter)
  obtain n where n: "n < length ?ks" "?ks ! n = g" using gin(2) unfolding in_set_conv_nth by blast
  then have at_g: "index_where (\<lambda>k. pg_kind k = kind) ?ks = int n" using find_index_nth [OF dk n(1)] g(2) by simp
  obtain h p where h: "element ?ks (int n + 1) = Some h" "head_of (pg_processes h) = Some p" "j = pv_id p"
    using moved kind unfolding neighbour_section_def selects_def
    by (auto simp: at_g Let_def bind_eq_Some_conv split: option.splits)
  then have m: "Suc n < length ?ks" "?ks ! Suc n = h" by (auto simp: element_def nat_add_distrib split: if_splits)
  then have hin: "h \<in> set (pt_kinds tree)" using nth_mem [OF m(1)] by simp
  have "selectedKind tree j = Some (pg_kind h)"
    using kind_of_listed [OF apart hin head_in [OF h(2)]] h(3) by (simp add: selectedKind_def)
  moreover have "index_where (\<lambda>k. pg_kind k = pg_kind h) ?ks = int (Suc n)" using find_index_nth [OF dk m(1)] m(2) by simp
  moreover have "element ?ks (int n) = Some g" using n by (simp add: element_def)
  moreover have "firstOfKind tree kind = head_of (pg_processes g)"
  proof -
    have "find (\<lambda>k. pg_kind k = kind) (pt_kinds tree) = Some g"
      using gin(1) g(2) apart by (intro find_unique) (auto simp: groups_apart_def distinct_map inj_on_def)
    then show ?thesis by (simp add: firstOfKind_def)
  qed
  ultimately show ?thesis using gin(3) by (simp add: neighbour_section_def Let_def head_of_def split: list.split)
qed

lemma move_offered_iff:
  "SecArrange \<in> ps_id ` set (projectActions handlers) \<longleftrightarrow> ph_moveUp handlers \<or> ph_moveDown handlers"
  by (auto simp: projectActions_def Let_def)

lemma removal_is_last_and_alone:
  "ps_id (last (projectActions handlers)) = SecDanger \<and> filter ps_destructive (projectActions handlers) = [last (projectActions handlers)]"
  by (auto simp: projectActions_def Let_def)

end
