(* ===== verification/TerminalPane.thy ===== *)
theory TerminalPane
  imports Prelude
begin

section \<open>A terminal pane\<close>

text \<open>
  \<open>components/terminal/useTerminal.ts\<close>: the attachment of a pane to its process, with its link readout and its size. The emulator
  is not modelled: what the pane calls on it is a value, and a stream is the ticket of its opening; \<open>PtyStream\<close> models what flows
  through it, and \<open>TerminalTools\<close> the keys, the search and the clipboard of a pane.
\<close>

subsection \<open>The attachment\<close>

datatype TerminalState = TermAttaching | TermLive | TermNotStarted

definition ATTACH_RETRY_MS :: nat where "ATTACH_RETRY_MS = 120"

datatype PaneCall = CancelStream nat | ResumeStream nat | ResetTerminal | FocusTerminal | ResizePty | InsertText jstring

text \<open>
  The hook: its refs (an emulator while it is mounted, the stream attached), the attaches not settled yet, its state and link
  readout, the props it reads (visibility, whether the status is active, the focus setting), the armed retry and what it called.
\<close>

record Pane =
  tp_term :: bool
  tp_stream :: "nat option"
  tp_next :: nat
  tp_pending :: "nat list"
  tp_rejected :: "nat list"
  tp_state :: TerminalState
  tp_linkTarget :: "jstring option"
  tp_visible :: bool
  tp_active :: bool
  tp_focus_on_click :: bool
  tp_retry :: bool
  tp_calls :: "PaneCall list"

definition pane_calls :: "PaneCall list \<Rightarrow> Pane \<Rightarrow> Pane" where
  "pane_calls cs s = s\<lparr>tp_calls := tp_calls s @ cs\<rparr>"

definition focusIfEnabled :: "Pane \<Rightarrow> Pane" where
  "focusIfEnabled s = (if tp_focus_on_click s \<and> tp_term s then pane_calls [FocusTerminal] s else s)"

definition pane_attach :: "Pane \<Rightarrow> Pane" where
  "pane_attach s =
     (if \<not> tp_term s \<or> tp_stream s \<noteq> None then s
      else s\<lparr>tp_state := TermAttaching, tp_stream := Some (tp_next s), tp_next := tp_next s + 1, tp_pending := tp_pending s @ [tp_next s]\<rparr>)"

definition cancel_stream :: "Pane \<Rightarrow> Pane" where
  "cancel_stream s = (case tp_stream s of None \<Rightarrow> s | Some t \<Rightarrow> pane_calls [CancelStream t] (s\<lparr>tp_stream := None\<rparr>))"

definition reattach :: "Pane \<Rightarrow> Pane" where
  "reattach s = (if \<not> tp_term s then s else pane_attach (pane_calls [ResetTerminal] (cancel_stream s)))"

text \<open>Fitting fails while the host has no size, which is the page's to say; a fit is followed by the resize of the PTY.\<close>

definition syncSize :: "bool \<Rightarrow> Pane \<Rightarrow> Pane" where
  "syncSize measurable s = (if tp_term s \<and> measurable then pane_calls [ResizePty] s else s)"

definition stream_settles :: "nat \<Rightarrow> bool \<Rightarrow> Pane \<Rightarrow> Pane" where
  "stream_settles t resolved s =
     (if t \<notin> set (tp_pending s) then s
      else let s = s\<lparr>tp_pending := removeAll t (tp_pending s), tp_rejected := (if resolved then tp_rejected s else tp_rejected s @ [t])\<rparr> in
        if tp_stream s \<noteq> Some t then s
        else if resolved then s\<lparr>tp_state := TermLive\<rparr>
        else s\<lparr>tp_stream := None, tp_state := TermNotStarted\<rparr>)"

text \<open>The retry effect, run after a change of the state or the status: its timer is cleared and armed anew.\<close>

definition retry_effect :: "Pane \<Rightarrow> Pane" where
  "retry_effect s = s\<lparr>tp_retry := tp_term s \<and> tp_state s = TermNotStarted \<and> tp_active s\<rparr>"

definition pane_mounts :: "bool \<Rightarrow> Pane \<Rightarrow> Pane" where
  "pane_mounts measurable s =
     (if tp_term s then s
      else focusIfEnabled (syncSize measurable (pane_attach (s\<lparr>tp_term := True, tp_stream := None\<rparr>))))"

definition pane_tears_down :: "Pane \<Rightarrow> Pane" where
  "pane_tears_down s = (if \<not> tp_term s then s else (cancel_stream s)\<lparr>tp_linkTarget := None, tp_term := False\<rparr>)"

definition status_changes :: "bool \<Rightarrow> bool \<Rightarrow> Pane \<Rightarrow> Pane" where
  "status_changes active measurable s =
     (let s = s\<lparr>tp_active := active\<rparr>;
          s = (if tp_stream s = None \<and> active then pane_attach s else s)
      in if active then syncSize measurable s else s)"

definition visibility_changes :: "bool \<Rightarrow> bool \<Rightarrow> bool \<Rightarrow> Pane \<Rightarrow> Pane" where
  "visibility_changes visible desynced measurable s =
     (let s = s\<lparr>tp_visible := visible\<rparr> in
      if \<not> visible then s\<lparr>tp_linkTarget := None\<rparr>
      else focusIfEnabled (syncSize measurable
        (case tp_stream s of None \<Rightarrow> s | Some t \<Rightarrow> if desynced then reattach s else pane_calls [ResumeStream t] s)))"

datatype PaneOp = Mounts bool | TearsDown | StreamSettles nat bool | StatusChanges bool bool | RetryFires
  | VisibilityChanges bool bool bool | Desyncs | LinkUnder "jstring option" | Resized bool | Inserts jstring

fun pane_op :: "PaneOp \<Rightarrow> Pane \<Rightarrow> Pane" where
  "pane_op (Mounts measurable) s = pane_mounts measurable s"
| "pane_op TearsDown s = pane_tears_down s"
| "pane_op (StreamSettles t resolved) s = stream_settles t resolved s"
| "pane_op (StatusChanges active measurable) s = status_changes active measurable s"
| "pane_op RetryFires s = (if tp_retry s then pane_attach (s\<lparr>tp_retry := False\<rparr>) else s)"
| "pane_op (VisibilityChanges v desynced measurable) s = visibility_changes v desynced measurable s"
| "pane_op Desyncs s = reattach s"
| "pane_op (LinkUnder uri) s = (if tp_term s then s\<lparr>tp_linkTarget := uri\<rparr> else s)"
| "pane_op (Resized measurable) s = syncSize measurable s"
| "pane_op (Inserts inserted) s = (if tp_term s then pane_calls [InsertText inserted] s else s)"

definition pane_step :: "Pane \<Rightarrow> PaneOp \<Rightarrow> Pane" where "pane_step s op = retry_effect (pane_op op s)"

definition pane_init :: "bool \<Rightarrow> bool \<Rightarrow> bool \<Rightarrow> Pane" where
  "pane_init visible active focus = \<lparr>tp_term = False, tp_stream = None, tp_next = 0, tp_pending = [], tp_rejected = [],
     tp_state = TermAttaching, tp_linkTarget = None, tp_visible = visible, tp_active = active, tp_focus_on_click = focus,
     tp_retry = False, tp_calls = []\<rparr>"

subsection \<open>A pane is not left behind\<close>

definition canceled :: "Pane \<Rightarrow> nat set" where "canceled s = {t. CancelStream t \<in> set (tp_calls s)}"

definition pane_ok :: "Pane \<Rightarrow> bool" where
  "pane_ok s \<longleftrightarrow>
     (\<forall>t \<in> set (tp_pending s). t < tp_next s) \<and> distinct (tp_pending s)
   \<and> (\<forall>t. tp_stream s = Some t \<longrightarrow> tp_term s \<and> t < tp_next s \<and> t \<notin> canceled s \<and> t \<notin> set (tp_rejected s)
        \<and> tp_state s = (if t \<in> set (tp_pending s) then TermAttaching else TermLive))
   \<and> (tp_term s \<and> tp_stream s = None \<longrightarrow> tp_state s = TermNotStarted)
   \<and> (\<forall>t < tp_next s. tp_stream s = Some t \<or> t \<in> canceled s \<or> t \<in> set (tp_rejected s))
   \<and> (\<forall>t \<in> canceled s. t < tp_next s) \<and> (\<forall>t \<in> set (tp_rejected s). t < tp_next s)
   \<and> (\<not> tp_term s \<longrightarrow> tp_linkTarget s = None)"

text \<open>Between clearing the old stream and attaching anew the state still speaks of the old one.\<close>

definition pane_core :: "Pane \<Rightarrow> bool" where
  "pane_core s \<longleftrightarrow> pane_ok (if tp_term s \<and> tp_stream s = None then s\<lparr>tp_state := TermNotStarted\<rparr> else s)"

lemma ok_core: "pane_ok s \<Longrightarrow> pane_core s"
  by (auto simp: pane_core_def pane_ok_def canceled_def)

lemma calls_ok:
  assumes "pane_ok s" "\<And>t. CancelStream t \<notin> set cs"
  shows "pane_ok (pane_calls cs s)"
  using assms by (simp add: pane_ok_def pane_calls_def canceled_def)

lemma focus_ok: "pane_ok s \<Longrightarrow> pane_ok (focusIfEnabled s)"
  by (simp add: focusIfEnabled_def calls_ok)

lemma sync_ok: "pane_ok s \<Longrightarrow> pane_ok (syncSize m s)"
  by (simp add: syncSize_def calls_ok)

lemma attach_ok: "pane_core s \<Longrightarrow> pane_ok (pane_attach s)"
  by (auto simp: pane_attach_def pane_core_def pane_ok_def canceled_def less_Suc_eq split: if_splits)

lemma cancel_core:
  assumes "pane_ok s"
  shows "pane_core (pane_calls [ResetTerminal] (cancel_stream s))"
  using assms by (cases "tp_stream s")
    (auto simp: cancel_stream_def pane_core_def pane_ok_def pane_calls_def canceled_def split: if_splits)

lemma reattach_ok: "pane_ok s \<Longrightarrow> pane_ok (reattach s)"
  by (simp add: reattach_def attach_ok cancel_core)

lemma settled_elsewhere:
  assumes "pane_ok s" "tp_stream s \<noteq> Some t" "t < tp_next s" "set rs = set (tp_rejected s) \<or> set rs = insert t (set (tp_rejected s))"
  shows "pane_ok (s\<lparr>tp_pending := removeAll t (tp_pending s), tp_rejected := rs\<rparr>)"
proof -
  have "t' \<in> set (removeAll t (tp_pending s)) \<longleftrightarrow> t' \<in> set (tp_pending s)" "t' \<in> set rs \<longleftrightarrow> t' \<in> set (tp_rejected s)"
    if "tp_stream s = Some t'" for t'
    using assms(2,4) that by auto
  moreover have "\<forall>t' \<in> set rs. t' < tp_next s" "\<forall>t' \<in> set (tp_rejected s). t' \<in> set rs"
    using assms(1,3,4) by (auto simp: pane_ok_def)
  ultimately show ?thesis
    using assms(1) unfolding pane_ok_def canceled_def by (simp add: distinct_removeAll) blast
qed

lemma settles_ok:
  assumes "pane_ok s"
  shows "pane_ok (stream_settles t resolved s)"
proof (cases "t \<in> set (tp_pending s)")
  case True
  then have t: "t < tp_next s" using assms by (simp add: pane_ok_def)
  show ?thesis
  proof (cases "tp_stream s = Some t")
    case False
    then show ?thesis
      using True settled_elsewhere [OF assms False t, of "if resolved then tp_rejected s else tp_rejected s @ [t]"]
      by (simp add: stream_settles_def Let_def)
  next
    case own: True
    show ?thesis
    proof (cases resolved)
      case True
      then show ?thesis using assms own \<open>t \<in> set (tp_pending s)\<close>
        by (simp add: stream_settles_def pane_ok_def canceled_def Let_def distinct_removeAll)
    next
      case False
      then show ?thesis using assms own t \<open>t \<in> set (tp_pending s)\<close>
        by (simp add: stream_settles_def pane_ok_def canceled_def Let_def distinct_removeAll) blast
    qed
  qed
qed (use assms in \<open>simp add: stream_settles_def\<close>)

lemma mounts_ok: "pane_ok s \<Longrightarrow> pane_ok (pane_mounts m s)"
  unfolding pane_mounts_def
  by (auto intro!: focus_ok sync_ok attach_ok) (auto simp: pane_core_def pane_ok_def canceled_def)

lemma teardown_ok: "pane_ok s \<Longrightarrow> pane_ok (pane_tears_down s)"
  by (cases "tp_stream s")
    (auto simp: pane_tears_down_def cancel_stream_def pane_ok_def pane_calls_def canceled_def)

lemma frame_ok:
  assumes "pane_ok s"
  shows "pane_ok (s\<lparr>tp_active := a\<rparr>)" "pane_ok (s\<lparr>tp_visible := v\<rparr>)" "pane_ok (s\<lparr>tp_retry := r\<rparr>)"
    "pane_ok (s\<lparr>tp_linkTarget := None\<rparr>)" "tp_term s \<Longrightarrow> pane_ok (s\<lparr>tp_linkTarget := l\<rparr>)"
  using assms by (simp_all add: pane_ok_def canceled_def)

lemma pane_op_ok: "pane_ok s \<Longrightarrow> pane_ok (pane_op op s)"
proof (cases op)
  case (StatusChanges a m)
  then show "pane_ok s \<Longrightarrow> pane_ok (pane_op op s)"
    by (simp add: status_changes_def Let_def frame_ok sync_ok attach_ok ok_core)
next
  case (VisibilityChanges v d m)
  then show "pane_ok s \<Longrightarrow> pane_ok (pane_op op s)"
    by (simp add: visibility_changes_def Let_def frame_ok focus_ok sync_ok reattach_ok calls_ok split: option.split)
qed (simp_all add: mounts_ok teardown_ok settles_ok frame_ok attach_ok ok_core reattach_ok sync_ok calls_ok)

lemma init_settled: "pane_ok (pane_init visible active focus) \<and> retry_effect (pane_init visible active focus) = pane_init visible active focus"
  by (simp add: retry_effect_def pane_init_def pane_ok_def canceled_def)

lemma step_settled: "pane_ok s \<Longrightarrow> pane_ok (pane_step s op) \<and> retry_effect (pane_step s op) = pane_step s op"
  by (simp add: pane_step_def retry_effect_def pane_op_ok frame_ok(3))

interpretation pane: machine "pane_init visible active focus" pane_step "\<lambda>s. pane_ok s \<and> retry_effect s = s" for visible active focus
  by unfold_locales (rule init_settled, erule conjE, rule step_settled)

text \<open>
  C19. Whatever mounts, status and visibility changes, overflows, retries and answers a pane
  goes through, its overlay tells the truth and it is never stranded: attaching means that its
  one stream is waiting for its answer, live that it was accepted, not started that it has none;
  an active process shown as not started has its retry armed, and the retry attaches. Every
  other stream it ever opened was cancelled or was refused, and nothing but its own stream's
  answer moves the state.
\<close>

theorem pane_never_stranded:
  "let s = foldl pane_step (pane_init visible active focus) ops in
     (tp_term s \<longrightarrow> (case tp_stream s of
          Some t \<Rightarrow> tp_state s = (if t \<in> set (tp_pending s) then TermAttaching else TermLive)
        | None \<Rightarrow> tp_state s = TermNotStarted \<and> (tp_active s \<longrightarrow> tp_retry s
            \<and> tp_state (pane_step s RetryFires) = TermAttaching \<and> tp_stream (pane_step s RetryFires) = Some (tp_next s))))
   \<and> (\<forall>t < tp_next s. tp_stream s = Some t \<or> CancelStream t \<in> set (tp_calls s) \<or> t \<in> set (tp_rejected s))
   \<and> (\<forall>t ok. tp_stream s \<noteq> Some t \<longrightarrow> tp_state (pane_step s (StreamSettles t ok)) = tp_state s
        \<and> tp_stream (pane_step s (StreamSettles t ok)) = tp_stream s)"
proof -
  let ?s = "foldl pane_step (pane_init visible active focus) ops"
  have ok: "pane_ok ?s" "retry_effect ?s = ?s" using pane.inv_run [of visible active focus ops] by auto
  have armed: "tp_retry ?s = (tp_term ?s \<and> tp_state ?s = TermNotStarted \<and> tp_active ?s)"
    using arg_cong [OF ok(2), of tp_retry] by (simp add: retry_effect_def)
  have "tp_state ?s = (if t \<in> set (tp_pending ?s) then TermAttaching else TermLive)" if "tp_stream ?s = Some t" for t
    using ok(1) that by (simp add: pane_ok_def)
  moreover have "tp_state ?s = TermNotStarted" if "tp_term ?s" "tp_stream ?s = None"
    using ok(1) that by (simp add: pane_ok_def)
  moreover have "tp_stream ?s = Some t \<or> CancelStream t \<in> set (tp_calls ?s) \<or> t \<in> set (tp_rejected ?s)" if "t < tp_next ?s" for t
    using ok(1) that by (simp add: pane_ok_def canceled_def)
  moreover have "tp_state (pane_step ?s (StreamSettles t r)) = tp_state ?s \<and> tp_stream (pane_step ?s (StreamSettles t r)) = tp_stream ?s"
    if "tp_stream ?s \<noteq> Some t" for t r
    using that by (simp add: pane_step_def retry_effect_def stream_settles_def Let_def)
  moreover have "tp_state (pane_step ?s RetryFires) = TermAttaching \<and> tp_stream (pane_step ?s RetryFires) = Some (tp_next ?s)"
    if "tp_retry ?s" "tp_stream ?s = None"
    using that armed by (simp add: pane_step_def retry_effect_def pane_attach_def)
  ultimately show ?thesis using armed by (simp add: Let_def split: option.split)
qed

theorem pane_never_stranded_witness:
  "let s = foldl pane_step (pane_init True True False) [Mounts True, StreamSettles 0 False] in
     tp_state s = TermNotStarted \<and> tp_retry s \<and> tp_state (pane_step s RetryFires) = TermAttaching
       \<and> tp_stream (pane_step s RetryFires) = Some 1"
proof -
  let ?s = "foldl pane_step (pane_init True True False) [Mounts True, StreamSettles 0 False]"
  have "tp_term ?s" "tp_stream ?s = None" "tp_active ?s" "tp_next ?s = 1"
    by (simp_all add: pane_step_def pane_init_def retry_effect_def pane_mounts_def pane_attach_def syncSize_def focusIfEnabled_def
        pane_calls_def stream_settles_def)
  then show ?thesis
    using pane_never_stranded [of True True False "[Mounts True, StreamSettles 0 False]"] unfolding Let_def by simp
qed

end
