(* ===== verification/TerminalTools.thy ===== *)
theory TerminalTools
  imports Surfaces Hotkeys AppearanceTables ShellText
begin

section \<open>A pane's tools\<close>

text \<open>
  Under \<open>components/terminal/\<close>: the keys a pane intercepts (\<open>useTerminalHotkeys.ts\<close>), its search and find bar
  (\<open>terminalSearch.ts\<close>, \<open>TerminalPane.tsx\<close>), clipboard, links, chrome, addons and dropped files; and the modules of \<open>lib/\<close> they go
  through (\<open>clipboard.ts\<close>, \<open>opener.ts\<close>, \<open>terminalRenderer.ts\<close>, \<open>bell.ts\<close>). The emulator's addons, the URL parser, the desktop and the
  audio context are parameters.
\<close>

subsection \<open>Keys\<close>

datatype TermKeyEffect = TkSetAppearance Appearance | TkSelectProcess int | TkOpenSearch | TkCopySelection | TkPaste

definition index_or_minus_one :: "'a list \<Rightarrow> 'a \<Rightarrow> int" where
  "index_or_minus_one xs x = (case index_of xs x of None \<Rightarrow> - 1 | Some i \<Rightarrow> int i)"

definition with_font_scale :: "Appearance \<Rightarrow> FontScale \<Rightarrow> Appearance" where
  "with_font_scale ap scale = ap\<lparr>ap_terminal := (ap_terminal ap)\<lparr>ta_font_scale := scale\<rparr>\<rparr>"

definition font_step :: "Appearance \<Rightarrow> int \<Rightarrow> TermKeyEffect list" where
  "font_step ap offset =
     (let idx = index_or_minus_one FONT_SCALE_ORDER (ta_font_scale (ap_terminal ap)) in
      if (if offset > 0 then idx < int (length FONT_SCALE_ORDER) - 1 else idx > 0)
      then [TkSetAppearance (with_font_scale ap (FONT_SCALE_ORDER ! nat (idx + offset)))] else [])"

definition process_step :: "ProcessView list \<Rightarrow> int \<Rightarrow> int \<Rightarrow> TermKeyEffect list" where
  "process_step ps pid offset =
     (let idx = index_or_minus_one (map pv_id ps) pid in
      if (if offset > 0 then idx \<noteq> - 1 \<and> idx < int (length ps) - 1 else idx > 0)
      then [TkSelectProcess (pv_id (ps ! nat (idx + offset)))] else [])"

text \<open>The switch; \<open>None\<close> is its default, which leaves the key to the emulator.\<close>

definition terminal_action :: "Appearance \<Rightarrow> ProcessView list \<Rightarrow> int \<Rightarrow> HotkeyAction \<Rightarrow> TermKeyEffect list option" where
  "terminal_action ap ps pid action =
     (if action = increase_terminal_font_size then Some (font_step ap 1)
      else if action = decrease_terminal_font_size then Some (font_step ap (- 1))
      else if action = open_terminal_search then Some [TkOpenSearch]
      else if action = next_process then Some (process_step ps pid 1)
      else if action = previous_process then Some (process_step ps pid (- 1))
      else if action = copy_selection then Some [TkCopySelection]
      else if action = paste_clipboard then Some [TkPaste]
      else None)"

definition handleTerminalKey ::
  "HotkeyBindingView list \<Rightarrow> Appearance \<Rightarrow> ProcessView list \<Rightarrow> int \<Rightarrow> KeyEvent \<Rightarrow> TermKeyEffect list option" where
  "handleTerminalKey bindings ap ps pid event =
     (case bindingFromEvent event of None \<Rightarrow> None
      | Some pressed \<Rightarrow> Option.bind (matchHotkey bindings HkTerminal pressed (\<lambda>_. True)) (terminal_action ap ps pid))"

definition scaled_to :: "Appearance \<Rightarrow> FontScale \<Rightarrow> TermKeyEffect list" where
  "scaled_to ap scale = [TkSetAppearance (with_font_scale ap scale)]"

lemma font_steps:
  "ta_font_scale (ap_terminal ap) = ScaleExtraSmall \<Longrightarrow> font_step ap 1 = scaled_to ap ScaleSmall \<and> font_step ap (- 1) = []"
  "ta_font_scale (ap_terminal ap) = ScaleSmall \<Longrightarrow>
    font_step ap 1 = scaled_to ap ScaleMedium \<and> font_step ap (- 1) = scaled_to ap ScaleExtraSmall"
  "ta_font_scale (ap_terminal ap) = ScaleMedium \<Longrightarrow>
    font_step ap 1 = scaled_to ap ScaleLarge \<and> font_step ap (- 1) = scaled_to ap ScaleSmall"
  "ta_font_scale (ap_terminal ap) = ScaleLarge \<Longrightarrow>
    font_step ap 1 = scaled_to ap ScaleExtraLarge \<and> font_step ap (- 1) = scaled_to ap ScaleMedium"
  "ta_font_scale (ap_terminal ap) = ScaleExtraLarge \<Longrightarrow> font_step ap 1 = [] \<and> font_step ap (- 1) = scaled_to ap ScaleLarge"
  by (simp_all add: font_step_def scaled_to_def index_or_minus_one_def FONT_SCALE_ORDER_def)

text \<open>
  Making a terminal's text larger and then smaller, or the other way round, restores the
  appearance exactly; at the end of the scale a further step changes nothing.
\<close>

theorem font_size_keys_undo:
  assumes "d = 1 \<or> d = - 1"
  shows "case font_step ap d of
      [] \<Rightarrow> ta_font_scale (ap_terminal ap) = (if d = 1 then ScaleExtraLarge else ScaleExtraSmall)
    | effect # rest \<Rightarrow> rest = [] \<and> (\<exists>ap'. effect = TkSetAppearance ap' \<and> ap' \<noteq> ap \<and> font_step ap' (- d) = [TkSetAppearance ap])"
proof -
  have same: "with_font_scale (with_font_scale ap s) (ta_font_scale (ap_terminal ap)) = ap" for s
    by (simp add: with_font_scale_def)
  have scale: "ta_font_scale (ap_terminal (with_font_scale ap s)) = s" for s by (simp add: with_font_scale_def)
  have moved: "with_font_scale ap s \<noteq> ap" if "s \<noteq> ta_font_scale (ap_terminal ap)" for s
    using that scale [of s] by metis
  have undo: "\<exists>ap'. TkSetAppearance (with_font_scale ap t) = TkSetAppearance ap' \<and> ap' \<noteq> ap \<and> font_step ap' (- d) = [TkSetAppearance ap]"
    if "t \<noteq> ta_font_scale (ap_terminal ap)"
      "font_step (with_font_scale ap t) (- d) = scaled_to (with_font_scale ap t) (ta_font_scale (ap_terminal ap))" for t
    using that moved same by (auto simp: scaled_to_def)
  show ?thesis
  proof (cases "ta_font_scale (ap_terminal ap)")
    case ScaleExtraSmall
    then show ?thesis using assms undo [of ScaleSmall] font_steps(1) [OF ScaleExtraSmall] font_steps(2) [OF scale]
      by (auto simp: scaled_to_def)
  next
    case ScaleSmall
    then show ?thesis using assms undo [of ScaleMedium] undo [of ScaleExtraSmall] font_steps(2) [OF ScaleSmall]
        font_steps(3) [OF scale] font_steps(1) [OF scale]
      by (auto simp: scaled_to_def)
  next
    case ScaleMedium
    then show ?thesis using assms undo [of ScaleLarge] undo [of ScaleSmall] font_steps(3) [OF ScaleMedium]
        font_steps(4) [OF scale] font_steps(2) [OF scale]
      by (auto simp: scaled_to_def)
  next
    case ScaleLarge
    then show ?thesis using assms undo [of ScaleExtraLarge] undo [of ScaleMedium] font_steps(4) [OF ScaleLarge]
        font_steps(5) [OF scale] font_steps(3) [OF scale]
      by (auto simp: scaled_to_def)
  next
    case ScaleExtraLarge
    then show ?thesis using assms undo [of ScaleLarge] font_steps(5) [OF ScaleExtraLarge] font_steps(4) [OF scale]
      by (auto simp: scaled_to_def)
  qed
qed

theorem font_size_keys_undo_witness:
  "font_step DEFAULT_APPEARANCE 1 = [TkSetAppearance (with_font_scale DEFAULT_APPEARANCE ScaleLarge)]
   \<and> font_step (with_font_scale DEFAULT_APPEARANCE ScaleLarge) (- 1) = [TkSetAppearance DEFAULT_APPEARANCE]"
proof -
  have "font_step DEFAULT_APPEARANCE 1 = [TkSetAppearance (with_font_scale DEFAULT_APPEARANCE ScaleLarge)]"
    by (simp add: font_step_def index_or_minus_one_def FONT_SCALE_ORDER_def DEFAULT_APPEARANCE_def)
  then show ?thesis using font_size_keys_undo [of 1 DEFAULT_APPEARANCE] by simp
qed

subsection \<open>Search\<close>

definition SEARCH_HIGHLIGHT_LIMIT :: nat where "SEARCH_HIGHLIGHT_LIMIT = 1000"
definition NO_ACTIVE_MATCH :: int where "NO_ACTIVE_MATCH = - 1"

record SearchMatches =
  mt_index :: int
  mt_count :: nat

definition NO_MATCHES :: SearchMatches where "NO_MATCHES = \<lparr>mt_index = NO_ACTIVE_MATCH, mt_count = 0\<rparr>"

record SearchOptions =
  so_caseSensitive :: bool
  so_regex :: bool
  so_incremental :: bool
  so_decorations :: "SearchDecorationColors option"

type_synonym pane_theme = "bool + AppliedTheme"

definition searchOptions :: "(pane_theme \<Rightarrow> SearchDecorationColors option) \<Rightarrow> pane_theme \<Rightarrow> bool \<Rightarrow> SearchOptions" where
  "searchOptions colors theme incremental =
     \<lparr>so_caseSensitive = False, so_regex = False, so_incremental = incremental, so_decorations = colors theme\<rparr>"

definition theme_signature :: "pane_theme \<Rightarrow> jstring" where
  "theme_signature theme = (case theme of Inl b \<Rightarrow> if b then lit ''true'' else lit ''false'' | Inr t \<Rightarrow> at_signature t)"

text \<open>
  The addon: a search forward or back with its options moves the addon and the viewport, and clearing drops its decorations; what it
  has decorated is the query and the colours it was drawn with.
\<close>

record 'a SearchAddon =
  sa_new :: 'a
  sa_find :: "bool \<Rightarrow> jstring \<Rightarrow> SearchOptions \<Rightarrow> 'a \<times> int \<Rightarrow> 'a \<times> int"
  sa_clear :: "'a \<Rightarrow> 'a"
  sa_painted :: "'a \<Rightarrow> (jstring \<times> SearchDecorationColors option) option"

record 'a PaneSearch =
  ts_addon :: "'a option"
  ts_viewport :: int
  ts_query :: "jstring option"
  ts_matches :: SearchMatches
  ts_theme :: pane_theme
  ts_findOpen :: bool
  ts_findQuery :: jstring

definition search_attach :: "'a SearchAddon \<Rightarrow> 'a PaneSearch \<Rightarrow> 'a PaneSearch" where
  "search_attach addon s = s\<lparr>ts_addon := Some (sa_new addon)\<rparr>"

definition search_detach :: "'a PaneSearch \<Rightarrow> 'a PaneSearch" where
  "search_detach s = s\<lparr>ts_addon := None, ts_query := None, ts_matches := NO_MATCHES\<rparr>"

definition search_find ::
  "(pane_theme \<Rightarrow> SearchDecorationColors option) \<Rightarrow> 'a SearchAddon \<Rightarrow> bool \<Rightarrow> jstring \<Rightarrow> 'a PaneSearch \<Rightarrow> 'a PaneSearch" where
  "search_find colors addon forward query s =
     (case ts_addon s of None \<Rightarrow> s
      | Some a \<Rightarrow>
          (let (a', viewport) = sa_find addon forward query (searchOptions colors (ts_theme s) forward) (a, ts_viewport s) in
           s\<lparr>ts_addon := Some a', ts_viewport := viewport, ts_query := Some query\<rparr>))"

definition search_clear :: "'a SearchAddon \<Rightarrow> 'a PaneSearch \<Rightarrow> 'a PaneSearch" where
  "search_clear addon s = s\<lparr>ts_addon := map_option (sa_clear addon) (ts_addon s), ts_query := None, ts_matches := NO_MATCHES\<rparr>"

text \<open>A new theme: the ref is set, and where the signature changed the effect paints the matches again and puts the view back.\<close>

definition search_theme ::
  "(pane_theme \<Rightarrow> SearchDecorationColors option) \<Rightarrow> 'a SearchAddon \<Rightarrow> pane_theme \<Rightarrow> 'a PaneSearch \<Rightarrow> 'a PaneSearch" where
  "search_theme colors addon theme s =
     (let changed = theme_signature theme \<noteq> theme_signature (ts_theme s); s = s\<lparr>ts_theme := theme\<rparr> in
      case (ts_addon s, ts_query s) of
        (Some a, Some query) \<Rightarrow>
          if \<not> changed \<or> query = [] then s
          else let viewport = ts_viewport s;
                   (a', viewport') = sa_find addon False query (searchOptions colors theme False) (sa_clear addon a, viewport) in
               s\<lparr>ts_addon := Some a', ts_viewport := (if viewport' \<noteq> viewport then viewport else viewport')\<rparr>
      | _ \<Rightarrow> s)"

text \<open>The find bar of the pane: a typed query searches, an emptied one clears; the step buttons need a query; closing clears.\<close>

datatype FindOp = OpensFind | TypesFind jstring | StepsFind bool | ClosesFind | ThemeTurns pane_theme | ResultsChange int nat
  | PaneMounts | PaneTearsDown | Scrolls int

fun find_op ::
  "(pane_theme \<Rightarrow> SearchDecorationColors option) \<Rightarrow> 'a SearchAddon \<Rightarrow> 'a PaneSearch \<Rightarrow> FindOp \<Rightarrow> 'a PaneSearch" where
  "find_op colors addon s OpensFind = s\<lparr>ts_findOpen := True\<rparr>"
| "find_op colors addon s (TypesFind query) =
     (let s = s\<lparr>ts_findQuery := query\<rparr> in if query \<noteq> [] then search_find colors addon True query s else search_clear addon s)"
| "find_op colors addon s (StepsFind forward) =
     (if ts_findQuery s \<noteq> [] then search_find colors addon forward (ts_findQuery s) s else s)"
| "find_op colors addon s ClosesFind = search_clear addon (s\<lparr>ts_findOpen := False, ts_findQuery := []\<rparr>)"
| "find_op colors addon s (ThemeTurns theme) = search_theme colors addon theme s"
| "find_op colors addon s (ResultsChange i n) = s\<lparr>ts_matches := \<lparr>mt_index = i, mt_count = n\<rparr>\<rparr>"
| "find_op colors addon s PaneMounts = (if ts_addon s = None then search_attach addon s else s)"
| "find_op colors addon s PaneTearsDown = search_detach s"
| "find_op colors addon s (Scrolls line) = s\<lparr>ts_viewport := line\<rparr>"

definition find_init :: "pane_theme \<Rightarrow> 'a PaneSearch" where
  "find_init theme = \<lparr>ts_addon = None, ts_viewport = 0, ts_query = None, ts_matches = NO_MATCHES, ts_theme = theme,
     ts_findOpen = False, ts_findQuery = []\<rparr>"

text \<open>
  What the source says of the addon: nothing is decorated at first or after clearing, and a search for the query already decorated
  leaves the decorations in the colours they have.
\<close>

definition addon_laws :: "'a SearchAddon \<Rightarrow> bool" where
  "addon_laws addon \<longleftrightarrow> sa_painted addon (sa_new addon) = None \<and> (\<forall>a. sa_painted addon (sa_clear addon a) = None)
     \<and> (\<forall>forward query options a v. sa_painted addon (fst (sa_find addon forward query options (a, v))) =
          (case sa_painted addon a of
             Some (painted, colors) \<Rightarrow> if painted = query then Some (painted, colors) else Some (query, so_decorations options)
           | None \<Rightarrow> Some (query, so_decorations options)))"

definition painted_ok :: "(pane_theme \<Rightarrow> SearchDecorationColors option) \<Rightarrow> 'a SearchAddon \<Rightarrow> 'a PaneSearch \<Rightarrow> bool" where
  "painted_ok colors addon s \<longleftrightarrow> ts_query s \<noteq> Some []
     \<and> (case ts_addon s of None \<Rightarrow> ts_query s = None
        | Some a \<Rightarrow> sa_painted addon a = map_option (\<lambda>query. (query, colors (ts_theme s))) (ts_query s))"

fun themes_of :: "FindOp \<Rightarrow> pane_theme set" where
  "themes_of (ThemeTurns theme) = {theme}"
| "themes_of _ = {}"

lemma find_paints:
  assumes "addon_laws addon" "painted_ok colors addon s" "query \<noteq> []"
  shows "painted_ok colors addon (search_find colors addon forward query s)"
proof (cases "ts_addon s")
  case (Some a)
  obtain a' v where f: "sa_find addon forward query (searchOptions colors (ts_theme s) forward) (a, ts_viewport s) = (a', v)"
    by (rule prod.exhaust)
  have "sa_painted addon (fst (sa_find addon forward query (searchOptions colors (ts_theme s) forward) (a, ts_viewport s)))
      = Some (query, colors (ts_theme s))"
    using assms(1,2) Some by (cases "ts_query s") (simp_all add: addon_laws_def painted_ok_def searchOptions_def)
  then show ?thesis using f Some assms(3) by (simp add: painted_ok_def search_find_def)
qed (use assms in \<open>simp add: search_find_def painted_ok_def\<close>)

lemma clear_paints: "addon_laws addon \<Longrightarrow> painted_ok colors addon (search_clear addon s)"
  by (simp add: addon_laws_def painted_ok_def search_clear_def split: option.split)

lemma theme_paints:
  assumes "addon_laws addon" "painted_ok colors addon s"
    and same: "theme_signature theme = theme_signature (ts_theme s) \<Longrightarrow> colors theme = colors (ts_theme s)"
  shows "painted_ok colors addon (search_theme colors addon theme s)"
proof (cases "ts_addon s = None \<or> ts_query s = None \<or> theme_signature theme = theme_signature (ts_theme s)")
  case True
  then show ?thesis using assms(2) same
    by (auto simp: search_theme_def painted_ok_def Let_def split: option.splits)
next
  case False
  then obtain a query where q: "ts_addon s = Some a" "ts_query s = Some query" "query \<noteq> []"
    using assms(2) by (auto simp: painted_ok_def)
  obtain a' v where f: "sa_find addon False query (searchOptions colors theme False) (sa_clear addon a, ts_viewport s) = (a', v)"
    by (rule prod.exhaust)
  have "sa_painted addon (fst (sa_find addon False query (searchOptions colors theme False) (sa_clear addon a, ts_viewport s)))
      = Some (query, colors theme)"
    using assms(1) by (simp add: addon_laws_def searchOptions_def)
  then show ?thesis using f q False by (simp add: painted_ok_def search_theme_def Let_def)
qed

lemma painted_frame:
  assumes "painted_ok colors addon s"
  shows "painted_ok colors addon (s\<lparr>ts_findQuery := query\<rparr>)" "painted_ok colors addon (s\<lparr>ts_findOpen := b\<rparr>)"
    "painted_ok colors addon (s\<lparr>ts_matches := m\<rparr>)" "painted_ok colors addon (s\<lparr>ts_viewport := v\<rparr>)"
  using assms by (cases "ts_addon s"; simp add: painted_ok_def)+

lemma detach_paints: "painted_ok colors addon (search_detach s)"
  by (simp add: search_detach_def painted_ok_def)

lemma attach_paints:
  "addon_laws addon \<Longrightarrow> painted_ok colors addon s \<Longrightarrow> ts_addon s = None \<Longrightarrow> painted_ok colors addon (search_attach addon s)"
  by (simp add: search_attach_def painted_ok_def addon_laws_def)

lemma find_op_paints:
  assumes "addon_laws addon" "painted_ok colors addon s"
    and "\<forall>a \<in> P. \<forall>b \<in> P. theme_signature a = theme_signature b \<longrightarrow> colors a = colors b" "ts_theme s \<in> P" "themes_of op \<subseteq> P"
  shows "painted_ok colors addon (find_op colors addon s op) \<and> ts_theme (find_op colors addon s op) \<in> P"
proof
  have keeps: "ts_theme (search_find colors addon f q t) = ts_theme t" "ts_theme (search_clear addon t) = ts_theme t"
    "ts_theme (search_theme colors addon theme t) = theme" for f q t theme
    by (simp_all add: search_find_def search_clear_def search_theme_def Let_def split: option.split prod.split)
  show "ts_theme (find_op colors addon s op) \<in> P"
    using assms(4,5) by (cases op) (simp_all add: keeps Let_def search_attach_def search_detach_def)
  show "painted_ok colors addon (find_op colors addon s op)"
  proof (cases op)
    case (TypesFind query)
    have "painted_ok colors addon (s\<lparr>ts_findQuery := query\<rparr>)" using assms(2) by (rule painted_frame)
    then show ?thesis using TypesFind assms(1) by (simp add: Let_def find_paints clear_paints)
  next
    case (ThemeTurns theme)
    then show ?thesis using assms by (auto intro!: theme_paints)
  qed (use assms(1,2) in \<open>simp_all add: find_paints clear_paints detach_paints attach_paints painted_frame\<close>)
qed

text \<open>
  C36. Whatever is searched, stepped, cleared and closed while the theme turns, with an addon
  that behaves as the source relies on and signatures that tell the colours apart, the matches
  on screen are always those of the query in force, in the colours of the theme in force, and
  there are none when no query is; a turn of the theme moves the view nowhere.
\<close>

theorem search_paints_current_theme:
  assumes "addon_laws addon" "theme0 \<in> P" "\<forall>op \<in> set ops. themes_of op \<subseteq> P"
    and "\<forall>a \<in> P. \<forall>b \<in> P. theme_signature a = theme_signature b \<longrightarrow> colors a = colors b"
  shows "let s = foldl (find_op colors addon) (find_init theme0) ops in
      (case ts_addon s of None \<Rightarrow> ts_query s = None
       | Some a \<Rightarrow> sa_painted addon a = map_option (\<lambda>query. (query, colors (ts_theme s))) (ts_query s))
    \<and> (\<forall>theme. ts_viewport (find_op colors addon s (ThemeTurns theme)) = ts_viewport s)"
proof -
  let ?s = "foldl (find_op colors addon) (find_init theme0) ops"
  have run: "painted_ok colors addon (foldl (find_op colors addon) s ops)" if "painted_ok colors addon s" "ts_theme s \<in> P" for s
    using that assms(3)
  proof (induction ops arbitrary: s)
    case (Cons op ops)
    then have "painted_ok colors addon (find_op colors addon s op) \<and> ts_theme (find_op colors addon s op) \<in> P"
      by (intro find_op_paints [OF assms(1) _ assms(4)]) auto
    then show ?case using Cons by simp
  qed simp
  have ok: "painted_ok colors addon ?s" by (rule run) (use assms(2) in \<open>simp_all add: find_init_def painted_ok_def\<close>)
  have still: "ts_viewport (search_theme colors addon theme t) = ts_viewport t" for theme t
    by (simp add: search_theme_def Let_def split: option.split prod.split)
  from ok still show ?thesis by (simp add: painted_ok_def Let_def)
qed

definition recording_addon :: "(jstring \<times> SearchDecorationColors option) option SearchAddon" where
  "recording_addon = \<lparr>sa_new = None, sa_find = (\<lambda>forward query options (a, v). (case a of
       Some (painted, c) \<Rightarrow> if painted = query then a else Some (query, so_decorations options)
     | None \<Rightarrow> Some (query, so_decorations options), v + 1)), sa_clear = (\<lambda>_. None), sa_painted = (\<lambda>a. a)\<rparr>"

definition flat_colors :: "jstring \<Rightarrow> SearchDecorationColors" where
  "flat_colors c = \<lparr>sd_matchBackground = c, sd_matchBorder = c, sd_matchOverviewRuler = c, sd_activeMatchBackground = c,
     sd_activeMatchBorder = c, sd_activeMatchColorOverviewRuler = c\<rparr>"

theorem search_paints_current_theme_witness:
  "let s = foldl (find_op (\<lambda>t. Some (flat_colors (theme_signature t))) recording_addon) (find_init (Inl True))
       [PaneMounts, TypesFind (lit ''x''), ThemeTurns (Inl False)] in
     ts_addon s = Some (Some (lit ''x'', Some (flat_colors (lit ''false''))))"
proof -
  let ?ops = "[PaneMounts, TypesFind (lit ''x''), ThemeTurns (Inl False)]"
  let ?s = "foldl (find_op (\<lambda>t. Some (flat_colors (theme_signature t))) recording_addon) (find_init (Inl True)) ?ops"
  have laws: "addon_laws recording_addon"
    by (auto simp: addon_laws_def recording_addon_def split: option.split)
  have x: "lit ''x'' \<noteq> []" by (simp add: lit_def)
  have s: "ts_addon ?s \<noteq> None" "ts_query ?s = Some (lit ''x'')" "ts_theme ?s = Inl False"
    using x by (simp_all add: find_init_def search_attach_def search_find_def search_theme_def Let_def theme_signature_def recording_addon_def)
  have "themes_of op \<subseteq> UNIV" for op by simp
  then show ?thesis
    using search_paints_current_theme [OF laws, of "Inl True" UNIV ?ops "\<lambda>t. Some (flat_colors (theme_signature t))"] s
    by (auto simp: Let_def theme_signature_def recording_addon_def)
qed

lemma closed_find_is_empty:
  "ts_query (find_op colors addon s ClosesFind) = None \<and> ts_matches (find_op colors addon s ClosesFind) = NO_MATCHES
   \<and> ts_findQuery (find_op colors addon s ClosesFind) = []"
  by (simp add: search_clear_def)

subsection \<open>Clipboard, links and dropped files\<close>

text \<open>The system clipboard: what it holds, and whether the platform grants a write and a read (a read of what is not text is refused).\<close>

record Clipboard =
  cb_text :: jstring
  cb_writes :: bool
  cb_reads :: bool

definition writeClipboard :: "jstring \<Rightarrow> Clipboard \<Rightarrow> Clipboard" where
  "writeClipboard written c = (if cb_writes c then c\<lparr>cb_text := written\<rparr> else c)"

definition readClipboard :: "Clipboard \<Rightarrow> jstring" where
  "readClipboard c = (if cb_reads c then cb_text c else [])"

text \<open>The emulator as these read it: absent once torn down, its selection (empty when there is none), and what was pasted into it.\<close>

record Emulator =
  em_selection :: jstring
  em_pasted :: "jstring list"

definition copySelection :: "Emulator option \<Rightarrow> Clipboard \<Rightarrow> Clipboard" where
  "copySelection term c = (case term of None \<Rightarrow> c
     | Some t \<Rightarrow> if em_selection t = [] then c else writeClipboard (em_selection t) c)"

text \<open>The read resolves later: the emulator is the one there then.\<close>

definition pasteClipboard :: "jstring \<Rightarrow> Emulator option \<Rightarrow> Emulator option" where
  "pasteClipboard read term = (if read = [] then term else map_option (\<lambda>t. t\<lparr>em_pasted := em_pasted t @ [read]\<rparr>) term)"

definition copyOnSelect :: "bool \<Rightarrow> Emulator \<Rightarrow> Clipboard \<Rightarrow> Clipboard" where
  "copyOnSelect enabled t c = (if \<not> enabled then c else if em_selection t = [] then c else writeClipboard (em_selection t) c)"

lemma deselect_keeps_clipboard:
  "em_selection t = [] \<Longrightarrow> copyOnSelect enabled t c = c \<and> copySelection (Some t) c = c"
  by (simp add: copyOnSelect_def copySelection_def)

lemma copied_is_pasted:
  "cb_writes c \<Longrightarrow> cb_reads c \<Longrightarrow> em_selection t \<noteq> [] \<Longrightarrow>
    pasteClipboard (readClipboard (copySelection (Some t) c)) (Some t) = Some (t\<lparr>em_pasted := em_pasted t @ [em_selection t]\<rparr>)"
  by (simp add: copySelection_def writeClipboard_def readClipboard_def pasteClipboard_def)

definition OPENABLE_PROTOCOLS :: "jstring list" where "OPENABLE_PROTOCOLS = [lit ''http:'', lit ''https:'']"

text \<open>The parser yields a URL's protocol and its normal form, or throws; what the desktop does with it is not waited for.\<close>

definition openExternal :: "(jstring \<Rightarrow> (jstring \<times> jstring) option) \<Rightarrow> jstring \<Rightarrow> jstring list" where
  "openExternal parse url = (case parse url of None \<Rightarrow> []
     | Some (protocol, href) \<Rightarrow> if protocol \<in> set OPENABLE_PROTOCOLS then [href] else [])"

datatype LinkEvent = LinkActivated jstring | LinkHovered jstring | LinkLeft

text \<open>Both routes share the handler: what is opened, and what the readout becomes.\<close>

definition link_event :: "(jstring \<Rightarrow> (jstring \<times> jstring) option) \<Rightarrow> LinkEvent \<Rightarrow> jstring option \<Rightarrow> jstring list \<times> jstring option" where
  "link_event parse event target = (case event of LinkActivated uri \<Rightarrow> (openExternal parse uri, target)
     | LinkHovered uri \<Rightarrow> ([], Some uri) | LinkLeft \<Rightarrow> ([], None))"

definition link_run :: "(jstring \<Rightarrow> (jstring \<times> jstring) option) \<Rightarrow> LinkEvent list \<Rightarrow> jstring list \<times> jstring option" where
  "link_run parse events = foldl (\<lambda>(opened, target) event.
     let (more, target') = link_event parse event target in (opened @ more, target')) ([], None) events"

lemma only_web_links_open:
  "\<forall>href \<in> set (fst (link_run parse events)). \<exists>uri. LinkActivated uri \<in> set events
     \<and> (parse uri = Some (lit ''http:'', href) \<or> parse uri = Some (lit ''https:'', href))"
  unfolding link_run_def
proof (induction events rule: rev_induct)
  case (snoc event events)
  then show ?case
    by (cases event) (auto simp: split_beta Let_def link_event_def openExternal_def OPENABLE_PROTOCOLS_def
        split: option.splits if_splits)
qed simp

definition dropped_text :: "jstring list \<Rightarrow> jstring option" where
  "dropped_text paths = (if paths = [] then None else Some (quoteShellPaths paths))"

subsection \<open>Renderer, addons and bell\<close>

datatype TerminalRenderer = RendererWebgl | RendererDom

text \<open>Where activating an addon can fail: its chunk, its constructor, or its activation on the terminal.\<close>

datatype LoadOutcome = LoadFails | ConstructFails | ActivateFails | Activates

record RendererHandle =
  rh_renderer :: TerminalRenderer
  rh_disposed :: bool
  rh_disposes :: bool

definition activateTerminalRenderer :: "LoadOutcome \<Rightarrow> RendererHandle" where
  "activateTerminalRenderer outcome =
     \<lparr>rh_renderer = (if outcome = Activates then RendererWebgl else RendererDom),
      rh_disposed = (outcome = ActivateFails), rh_disposes = (outcome = Activates)\<rparr>"

definition TERMINAL_IMAGE_POOL_BUDGET_MB :: nat where "TERMINAL_IMAGE_POOL_BUDGET_MB = 96"
definition TERMINAL_IMAGE_STORAGE_LIMIT_MB :: nat where
  "TERMINAL_IMAGE_STORAGE_LIMIT_MB = TERMINAL_IMAGE_POOL_BUDGET_MB div TERMINAL_POOL_CAP"
definition TERMINAL_IMAGE_PIXEL_LIMIT :: nat where "TERMINAL_IMAGE_PIXEL_LIMIT = 2048 * 2048"

definition activate_addon :: "LoadOutcome \<Rightarrow> bool" where "activate_addon outcome = (outcome = Activates)"

text \<open>The two addons load independently; the disposers of those that loaded run in order, each whatever the other does.\<close>

definition activateTerminalAddons :: "LoadOutcome \<Rightarrow> LoadOutcome \<Rightarrow> string list" where
  "activateTerminalAddons unicode images =
     (if activate_addon unicode then [''unicode''] else []) @ (if activate_addon images then [''image''] else [])"

lemma pool_stays_in_image_budget: "TERMINAL_POOL_CAP * TERMINAL_IMAGE_STORAGE_LIMIT_MB \<le> TERMINAL_IMAGE_POOL_BUDGET_MB"
  by (simp add: TERMINAL_IMAGE_STORAGE_LIMIT_MB_def)

text \<open>\<open>bell.ts\<close>: one audio context for the page, made by the first bell, never asked for again where it cannot be made.\<close>

definition FREQUENCY_HZ :: nat where "FREQUENCY_HZ = 880"
definition ATTACK_S :: rat where "ATTACK_S = 8 / 1000"
definition DURATION_S :: rat where "DURATION_S = 12 / 100"
definition PEAK_GAIN :: rat where "PEAK_GAIN = 6 / 100"
definition SILENCE_GAIN :: rat where "SILENCE_GAIN = 1 / 10000"

record Bell =
  be_shared :: bool
  be_unavailable :: bool
  be_constructed :: nat
  be_tones :: "(rat \<times> rat) list list"

text \<open>\<open>context\<close> constructs a context unless there is one or there cannot be; the platform says whether the constructor throws.\<close>

definition audio_context :: "bool \<Rightarrow> Bell \<Rightarrow> Bell" where
  "audio_context throws s =
     (if be_shared s \<or> be_unavailable s then s
      else if throws then s\<lparr>be_unavailable := True, be_constructed := be_constructed s + 1\<rparr>
      else s\<lparr>be_shared := True, be_constructed := be_constructed s + 1\<rparr>)"

definition bell_envelope :: "rat \<Rightarrow> (rat \<times> rat) list" where
  "bell_envelope start = [(start, SILENCE_GAIN), (start + ATTACK_S, PEAK_GAIN), (start + DURATION_S, SILENCE_GAIN)]"

definition playBell :: "bool \<Rightarrow> bool \<Rightarrow> bool \<Rightarrow> rat \<Rightarrow> Bell \<Rightarrow> Bell" where
  "playBell has_web_audio throws tone_fails now s =
     (if \<not> has_web_audio then s
      else let s = audio_context throws s in
        if \<not> be_shared s \<or> tone_fails then s else s\<lparr>be_tones := be_tones s @ [bell_envelope now]\<rparr>)"

definition bell_run :: "(bool \<times> bool \<times> bool \<times> rat) list \<Rightarrow> Bell" where
  "bell_run bells = foldl (\<lambda>s (web, throws, fails, now). playBell web throws fails now s)
     \<lparr>be_shared = False, be_unavailable = False, be_constructed = 0, be_tones = []\<rparr> bells"

definition bell_ok :: "Bell \<Rightarrow> bool" where
  "bell_ok s \<longleftrightarrow> be_constructed s \<le> 1 \<and> (be_constructed s = 0 \<longleftrightarrow> \<not> be_shared s \<and> \<not> be_unavailable s)"

lemma play_ok: "bell_ok s \<Longrightarrow> bell_ok (playBell web throws fails now s)"
  by (auto simp: bell_ok_def playBell_def audio_context_def Let_def)

lemma one_audio_context: "bell_ok (bell_run bells)"
  unfolding bell_run_def
proof (induction bells rule: rev_induct)
  case (snoc bell bells)
  then show ?case by (cases bell) (simp add: play_ok)
qed (simp add: bell_ok_def)

subsection \<open>Chrome\<close>

definition BELL_LINGER_MS :: nat where "BELL_LINGER_MS = 2500"

record Chrome =
  ch_id :: int
  ch_title :: "jstring option"
  ch_ringing :: bool
  ch_timer :: bool

definition chrome_init :: "int \<Rightarrow> Chrome" where
  "chrome_init i = \<lparr>ch_id = i, ch_title = None, ch_ringing = False, ch_timer = False\<rparr>"

definition chrome_event :: "DomainEvent \<Rightarrow> Chrome \<Rightarrow> Chrome" where
  "chrome_event event s = (case event of
       EvTerminalTitleChanged i title \<Rightarrow> if i = ch_id s then s\<lparr>ch_title := Some title\<rparr> else s
     | EvTerminalBell i \<Rightarrow> if i = ch_id s then s\<lparr>ch_ringing := True, ch_timer := True\<rparr> else s
     | _ \<Rightarrow> s)"

definition chrome_timer :: "Chrome \<Rightarrow> Chrome" where
  "chrome_timer s = (if ch_timer s then s\<lparr>ch_timer := False, ch_ringing := False\<rparr> else s)"

text \<open>Another id: the listener is changed and the timer cleared, the state is as it was.\<close>

definition chrome_rebinds :: "int \<Rightarrow> Chrome \<Rightarrow> Chrome" where
  "chrome_rebinds i s = (if i = ch_id s then s else s\<lparr>ch_id := i, ch_timer := False\<rparr>)"

lemma ringing_ends: "ch_timer s \<Longrightarrow> \<not> ch_ringing (chrome_timer s)"
  by (simp add: chrome_timer_def)

text \<open>A hook given another id keeps the first one's title, and a bell that was lingering then lingers for good.\<close>

lemma rebound_chrome_keeps_ringing:
  assumes "i \<noteq> j"
  shows "let s = chrome_rebinds j (chrome_event (EvTerminalBell i) (chrome_event (EvTerminalTitleChanged i title) (chrome_init i))) in
    ch_title s = Some title \<and> ch_ringing s \<and> chrome_timer s = s"
  using assms by (simp add: chrome_rebinds_def chrome_event_def chrome_init_def chrome_timer_def Let_def)

end
