(* ===== verification/CloneMeasure.thy ===== *)
theory CloneMeasure
  imports Prelude
begin

section \<open>Measuring how alike two files are\<close>

text \<open>
  \<open>scripts/report-duplication.mjs\<close>, its measures: the lines of a file without comments, the count of lines two files share in any
  order, the longest common subsequence over two rolling rows, and the noun that tells two file names apart. The two counts are
  proved to be the size of a multiset intersection and the length of a longest common subsequence.
\<close>

definition MIN_PAIR_SIMILARITY :: rat where "MIN_PAIR_SIMILARITY = 6 / 10"
definition MIN_FILE_LINES :: nat where "MIN_FILE_LINES = 10"
definition MIN_SHARED_LINES :: nat where "MIN_SHARED_LINES = 8"
definition BOILERPLATE_FILE_COUNT :: nat where "BOILERPLATE_FILE_COUNT = 25"
definition MAX_DIFF_CELLS :: nat where "MAX_DIFF_CELLS = 4000000"
definition BLOCK_WINDOW :: nat where "BLOCK_WINDOW = 18"
definition MIN_NAME_CONTEXT :: nat where "MIN_NAME_CONTEXT = 3"
definition MIN_NOUN_LENGTH :: nat where "MIN_NOUN_LENGTH = 3"
definition MAX_REPORTED_PAIRS :: nat where "MAX_REPORTED_PAIRS = 25"
definition MAX_REPORTED_BLOCKS :: nat where "MAX_REPORTED_BLOCKS = 12"
definition MASKED_NOUN :: jstring where "MASKED_NOUN = lit ''DOC''"

subsection \<open>Lines of code\<close>

text \<open>What follows the first occurrence of a text, if it occurs.\<close>

fun after_first :: "jstring \<Rightarrow> jstring \<Rightarrow> jstring option" where
  "after_first mark [] = None"
| "after_first mark (c # cs) = (if starts_with (c # cs) mark then Some (drop (length mark) (c # cs)) else after_first mark cs)"

lemma after_first_shorter: "after_first mark s = Some r \<Longrightarrow> length r \<le> length s"
  by (induction s) (auto split: if_splits)

text \<open>\<open>replace\<close> of \<open>BLOCK_COMMENT\<close> by a space: from an opening mark to the nearest closing one, where there is one.\<close>

function strip_block_comments :: "jstring \<Rightarrow> jstring" where
  "strip_block_comments [] = []"
| "strip_block_comments (c # cs) =
     (case (if starts_with (c # cs) (lit ''/*'') then after_first (lit ''*/'') (drop 1 cs) else None) of
        Some rest \<Rightarrow> 32 # strip_block_comments rest
      | None \<Rightarrow> c # strip_block_comments cs)"
  by pat_completeness auto

termination
proof (relation "measure length")
  fix c :: nat and cs rest
  assume "(if starts_with (c # cs) (lit ''/*'') then after_first (lit ''*/'') (drop 1 cs) else None) = Some rest"
  then have "length rest \<le> length (drop 1 cs)" by (auto split: if_splits dest: after_first_shorter)
  then show "(rest, c # cs) \<in> measure length" by simp
qed auto

definition line_end :: "nat \<Rightarrow> bool" where "line_end c \<longleftrightarrow> c \<in> {10, 13, 8232, 8233}"

text \<open>\<open>replace\<close> of \<open>LINE_COMMENT\<close>: from two slashes to the end of the line.\<close>

function strip_line_comments :: "jstring \<Rightarrow> jstring" where
  "strip_line_comments [] = []"
| "strip_line_comments (c # cs) =
     (if starts_with (c # cs) (lit ''//'') then strip_line_comments (dropWhile (\<lambda>d. \<not> line_end d) cs)
      else c # strip_line_comments cs)"
  by pat_completeness auto

termination by (relation "measure length") (auto simp: length_dropWhile_le le_imp_less_Suc)

text \<open>\<open>replace\<close> of each run of white space by one space.\<close>

fun squeeze_space :: "jstring \<Rightarrow> jstring" where
  "squeeze_space [] = []"
| "squeeze_space [c] = [if js_space c then 32 else c]"
| "squeeze_space (c # d # cs) =
     (if js_space c then (if js_space d then squeeze_space (d # cs) else 32 # squeeze_space (d # cs))
      else c # squeeze_space (d # cs))"

definition codeLines :: "jstring \<Rightarrow> jstring list" where
  "codeLines source = map (\<lambda>line. js_trim (squeeze_space line)) (split_on 10 (strip_line_comments (strip_block_comments source)))"

definition ascii_alpha :: "nat \<Rightarrow> bool" where "ascii_alpha c \<longleftrightarrow> 65 \<le> c \<and> c \<le> 90 \<or> 97 \<le> c \<and> c \<le> 122"

definition isSubstantial :: "jstring \<Rightarrow> bool" where
  "isSubstantial line \<longleftrightarrow> 6 \<le> length line \<and> list_ex ascii_alpha line"

subsection \<open>The two counts\<close>

definition take_available :: "('a, nat) jsmap \<times> nat \<Rightarrow> 'a \<Rightarrow> ('a, nat) jsmap \<times> nat" where
  "take_available st line =
     (let (remaining, shared) = st; available = (case map_get remaining line of None \<Rightarrow> 0 | Some n \<Rightarrow> n) in
      if available = 0 then (remaining, shared) else (map_set line (available - 1) remaining, shared + 1))"

definition sharedLineCount :: "'a list \<Rightarrow> 'a list \<Rightarrow> nat" where
  "sharedLineCount left right =
     (let remaining = foldl (\<lambda>m line. map_set line ((case map_get m line of None \<Rightarrow> 0 | Some n \<Rightarrow> n) + 1) m) [] left
      in snd (foldl take_available (remaining, 0) right))"

text \<open>
  One row of the diff: \<open>previous\<close> from the current column on, and the cell to the left in the row being filled. The rows are as long
  as the right side and one more, and their first cell is never written.
\<close>

fun next_cells :: "'a \<Rightarrow> 'a list \<Rightarrow> nat list \<Rightarrow> nat \<Rightarrow> nat list" where
  "next_cells leftLine (r # right) (p # q # previous) current =
     (let cell = (if leftLine = r then p + 1 else max q current) in cell # next_cells leftLine right (q # previous) cell)"
| "next_cells leftLine _ _ current = []"

definition commonLineCount :: "'a list \<Rightarrow> 'a list \<Rightarrow> nat" where
  "commonLineCount left right =
     foldl (\<lambda>previous leftLine. 0 # next_cells leftLine right previous 0) (replicate (length right + 1) 0) left ! length right"

subsection \<open>The counts are right\<close>

definition amount :: "('a, nat) jsmap \<Rightarrow> 'a \<Rightarrow> nat" where
  "amount m x = (case map_get m x of None \<Rightarrow> 0 | Some n \<Rightarrow> n)"

lemma counted: "amount (foldl (\<lambda>m line. map_set line (Suc (case map_get m line of None \<Rightarrow> 0 | Some n \<Rightarrow> n)) m) m left) x
    = amount m x + count (mset left) x"
  by (induction left arbitrary: m) (auto simp: amount_def update_conv')

lemma taken:
  "snd (foldl take_available (m, n) right) = n + (\<Sum>x \<in> set right. min (amount m x) (count (mset right) x))"
proof (induction right arbitrary: m n)
  case (Cons y right)
  let ?m = "if amount m y = 0 then m else map_set y (amount m y - 1) m"
  have step: "take_available (m, n) y = (?m, n + min 1 (amount m y))"
    by (simp add: take_available_def amount_def Let_def)
  have amount: "amount ?m x = (if x = y then amount m y - 1 else amount m x)" for x
    by (auto simp: amount_def update_conv')
  let ?f = "\<lambda>x. min (amount ?m x) (count (mset right) x)" and ?g = "\<lambda>x. min (amount m x) (count (mset (y # right)) x)"
  have f: "(\<Sum>x \<in> set right. ?f x) = ?f y + (\<Sum>x \<in> set right - {y}. ?f x)"
  proof (cases "y \<in> set right")
    case False
    then have "count (mset right) y = 0" by simp
    then show ?thesis using False by (simp del: count_mset_0_iff)
  qed (simp add: sum.remove)
  have g: "(\<Sum>x \<in> set (y # right). ?g x) = ?g y + (\<Sum>x \<in> set right - {y}. ?g x)"
    by (simp add: sum.insert_remove)
  have same: "(\<Sum>x \<in> set right - {y}. ?f x) = (\<Sum>x \<in> set right - {y}. ?g x)"
    by (rule sum.cong) (auto simp: amount)
  have "min 1 (amount m y) + ?f y = ?g y" by (simp add: amount)
  then show ?case using Cons.IH [of ?m "n + min 1 (amount m y)"] step f g same by (simp del: amount)
qed simp

lemma shared_is_intersection: "sharedLineCount left right = size (mset left \<inter># mset right)"
proof -
  have "amount [] x = 0" for x :: 'a by (simp add: amount_def)
  then have "sharedLineCount left right = (\<Sum>x \<in> set right. min (count (mset left) x) (count (mset right) x))"
    by (simp add: sharedLineCount_def Let_def taken counted)
  also have "\<dots> = (\<Sum>x \<in> set_mset (mset left \<inter># mset right). min (count (mset left) x) (count (mset right) x))"
    by (rule sum.mono_neutral_right) (auto simp: count_mset_0_iff)
  finally show ?thesis by (simp add: size_multiset_overloaded_eq)
qed

text \<open>The length of a longest common subsequence, by its recursion from the front.\<close>

fun lcs :: "'a list \<Rightarrow> 'a list \<Rightarrow> nat" where
  "lcs [] ys = 0"
| "lcs xs [] = 0"
| "lcs (x # xs) (y # ys) = (if x = y then Suc (lcs xs ys) else max (lcs xs (y # ys)) (lcs (x # xs) ys))"

lemma lcs_Nil2 [simp]: "lcs xs [] = 0"
  by (cases xs) simp_all

lemma lcs_attained: "\<exists>s. subseq s xs \<and> subseq s ys \<and> length s = lcs xs ys"
proof (induction xs ys rule: lcs.induct)
  case (3 x xs y ys)
  show ?case
  proof (cases "x = y")
    case True
    then obtain s where "subseq s xs" "subseq s ys" "length s = lcs xs ys" using 3 by blast
    then show ?thesis using True by (intro exI [of _ "x # s"]) auto
  next
    case False
    then obtain s t where "subseq s xs" "subseq s (y # ys)" "length s = lcs xs (y # ys)"
      "subseq t (x # xs)" "subseq t ys" "length t = lcs (x # xs) ys" using 3 by blast
    then show ?thesis using False
      by (cases "lcs xs (y # ys) \<le> lcs (x # xs) ys") (auto simp: max_def intro: exI [of _ t] exI [of _ s])
  qed
qed auto

lemma lcs_bounds: "subseq s xs \<Longrightarrow> subseq s ys \<Longrightarrow> length s \<le> lcs xs ys"
proof (induction xs ys arbitrary: s rule: lcs.induct)
  case (3 x xs y ys)
  show ?case
  proof (cases s)
    case (Cons a t)
    show ?thesis
    proof (cases "x = y")
      case True
      have "length t \<le> lcs xs ys"
        using 3(1) [OF True, of t] 3(4,5) Cons by (metis subseq_Cons' subseq_Cons2_iff)
      then show ?thesis using True Cons by simp
    next
      case False
      then have "subseq s xs \<or> subseq s ys" using 3(4,5) Cons by (simp split: if_splits)
      then show ?thesis using 3(2,3) [OF False] 3(4,5) False by (auto simp: le_max_iff_disj)
    qed
  qed simp
qed auto

lemma lcs_is_longest: "lcs xs ys = Max (length ` {s. subseq s xs \<and> subseq s ys})"
proof (rule sym, rule Max_eqI)
  have "{s. subseq s xs} = set (subseqs xs)" by auto
  then have "finite {s. subseq s xs}" by simp
  then show "finite (length ` {s. subseq s xs \<and> subseq s ys})" by simp
qed (use lcs_attained [of xs ys] lcs_bounds in \<open>auto simp: image_iff\<close>)

lemma subseq_both_rev: "subseq xs ys \<Longrightarrow> subseq (rev xs) (rev ys)"
proof (induction xs ys rule: list_emb.induct)
  case (list_emb_Cons2 x y xs ys)
  then have "subseq (rev xs @ [x]) (rev ys @ [y])" by (intro list_emb_append_mono) simp_all
  then show ?case by simp
qed (simp_all add: subseq_rev_drop_many)

lemma subseq_submset: "subseq xs ys \<Longrightarrow> mset xs \<subseteq># mset ys"
proof (induction xs ys rule: list_emb.induct)
  case (list_emb_Cons xs ys y)
  then show ?case by (simp add: subset_mset.le_iff_add) (metis add_mset_add_single union_assoc)
qed simp_all

lemma lcs_rev: "lcs (rev xs) (rev ys) = lcs xs ys"
proof -
  have le: "lcs (rev us) (rev vs) \<le> lcs us vs" for us vs :: "'b list"
  proof -
    obtain s where s: "subseq s (rev us)" "subseq s (rev vs)" "length s = lcs (rev us) (rev vs)"
      using lcs_attained by blast
    then have "subseq (rev s) us" "subseq (rev s) vs" using subseq_both_rev by (metis rev_rev_ident)+
    then show ?thesis using lcs_bounds s(3) by (metis length_rev)
  qed
  show ?thesis using le [of xs ys] le [of "rev xs" "rev ys"] by simp
qed

text \<open>The rows hold the longest common subsequences of the prefixes.\<close>

fun grown :: "'a list \<Rightarrow> 'a list \<Rightarrow> 'a list list" where
  "grown zs [] = [zs]"
| "grown zs (r # rs) = zs # grown (zs @ [r]) rs"

lemma grown_Cons: "grown zs rs = zs # tl (grown zs rs)"
  by (cases rs) simp_all

lemma grown_last: "length (grown zs rs) = Suc (length rs)" "grown zs rs ! length rs = zs @ rs"
  by (induction rs arbitrary: zs) simp_all

definition plcs :: "'a list \<Rightarrow> 'a list \<Rightarrow> nat" where "plcs xs zs = lcs (rev xs) (rev zs)"

lemma plcs_simps: "plcs xs [] = 0" "plcs [] zs = 0"
  "plcs (xs @ [x]) (zs @ [r]) = (if x = r then Suc (plcs xs zs) else max (plcs xs (zs @ [r])) (plcs (xs @ [x]) zs))"
  by (simp_all add: plcs_def)

lemma next_cells_prefixes:
  "next_cells x rs (map (plcs xs) (grown zs rs)) (plcs (xs @ [x]) zs) = map (plcs (xs @ [x])) (tl (grown zs rs))"
proof (induction rs arbitrary: zs)
  case (Cons r rs)
  obtain u where rest: "grown (zs @ [r]) rs = (zs @ [r]) # u" using grown_Cons by blast
  have "next_cells x (r # rs) (map (plcs xs) (grown zs (r # rs))) (plcs (xs @ [x]) zs)
      = plcs (xs @ [x]) (zs @ [r]) # next_cells x rs (map (plcs xs) (grown (zs @ [r]) rs)) (plcs (xs @ [x]) (zs @ [r]))"
    by (simp add: rest plcs_simps(3) Let_def)
  also have "\<dots> = map (plcs (xs @ [x])) (grown (zs @ [r]) rs)"
    using Cons.IH [of "zs @ [r]"] by (simp add: rest)
  finally show ?case by simp
qed simp

lemma row_of_prefix:
  "foldl (\<lambda>previous leftLine. 0 # next_cells leftLine right previous 0) (replicate (length right + 1) 0) left
     = map (plcs left) (grown [] right)"
proof (induction left rule: rev_induct)
  case Nil
  have "map (plcs []) (grown zs rs) = replicate (length rs + 1) 0" for zs rs :: "'a list"
    by (induction rs arbitrary: zs) (simp_all add: plcs_simps)
  then show ?case by simp
next
  case (snoc x left)
  show ?case
    using snoc next_cells_prefixes [of x right left "[]"] by (simp add: plcs_simps) (subst grown_Cons, simp add: plcs_simps)
qed

lemma common_is_lcs: "commonLineCount left right = lcs left right"
  unfolding commonLineCount_def row_of_prefix using grown_last [of "[]" right] by (simp add: plcs_def lcs_rev)

lemma common_le_shared: "commonLineCount left right \<le> sharedLineCount left right"
proof -
  obtain s where s: "subseq s left" "subseq s right" "length s = lcs left right" using lcs_attained by blast
  have "mset s \<subseteq># mset left \<inter># mset right" using s(1,2) by (simp add: subseq_submset)
  then have "length s \<le> size (mset left \<inter># mset right)" by (metis size_mset size_mset_mono)
  then show ?thesis using s(3) by (simp add: common_is_lcs shared_is_intersection)
qed

text \<open>
  C15. The diff over two rolling rows computes the length of a longest common subsequence of the
  two files' lines, and the count of lines shared in any order, the size of their multiset
  intersection, is never below it: a pair dropped by the cheap count is one the diff would have
  dropped.
\<close>

theorem common_lines_is_longest:
  "commonLineCount left right = Max (length ` {s. subseq s left \<and> subseq s right})
   \<and> sharedLineCount left right = size (mset left \<inter># mset right) \<and> commonLineCount left right \<le> sharedLineCount left right"
  using common_le_shared [of left right] by (simp add: common_is_lcs lcs_is_longest shared_is_intersection)

subsection \<open>The noun that tells two names apart\<close>

definition word_mark :: "nat \<Rightarrow> bool" where "word_mark c \<longleftrightarrow> c \<in> {95, 45, 46}"
definition upper_letter :: "nat \<Rightarrow> bool" where "upper_letter c \<longleftrightarrow> 65 \<le> c \<and> c \<le> 90"
definition lower_or_digit :: "nat \<Rightarrow> bool" where "lower_or_digit c \<longleftrightarrow> 97 \<le> c \<and> c \<le> 122 \<or> is_digit_unit c"

definition isWordBoundary :: "jstring \<Rightarrow> nat \<Rightarrow> bool" where
  "isWordBoundary name offset \<longleftrightarrow> offset = 0 \<or> offset = length name
     \<or> word_mark (name ! (offset - 1)) \<or> word_mark (name ! offset)
     \<or> upper_letter (name ! offset) \<and> lower_or_digit (name ! (offset - 1))"

text \<open>The name without its last extension.\<close>

definition strip_extension :: "jstring \<Rightarrow> jstring" where
  "strip_extension name =
     (let tail = takeWhile (\<lambda>c. c \<noteq> 46 \<and> c \<noteq> 47) (rev name); before = drop (length tail) (rev name) in
      if tail \<noteq> [] \<and> before \<noteq> [] \<and> hd before = 46 then rev (tl before) else name)"

fun common_prefix :: "'a list \<Rightarrow> 'a list \<Rightarrow> nat" where
  "common_prefix (x # xs) (y # ys) = (if x = y then Suc (common_prefix xs ys) else 0)"
| "common_prefix _ _ = 0"

fun pull_back :: "(nat \<Rightarrow> bool) \<Rightarrow> nat \<Rightarrow> nat" where
  "pull_back ok 0 = 0"
| "pull_back ok (Suc n) = (if ok (Suc n) then Suc n else pull_back ok n)"

definition differingNouns :: "jstring \<Rightarrow> jstring \<Rightarrow> (jstring \<times> jstring) option" where
  "differingNouns left right =
     (let a = strip_extension left; b = strip_extension right;
          prefix0 = common_prefix a b;
          suffix0 = common_prefix (rev (drop prefix0 a)) (rev (drop prefix0 b));
          cut = pull_back (\<lambda>n. isWordBoundary a n \<and> isWordBoundary b n) prefix0;
          kept = pull_back (\<lambda>n. isWordBoundary a (length a - n) \<and> isWordBoundary b (length b - n)) suffix0;
          noun = (\<lambda>name. take (length name - kept - cut) (drop cut name));
          usable = (\<lambda>n. MIN_NOUN_LENGTH \<le> length n \<and> list_all ascii_alpha n)
      in if cut + kept < MIN_NAME_CONTEXT then None
         else if usable (noun a) \<and> usable (noun b) then Some (noun a, noun b) else None)"

text \<open>\<open>mask\<close>: the noun and an \<open>s\<close> after it, in either case, become the mark. A noun is letters, so it is its own pattern.\<close>

function mask_line :: "jstring \<Rightarrow> jstring \<Rightarrow> jstring" where
  "mask_line noun [] = []"
| "mask_line noun (c # cs) =
     (if starts_with (map ascii_lower (c # cs)) (map ascii_lower noun) then
        (let rest = drop (length noun - 1) cs; rest = (case rest of d # ds \<Rightarrow> if d \<in> {115, 83} then ds else rest | [] \<Rightarrow> []) in
         MASKED_NOUN @ mask_line noun rest)
      else c # mask_line noun cs)"
  by pat_completeness auto

termination
  by (relation "measure (\<lambda>(noun, s). length s)") (auto split: list.split dest!: arg_cong [where f = length])

definition mask :: "jstring list \<Rightarrow> jstring \<Rightarrow> jstring list" where "mask lines noun = map (mask_line noun) lines"

lemma common_prefix_take: "n \<le> common_prefix xs ys \<Longrightarrow> take n xs = take n ys \<and> n \<le> length xs \<and> n \<le> length ys"
proof (induction xs ys arbitrary: n rule: common_prefix.induct)
  case (1 x xs y ys)
  then show ?case by (cases n) (auto split: if_splits)
qed auto

lemma pull_back_le: "pull_back ok n \<le> n"
  by (induction n) auto

lemma pull_back_ok: "ok 0 \<Longrightarrow> ok (pull_back ok n)"
  by (induction n) auto

text \<open>
  Two nouns are reported only when they explain the two names: taken out of a front and a back
  that both names share and that are cut at word boundaries, at least three characters of them,
  and made of three letters or more.
\<close>

theorem nouns_explain_names:
  assumes "differingNouns left right = Some (m, n)"
  shows "\<exists>front back. strip_extension left = front @ m @ back \<and> strip_extension right = front @ n @ back
    \<and> MIN_NAME_CONTEXT \<le> length front + length back \<and> MIN_NOUN_LENGTH \<le> length m \<and> MIN_NOUN_LENGTH \<le> length n
    \<and> list_all ascii_alpha m \<and> list_all ascii_alpha n
    \<and> isWordBoundary (strip_extension left) (length front) \<and> isWordBoundary (strip_extension right) (length front)
    \<and> isWordBoundary (strip_extension left) (length front + length m) \<and> isWordBoundary (strip_extension right) (length front + length n)"
proof -
  define a where "a = strip_extension left"
  define b where "b = strip_extension right"
  define p where "p = common_prefix a b"
  define q where "q = common_prefix (rev (drop p a)) (rev (drop p b))"
  define cut where "cut = pull_back (\<lambda>n. isWordBoundary a n \<and> isWordBoundary b n) p"
  define kept where "kept = pull_back (\<lambda>n. isWordBoundary a (length a - n) \<and> isWordBoundary b (length b - n)) q"
  have r: "MIN_NAME_CONTEXT \<le> cut + kept" "m = take (length a - kept - cut) (drop cut a)" "n = take (length b - kept - cut) (drop cut b)"
    "MIN_NOUN_LENGTH \<le> length m" "MIN_NOUN_LENGTH \<le> length n" "list_all ascii_alpha m" "list_all ascii_alpha n"
    using assms unfolding differingNouns_def Let_def a_def [symmetric] b_def [symmetric] p_def [symmetric] q_def [symmetric]
      cut_def [symmetric] kept_def [symmetric] by (auto split: if_splits)
  have cut: "cut \<le> p" "isWordBoundary a cut" "isWordBoundary b cut"
    using pull_back_le pull_back_ok [of "\<lambda>n. isWordBoundary a n \<and> isWordBoundary b n" p] by (auto simp: cut_def isWordBoundary_def)
  have kept: "kept \<le> q" "isWordBoundary a (length a - kept)" "isWordBoundary b (length b - kept)"
    using pull_back_le pull_back_ok [of "\<lambda>n. isWordBoundary a (length a - n) \<and> isWordBoundary b (length b - n)" q]
    by (auto simp: kept_def isWordBoundary_def)
  have front: "take cut a = take cut b" and "p \<le> length a" "p \<le> length b" using common_prefix_take [of cut a b] common_prefix_take [of p a b] cut(1) by (auto simp: p_def)
  have tails: "take kept (rev (drop p a)) = take kept (rev (drop p b))" "kept \<le> length a - p" "kept \<le> length b - p"
    using common_prefix_take [of kept "rev (drop p a)" "rev (drop p b)"] kept(1) by (auto simp: q_def)
  have ends: "drop (length a - kept) a = drop (length b - kept) b"
    using tails \<open>p \<le> length a\<close> \<open>p \<le> length b\<close> by (simp add: take_rev)
  have split: "x = take cut x @ take (length x - kept - cut) (drop cut x) @ drop (length x - kept) x"
    if "cut + kept \<le> length x" for x :: jstring
    using that by (metis append_take_drop_id drop_drop le_add_diff_inverse2 add.commute le_diff_conv2 add_leD1 diff_add)
  have fits: "cut + kept \<le> length a" "cut + kept \<le> length b"
    using cut(1) tails(2,3) \<open>p \<le> length a\<close> \<open>p \<le> length b\<close> by auto
  show ?thesis
    unfolding a_def [symmetric] b_def [symmetric]
    using split [OF fits(1)] split [OF fits(2)] front ends r cut(2,3) kept(2,3) fits
    by (intro exI [of _ "take cut a"] exI [of _ "drop (length a - kept) a"]) (auto simp: le_add_diff_inverse)
qed

theorem nouns_explain_names_witness:
  "differingNouns (lit ''PadList.ts'') (lit ''MapList.ts'') = Some (lit ''Pad'', lit ''Map'')
   \<and> (\<exists>front back. strip_extension (lit ''PadList.ts'') = front @ lit ''Pad'' @ back
        \<and> strip_extension (lit ''MapList.ts'') = front @ lit ''Map'' @ back)"
proof -
  have "differingNouns (lit ''PadList.ts'') (lit ''MapList.ts'') = Some (lit ''Pad'', lit ''Map'')"
    by (simp add: differingNouns_def strip_extension_def isWordBoundary_def word_mark_def upper_letter_def lower_or_digit_def
        is_digit_unit_def ascii_alpha_def MIN_NAME_CONTEXT_def MIN_NOUN_LENGTH_def Let_def numeral_eq_Suc lit_def)
  then show ?thesis using nouns_explain_names by blast
qed

end
