(* ===== verification/CloneReport.thy ===== *)
theory CloneReport
  imports CloneMeasure Ordering
begin

section \<open>The duplication report\<close>

text \<open>
  \<open>scripts/report-duplication.mjs\<close>, from the listed files to the printed lines: the candidate pairs, the cloned files among them,
  the blocks repeated verbatim and the report. The listing and reading of files and the digest are parameters; a similarity is a
  rational, where the script has a double.
\<close>

record SourceFile =
  src_path :: jstring
  src_lines :: "jstring list"
  src_substantial :: "(jstring \<times> nat) list"
  src_hashes :: "jstring list"

definition sourcePaths :: "jstring \<Rightarrow> jstring list" where
  "sourcePaths listed = filter (\<lambda>p. p \<noteq> []) (split_on 10 listed)"

definition windows :: "jstring list \<Rightarrow> jstring list list" where
  "windows texts = map (\<lambda>start. take BLOCK_WINDOW (drop start texts)) [0..<Suc (length texts) - BLOCK_WINDOW]"

definition blockHashes :: "(jstring \<Rightarrow> jstring) \<Rightarrow> (jstring \<times> nat) list \<Rightarrow> jstring list" where
  "blockHashes digest substantial = map (\<lambda>w. digest (join_with [10] w)) (windows (map fst substantial))"

definition load :: "(jstring \<Rightarrow> jstring) \<Rightarrow> jstring \<Rightarrow> jstring \<Rightarrow> SourceFile" where
  "load digest path raw =
     (let numbered = filter (\<lambda>(t, n). t \<noteq> []) (zip (codeLines raw) [1..<Suc (length (codeLines raw))]);
          substantial = filter (\<lambda>(t, n). isSubstantial t) numbered
      in \<lparr>src_path = path, src_lines = map fst numbered, src_substantial = substantial, src_hashes = blockHashes digest substantial\<rparr>)"

definition basename :: "jstring \<Rightarrow> jstring" where "basename path = rev (takeWhile (\<lambda>c. c \<noteq> 47) (rev path))"

text \<open>\<open>slice\<close> from the last dot; where there is none the index is -1, the last character.\<close>

definition extension :: "jstring \<Rightarrow> jstring" where
  "extension path = (if 46 \<in> set path then 46 # rev (takeWhile (\<lambda>c. c \<noteq> 46) (rev path)) else drop (length path - 1) path)"

subsection \<open>Candidates\<close>

text \<open>\<open>new Set(xs)\<close>: each element where it is first.\<close>

definition as_set :: "'a list \<Rightarrow> 'a list" where "as_set xs = rev (remdups (rev xs))"

definition pairs_of :: "'a list \<Rightarrow> ('a \<times> 'a) list" where
  "pairs_of xs = concat (map (\<lambda>i. map (\<lambda>j. (xs ! i, xs ! j)) [Suc i..<length xs]) [0..<length xs])"

definition pushed :: "'k \<Rightarrow> 'v \<Rightarrow> ('k, 'v list) jsmap \<Rightarrow> ('k, 'v list) jsmap" where
  "pushed k v m = map_set k ((case map_get m k of None \<Rightarrow> [] | Some vs \<Rightarrow> vs) @ [v]) m"

definition line_owners :: "SourceFile list \<Rightarrow> (jstring, nat list) jsmap" where
  "line_owners files = foldl (\<lambda>m (i, file). foldl (\<lambda>m t. pushed t i m) m (as_set (map fst (src_substantial file)))) [] (enumerate 0 files)"

definition shared_counts :: "(jstring, nat list) jsmap \<Rightarrow> (nat \<times> nat, nat) jsmap" where
  "shared_counts owners = foldl (\<lambda>m pair. map_set pair ((case map_get m pair of None \<Rightarrow> 0 | Some n \<Rightarrow> n) + 1) m) []
     (concat (map (\<lambda>(t, indices). if length indices < 2 \<or> BOILERPLATE_FILE_COUNT < length indices then [] else pairs_of indices) owners))"

record CandidatePair =
  cp_left :: nat
  cp_right :: nat
  cp_nouns :: "(jstring \<times> jstring) option"

definition add_candidate ::
  "SourceFile list \<Rightarrow> nat \<Rightarrow> nat \<Rightarrow> (jstring \<times> jstring) option \<Rightarrow> (nat \<times> nat, CandidatePair) jsmap \<Rightarrow> (nat \<times> nat, CandidatePair) jsmap" where
  "add_candidate files left right nouns candidates =
     (if min (length (src_lines (files ! left))) (length (src_lines (files ! right))) < MIN_FILE_LINES then candidates
      else map_set (left, right) \<lparr>cp_left = left, cp_right = right,
        cp_nouns = (case nouns of Some n \<Rightarrow> Some n | None \<Rightarrow> Option.bind (map_get candidates (left, right)) cp_nouns)\<rparr> candidates)"

definition candidatePairs :: "SourceFile list \<Rightarrow> CandidatePair list" where
  "candidatePairs files =
     (let shared = shared_counts (line_owners files);
          by_lines = foldl (\<lambda>m ((left, right), n). if n < MIN_SHARED_LINES then m else add_candidate files left right None m) [] shared;
          by_names = foldl (\<lambda>m (i, j).
              if extension (src_path (files ! i)) \<noteq> extension (src_path (files ! j)) then m
              else case differingNouns (basename (src_path (files ! i))) (basename (src_path (files ! j))) of
                None \<Rightarrow> m | Some nouns \<Rightarrow> add_candidate files i j (Some nouns) m) by_lines (pairs_of [0..<length files])
      in map snd by_names)"

subsection \<open>Cloned files\<close>

record ClonedPair =
  cl_paths :: "jstring \<times> jstring"
  cl_similarity :: rat
  cl_differing :: int
  cl_total :: nat
  cl_nouns :: "(jstring \<times> jstring) option"

definition masked_lines :: "SourceFile list \<Rightarrow> CandidatePair \<Rightarrow> jstring list \<times> jstring list" where
  "masked_lines files c = (let a = src_lines (files ! cp_left c); b = src_lines (files ! cp_right c) in
     case cp_nouns c of None \<Rightarrow> (a, b) | Some (m, n) \<Rightarrow> (mask a m, mask b n))"

definition shared_bound :: "SourceFile list \<Rightarrow> CandidatePair \<Rightarrow> nat" where
  "shared_bound files c =
     (let a = src_lines (files ! cp_left c); b = src_lines (files ! cp_right c); plainBound = sharedLineCount a b;
          (maskedA, maskedB) = masked_lines files c;
          maskedBound = (if cp_nouns c \<noteq> None then sharedLineCount maskedA maskedB else plainBound)
      in max plainBound maskedBound)"

definition pair_score :: "SourceFile list \<Rightarrow> CandidatePair \<Rightarrow> ClonedPair" where
  "pair_score files c =
     (let a = src_lines (files ! cp_left c); b = src_lines (files ! cp_right c); (maskedA, maskedB) = masked_lines files c;
          all_lines = length a + length b; plain = commonLineCount a b;
          masked = (if cp_nouns c \<noteq> None then commonLineCount maskedA maskedB else plain); common = max plain masked
      in \<lparr>cl_paths = (src_path (files ! cp_left c), src_path (files ! cp_right c)), cl_similarity = of_nat (2 * common) / of_nat all_lines,
          cl_differing = int all_lines - 2 * int common, cl_total = all_lines, cl_nouns = (if masked > plain then cp_nouns c else None)\<rparr>)"

definition too_wide :: "SourceFile list \<Rightarrow> CandidatePair \<Rightarrow> bool" where
  "too_wide files c \<longleftrightarrow> MAX_DIFF_CELLS < length (src_lines (files ! cp_left c)) * length (src_lines (files ! cp_right c))"

definition scored_pair :: "SourceFile list \<Rightarrow> CandidatePair \<Rightarrow> ClonedPair list" where
  "scored_pair files c =
     (let all_lines = length (src_lines (files ! cp_left c)) + length (src_lines (files ! cp_right c)) in
      if too_wide files c then []
      else if (of_nat (2 * shared_bound files c) / of_nat all_lines :: rat) < MIN_PAIR_SIMILARITY then []
      else let score = pair_score files c in if cl_similarity score < MIN_PAIR_SIMILARITY then [] else [score])"

definition rat_compare :: "rat \<Rightarrow> rat \<Rightarrow> int" where "rat_compare a b = (if a < b then - 1 else if b < a then 1 else 0)"

definition cloned_weight :: "ClonedPair \<Rightarrow> rat" where "cloned_weight p = cl_similarity p * of_nat (cl_total p)"

definition worst_first :: "ClonedPair list \<Rightarrow> ClonedPair list" where
  "worst_first = js_sort (\<lambda>x y. rat_compare (cloned_weight y) (cloned_weight x))"

definition clonedFiles :: "SourceFile list \<Rightarrow> ClonedPair list" where
  "clonedFiles files = worst_first (concat (map (scored_pair files) (candidatePairs files)))"

lemma common_within_bound:
  "max (commonLineCount a b) (commonLineCount c d) \<le> max (sharedLineCount a b) (sharedLineCount c d)"
  by (rule max.mono) (rule common_le_shared)+

lemma similarity_within_bound:
  "cl_similarity (pair_score files c) \<le> of_nat (2 * shared_bound files c) / of_nat (cl_total (pair_score files c))"
proof -
  let ?a = "src_lines (files ! cp_left c)" and ?b = "src_lines (files ! cp_right c)"
  obtain m n where mn: "masked_lines files c = (m, n)" by (rule prod.exhaust)
  let ?common = "max (commonLineCount ?a ?b) (if cp_nouns c \<noteq> None then commonLineCount m n else commonLineCount ?a ?b)"
  have "?common \<le> shared_bound files c"
    using common_within_bound [of ?a ?b m n] common_le_shared [of ?a ?b] mn by (simp add: shared_bound_def Let_def)
  then have "(of_nat (2 * ?common) :: rat) / of_nat (length ?a + length ?b) \<le> of_nat (2 * shared_bound files c) / of_nat (length ?a + length ?b)"
    by (intro divide_right_mono) simp_all
  then show ?thesis using mn by (simp add: pair_score_def Let_def)
qed

text \<open>
  C16. The cheap count that spares most pairs the diff loses none: the report of cloned files is
  exactly the candidate pairs, but for those too wide to diff, whose similarity by the longest
  common subsequence reaches the threshold, worst first.
\<close>

theorem prefilter_loses_no_clone:
  "clonedFiles files = worst_first (filter (\<lambda>p. MIN_PAIR_SIMILARITY \<le> cl_similarity p)
     (map (pair_score files) (filter (\<lambda>c. \<not> too_wide files c) (candidatePairs files))))"
proof -
  have "scored_pair files c = filter (\<lambda>p. MIN_PAIR_SIMILARITY \<le> cl_similarity p) (map (pair_score files) (if too_wide files c then [] else [c]))" for c
  proof -
    have "cl_total (pair_score files c) = length (src_lines (files ! cp_left c)) + length (src_lines (files ! cp_right c))"
      by (simp add: pair_score_def Let_def split: prod.split)
    then show ?thesis
      using similarity_within_bound [of files c] by (auto simp: scored_pair_def Let_def)
  qed
  then have "concat (map (scored_pair files) cs) = filter (\<lambda>p. MIN_PAIR_SIMILARITY \<le> cl_similarity p)
      (map (pair_score files) (filter (\<lambda>c. \<not> too_wide files c) cs))" for cs
    by (induction cs) simp_all
  then show ?thesis by (simp add: clonedFiles_def)
qed

subsection \<open>Cloned blocks\<close>

definition pairKey :: "jstring \<Rightarrow> jstring \<Rightarrow> jstring" where
  "pairKey left right = (if unit_compare left right < 0 then left @ lit ''|'' @ right else right @ lit ''|'' @ left)"

record ClonedBlock =
  bk_length :: nat
  bk_locations :: "jstring \<times> jstring"

definition texts_of :: "SourceFile \<Rightarrow> jstring list" where "texts_of file = map fst (src_substantial file)"

definition line_of :: "SourceFile \<Rightarrow> nat \<Rightarrow> nat" where "line_of file i = snd (src_substantial file ! i)"

definition block_span :: "SourceFile \<Rightarrow> nat \<Rightarrow> nat \<Rightarrow> jstring" where
  "block_span file start n = src_path file @ lit '':'' @ show_nat (line_of file start) @ lit ''-'' @ show_nat (line_of file (start + n - 1))"

definition hash_index :: "SourceFile list \<Rightarrow> (jstring, (nat \<times> nat) list) jsmap" where
  "hash_index files = foldl (\<lambda>m (fileIndex, file). foldl (\<lambda>m (start, hash). pushed hash (fileIndex, start) m) m (enumerate 0 (src_hashes file)))
     [] (enumerate 0 files)"

text \<open>The loop that grows a block while both files go on and agree.\<close>

definition grow_block :: "jstring list \<Rightarrow> jstring list \<Rightarrow> nat" where
  "grow_block mine theirs = BLOCK_WINDOW + common_prefix (drop BLOCK_WINDOW mine) (drop BLOCK_WINDOW theirs)"

definition may_partner ::
  "SourceFile list \<Rightarrow> jstring set \<Rightarrow> (nat \<times> nat) set \<Rightarrow> nat \<Rightarrow> nat \<Rightarrow> nat \<times> nat \<Rightarrow> bool" where
  "may_partner files skipPairs covered fileIndex start other \<longleftrightarrow>
     (let (otherFile, otherStart) = other in
        other \<notin> covered
      \<and> \<not> (otherFile = fileIndex \<and> \<bar>int otherStart - int start\<bar> < int BLOCK_WINDOW)
      \<and> \<not> (otherFile = fileIndex \<and> otherStart = start)
      \<and> pairKey (src_path (files ! fileIndex)) (src_path (files ! otherFile)) \<notin> skipPairs)"

definition visit_start ::
  "SourceFile list \<Rightarrow> jstring set \<Rightarrow> (nat \<times> nat) set \<times> ClonedBlock list \<Rightarrow> nat \<times> nat \<times> jstring \<Rightarrow> (nat \<times> nat) set \<times> ClonedBlock list" where
  "visit_start files skipPairs st at_start =
     (let (covered, blocks) = st; (fileIndex, start, hash) = at_start in
      if (fileIndex, start) \<in> covered then st
      else case find (may_partner files skipPairs covered fileIndex start)
             (case map_get (hash_index files) hash of None \<Rightarrow> [] | Some seen \<Rightarrow> seen) of
        None \<Rightarrow> st
      | Some (otherFile, otherStart) \<Rightarrow>
          let file = files ! fileIndex; other = files ! otherFile;
              n = grow_block (drop start (texts_of file)) (drop otherStart (texts_of other))
          in (covered \<union> (\<Union>k \<in> {..<n}. {(fileIndex, start + k), (otherFile, otherStart + k)}),
              blocks @ [\<lparr>bk_length = n, bk_locations = (block_span file start n, block_span other otherStart n)\<rparr>]))"

definition block_starts :: "SourceFile list \<Rightarrow> (nat \<times> nat \<times> jstring) list" where
  "block_starts files = concat (map (\<lambda>(fileIndex, file). map (\<lambda>(start, hash). (fileIndex, start, hash)) (enumerate 0 (src_hashes file)))
     (enumerate 0 files))"

definition clonedBlocks :: "SourceFile list \<Rightarrow> jstring set \<Rightarrow> ClonedBlock list" where
  "clonedBlocks files skipPairs =
     js_sort (\<lambda>x y. int (bk_length y) - int (bk_length x)) (snd (foldl (visit_start files skipPairs) ({}, []) (block_starts files)))"

lemma pairKey_symmetric: "pairKey left right = pairKey right left"
  using unit_compare_swap [of left right] unit_compare_zero [of left right] by (auto simp: pairKey_def)

text \<open>What the index holds under a hash: the places whose window has it.\<close>

lemma pushed_get: "map_get (pushed k v m) j = (if j = k then Some ((case map_get m k of None \<Rightarrow> [] | Some vs \<Rightarrow> vs) @ [v]) else map_get m j)"
  by (simp add: pushed_def update_conv')

definition entries_of :: "('k, 'v list) jsmap \<Rightarrow> 'k \<Rightarrow> 'v set" where
  "entries_of m k = (case map_get m k of None \<Rightarrow> {} | Some vs \<Rightarrow> set vs)"

lemma entries_pushed: "entries_of (pushed k v m) j = entries_of m j \<union> (if j = k then {v} else {})"
  by (simp add: entries_of_def pushed_get split: option.split)

lemma entries_fold: "entries_of (foldl (\<lambda>m (v, k). pushed k (f v) m) m es) j = entries_of m j \<union> f ` {v. (v, j) \<in> set es}"
  by (induction es arbitrary: m) (auto simp: entries_pushed split: if_splits)

lemma entries_nil [simp]: "entries_of [] k = {}"
  by (simp add: entries_of_def)

lemma entries_files:
  "entries_of (foldl (\<lambda>m (i, file). foldl (\<lambda>m (start, hash). pushed hash (i, start) m) m (enumerate 0 (src_hashes file))) m es) j
     = entries_of m j \<union> {(i, start). \<exists>file. (i, file) \<in> set es \<and> (start, j) \<in> set (enumerate 0 (src_hashes file))}"
proof (induction es arbitrary: m)
  case (Cons e es)
  obtain i f where e: "e = (i, f)" by (rule prod.exhaust)
  have inner: "entries_of (foldl (\<lambda>m (start, hash). pushed hash (i, start) m) m (enumerate 0 (src_hashes f))) j
      = entries_of m j \<union> Pair i ` {v. (v, j) \<in> set (enumerate 0 (src_hashes f))}"
    by (rule entries_fold)
  show ?case by (auto simp: e Cons.IH inner simp del: in_set_enumerate_eq)
qed simp

lemma indexed:
  assumes "(i, start) \<in> entries_of (hash_index files) hash"
  shows "i < length files \<and> start < length (src_hashes (files ! i)) \<and> src_hashes (files ! i) ! start = hash"
proof -
  have "(i, start) \<in> {(i, start). \<exists>file. (i, file) \<in> set (enumerate 0 files) \<and> (start, hash) \<in> set (enumerate 0 (src_hashes file))}"
    using assms entries_files [of "[]" "enumerate 0 files" hash] unfolding hash_index_def by simp
  then show ?thesis by (auto simp: in_set_enumerate_eq)
qed

text \<open>A block reported soundly: two places, neither the other nor inside its first window, whose lines are the same.\<close>

definition block_sound :: "SourceFile list \<Rightarrow> jstring set \<Rightarrow> ClonedBlock \<Rightarrow> bool" where
  "block_sound files skipPairs b \<longleftrightarrow> (\<exists>i j s t. i < length files \<and> j < length files
     \<and> bk_locations b = (block_span (files ! i) s (bk_length b), block_span (files ! j) t (bk_length b))
     \<and> BLOCK_WINDOW \<le> bk_length b \<and> s + bk_length b \<le> length (texts_of (files ! i)) \<and> t + bk_length b \<le> length (texts_of (files ! j))
     \<and> take (bk_length b) (drop s (texts_of (files ! i))) = take (bk_length b) (drop t (texts_of (files ! j)))
     \<and> (i = j \<longrightarrow> s + BLOCK_WINDOW \<le> t \<or> t + BLOCK_WINDOW \<le> s)
     \<and> pairKey (src_path (files ! i)) (src_path (files ! j)) \<notin> skipPairs)"

text \<open>The files as loaded: their hashes are those of their windows, and the digest tells the windows apart.\<close>

definition hashes_tell :: "(jstring \<Rightarrow> jstring) \<Rightarrow> SourceFile list \<Rightarrow> bool" where
  "hashes_tell digest files \<longleftrightarrow> (\<forall>file \<in> set files. src_hashes file = blockHashes digest (src_substantial file))
     \<and> (\<forall>f \<in> set files. \<forall>g \<in> set files. \<forall>v \<in> set (windows (texts_of f)). \<forall>w \<in> set (windows (texts_of g)).
          digest (join_with [10] v) = digest (join_with [10] w) \<longrightarrow> v = w)"

lemma windows_nth:
  "s < length (windows ts) \<Longrightarrow> windows ts ! s = take BLOCK_WINDOW (drop s ts) \<and> s + BLOCK_WINDOW \<le> length ts"
  by (auto simp: windows_def)

lemma grown_agrees:
  assumes "take BLOCK_WINDOW xs = take BLOCK_WINDOW ys" "BLOCK_WINDOW \<le> length xs" "BLOCK_WINDOW \<le> length ys"
  shows "take (grow_block xs ys) xs = take (grow_block xs ys) ys \<and> grow_block xs ys \<le> length xs \<and> grow_block xs ys \<le> length ys"
proof -
  let ?n = "common_prefix (drop BLOCK_WINDOW xs) (drop BLOCK_WINDOW ys)"
  have "take ?n (drop BLOCK_WINDOW xs) = take ?n (drop BLOCK_WINDOW ys)" "?n \<le> length xs - BLOCK_WINDOW" "?n \<le> length ys - BLOCK_WINDOW"
    using common_prefix_take [of ?n "drop BLOCK_WINDOW xs" "drop BLOCK_WINDOW ys"] by simp_all
  moreover from this assms(2,3) have "BLOCK_WINDOW + ?n \<le> length xs" "BLOCK_WINDOW + ?n \<le> length ys" by linarith+
  ultimately show ?thesis using assms by (simp add: grow_block_def take_add)
qed

lemma visit_sound:
  assumes tell: "hashes_tell digest files" and "i < length files" "start < length (src_hashes (files ! i))" "src_hashes (files ! i) ! start = hash"
    and blocks: "\<forall>b \<in> set (snd st). block_sound files skipPairs b"
  shows "\<forall>b \<in> set (snd (visit_start files skipPairs st (i, start, hash))). block_sound files skipPairs b"
proof (cases "(i, start) \<in> fst st \<or> find (may_partner files skipPairs (fst st) i start)
    (case map_get (hash_index files) hash of None \<Rightarrow> [] | Some seen \<Rightarrow> seen) = None")
  case True
  then show ?thesis using blocks by (auto simp: visit_start_def Let_def split_beta)
next
  case False
  then obtain j t where p: "find (may_partner files skipPairs (fst st) i start)
      (case map_get (hash_index files) hash of None \<Rightarrow> [] | Some seen \<Rightarrow> seen) = Some (j, t)" "(i, start) \<notin> fst st"
    by auto
  then have "(j, t) \<in> set (case map_get (hash_index files) hash of None \<Rightarrow> [] | Some seen \<Rightarrow> seen)"
    and may: "may_partner files skipPairs (fst st) i start (j, t)" using found_in [OF p(1)] by blast+
  then have "(j, t) \<in> entries_of (hash_index files) hash" by (cases "map_get (hash_index files) hash") (simp_all add: entries_of_def)
  note ix = indexed [OF this]
  let ?f = "texts_of (files ! i)" and ?g = "texts_of (files ! j)"
  have hashes: "src_hashes (files ! k) = map (\<lambda>w. digest (join_with [10] w)) (windows (texts_of (files ! k)))" if "k < length files" for k
    using tell that by (simp add: hashes_tell_def blockHashes_def texts_of_def)
  have w: "start < length (windows ?f)" "t < length (windows ?g)"
    using assms(2,3) ix hashes by auto
  have "src_hashes (files ! i) ! start = digest (join_with [10] (windows ?f ! start))"
    "src_hashes (files ! j) ! t = digest (join_with [10] (windows ?g ! t))"
    using hashes [of i] hashes [of j] assms(2) ix w by simp_all
  then have "digest (join_with [10] (windows ?f ! start)) = digest (join_with [10] (windows ?g ! t))"
    using assms(4) ix by simp
  then have "windows ?f ! start = windows ?g ! t"
  proof -
    have "files ! i \<in> set files" "files ! j \<in> set files" using assms(2) ix by auto
    moreover have "windows ?f ! start \<in> set (windows ?f)" "windows ?g ! t \<in> set (windows ?g)" using w by (auto intro: nth_mem)
    ultimately show ?thesis
      using tell \<open>digest (join_with [10] (windows ?f ! start)) = digest (join_with [10] (windows ?g ! t))\<close>
      unfolding hashes_tell_def by blast
  qed
  then have same: "take BLOCK_WINDOW (drop start ?f) = take BLOCK_WINDOW (drop t ?g)" "start + BLOCK_WINDOW \<le> length ?f" "t + BLOCK_WINDOW \<le> length ?g"
    using windows_nth w by auto
  let ?n = "grow_block (drop start ?f) (drop t ?g)"
  have grown: "take ?n (drop start ?f) = take ?n (drop t ?g)" "?n \<le> length ?f - start" "?n \<le> length ?g - t"
    using grown_agrees [of "drop start ?f" "drop t ?g"] same by simp_all
  have apart: "i = j \<longrightarrow> start + BLOCK_WINDOW \<le> t \<or> t + BLOCK_WINDOW \<le> start"
    "pairKey (src_path (files ! i)) (src_path (files ! j)) \<notin> skipPairs"
    using may by (auto simp: may_partner_def)
  have fits: "start + ?n \<le> length ?f" "t + ?n \<le> length ?g" "BLOCK_WINDOW \<le> ?n"
    using grown(2,3) same(2,3) by (simp_all add: grow_block_def)
  have "block_sound files skipPairs \<lparr>bk_length = ?n, bk_locations = (block_span (files ! i) start ?n, block_span (files ! j) t ?n)\<rparr>"
    unfolding block_sound_def ClonedBlock.simps
    by (rule exI [of _ i], rule exI [of _ j], rule exI [of _ start], rule exI [of _ t])
      (intro conjI assms(2) ix [THEN conjunct1] refl fits grown(1) apart)
  moreover have "snd (visit_start files skipPairs st (i, start, hash)) = snd st @
      [\<lparr>bk_length = ?n, bk_locations = (block_span (files ! i) start ?n, block_span (files ! j) t ?n)\<rparr>]"
    using p by (simp add: visit_start_def Let_def split_beta)
  ultimately show ?thesis using blocks by auto
qed

text \<open>
  C30. With a digest that tells the windows apart, every block reported is one: its two places
  lie in files whose pair is not reported already, hold the same lines over the length reported,
  at least the window, and are different places, none starting inside the other's first window.
\<close>

theorem reported_blocks_repeat:
  assumes "hashes_tell digest files" "b \<in> set (clonedBlocks files skipPairs)"
  shows "block_sound files skipPairs b"
proof -
  have run: "\<forall>b \<in> set (snd (foldl (visit_start files skipPairs) st starts)). block_sound files skipPairs b"
    if "\<forall>b \<in> set (snd st). block_sound files skipPairs b"
      "\<forall>(i, s, h) \<in> set starts. i < length files \<and> s < length (src_hashes (files ! i)) \<and> src_hashes (files ! i) ! s = h" for st starts
    using that
  proof (induction starts arbitrary: st)
    case (Cons v starts)
    obtain i s h where v: "v = (i, s, h)" by (rule prod_cases3)
    then have at: "i < length files" "s < length (src_hashes (files ! i))" "src_hashes (files ! i) ! s = h" using Cons.prems(2) by auto
    have "\<forall>b \<in> set (snd (visit_start files skipPairs st v)). block_sound files skipPairs b"
      unfolding v by (rule visit_sound [OF assms(1) at Cons.prems(1)])
    then show ?case using Cons.IH Cons.prems(2) unfolding foldl_Cons by (meson list.set_intros(2))
  qed simp
  have "\<forall>(i, s, h) \<in> set (block_starts files). i < length files \<and> s < length (src_hashes (files ! i)) \<and> src_hashes (files ! i) ! s = h"
    by (auto simp: block_starts_def in_set_enumerate_eq)
  then show ?thesis using run [of "({}, [])" "block_starts files"] assms(2) by (simp add: clonedBlocks_def)
qed

definition repeated_file :: "string \<Rightarrow> SourceFile" where
  "repeated_file name = (let substantial = zip (replicate BLOCK_WINDOW (lit ''let it'')) [1..<Suc BLOCK_WINDOW] in
     \<lparr>src_path = lit name, src_lines = map fst substantial, src_substantial = substantial,
      src_hashes = blockHashes (\<lambda>t. t) substantial\<rparr>)"

theorem reported_blocks_repeat_witness:
  "\<exists>b. b \<in> set (clonedBlocks [repeated_file ''a'', repeated_file ''b''] {}) \<and> block_sound [repeated_file ''a'', repeated_file ''b''] {} b"
proof -
  let ?files = "[repeated_file ''a'', repeated_file ''b'']"
  have texts: "texts_of (repeated_file x) = replicate BLOCK_WINDOW (lit ''let it'')" for x
    by (simp add: texts_of_def repeated_file_def Let_def)
  have hashes: "src_hashes (repeated_file x) = [join_with [10] (replicate BLOCK_WINDOW (lit ''let it''))]" for x
    by (simp add: repeated_file_def Let_def blockHashes_def windows_def)
  have one: "windows (replicate BLOCK_WINDOW (lit ''let it'')) = [replicate BLOCK_WINDOW (lit ''let it'')]"
    by (simp add: windows_def)
  have tell: "hashes_tell (\<lambda>t. t) ?files"
    unfolding hashes_tell_def by (simp add: texts one) (simp add: repeated_file_def Let_def)
  obtain h where h: "src_hashes (repeated_file x) = [h]" for x using hashes by blast
  have ix: "hash_index ?files = [(h, [(0, 0), (1, 0)])]"
    by (simp add: hash_index_def h pushed_def)
  have starts: "block_starts ?files = [(0, 0, h), (1, 0, h)]"
    by (simp add: block_starts_def h)
  have "snd (foldl (visit_start ?files {}) ({}, []) (block_starts ?files)) \<noteq> []"
    unfolding starts by (simp add: visit_start_def ix may_partner_def BLOCK_WINDOW_def Let_def split_beta)
  then have "clonedBlocks ?files {} \<noteq> []" by (metis clonedBlocks_def length_js_sort length_0_conv)
  then obtain b where "b \<in> set (clonedBlocks ?files {})" by (meson list.set_sel(1))
  then show ?thesis using reported_blocks_repeat [OF tell] by blast
qed

subsection \<open>The report\<close>

definition pad_start :: "nat \<Rightarrow> jstring \<Rightarrow> jstring" where "pad_start n s = replicate (n - length s) 32 @ s"

definition pair_lines :: "ClonedPair \<Rightarrow> jstring list" where
  "pair_lines p =
     (let note = (case cl_nouns p of None \<Rightarrow> [] | Some (m, n) \<Rightarrow> lit ''  ['' @ m @ lit '' <-> '' @ n @ lit '' masked]'') in
      [lit ''  '' @ pad_start 3 (show_int (js_round (cl_similarity p * 100))) @ lit ''%  '' @ pad_start 4 (show_int (cl_differing p))
        @ lit '' differing of '' @ show_nat (cl_total p) @ lit '' lines'' @ note,
       lit ''         '' @ fst (cl_paths p), lit ''         '' @ snd (cl_paths p)])"

definition block_lines :: "ClonedBlock \<Rightarrow> jstring list" where
  "block_lines b = [lit ''  '' @ pad_start 4 (show_nat (bk_length b)) @ lit '' lines'',
     lit ''         '' @ fst (bk_locations b), lit ''         '' @ snd (bk_locations b)]"

definition reported_pairs :: "ClonedPair list \<Rightarrow> jstring set" where
  "reported_pairs pairs = set (map (\<lambda>p. pairKey (fst (cl_paths p)) (snd (cl_paths p))) pairs)"

text \<open>The printed lines; the dash of the first is U+2014 and the two comparison signs of the headings are ASCII.\<close>

definition report_lines :: "SourceFile list \<Rightarrow> jstring list" where
  "report_lines files =
     [lit ''duplication report '' @ [8212] @ lit '' '' @ show_nat (length files) @ lit '' Rust and TypeScript sources'' @ [10],
         lit ''== Cloned files (>= '' @ show_int (js_round (MIN_PAIR_SIMILARITY * 100)) @ lit ''% of lines shared, worst first) =='']
      @ (let pairs = clonedFiles files in
           (if pairs = [] then [lit ''  (none)''] else []) @ concat (map pair_lines (take MAX_REPORTED_PAIRS pairs))
         @ (if MAX_REPORTED_PAIRS < length pairs
            then [lit ''  ... and '' @ show_nat (length pairs - MAX_REPORTED_PAIRS) @ lit '' more above the threshold''] else []))
      @ (let blocks = clonedBlocks files (reported_pairs (clonedFiles files)) in
           [10 # lit ''== Cloned blocks (>= '' @ show_nat BLOCK_WINDOW @ lit '' lines repeated verbatim elsewhere) ==''] @
           (if blocks = [] then [lit ''  (none)''] else []) @ concat (map block_lines (take MAX_REPORTED_BLOCKS blocks))
         @ (if MAX_REPORTED_BLOCKS < length blocks
            then [lit ''  ... and '' @ show_nat (length blocks - MAX_REPORTED_BLOCKS) @ lit '' more''] else []))
      @ [10 # lit ''  Reporting only '' @ [8212] @ lit '' nothing here fails a build. Some pairs are deliberate;'',
         lit ''  scripts/report-duplication.mjs lists the separations that must not be merged.'']"

text \<open>The script: a listing that cannot be had is reported in a line of its own, and it always exits with zero.\<close>

definition duplication_script :: "(jstring \<Rightarrow> jstring) \<Rightarrow> (jstring + jstring) \<Rightarrow> (jstring \<Rightarrow> jstring + jstring) \<Rightarrow> jstring list \<times> nat" where
  "duplication_script digest listing read =
     (let failed = (\<lambda>message. [lit ''duplication report unavailable: '' @ message]) in
      (case listing of Inl message \<Rightarrow> failed message
       | Inr listed \<Rightarrow>
           let paths = sourcePaths listed in
           (case find (\<lambda>p. case read p of Inl _ \<Rightarrow> True | Inr _ \<Rightarrow> False) paths of
              Some p \<Rightarrow> failed (case read p of Inl message \<Rightarrow> message | Inr _ \<Rightarrow> [])
            | None \<Rightarrow> report_lines (map (\<lambda>p. load digest p (case read p of Inr raw \<Rightarrow> raw | Inl _ \<Rightarrow> [])) paths)), 0))"

lemma never_fails_a_build: "snd (duplication_script digest listing read) = 0"
  by (simp add: duplication_script_def Let_def)

end
