(* ===== verification/ColorGuard.thy ===== *)
theory ColorGuard
  imports Prelude
begin

section \<open>The guard of the theme's colours\<close>

text \<open>
  \<open>scripts/check-theme-colors.mjs\<close>: which files are inspected, what of a style sheet is inspected, and the violations reported
  with their lines. The four regular expressions are a parameter, the matches of each in a text with their offsets; so is the walk of
  the directory.
\<close>

definition GUARDED_EXTENSIONS :: "jstring list" where
  "GUARDED_EXTENSIONS = map lit [''.ts'', ''.tsx'', ''.css'', ''.html'']"

definition TECHNICAL_SENTINELS :: "(jstring, jstring) jsmap" where
  "TECHNICAL_SENTINELS = [(lit ''crates/app/ui/src/lib/mermaid/color.ts'', lit ''const UNSET = '' @ [34] @ lit ''#000001'' @ [34] @ lit '';'')]"

definition COLOR_LABELS :: "jstring list" where
  "COLOR_LABELS = map lit [''numeric color literal'', ''raw Tailwind palette utility'', ''appearance-specific paint utility'',
     ''named CSS pigment'']"

text \<open>Every code point but a newline becomes one space: a surrogate pair is one code point.\<close>


fun blanked :: "jstring \<Rightarrow> jstring" where
  "blanked [] = []"
| "blanked [u] = [if u = 10 then 10 else 32]"
| "blanked (u # v # us) = (if is_high u \<and> is_low v then 32 # blanked us else (if u = 10 then 10 else 32) # blanked (v # us))"

definition delimiter :: "nat \<Rightarrow> bool" where "delimiter c \<longleftrightarrow> c \<in> {123, 125, 59}"

fun declarations_from :: "jstring \<Rightarrow> jstring \<Rightarrow> jstring" where
  "declarations_from segment [] = segment"
| "declarations_from segment (c # cs) =
     (if delimiter c then (if c = 123 then blanked segment else segment) @ c # declarations_from [] cs
      else declarations_from (segment @ [c]) cs)"

definition declarationsOnly :: "jstring \<Rightarrow> jstring" where "declarationsOnly source = declarations_from [] source"

definition lineNumber :: "jstring \<Rightarrow> nat \<Rightarrow> nat" where
  "lineNumber source offset = length (split_on 10 (take offset source))"

text \<open>\<open>replace\<close> of the first occurrence of a text.\<close>

fun without_first :: "jstring \<Rightarrow> jstring \<Rightarrow> jstring" where
  "without_first mark [] = []"
| "without_first mark (c # cs) = (if starts_with (c # cs) mark then drop (length mark) (c # cs) else c # without_first mark cs)"

definition extname :: "jstring \<Rightarrow> jstring" where
  "extname name = (let base = rev (takeWhile (\<lambda>c. c \<noteq> 47) (rev name)); tail = rev (takeWhile (\<lambda>c. c \<noteq> 46) (rev base)) in
     if length tail + 1 < length base then 46 # tail else [])"

definition inspected_text :: "jstring \<Rightarrow> jstring \<Rightarrow> jstring" where
  "inspected_text name source =
     (let inspected = (case map_get TECHNICAL_SENTINELS name of None \<Rightarrow> source | Some sentinel \<Rightarrow> without_first sentinel source) in
      if extname name = lit ''.css'' then declarationsOnly inspected else inspected)"

definition violationsIn :: "(jstring \<Rightarrow> jstring \<Rightarrow> (nat \<times> jstring) list) \<Rightarrow> jstring \<Rightarrow> jstring \<Rightarrow> jstring list" where
  "violationsIn matches name source =
     (let inspected = inspected_text name source in
      concat (map (\<lambda>label. map (\<lambda>(offset, found). name @ lit '':'' @ show_nat (lineNumber inspected offset) @ lit '' '' @ label @ lit '': '' @ found)
        (matches label inspected)) COLOR_LABELS))"

definition isProductionSource :: "jstring \<Rightarrow> jstring \<Rightarrow> bool" where
  "isProductionSource path name \<longleftrightarrow> extname path \<in> set GUARDED_EXTENSIONS
     \<and> \<not> str_includes name (lit ''/test/'') \<and> \<not> str_includes name (lit ''.test.'') \<and> \<not> str_includes name (lit ''.spec.'')"

definition SELF_CHECK :: "(jstring \<times> jstring \<times> nat) list" where
  "SELF_CHECK =
    [(lit ''fixture.css'', lit ''.w .'' @ [92] @ lit ''!text-red-500 {'' @ [10] @ lit ''  color: var(--theme-error);'' @ [10, 125, 10], 0),
     (lit ''fixture.css'', lit ''.w {'' @ [10] @ lit ''  color: red;'' @ [10, 125, 10], 1),
     (lit ''fixture.css'', lit ''.w {'' @ [10] @ lit ''  background: #ff0000;'' @ [10, 125, 10], 1),
     (lit ''fixture.css'', lit ''.w {'' @ [10] @ lit ''  @apply text-red-500;'' @ [10, 125, 10], 1),
     (lit ''fixture.tsx'', lit ''const badge = <b className='' @ [34] @ lit ''text-red-500'' @ [34] @ lit '' />;'' @ [10], 1)]"

definition selfCheck :: "(jstring \<Rightarrow> jstring \<Rightarrow> (nat \<times> jstring) list) \<Rightarrow> bool" where
  "selfCheck matches \<longleftrightarrow> list_all (\<lambda>(name, source, found). length (violationsIn matches name source) = found) SELF_CHECK"

text \<open>The guard: whether it passes, and the violations of the production sources under their repository names.\<close>

definition color_guard ::
  "(jstring \<Rightarrow> jstring \<Rightarrow> (nat \<times> jstring) list) \<Rightarrow> (jstring \<times> jstring \<times> jstring \<times> jstring) list \<Rightarrow> bool \<times> jstring list" where
  "color_guard matches files =
     (if \<not> selfCheck matches then (False, [])
      else let violations = concat (map (\<lambda>(path, under_root, name, source). violationsIn matches name source)
             (filter (\<lambda>(path, under_root, name, source). isProductionSource path under_root) files))
        in (violations = [], violations))"

definition newlines :: "jstring \<Rightarrow> nat" where "newlines s = length (filter (\<lambda>c. c = 10) s)"

lemma newlines_simps [simp]: "newlines [] = 0" "newlines (c # cs) = (if c = 10 then Suc (newlines cs) else newlines cs)"
  "newlines (s @ t) = newlines s + newlines t"
  by (simp_all add: newlines_def)

lemma split_counts: "length (split_on 10 s) = Suc (newlines s)"
proof (induction s)
  case (Cons c s)
  then show ?case by (cases "split_on 10 s") simp_all
qed simp

lemma blanked_newlines [simp]: "newlines (blanked s) = newlines s"
  by (induction s rule: blanked.induct) (auto simp: is_high_def is_low_def)

lemma declarations_newlines: "newlines (declarations_from segment s) = newlines segment + newlines s"
  by (induction segment s rule: declarations_from.induct) (auto simp: delimiter_def)

lemma declarations_split:
  "delimiter d \<Longrightarrow> declarations_from segment (a @ d # b) = declarations_from segment (a @ [d]) @ declarations_from [] b"
  by (induction segment a rule: declarations_from.induct) auto

text \<open>
  Blanking the preludes of a style sheet moves no line: what follows a delimiter is inspected on
  the line it has in the source, and what is declared between two delimiters that are not an
  opening brace is inspected as it is written.
\<close>

theorem blanking_keeps_lines:
  assumes "delimiter d"
  shows "\<exists>before. declarationsOnly (a @ d # b) = before @ declarationsOnly b
    \<and> lineNumber (declarationsOnly (a @ d # b)) (length before) = lineNumber (a @ d # b) (length a + 1)"
proof (intro exI conjI)
  show "declarationsOnly (a @ d # b) = declarationsOnly (a @ [d]) @ declarationsOnly b"
    unfolding declarationsOnly_def by (rule declarations_split [OF assms])
  then show "lineNumber (declarationsOnly (a @ d # b)) (length (declarationsOnly (a @ [d]))) = lineNumber (a @ d # b) (length a + 1)"
    by (simp add: lineNumber_def split_counts) (simp add: declarationsOnly_def declarations_newlines)
qed

theorem blanking_keeps_lines_witness:
  "\<exists>before. declarationsOnly (lit ''.red'' @ 123 # lit ''color:red'') = before @ declarationsOnly (lit ''color:red'')"
  using blanking_keeps_lines [of 123 "lit ''.red''" "lit ''color:red''"] by (auto simp: delimiter_def)

text \<open>A character outside the basic plane is blanked to one space, not two: the text is shorter, its lines are not.\<close>

lemma astral_prelude_shrinks: "length (declarationsOnly [55357, 56832, 123]) = 2"
  by (simp add: declarationsOnly_def delimiter_def is_high_def is_low_def)

end
