(* ===== verification/Spec2Isabelle.thy ===== *)
theory Spec2Isabelle
  imports Prelude Domain Status ProcessActions Projection ProcessStore Forest Grouping
    Signals Navigation PtyStream ToastTimers MutationQueue TrustReview Ordering Panels Todos
    ShellText GitDisplay GitTree Hotkeys Palette Notify
    EditorSession RepositoryReads GitActions RosterReads Snapshots Settings Projects Templates Surfaces
    ThemeLaws AppearanceStore Api
    DiagramSurface EditorText EditorSearch SidebarKeys TerminalPane TerminalTools CloneReport ColorGuard
begin

text \<open>
  \<^bold>\<open>The front end's logic\<close>

  Soloist supervises the processes of a development stack. A core, written in Rust, owns the
  processes and emits domain events; the front end under \<open>src/crates/app/ui/src/\<close>, written in
  TypeScript, keeps read models of the core's state, decides what can be done to each process and
  turns what a person does into calls. This library models that front end below its views: the
  modules that hold state or compute, as HOL definitions that follow the source statement by
  statement. What the views draw (the markup of the \<open>.tsx\<close> files) and what the Rust
  crates do are not modelled; a reply of the core is an input of a run, in every order and with every
  outcome the asynchronous code can see.

  \<^bold>\<open>Conventions\<close> (\<open>Prelude\<close>, \<open>Domain\<close>)

  A JavaScript string is a list of its 16-bit code units (\<open>jstring\<close>, literals by \<open>lit\<close>), a number
  used as an id or a count is an \<open>int\<close> or a \<open>nat\<close>, \<open>null\<close> and \<open>undefined\<close> are \<open>None\<close>. A \<open>Map\<close>
  is an association list without duplicate keys that keeps insertion order (\<open>jsmap\<close>, interpreted
  in the locale \<open>keyed_store\<close>), a \<open>Set\<close> is the list of its elements in insertion order. A string union is
  a datatype, an interface is a record, a discriminated union is a datatype with the source's
  tags. Case mapping, locale comparison and the clock are the runtime's and are parameters.
  A component that keeps state is a record with one function per method or callback; a run is the
  fold of its operations from its initial state, and the locale \<open>machine\<close> gives induction over
  runs once for every component that interprets it.

  \<^bold>\<open>Parts\<close>

    \<^item> \<open>Status\<close>, \<open>ProcessActions\<close>: \<open>lib/status.ts\<close>, \<open>lib/activity.ts\<close>, \<open>lib/processActions.ts\<close>. The
      theorems say exactly when each action is offered and what the dense controls show of them.
    \<^item> \<open>Projection\<close>, \<open>ProcessStore\<close>: \<open>store/projection.ts\<close> and \<open>store/useProcesses.ts\<close>. The
      process list is a fold of events over a snapshot. \<open>Projection\<close> proves that replaying events
      over a snapshot that already holds some of them changes nothing more; \<open>ProcessStore\<close>
      composes the store with a core that emits events, delivers them later and answers snapshot
      requests in any order, and proves that the list converges to the core's.
    \<^item> \<open>Forest\<close>, \<open>Grouping\<close>: \<open>store/grouping.ts\<close>, \<open>store/projects/\<close>,
      \<open>store/orchestrationTree.ts\<close>. The source links mutable nodes by one
      pass over the rows and its readers follow the links; the model reads the graph as a tree with
      one unit of fuel per level, as many as there are rows, and \<open>Forest\<close> proves that this is
      enough whenever ids are distinct, whatever the parent edges are. The functional theorems
      then count rows as multisets.
    \<^item> \<open>Signals\<close>: \<open>store/signals.ts\<close>, \<open>store/signalStore.ts\<close>. Each reading is the last one the
      operations gave it, and listeners are called exactly on a change.
    \<^item> \<open>Navigation\<close>: \<open>store/useProcessActivationNavigation.ts\<close> and
      \<open>store/processActivationHistory.ts\<close>. Where the shown pane goes when processes stop,
      restart or are removed.
    \<^item> \<open>PtyStream\<close>: \<open>components/terminal/terminalStream.ts\<close>. The output queue between the backend
      and the emulator, its cap, its shedding and its cancellation, against the ghost stream of
      bytes received since the last resync.
    \<^item> \<open>ToastTimers\<close>: \<open>lib/toastDismissal.ts\<close>, with the runtime's table of pending timeouts.
    \<^item> \<open>MutationQueue\<close>: \<open>store/appearanceMutationQueue.ts\<close>. Promises are numbered tickets; the
      locale \<open>detaching\<close> of that theory states the contract of a queue in order of issue.
    \<^item> \<open>TrustReview\<close>: \<open>store/useTrust.ts\<close>, \<open>store/useTrustRequests.ts\<close>. The dialog that grants
      commands, with grants in flight, and the queue of trust requests.
    \<^item> \<open>Todos\<close>, \<open>Panels\<close>, \<open>Ordering\<close>: the todo board, sortable lists, timers, messages and
      rosters. \<open>Ordering\<close> models \<open>Array.prototype.sort\<close> as a stable insertion sort by a
      comparator (locale \<open>comparator\<close>), which is what the language specifies up to the algorithm.
    \<^item> \<open>ShellText\<close>: \<open>lib/tokenizeArgs.ts\<close>, \<open>lib/shellQuote.ts\<close>, with a reader of POSIX words
      as the specification of quoting.
    \<^item> \<open>GitDisplay\<close>, \<open>GitTree\<close>: \<open>lib/git.ts\<close>, \<open>store/git/branchCluster.ts\<close>,
      \<open>store/git/tree.ts\<close>. The builder's node map is mutated through aliases in the source; in
      the model it is the association list threaded through the walk.
    \<^item> \<open>Hotkeys\<close>, \<open>Palette\<close>: \<open>lib/hotkeys.ts\<close>, \<open>lib/commands.ts\<close>.
    \<^item> \<open>Notify\<close>: \<open>lib/attention.ts\<close>, \<open>lib/notifications.ts\<close>, \<open>lib/sidebar.ts\<close>,
      \<open>lib/agents.ts\<close>, \<open>lib/templates.ts\<close>, \<open>lib/tools.ts\<close>.
    \<^item> \<open>Autosave\<close>, \<open>DocEditor\<close>: \<open>components/editor/useAutosave.ts\<close> and the editors of
      scratchpads, diagrams, templates and todos under \<open>store/\<close>, each with its calls pending under
      tickets. \<open>GuardedEditor\<close> puts an editor beside a core whose rows carry revisions and beside other
      writers, with the law of the guard as a locale; \<open>EditorRuns\<close> interprets it for each editor and
      proves that no version is overwritten that the editor never showed. \<open>EditorSession\<close> composes the
      scratchpad editor with its autosave down to the stored text.
    \<^item> \<open>Rereading\<close>: the machinery of every hook that answers an event by reading again, as the locales
      \<open>rereader\<close> and \<open>faithful_rereader\<close>. \<open>RepositoryReads\<close> (\<open>store/git/\<close>) and \<open>RosterReads\<close>
      (\<open>store/useOrchestration.ts\<close>, \<open>store/useLineage.ts\<close>) interpret them. \<open>GitDomain\<close> holds the
      shapes they read.
    \<^item> \<open>GitActions\<close>: \<open>store/git/useGitActions.ts\<close> and the hooks over it, which change a repository.
    \<^item> \<open>Snapshots\<close>: reads stamped with a generation (\<open>store/cache/\<close>, \<open>store/useAttention.ts\<close>), as the
      locale \<open>newest_wins\<close>.
    \<^item> \<open>Settings\<close>, \<open>Projects\<close>, \<open>Templates\<close>, \<open>Surfaces\<close>: the settings documents, the project list
      with leftovers and watch limits, the template manager and its preview, and the small hooks of the
      panes (terminal pool, scroll spy, removal, todo actions, collapse state, presence).
    \<^item> \<open>SettingsDomain\<close>, \<open>Colors\<close>, \<open>Contrast\<close>, \<open>ThemeDerive\<close>, \<open>Themes\<close>, \<open>ThemeRuntime\<close>,
      \<open>ThemeCatalog\<close>: the files of \<open>theme/\<close> and the shipped catalog. A palette is a function from
      roles; a colour function that throws on malformed hex is an option, and \<open>returns\<close> is its
      total-correctness rule. The document root is a record of what \<open>applyTheme\<close> sets on it.
      \<open>ThemeLaws\<close> proves that derived palettes read, that resolving never throws and that the root
      carries the last theme whole.
    \<^item> \<open>AppearanceTables\<close>, \<open>AppearanceStore\<close>: \<open>lib/appearance.ts\<close>, \<open>lib/terminalPalette.ts\<close>,
      \<open>store/AppearanceProvider.tsx\<close>, \<open>store/useThemeLibrary.ts\<close>. The members of a document that the
      code compares by reference are values with an identity.
    \<^item> \<open>Wire\<close>, \<open>Commands\<close>, \<open>Api\<close>: the boundary. \<open>Wire\<close> has JSON values, the Rust types of the core's
      arguments and the encoding of the client's shapes; \<open>Commands\<close> the commands the shell registers
      (\<open>crates/app/src/\<close>) with their parameters; \<open>Api\<close> every function of \<open>api.ts\<close> as the call it makes.
      The theorem is that the two sides agree.
    \<^item> \<open>DiagramSource\<close>, \<open>DiagramTools\<close>, \<open>SvgSize\<close>, \<open>DiagramEngine\<close>, \<open>DiagramSurface\<close>: the files of
      \<open>lib/mermaid/\<close>. What the library draws is a function of its configuration and the source; the
      engine's queue, its one configuration and its cache are a record stepped by requests, turns of the
      palette and the ends of drawings.
    \<^item> \<open>EditorText\<close>, \<open>EditorSearch\<close>: the files of \<open>components/editor/\<close> that compute. A regular
      expression is written out as a reader. The matcher is a loop that may not end, hence a partial
      function, and the theorems show that it does.
    \<^item> \<open>SidebarKeys\<close>: \<open>components/sidebar/\<close>: a project's menu and the keys of the tree.
    \<^item> \<open>TerminalPane\<close>, \<open>TerminalTools\<close>: \<open>components/terminal/\<close>. The pane's effects are a record stepped by
      what React and the core can do to it; the emulator's calls are values in a log. The search addon is
      a parameter with the laws the source's comments state of it.
    \<^item> \<open>CloneMeasure\<close>, \<open>CloneReport\<close>, \<open>ColorGuard\<close>: the scripts \<open>report-duplication.mjs\<close> and
      \<open>check-theme-colors.mjs\<close> under \<open>scripts/\<close>.

  \<^bold>\<open>What the theorems show of the code's limits\<close>

  Some theorems state behaviour the code's own comments do not intend: the dense controls hide Stop for a
  running command whose trust was withdrawn (\<open>ProcessActions\<close>), a failed snapshot drops the
  events buffered for it (\<open>ProcessStore\<close>), rows on a lineage cycle are shown nowhere
  (\<open>Grouping\<close>), a command's grant edits another project's review (\<open>TrustReview\<close>), a file replaced
  by a directory is never expanded (\<open>GitTree\<close>), and a resume that no pause preceded strands a
  timeout (\<open>ToastTimers\<close>). Replies that arrive out of order, or for something no longer open, are
  installed by several hooks: repository reads (\<open>RepositoryReads\<close>), settings (\<open>Settings\<close>), template
  listings and previews (\<open>Templates\<close>), and an editor's save or rename (\<open>EditorRuns\<close>). An error of the
  orchestration read is never cleared (\<open>RosterReads\<close>), an emptied block of front matter can stay and a nested
  entry is taken for the override (\<open>DiagramSource\<close>), matches drift where lower-casing lengthens the text
  (\<open>EditorSearch\<close>), an alert raised before the listener is
  registered is not seen (\<open>Snapshots\<close>), and two actions, or two completions, under one key are one
  (\<open>GitActions\<close>, \<open>Surfaces\<close>). Every save of the appearance rewrites its terminal section
  (\<open>AppearanceStore\<close>).

  \<^bold>\<open>Not modelled\<close>

  React's scheduling (a state update is applied when it is made, and an effect runs at its
  commit), the DOM, xterm.js and its addons, ProseMirror, what mermaid draws, and the diff viewer. The markup of
  the views: of a \<open>.tsx\<close> file at most its handlers are modelled. Colours are computed over the reals where the
  source has IEEE doubles, so a ratio on the very edge of a minimum may differ there.
\<close>

end
